(* ===== verification/Prelude.thy ===== *)
theory Prelude
  imports Main "HOL-Library.Word" "HOL-Library.List_Lexorder" "HOL-Library.Char_ord"
begin

text \<open>
  Shared vocabulary of the development: what the Rust sources use of the language and its
  standard library, and the generic facts about it.

  \<^item> Rust's \<^verbatim>\<open>String\<close> and \<^verbatim>\<open>&str\<close> are the HOL type \<open>string\<close> read as the text's UTF-8 bytes:
    \<^verbatim>\<open>len()\<close> is \<open>length\<close>, \<^verbatim>\<open>Ord\<close> is the bytewise lexicographic order of
    \<open>List_Lexorder\<close> and \<open>Char_ord\<close>, and the operations that look at
    characters (\<^verbatim>\<open>trim\<close>, \<^verbatim>\<open>chars\<close>, \<^verbatim>\<open>is_char_boundary\<close>, \<^verbatim>\<open>char::is_control\<close>) recognise the UTF-8
    encodings of those characters.
  \<^item> \<^verbatim>\<open>BTreeMap\<close> is an association list in ascending key order, \<^verbatim>\<open>BTreeSet\<close> an ascending
    list without duplicates, so that iteration order is the list's order.
  \<^item> \<^verbatim>\<open>iter().position\<close> and updates of the element found are \<open>position\<close> and \<open>upd_at\<close>.
  \<^item> \<^verbatim>\<open>Result<T, E>\<close> is the sum \<open>'e + 'a\<close> with \<open>Inl\<close> for \<^verbatim>\<open>Err\<close>; an operation on
    \<^verbatim>\<open>&mut S\<close> returns the result together with the state it leaves behind, also when it
    fails.
\<close>

section \<open>Collections of facts\<close>

named_theorems coord_defs \<open>definitions of the coordinator's operations\<close>
named_theorems shape_simps \<open>what an operation leaves unchanged\<close>

section \<open>Results\<close>

type_synonym ('e, 'a, 's) outcome = "('e + 'a) \<times> 's"

fun is_ok :: "'e + 'a \<Rightarrow> bool" where
  "is_ok (Inl e) = False"
| "is_ok (Inr a) = True"

fun map_err :: "('e \<Rightarrow> 'f) \<Rightarrow> 'e + 'a \<Rightarrow> 'f + 'a" where
  "map_err f (Inl e) = Inl (f e)"
| "map_err f (Inr a) = Inr a"

text \<open>The question mark operator on a state-free result.\<close>

fun and_then :: "'e + 'a \<Rightarrow> ('a \<Rightarrow> 'e + 'b) \<Rightarrow> 'e + 'b" where
  "and_then (Inl e) f = Inl e"
| "and_then (Inr a) f = f a"

text \<open>A \<^verbatim>\<open>for\<close> loop whose body may return early with an error.\<close>

fun try_each :: "('a \<Rightarrow> 'e + unit) \<Rightarrow> 'a list \<Rightarrow> 'e + unit" where
  "try_each f [] = Inr ()"
| "try_each f (x # xs) = and_then (f x) (\<lambda>_. try_each f xs)"

lemma and_then_cong [fundef_cong]:
  "m = m' \<Longrightarrow> (\<And>a. m' = Inr a \<Longrightarrow> f a = g a) \<Longrightarrow> and_then m f = and_then m' g"
  by (cases m') auto

lemma and_then_eq_Inr [simp]: "and_then m f = Inr b \<longleftrightarrow> (\<exists>a. m = Inr a \<and> f a = Inr b)"
  by (cases m) auto

lemma is_ok_iff: "is_ok r \<longleftrightarrow> (\<exists>a. r = Inr a)"
  by (cases r) auto

lemma is_ok_unit_iff: "is_ok (r :: 'e + unit) \<longleftrightarrow> r = Inr ()"
  by (cases r) auto

lemma map_err_eq_Inr [simp]: "map_err f r = Inr a \<longleftrightarrow> r = Inr a"
  by (cases r) auto

lemma try_each_ok [simp]: "try_each f xs = Inr () \<longleftrightarrow> (\<forall>x\<in>set xs. f x = Inr ())"
  by (induction xs) auto

section \<open>Slices: position, find, indexed update\<close>

fun position :: "('a \<Rightarrow> bool) \<Rightarrow> 'a list \<Rightarrow> nat option" where
  "position P [] = None"
| "position P (x # xs) = (if P x then Some 0 else map_option Suc (position P xs))"

definition upd_at :: "nat \<Rightarrow> ('a \<Rightarrow> 'a) \<Rightarrow> 'a list \<Rightarrow> 'a list" where
  "upd_at i f xs = (if i < length xs then xs[i := f (xs ! i)] else xs)"

fun find_map :: "('a \<Rightarrow> 'b option) \<Rightarrow> 'a list \<Rightarrow> 'b option" where
  "find_map f [] = None"
| "find_map f (x # xs) = (case f x of None \<Rightarrow> find_map f xs | Some y \<Rightarrow> Some y)"

text \<open>\<^verbatim>\<open>Vec::dedup\<close>: consecutive repetitions are removed.\<close>

fun dedup :: "'a list \<Rightarrow> 'a list" where
  "dedup [] = []"
| "dedup [x] = [x]"
| "dedup (x # y # xs) = (if x = y then dedup (y # xs) else x # dedup (y # xs))"

lemma position_Some:
  "position P xs = Some i \<Longrightarrow> i < length xs \<and> P (xs ! i) \<and> (\<forall>j<i. \<not> P (xs ! j))"
proof (induction xs arbitrary: i)
  case (Cons x xs)
  then show ?case
    by (auto split: if_splits simp: less_Suc_eq_0_disj)
qed simp

lemma position_None [simp]: "position P xs = None \<longleftrightarrow> (\<forall>x\<in>set xs. \<not> P x)"
  by (induction xs) auto

lemma position_find: "find P xs = map_option ((!) xs) (position P xs)"
  by (induction xs) (auto simp: option.map_comp o_def)

lemma position_cong_len:
  "length xs = length ys \<Longrightarrow> (\<And>i. i < length xs \<Longrightarrow> P (xs ! i) = Q (ys ! i)) \<Longrightarrow>
   position P xs = position Q ys"
proof (induction xs arbitrary: ys)
  case (Cons x xs)
  then obtain y zs where ys: "ys = y # zs" by (cases ys) auto
  have "P x = Q y" using Cons.prems(2)[of 0] ys by simp
  moreover have "position P xs = position Q zs"
  proof (rule Cons.IH)
    show "length xs = length zs" using Cons.prems(1) ys by simp
    show "P (xs ! i) = Q (zs ! i)" if "i < length xs" for i
      using Cons.prems(2)[of "Suc i"] that ys by simp
  qed
  ultimately show ?case using ys by simp
qed simp

lemma position_unique:
  "distinct (map f xs) \<Longrightarrow> i < length xs \<Longrightarrow> f (xs ! i) = k \<Longrightarrow> position (\<lambda>x. f x = k) xs = Some i"
proof -
  assume d: "distinct (map f xs)" and i: "i < length xs" "f (xs ! i) = k"
  then have "\<exists>x\<in>set xs. f x = k" by auto
  then obtain j where j: "position (\<lambda>x. f x = k) xs = Some j"
    by (meson not_Some_eq position_None)
  from position_Some[OF j] have "j < length xs" "f (xs ! j) = k" by auto
  with d i have "i = j" by (metis (no_types, lifting) length_map nth_eq_iff_index_eq nth_map)
  with j show ?thesis by simp
qed

lemma length_upd_at [simp]: "length (upd_at i f xs) = length xs"
  by (simp add: upd_at_def)

lemma nth_upd_at: "j < length xs \<Longrightarrow> upd_at i f xs ! j = (if i = j then f (xs ! j) else xs ! j)"
  by (simp add: upd_at_def nth_list_update)

lemma upd_at_nth [simp]: "i < length xs \<Longrightarrow> upd_at i f xs ! i = f (xs ! i)"
  by (simp add: nth_upd_at)

lemma map_upd_at: "(\<And>x. g (f x) = g x) \<Longrightarrow> map g (upd_at i f xs) = map g xs"
  by (rule nth_equalityI) (auto simp: nth_upd_at)

lemma set_upd_atD: "x \<in> set (upd_at i f xs) \<Longrightarrow> x \<in> set xs \<or> (i < length xs \<and> x = f (xs ! i))"
  by (auto simp: in_set_conv_nth nth_upd_at split: if_splits)

lemma upd_at_upd_at [simp]: "upd_at i f (upd_at i g xs) = upd_at i (f \<circ> g) xs"
  by (simp add: upd_at_def)

lemma find_Some_set: "find P xs = Some x \<Longrightarrow> x \<in> set xs \<and> P x"
  by (induction xs) (auto split: if_splits)

lemma find_None_iff': "find P xs = None \<longleftrightarrow> (\<forall>x\<in>set xs. \<not> P x)"
  by (auto simp: find_None_iff)

lemma find_unique:
  "distinct (map f xs) \<Longrightarrow> x \<in> set xs \<Longrightarrow> find (\<lambda>y. f y = f x) xs = Some x"
proof (induction xs)
  case (Cons a xs)
  then show ?case by (cases "f a = f x") (auto simp: image_iff)
qed simp

lemma find_map_Some: "find_map f xs = Some y \<Longrightarrow> \<exists>x\<in>set xs. f x = Some y"
  by (induction xs) (auto split: option.splits)

lemma find_map_None [simp]: "find_map f xs = None \<longleftrightarrow> (\<forall>x\<in>set xs. f x = None)"
  by (induction xs) (auto split: option.splits)

lemma set_dedup [simp]: "set (dedup xs) = set xs"
  by (induction xs rule: dedup.induct) auto

lemma length_dedup: "length (dedup xs) \<le> length xs"
  by (induction xs rule: dedup.induct) auto

end
