(* ===== verification/Containers.thy ===== *)
theory Containers
  imports Prelude
begin

text \<open>
  \<^verbatim>\<open>BTreeMap<K, V>\<close> and \<^verbatim>\<open>BTreeSet<T>\<close> as the sources use them. A map is an association list
  kept in ascending key order, a set an ascending list without duplicates (the list library's
  \<open>insort_insert\<close>). The locale \<open>ordered_map\<close> states what the clients rely on, and is
  interpreted on the association lists.
\<close>

section \<open>Ordered maps\<close>

type_synonym ('k, 'v) btree_map = "('k \<times> 'v) list"

abbreviation bm_get :: "('k, 'v) btree_map \<Rightarrow> 'k \<Rightarrow> 'v option" where
  "bm_get \<equiv> map_of"

fun bm_insert :: "'k::linorder \<Rightarrow> 'v \<Rightarrow> ('k, 'v) btree_map \<Rightarrow> ('k, 'v) btree_map" where
  "bm_insert k v [] = [(k, v)]"
| "bm_insert k v ((k', v') # m) =
     (if k < k' then (k, v) # (k', v') # m
      else if k = k' then (k, v) # m
      else (k', v') # bm_insert k v m)"

definition bm_keys :: "('k, 'v) btree_map \<Rightarrow> 'k list" where
  "bm_keys m = map fst m"

definition bm_values :: "('k, 'v) btree_map \<Rightarrow> 'v list" where
  "bm_values m = map snd m"

text \<open>The representation invariant: keys strictly ascending.\<close>

definition bm_wf :: "('k::linorder, 'v) btree_map \<Rightarrow> bool" where
  "bm_wf m \<longleftrightarrow> sorted_wrt (<) (map fst m)"

text \<open>Collecting an iterator of pairs inserts them one after the other.\<close>

definition bm_collect :: "('k::linorder \<times> 'v) list \<Rightarrow> ('k, 'v) btree_map" where
  "bm_collect kvs = fold (\<lambda>(k, v). bm_insert k v) kvs []"

section \<open>The interface of an ordered map\<close>

locale ordered_map =
  fixes get :: "'m \<Rightarrow> 'k::linorder \<Rightarrow> 'v option"
    and insert' :: "'k \<Rightarrow> 'v \<Rightarrow> 'm \<Rightarrow> 'm"
    and empty :: "'m"
    and keys :: "'m \<Rightarrow> 'k list"
    and wf :: "'m \<Rightarrow> bool"
  assumes get_empty: "get empty k = None"
    and get_insert: "get (insert' k v m) k' = (if k' = k then Some v else get m k')"
    and keys_get: "set (keys m) = {k. get m k \<noteq> None}"
    and wf_empty: "wf empty"
    and wf_insert: "wf m \<Longrightarrow> wf (insert' k v m)"
    and wf_keys: "wf m \<Longrightarrow> sorted (keys m) \<and> distinct (keys m)"
begin

lemma keys_insert: "set (keys (insert' k v m)) = Set.insert k (set (keys m))"
  by (auto simp: keys_get get_insert)

lemma fold_insert_wf: "wf m \<Longrightarrow> wf (fold (\<lambda>(k, v). insert' k v) kvs m)"
  by (induction kvs arbitrary: m) (auto intro: wf_insert)

lemma fold_insert_get:
  "distinct (map fst kvs) \<Longrightarrow>
   get (fold (\<lambda>(k, v). insert' k v) kvs m) k =
   (case map_of kvs k of Some v \<Rightarrow> Some v | None \<Rightarrow> get m k)"
proof (induction kvs arbitrary: m)
  case (Cons kv kvs)
  obtain a b where kv: "kv = (a, b)" by (cases kv)
  from Cons.prems kv have "map_of kvs a = None"
    by (auto simp: map_of_eq_None_iff)
  moreover have "distinct (map fst kvs)" using Cons.prems by simp
  ultimately show ?case
    using Cons.IH[of "insert' a b m"] kv
    by (auto simp: get_insert split: option.splits)
qed simp

lemma fold_insert_keys:
  "set (keys (fold (\<lambda>(k, v). insert' k v) kvs m)) = set (keys m) \<union> fst ` set kvs"
  by (induction kvs arbitrary: m) (auto simp: keys_insert)

end

lemma bm_get_insert: "bm_get (bm_insert k v m) k' = (if k' = k then Some v else bm_get m k')"
  by (induction k v m rule: bm_insert.induct) auto

lemma bm_keys_insert: "set (map fst (bm_insert k v m)) = Set.insert k (set (map fst m))"
  by (induction k v m rule: bm_insert.induct) auto

lemma bm_wf_insert: "bm_wf m \<Longrightarrow> bm_wf (bm_insert k v m)"
proof (induction k v m rule: bm_insert.induct)
  case (2 k v k' v' m)
  then have IH: "\<not> k < k' \<Longrightarrow> k \<noteq> k' \<Longrightarrow> sorted_wrt (<) (map fst (bm_insert k v m))"
    by (simp add: bm_wf_def)
  have "\<forall>x\<in>set (map fst (bm_insert k v m)). k' < x" if "\<not> k < k'" "k \<noteq> k'"
    using 2(2) that by (auto simp: bm_wf_def bm_keys_insert simp del: set_map)
  with IH 2(2) show ?case
    by (auto simp: bm_wf_def)
qed (simp add: bm_wf_def)

interpretation btree: ordered_map bm_get bm_insert "[]" bm_keys bm_wf
proof
  show "bm_get [] k = None" for k :: 'a
    by simp
  show "bm_get (bm_insert k v m) k' = (if k' = k then Some v else bm_get m k')"
    for k k' :: 'a and v :: 'b and m
    by (rule bm_get_insert)
  show "set (bm_keys m) = {k. bm_get m k \<noteq> None}" for m :: "('a \<times> 'b) list"
    by (auto simp: bm_keys_def map_of_eq_None_iff)
  show "bm_wf []" by (simp add: bm_wf_def)
  show "bm_wf m \<Longrightarrow> bm_wf (bm_insert k v m)" for k :: 'a and v :: 'b and m
    by (rule bm_wf_insert)
  show "bm_wf m \<Longrightarrow> sorted (bm_keys m) \<and> distinct (bm_keys m)" for m :: "('a \<times> 'b) list"
    by (auto simp: bm_wf_def bm_keys_def strict_sorted_iff)
qed

lemmas bm_simps = btree.get_insert btree.keys_insert

lemma bm_collect_wf: "bm_wf (bm_collect kvs)"
  unfolding bm_collect_def by (rule btree.fold_insert_wf) (rule btree.wf_empty)

lemma bm_collect_get: "distinct (map fst kvs) \<Longrightarrow> bm_get (bm_collect kvs) k = map_of kvs k"
  unfolding bm_collect_def by (simp add: btree.fold_insert_get split: option.splits)

lemma bm_wf_values_get: "bm_wf m \<Longrightarrow> (k, v) \<in> set m \<longleftrightarrow> bm_get m k = Some v"
  by (simp add: bm_wf_def strict_sorted_iff map_of_eq_Some_iff)

section \<open>Ordered sets\<close>

text \<open>Collecting into a \<^verbatim>\<open>BTreeSet\<close> and its \<^verbatim>\<open>insert\<close>; \<^verbatim>\<open>insert\<close> returns whether the value was new.\<close>

abbreviation bs_insert :: "'a::linorder \<Rightarrow> 'a list \<Rightarrow> 'a list" where
  "bs_insert \<equiv> insort_insert"

definition bs_collect :: "'a::linorder list \<Rightarrow> 'a list" where
  "bs_collect xs = fold bs_insert xs []"

definition bs_wf :: "'a::linorder list \<Rightarrow> bool" where
  "bs_wf s \<longleftrightarrow> sorted s \<and> distinct s"

lemma bs_insert_wf: "bs_wf s \<Longrightarrow> bs_wf (bs_insert x s)"
  by (simp add: bs_wf_def distinct_insort_insert sorted_insort_insert)

lemma set_bs_insert [simp]: "set (bs_insert x s) = Set.insert x (set s)"
  by (simp add: set_insort_insert)

lemma fold_bs_insert_wf: "bs_wf s \<Longrightarrow> bs_wf (fold bs_insert xs s)"
  by (induction xs arbitrary: s) (auto simp: bs_insert_wf)

lemma set_fold_bs_insert: "set (fold bs_insert xs s) = set xs \<union> set s"
  by (induction xs arbitrary: s) auto

lemma set_bs_collect [simp]: "set (bs_collect xs) = set xs"
  by (simp add: bs_collect_def set_fold_bs_insert)

lemma bs_collect_wf: "bs_wf (bs_collect xs)"
  unfolding bs_collect_def by (rule fold_bs_insert_wf) (simp add: bs_wf_def)

lemma length_bs_collect: "length (bs_collect xs) = card (set xs)"
  using bs_collect_wf[of xs] by (metis bs_wf_def distinct_card set_bs_collect)

lemma length_bs_collect_distinct: "length (bs_collect xs) = length xs \<longleftrightarrow> distinct xs"
  by (metis card_distinct distinct_card length_bs_collect)

lemma bs_eq_iff: "bs_wf s \<Longrightarrow> bs_wf t \<Longrightarrow> s = t \<longleftrightarrow> set s = set t"
  by (auto simp: bs_wf_def intro: sorted_distinct_set_unique)

lemma bs_collect_eq_iff: "bs_collect xs = bs_collect ys \<longleftrightarrow> set xs = set ys"
  by (simp add: bs_eq_iff[OF bs_collect_wf bs_collect_wf])

end
