(* ===== verification/Text.thy ===== *)
theory Text
  imports Prelude
begin

text \<open>
  The text operations of Rust's standard library that the sources call, on UTF-8 byte strings:
  \<^verbatim>\<open>trim\<close> (Unicode \<^verbatim>\<open>White_Space\<close>), \<^verbatim>\<open>strip_prefix\<close>, \<^verbatim>\<open>find\<close>, \<^verbatim>\<open>split\<close>, \<^verbatim>\<open>chars().count()\<close>,
  \<^verbatim>\<open>is_char_boundary\<close>, \<^verbatim>\<open>char::is_control\<close>, the ASCII classes and \<^verbatim>\<open>Vec::join\<close>.
\<close>

section \<open>Bytes\<close>

definition byte_val :: "char \<Rightarrow> nat" where
  "byte_val c = of_char c"

definition byte_in :: "nat \<Rightarrow> nat \<Rightarrow> char \<Rightarrow> bool" where
  "byte_in lo hi c \<longleftrightarrow> lo \<le> byte_val c \<and> byte_val c \<le> hi"

definition is_ascii_lowercase :: "char \<Rightarrow> bool" where
  "is_ascii_lowercase = byte_in 97 122"

definition is_ascii_uppercase :: "char \<Rightarrow> bool" where
  "is_ascii_uppercase = byte_in 65 90"

definition is_ascii_digit :: "char \<Rightarrow> bool" where
  "is_ascii_digit = byte_in 48 57"

definition is_ascii_alphanumeric :: "char \<Rightarrow> bool" where
  "is_ascii_alphanumeric c \<longleftrightarrow> is_ascii_lowercase c \<or> is_ascii_uppercase c \<or> is_ascii_digit c"

definition is_ascii_hexdigit :: "char \<Rightarrow> bool" where
  "is_ascii_hexdigit c \<longleftrightarrow> is_ascii_digit c \<or> byte_in 97 102 c \<or> byte_in 65 70 c"

definition is_ascii_graphic :: "char \<Rightarrow> bool" where
  "is_ascii_graphic = byte_in 33 126"

lemmas ascii_defs = byte_val_def byte_in_def is_ascii_lowercase_def is_ascii_uppercase_def
  is_ascii_digit_def is_ascii_alphanumeric_def is_ascii_hexdigit_def is_ascii_graphic_def

text \<open>A continuation byte of a multi-byte UTF-8 character.\<close>

definition is_continuation :: "char \<Rightarrow> bool" where
  "is_continuation = byte_in 128 191"

text \<open>\<^verbatim>\<open>chars().count()\<close>: every character has exactly one byte that is no continuation byte.\<close>

definition chars_count :: "string \<Rightarrow> nat" where
  "chars_count s = length (filter (\<lambda>c. \<not> is_continuation c) s)"

definition is_char_boundary :: "string \<Rightarrow> nat \<Rightarrow> bool" where
  "is_char_boundary s i \<longleftrightarrow> i = 0 \<or> i = length s \<or> (i < length s \<and> \<not> is_continuation (s ! i))"

text \<open>\<^verbatim>\<open>str::from_utf8\<close> accepts exactly the well-formed sequences of the Unicode standard.\<close>

fun utf8_valid :: "string \<Rightarrow> bool" where
  "utf8_valid [] = True"
| "utf8_valid (a # s) =
     (if byte_val a < 128 then utf8_valid s
      else case s of
        [] \<Rightarrow> False
      | b # s2 \<Rightarrow>
        (if byte_in 194 223 a then is_continuation b \<and> utf8_valid s2
         else case s2 of
           [] \<Rightarrow> False
         | c # s3 \<Rightarrow>
           (if byte_val a = 224 then byte_in 160 191 b \<and> is_continuation c \<and> utf8_valid s3
            else if byte_in 225 236 a \<or> byte_in 238 239 a
              then is_continuation b \<and> is_continuation c \<and> utf8_valid s3
            else if byte_val a = 237
              then byte_in 128 159 b \<and> is_continuation c \<and> utf8_valid s3
            else case s3 of
              [] \<Rightarrow> False
            | d # s4 \<Rightarrow>
              is_continuation c \<and> is_continuation d \<and>
              (byte_val a = 240 \<and> byte_in 144 191 b \<or>
               byte_in 241 243 a \<and> is_continuation b \<or>
               byte_val a = 244 \<and> byte_in 128 143 b) \<and>
              utf8_valid s4)))"

section \<open>Control characters\<close>

text \<open>\<^verbatim>\<open>char::is_control\<close> is the category Cc: U+0000-U+001F, U+007F and U+0080-U+009F, the
  latter encoded as the byte C2 followed by 80-9F.\<close>

definition is_ascii_control :: "char \<Rightarrow> bool" where
  "is_ascii_control c \<longleftrightarrow> byte_val c < 32 \<or> byte_val c = 127"

definition c1_control :: "char \<Rightarrow> string \<Rightarrow> bool" where
  "c1_control c rest \<longleftrightarrow> byte_val c = 194 \<and> (case rest of [] \<Rightarrow> False | d # _ \<Rightarrow> byte_in 128 159 d)"

fun has_control :: "string \<Rightarrow> bool" where
  "has_control [] = False"
| "has_control (c # s) = (is_ascii_control c \<or> c1_control c s \<or> has_control s)"

text \<open>\<^verbatim>\<open>chars().filter(|c| !c.is_control() || c == '\n' || c == '\t')\<close>.\<close>

fun drop_controls :: "string \<Rightarrow> string" where
  "drop_controls [] = []"
| "drop_controls (c # s) =
     (if c1_control c s then drop_controls (tl s)
      else if is_ascii_control c \<and> c \<noteq> CHR 0x0A \<and> c \<noteq> CHR 0x09 then drop_controls s
      else c # drop_controls s)"

text \<open>\<^verbatim>\<open>replace("\r\n", "\n")\<close>.\<close>

fun replace_crlf :: "string \<Rightarrow> string" where
  "replace_crlf [] = []"
| "replace_crlf [c] = [c]"
| "replace_crlf (c # d # s) =
     (if c = CHR 0x0D \<and> d = CHR 0x0A then CHR 0x0A # replace_crlf s else c # replace_crlf (d # s))"

section \<open>Prefixes, searching, splitting\<close>

fun strip_prefix :: "string \<Rightarrow> string \<Rightarrow> string option" where
  "strip_prefix [] s = Some s"
| "strip_prefix (c # p) [] = None"
| "strip_prefix (c # p) (d # s) = (if c = d then strip_prefix p s else None)"

fun strip_any :: "string list \<Rightarrow> string \<Rightarrow> string option" where
  "strip_any [] s = None"
| "strip_any (p # ps) s = (case strip_prefix p s of None \<Rightarrow> strip_any ps s | Some r \<Rightarrow> Some r)"

text \<open>\<^verbatim>\<open>split(c)\<close>: always at least one piece.\<close>

fun split_on :: "char \<Rightarrow> string \<Rightarrow> string list" where
  "split_on c [] = [[]]"
| "split_on c (d # s) =
     (if c = d then [] # split_on c s
      else (case split_on c s of [] \<Rightarrow> [[d]] | p # ps \<Rightarrow> (d # p) # ps))"

fun split_once :: "char \<Rightarrow> string \<Rightarrow> (string \<times> string) option" where
  "split_once c [] = None"
| "split_once c (d # s) =
     (if c = d then Some ([], s)
      else map_option (\<lambda>(a, b). (d # a, b)) (split_once c s))"

fun join :: "string \<Rightarrow> string list \<Rightarrow> string" where
  "join sep [] = []"
| "join sep [s] = s"
| "join sep (s # t # ts) = s @ sep @ join sep (t # ts)"

lemma strip_prefix_Some: "strip_prefix p s = Some r \<longleftrightarrow> s = p @ r"
  by (induction p s rule: strip_prefix.induct) auto

lemma strip_prefix_append [simp]: "strip_prefix p (p @ r) = Some r"
  by (simp add: strip_prefix_Some)

lemma strip_any_Some: "strip_any ps s = Some r \<Longrightarrow> \<exists>p\<in>set ps. s = p @ r"
  by (induction ps) (auto split: option.splits simp: strip_prefix_Some)

lemma strip_any_length:
  "strip_any ps s = Some r \<Longrightarrow> [] \<notin> set ps \<Longrightarrow> length r < length s"
  using strip_any_Some by fastforce

section \<open>Trimming\<close>

text \<open>The UTF-8 encodings of the characters with the property \<^verbatim>\<open>White_Space\<close>: U+0009-U+000D,
  U+0020, U+0085, U+00A0, U+1680, U+2000-U+200A, U+2028, U+2029, U+202F, U+205F, U+3000.\<close>

definition whitespace :: "string list" where
  "whitespace =
     [[CHR 0x20], [CHR 0x09], [CHR 0x0A], [CHR 0x0B], [CHR 0x0C], [CHR 0x0D],
      [CHR 0xC2, CHR 0x85], [CHR 0xC2, CHR 0xA0], [CHR 0xE1, CHR 0x9A, CHR 0x80],
      [CHR 0xE2, CHR 0x80, CHR 0x80], [CHR 0xE2, CHR 0x80, CHR 0x81],
      [CHR 0xE2, CHR 0x80, CHR 0x82], [CHR 0xE2, CHR 0x80, CHR 0x83],
      [CHR 0xE2, CHR 0x80, CHR 0x84], [CHR 0xE2, CHR 0x80, CHR 0x85],
      [CHR 0xE2, CHR 0x80, CHR 0x86], [CHR 0xE2, CHR 0x80, CHR 0x87],
      [CHR 0xE2, CHR 0x80, CHR 0x88], [CHR 0xE2, CHR 0x80, CHR 0x89],
      [CHR 0xE2, CHR 0x80, CHR 0x8A], [CHR 0xE2, CHR 0x80, CHR 0xA8],
      [CHR 0xE2, CHR 0x80, CHR 0xA9], [CHR 0xE2, CHR 0x80, CHR 0xAF],
      [CHR 0xE2, CHR 0x81, CHR 0x9F], [CHR 0xE3, CHR 0x80, CHR 0x80]]"

text \<open>\<open>trim_with\<close> strips the given encodings from the front; the back is the front of the
  reversed text with reversed encodings (no encoding occurs across character boundaries of
  well-formed UTF-8).\<close>

function trim_with :: "string list \<Rightarrow> string \<Rightarrow> string" where
  "trim_with ws s =
     (if [] \<in> set ws then s
      else case strip_any ws s of None \<Rightarrow> s | Some r \<Rightarrow> trim_with ws r)"
  by pat_completeness auto
termination
  by (relation "measure (length \<circ> snd)") (auto dest: strip_any_length)

declare trim_with.simps [simp del]

definition trim_start :: "string \<Rightarrow> string" where
  "trim_start s = trim_with whitespace s"

definition trim_end :: "string \<Rightarrow> string" where
  "trim_end s = rev (trim_with (map rev whitespace) (rev s))"

definition trim :: "string \<Rightarrow> string" where
  "trim s = trim_end (trim_start s)"

text \<open>\<^verbatim>\<open>value.trim().is_empty()\<close>, the test every identifier of the sources passes through.\<close>

definition is_blank_text :: "string \<Rightarrow> bool" where
  "is_blank_text s \<longleftrightarrow> trim s = []"

lemma trim_with_suffix: "\<exists>p. s = p @ trim_with ws s"
proof (induction ws s rule: trim_with.induct)
  case (1 ws s)
  show ?case
  proof (cases "strip_any ws s")
    case None
    then show ?thesis by (simp add: trim_with.simps[of ws s])
  next
    case (Some r)
    then obtain p where p: "s = p @ r" by (auto dest: strip_any_Some)
    show ?thesis
    proof (cases "[] \<in> set ws")
      case False
      with 1 Some obtain q where "r = q @ trim_with ws r" by blast
      with Some False p have "s = (p @ q) @ trim_with ws s"
        by (subst trim_with.simps) simp
      then show ?thesis by blast
    qed (simp add: trim_with.simps[of ws s])
  qed
qed

lemma length_trim_with: "length (trim_with ws s) \<le> length s"
  by (metis length_append le_add2 trim_with_suffix)

lemma trim_infix: "\<exists>p q. s = p @ trim s @ q"
proof -
  obtain p where p: "s = p @ trim_start s"
    unfolding trim_start_def using trim_with_suffix by blast
  obtain q where "rev (trim_start s) = q @ trim_with (map rev whitespace) (rev (trim_start s))"
    using trim_with_suffix by blast
  then have "trim_start s = rev (q @ trim_with (map rev whitespace) (rev (trim_start s)))"
    by (metis rev_rev_ident)
  then have "trim_start s = trim s @ rev q"
    by (simp add: trim_def trim_end_def)
  with p show ?thesis by metis
qed

lemma length_trim: "length (trim s) \<le> length s"
  using trim_infix[of s] by (metis length_append le_add1 le_add2 le_trans)

lemma set_trim: "set (trim s) \<subseteq> set s"
  using trim_infix[of s] by (metis Un_iff set_append subsetI)

lemma trim_Nil [simp]: "trim [] = []"
  using length_trim[of "[]"] by simp

lemma blank_Nil [simp]: "is_blank_text []"
  by (simp add: is_blank_text_def)

section \<open>Saturating arithmetic and removed controls\<close>

text \<open>Saturating addition on \<^verbatim>\<open>usize\<close>.\<close>

definition usize_max :: nat where
  "usize_max = 2 ^ 64 - 1"

definition saturating_add :: "nat \<Rightarrow> nat \<Rightarrow> nat" where
  "saturating_add a b = min (a + b) usize_max"

text \<open>\<^verbatim>\<open>u64::saturating_add(1)\<close>.\<close>

definition saturating_inc :: "64 word \<Rightarrow> 64 word" where
  "saturating_inc n = (if n = - 1 then n else n + 1)"

text \<open>Decimal digits of a number.\<close>

fun decimal :: "nat \<Rightarrow> string" where
  "decimal n = (if n < 10 then [char_of (48 + n)] else decimal (n div 10) @ [char_of (48 + n mod 10)])"

lemma is_char_boundary_0 [simp]: "is_char_boundary s 0"
  by (simp add: is_char_boundary_def)

lemma drop_controls_set: "set (drop_controls s) \<subseteq> set s"
proof (induction s rule: drop_controls.induct)
  case (2 c s)
  moreover have "set (tl s) \<subseteq> set s" by (cases s) auto
  ultimately show ?case
    by (cases "c1_control c s"; cases "is_ascii_control c \<and> c \<noteq> CHR 0x0A \<and> c \<noteq> CHR 0x09") auto
qed simp

lemma length_drop_controls: "length (drop_controls s) \<le> length s"
proof (induction s rule: drop_controls.induct)
  case (2 c s)
  moreover have "length (tl s) \<le> length s" by simp
  ultimately show ?case
    by (cases "c1_control c s"; cases "is_ascii_control c \<and> c \<noteq> CHR 0x0A \<and> c \<noteq> CHR 0x09") auto
qed simp

section \<open>Facts about splitting\<close>

lemma split_on_ne [simp]: "split_on c s \<noteq> []"
  by (induction s) (auto split: list.splits)

lemma split_on_none: "c \<notin> set p \<Longrightarrow> split_on c p = [p]"
  by (induction p) auto

lemma split_on_sep: "c \<notin> set p \<Longrightarrow> split_on c (p @ c # s) = p # split_on c s"
  by (induction p) auto

lemma split_on_no_sep: "c \<notin> set p \<Longrightarrow> \<exists>q ls. split_on c (p @ s) = (p @ q) # ls"
proof (induction p)
  case Nil
  then show ?case using split_on_ne[of c s] by (cases "split_on c s") auto
qed (auto split: list.splits)

lemma last_split_on: "c \<notin> set (last (split_on c s))"
  by (induction s) (auto split: list.splits)

lemma split_on_lines:
  "(\<And>l. l \<in> set ls \<Longrightarrow> c \<notin> set l) \<Longrightarrow> split_on c (concat (map (\<lambda>l. l @ [c]) ls)) = ls @ [[]]"
  by (induction ls) (auto simp: split_on_sep)

lemma split_on_append: "split_on c (xs @ c # ys) = split_on c xs @ split_on c ys"
proof (induction xs)
  case (Cons x xs)
  then show ?case using split_on_ne[of c xs] by (cases "split_on c xs") auto
qed simp

lemma split_on_chars: "d \<in> set (split_on c s) \<Longrightarrow> set d \<subseteq> set s - {c}"
proof (induction s arbitrary: d)
  case (Cons a s)
  then show ?case by (cases "split_on c s") (fastforce split: if_splits)+
qed simp

end
