(* ===== verification/Json.thy ===== *)
theory Json
  imports Complex_Main Containers Text
begin

text \<open>
  \<^verbatim>\<open>serde_json::Value\<close> as the sources use it (the crate is built without
  \<^verbatim>\<open>preserve_order\<close>, so an object is a \<^verbatim>\<open>BTreeMap\<close>, and without \<^verbatim>\<open>arbitrary_precision\<close>, so a number
  is a \<^verbatim>\<open>u64\<close>, a negative \<^verbatim>\<open>i64\<close> or a finite \<^verbatim>\<open>f64\<close>; a finite \<^verbatim>\<open>f64\<close> is given by its value).

  The crate's parser and printer are not part of the repository. They are the fields of the
  record \<open>serde_json\<close>, an argument of every definition that parses or prints.
\<close>

datatype json_number = PosInt "64 word" | NegInt "64 word" | Float rat

datatype json =
    JNull
  | JBool bool
  | JNumber json_number
  | JString string
  | JArray "json list"
  | JObject "(string \<times> json) list"

type_synonym json_map = "(string, json) btree_map"

record serde_json =
  from_str :: "string \<Rightarrow> json option"   \<comment> \<open>\<^verbatim>\<open>serde_json::from_str::<Value>\<close>, \<^verbatim>\<open>None\<close> for a parse error\<close>
  to_string :: "json \<Rightarrow> string"         \<comment> \<open>\<^verbatim>\<open>Value::to_string\<close>, the compact form \<^verbatim>\<open>to_vec\<close> writes\<close>

section \<open>Accessors\<close>

fun get_field :: "json \<Rightarrow> string \<Rightarrow> json option" where
  "get_field (JObject m) k = bm_get m k"
| "get_field _ k = None"

fun as_object :: "json \<Rightarrow> json_map option" where
  "as_object (JObject m) = Some m"
| "as_object _ = None"

fun as_array :: "json \<Rightarrow> json list option" where
  "as_array (JArray xs) = Some xs"
| "as_array _ = None"

fun as_str :: "json \<Rightarrow> string option" where
  "as_str (JString s) = Some s"
| "as_str _ = None"

fun as_bool :: "json \<Rightarrow> bool option" where
  "as_bool (JBool b) = Some b"
| "as_bool _ = None"

definition is_object :: "json \<Rightarrow> bool" where
  "is_object v \<longleftrightarrow> as_object v \<noteq> None"

definition is_string :: "json \<Rightarrow> bool" where
  "is_string v \<longleftrightarrow> as_str v \<noteq> None"

definition is_boolean :: "json \<Rightarrow> bool" where
  "is_boolean v \<longleftrightarrow> as_bool v \<noteq> None"

fun is_number :: "json \<Rightarrow> bool" where
  "is_number (JNumber n) = True"
| "is_number _ = False"

fun is_null :: "json \<Rightarrow> bool" where
  "is_null JNull = True"
| "is_null _ = False"

text \<open>A literal that is text, a number or a boolean.\<close>

definition is_scalar :: "json \<Rightarrow> bool" where
  "is_scalar v \<longleftrightarrow> is_string v \<or> is_number v \<or> is_boolean v"

text \<open>\<^verbatim>\<open>filter\<close> on an option.\<close>

definition keep_if :: "('a \<Rightarrow> bool) \<Rightarrow> 'a option \<Rightarrow> 'a option" where
  "keep_if P x = (case x of Some a \<Rightarrow> if P a then Some a else None | None \<Rightarrow> None)"

definition is_some_and :: "'a option \<Rightarrow> ('a \<Rightarrow> bool) \<Rightarrow> bool" where
  "is_some_and x P = (case x of Some a \<Rightarrow> P a | None \<Rightarrow> False)"

definition is_none_or :: "'a option \<Rightarrow> ('a \<Rightarrow> bool) \<Rightarrow> bool" where
  "is_none_or x P = (case x of Some a \<Rightarrow> P a | None \<Rightarrow> True)"

lemma keep_if_Some [simp]: "keep_if P x = Some a \<longleftrightarrow> x = Some a \<and> P a"
  by (auto simp: keep_if_def split: option.splits)

lemma is_some_and_iff: "is_some_and x P \<longleftrightarrow> (\<exists>a. x = Some a \<and> P a)"
  by (auto simp: is_some_and_def split: option.splits)

lemma is_some_and_simps [simp]:
  "is_some_and (Some a) P = P a" "is_some_and None P = False"
  "is_none_or (Some a) P = P a" "is_none_or None P = True"
  by (simp_all add: is_some_and_def is_none_or_def)

lemma get_field_object: "get_field v k = Some x \<Longrightarrow> \<exists>m. v = JObject m \<and> bm_get m k = Some x"
  by (cases v) auto

lemma get_field_insert [simp]:
  "get_field (JObject (bm_insert k v m)) k' = (if k' = k then Some v else get_field (JObject m) k')"
  by (simp add: btree.get_insert)

lemma is_object_iff: "is_object v \<longleftrightarrow> (\<exists>m. v = JObject m)"
  by (cases v) (auto simp: is_object_def)

lemma as_bool_Some: "as_bool v = Some b \<longleftrightarrow> v = JBool b"
  by (cases v) auto

lemma as_str_Some: "as_str v = Some s \<longleftrightarrow> v = JString s"
  by (cases v) auto

lemma as_array_Some: "as_array v = Some xs \<longleftrightarrow> v = JArray xs"
  by (cases v) auto

lemma as_object_Some: "as_object v = Some m \<longleftrightarrow> v = JObject m"
  by (cases v) auto

end
