(* ===== verification/Harness_Identity.thy ===== *)
theory Harness_Identity
  imports Text "HOL-Library.Sublist"
begin

text \<open>
  Harness identity grammar v2 (\<^verbatim>\<open>crates/piui-contracts/src/harness_identity.rs\<close>) and the
  orchestration crate's \<^verbatim>\<open>Harness\<close> enum over it (\<^verbatim>\<open>types.rs\<close>): the built-in names and
  \<^verbatim>\<open>acp:<slug>\<close>, with the inline, zero-padded storage of a slug.
\<close>

section \<open>ACP agent ids\<close>

definition ACP_HARNESS_PREFIX :: string where
  "ACP_HARNESS_PREFIX = ''acp:''"

definition ACP_AGENT_ID_MAX_BYTES :: nat where
  "ACP_AGENT_ID_MAX_BYTES = 32"

datatype invalid_acp_agent_id = InvalidAcpAgentId

record acp_agent_id =
  acp_length :: "8 word"
  acp_bytes :: string

definition acp_allowed :: "char \<Rightarrow> bool" where
  "acp_allowed b \<longleftrightarrow> is_ascii_lowercase b \<or> is_ascii_digit b \<or> b = CHR ''-''"

text \<open>\<^verbatim>\<open>slug.contains("--")\<close>.\<close>

fun has_double_hyphen :: "string \<Rightarrow> bool" where
  "has_double_hyphen (a # b # s) = (a = CHR ''-'' \<and> b = CHR ''-'' \<or> has_double_hyphen (b # s))"
| "has_double_hyphen _ = False"

definition acp_new :: "string \<Rightarrow> invalid_acp_agent_id + acp_agent_id" where
  "acp_new slug =
     (let n = length slug in
      if n = 0 \<or> n > ACP_AGENT_ID_MAX_BYTES then Inl InvalidAcpAgentId
      else if \<not> list_all acp_allowed slug \<or> hd slug = CHR ''-'' \<or> last slug = CHR ''-'' \<or>
              has_double_hyphen slug
        then Inl InvalidAcpAgentId
      else Inr \<lparr>acp_length = of_nat n,
                acp_bytes = slug @ replicate (ACP_AGENT_ID_MAX_BYTES - n) (CHR 0x00)\<rparr>)"

definition from_harness_id :: "string \<Rightarrow> invalid_acp_agent_id + acp_agent_id" where
  "from_harness_id value =
     (case strip_prefix ACP_HARNESS_PREFIX value of
        None \<Rightarrow> Inl InvalidAcpAgentId
      | Some slug \<Rightarrow> acp_new slug)"

definition acp_as_str :: "acp_agent_id \<Rightarrow> string" where
  "acp_as_str i =
     (let s = take (unat (acp_length i)) (acp_bytes i) in if utf8_valid s then s else [])"

definition harness_id :: "acp_agent_id \<Rightarrow> string" where
  "harness_id i = ACP_HARNESS_PREFIX @ acp_as_str i"

definition parse_harness_identity ::
  "string \<Rightarrow> (string \<times> 't) list \<Rightarrow> (acp_agent_id \<Rightarrow> 't) \<Rightarrow> 't option" where
  "parse_harness_identity value builtin acp =
     (case find (\<lambda>(name, _). name = value) builtin of
        Some (_, h) \<Rightarrow> Some h
      | None \<Rightarrow> (case from_harness_id value of Inl _ \<Rightarrow> None | Inr i \<Rightarrow> Some (acp i)))"

section \<open>The harness enum\<close>

datatype harness = Pi | PrimeAgent | Codex | Hermes | ClaudeCode | Acp acp_agent_id

definition BUILTIN :: "(string \<times> harness) list" where
  "BUILTIN =
     [(''pi'', Pi), (''prime-agent'', PrimeAgent), (''codex'', Codex), (''hermes'', Hermes),
      (''claude-code'', ClaudeCode)]"

definition harness_parse :: "string \<Rightarrow> harness option" where
  "harness_parse value = parse_harness_identity value BUILTIN Acp"

fun harness_display :: "harness \<Rightarrow> string" where
  "harness_display (Acp i) = ACP_HARNESS_PREFIX @ acp_as_str i"
| "harness_display h =
     (case find (\<lambda>(_, k). k = h) BUILTIN of None \<Rightarrow> [] | Some (name, _) \<Rightarrow> name)"

text \<open>The identities the constructor \<open>acp_new\<close> can build; the built-in names are always valid.\<close>

fun harness_wf :: "harness \<Rightarrow> bool" where
  "harness_wf (Acp i) = (\<exists>slug. acp_new slug = Inr i)"
| "harness_wf _ = True"

lemma acp_allowed_ascii: "acp_allowed c \<Longrightarrow> byte_val c < 128"
  by (auto simp: acp_allowed_def ascii_defs)

lemma utf8_valid_ascii: "(\<And>c. c \<in> set s \<Longrightarrow> byte_val c < 128) \<Longrightarrow> utf8_valid s"
  by (induction s) auto

lemma acp_new_as_str: "acp_new slug = Inr i \<Longrightarrow> acp_as_str i = slug"
proof -
  assume a: "acp_new slug = Inr i"
  then have n: "length slug \<le> 32" and ok: "list_all acp_allowed slug"
    and i: "i = \<lparr>acp_length = of_nat (length slug),
                 acp_bytes = slug @ replicate (32 - length slug) (CHR 0x00)\<rparr>"
    by (auto simp: acp_new_def Let_def ACP_AGENT_ID_MAX_BYTES_def split: if_splits)
  have "unat (of_nat (length slug) :: 8 word) = length slug"
    using n by (simp add: unat_of_nat)
  moreover have "utf8_valid slug"
    using ok by (intro utf8_valid_ascii) (auto simp: list_all_iff acp_allowed_ascii)
  ultimately show ?thesis
    by (simp add: acp_as_str_def i Let_def)
qed

lemma from_harness_id_harness_id: "acp_new slug = Inr i \<Longrightarrow> from_harness_id (harness_id i) = Inr i"
  by (simp add: from_harness_id_def harness_id_def acp_new_as_str)

lemma acp_prefix_not_builtin:
  "find (\<lambda>(name, _). name = ACP_HARNESS_PREFIX @ s) BUILTIN = None"
  by (simp add: BUILTIN_def ACP_HARNESS_PREFIX_def)

lemma harness_parse_acp: "acp_new slug = Inr i \<Longrightarrow> harness_parse (harness_display (Acp i)) = Some (Acp i)"
  using from_harness_id_harness_id[of slug i]
  by (simp add: harness_parse_def parse_harness_identity_def acp_prefix_not_builtin harness_id_def)

lemma harness_parse_found: "find (\<lambda>(name, _). name = v) BUILTIN = Some (n, h) \<Longrightarrow> harness_parse v = Some h"
  by (simp add: harness_parse_def parse_harness_identity_def)

lemma harness_parse_builtin: "(\<And>i. h \<noteq> Acp i) \<Longrightarrow> harness_parse (harness_display h) = Some h"
  by (cases h) (simp_all add: harness_parse_found BUILTIN_def, blast)

lemma harness_parse_cases:
  assumes "harness_parse value = Some h"
  shows "(value, h) \<in> set BUILTIN \<or>
    (\<exists>slug i. value = ACP_HARNESS_PREFIX @ slug \<and> acp_new slug = Inr i \<and> h = Acp i)"
proof (cases "find (\<lambda>(name, _). name = value) BUILTIN")
  case None
  with assms obtain i where "from_harness_id value = Inr i" "h = Acp i"
    by (auto simp: harness_parse_def parse_harness_identity_def split: sum.splits)
  then show ?thesis
    by (auto simp: from_harness_id_def strip_prefix_Some split: option.splits)
next
  case (Some p)
  from find_Some_set[OF this] have "p \<in> set BUILTIN" "fst p = value" by auto
  moreover have "h = snd p"
    using assms Some
    by (auto simp: harness_parse_def parse_harness_identity_def split: prod.splits)
  ultimately have "(value, h) \<in> set BUILTIN" by (metis prod.collapse)
  then show ?thesis ..
qed

end
