(* ===== verification/Types.thy ===== *)
theory Types
  imports Json Harness_Identity
begin

text \<open>
  The data of the orchestration crate: every struct as a record and every enum as a datatype,
  fields and variants in source order (\<^verbatim>\<open>types.rs\<close>, and the data declared in \<^verbatim>\<open>results.rs\<close>,
  \<^verbatim>\<open>flow.rs\<close>, \<^verbatim>\<open>inputs.rs\<close>, \<^verbatim>\<open>executors.rs\<close>, \<^verbatim>\<open>pinned.rs\<close>, \<^verbatim>\<open>subpipelines.rs\<close>, \<^verbatim>\<open>validation.rs\<close> and
  \<^verbatim>\<open>coordinator.rs\<close>). Record fields carry a prefix naming their struct. A \<^verbatim>\<open>Revision\<close> is a
  \<^verbatim>\<open>u64\<close> and wraps around like one.
\<close>

type_synonym revision = "64 word"

section \<open>Policy and profiles\<close>

datatype permission_mode = Native | ReadOnly | WorkspaceWrite | FullAccess

datatype tool_decision = Allow | Deny

datatype policy_enforcement = NativeEnforced | CoordinatorEnforced | Advisory | Unsupported

record agent_operation_capabilities =
  cap_roster :: bool
  cap_send :: bool
  cap_observe :: bool
  cap_spawn :: bool

record native_bridge_capabilities =
  cap_permission_modes :: "permission_mode list"
  cap_native_enforced_tools :: "string list"
  cap_coordinator_enforced_tools :: "string list"
  cap_agent_operations :: agent_operation_capabilities

record tool_rule =
  rule_tool :: string
  rule_decision :: tool_decision
  rule_enforcement :: policy_enforcement
  rule_mandatory :: bool

record declared_tool_policy =
  policy_rules :: "tool_rule list"

datatype resource_kind = Skill | Mcp

record resource_rule =
  resource_kind :: resource_kind
  resource_id :: string
  resource_enabled :: bool

record agent_profile =
  profile_when_to_call :: "string option"
  profile_input_instructions :: "string option"
  profile_expected_result :: "string option"
  profile_id :: string
  profile_name :: string
  profile_harness :: harness
  profile_model_provider :: "string option"
  profile_model :: string
  profile_permission_mode :: permission_mode
  profile_network_access :: bool
  profile_instructions :: string
  profile_base_instructions :: "string option"
  profile_reasoning :: "string option"
  profile_resource_rules :: "resource_rule list"
  profile_service_tier :: "string option"
  profile_tool_policy :: declared_tool_policy
  profile_allowed_spawn_profile_ids :: "string list"

section \<open>Teams\<close>

record team_member =
  member_id :: string
  member_profile_id :: string

record directed_edge =
  from_member_id :: string
  to_member_id :: string

record team_definition =
  spawned_agents_join_team :: bool
  team_id :: string
  team_name :: string
  team_members :: "team_member list"
  send_edges :: "directed_edge list"
  observe_edges :: "directed_edge list"
  orchestrator_member_id :: string

section \<open>Results, conditions and routes\<close>

datatype result_field_kind = TextField | NumberField | BooleanField | TextListField | ArtifactField

record result_field =
  field_name :: string
  field_kind :: result_field_kind

record input_binding =
  binding_source_step_id :: string
  binding_field :: string
  binding_name :: string

record result_selection =
  sel_field :: string
  sel_name :: string

record result_condition =
  cond_source_step_id :: string
  cond_field :: string
  cond_equals :: json

datatype router_predicate =
    PEquals string json
  | PExists string
  | PAll "router_predicate list"
  | PAny "router_predicate list"
  | PNot router_predicate

record router_branch =
  branch_id :: string
  branch_label :: string
  branch_description :: "string option"
  branch_predicate :: "router_predicate option"

datatype router_mode = ProgramRouter | AgentRouter

record router_config =
  router_mode :: router_mode
  router_input_step_id :: string
  router_branches :: "router_branch list"
  router_selection_field :: "string option"

record route_gate =
  gate_router_step_id :: string
  gate_branch_id :: string

record review_rule =
  review_field :: string
  review_retry_from_step_id :: string
  review_max_iterations :: "32 word option"

section \<open>Executors, pins, inputs and outputs\<close>

datatype script_runtime = Node | Python | PowerShell

datatype subpipeline_input_source =
    ValueSource json
  | InputSource string
  | StepSource string "string option"

datatype step_executor =
    AgentExecutor
  | LlmExecutor
  | ScriptExecutor script_runtime string "32 word"
  | PluginExecutor string string json_map
  | PipelineExecutor string "(string, subpipeline_input_source) btree_map"

datatype executor_kind = KAgent | KLlm | KScript | KPlugin | KPipeline

record task_output =
  output_text :: string
  output_truncated :: bool

record pinned_output =
  pinned_text :: "string option"
  pinned_truncated :: bool
  pinned_data :: "json option"
  pinned_at :: string
  pinned_source_run_id :: "string option"

datatype pipeline_input_kind = TextInput | LongTextInput | NumberInput | BooleanInput | ChoiceInput

record pipeline_input =
  input_name :: string
  input_label :: string
  input_kind :: pipeline_input_kind
  input_required :: bool
  input_description :: "string option"
  input_options :: "string list"
  input_default_value :: "json option"

record pipeline_output =
  out_name :: string
  out_kind :: result_field_kind
  out_source_step_id :: string
  out_field :: "string option"

section \<open>Pipelines and definition snapshots\<close>

datatype execution_mode = Scheduled | Callable

record pipeline_step =
  step_input_bindings :: "input_binding list"
  step_condition :: "result_condition option"
  step_route_gates :: "route_gate list"
  step_router :: "router_config option"
  step_review :: "review_rule option"
  step_require_approval :: bool
  step_result_fields :: "result_field list"
  step_execution_mode :: "execution_mode option"
  step_executor :: "step_executor option"
  step_pinned_output :: "pinned_output option"
  step_input_instructions :: "string option"
  step_id :: string
  step_name :: string
  step_assigned_member_id :: string
  step_instructions :: string
  step_dependency_step_ids :: "string list"

record pipeline_definition =
  pipeline_id :: string
  pipeline_name :: string
  pipeline_steps :: "pipeline_step list"
  pipeline_inputs :: "pipeline_input list"
  pipeline_outputs :: "pipeline_output list"

record launch_command_reference =
  command_id :: string
  command_name :: string
  command_team_id :: string
  command_pipeline_id :: string
  command_managed_by_teammate_id :: "string option"

record run_definition_snapshot =
  def_profiles :: "agent_profile list"
  def_team :: team_definition
  def_pipeline :: pipeline_definition
  def_launch_command :: "launch_command_reference option"

section \<open>Tasks, messages, requests\<close>

datatype task_status =
    AwaitingApproval | Skipped | Ready | Running | Succeeded | Failed | Cancelled | Uncertain

datatype run_status = RunRunning | RunSucceeded | RunFailed | RunCancelled | RunUncertain

record native_execution_reference =
  execution_id :: string

record failure_record =
  fail_code :: string
  fail_detail :: "string option"

record native_history_reference =
  ref_fields :: "result_selection list"
  ref_session_id :: string
  ref_block_id :: "string option"
  ref_content_hash :: "string option"

record task_record =
  task_result_data :: "json option"
  task_step_id :: string
  task_status :: task_status
  task_revision :: revision
  task_lease_id :: "string option"
  task_execution :: "native_execution_reference option"
  task_result_reference :: "native_history_reference option"
  task_failure :: "failure_record option"
  task_output :: "task_output option"
  task_pinned :: bool

datatype message_status = Accepted | Delivered

record message_record =
  message_id :: string
  message_sender_member_id :: string
  message_recipient_member_id :: string
  message_body :: string
  message_status :: message_status
  message_revision :: revision

datatype agent_request_kind =
    Roster
  | Send string
  | Observe string
  | Spawn string
  | SpawnAgent string string string

record agent_request_record =
  request_id :: string
  request_actor_workspace_session_id :: string
  request_actor_member_id :: string
  request_operation :: agent_request_kind

section \<open>Run triggers\<close>

definition MAX_TRIGGER_CHAIN_DEPTH :: "8 word" where
  "MAX_TRIGGER_CHAIN_DEPTH = 3"

definition MAX_TRIGGER_TEXT_BYTES :: nat where
  "MAX_TRIGGER_TEXT_BYTES = 512"

definition MAX_SUBPIPELINE_DEPTH :: "8 word" where
  "MAX_SUBPIPELINE_DEPTH = 4"

datatype run_trigger_event = RunFinished | FilesChanged

datatype board_run_cause = Assigned | MovedToTodo | Unblocked | Mention | Manual

datatype run_trigger =
    ScheduleTrigger string string string
  | EventTrigger string string string run_trigger_event "string option" "8 word"
  | ChatTrigger "string option"
  | BoardTrigger string string board_run_cause "8 word"
  | PipelineTrigger string string string "8 word"

fun trigger_chain_depth :: "run_trigger \<Rightarrow> 8 word" where
  "trigger_chain_depth (EventTrigger _ _ _ _ _ d) = d"
| "trigger_chain_depth (BoardTrigger _ _ _ d) = d"
| "trigger_chain_depth (ScheduleTrigger _ _ _) = 0"
| "trigger_chain_depth (ChatTrigger _) = 0"
| "trigger_chain_depth (PipelineTrigger _ _ _ _) = 0"

fun trigger_schedule_id :: "run_trigger \<Rightarrow> string option" where
  "trigger_schedule_id (ScheduleTrigger i _ _) = Some i"
| "trigger_schedule_id (EventTrigger i _ _ _ _ _) = Some i"
| "trigger_schedule_id (ChatTrigger _) = None"
| "trigger_schedule_id (BoardTrigger _ _ _ _) = None"
| "trigger_schedule_id (PipelineTrigger _ _ _ _) = None"

fun trigger_board_teammate_id :: "run_trigger \<Rightarrow> string option" where
  "trigger_board_teammate_id (BoardTrigger _ t _ _) = Some t"
| "trigger_board_teammate_id _ = None"

fun trigger_board_card_id :: "run_trigger \<Rightarrow> string option" where
  "trigger_board_card_id (BoardTrigger c _ _ _) = Some c"
| "trigger_board_card_id _ = None"

fun trigger_pipeline_parent :: "run_trigger \<Rightarrow> (string \<times> string) option" where
  "trigger_pipeline_parent (PipelineTrigger r s _ _) = Some (r, s)"
| "trigger_pipeline_parent _ = None"

fun trigger_subpipeline_depth :: "run_trigger \<Rightarrow> 8 word" where
  "trigger_subpipeline_depth (PipelineTrigger _ _ _ d) = d"
| "trigger_subpipeline_depth _ = 0"

definition trigger_text_ok :: "string \<Rightarrow> bool" where
  "trigger_text_ok value \<longleftrightarrow>
     \<not> is_blank_text value \<and> length value \<le> MAX_TRIGGER_TEXT_BYTES \<and> \<not> has_control value"

fun trigger_is_valid :: "run_trigger \<Rightarrow> bool" where
  "trigger_is_valid (ScheduleTrigger i n occ) =
     (trigger_text_ok i \<and> trigger_text_ok n \<and> trigger_text_ok occ)"
| "trigger_is_valid (EventTrigger i n occ ev src d) =
     (trigger_text_ok i \<and> trigger_text_ok n \<and> trigger_text_ok occ \<and>
      is_none_or src trigger_text_ok \<and> 1 \<le> d \<and> d \<le> MAX_TRIGGER_CHAIN_DEPTH)"
| "trigger_is_valid (ChatTrigger s) = is_none_or s trigger_text_ok"
| "trigger_is_valid (BoardTrigger c t cause d) =
     (trigger_text_ok c \<and> trigger_text_ok t \<and> d \<le> MAX_TRIGGER_CHAIN_DEPTH)"
| "trigger_is_valid (PipelineTrigger r s l d) =
     (trigger_text_ok r \<and> trigger_text_ok s \<and> trigger_text_ok l \<and>
      1 \<le> d \<and> d \<le> MAX_SUBPIPELINE_DEPTH)"

section \<open>Runs\<close>

definition ORCHESTRATION_SCHEMA_VERSION :: "32 word" where
  "ORCHESTRATION_SCHEMA_VERSION = 6"

record run =
  run_inputs :: json_map
  run_trigger :: "run_trigger option"
  run_paused :: bool
  run_attempts :: "task_record list"
  run_schema_version :: "32 word"
  run_id :: string
  run_definition :: run_definition_snapshot
  run_initial_definition :: "run_definition_snapshot option"
  run_status :: run_status
  run_revision :: revision
  run_tasks :: "task_record list"
  run_messages :: "message_record list"
  run_agent_requests :: "agent_request_record list"
  run_use_pinned_data :: bool

definition run_chain_depth :: "run \<Rightarrow> 8 word" where
  "run_chain_depth r = (case run_trigger r of None \<Rightarrow> 0 | Some t \<Rightarrow> trigger_chain_depth t)"

definition run_subpipeline_depth :: "run \<Rightarrow> 8 word" where
  "run_subpipeline_depth r =
     (case run_trigger r of None \<Rightarrow> 0 | Some t \<Rightarrow> trigger_subpipeline_depth t)"

definition initial_definition :: "run \<Rightarrow> run_definition_snapshot" where
  "initial_definition r =
     (case run_initial_definition r of None \<Rightarrow> run_definition r | Some d \<Rightarrow> d)"

abbreviation run_steps :: "run \<Rightarrow> pipeline_step list" where
  "run_steps r \<equiv> pipeline_steps (def_pipeline (run_definition r))"

section \<open>Requests the coordinator emits and accepts\<close>

record message_intent =
  intent_id :: string
  intent_recipient_member_id :: string
  intent_body :: string

record dependency_output =
  dep_step_id :: string
  dep_fields :: "result_selection list"
  dep_text :: "string option"
  dep_data :: "json option"

record launch_request =
  launch_run_id :: string
  launch_run_revision :: revision
  launch_task_revision :: revision
  launch_step_id :: string
  launch_member_id :: string
  launch_profile :: agent_profile
  launch_task_instructions :: string
  launch_dependency_result_references :: "native_history_reference list"
  launch_dependency_outputs :: "dependency_output list"
  launch_execution :: native_execution_reference

record controlled_spawn_lease =
  lease_run_id :: string
  lease_run_revision :: revision
  lease_task_revision :: revision
  lease_lease_id :: string
  lease_step_id :: string
  lease_member_id :: string
  lease_profile :: agent_profile
  lease_task_instructions :: string
  lease_dependency_result_references :: "native_history_reference list"
  lease_dependency_outputs :: "dependency_output list"

record cancel_request =
  cancel_run_id :: string
  cancel_step_id :: string
  cancel_execution :: native_execution_reference

datatype uncertainty_identity = ExecutionIdentity string | LeaseIdentity string

datatype completion_outcome =
    OutcomeSucceeded "native_history_reference option"
  | OutcomeFailed failure_record

datatype uncertain_resolution =
    ResolvedSucceeded "native_history_reference option"
  | ResolvedFailed failure_record
  | ResolvedCancelled

datatype flow_action =
    Pause
  | Resume
  | Decide string revision bool
  | Repeat string revision

section \<open>Errors\<close>

datatype definition_error =
    InvalidFlow string
  | CallableDependency
  | NoScheduledStep
  | EmptyId string
  | DuplicateId string string
  | MissingId string string
  | DependencyCycle string
  | MandatoryPolicyNotEnforced string policy_enforcement
  | LaunchReferenceMismatch string
  | UnsupportedPermissionMode permission_mode
  | MandatoryToolUnsupported string
  | InvalidHistoryReference
  | TooManyInputs nat
  | InvalidInput string string
  | InvalidReviewLimit string
  | InvalidExecutor string string
  | InvalidPinnedOutput string string
  | TooManyOutputs nat
  | InvalidOutput string string

datatype authorization_error =
    UnknownMember string
  | UnknownProfile string
  | SpawnDenied string string
  | SendDenied string string
  | ObserveDenied string string
  | CoordinatorToolDenied string string
  | StepNotSpawnable string
  | StepPinned string

datatype run_input_error =
    Undeclared string
  | MissingRequired string
  | WrongKind string pipeline_input_kind
  | NotAnOption string
  | TooLong string nat
  | TotalTooLong nat

datatype coordinator_error =
    InvalidDefinition definition_error
  | Authorization authorization_error
  | InvalidRunInput run_input_error
  | RevisionConflict string revision revision
  | RunPaused
  | UnknownTask string
  | UnknownMessage string
  | DuplicateMessage string
  | AgentRequestConflict string
  | InvalidTaskStatus string task_status task_status
  | InvalidMessageStatus string message_status message_status
  | RunNotActive run_status
  | StaleExecution string
  | DependenciesNotReady string
  | LeaseConflict string
  | EmptyIdentifier string
  | InvalidRunData string
  | ExecutorMismatch string
  | NoPinnedData

text \<open>An operation on \<^verbatim>\<open>&mut Run\<close>: its result and the run it leaves behind.\<close>

type_synonym 'a run_op = "(coordinator_error, 'a, run) outcome"

section \<open>Executor kinds of a step\<close>

fun executor_kind_of :: "step_executor \<Rightarrow> executor_kind" where
  "executor_kind_of AgentExecutor = KAgent"
| "executor_kind_of LlmExecutor = KLlm"
| "executor_kind_of (ScriptExecutor _ _ _) = KScript"
| "executor_kind_of (PluginExecutor _ _ _) = KPlugin"
| "executor_kind_of (PipelineExecutor _ _) = KPipeline"

definition step_executor_kind :: "pipeline_step \<Rightarrow> executor_kind" where
  "step_executor_kind s = (case step_executor s of None \<Rightarrow> KAgent | Some e \<Rightarrow> executor_kind_of e)"

definition is_script :: "pipeline_step \<Rightarrow> bool" where
  "is_script s \<longleftrightarrow> step_executor_kind s = KScript"

definition is_plugin :: "pipeline_step \<Rightarrow> bool" where
  "is_plugin s \<longleftrightarrow> step_executor_kind s = KPlugin"

definition is_pipeline :: "pipeline_step \<Rightarrow> bool" where
  "is_pipeline s \<longleftrightarrow> step_executor_kind s = KPipeline"

definition is_host_executed :: "pipeline_step \<Rightarrow> bool" where
  "is_host_executed s \<longleftrightarrow> step_executor_kind s \<in> {KScript, KPlugin, KPipeline}"

end
