(* ===== verification/Results.thy ===== *)
theory Results
  imports Types
begin

text \<open>
  Result documents (\<^verbatim>\<open>results.rs\<close>): the projection of bound fields, and the check of a result
  against the fields a step declares. The error values are the source's stable codes.
\<close>

fun project_fields ::
  "json \<Rightarrow> result_selection list \<Rightarrow> json_map \<Rightarrow> string + json_map" where
  "project_fields value [] selected = Inr selected"
| "project_fields value (f # fs) selected =
     (if bm_get selected (sel_name f) \<noteq> None then Inl ''duplicate-input-name''
      else case get_field value (sel_field f) of
             None \<Rightarrow> Inl ''result-missing-field''
           | Some v \<Rightarrow> project_fields value fs (bm_insert (sel_name f) v selected))"

definition project_result :: "serde_json \<Rightarrow> string \<Rightarrow> result_selection list \<Rightarrow> string + string" where
  "project_result sj text flds =
     (if flds = [] then Inr text
      else case from_str sj text of
             None \<Rightarrow> Inl ''result-invalid-json''
           | Some value \<Rightarrow>
               (case project_fields value flds [] of
                  Inl e \<Rightarrow> Inl e
                | Inr selected \<Rightarrow> Inr (to_string sj (JObject selected))))"

definition nonblank_str :: "json \<Rightarrow> bool" where
  "nonblank_str v = is_some_and (as_str v) (\<lambda>s. \<not> is_blank_text s)"

fun field_value_valid :: "result_field_kind \<Rightarrow> json \<Rightarrow> bool" where
  "field_value_valid TextField v = nonblank_str v"
| "field_value_valid ArtifactField v = nonblank_str v"
| "field_value_valid NumberField v = is_number v"
| "field_value_valid BooleanField v = is_boolean v"
| "field_value_valid TextListField v = is_some_and (as_array v) (list_all nonblank_str)"

definition field_issue :: "result_field \<Rightarrow> json_map \<Rightarrow> string option" where
  "field_issue field object =
     (case bm_get object (field_name field) of
        None \<Rightarrow> Some ''result-missing-field''
      | Some v \<Rightarrow> if field_value_valid (field_kind field) v then None
                  else Some ''result-field-type'')"

definition validate_result_value :: "result_field list \<Rightarrow> json \<Rightarrow> string + unit" where
  "validate_result_value flds value =
     (if flds = [] then Inr ()
      else case as_object value of
             None \<Rightarrow> Inl ''result-not-object''
           | Some object \<Rightarrow>
               (case find_map (\<lambda>f. field_issue f object) flds of
                  None \<Rightarrow> Inr ()
                | Some code \<Rightarrow> Inl code))"

definition validate_result :: "serde_json \<Rightarrow> result_field list \<Rightarrow> string \<Rightarrow> string + unit" where
  "validate_result sj flds text =
     (if flds = [] then Inr ()
      else case from_str sj (trim text) of
             None \<Rightarrow> Inl ''result-invalid-json''
           | Some value \<Rightarrow> validate_result_value flds value)"

record result_field_issue =
  issue_field :: string
  issue_code :: string

definition result_field_issues :: "result_field list \<Rightarrow> json \<Rightarrow> result_field_issue list" where
  "result_field_issues flds value =
     (case as_object value of
        None \<Rightarrow> []
      | Some object \<Rightarrow>
          List.map_filter
            (\<lambda>f. map_option (\<lambda>code. \<lparr>issue_field = field_name f, issue_code = code\<rparr>)
                   (field_issue f object))
            flds)"

section \<open>What the checks decide\<close>

text \<open>The abstract contract of a result: an object in which every declared field is present
  with a value of its kind. Nothing is coerced.\<close>

definition satisfies_fields :: "result_field list \<Rightarrow> json \<Rightarrow> bool" where
  "satisfies_fields flds value \<longleftrightarrow>
     flds = [] \<or>
     (\<exists>object. value = JObject object \<and>
        (\<forall>f\<in>set flds. \<exists>v. bm_get object (field_name f) = Some v \<and>
                           field_value_valid (field_kind f) v))"

lemma field_issue_None:
  "field_issue f object = None \<longleftrightarrow>
   (\<exists>v. bm_get object (field_name f) = Some v \<and> field_value_valid (field_kind f) v)"
  by (auto simp: field_issue_def split: option.splits if_splits)

lemma validate_object_ok:
  "validate_result_value flds (JObject m) = Inr () \<longleftrightarrow> (\<forall>f\<in>set flds. field_issue f m = None)"
proof (cases "find_map (\<lambda>f. field_issue f m) flds")
  case None
  then have "\<forall>f\<in>set flds. field_issue f m = None" by simp
  with None show ?thesis by (simp add: validate_result_value_def del: find_map_None)
next
  case (Some code)
  from find_map_Some[OF this] have "\<exists>f\<in>set flds. field_issue f m \<noteq> None" by auto
  with Some show ?thesis by (auto simp: validate_result_value_def)
qed

lemma validate_result_value_ok:
  "validate_result_value flds value = Inr () \<longleftrightarrow> satisfies_fields flds value"
proof (cases "value")
  case (JObject m)
  then show ?thesis
    by (auto simp: validate_object_ok satisfies_fields_def field_issue_None)
qed (auto simp: validate_result_value_def satisfies_fields_def)

lemma result_field_issues_Nil:
  "result_field_issues flds (JObject m) = [] \<longleftrightarrow>
   validate_result_value flds (JObject m) = Inr ()"
  by (auto simp: validate_object_ok result_field_issues_def List.map_filter_def filter_empty_conv)

text \<open>The first listed issue is exactly the code a run records.\<close>

lemma validate_result_value_hd_issue:
  assumes "result_field_issues flds (JObject m) = i # is"
  shows "validate_result_value flds (JObject m) = Inl (issue_code i)"
  using assms
proof (induction flds)
  case (Cons f fs)
  then show ?case
    by (cases "field_issue f m"; cases fs)
      (auto simp: result_field_issues_def validate_result_value_def List.map_filter_def)
qed (simp add: result_field_issues_def List.map_filter_def)

lemma project_fields_get:
  assumes "project_fields value fs sel = Inr out"
  shows "\<forall>k v. bm_get out k = Some v \<longleftrightarrow>
    bm_get sel k = Some v \<or>
    (\<exists>f\<in>set fs. sel_name f = k \<and> get_field value (sel_field f) = Some v)"
  using assms
proof (induction fs arbitrary: sel)
  case (Cons f fs)
  then obtain x where x: "get_field value (sel_field f) = Some x"
    and fresh: "bm_get sel (sel_name f) = None"
    and rest: "project_fields value fs (bm_insert (sel_name f) x sel) = Inr out"
    by (auto split: if_splits option.splits)
  have "bm_get out (sel_name f) = Some x"
    using Cons.IH[OF rest] by (auto simp: btree.get_insert)
  then show ?case
    using Cons.IH[OF rest] x fresh by (auto simp: btree.get_insert split: if_splits)
qed simp

end
