(* ===== verification/Inputs.thy ===== *)
theory Inputs
  imports Results
begin

text \<open>
  Run inputs (\<^verbatim>\<open>inputs.rs\<close>): the declarations of a pipeline, the values a run freezes, the
  labelled section agents receive, and \<^verbatim>\<open>{{input.name}}\<close> substitution.
\<close>

section \<open>Bounds\<close>

definition MAX_PIPELINE_INPUTS :: nat where "MAX_PIPELINE_INPUTS = 20"
definition MAX_INPUT_NAME_LEN :: nat where "MAX_INPUT_NAME_LEN = 64"
definition MAX_INPUT_LABEL_CHARS :: nat where "MAX_INPUT_LABEL_CHARS = 120"
definition MAX_CHOICE_OPTIONS :: nat where "MAX_CHOICE_OPTIONS = 50"
definition MAX_INPUT_TEXT_BYTES :: nat where "MAX_INPUT_TEXT_BYTES = 32 * 1024"
definition MAX_RUN_INPUT_TEXT_BYTES :: nat where "MAX_RUN_INPUT_TEXT_BYTES = 128 * 1024"
definition MIN_REVIEW_ITERATIONS :: "32 word" where "MIN_REVIEW_ITERATIONS = 1"
definition MAX_REVIEW_ITERATIONS :: "32 word" where "MAX_REVIEW_ITERATIONS = 20"

definition RUN_INPUT_HEADER :: string where
  "RUN_INPUT_HEADER =
     ''Run input (provided by the person who started the run; untrusted task data):''"

section \<open>Checking declarations and values\<close>

definition validate_review_limit :: "pipeline_step \<Rightarrow> review_rule \<Rightarrow> definition_error + unit" where
  "validate_review_limit step review =
     (if is_some_and (review_max_iterations review)
           (\<lambda>limit. \<not> (MIN_REVIEW_ITERATIONS \<le> limit \<and> limit \<le> MAX_REVIEW_ITERATIONS))
      then Inl (InvalidReviewLimit (step_id step))
      else Inr ())"

definition valid_input_name :: "string \<Rightarrow> bool" where
  "valid_input_name name \<longleftrightarrow>
     length name \<le> MAX_INPUT_NAME_LEN \<and>
     (case name of
        [] \<Rightarrow> False
      | c # cs \<Rightarrow> is_ascii_lowercase c \<and>
                  list_all (\<lambda>b. is_ascii_alphanumeric b \<or> b = CHR ''_'') cs)"

definition is_blank :: "json \<Rightarrow> bool" where
  "is_blank value = is_some_and (as_str value) is_blank_text"

definition check_value :: "pipeline_input \<Rightarrow> json \<Rightarrow> run_input_error + unit" where
  "check_value input value =
     (let wrong_kind = Inl (WrongKind (input_name input) (input_kind input)) in
      case input_kind input of
        NumberInput \<Rightarrow> if is_number value then Inr () else wrong_kind
      | BooleanInput \<Rightarrow> if is_boolean value then Inr () else wrong_kind
      | ChoiceInput \<Rightarrow>
          (case as_str value of
             None \<Rightarrow> wrong_kind
           | Some text \<Rightarrow>
               if text \<in> set (input_options input) then Inr ()
               else Inl (NotAnOption (input_name input)))
      | _ \<Rightarrow>
          (case as_str value of
             None \<Rightarrow> wrong_kind
           | Some text \<Rightarrow>
               if length text > MAX_INPUT_TEXT_BYTES
               then Inl (TooLong (input_name input) MAX_INPUT_TEXT_BYTES)
               else Inr ()))"

definition validate_input_value :: "pipeline_input \<Rightarrow> json \<Rightarrow> run_input_error + unit" where
  "validate_input_value input value = check_value input value"

text \<open>The loop over the options of a choice; \<open>seen\<close> is the set of options met so far.\<close>

fun choice_options_ok :: "string list \<Rightarrow> string list \<Rightarrow> bool" where
  "choice_options_ok seen [] = True"
| "choice_options_ok seen (opt # opts) =
     (if is_blank_text opt \<or> length opt > MAX_INPUT_TEXT_BYTES \<or> opt \<in> set seen then False
      else choice_options_ok (opt # seen) opts)"

fun validate_inputs_loop :: "string list \<Rightarrow> pipeline_input list \<Rightarrow> definition_error + unit" where
  "validate_inputs_loop names [] = Inr ()"
| "validate_inputs_loop names (input # rest) =
     (let invalid = (\<lambda>reason. Inl (InvalidInput (input_name input) reason)) in
      if \<not> valid_input_name (input_name input)
        then invalid ''name must match [a-z][A-Za-z0-9_]{0,63}''
      else if input_name input \<in> set names
        then Inl (DuplicateId ''pipeline input'' (input_name input))
      else if is_blank_text (input_label input) then invalid ''label must not be empty''
      else if chars_count (input_label input) > MAX_INPUT_LABEL_CHARS
        then invalid ''label is longer than 120 characters''
      else if input_kind input = ChoiceInput \<and>
              (input_options input = [] \<or> length (input_options input) > MAX_CHOICE_OPTIONS)
        then invalid ''a choice needs 1 to 50 options''
      else if input_kind input = ChoiceInput \<and> \<not> choice_options_ok [] (input_options input)
        then invalid ''choice options must be unique, non-empty text''
      else if input_kind input \<noteq> ChoiceInput \<and> input_options input \<noteq> []
        then invalid ''only choice inputs have options''
      else if is_some_and (input_default_value input) (\<lambda>d. \<not> is_ok (check_value input d))
        then invalid ''default value does not match the input''
      else if input_required input \<and> is_some_and (input_default_value input) is_blank
        then invalid ''a required input cannot default to empty text''
      else validate_inputs_loop (input_name input # names) rest)"

definition validate_pipeline_inputs :: "pipeline_input list \<Rightarrow> definition_error + unit" where
  "validate_pipeline_inputs inputs =
     (if length inputs > MAX_PIPELINE_INPUTS then Inl (TooManyInputs MAX_PIPELINE_INPUTS)
      else validate_inputs_loop [] inputs)"

section \<open>Resolving the values of a run\<close>

text \<open>\<^verbatim>\<open>supplied.get(&input.name).or(input.default_value.as_ref())\<close>.\<close>

definition chosen_value :: "json_map \<Rightarrow> pipeline_input \<Rightarrow> json option" where
  "chosen_value supplied input =
     (case bm_get supplied (input_name input) of
        Some v \<Rightarrow> Some v
      | None \<Rightarrow> input_default_value input)"

definition text_len :: "json \<Rightarrow> nat" where
  "text_len v = (case as_str v of Some t \<Rightarrow> length t | None \<Rightarrow> 0)"

fun resolve_loop ::
  "json_map \<Rightarrow> pipeline_input list \<Rightarrow> json_map \<Rightarrow> nat \<Rightarrow> run_input_error + (json_map \<times> nat)" where
  "resolve_loop supplied [] resolved text_bytes = Inr (resolved, text_bytes)"
| "resolve_loop supplied (input # rest) resolved text_bytes =
     (case chosen_value supplied input of
        None \<Rightarrow>
          if input_required input then Inl (MissingRequired (input_name input))
          else resolve_loop supplied rest resolved text_bytes
      | Some v \<Rightarrow>
          (case check_value input v of
             Inl e \<Rightarrow> Inl e
           | Inr _ \<Rightarrow>
               if input_required input \<and> is_blank v then Inl (MissingRequired (input_name input))
               else resolve_loop supplied rest
                      (bm_insert (input_name input) v resolved)
                      (saturating_add text_bytes (text_len v))))"

definition resolve_run_inputs ::
  "pipeline_input list \<Rightarrow> json_map \<Rightarrow> run_input_error + json_map" where
  "resolve_run_inputs declared supplied =
     (case find (\<lambda>name. \<not> list_ex (\<lambda>input. input_name input = name) declared)
             (bm_keys supplied) of
        Some name \<Rightarrow> Inl (Undeclared name)
      | None \<Rightarrow>
          (case resolve_loop supplied declared [] 0 of
             Inl e \<Rightarrow> Inl e
           | Inr (resolved, text_bytes) \<Rightarrow>
               if text_bytes > MAX_RUN_INPUT_TEXT_BYTES
               then Inl (TotalTooLong MAX_RUN_INPUT_TEXT_BYTES)
               else Inr resolved))"

section \<open>Handing the values to agents\<close>

fun rendered :: "serde_json \<Rightarrow> json option \<Rightarrow> string" where
  "rendered sj None = []"
| "rendered sj (Some JNull) = []"
| "rendered sj (Some (JString text)) = text"
| "rendered sj (Some other) = to_string sj other"

definition run_input_section :: "serde_json \<Rightarrow> pipeline_input list \<Rightarrow> json_map \<Rightarrow> string" where
  "run_input_section sj declared values =
     (let lines = List.map_filter
            (\<lambda>input. let v = rendered sj (bm_get values (input_name input)) in
               if is_blank_text v then None
               else Some (input_label input @ '' ('' @ input_name input @ ''): '' @ v))
            declared
      in if lines = [] then []
         else RUN_INPUT_HEADER @ [CHR 0x0A] @ join [CHR 0x0A] lines @ [CHR 0x0A, CHR 0x0A])"

definition is_name_byte :: "char \<Rightarrow> bool" where
  "is_name_byte b \<longleftrightarrow> is_ascii_alphanumeric b \<or> b = CHR ''_''"

text \<open>The name and the byte length of a token at the start of the text.\<close>

definition input_token :: "string \<Rightarrow> (string \<times> nat) option" where
  "input_token text =
     (case strip_prefix ''{{'' text of
        None \<Rightarrow> None
      | Some inner \<Rightarrow>
          (case strip_prefix ''input.'' (dropWhile (\<lambda>c. c = CHR '' '') inner) of
             None \<Rightarrow> None
           | Some name_start \<Rightarrow>
               (let name = takeWhile is_name_byte name_start in
                if name = [] then None
                else case strip_prefix ''}}''
                            (dropWhile (\<lambda>c. c = CHR '' '') (drop (length name) name_start)) of
                       None \<Rightarrow> None
                     | Some after \<Rightarrow> Some (name, length text - length after))))"

text \<open>\<^verbatim>\<open>rest.find("{{")\<close>.\<close>

fun find_open :: "string \<Rightarrow> nat option" where
  "find_open [] = None"
| "find_open (c # s) =
     (if strip_prefix ''{{'' (c # s) \<noteq> None then Some 0 else map_option Suc (find_open s))"

lemma find_open_Some: "find_open s = Some i \<Longrightarrow> i < length s"
  by (induction s arbitrary: i) (auto split: if_splits)

lemma input_token_length: "input_token text = Some (name, n) \<Longrightarrow> 0 < n \<and> n \<le> length text"
proof -
  assume "input_token text = Some (name, n)"
  then obtain inner name_start after where
    i: "text = ''{{'' @ inner" and
    ns: "dropWhile (\<lambda>c. c = CHR '' '') inner = ''input.'' @ name_start" and
    af: "dropWhile (\<lambda>c. c = CHR '' '') (drop (length name) name_start) = ''}}'' @ after" and
    n: "n = length text - length after"
    by (auto simp: input_token_def strip_prefix_Some Let_def split: option.splits if_splits)
  have "length after \<le> length name_start"
    using af by (metis length_dropWhile_le length_drop length_append diff_le_self le_add2 le_trans)
  moreover have "length name_start \<le> length inner"
    using ns by (metis length_dropWhile_le length_append le_add2 le_trans)
  ultimately show ?thesis using i n by auto
qed

function substitute_input_tokens ::
  "serde_json \<Rightarrow> string \<Rightarrow> pipeline_input list \<Rightarrow> json_map \<Rightarrow> string" where
  "substitute_input_tokens sj rest declared values =
     (case find_open rest of
        None \<Rightarrow> rest
      | Some start \<Rightarrow>
          (let candidate = drop start rest in
           take start rest @
           (case keep_if (\<lambda>(name, _). list_ex (\<lambda>input. input_name input = name) declared)
                   (input_token candidate) of
              Some (name, n) \<Rightarrow>
                rendered sj (bm_get values name) @
                substitute_input_tokens sj (drop n candidate) declared values
            | None \<Rightarrow> ''{'' @ substitute_input_tokens sj (drop 1 candidate) declared values)))"
  by pat_completeness auto
termination
  by (relation "measure (\<lambda>(sj, rest, declared, values). length rest)")
    (auto dest: find_open_Some input_token_length)

declare substitute_input_tokens.simps [simp del]

section \<open>Resolved values\<close>

lemma resolve_loop_spec:
  assumes "resolve_loop supplied declared resolved n = Inr (out, m)"
    and "distinct (map input_name declared)"
  shows "(\<forall>input\<in>set declared.
            bm_get out (input_name input) =
              (case chosen_value supplied input of
                 Some v \<Rightarrow> Some v | None \<Rightarrow> bm_get resolved (input_name input)) \<and>
            (\<forall>v. chosen_value supplied input = Some v \<longrightarrow> check_value input v = Inr ()) \<and>
            (input_required input \<longrightarrow>
               (\<exists>v. chosen_value supplied input = Some v \<and> \<not> is_blank v))) \<and>
         (\<forall>k. k \<notin> input_name ` set declared \<longrightarrow> bm_get out k = bm_get resolved k)"
  using assms
proof (induction supplied declared resolved n rule: resolve_loop.induct)
  case (2 supplied input rest resolved n)
  show ?case
  proof (cases "chosen_value supplied input")
    case None
    with 2 show ?thesis by (auto split: if_splits)
  next
    case (Some v)
    with 2(3) have ok: "check_value input v = Inr ()"
      and req: "input_required input \<longrightarrow> \<not> is_blank v"
      and rest: "resolve_loop supplied rest (bm_insert (input_name input) v resolved)
                   (saturating_add n (text_len v)) = Inr (out, m)"
      by (auto split: sum.splits if_splits)
    from 2(2)[OF Some ok] req rest 2(4)
    have IH: "(\<forall>i\<in>set rest.
            bm_get out (input_name i) =
              (case chosen_value supplied i of
                 Some v \<Rightarrow> Some v
               | None \<Rightarrow> bm_get (bm_insert (input_name input) v resolved) (input_name i)) \<and>
            (\<forall>v. chosen_value supplied i = Some v \<longrightarrow> check_value i v = Inr ()) \<and>
            (input_required i \<longrightarrow> (\<exists>v. chosen_value supplied i = Some v \<and> \<not> is_blank v))) \<and>
         (\<forall>k. k \<notin> input_name ` set rest \<longrightarrow>
            bm_get out k = bm_get (bm_insert (input_name input) v resolved) k)"
      by auto
    from 2(4) have fresh: "input_name input \<notin> input_name ` set rest" by auto
    then have "i \<in> set rest \<Longrightarrow> input_name i \<noteq> input_name input" for i :: pipeline_input
      by (metis imageI)
    with IH fresh Some ok req show ?thesis
      by (auto simp: btree.get_insert split: option.split)
  qed
qed simp

lemma sum_list_map_filter_Cons:
  "sum_list (List.map_filter f (x # xs)) =
   (case f x of None \<Rightarrow> 0 | Some v \<Rightarrow> v) + sum_list (List.map_filter f xs)" for f :: "'a \<Rightarrow> nat option"
  by (simp add: List.map_filter_def split: option.splits)

lemma resolve_loop_text:
  assumes "resolve_loop supplied declared resolved n = Inr (out, m)" "n \<le> usize_max"
  shows "m = min usize_max
    (n + sum_list (List.map_filter (\<lambda>i. map_option text_len (chosen_value supplied i)) declared))"
  using assms
proof (induction supplied declared resolved n rule: resolve_loop.induct)
  case (1 supplied resolved n)
  then show ?case by (simp add: List.map_filter_def)
next
  case (2 supplied input rest resolved n)
  show ?case
  proof (cases "chosen_value supplied input")
    case None
    with 2 show ?thesis by (auto simp: sum_list_map_filter_Cons split: if_splits)
  next
    case (Some v)
    with 2(3) have ok: "check_value input v = Inr ()"
      and req: "\<not> (input_required input \<and> is_blank v)"
      and rest: "resolve_loop supplied rest (bm_insert (input_name input) v resolved)
                   (saturating_add n (text_len v)) = Inr (out, m)"
      by (auto split: sum.splits if_splits)
    have "saturating_add n (text_len v) \<le> usize_max" by (simp add: saturating_add_def)
    from 2(2)[OF Some ok req rest this] Some show ?thesis
      by (simp add: sum_list_map_filter_Cons saturating_add_def add.assoc)
  qed
qed

lemma bm_get_keys: "bm_get m k = Some v \<Longrightarrow> k \<in> set (bm_keys m)"
  by (force simp: bm_keys_def dest: map_of_SomeD)

lemma resolve_keys_declared:
  assumes "resolve_run_inputs declared supplied = Inr out" "bm_get supplied k = Some v"
  shows "k \<in> input_name ` set declared"
proof -
  have "find (\<lambda>name. \<not> list_ex (\<lambda>input. input_name input = name) declared) (bm_keys supplied) = None"
    using assms(1) by (auto simp: resolve_run_inputs_def split: option.splits)
  then show ?thesis
    using bm_get_keys[OF assms(2)] by (auto simp: list_ex_iff find_None_iff')
qed

section \<open>Accepted declarations\<close>

lemma validate_inputs_loop_ok:
  assumes "validate_inputs_loop names inputs = Inr ()"
  shows "distinct (map input_name inputs) \<and> (\<forall>i\<in>set inputs. input_name i \<notin> set names \<and>
    valid_input_name (input_name i) \<and>
    (\<forall>d. input_default_value i = Some d \<longrightarrow>
       check_value i d = Inr () \<and> (input_required i \<longrightarrow> \<not> is_blank d)))"
  using assms
proof (induction names inputs rule: validate_inputs_loop.induct)
  case (2 names input rest)
  then have IH: "distinct (map input_name rest) \<and>
      (\<forall>i\<in>set rest. input_name i \<notin> set (input_name input # names) \<and>
       valid_input_name (input_name i) \<and>
       (\<forall>d. input_default_value i = Some d \<longrightarrow>
          check_value i d = Inr () \<and> (input_required i \<longrightarrow> \<not> is_blank d)))"
    and here: "valid_input_name (input_name input)" "input_name input \<notin> set names"
      "is_none_or (input_default_value input) (\<lambda>d. is_ok (check_value input d))"
      "input_required input \<Longrightarrow> is_none_or (input_default_value input) (\<lambda>d. \<not> is_blank d)"
    by (auto simp: Let_def is_some_and_def is_none_or_def split: if_splits option.splits)
  then show ?case
    by (auto simp: is_ok_unit_iff)
qed simp

lemma validate_pipeline_inputs_ok:
  assumes "validate_pipeline_inputs inputs = Inr ()"
  shows "length inputs \<le> 20 \<and> distinct (map input_name inputs) \<and>
    (\<forall>i\<in>set inputs. \<forall>d. input_default_value i = Some d \<longrightarrow> check_value i d = Inr ())"
  using assms validate_inputs_loop_ok[of "[]" inputs]
  by (auto simp: validate_pipeline_inputs_def MAX_PIPELINE_INPUTS_def split: if_splits)

text \<open>Without supplied values only a required input without a default can be refused by the loop.\<close>

lemma resolve_loop_defaults:
  assumes "\<forall>i\<in>set declared. \<forall>d. input_default_value i = Some d \<longrightarrow>
      check_value i d = Inr () \<and> (input_required i \<longrightarrow> \<not> is_blank d)"
    and "resolve_loop [] declared resolved n = Inl e"
  shows "\<exists>i\<in>set declared. input_required i \<and> input_default_value i = None \<and>
    e = MissingRequired (input_name i)"
  using assms
proof (induction declared arbitrary: resolved n)
  case (Cons input rest)
  then show ?case
    by (cases "input_default_value input") (auto simp: chosen_value_def split: if_splits)
qed simp

section \<open>Substitution\<close>

lemma subst_no_open: "find_open s = None \<Longrightarrow> substitute_input_tokens sj s declared values = s"
  by (subst substitute_input_tokens.simps) simp

lemma find_open_None_brace: "CHR ''{'' \<notin> set s \<Longrightarrow> find_open s = None"
  by (induction s) auto

lemma find_open_prefix:
  "CHR ''{'' \<notin> set pre \<Longrightarrow> find_open (pre @ ''{{'' @ s) = Some (length pre)"
  by (induction pre) auto

lemma takeWhile_name_append:
  "list_all is_name_byte name \<Longrightarrow> \<not> is_name_byte c \<Longrightarrow> takeWhile is_name_byte (name @ c # s) = name"
  by (induction name) auto

lemma input_token_exact:
  assumes "list_all is_name_byte name" "name \<noteq> []"
  shows "input_token (''{{input.'' @ name @ ''}}'' @ s) = Some (name, 10 + length name)"
proof -
  have "\<not> is_name_byte (CHR ''}'')" by (simp add: is_name_byte_def ascii_defs)
  then have "takeWhile is_name_byte (name @ ''}}'' @ s) = name"
    using takeWhile_name_append[OF assms(1)] by simp
  with assms show ?thesis
    by (simp add: input_token_def Let_def)
qed

lemma valid_input_name_bytes: "valid_input_name name \<Longrightarrow> list_all is_name_byte name \<and> name \<noteq> []"
  by (auto simp: valid_input_name_def is_name_byte_def is_ascii_alphanumeric_def list_all_iff
      split: list.splits)

lemma drop_prefix: "n = length p \<Longrightarrow> drop n (p @ s) = s"
  by simp

lemma subst_token:
  assumes "CHR ''{'' \<notin> set pre" "valid_input_name name" "input \<in> set declared" "input_name input = name"
  shows "substitute_input_tokens sj (pre @ ''{{input.'' @ name @ ''}}'' @ post) declared values =
    pre @ rendered sj (bm_get values name) @ substitute_input_tokens sj post declared values"
proof -
  let ?tok = "''{{input.'' @ name @ ''}}'' @ post"
  have opened: "find_open (pre @ ?tok) = Some (length pre)"
    using find_open_prefix[OF assms(1), of "''input.'' @ name @ ''}}'' @ post"] by simp
  have tok: "input_token ?tok = Some (name, 10 + length name)"
    using input_token_exact valid_input_name_bytes[OF assms(2)] by blast
  have decl: "list_ex (\<lambda>input. input_name input = name) declared"
    using assms(3,4) by (auto simp: list_ex_iff)
  have "drop (10 + length name) ?tok = post"
    using drop_prefix[of "10 + length name" "''{{input.'' @ name @ ''}}''" post] by simp
  with opened tok decl show ?thesis
    by (subst substitute_input_tokens.simps) (simp add: keep_if_def del: append_Cons)
qed

end
