(* ===== verification/Step_Output.thy ===== *)
theory Step_Output
  imports Results
begin

text \<open>
  What the host records of a step it executed (\<^verbatim>\<open>executors.rs\<close>): bounded text, the tail kept
  as a failure detail, and the check that turns a script's stdout into result data or text.
\<close>

definition MAX_SCRIPT_SOURCE_BYTES :: nat where "MAX_SCRIPT_SOURCE_BYTES = 64 * 1024"
definition MIN_SCRIPT_TIMEOUT_SECONDS :: "32 word" where "MIN_SCRIPT_TIMEOUT_SECONDS = 1"
definition MAX_SCRIPT_TIMEOUT_SECONDS :: "32 word" where "MAX_SCRIPT_TIMEOUT_SECONDS = 3600"
definition MAX_SCRIPT_STDOUT_BYTES :: nat where "MAX_SCRIPT_STDOUT_BYTES = 256 * 1024"
definition MAX_FAILURE_DETAIL_BYTES :: nat where "MAX_FAILURE_DETAIL_BYTES = 2 * 1024"

section \<open>Failure details\<close>

text \<open>\<^verbatim>\<open>while !cleaned.is_char_boundary(start) { start += 1; }\<close>, for a start within the text.\<close>

function next_boundary :: "string \<Rightarrow> nat \<Rightarrow> nat" where
  "next_boundary s i =
     (if i < length s \<and> \<not> is_char_boundary s i then next_boundary s (Suc i) else i)"
  by pat_completeness auto
termination
  by (relation "measure (\<lambda>(s, i). length s - i)") auto

declare next_boundary.simps [simp del]

definition failure_detail :: "string \<Rightarrow> string" where
  "failure_detail text =
     (let cleaned = trim (drop_controls (replace_crlf text)) in
      if length cleaned \<le> MAX_FAILURE_DETAIL_BYTES then cleaned
      else
        let start = next_boundary cleaned (length cleaned - MAX_FAILURE_DETAIL_BYTES);
            tail = drop start cleaned;
            tail = (case position (\<lambda>c. c = CHR 0x0A) tail of
                      Some offset \<Rightarrow> if offset + 1 < length tail then drop (offset + 1) tail else tail
                    | None \<Rightarrow> tail)
        in trim tail)"

definition failure_new :: "string \<Rightarrow> failure_record" where
  "failure_new code = \<lparr>fail_code = code, fail_detail = None\<rparr>"

definition failure_with_detail :: "string \<Rightarrow> string \<Rightarrow> failure_record" where
  "failure_with_detail code detail =
     (let d = failure_detail detail in
      \<lparr>fail_code = code, fail_detail = (if d = [] then None else Some d)\<rparr>)"

section \<open>Bounded text\<close>

text \<open>\<^verbatim>\<open>while !text.is_char_boundary(end) { end -= 1; }\<close>.\<close>

fun prev_boundary :: "string \<Rightarrow> nat \<Rightarrow> nat" where
  "prev_boundary s 0 = 0"
| "prev_boundary s (Suc i) = (if is_char_boundary s (Suc i) then Suc i else prev_boundary s i)"

definition bounded_text :: "string \<Rightarrow> nat \<Rightarrow> string \<times> bool" where
  "bounded_text text limit =
     (if length text \<le> limit then (text, False)
      else (take (prev_boundary text limit) text, True))"

section \<open>A script's stdout\<close>

datatype script_completion = Exited string bool | ScriptFailed failure_record

datatype script_stdout_result =
    StdoutData json
  | StdoutOutput task_output
  | StdoutFailed failure_record

definition script_stdout_result ::
  "serde_json \<Rightarrow> result_field list \<Rightarrow> string \<Rightarrow> bool \<Rightarrow> script_stdout_result" where
  "script_stdout_result sj flds stdout truncated =
     (let (stdout, was_cut) = bounded_text stdout MAX_SCRIPT_STDOUT_BYTES;
          truncated = (truncated \<or> was_cut);
          parsed = (if truncated then None else from_str sj (trim stdout))
      in case keep_if is_object parsed of
           Some v \<Rightarrow>
             (case validate_result_value flds v of
                Inr _ \<Rightarrow> StdoutData v
              | Inl code \<Rightarrow> StdoutFailed (failure_new code))
         | None \<Rightarrow>
             if flds \<noteq> []
             then StdoutFailed (failure_new
                    (if parsed \<noteq> None then ''result-not-object'' else ''result-invalid-json''))
             else StdoutOutput \<lparr>output_text = stdout, output_truncated = truncated\<rparr>)"

definition context_text :: "serde_json \<Rightarrow> dependency_output \<Rightarrow> string + string" where
  "context_text sj d =
     (let whole = (case (dep_data d, dep_text d) of
                     (Some data, _) \<Rightarrow> to_string sj data
                   | (None, Some text) \<Rightarrow> text
                   | (None, None) \<Rightarrow> [])
      in project_result sj whole (dep_fields d))"

section \<open>Facts\<close>

lemma prev_boundary_le: "prev_boundary s n \<le> n"
  by (induction n) auto

lemma prev_boundary_boundary: "is_char_boundary s (prev_boundary s n)"
  by (induction n) auto

lemma prev_boundary_greatest:
  "i \<le> n \<Longrightarrow> is_char_boundary s i \<Longrightarrow> i \<le> prev_boundary s n"
proof (induction n)
  case (Suc n)
  then show ?case by (cases "i = Suc n") auto
qed simp

lemma next_boundary_ge: "i \<le> next_boundary s i"
proof (induction s i rule: next_boundary.induct)
  case (1 s i)
  then show ?case by (subst next_boundary.simps) auto
qed

text \<open>The tail \<open>failure_detail\<close> keeps of a text that is too long.\<close>

lemma failure_detail_cases:
  obtains "failure_detail s = trim (drop_controls (replace_crlf s))"
      "length (trim (drop_controls (replace_crlf s))) \<le> MAX_FAILURE_DETAIL_BYTES"
  | n where "failure_detail s = trim (drop n (trim (drop_controls (replace_crlf s))))"
      "length (trim (drop_controls (replace_crlf s))) - n \<le> MAX_FAILURE_DETAIL_BYTES"
proof -
  define c where "c = trim (drop_controls (replace_crlf s))"
  define st where "st = next_boundary c (length c - MAX_FAILURE_DETAIL_BYTES)"
  have st: "length c - st \<le> MAX_FAILURE_DETAIL_BYTES"
    using next_boundary_ge[of "length c - MAX_FAILURE_DETAIL_BYTES" c] by (simp add: st_def)
  consider "length c \<le> MAX_FAILURE_DETAIL_BYTES"
    | "\<not> length c \<le> MAX_FAILURE_DETAIL_BYTES" by blast
  then show ?thesis
  proof cases
    case 1
    then show ?thesis using that(1) by (simp add: failure_detail_def c_def)
  next
    case 2
    obtain n where "failure_detail s = trim (drop n c)" "st \<le> n"
    proof (cases "position (\<lambda>x. x = CHR 0x0A) (drop st c)")
      case None
      with 2 have "failure_detail s = trim (drop st c)"
        by (simp add: failure_detail_def c_def[symmetric] st_def[symmetric] Let_def del: position_None)
      with that show ?thesis by blast
    next
      case (Some off)
      with 2 have "failure_detail s = trim (drop st c) \<or>
          failure_detail s = trim (drop (off + 1 + st) c)"
        by (auto simp: failure_detail_def c_def[symmetric] st_def[symmetric] Let_def)
      with that[of st] that[of "off + 1 + st"] show ?thesis by auto
    qed
    with that(2)[of n] st show ?thesis by (auto simp: c_def)
  qed
qed

lemma failure_detail_length: "length (failure_detail s) \<le> MAX_FAILURE_DETAIL_BYTES"
proof (cases s rule: failure_detail_cases)
  case (2 n)
  then show ?thesis
    using length_trim[of "drop n (trim (drop_controls (replace_crlf s)))"] by simp
qed simp

lemma failure_detail_set: "set (failure_detail s) \<subseteq> set (drop_controls (replace_crlf s))"
proof (cases s rule: failure_detail_cases)
  case 1
  then show ?thesis using set_trim by simp
next
  case (2 n)
  have "set (drop n (trim (drop_controls (replace_crlf s)))) \<subseteq> set (trim (drop_controls (replace_crlf s)))"
    by (rule set_drop_subset)
  with 2 set_trim show ?thesis by (metis order_trans)
qed

lemma drop_controls_ascii:
  "c \<in> set (drop_controls s) \<Longrightarrow> is_ascii_control c \<Longrightarrow> c = CHR 0x0A \<or> c = CHR 0x09"
  by (induction s rule: drop_controls.induct) (auto split: if_splits)

lemma bounded_text_props:
  assumes "bounded_text s limit = (out, was_cut)"
  shows "length out \<le> limit \<and> (\<exists>rest. s = out @ rest \<and> (was_cut \<longleftrightarrow> rest \<noteq> [])) \<and>
    (was_cut \<longleftrightarrow> limit < length s)"
proof (cases "length s \<le> limit")
  case False
  let ?n = "prev_boundary s limit"
  have n: "?n \<le> limit" "?n < length s"
    using False prev_boundary_le[of s limit] by simp_all
  have "out = take ?n s" "was_cut"
    using False assms by (auto simp: bounded_text_def)
  with n False show ?thesis
    by (intro conjI exI[of _ "drop ?n s"]) auto
qed (use assms in \<open>auto simp: bounded_text_def\<close>)

text \<open>On well-formed UTF-8 a cut at a character boundary is well-formed UTF-8: the text starts
  with one character \<open>a # u\<close>, whose further bytes are no boundaries.\<close>

lemma byte_in_continuation:
  "byte_in 160 191 b \<Longrightarrow> is_continuation b" "byte_in 128 159 b \<Longrightarrow> is_continuation b"
  "byte_in 144 191 b \<Longrightarrow> is_continuation b" "byte_in 128 143 b \<Longrightarrow> is_continuation b"
  by (auto simp: byte_in_def is_continuation_def)

definition utf8_char_head :: "char \<Rightarrow> string \<Rightarrow> bool" where
  "utf8_char_head a u \<longleftrightarrow>
     list_all is_continuation u \<and> (\<forall>t. utf8_valid t \<longrightarrow> utf8_valid (a # u @ t))"

lemma utf8_valid_split:
  assumes v: "utf8_valid (a # s)"
  shows "\<exists>u rest. s = u @ rest \<and> utf8_char_head a u \<and> utf8_valid rest"
proof (cases "byte_val a < 128")
  case True
  with v show ?thesis
    by (intro exI[of _ "[]"] exI[of _ s]) (simp add: utf8_char_head_def)
next
  case n1: False
  with v obtain b s2 where s: "s = b # s2" by (cases s) auto
  show ?thesis
  proof (cases "byte_in 194 223 a")
    case True
    with v n1 s show ?thesis
      by (intro exI[of _ "[b]"] exI[of _ s2]) (simp add: utf8_char_head_def)
  next
    case n2: False
    with v n1 s obtain c s3 where s2: "s2 = c # s3" by (cases s2) auto
    show ?thesis
    proof (cases "byte_val a = 224 \<or> byte_in 225 236 a \<or> byte_in 238 239 a \<or> byte_val a = 237")
      case True
      with v n1 n2 s s2 show ?thesis
        by (intro exI[of _ "[b, c]"] exI[of _ s3])
          (auto simp: utf8_char_head_def byte_in_continuation split: if_splits)
    next
      case n3: False
      with v n1 n2 s s2 obtain d s4 where s3: "s3 = d # s4" by (cases s3) auto
      let ?second = "byte_val a = 240 \<and> byte_in 144 191 b \<or> byte_in 241 243 a \<and> is_continuation b \<or>
        byte_val a = 244 \<and> byte_in 128 143 b"
      have cd: "is_continuation c" "is_continuation d" "?second" "utf8_valid s4"
        using v n1 n2 n3 s s2 s3 by simp_all
      then have "is_continuation b" using byte_in_continuation by blast
      then have "utf8_char_head a [b, c, d]"
        using cd n1 n2 n3 by (simp add: utf8_char_head_def)
      with cd(4) s s2 s3 show ?thesis
        by (intro exI[of _ "[b, c, d]"] exI[of _ s4]) simp
    qed
  qed
qed

lemma utf8_valid_take:
  "utf8_valid s \<Longrightarrow> is_char_boundary s i \<Longrightarrow> utf8_valid (take i s)"
proof (induction s arbitrary: i rule: length_induct)
  case (1 s)
  show ?case
  proof (cases "i = 0 \<or> s = []")
    case False
    then obtain a s' where s: "s = a # s'" by (cases s) auto
    obtain u rest where u: "s' = u @ rest" "utf8_char_head a u" "utf8_valid rest"
      using utf8_valid_split[OF 1(2)[unfolded s]] by blast
    have inside: "i > length u"
    proof (rule ccontr)
      assume "\<not> i > length u"
      then have "i < length s" "is_continuation (s ! i)"
        using s u False by (auto simp: utf8_char_head_def list_all_length nth_Cons' nth_append)
      with 1(3) False show False by (simp add: is_char_boundary_def)
    qed
    define j where "j = i - Suc (length u)"
    have i: "i = Suc (length u + j)" using inside by (simp add: j_def)
    have "is_char_boundary rest j"
      using 1(3) s u(1) i by (auto simp: is_char_boundary_def nth_append)
    then have "utf8_valid (take j rest)"
      using 1(1) s u by simp
    then show ?thesis
      using s u i by (simp add: utf8_char_head_def)
  qed auto
qed

lemma bounded_text_utf8: "utf8_valid s \<Longrightarrow> utf8_valid (fst (bounded_text s n))"
  by (simp add: bounded_text_def utf8_valid_take prev_boundary_boundary)

end
