(* ===== verification/Executors.thy ===== *)
theory Executors
  imports Inputs Step_Output
begin

text \<open>
  Executor rules of a stored step: plugin nodes (\<^verbatim>\<open>plugin_steps.rs\<close>), sub-pipelines and
  pipeline outputs (\<^verbatim>\<open>subpipelines.rs\<close>), scripts and model calls (\<^verbatim>\<open>executors.rs\<close>).
\<close>

section \<open>Plugin nodes\<close>

definition MAX_PLUGIN_CONFIG_BYTES :: nat where "MAX_PLUGIN_CONFIG_BYTES = 64 * 1024"
definition MAX_PLUGIN_CONFIG_KEYS :: nat where "MAX_PLUGIN_CONFIG_KEYS = 30"
definition MAX_PLUGIN_ID_CHARS :: nat where "MAX_PLUGIN_ID_CHARS = 100"

definition slug_valid :: "string \<Rightarrow> nat \<Rightarrow> bool" where
  "slug_valid value maximum \<longleftrightarrow>
     value \<noteq> [] \<and> length value \<le> maximum \<and>
     list_all (\<lambda>b. is_ascii_lowercase b \<or> is_ascii_digit b \<or> b = CHR ''-'') value \<and>
     hd value \<noteq> CHR ''-'' \<and> last value \<noteq> CHR ''-''"

definition plugin_id_valid :: "string \<Rightarrow> bool" where
  "plugin_id_valid i \<longleftrightarrow>
     length i \<le> MAX_PLUGIN_ID_CHARS \<and>
     length (split_on (CHR ''.'') i) \<le> 8 \<and>
     list_all (\<lambda>segment. slug_valid segment 64) (split_on (CHR ''.'') i)"

definition key_valid :: "string \<Rightarrow> bool" where
  "key_valid key \<longleftrightarrow>
     length key \<le> 64 \<and>
     (case key of
        [] \<Rightarrow> False
      | c # cs \<Rightarrow> is_ascii_lowercase c \<and>
                  list_all (\<lambda>b. is_ascii_alphanumeric b \<or> b = CHR ''_'') cs)"

definition validate_plugin_executor ::
  "serde_json \<Rightarrow> string \<Rightarrow> string \<Rightarrow> json_map \<Rightarrow> string + unit" where
  "validate_plugin_executor sj plugin_id node_type config =
     (if \<not> plugin_id_valid plugin_id
        then Inl ''a plugin id is lowercase segments of letters, digits and hyphens''
      else if \<not> slug_valid node_type 48
        then Inl ''a node type id is lowercase letters, digits and hyphens''
      else if length config > MAX_PLUGIN_CONFIG_KEYS \<or> \<not> list_all key_valid (bm_keys config)
        then Inl ''a plugin node configuration has at most 30 field keys''
      else if \<not> list_all is_scalar (bm_values config)
        then Inl ''plugin node configuration values are strings, numbers or booleans''
      else if length (to_string sj (JObject config)) > MAX_PLUGIN_CONFIG_BYTES
        then Inl ''a plugin node configuration is at most 64 KiB''
      else Inr ())"

section \<open>Sub-pipelines\<close>

definition MAX_SUBPIPELINE_INPUTS :: nat where "MAX_SUBPIPELINE_INPUTS = 64"
definition MAX_PIPELINE_OUTPUTS :: nat where "MAX_PIPELINE_OUTPUTS = 32"
definition MAX_LAUNCH_COMMAND_ID_BYTES :: nat where "MAX_LAUNCH_COMMAND_ID_BYTES = 512"

fun validate_input_source ::
  "pipeline_step \<Rightarrow> string \<times> subpipeline_input_source \<Rightarrow> string + unit" where
  "validate_input_source step (name, source) =
     (if \<not> valid_input_name name
        then Inl ''sub-pipeline input names match [a-z][A-Za-z0-9_]{0,63}''
      else case source of
        ValueSource v \<Rightarrow>
          if \<not> is_scalar v then Inl ''a sub-pipeline input value is text, a number or a boolean''
          else Inr ()
      | InputSource n \<Rightarrow>
          if \<not> valid_input_name n then Inl ''a sub-pipeline input reads a declared run input''
          else Inr ()
      | StepSource s f \<Rightarrow>
          if s \<notin> set (step_dependency_step_ids step)
            then Inl ''a sub-pipeline input reads a direct dependency''
          else if is_some_and f is_blank_text
            then Inl ''a sub-pipeline input field name must not be empty''
          else Inr ())"

definition validate_pipeline_executor ::
  "pipeline_step \<Rightarrow> string \<Rightarrow> (string, subpipeline_input_source) btree_map \<Rightarrow> string + unit" where
  "validate_pipeline_executor step launch_command_id inputs =
     (if is_blank_text launch_command_id \<or>
         length launch_command_id > MAX_LAUNCH_COMMAND_ID_BYTES \<or> has_control launch_command_id
        then Inl ''a sub-pipeline names a saved launch command''
      else if step_input_bindings step \<noteq> []
        then Inl ''a sub-pipeline maps its dependencies with its inputs; input bindings apply to agent and llm steps''
      else if length inputs > MAX_SUBPIPELINE_INPUTS
        then Inl ''a sub-pipeline maps at most 64 inputs''
      else try_each (validate_input_source step) inputs)"

definition validate_parent_inputs ::
  "pipeline_definition \<Rightarrow> pipeline_step \<Rightarrow> definition_error + unit" where
  "validate_parent_inputs pipeline step =
     (case step_executor step of
        Some (PipelineExecutor _ inputs) \<Rightarrow>
          try_each
            (\<lambda>source. case source of
               InputSource name \<Rightarrow>
                 if list_ex (\<lambda>input. input_name input = name) (pipeline_inputs pipeline)
                 then Inr ()
                 else Inl (InvalidExecutor (step_id step)
                        ''a sub-pipeline input reads a run input this pipeline does not declare'')
             | _ \<Rightarrow> Inr ())
            (bm_values inputs)
      | _ \<Rightarrow> Inr ())"

fun validate_outputs_loop ::
  "pipeline_definition \<Rightarrow> string list \<Rightarrow> pipeline_output list \<Rightarrow> definition_error + unit" where
  "validate_outputs_loop pipeline names [] = Inr ()"
| "validate_outputs_loop pipeline names (output # rest) =
     (let invalid = (\<lambda>reason. Inl (InvalidOutput (out_name output) reason)) in
      if \<not> valid_input_name (out_name output)
        then invalid ''name must match [a-z][A-Za-z0-9_]{0,63}''
      else if out_name output \<in> set names
        then Inl (DuplicateId ''pipeline output'' (out_name output))
      else case find (\<lambda>s. step_id s = out_source_step_id output) (pipeline_steps pipeline) of
        None \<Rightarrow> Inl (MissingId ''output source step'' (out_source_step_id output))
      | Some source \<Rightarrow>
          if step_execution_mode source = Some Callable
            then invalid ''a callable role cannot be an output source''
          else and_then
            (case out_field output of
               Some f \<Rightarrow>
                 if is_blank_text f then invalid ''an output field name must not be empty''
                 else if step_result_fields source \<noteq> [] then
                   (case find (\<lambda>c. field_name c = f) (step_result_fields source) of
                      None \<Rightarrow> invalid ''an output reads a declared result field of its step''
                    | Some d \<Rightarrow>
                        if field_kind d \<noteq> out_kind output
                        then invalid ''an output has the kind of the field it reads''
                        else Inr ())
                 else Inr ()
             | None \<Rightarrow>
                 if out_kind output \<noteq> TextField
                 then invalid ''an output of a whole result text is text''
                 else Inr ())
            (\<lambda>_. validate_outputs_loop pipeline (out_name output # names) rest))"

definition validate_pipeline_outputs :: "pipeline_definition \<Rightarrow> definition_error + unit" where
  "validate_pipeline_outputs pipeline =
     (if length (pipeline_outputs pipeline) > MAX_PIPELINE_OUTPUTS
        then Inl (TooManyOutputs MAX_PIPELINE_OUTPUTS)
      else validate_outputs_loop pipeline [] (pipeline_outputs pipeline))"

definition validate_pipeline_subpipelines :: "pipeline_definition \<Rightarrow> definition_error + unit" where
  "validate_pipeline_subpipelines pipeline =
     and_then (try_each (validate_parent_inputs pipeline) (pipeline_steps pipeline))
       (\<lambda>_. validate_pipeline_outputs pipeline)"

section \<open>Executor rules\<close>

definition invalid_executor :: "pipeline_step \<Rightarrow> string \<Rightarrow> definition_error" where
  "invalid_executor step reason = InvalidExecutor (step_id step) reason"

definition validate_step_executor :: "serde_json \<Rightarrow> pipeline_step \<Rightarrow> definition_error + unit" where
  "validate_step_executor sj step =
     (let kind = step_executor_kind step; invalid = (\<lambda>reason. Inl (invalid_executor step reason)) in
      if kind = KAgent then Inr ()
      else if step_execution_mode step = Some Callable
        then invalid ''only agent steps can be callable roles; llm and script steps are scheduled''
      else if step_router step \<noteq> None then invalid ''llm and script steps cannot be routers''
      else case step_executor step of
        Some (PipelineExecutor launch_command_id inputs) \<Rightarrow>
          map_err (invalid_executor step) (validate_pipeline_executor step launch_command_id inputs)
      | Some (ScriptExecutor _ source timeout_seconds) \<Rightarrow>
          if is_blank_text source then invalid ''a script needs source code''
          else if length source > MAX_SCRIPT_SOURCE_BYTES
            then invalid ''script source is larger than 64 KiB''
          else if \<not> (MIN_SCRIPT_TIMEOUT_SECONDS \<le> timeout_seconds \<and>
                     timeout_seconds \<le> MAX_SCRIPT_TIMEOUT_SECONDS)
            then invalid ''a script timeout is 1 to 3600 seconds''
          else if step_input_bindings step \<noteq> []
            then invalid ''a script reads every dependency result on stdin; input bindings apply to agent and llm steps''
          else Inr ()
      | Some (PluginExecutor plugin_id node_type config) \<Rightarrow>
          and_then (map_err (invalid_executor step)
                      (validate_plugin_executor sj plugin_id node_type config))
            (\<lambda>_. if step_input_bindings step \<noteq> []
                 then invalid ''a plugin node reads every dependency result; input bindings apply to agent and llm steps''
                 else Inr ())
      | _ \<Rightarrow> Inr ())"

definition validate_llm_authority ::
  "run_definition_snapshot \<Rightarrow> pipeline_step \<Rightarrow> definition_error + unit" where
  "validate_llm_authority snapshot step =
     (let invalid = (\<lambda>reason. Inl (invalid_executor step reason));
          member = step_assigned_member_id step;
          team = def_team snapshot
      in if list_ex (\<lambda>e. from_member_id e = member \<or> to_member_id e = member)
              (send_edges team @ observe_edges team)
         then invalid ''an llm step cannot send, receive or observe messages''
         else case Option.bind (find (\<lambda>c. member_id c = member) (team_members team))
                     (\<lambda>c. find (\<lambda>p. profile_id p = member_profile_id c) (def_profiles snapshot)) of
           None \<Rightarrow> Inl (MissingId ''assigned member'' member)
         | Some profile \<Rightarrow>
             if profile_permission_mode profile \<noteq> ReadOnly
               then invalid ''an llm step's profile must be read-only''
             else if profile_network_access profile
               then invalid ''an llm step's profile has no network access''
             else if list_ex (\<lambda>r. rule_decision r = Allow) (policy_rules (profile_tool_policy profile))
               then invalid ''an llm step's profile cannot allow tools''
             else if list_ex resource_enabled (profile_resource_rules profile)
               then invalid ''an llm step's profile cannot enable skills or MCP servers''
             else if profile_allowed_spawn_profile_ids profile \<noteq> []
               then invalid ''an llm step cannot spawn agents''
             else if list_ex (\<lambda>c. profile_id profile \<in> set (profile_allowed_spawn_profile_ids c))
                       (def_profiles snapshot)
               then invalid ''an llm step's profile cannot be spawned''
             else Inr ())"

definition validate_executor_authority ::
  "run_definition_snapshot \<Rightarrow> pipeline_step \<Rightarrow> string list \<Rightarrow> definition_error + unit" where
  "validate_executor_authority snapshot step members =
     (let outside = (\<lambda>reason. if step_assigned_member_id step \<in> set members
                              then Inl (invalid_executor step reason) else Inr ()) in
      case step_executor_kind step of
        KAgent \<Rightarrow> Inr ()
      | KScript \<Rightarrow> outside ''a script runs on the host, not as a team member''
      | KPlugin \<Rightarrow> outside ''a plugin node runs on the host, not as a team member''
      | KPipeline \<Rightarrow> outside ''a sub-pipeline runs as its own child run, not as a team member''
      | KLlm \<Rightarrow> validate_llm_authority snapshot step)"

section \<open>What accepted executors guarantee\<close>

lemma validate_step_executor_ok:
  assumes "validate_step_executor sj step = Inr ()" "step_executor_kind step \<noteq> KAgent"
  shows "step_execution_mode step \<noteq> Some Callable \<and> step_router step = None"
  using assms by (auto simp: validate_step_executor_def Let_def split: if_splits)

text \<open>The least authority an accepted model-call step runs with.\<close>

definition least_authority :: "run_definition_snapshot \<Rightarrow> agent_profile \<Rightarrow> bool" where
  "least_authority snapshot profile \<longleftrightarrow>
     profile_permission_mode profile = ReadOnly \<and> \<not> profile_network_access profile \<and>
     (\<forall>r\<in>set (policy_rules (profile_tool_policy profile)). rule_decision r = Deny) \<and>
     (\<forall>r\<in>set (profile_resource_rules profile). \<not> resource_enabled r) \<and>
     profile_allowed_spawn_profile_ids profile = [] \<and>
     (\<forall>c\<in>set (def_profiles snapshot). profile_id profile \<notin> set (profile_allowed_spawn_profile_ids c))"

lemma rule_not_Allow: "rule_decision r \<noteq> Allow \<longleftrightarrow> rule_decision r = Deny"
  by (cases "rule_decision r") auto

lemma validate_llm_authority_ok:
  assumes "validate_llm_authority snapshot step = Inr ()"
  shows "(\<forall>e\<in>set (send_edges (def_team snapshot)) \<union> set (observe_edges (def_team snapshot)).
            from_member_id e \<noteq> step_assigned_member_id step \<and>
            to_member_id e \<noteq> step_assigned_member_id step) \<and>
         (\<exists>member profile.
            find (\<lambda>c. member_id c = step_assigned_member_id step) (team_members (def_team snapshot)) =
              Some member \<and>
            find (\<lambda>p. profile_id p = member_profile_id member) (def_profiles snapshot) = Some profile \<and>
            least_authority snapshot profile)"
  using assms
  by (auto simp: validate_llm_authority_def Let_def least_authority_def list_ex_iff
      rule_not_Allow bind_eq_Some_conv split: if_splits option.splits)

end
