(* ===== verification/Routing.thy ===== *)
theory Routing
  imports Types
begin

text \<open>
  Router decisions (\<^verbatim>\<open>flow.rs\<close>): predicates over an input document, the branches a program
  router selects, and the check of the branches an agent router answered with.
\<close>

fun evaluate_router_predicate :: "router_predicate \<Rightarrow> json \<Rightarrow> bool" where
  "evaluate_router_predicate (PEquals f v) input \<longleftrightarrow> get_field input f = Some v"
| "evaluate_router_predicate (PExists f) input \<longleftrightarrow> get_field input f \<noteq> None"
| "evaluate_router_predicate (PAll ps) input \<longleftrightarrow> list_all (\<lambda>p. evaluate_router_predicate p input) ps"
| "evaluate_router_predicate (PAny ps) input \<longleftrightarrow> list_ex (\<lambda>p. evaluate_router_predicate p input) ps"
| "evaluate_router_predicate (PNot p) input \<longleftrightarrow> \<not> evaluate_router_predicate p input"

fun select_branches :: "router_branch list \<Rightarrow> json \<Rightarrow> string list \<Rightarrow> string + string list" where
  "select_branches [] input selected = Inr selected"
| "select_branches (b # bs) input selected =
     (case branch_predicate b of
        None \<Rightarrow> Inl ''router-predicate-missing''
      | Some p \<Rightarrow>
          select_branches bs input
            (if evaluate_router_predicate p input then selected @ [branch_id b] else selected))"

definition program_router_selection :: "router_config \<Rightarrow> json \<Rightarrow> string + string list" where
  "program_router_selection config input = select_branches (router_branches config) input []"

definition selection_field_of :: "router_config \<Rightarrow> string" where
  "selection_field_of config =
     (case router_selection_field config of None \<Rightarrow> ''selectedBranchIds'' | Some f \<Rightarrow> f)"

fun check_selection :: "string list \<Rightarrow> json list \<Rightarrow> string list \<Rightarrow> string + string list" where
  "check_selection known [] selected = Inr selected"
| "check_selection known (v # vs) selected =
     (case as_str v of
        None \<Rightarrow> Inl ''router-selection-invalid''
      | Some i \<Rightarrow>
          if i \<notin> set known \<or> i \<in> set selected then Inl ''router-selection-invalid''
          else check_selection known vs (selected @ [i]))"

definition agent_router_selection :: "router_config \<Rightarrow> json \<Rightarrow> string + string list" where
  "agent_router_selection config data =
     (case Option.bind (get_field data (selection_field_of config)) as_array of
        None \<Rightarrow> Inl ''router-selection-invalid''
      | Some vs \<Rightarrow> check_selection (bs_collect (map branch_id (router_branches config))) vs [])"

definition is_program_router :: "pipeline_step \<Rightarrow> bool" where
  "is_program_router s = is_some_and (step_router s) (\<lambda>r. router_mode r = ProgramRouter)"

section \<open>What a selection is\<close>

lemma select_branches_spec:
  "select_branches bs input sel =
   (if \<exists>b\<in>set bs. branch_predicate b = None then Inl ''router-predicate-missing''
    else Inr (sel @ map branch_id
      (filter (\<lambda>b. evaluate_router_predicate (the (branch_predicate b)) input) bs)))"
  by (induction bs arbitrary: sel) (auto split: option.splits)

lemma program_router_selection_spec:
  "program_router_selection config input =
   (if \<exists>b\<in>set (router_branches config). branch_predicate b = None
    then Inl ''router-predicate-missing''
    else Inr (map branch_id (filter
      (\<lambda>b. evaluate_router_predicate (the (branch_predicate b)) input) (router_branches config))))"
  by (simp add: program_router_selection_def select_branches_spec)

lemma check_selection_ok:
  assumes "check_selection known vs sel = Inr out" "distinct sel"
  shows "distinct out \<and> vs = map JString (drop (length sel) out) \<and>
         set out \<subseteq> set sel \<union> set known \<and> take (length sel) out = sel"
  using assms
proof (induction vs arbitrary: sel)
  case (Cons v vs)
  then obtain i where v: "v = JString i"
    by (cases v) auto
  with Cons.prems have i: "i \<in> set known" "i \<notin> set sel"
    and rest: "check_selection known vs (sel @ [i]) = Inr out"
    by (auto split: if_splits)
  have IH: "distinct out \<and> vs = map JString (drop (Suc (length sel)) out) \<and>
      set out \<subseteq> set sel \<union> {i} \<union> set known \<and> take (Suc (length sel)) out = sel @ [i]"
    using Cons.IH[OF rest] Cons.prems(2) i by auto
  then have len: "length sel < length out"
    by (metis Suc_le_lessD append_eq_conv_conj length_append_singleton length_take min.absorb2
        min_def nat_le_linear not_less_eq_eq)
  with IH have "out ! length sel = i"
    by (metis lessI nth_append_length nth_take)
  with len IH v i show ?case
    by (auto simp: Cons_nth_drop_Suc[symmetric] take_Suc_conv_app_nth)
qed simp

lemma agent_router_selection_ok:
  assumes "agent_router_selection config data = Inr out"
  shows "get_field data (selection_field_of config) = Some (JArray (map JString out)) \<and>
         distinct out \<and> set out \<subseteq> branch_id ` set (router_branches config)"
proof -
  obtain vs where vs: "Option.bind (get_field data (selection_field_of config)) as_array = Some vs"
    and ok: "check_selection (bs_collect (map branch_id (router_branches config))) vs [] = Inr out"
    using assms by (auto simp: agent_router_selection_def split: option.splits)
  then obtain v where v: "get_field data (selection_field_of config) = Some v" "as_array v = Some vs"
    by (auto simp: bind_eq_Some_conv)
  then have "v = JArray vs" by (cases v) auto
  with v check_selection_ok[OF ok] show ?thesis by auto
qed

end
