(* ===== verification/Pinned.thy ===== *)
theory Pinned
  imports Executors Results Routing
begin

text \<open>
  Pinned step outputs (\<^verbatim>\<open>pinned.rs\<close>): bounds and shape of pinned data, and what a run records
  for a pinned step.
\<close>

definition MAX_PINNED_TEXT_BYTES :: nat where "MAX_PINNED_TEXT_BYTES = 256 * 1024"
definition MAX_PINNED_DATA_BYTES :: nat where "MAX_PINNED_DATA_BYTES = 256 * 1024"
definition MAX_PIPELINE_PINNED_BYTES :: nat where "MAX_PIPELINE_PINNED_BYTES = 1024 * 1024"
definition MAX_PINNED_AT_BYTES :: nat where "MAX_PINNED_AT_BYTES = 64"
definition MAX_PINNED_SOURCE_RUN_ID_BYTES :: nat where "MAX_PINNED_SOURCE_RUN_ID_BYTES = 256"

definition REVIEW_RETRY_PINNED :: string where
  "REVIEW_RETRY_PINNED = ''review-retry-pinned''"

definition json_bytes :: "serde_json \<Rightarrow> json \<Rightarrow> nat" where
  "json_bytes sj value = length (to_string sj value)"

definition size_bytes :: "serde_json \<Rightarrow> pinned_output \<Rightarrow> nat" where
  "size_bytes sj p =
     (case pinned_text p of None \<Rightarrow> 0 | Some t \<Rightarrow> length t) +
     (case pinned_data p of None \<Rightarrow> 0 | Some d \<Rightarrow> json_bytes sj d)"

definition invalid_pin :: "pipeline_step \<Rightarrow> string \<Rightarrow> definition_error" where
  "invalid_pin step reason = InvalidPinnedOutput (step_id step) reason"

definition pinning_refusal :: "pipeline_step \<Rightarrow> string option" where
  "pinning_refusal step =
     (if step_execution_mode step = Some Callable
        then Some ''a callable role runs only when an agent calls it; it cannot be pinned''
      else if is_program_router step
        then Some ''a program router is evaluated by the coordinator; it cannot be pinned''
      else if step_review step \<noteq> None
        then Some ''a reviewing step always runs: a pinned verdict would repeat the same round''
      else None)"

definition validate_pinned_output ::
  "serde_json \<Rightarrow> pipeline_step \<Rightarrow> pinned_output \<Rightarrow> definition_error + unit" where
  "validate_pinned_output sj step p =
     (let invalid = (\<lambda>reason. Inl (invalid_pin step reason)) in
      case pinning_refusal step of
        Some reason \<Rightarrow> invalid reason
      | None \<Rightarrow>
        if pinned_text p = None \<and> pinned_data p = None
          then invalid ''pinned data needs text or a result''
        else if pinned_truncated p \<and> pinned_text p = None
          then invalid ''only pinned text can be marked as cut''
        else if is_some_and (pinned_text p) (\<lambda>t. length t > MAX_PINNED_TEXT_BYTES)
          then invalid ''pinned text is larger than 256 KiB''
        else if is_some_and (pinned_data p) (\<lambda>d. \<not> is_object d)
          then invalid ''a pinned result is a JSON object''
        else if is_some_and (pinned_data p) (\<lambda>d. json_bytes sj d > MAX_PINNED_DATA_BYTES)
          then invalid ''a pinned result is larger than 256 KiB''
        else if trim (pinned_at p) = [] \<or> length (pinned_at p) > MAX_PINNED_AT_BYTES \<or>
                \<not> list_all is_ascii_graphic (pinned_at p)
          then invalid ''pinned data needs the time it was pinned''
        else if is_some_and (pinned_source_run_id p)
                  (\<lambda>i. is_blank_text i \<or> length i > MAX_PINNED_SOURCE_RUN_ID_BYTES)
          then invalid ''the source run of pinned data is invalid''
        else Inr ())"

fun validate_pins_loop ::
  "serde_json \<Rightarrow> nat \<Rightarrow> pipeline_step list \<Rightarrow> definition_error + unit" where
  "validate_pins_loop sj used [] = Inr ()"
| "validate_pins_loop sj used (step # steps) =
     (case step_pinned_output step of
        None \<Rightarrow> validate_pins_loop sj used steps
      | Some p \<Rightarrow>
          and_then (validate_pinned_output sj step p)
            (\<lambda>_. let used = saturating_add used (size_bytes sj p) in
               if used > MAX_PIPELINE_PINNED_BYTES
               then Inl (invalid_pin step ''pinned data of a pipeline is larger than 1 MiB'')
               else validate_pins_loop sj used steps))"

definition validate_pipeline_pins ::
  "serde_json \<Rightarrow> pipeline_definition \<Rightarrow> definition_error + unit" where
  "validate_pipeline_pins sj pipeline = validate_pins_loop sj 0 (pipeline_steps pipeline)"

section \<open>The recorded result\<close>

definition pinned_document :: "serde_json \<Rightarrow> pinned_output \<Rightarrow> json option" where
  "pinned_document sj p =
     (case pinned_data p of
        Some v \<Rightarrow> Some v
      | None \<Rightarrow>
          keep_if is_object
            (Option.bind (keep_if (\<lambda>_. \<not> pinned_truncated p) (pinned_text p))
               (\<lambda>t. from_str sj (trim t))))"

definition pinned_result ::
  "serde_json \<Rightarrow> pipeline_step \<Rightarrow> pinned_output \<Rightarrow>
   failure_record + json option \<times> task_output option" where
  "pinned_result sj step p =
     (let output = map_option (\<lambda>t. \<lparr>output_text = t, output_truncated = pinned_truncated p\<rparr>)
                     (pinned_text p);
          complete_text = keep_if (\<lambda>_. \<not> pinned_truncated p) (pinned_text p);
          data = pinned_document sj p
      in and_then
           (case data of
              Some v \<Rightarrow> map_err failure_new (validate_result_value (step_result_fields step) v)
            | None \<Rightarrow>
                if step_result_fields step \<noteq> [] then
                  Inl (failure_new
                    (case complete_text of
                       Some t \<Rightarrow>
                         (case validate_result sj (step_result_fields step) t of
                            Inl code \<Rightarrow> code
                          | Inr _ \<Rightarrow> ''result-not-object'')
                     | None \<Rightarrow> ''result-invalid-json''))
                else Inr ())
           (\<lambda>_. case keep_if (\<lambda>r. router_mode r = AgentRouter) (step_router step) of
              None \<Rightarrow> Inr (data, output)
            | Some router \<Rightarrow>
                (case Option.bind data as_object of
                   None \<Rightarrow> Inl (failure_new ''router-selection-invalid'')
                 | Some object \<Rightarrow>
                     and_then (map_err failure_new (agent_router_selection router (JObject object)))
                       (\<lambda>selected. Inr (Some (JObject (bm_insert (selection_field_of router)
                                          (JArray (map JString selected)) object)), output)))))"

definition retries_pinned_step :: "run \<Rightarrow> string \<Rightarrow> bool" where
  "retries_pinned_step r retry_from \<longleftrightarrow>
     run_use_pinned_data r \<and>
     list_ex (\<lambda>s. step_id s = retry_from \<and> step_pinned_output s \<noteq> None) (run_steps r)"

definition admitted_from_pin :: "run \<Rightarrow> pipeline_step \<Rightarrow> bool" where
  "admitted_from_pin r step \<longleftrightarrow> run_use_pinned_data r \<and> step_pinned_output step \<noteq> None"

section \<open>What accepted pins guarantee\<close>

lemma validate_pinned_output_ok:
  assumes "validate_pinned_output sj step p = Inr ()"
  shows "step_execution_mode step \<noteq> Some Callable \<and> \<not> is_program_router step \<and>
         step_review step = None \<and> size_bytes sj p \<le> MAX_PINNED_TEXT_BYTES + MAX_PINNED_DATA_BYTES \<and>
         (pinned_text p \<noteq> None \<or> pinned_data p \<noteq> None)"
  using assms
  by (cases "pinned_text p"; cases "pinned_data p")
     (auto simp: validate_pinned_output_def pinning_refusal_def Let_def size_bytes_def
      is_some_and_def split: if_splits option.splits)

definition pinned_bytes :: "serde_json \<Rightarrow> pipeline_step list \<Rightarrow> nat" where
  "pinned_bytes sj steps =
     sum_list (map (\<lambda>s. case step_pinned_output s of None \<Rightarrow> 0 | Some p \<Rightarrow> size_bytes sj p) steps)"

lemma validate_pins_loop_ok:
  assumes "validate_pins_loop sj used steps = Inr ()" "used \<le> MAX_PIPELINE_PINNED_BYTES"
  shows "used + pinned_bytes sj steps \<le> MAX_PIPELINE_PINNED_BYTES \<and>
         (\<forall>s\<in>set steps. \<forall>p. step_pinned_output s = Some p \<longrightarrow> validate_pinned_output sj s p = Inr ())"
  using assms
proof (induction steps arbitrary: used)
  case (Cons s steps)
  show ?case
  proof (cases "step_pinned_output s")
    case None
    with Cons show ?thesis by (auto simp: pinned_bytes_def)
  next
    case (Some p)
    let ?t = "saturating_add used (size_bytes sj p)"
    from Cons.prems Some have v: "validate_pinned_output sj s p = Inr ()"
      and t: "?t \<le> MAX_PIPELINE_PINNED_BYTES" "validate_pins_loop sj ?t steps = Inr ()"
      by (auto simp: Let_def split: if_splits)
    have "?t = used + size_bytes sj p"
      using t(1) by (auto simp: saturating_add_def usize_max_def MAX_PIPELINE_PINNED_BYTES_def min_def
          split: if_splits)
    with Cons.IH[OF t(2,1)] v Some show ?thesis
      by (auto simp: pinned_bytes_def)
  qed
qed (simp add: pinned_bytes_def)

text \<open>A recorded pinned result satisfies the fields the step declares.\<close>

lemma pinned_result_fields:
  assumes "pinned_result sj step p = Inr (data, output)" "step_router step = None"
  shows "step_result_fields step = [] \<or>
         (\<exists>v. data = Some v \<and> satisfies_fields (step_result_fields step) v)"
  using assms
  by (auto simp: pinned_result_def Let_def keep_if_def validate_result_value_ok
      split: option.splits if_splits)

end
