(* ===== verification/Validation.thy ===== *)
theory Validation
  imports Pinned
begin

text \<open>
  Structural validation of a definition snapshot (\<^verbatim>\<open>validation.rs\<close>, and
  \<^verbatim>\<open>validate_pipeline_declarations\<close> of \<^verbatim>\<open>inputs.rs\<close>). The long \<^verbatim>\<open>validate_pipeline\<close> is cut at its own
  section boundaries: one definition for the bindings, condition, review, router, gates and
  fields of a step, one for its dependency edges, one for Kahn's loop.
\<close>

section \<open>Identifiers\<close>

definition require_nonempty :: "string \<Rightarrow> string \<Rightarrow> definition_error + unit" where
  "require_nonempty kind value = (if is_blank_text value then Inl (EmptyId kind) else Inr ())"

fun unique_ids_loop :: "string \<Rightarrow> string list \<Rightarrow> string list \<Rightarrow> definition_error + string list" where
  "unique_ids_loop kind result [] = Inr result"
| "unique_ids_loop kind result (i # ids) =
     and_then (require_nonempty kind i)
       (\<lambda>_. if i \<in> set result then Inl (DuplicateId kind i)
            else unique_ids_loop kind (bs_insert i result) ids)"

definition unique_ids :: "string \<Rightarrow> string list \<Rightarrow> definition_error + string list" where
  "unique_ids kind ids = unique_ids_loop kind [] ids"

definition validate_history_reference :: "native_history_reference \<Rightarrow> definition_error + unit" where
  "validate_history_reference reference =
     (if is_blank_text (ref_session_id reference) \<or>
         is_some_and (ref_block_id reference) is_blank_text \<or>
         is_some_and (ref_content_hash reference)
           (\<lambda>h. length h \<noteq> 64 \<or> \<not> list_all is_ascii_hexdigit h)
      then Inl InvalidHistoryReference else Inr ())"

section \<open>Profiles and the team\<close>

fun validate_tool_rules :: "string list \<Rightarrow> tool_rule list \<Rightarrow> definition_error + unit" where
  "validate_tool_rules tools [] = Inr ()"
| "validate_tool_rules tools (rule # rules) =
     and_then (require_nonempty ''tool'' (rule_tool rule))
       (\<lambda>_. if rule_tool rule \<in> set tools then Inl (DuplicateId ''tool rule'' (rule_tool rule))
            else if rule_mandatory rule \<and> rule_enforcement rule \<in> {Advisory, Unsupported}
              then Inl (MandatoryPolicyNotEnforced (rule_tool rule) (rule_enforcement rule))
            else validate_tool_rules (bs_insert (rule_tool rule) tools) rules)"

fun validate_spawn_ids ::
  "string list \<Rightarrow> string list \<Rightarrow> string list \<Rightarrow> definition_error + unit" where
  "validate_spawn_ids profiles spawn_ids [] = Inr ()"
| "validate_spawn_ids profiles spawn_ids (child # children) =
     (if child \<notin> set profiles then Inl (MissingId ''spawn profile'' child)
      else if child \<in> set spawn_ids then Inl (DuplicateId ''spawn profile'' child)
      else validate_spawn_ids profiles (bs_insert child spawn_ids) children)"

definition validate_profile :: "string list \<Rightarrow> agent_profile \<Rightarrow> definition_error + unit" where
  "validate_profile profiles profile =
     and_then (require_nonempty ''profile name'' (profile_name profile)) (\<lambda>_.
     and_then (require_nonempty ''model'' (profile_model profile)) (\<lambda>_.
     and_then (validate_tool_rules [] (policy_rules (profile_tool_policy profile))) (\<lambda>_.
     validate_spawn_ids profiles [] (profile_allowed_spawn_profile_ids profile))))"

fun validate_edges_loop ::
  "string \<Rightarrow> string list \<Rightarrow> (string \<times> string) list \<Rightarrow> directed_edge list \<Rightarrow> definition_error + unit" where
  "validate_edges_loop kind members seen [] = Inr ()"
| "validate_edges_loop kind members seen (edge # edges) =
     (if from_member_id edge \<notin> set members
        then Inl (MissingId ''edge member'' (from_member_id edge))
      else if to_member_id edge \<notin> set members
        then Inl (MissingId ''edge member'' (to_member_id edge))
      else if (from_member_id edge, to_member_id edge) \<in> set seen
        then Inl (DuplicateId kind (from_member_id edge @ ''->'' @ to_member_id edge))
      else validate_edges_loop kind members ((from_member_id edge, to_member_id edge) # seen) edges)"

definition validate_edges ::
  "string \<Rightarrow> directed_edge list \<Rightarrow> string list \<Rightarrow> definition_error + unit" where
  "validate_edges kind edges members = validate_edges_loop kind members [] edges"

definition validate_team :: "team_definition \<Rightarrow> string list \<Rightarrow> definition_error + unit" where
  "validate_team team profiles =
     and_then (require_nonempty ''team'' (team_id team)) (\<lambda>_.
     and_then (require_nonempty ''team name'' (team_name team)) (\<lambda>_.
     and_then (unique_ids ''member'' (map member_id (team_members team))) (\<lambda>members.
     and_then (try_each (\<lambda>m. if member_profile_id m \<notin> set profiles
                             then Inl (MissingId ''member profile'' (member_profile_id m))
                             else Inr ()) (team_members team)) (\<lambda>_.
     if orchestrator_member_id team \<notin> set members
     then Inl (MissingId ''orchestrator member'' (orchestrator_member_id team))
     else
     and_then (validate_edges ''send edge'' (send_edges team) members) (\<lambda>_.
     validate_edges ''observe edge'' (observe_edges team) members)))))"

section \<open>The checks of one step\<close>

fun validate_bindings ::
  "pipeline_definition \<Rightarrow> pipeline_step \<Rightarrow> string list \<Rightarrow> input_binding list \<Rightarrow>
   definition_error + unit" where
  "validate_bindings pipeline step names [] = Inr ()"
| "validate_bindings pipeline step names (b # bs) =
     and_then (require_nonempty ''input name'' (binding_name b)) (\<lambda>_.
       if binding_name b \<in> set names \<or>
          binding_source_step_id b \<notin> set (step_dependency_step_ids step) \<or>
          \<not> list_ex (\<lambda>src. step_id src = binding_source_step_id b \<and>
                list_ex (\<lambda>f. field_name f = binding_field b) (step_result_fields src))
              (pipeline_steps pipeline)
       then Inl (InvalidFlow ''input binding must select a declared dependency field with a unique input name'')
       else validate_bindings pipeline step (bs_insert (binding_name b) names) bs)"

definition validate_condition ::
  "pipeline_definition \<Rightarrow> pipeline_step \<Rightarrow> definition_error + unit" where
  "validate_condition pipeline step =
     (case step_condition step of
        None \<Rightarrow> Inr ()
      | Some c \<Rightarrow>
          if cond_source_step_id c \<notin> set (step_dependency_step_ids step) \<or>
             \<not> is_some_and (find (\<lambda>src. step_id src = cond_source_step_id c) (pipeline_steps pipeline))
                 (\<lambda>src. list_ex (\<lambda>f. field_name f = cond_field c) (step_result_fields src)) \<or>
             \<not> (is_string (cond_equals c) \<or> is_number (cond_equals c) \<or> is_boolean (cond_equals c))
          then Inl (InvalidFlow ''condition must reference a declared field on a direct dependency'')
          else Inr ())"

text \<open>The \<^verbatim>\<open>while let Some(id) = pending.pop()\<close> loop that collects a step's ancestors.\<close>

function ancestor_loop ::
  "pipeline_step list \<Rightarrow> string list \<Rightarrow> string list \<Rightarrow> string list" where
  "ancestor_loop steps ancestors pending =
     (if pending = [] then ancestors
      else let i = last pending; rest = butlast pending in
        if i \<in> set ancestors then ancestor_loop steps ancestors rest
        else case find (\<lambda>p. step_id p = i) steps of
               None \<Rightarrow> ancestor_loop steps (bs_insert i ancestors) rest
             | Some parent \<Rightarrow>
                 ancestor_loop steps (bs_insert i ancestors) (rest @ step_dependency_step_ids parent))"
  by pat_completeness auto

termination
proof (relation "measures [\<lambda>(steps, ancestors, pending). card (set (map step_id steps) - set ancestors),
                           \<lambda>(steps, ancestors, pending). length pending]", goal_cases)
  case (3 steps ancestors pending i rest)
  have "card (set (map step_id steps) - set (bs_insert i ancestors))
        \<le> card (set (map step_id steps) - set ancestors)"
    by (intro card_mono) auto
  with 3 show ?case by (auto simp: le_less)
next
  case (4 steps ancestors pending i rest parent)
  then have "parent \<in> set steps" "step_id parent = i" "i \<notin> set ancestors"
    by (auto dest: find_Some_set)
  then have "i \<in> set (map step_id steps) - set ancestors"
    by force
  then have "card (set (map step_id steps) - set (bs_insert i ancestors))
        < card (set (map step_id steps) - set ancestors)"
    by (intro psubset_card_mono) auto
  with 4 show ?case by simp
qed auto

declare ancestor_loop.simps [simp del]

definition validate_review :: "pipeline_definition \<Rightarrow> pipeline_step \<Rightarrow> definition_error + unit" where
  "validate_review pipeline step =
     (case step_review step of
        None \<Rightarrow> Inr ()
      | Some review \<Rightarrow>
          if review_retry_from_step_id review \<notin>
               set (ancestor_loop (pipeline_steps pipeline) [] (step_dependency_step_ids step)) \<or>
             \<not> list_ex (\<lambda>f. field_name f = review_field review \<and> field_kind f = BooleanField)
                 (step_result_fields step)
          then Inl (InvalidFlow ''review requires a boolean result field and an upstream correction step'')
          else Inr ())"

fun valid_router_predicate :: "router_predicate \<Rightarrow> result_field list \<Rightarrow> bool" where
  "valid_router_predicate (PEquals f v) flds =
     (case find (\<lambda>c. field_name c = f) flds of
        None \<Rightarrow> False
      | Some declared \<Rightarrow>
          is_null v \<or> (field_kind declared = TextField \<and> is_string v) \<or>
          (field_kind declared = NumberField \<and> is_number v) \<or>
          (field_kind declared = BooleanField \<and> is_boolean v))"
| "valid_router_predicate (PExists f) flds = list_ex (\<lambda>c. field_name c = f) flds"
| "valid_router_predicate (PAll ps) flds =
     (ps \<noteq> [] \<and> list_all (\<lambda>p. valid_router_predicate p flds) ps)"
| "valid_router_predicate (PAny ps) flds =
     (ps \<noteq> [] \<and> list_all (\<lambda>p. valid_router_predicate p flds) ps)"
| "valid_router_predicate (PNot p) flds = valid_router_predicate p flds"

fun validate_branches ::
  "router_mode \<Rightarrow> result_field list \<Rightarrow> string list \<Rightarrow> router_branch list \<Rightarrow>
   definition_error + unit" where
  "validate_branches mode flds ids [] = Inr ()"
| "validate_branches mode flds ids (b # bs) =
     and_then (require_nonempty ''router branch'' (branch_id b)) (\<lambda>_.
     and_then (require_nonempty ''router branch label'' (branch_label b)) (\<lambda>_.
     if branch_id b \<in> set ids then Inl (DuplicateId ''router branch'' (branch_id b))
     else
     and_then
       (case mode of
          ProgramRouter \<Rightarrow>
            (case branch_predicate b of
               None \<Rightarrow> Inl (InvalidFlow ''program router branches need predicates'')
             | Some p \<Rightarrow>
                 if \<not> valid_router_predicate p flds
                 then Inl (InvalidFlow ''router predicate must use declared input fields'')
                 else Inr ())
        | AgentRouter \<Rightarrow>
            if branch_predicate b \<noteq> None \<or> is_none_or (branch_description b) is_blank_text
            then Inl (InvalidFlow ''agent router branches need descriptions and cannot contain program predicates'')
            else Inr ())
       (\<lambda>_. validate_branches mode flds (bs_insert (branch_id b) ids) bs)))"

definition validate_router :: "pipeline_definition \<Rightarrow> pipeline_step \<Rightarrow> definition_error + unit" where
  "validate_router pipeline step =
     (case step_router step of
        None \<Rightarrow> Inr ()
      | Some router \<Rightarrow>
          and_then (require_nonempty ''router input step'' (router_input_step_id router)) (\<lambda>_.
          if length (step_dependency_step_ids step) \<noteq> 1 \<or>
             router_input_step_id router \<notin> set (step_dependency_step_ids step)
          then Inl (InvalidFlow ''router must have exactly one direct input dependency'')
          else case find (\<lambda>c. step_id c = router_input_step_id router) (pipeline_steps pipeline) of
            None \<Rightarrow> Inl (MissingId ''router input step'' (router_input_step_id router))
          | Some src \<Rightarrow>
              and_then (validate_branches (router_mode router) (step_result_fields src) []
                          (router_branches router)) (\<lambda>_.
              and_then
                (if router_mode router = AgentRouter then
                   (case keep_if (\<lambda>f. \<not> is_blank_text f) (router_selection_field router) of
                      None \<Rightarrow> Inl (InvalidFlow ''agent router needs a selection field'')
                    | Some f \<Rightarrow>
                        if \<not> list_ex (\<lambda>c. field_name c = f \<and> field_kind c = TextListField)
                              (step_result_fields step)
                        then Inl (InvalidFlow ''agent router selection field must be a text-list result field'')
                        else Inr ())
                 else Inr ()) (\<lambda>_.
              if step_route_gates step \<noteq> []
              then Inl (InvalidFlow ''router steps cannot be gated by another router'')
              else Inr ()))))"

definition validate_route_gate ::
  "pipeline_definition \<Rightarrow> pipeline_step \<Rightarrow> route_gate \<Rightarrow> definition_error + unit" where
  "validate_route_gate pipeline step gate =
     (case find (\<lambda>c. step_id c = gate_router_step_id gate) (pipeline_steps pipeline) of
        None \<Rightarrow> Inl (MissingId ''route router step'' (gate_router_step_id gate))
      | Some router_step \<Rightarrow>
          (case step_router router_step of
             None \<Rightarrow> Inl (InvalidFlow ''route gate must reference a router step'')
           | Some router \<Rightarrow>
               if gate_router_step_id gate \<notin> set (step_dependency_step_ids step)
                 then Inl (InvalidFlow ''route gate must also be a step dependency'')
               else if \<not> list_ex (\<lambda>b. branch_id b = gate_branch_id gate) (router_branches router)
                 then Inl (MissingId ''route branch'' (gate_branch_id gate))
               else Inr ()))"

fun validate_result_fields :: "string list \<Rightarrow> result_field list \<Rightarrow> definition_error + unit" where
  "validate_result_fields names [] = Inr ()"
| "validate_result_fields names (f # fs) =
     and_then (require_nonempty ''result field'' (field_name f)) (\<lambda>_.
       if field_name f \<in> set names then Inl (DuplicateId ''result field'' (field_name f))
       else validate_result_fields (bs_insert (field_name f) names) fs)"

definition validate_step ::
  "run_definition_snapshot \<Rightarrow> string list \<Rightarrow> pipeline_step \<Rightarrow> definition_error + unit" where
  "validate_step snapshot members step =
     (let pipeline = def_pipeline snapshot in
      and_then (validate_bindings pipeline step [] (step_input_bindings step)) (\<lambda>_.
      and_then (validate_condition pipeline step) (\<lambda>_.
      and_then (validate_review pipeline step) (\<lambda>_.
      and_then (validate_router pipeline step) (\<lambda>_.
      and_then (try_each (validate_route_gate pipeline step) (step_route_gates step)) (\<lambda>_.
      and_then (validate_result_fields [] (step_result_fields step)) (\<lambda>_.
      and_then (require_nonempty ''step name'' (step_name step)) (\<lambda>_.
      if is_none_or (step_router step) (\<lambda>r. router_mode r = AgentRouter) \<and>
         \<not> is_host_executed step \<and> step_assigned_member_id step \<notin> set members
      then Inl (MissingId ''assigned member'' (step_assigned_member_id step))
      else validate_executor_authority snapshot step members))))))))"

section \<open>Dependency edges and Kahn's loop\<close>

type_synonym degrees = "(string, nat) btree_map"
type_synonym edges = "(string, string list) btree_map"

definition degree_of :: "degrees \<Rightarrow> string \<Rightarrow> nat" where
  "degree_of indegree i = (case bm_get indegree i of None \<Rightarrow> 0 | Some d \<Rightarrow> d)"

definition children_of :: "edges \<Rightarrow> string \<Rightarrow> string list" where
  "children_of outgoing i = (case bm_get outgoing i of None \<Rightarrow> [] | Some cs \<Rightarrow> cs)"

fun add_dependencies ::
  "string list \<Rightarrow> string \<Rightarrow> string list \<Rightarrow> string list \<Rightarrow> degrees \<Rightarrow> edges \<Rightarrow>
   definition_error + degrees \<times> edges" where
  "add_dependencies steps sid seen [] indegree outgoing = Inr (indegree, outgoing)"
| "add_dependencies steps sid seen (d # ds) indegree outgoing =
     (if d \<notin> set steps then Inl (MissingId ''dependency step'' d)
      else if d \<in> set seen then Inl (DuplicateId ''dependency step'' d)
      else add_dependencies steps sid (bs_insert d seen) ds
             (bm_insert sid (degree_of indegree sid + 1) indegree)
             (bm_insert d (children_of outgoing d @ [sid]) outgoing))"

fun validate_steps_loop ::
  "run_definition_snapshot \<Rightarrow> string list \<Rightarrow> string list \<Rightarrow> pipeline_step list \<Rightarrow> degrees \<Rightarrow> edges \<Rightarrow>
   definition_error + degrees \<times> edges" where
  "validate_steps_loop snapshot steps members [] indegree outgoing = Inr (indegree, outgoing)"
| "validate_steps_loop snapshot steps members (step # rest) indegree outgoing =
     and_then (validate_step snapshot members step) (\<lambda>_.
     and_then (add_dependencies steps (step_id step) [] (step_dependency_step_ids step) indegree outgoing)
       (\<lambda>(indegree, outgoing). validate_steps_loop snapshot steps members rest indegree outgoing))"

text \<open>\<^verbatim>\<open>*degree -= 1\<close> on a \<^verbatim>\<open>usize\<close>, wrapping as a release build does.\<close>

definition usize_pred :: "nat \<Rightarrow> nat" where
  "usize_pred d = (if d = 0 then usize_max else d - 1)"

fun visit_children ::
  "string list \<Rightarrow> degrees \<Rightarrow> string list \<Rightarrow> definition_error + degrees \<times> string list" where
  "visit_children [] indegree ready = Inr (indegree, ready)"
| "visit_children (c # cs) indegree ready =
     (case bm_get indegree c of
        None \<Rightarrow> Inl (MissingId ''dependency step'' c)
      | Some d \<Rightarrow>
          visit_children cs (bm_insert c (usize_pred d) indegree)
            (if usize_pred d = 0 then bs_insert c ready else ready))"

text \<open>The loop over the ready set. The fuel bounds the number of passes; the ready set is part
  of the result, so that an empty one shows that the loop ended by itself.\<close>

fun kahn ::
  "nat \<Rightarrow> edges \<Rightarrow> nat \<Rightarrow> degrees \<Rightarrow> string list \<Rightarrow>
   definition_error + nat \<times> degrees \<times> string list" where
  "kahn 0 outgoing visited indegree ready = Inr (visited, indegree, ready)"
| "kahn (Suc fuel) outgoing visited indegree [] = Inr (visited, indegree, [])"
| "kahn (Suc fuel) outgoing visited indegree (i # ready) =
     and_then (visit_children (children_of outgoing i) indegree ready)
       (\<lambda>(indegree, ready). kahn fuel outgoing (visited + 1) indegree ready)"

definition validate_pipeline_declarations ::
  "serde_json \<Rightarrow> pipeline_definition \<Rightarrow> definition_error + unit" where
  "validate_pipeline_declarations sj pipeline =
     and_then (validate_pipeline_inputs (pipeline_inputs pipeline)) (\<lambda>_.
     and_then (try_each (\<lambda>step.
         and_then (case step_review step of None \<Rightarrow> Inr () | Some rv \<Rightarrow> validate_review_limit step rv)
           (\<lambda>_. validate_step_executor sj step)) (pipeline_steps pipeline)) (\<lambda>_.
     and_then (validate_pipeline_subpipelines pipeline) (\<lambda>_.
     validate_pipeline_pins sj pipeline)))"

definition check_cycles :: "string list \<Rightarrow> degrees \<Rightarrow> edges \<Rightarrow> definition_error + unit" where
  "check_cycles steps indegree outgoing =
     and_then (kahn (Suc (length steps)) outgoing 0 indegree
                 (bs_collect (map fst (filter (\<lambda>(i, d). d = 0) indegree))))
       (\<lambda>(visited, indegree, _).
          if visited \<noteq> length steps
          then Inl (DependencyCycle
                 (case find_map (\<lambda>(i, d). if d > 0 then Some i else None) indegree of
                    None \<Rightarrow> [] | Some i \<Rightarrow> i))
          else Inr ())"

definition validate_pipeline ::
  "serde_json \<Rightarrow> run_definition_snapshot \<Rightarrow> definition_error + unit" where
  "validate_pipeline sj snapshot =
     (let pipeline = def_pipeline snapshot;
          callable = bs_collect (map step_id
            (filter (\<lambda>s. step_execution_mode s = Some Callable) (pipeline_steps pipeline)))
      in if \<not> list_ex (\<lambda>s. step_execution_mode s \<noteq> Some Callable) (pipeline_steps pipeline)
           then Inl NoScheduledStep
         else if list_ex (\<lambda>s. (step_dependency_step_ids s \<noteq> [] \<and> step_id s \<in> set callable) \<or>
                              list_ex (\<lambda>i. i \<in> set callable) (step_dependency_step_ids s))
                   (pipeline_steps pipeline)
           then Inl CallableDependency
         else
           and_then (require_nonempty ''pipeline'' (pipeline_id pipeline)) (\<lambda>_.
           and_then (require_nonempty ''pipeline name'' (pipeline_name pipeline)) (\<lambda>_.
           and_then (validate_pipeline_declarations sj pipeline) (\<lambda>_.
           and_then (unique_ids ''step'' (map step_id (pipeline_steps pipeline))) (\<lambda>steps.
           and_then (validate_steps_loop snapshot steps
                       (bs_collect (map member_id (team_members (def_team snapshot))))
                       (pipeline_steps pipeline) (map (\<lambda>i. (i, 0)) steps) [])
             (\<lambda>(indegree, outgoing). check_cycles steps indegree outgoing))))))"

definition validate_definition ::
  "serde_json \<Rightarrow> run_definition_snapshot \<Rightarrow> definition_error + unit" where
  "validate_definition sj snapshot =
     and_then (unique_ids ''profile'' (map profile_id (def_profiles snapshot))) (\<lambda>profiles.
     and_then (try_each (validate_profile profiles) (def_profiles snapshot)) (\<lambda>_.
     and_then (validate_team (def_team snapshot) profiles) (\<lambda>_.
     and_then (validate_pipeline sj snapshot) (\<lambda>_.
     case def_launch_command snapshot of
       None \<Rightarrow> Inr ()
     | Some command \<Rightarrow>
         and_then (require_nonempty ''launch command'' (command_id command)) (\<lambda>_.
         and_then (require_nonempty ''launch command name'' (command_name command)) (\<lambda>_.
         if command_team_id command \<noteq> team_id (def_team snapshot)
           then Inl (LaunchReferenceMismatch ''teamId'')
         else if command_pipeline_id command \<noteq> pipeline_id (def_pipeline snapshot)
           then Inl (LaunchReferenceMismatch ''pipelineId'')
         else Inr ()))))))"

end
