(* ===== verification/Dependency_Graph.thy ===== *)
theory Dependency_Graph
  imports Validation
begin

text \<open>
  What \<^verbatim>\<open>validate_pipeline\<close> establishes about the dependency graph: step identifiers are unique,
  dependencies exist, Kahn's loop ends with an empty ready set within its fuel, and it visits
  every step exactly when the graph has no cycle.
\<close>

section \<open>The graph of a pipeline\<close>

definition dep_rel :: "pipeline_step list \<Rightarrow> (string \<times> string) set" where
  "dep_rel steps = {(d, s). \<exists>st\<in>set steps. step_id st = s \<and> d \<in> set (step_dependency_step_ids st)}"

definition deps_of :: "pipeline_step list \<Rightarrow> string \<Rightarrow> string set" where
  "deps_of steps s = {d. (d, s) \<in> dep_rel steps}"

lemma finite_dep_rel: "finite (dep_rel steps)"
proof -
  have "dep_rel steps =
      (\<Union>st\<in>set steps. (\<lambda>d. (d, step_id st)) ` set (step_dependency_step_ids st))"
    by (auto simp: dep_rel_def)
  then show ?thesis by simp
qed

lemma finite_deps_of: "finite (deps_of steps s)"
proof -
  have "deps_of steps s \<subseteq> fst ` dep_rel steps" by (force simp: deps_of_def)
  then show ?thesis using finite_dep_rel finite_subset by blast
qed

lemma deps_of_unique:
  assumes "distinct (map step_id steps)" "st \<in> set steps"
  shows "deps_of steps (step_id st) = set (step_dependency_step_ids st)"
proof -
  have "st' = st" if "st' \<in> set steps" "step_id st' = step_id st" for st'
    using assms that by (auto simp: distinct_map dest: inj_onD)
  with assms(2) show ?thesis by (auto simp: deps_of_def dep_rel_def)
qed

section \<open>Identifier and edge accumulation\<close>

lemma unique_ids_loop_ok:
  assumes "unique_ids_loop kind result ids = Inr out" "bs_wf result"
  shows "set out = set result \<union> set ids \<and> distinct ids \<and> set ids \<inter> set result = {} \<and> bs_wf out \<and>
         (\<forall>i\<in>set ids. \<not> is_blank_text i)"
  using assms
proof (induction ids arbitrary: result)
  case (Cons i ids)
  then have "unique_ids_loop kind (bs_insert i result) ids = Inr out" "i \<notin> set result"
    "\<not> is_blank_text i"
    by (auto simp: require_nonempty_def split: if_splits)
  with Cons.IH[OF this(1)] Cons.prems(2) show ?case
    by (auto simp: bs_insert_wf)
qed simp

lemma unique_ids_ok:
  assumes "unique_ids kind ids = Inr out"
  shows "set out = set ids \<and> distinct ids \<and> bs_wf out \<and> length out = length ids \<and>
         (\<forall>i\<in>set ids. \<not> is_blank_text i)"
proof -
  have *: "set out = set ids \<and> distinct ids \<and> bs_wf out \<and> (\<forall>i\<in>set ids. \<not> is_blank_text i)"
    using unique_ids_loop_ok[OF assms[unfolded unique_ids_def]] by (simp add: bs_wf_def)
  then have "length out = length ids" by (metis bs_wf_def distinct_card)
  with * show ?thesis by simp
qed

lemma degree_of_insert [simp]:
  "degree_of (bm_insert k v m) i = (if i = k then v else degree_of m i)"
  by (simp add: degree_of_def bm_get_insert)

lemma children_of_insert [simp]:
  "children_of (bm_insert k v m) i = (if i = k then v else children_of m i)"
  by (simp add: children_of_def bm_get_insert)

lemma add_dependencies_ok:
  assumes "add_dependencies steps sid seen ds ind out = Inr (ind', out')"
  shows "(\<forall>s. degree_of ind' s = degree_of ind s + (if s = sid then length ds else 0)) \<and>
         (\<forall>d. children_of out' d = children_of out d @ (if d \<in> set ds then [sid] else [])) \<and>
         distinct ds \<and> set ds \<subseteq> set steps \<and> set ds \<inter> set seen = {} \<and>
         (sid \<in> dom (bm_get ind) \<longrightarrow> dom (bm_get ind') = dom (bm_get ind)) \<and>
         (bm_wf ind \<longrightarrow> bm_wf ind')"
  using assms
proof (induction ds arbitrary: seen ind out)
  case (Cons d ds)
  let ?ind = "bm_insert sid (degree_of ind sid + 1) ind"
  let ?out = "bm_insert d (children_of out d @ [sid]) out"
  from Cons.prems have d: "d \<in> set steps" "d \<notin> set seen"
    and rest: "add_dependencies steps sid (bs_insert d seen) ds ?ind ?out = Inr (ind', out')"
    by (auto split: if_splits)
  have dom: "dom (bm_get ?ind) = insert sid (dom (bm_get ind))"
    by (auto simp: bm_get_insert)
  from Cons.IH[OF rest] have IH:
    "\<forall>s. degree_of ind' s = degree_of ?ind s + (if s = sid then length ds else 0)"
    "\<forall>e. children_of out' e = children_of ?out e @ (if e \<in> set ds then [sid] else [])"
    "distinct ds" "set ds \<subseteq> set steps" "set ds \<inter> set (bs_insert d seen) = {}"
    "sid \<in> dom (bm_get ?ind) \<longrightarrow> dom (bm_get ind') = dom (bm_get ?ind)"
    "bm_wf ?ind \<longrightarrow> bm_wf ind'"
    by simp_all
  have nd: "d \<notin> set ds" using IH(5) by auto
  have "\<forall>e. children_of out' e = children_of out e @ (if e \<in> set (d # ds) then [sid] else [])"
    using IH(2) nd by auto
  moreover have "sid \<in> dom (bm_get ind) \<longrightarrow> dom (bm_get ind') = dom (bm_get ind)"
    using IH(6) dom by (simp add: insert_absorb)
  moreover have "bm_wf ind \<longrightarrow> bm_wf ind'" using IH(7) by (simp add: bm_wf_insert)
  moreover have "\<forall>s. degree_of ind' s = degree_of ind s + (if s = sid then length (d # ds) else 0)"
    using IH(1) by simp
  moreover have "distinct (d # ds)" "set (d # ds) \<subseteq> set steps" "set (d # ds) \<inter> set seen = {}"
    using IH(3-5) d nd by auto
  ultimately show ?case by blast
qed simp

lemma validate_steps_loop_ok:
  assumes "validate_steps_loop snapshot steps members rest ind out = Inr (ind', out')"
    "step_id ` set rest \<subseteq> dom (bm_get ind)" "distinct (map step_id rest)"
  shows "(\<forall>s. s \<notin> step_id ` set rest \<longrightarrow> degree_of ind' s = degree_of ind s) \<and>
         (\<forall>st\<in>set rest. degree_of ind' (step_id st) =
            degree_of ind (step_id st) + length (step_dependency_step_ids st)) \<and>
         (\<forall>d. children_of out' d = children_of out d @
            map step_id (filter (\<lambda>st. d \<in> set (step_dependency_step_ids st)) rest)) \<and>
         (\<forall>st\<in>set rest. distinct (step_dependency_step_ids st) \<and>
            set (step_dependency_step_ids st) \<subseteq> set steps \<and>
            validate_step snapshot members st = Inr ()) \<and>
         dom (bm_get ind') = dom (bm_get ind) \<and> (bm_wf ind \<longrightarrow> bm_wf ind')"
  using assms
proof (induction rest arbitrary: ind out)
  case (Cons st rest)
  then obtain ind1 out1 where v: "validate_step snapshot members st = Inr ()"
    and add: "add_dependencies steps (step_id st) [] (step_dependency_step_ids st) ind out =
      Inr (ind1, out1)"
    and more: "validate_steps_loop snapshot steps members rest ind1 out1 = Inr (ind', out')"
    by auto
  note A = add_dependencies_ok[OF add]
  have dom1: "dom (bm_get ind1) = dom (bm_get ind)" using A Cons.prems(2) by simp
  have "step_id ` set rest \<subseteq> dom (bm_get ind1)" "distinct (map step_id rest)"
    using Cons.prems dom1 by auto
  note IH = Cons.IH[OF more this]
  have notin: "step_id st \<notin> step_id ` set rest" using Cons.prems(3) by auto
  show ?case
  proof (intro conjI)
    show "\<forall>s. s \<notin> step_id ` set (st # rest) \<longrightarrow> degree_of ind' s = degree_of ind s"
      using IH A by simp
    show "\<forall>x\<in>set (st # rest). degree_of ind' (step_id x) =
            degree_of ind (step_id x) + length (step_dependency_step_ids x)"
      using IH A notin by (auto simp: image_iff)
    show "\<forall>d. children_of out' d = children_of out d @
            map step_id (filter (\<lambda>st. d \<in> set (step_dependency_step_ids st)) (st # rest))"
      using IH A by simp
    show "\<forall>x\<in>set (st # rest). distinct (step_dependency_step_ids x) \<and>
            set (step_dependency_step_ids x) \<subseteq> set steps \<and>
            validate_step snapshot members x = Inr ()"
      using IH A v by auto
    show "dom (bm_get ind') = dom (bm_get ind)" using IH dom1 by simp
    show "bm_wf ind \<longrightarrow> bm_wf ind'" using IH A by blast
  qed
qed simp

section \<open>One pass of the loop\<close>

lemma visit_children_ok:
  assumes "distinct cs" "\<forall>c\<in>set cs. \<exists>d. bm_get ind c = Some (Suc d)" "bs_wf ready"
  shows "\<exists>ind' ready'. visit_children cs ind ready = Inr (ind', ready') \<and> bs_wf ready' \<and>
           (\<forall>s. bm_get ind' s = (if s \<in> set cs then map_option (\<lambda>d. d - 1) (bm_get ind s)
                                 else bm_get ind s)) \<and>
           set ready' = set ready \<union> {c\<in>set cs. bm_get ind c = Some 1}"
  using assms
proof (induction cs arbitrary: ind ready)
  case (Cons c cs)
  then obtain d where d: "bm_get ind c = Some (Suc d)" by auto
  let ?ind = "bm_insert c d ind"
  let ?ready = "if d = 0 then bs_insert c ready else ready"
  have "\<forall>x\<in>set cs. \<exists>d. bm_get ?ind x = Some (Suc d)"
    using Cons.prems(1,2) by (auto simp: bm_get_insert)
  moreover have "bs_wf ?ready" using Cons.prems(3) by (simp add: bs_insert_wf)
  ultimately obtain ind' ready' where r: "visit_children cs ?ind ?ready = Inr (ind', ready')"
    "bs_wf ready'"
    "\<forall>s. bm_get ind' s = (if s \<in> set cs then map_option (\<lambda>d. d - 1) (bm_get ?ind s)
                          else bm_get ?ind s)"
    "set ready' = set ?ready \<union> {c\<in>set cs. bm_get ?ind c = Some 1}"
    using Cons.IH[of ?ind ?ready] Cons.prems(1) by auto
  have "visit_children (c # cs) ind ready = Inr (ind', ready')"
    using r(1) d by (simp add: usize_pred_def)
  moreover have "set ready' = set ready \<union> {x\<in>set (c # cs). bm_get ind x = Some 1}"
    unfolding r(4) using d Cons.prems(1) by (auto simp: bm_get_insert split: if_splits)
  moreover have "bm_get ind' s = (if s \<in> set (c # cs) then map_option (\<lambda>d. d - 1) (bm_get ind s)
      else bm_get ind s)" for s
    using r(3)[rule_format, of s] d Cons.prems(1) by (simp add: bm_get_insert)
  ultimately show ?case using r(2) by blast
qed simp

section \<open>The loop\<close>

text \<open>Invariant of Kahn's loop. \<open>deps s\<close> are the dependencies of \<open>s\<close>, \<open>V\<close> the steps visited so
  far: a step's degree counts its unvisited dependencies, the ready set holds the unvisited steps
  without any, and a rank orders what was visited.\<close>

definition kahn_inv ::
  "string set \<Rightarrow> (string \<Rightarrow> string set) \<Rightarrow> string set \<Rightarrow> nat \<Rightarrow> degrees \<Rightarrow> string list \<Rightarrow> bool" where
  "kahn_inv S deps V visited ind ready \<longleftrightarrow>
     V \<subseteq> S \<and> visited = card V \<and> bs_wf ready \<and>
     set ready = {s\<in>S - V. deps s \<subseteq> V} \<and>
     (\<forall>s. bm_get ind s = (if s \<in> S then Some (card (deps s - V)) else None)) \<and>
     (\<exists>rank. \<forall>v\<in>V. rank v < card V \<and> (\<forall>d\<in>deps v. d \<in> V \<and> rank d < (rank v :: nat)))"

lemma kahn_pass:
  assumes inv: "kahn_inv S deps V visited ind (i # ready)"
    and fin: "finite S" "\<And>s. finite (deps s)"
    and cs: "distinct cs" "set cs = {s\<in>S. i \<in> deps s}"
  shows "\<exists>ind' ready'. visit_children cs ind ready = Inr (ind', ready') \<and>
           kahn_inv S deps (insert i V) (visited + 1) ind' ready'"
proof -
  have i: "i \<in> S" "i \<notin> V" "deps i \<subseteq> V" and wf: "bs_wf ready" and nr: "i \<notin> set ready"
    and ready: "insert i (set ready) = {s\<in>S - V. deps s \<subseteq> V}"
    using inv by (auto simp: kahn_inv_def bs_wf_def)
  have finV: "finite V" using inv fin(1) by (auto simp: kahn_inv_def intro: finite_subset)
  have deg: "bm_get ind s = (if s \<in> S then Some (card (deps s - V)) else None)" for s
    using inv by (simp add: kahn_inv_def)
  have split: "card (deps c - V) = Suc (card (deps c - insert i V))" if "i \<in> deps c" for c
    using that i(2) fin(2)[of c]
    by (metis Diff_iff Diff_insert2 Diff_insert card_Suc_Diff1 finite_Diff)
  have "\<forall>c\<in>set cs. \<exists>d. bm_get ind c = Some (Suc d)"
    using cs(2) deg split by auto
  from visit_children_ok[OF cs(1) this wf] obtain ind' ready' where
    v: "visit_children cs ind ready = Inr (ind', ready')" and wf': "bs_wf ready'"
    and ind': "\<forall>s. bm_get ind' s = (if s \<in> set cs then map_option (\<lambda>d. d - 1) (bm_get ind s)
                   else bm_get ind s)"
    and ready': "set ready' = set ready \<union> {c\<in>set cs. bm_get ind c = Some 1}"
    by auto
  have deg': "bm_get ind' s = (if s \<in> S then Some (card (deps s - insert i V)) else None)" for s
  proof (cases "i \<in> deps s")
    case True
    then show ?thesis using ind' cs(2) deg split by auto
  next
    case False
    then have "deps s - insert i V = deps s - V" by auto
    with False show ?thesis using ind' cs(2) deg by auto
  qed
  have iV: "i \<notin> deps i" using i by auto
  have one: "deps c - insert i V = {} \<longleftrightarrow> card (deps c - V) = 1" if "i \<in> deps c" for c
    using split[OF that] fin(2)[of c] by auto
  have "set ready' = {s\<in>S - insert i V. deps s \<subseteq> insert i V}" (is "_ = ?R")
  proof (intro set_eqI iffI)
    fix s assume "s \<in> set ready'"
    then consider "s \<in> set ready" | "s \<in> S" "i \<in> deps s" "card (deps s - V) = 1"
      using ready' cs(2) deg by (auto split: if_splits)
    then show "s \<in> ?R"
    proof cases
      case 1
      with ready nr show ?thesis by blast
    next
      case 2
      then have "s \<noteq> i" "s \<notin> V" using iV inv i(2) by (auto simp: kahn_inv_def)
      with 2 one[OF 2(2)] show ?thesis by auto
    qed
  next
    fix s assume s: "s \<in> ?R"
    show "s \<in> set ready'"
    proof (cases "i \<in> deps s")
      case True
      then have "card (deps s - V) = 1" using one[OF True] s by auto
      with True s show ?thesis using ready' cs(2) deg by auto
    next
      case False
      then have "s \<in> insert i (set ready)" using s ready by auto
      with s show ?thesis using ready' by auto
    qed
  qed
  moreover obtain rank where rank:
    "\<forall>v\<in>V. rank v < card V \<and> (\<forall>d\<in>deps v. d \<in> V \<and> rank d < (rank v :: nat))"
    using inv by (auto simp: kahn_inv_def)
  have "\<forall>v\<in>insert i V. (rank(i := card V)) v < card (insert i V) \<and>
      (\<forall>d\<in>deps v. d \<in> insert i V \<and> (rank(i := card V)) d < (rank(i := card V)) v)"
    using rank i finV by (auto simp: less_Suc_eq)
  moreover have "insert i V \<subseteq> S" "visited + 1 = card (insert i V)"
    using inv i finV by (auto simp: kahn_inv_def)
  ultimately have "kahn_inv S deps (insert i V) (visited + 1) ind' ready'"
    unfolding kahn_inv_def using wf' deg' by blast
  with v show ?thesis by blast
qed

text \<open>Enough fuel: one more than the number of unvisited steps.\<close>

lemma kahn_ends:
  assumes "kahn_inv S deps V visited ind ready"
    and fin: "finite S" "\<And>s. finite (deps s)"
    and out: "\<And>i. i \<in> S \<Longrightarrow> distinct (children_of out i) \<and> set (children_of out i) = {s\<in>S. i \<in> deps s}"
    and fuel: "card (S - V) < fuel"
  shows "\<exists>V' visited' ind'. kahn fuel out visited ind ready = Inr (visited', ind', []) \<and>
           kahn_inv S deps V' visited' ind' []"
  using assms(1) fuel
proof (induction fuel arbitrary: V visited ind ready)
  case (Suc fuel)
  show ?case
  proof (cases ready)
    case Nil
    with Suc.prems show ?thesis by auto
  next
    case (Cons i rest)
    have i: "i \<in> S" "i \<notin> V" using Suc.prems(1) Cons by (auto simp: kahn_inv_def)
    obtain ind' ready' where v: "visit_children (children_of out i) ind rest = Inr (ind', ready')"
      and inv': "kahn_inv S deps (insert i V) (visited + 1) ind' ready'"
      using kahn_pass[OF Suc.prems(1)[unfolded Cons] fin, of "children_of out i"] out[OF i(1)]
      by blast
    have "card (S - insert i V) < card (S - V)"
      using i fin(1) by (intro psubset_card_mono) auto
    with Suc.prems(2) have "card (S - insert i V) < fuel" by simp
    from Suc.IH[OF inv' this] v Cons show ?thesis by simp
  qed
qed simp

text \<open>The loop has visited everything exactly when the graph is acyclic.\<close>

lemma kahn_inv_final:
  assumes "kahn_inv S deps V visited ind []" "finite S"
    and closed: "\<And>s. s \<in> S \<Longrightarrow> deps s \<subseteq> S"
    and R: "R = {(d, s). s \<in> S \<and> d \<in> deps s}" "finite R"
  shows "visited = card S \<longleftrightarrow> acyclic R"
proof
  assume "visited = card S"
  then have V: "V = S" using assms(1,2) by (auto simp: kahn_inv_def card_subset_eq)
  obtain rank where "\<forall>v\<in>V. rank v < card V \<and> (\<forall>d\<in>deps v. d \<in> V \<and> rank d < (rank v :: nat))"
    using assms(1) unfolding kahn_inv_def by blast
  then have "R \<subseteq> measure rank" using V R by auto
  then show "acyclic R" by (meson wf_acyclic wf_measure wf_subset)
next
  assume "acyclic R"
  then have wf: "wf R" using R(2) finite_acyclic_wf by blast
  have "S - V = {}"
  proof (rule ccontr)
    assume "S - V \<noteq> {}"
    then obtain m where m: "m \<in> S - V" "\<And>y. (y, m) \<in> R \<Longrightarrow> y \<notin> S - V"
      using wf by (metis wf_eq_minimal ex_in_conv)
    then have "deps m \<subseteq> V" using closed R(1) by blast
    with m(1) assms(1) show False by (auto simp: kahn_inv_def)
  qed
  then show "visited = card S" using assms(1) by (auto simp: kahn_inv_def)
qed

section \<open>The cycle check of a pipeline\<close>

lemma degree_of_zeros: "degree_of (map (\<lambda>i. (i, 0)) xs) s = 0"
  by (induction xs) (auto simp: degree_of_def)

lemma dom_zeros: "dom (bm_get (map (\<lambda>i. (i, 0)) xs)) = set xs"
  by (force simp: dom_map_of_conv_image_fst)

lemma bm_wf_zeros: "bs_wf xs \<Longrightarrow> bm_wf (map (\<lambda>i. (i, 0)) xs)"
  by (simp add: bm_wf_def bs_wf_def o_def strict_sorted_iff)

text \<open>The tables the step loop has built satisfy the loop's invariant before its first pass.\<close>

lemma check_cycles_correct:
  assumes ids: "distinct (map step_id steps)" "set sids = step_id ` set steps" "bs_wf sids"
    and loop: "validate_steps_loop snapshot sids members steps (map (\<lambda>i. (i, 0)) sids) [] = Inr (ind, out)"
  shows "\<exists>visited ind'. kahn (Suc (length sids)) out 0 ind
             (bs_collect (map fst (filter (\<lambda>(i, d). d = 0) ind))) = Inr (visited, ind', []) \<and>
           (visited = length sids \<longleftrightarrow> acyclic (dep_rel steps))"
proof -
  let ?S = "set sids" and ?deps = "deps_of steps"
  have sub: "step_id ` set steps \<subseteq> dom (bm_get (map (\<lambda>i. (i, 0 :: nat)) sids))"
    using ids(2) by (simp add: dom_zeros)
  note L = validate_steps_loop_ok[OF loop sub ids(1)]
  have deps: "?deps (step_id st) = set (step_dependency_step_ids st)" if "st \<in> set steps" for st
    by (rule deps_of_unique[OF ids(1) that])
  have len: "length sids = card ?S" using ids(3) by (simp add: bs_wf_def distinct_card)
  have wf: "bm_wf ind" using L bm_wf_zeros[OF ids(3)] by blast
  have dom: "dom (bm_get ind) = ?S" using L by (simp add: dom_zeros)
  have deg: "bm_get ind s = (if s \<in> ?S then Some (card (?deps s)) else None)" for s
  proof (cases "s \<in> ?S")
    case True
    then obtain st where st: "st \<in> set steps" "s = step_id st" using ids(2) by auto
    then have "degree_of ind s = length (step_dependency_step_ids st)"
      using L by (simp add: degree_of_zeros)
    also have "\<dots> = card (?deps s)" using L st deps by (simp add: distinct_card)
    finally have "degree_of ind s = card (?deps s)" .
    with True dom show ?thesis by (auto simp: degree_of_def split: option.splits)
  next
    case False
    with dom show ?thesis by auto
  qed
  have children: "distinct (children_of out i) \<and> set (children_of out i) = {s\<in>?S. i \<in> ?deps s}" for i
  proof -
    have "children_of out i =
        map step_id (filter (\<lambda>st. i \<in> set (step_dependency_step_ids st)) steps)"
      using L by (simp add: children_of_def)
    moreover have "distinct (map step_id (filter (\<lambda>st. i \<in> set (step_dependency_step_ids st)) steps))"
      using ids(1) by (simp add: distinct_map_filter)
    ultimately show ?thesis using ids(2) deps by auto
  qed
  let ?ready = "bs_collect (map fst (filter (\<lambda>(i, d). d = 0) ind))"
  have "set ?ready = {s\<in>?S. ?deps s \<subseteq> {}}"
    using wf deg finite_deps_of by (auto simp: bm_wf_values_get image_iff split: if_splits)
  then have inv: "kahn_inv ?S ?deps {} 0 ind ?ready"
    unfolding kahn_inv_def using deg by (auto simp: bs_collect_wf)
  have "card (?S - {}) < Suc (length sids)" using len by simp
  from kahn_ends[OF inv finite_set finite_deps_of children this]
  obtain V visited ind' where k: "kahn (Suc (length sids)) out 0 ind ?ready = Inr (visited, ind', [])"
    and fin: "kahn_inv ?S ?deps V visited ind' []" by blast
  have "dep_rel steps = {(d, s). s \<in> ?S \<and> d \<in> ?deps s}"
    using ids(2) by (auto simp: deps_of_def dep_rel_def)
  moreover have "\<forall>st\<in>set steps. set (step_dependency_step_ids st) \<subseteq> ?S" using L by blast
  then have "s \<in> ?S \<Longrightarrow> ?deps s \<subseteq> ?S" for s
    unfolding ids(2) using deps by fastforce
  ultimately have "visited = card ?S \<longleftrightarrow> acyclic (dep_rel steps)"
    using kahn_inv_final[OF fin finite_set _ _ finite_dep_rel] by blast
  with k len show ?thesis by auto
qed

text \<open>An accepted definition has unique, non-blank step identifiers, dependencies that exist, and no
  dependency cycle.\<close>

definition graph_ok :: "pipeline_step list \<Rightarrow> bool" where
  "graph_ok steps \<longleftrightarrow>
     distinct (map step_id steps) \<and> (\<forall>s\<in>set steps. \<not> is_blank_text (step_id s)) \<and>
     (\<forall>s\<in>set steps. distinct (step_dependency_step_ids s) \<and>
        set (step_dependency_step_ids s) \<subseteq> step_id ` set steps) \<and>
     acyclic (dep_rel steps)"

lemma validate_pipeline_parts:
  assumes "validate_pipeline sj snapshot = Inr ()"
  obtains sids ind out where
    "unique_ids ''step'' (map step_id (pipeline_steps (def_pipeline snapshot))) = Inr sids"
    "validate_steps_loop snapshot sids (bs_collect (map member_id (team_members (def_team snapshot))))
       (pipeline_steps (def_pipeline snapshot)) (map (\<lambda>i. (i, 0)) sids) [] = Inr (ind, out)"
    "check_cycles sids ind out = Inr ()"
    "validate_pipeline_declarations sj (def_pipeline snapshot) = Inr ()"
  using assms by (auto simp: validate_pipeline_def Let_def split: if_splits)

lemma validate_pipeline_graph:
  assumes "validate_pipeline sj snapshot = Inr ()"
  shows "graph_ok (pipeline_steps (def_pipeline snapshot)) \<and>
         (\<forall>s\<in>set (pipeline_steps (def_pipeline snapshot)).
            validate_step snapshot (bs_collect (map member_id (team_members (def_team snapshot)))) s
              = Inr ())"
proof -
  let ?steps = "pipeline_steps (def_pipeline snapshot)"
  obtain sids ind out where
    u: "unique_ids ''step'' (map step_id ?steps) = Inr sids"
    and loop: "validate_steps_loop snapshot sids
       (bs_collect (map member_id (team_members (def_team snapshot)))) ?steps
       (map (\<lambda>i. (i, 0)) sids) [] = Inr (ind, out)"
    and cyc: "check_cycles sids ind out = Inr ()"
    using validate_pipeline_parts[OF assms] by metis
  note U = unique_ids_ok[OF u]
  have d: "distinct (map step_id ?steps)" and s: "set sids = step_id ` set ?steps" "bs_wf sids"
    using U by auto
  from check_cycles_correct[OF d s loop] cyc have "acyclic (dep_rel ?steps)"
    by (auto simp: check_cycles_def split: if_splits)
  moreover have "step_id ` set ?steps \<subseteq> dom (bm_get (map (\<lambda>i. (i, 0 :: nat)) sids))"
    using s by (simp add: dom_zeros)
  from validate_steps_loop_ok[OF loop this d] s have
    "\<forall>s\<in>set ?steps. distinct (step_dependency_step_ids s) \<and>
        set (step_dependency_step_ids s) \<subseteq> step_id ` set ?steps \<and>
        validate_step snapshot (bs_collect (map member_id (team_members (def_team snapshot)))) s = Inr ()"
    by simp
  ultimately show ?thesis using U by (auto simp: graph_ok_def)
qed

lemma validate_definition_parts:
  assumes "validate_definition sj snapshot = Inr ()"
  shows "validate_pipeline sj snapshot = Inr ()"
    and "\<exists>profiles. unique_ids ''profile'' (map profile_id (def_profiles snapshot)) = Inr profiles \<and>
           validate_team (def_team snapshot) profiles = Inr () \<and>
           (\<forall>p\<in>set (def_profiles snapshot). validate_profile profiles p = Inr ())"
  using assms by (auto simp: validate_definition_def)

lemmas validate_definition_graph = validate_pipeline_graph[OF validate_definition_parts(1)]

section \<open>Ancestors\<close>

lemma ancestor_loop_subset:
  assumes "set anc \<union> set pending \<subseteq> {a. (a, x) \<in> (dep_rel steps)\<^sup>+}"
  shows "set (ancestor_loop steps anc pending) \<subseteq> {a. (a, x) \<in> (dep_rel steps)\<^sup>+}"
  using assms
proof (induction steps anc pending rule: ancestor_loop.induct)
  case (1 steps anc pending)
  let ?i = "last pending" and ?rest = "butlast pending"
  show ?case
  proof (cases "pending = []")
    case True
    with 1(4) show ?thesis by (simp add: ancestor_loop.simps)
  next
    case False
    then have p: "set pending = insert ?i (set ?rest)"
      by (metis append_butlast_last_id list.simps(15) rotate1.simps(2) set_rotate1)
    show ?thesis
    proof (cases "?i \<in> set anc")
      case True
      with 1(1)[OF False refl refl True] 1(4) p False show ?thesis
        by (simp add: ancestor_loop.simps[of steps anc pending])
    next
      case new: False
      show ?thesis
      proof (cases "find (\<lambda>p. step_id p = ?i) steps")
        case None
        with 1(2)[OF False refl refl new None] 1(4) p False new show ?thesis
          by (simp add: ancestor_loop.simps[of steps anc pending] Let_def)
      next
        case (Some parent)
        have par: "parent \<in> set steps" "step_id parent = ?i" using find_Some_set[OF Some] by auto
        have "(a, x) \<in> (dep_rel steps)\<^sup>+" if "a \<in> set (step_dependency_step_ids parent)" for a
        proof (rule trancl_into_trancl2)
          show "(a, ?i) \<in> dep_rel steps" using par that by (auto simp: dep_rel_def)
          show "(?i, x) \<in> (dep_rel steps)\<^sup>+" using 1(4) p by auto
        qed
        then have "set (bs_insert ?i anc) \<union> set (?rest @ step_dependency_step_ids parent)
            \<subseteq> {a. (a, x) \<in> (dep_rel steps)\<^sup>+}"
          using 1(4) p by auto
        from 1(3)[OF False refl refl new Some this] show ?thesis
          using False new Some by (simp add: ancestor_loop.simps[of steps anc pending] Let_def)
      qed
    qed
  qed
qed

text \<open>The correction step of an accepted review is strictly upstream of the reviewing step.\<close>

lemma validate_review_upstream:
  assumes "validate_review pipeline step = Inr ()" "step_review step = Some review"
    "step \<in> set (pipeline_steps pipeline)"
  shows "(review_retry_from_step_id review, step_id step) \<in> (dep_rel (pipeline_steps pipeline))\<^sup>+"
proof -
  have "set [] \<union> set (step_dependency_step_ids step) \<subseteq>
      {a. (a, step_id step) \<in> (dep_rel (pipeline_steps pipeline))\<^sup>+}"
    using assms(3) by (auto simp: dep_rel_def intro!: r_into_trancl)
  from ancestor_loop_subset[OF this] assms(1,2) show ?thesis
    by (auto simp: validate_review_def split: if_splits)
qed

lemma validate_step_review:
  assumes "validate_step snapshot members step = Inr ()"
  shows "validate_review (def_pipeline snapshot) step = Inr ()"
  using assms by (auto simp: validate_step_def Let_def)

end
