(* ===== verification/Authority.thy ===== *)
theory Authority
  imports Types
begin

text \<open>
  Authorization (\<^verbatim>\<open>validation.rs\<close>, second half): spawning, the conservative comparison of two
  profiles' authority, coordinator tools, messages and observation. The locale
  \<open>authority_order\<close> is the contract of a spawn policy: what a chain of admitted spawns may
  hold is bounded by what its first profile holds.
\<close>

section \<open>Checks\<close>

definition validate_profile_capabilities ::
  "agent_profile \<Rightarrow> native_bridge_capabilities \<Rightarrow> definition_error + unit" where
  "validate_profile_capabilities profile capabilities =
     (if profile_permission_mode profile \<notin> set (cap_permission_modes capabilities)
      then Inl (UnsupportedPermissionMode (profile_permission_mode profile))
      else try_each (\<lambda>rule.
        if \<not> rule_mandatory rule then Inr ()
        else
          let supported =
                (case rule_enforcement rule of
                   NativeEnforced \<Rightarrow> list_ex ((=) (rule_tool rule)) (cap_native_enforced_tools capabilities)
                 | CoordinatorEnforced \<Rightarrow>
                     list_ex ((=) (rule_tool rule)) (cap_coordinator_enforced_tools capabilities)
                 | Advisory \<Rightarrow> False
                 | Unsupported \<Rightarrow> False);
              operations = cap_agent_operations capabilities;
              operation_supported =
                (if rule_tool rule = ''orchestration.roster'' then cap_roster operations
                 else if rule_tool rule = ''orchestration.send'' then cap_send operations
                 else if rule_tool rule = ''orchestration.observe'' then cap_observe operations
                 else if rule_tool rule = ''orchestration.spawn'' then cap_spawn operations
                 else True)
          in if \<not> supported \<or> \<not> operation_supported
             then Inl (MandatoryToolUnsupported (rule_tool rule)) else Inr ())
        (policy_rules (profile_tool_policy profile)))"

fun files_subset :: "agent_profile \<Rightarrow> agent_profile \<Rightarrow> permission_mode \<Rightarrow> permission_mode \<Rightarrow> bool" where
  "files_subset parent child Native Native = (profile_harness parent = profile_harness child)"
| "files_subset parent child FullAccess ReadOnly = True"
| "files_subset parent child FullAccess WorkspaceWrite = True"
| "files_subset parent child FullAccess FullAccess = True"
| "files_subset parent child WorkspaceWrite ReadOnly = True"
| "files_subset parent child WorkspaceWrite WorkspaceWrite = True"
| "files_subset parent child ReadOnly ReadOnly = True"
| "files_subset parent child _ _ = False"

definition native_rules :: "agent_profile \<Rightarrow> (string \<times> tool_decision) list" where
  "native_rules profile =
     map (\<lambda>r. (rule_tool r, rule_decision r))
       (filter (\<lambda>r. rule_enforcement r = NativeEnforced) (policy_rules (profile_tool_policy profile)))"

definition spawn_permissions_subset :: "agent_profile \<Rightarrow> agent_profile \<Rightarrow> bool" where
  "spawn_permissions_subset parent child =
     (if \<not> files_subset parent child (profile_permission_mode parent) (profile_permission_mode child)
        then False
      else if profile_network_access child \<and> \<not> profile_network_access parent then False
      else if list_ex (\<lambda>rule. rule_decision rule = Deny \<and>
                \<not> list_ex (\<lambda>c. rule_tool c = rule_tool rule \<and> rule_decision c = Deny \<and>
                              rule_enforcement c = rule_enforcement rule \<and>
                              (\<not> rule_mandatory rule \<or> rule_mandatory c))
                    (policy_rules (profile_tool_policy child)))
              (policy_rules (profile_tool_policy parent)) then False
      else if native_rules parent \<noteq> [] \<and>
              (native_rules child = [] \<or>
               list_ex (\<lambda>(tool, decision). decision = Allow \<and> (tool, Allow) \<notin> set (native_rules parent))
                 (native_rules child)) then False
      else if list_ex (\<lambda>rule. \<not> resource_enabled rule \<and>
                \<not> list_ex (\<lambda>c. resource_kind c = resource_kind rule \<and>
                              resource_id c = resource_id rule \<and> \<not> resource_enabled c)
                    (profile_resource_rules child))
              (profile_resource_rules parent) then False
      else list_all (\<lambda>i. i \<in> set (profile_allowed_spawn_profile_ids parent))
             (profile_allowed_spawn_profile_ids child))"

definition authorize_spawn ::
  "run_definition_snapshot \<Rightarrow> string \<Rightarrow> string \<Rightarrow> authorization_error + agent_profile" where
  "authorize_spawn snapshot spawner_id requested_id =
     (case find (\<lambda>p. profile_id p = spawner_id) (def_profiles snapshot) of
        None \<Rightarrow> Inl (UnknownProfile spawner_id)
      | Some spawner \<Rightarrow>
          (case find (\<lambda>p. profile_id p = requested_id) (def_profiles snapshot) of
             None \<Rightarrow> Inl (UnknownProfile requested_id)
           | Some requested \<Rightarrow>
               if requested_id \<notin> set (profile_allowed_spawn_profile_ids spawner)
                 then Inl (SpawnDenied spawner_id requested_id)
               else if \<not> spawn_permissions_subset spawner requested
                 then Inl (SpawnDenied spawner_id requested_id)
               else Inr requested))"

definition authorize_coordinator_tool ::
  "run_definition_snapshot \<Rightarrow> string \<Rightarrow> string \<Rightarrow> authorization_error + unit" where
  "authorize_coordinator_tool snapshot actor tool =
     (case find (\<lambda>m. member_id m = actor) (team_members (def_team snapshot)) of
        None \<Rightarrow> Inl (UnknownMember actor)
      | Some member \<Rightarrow>
          (case find (\<lambda>p. profile_id p = member_profile_id member) (def_profiles snapshot) of
             None \<Rightarrow> Inl (UnknownProfile (member_profile_id member))
           | Some profile \<Rightarrow>
               if list_ex (\<lambda>r. rule_tool r = tool \<and> rule_enforcement r = CoordinatorEnforced \<and>
                              rule_decision r = Deny) (policy_rules (profile_tool_policy profile))
               then Inl (CoordinatorToolDenied actor tool) else Inr ()))"

definition authorize_edge ::
  "team_definition \<Rightarrow> directed_edge list \<Rightarrow> string \<Rightarrow> string \<Rightarrow> bool \<Rightarrow> authorization_error + unit" where
  "authorize_edge team edges from to send =
     and_then (try_each (\<lambda>i. if \<not> list_ex (\<lambda>m. member_id m = i) (team_members team)
                             then Inl (UnknownMember i) else Inr ()) [from, to])
       (\<lambda>_. if list_ex (\<lambda>e. from_member_id e = from \<and> to_member_id e = to) edges then Inr ()
            else if send then Inl (SendDenied from to) else Inl (ObserveDenied from to))"

definition authorize_send :: "team_definition \<Rightarrow> string \<Rightarrow> string \<Rightarrow> authorization_error + unit" where
  "authorize_send team from to = authorize_edge team (send_edges team) from to True"

definition authorize_observe :: "team_definition \<Rightarrow> string \<Rightarrow> string \<Rightarrow> authorization_error + unit" where
  "authorize_observe team from to = authorize_edge team (observe_edges team) from to False"

section \<open>What is admitted\<close>

definition has_member :: "team_definition \<Rightarrow> string \<Rightarrow> bool" where
  "has_member team m \<longleftrightarrow> m \<in> member_id ` set (team_members team)"

definition has_edge :: "directed_edge list \<Rightarrow> string \<Rightarrow> string \<Rightarrow> bool" where
  "has_edge edges from to \<longleftrightarrow> (\<exists>e\<in>set edges. from_member_id e = from \<and> to_member_id e = to)"

lemma authorize_edge_ok:
  "authorize_edge team edges from to send = Inr () \<longleftrightarrow>
   has_member team from \<and> has_member team to \<and> has_edge edges from to"
  by (auto simp: authorize_edge_def has_member_def has_edge_def list_ex_iff image_iff
      split: if_splits; metis)

lemma authorize_send_ok:
  "authorize_send team from to = Inr () \<longleftrightarrow>
   has_member team from \<and> has_member team to \<and> has_edge (send_edges team) from to"
  by (simp add: authorize_send_def authorize_edge_ok)

lemma authorize_observe_ok:
  "authorize_observe team from to = Inr () \<longleftrightarrow>
   has_member team from \<and> has_member team to \<and> has_edge (observe_edges team) from to"
  by (simp add: authorize_observe_def authorize_edge_ok)

lemma authorize_spawn_ok:
  "authorize_spawn snapshot a b = Inr q \<longleftrightarrow>
   (\<exists>p. find (\<lambda>p. profile_id p = a) (def_profiles snapshot) = Some p \<and>
        find (\<lambda>p. profile_id p = b) (def_profiles snapshot) = Some q \<and>
        b \<in> set (profile_allowed_spawn_profile_ids p) \<and> spawn_permissions_subset p q)"
  by (auto simp: authorize_spawn_def split: option.splits)

section \<open>The order of authority\<close>

locale authority_order =
  fixes le :: "'p \<Rightarrow> 'p \<Rightarrow> bool"
  assumes le_refl: "le p p"
    and le_trans: "le p q \<Longrightarrow> le q r \<Longrightarrow> le p r"
begin

lemma chain_bounded: "successively le (p # ps) \<Longrightarrow> q \<in> set (p # ps) \<Longrightarrow> le p q"
proof (induction ps arbitrary: p)
  case (Cons p' ps)
  then have step: "le p p'" "successively le (p' # ps)" by auto
  show ?case
  proof (cases "q = p")
    case False
    with Cons.prems have "q \<in> set (p' # ps)" by auto
    from le_trans[OF step(1) Cons.IH[OF step(2) this]] show ?thesis .
  qed (simp add: le_refl)
qed (simp add: le_refl)

end

lemma files_subset_trans:
  "files_subset p q (profile_permission_mode p) (profile_permission_mode q) \<Longrightarrow>
   files_subset q r (profile_permission_mode q) (profile_permission_mode r) \<Longrightarrow>
   files_subset p r (profile_permission_mode p) (profile_permission_mode r)"
  by (cases "profile_permission_mode p"; cases "profile_permission_mode q";
      cases "profile_permission_mode r") simp_all

definition denials_kept :: "tool_rule list \<Rightarrow> tool_rule list \<Rightarrow> bool" where
  "denials_kept ps cs \<longleftrightarrow>
     (\<forall>rule\<in>set ps. rule_decision rule = Deny \<longrightarrow>
        (\<exists>c\<in>set cs. rule_tool c = rule_tool rule \<and> rule_decision c = Deny \<and>
            rule_enforcement c = rule_enforcement rule \<and> (rule_mandatory rule \<longrightarrow> rule_mandatory c)))"

definition resources_kept :: "resource_rule list \<Rightarrow> resource_rule list \<Rightarrow> bool" where
  "resources_kept ps cs \<longleftrightarrow>
     (\<forall>rule\<in>set ps. \<not> resource_enabled rule \<longrightarrow>
        (\<exists>c\<in>set cs. resource_kind c = resource_kind rule \<and> resource_id c = resource_id rule \<and>
            \<not> resource_enabled c))"

definition allowlist_kept :: "(string \<times> tool_decision) list \<Rightarrow> (string \<times> tool_decision) list \<Rightarrow> bool" where
  "allowlist_kept ps cs \<longleftrightarrow>
     (ps \<noteq> [] \<longrightarrow> cs \<noteq> [] \<and> (\<forall>t. (t, Allow) \<in> set cs \<longrightarrow> (t, Allow) \<in> set ps))"

lemma spawn_permissions_subset_iff:
  "spawn_permissions_subset p c \<longleftrightarrow>
     files_subset p c (profile_permission_mode p) (profile_permission_mode c) \<and>
     (profile_network_access c \<longrightarrow> profile_network_access p) \<and>
     denials_kept (policy_rules (profile_tool_policy p)) (policy_rules (profile_tool_policy c)) \<and>
     allowlist_kept (native_rules p) (native_rules c) \<and>
     resources_kept (profile_resource_rules p) (profile_resource_rules c) \<and>
     set (profile_allowed_spawn_profile_ids c) \<subseteq> set (profile_allowed_spawn_profile_ids p)"
proof -
  have "(native_rules p \<noteq> [] \<and>
      (native_rules c = [] \<or>
       list_ex (\<lambda>(tool, decision). decision = Allow \<and> (tool, Allow) \<notin> set (native_rules p))
         (native_rules c))) \<longleftrightarrow> \<not> allowlist_kept (native_rules p) (native_rules c)"
    by (auto simp: allowlist_kept_def list_ex_iff)
  moreover have "list_ex (\<lambda>rule. rule_decision rule = Deny \<and>
        \<not> list_ex (\<lambda>x. rule_tool x = rule_tool rule \<and> rule_decision x = Deny \<and>
             rule_enforcement x = rule_enforcement rule \<and> (\<not> rule_mandatory rule \<or> rule_mandatory x))
           (policy_rules (profile_tool_policy c))) (policy_rules (profile_tool_policy p)) \<longleftrightarrow>
      \<not> denials_kept (policy_rules (profile_tool_policy p)) (policy_rules (profile_tool_policy c))"
    unfolding denials_kept_def list_ex_iff by blast
  moreover have "list_ex (\<lambda>rule. \<not> resource_enabled rule \<and>
        \<not> list_ex (\<lambda>x. resource_kind x = resource_kind rule \<and> resource_id x = resource_id rule \<and>
              \<not> resource_enabled x) (profile_resource_rules c)) (profile_resource_rules p) \<longleftrightarrow>
      \<not> resources_kept (profile_resource_rules p) (profile_resource_rules c)"
    unfolding resources_kept_def list_ex_iff by blast
  ultimately show ?thesis
    unfolding spawn_permissions_subset_def by (auto simp: list_all_iff)
qed

lemma denials_kept_refl: "denials_kept ps ps"
  by (auto simp: denials_kept_def)

lemma denials_kept_trans: "denials_kept ps qs \<Longrightarrow> denials_kept qs rs \<Longrightarrow> denials_kept ps rs"
  unfolding denials_kept_def by metis

lemma allowlist_kept_trans: "allowlist_kept ps qs \<Longrightarrow> allowlist_kept qs rs \<Longrightarrow> allowlist_kept ps rs"
  unfolding allowlist_kept_def by blast

lemma resources_kept_trans: "resources_kept ps qs \<Longrightarrow> resources_kept qs rs \<Longrightarrow> resources_kept ps rs"
  unfolding resources_kept_def by metis

interpretation spawn: authority_order spawn_permissions_subset
proof
  show "spawn_permissions_subset p p" for p
    unfolding spawn_permissions_subset_iff
    by (cases "profile_permission_mode p")
       (auto simp: denials_kept_refl allowlist_kept_def resources_kept_def)
  show "spawn_permissions_subset p r"
    if "spawn_permissions_subset p q" "spawn_permissions_subset q r" for p q r
    using that unfolding spawn_permissions_subset_iff
    by (meson allowlist_kept_trans denials_kept_trans files_subset_trans order_trans
        resources_kept_trans)
qed

text \<open>A chain of spawns, each admitted by \<^verbatim>\<open>authorize_spawn\<close> from the profile spawned before.\<close>

fun spawn_chain :: "run_definition_snapshot \<Rightarrow> agent_profile \<Rightarrow> string list \<Rightarrow> agent_profile list option" where
  "spawn_chain snapshot p [] = Some [p]"
| "spawn_chain snapshot p (i # is) =
     (case authorize_spawn snapshot (profile_id p) i of
        Inl _ \<Rightarrow> None
      | Inr q \<Rightarrow> map_option ((#) p) (spawn_chain snapshot q is))"

lemma spawn_chain_successively:
  assumes "spawn_chain snapshot p is = Some ps" "p \<in> set (def_profiles snapshot)"
    "distinct (map profile_id (def_profiles snapshot))"
  shows "\<exists>qs. ps = p # qs \<and> successively spawn_permissions_subset (p # qs)"
  using assms
proof (induction "is" arbitrary: p ps)
  case (Cons i "is")
  then obtain q qs where q: "authorize_spawn snapshot (profile_id p) i = Inr q"
    and qs: "spawn_chain snapshot q is = Some qs" "ps = p # qs"
    by (auto split: sum.splits)
  have "find (\<lambda>x. profile_id x = profile_id p) (def_profiles snapshot) = Some p"
    by (rule find_unique[OF Cons.prems(3,2)])
  with q have le: "spawn_permissions_subset p q" and "q \<in> set (def_profiles snapshot)"
    by (auto simp: authorize_spawn_ok dest: find_Some_set)
  with Cons.IH[OF qs(1) _ Cons.prems(3)] qs(2) show ?case by auto
qed simp

end
