(* ===== verification/Loops.thy ===== *)
theory Loops
  imports Prelude
begin

text \<open>
  Rust's \<^verbatim>\<open>loop { .. if .. { break } }\<close> with a bound on the number of passes. The body returns the
  new state and whether another pass follows. The locale \<open>bounded_loop\<close> is the contract under
  which the bound is never felt: on the states the loop can be in, every pass that asks for
  another one lowers a measure.
\<close>

fun loop_n :: "nat \<Rightarrow> ('s \<Rightarrow> 's \<times> bool) \<Rightarrow> 's \<Rightarrow> 's" where
  "loop_n 0 body s = s"
| "loop_n (Suc n) body s = (let (s', again) = body s in if again then loop_n n body s' else s')"

locale bounded_loop =
  fixes body :: "'s \<Rightarrow> 's \<times> bool"
    and ok :: "'s \<Rightarrow> bool"
    and size_of :: "'s \<Rightarrow> nat"
  assumes body_ok: "ok s \<Longrightarrow> body s = (s', again) \<Longrightarrow> ok s'"
    and body_less: "ok s \<Longrightarrow> body s = (s', True) \<Longrightarrow> size_of s' < size_of s"
begin

text \<open>The loop ends by itself: its result is the state a last pass left behind.\<close>

lemma ends:
  "ok s \<Longrightarrow> size_of s < n \<Longrightarrow> \<exists>s0. ok s0 \<and> body s0 = (loop_n n body s, False)"
proof (induction n arbitrary: s)
  case (Suc n)
  obtain s' again where b: "body s = (s', again)" by (cases "body s")
  show ?case
  proof (cases again)
    case True
    with b Suc.prems body_less[of s s'] have "size_of s' < n" by simp
    with Suc.IH[of s'] body_ok[OF Suc.prems(1) b] b True show ?thesis by simp
  next
    case False
    with b Suc.prems(1) show ?thesis by auto
  qed
qed simp

lemma ends_ok: "ok s \<Longrightarrow> size_of s < n \<Longrightarrow> ok (loop_n n body s)"
  using ends body_ok by blast

text \<open>More passes than enough change nothing.\<close>

lemma enough:
  "ok s \<Longrightarrow> size_of s < n \<Longrightarrow> size_of s < m \<Longrightarrow> loop_n n body s = loop_n m body s"
proof (induction n arbitrary: s m)
  case (Suc n)
  obtain s' again where b: "body s = (s', again)" by (cases "body s")
  obtain k where m: "m = Suc k" using Suc.prems(3) by (cases m) auto
  show ?case
  proof (cases again)
    case True
    with b Suc.prems body_less[of s s'] m have "size_of s' < n" "size_of s' < k" by auto
    with Suc.IH[of s' k] body_ok[OF Suc.prems(1) b] b True m show ?thesis by simp
  qed (simp add: b m)
qed simp

text \<open>A relation that every pass keeps, from the first state to the last.\<close>

lemma keeps:
  assumes "ok s" "P s" "\<And>s s' again. ok s \<Longrightarrow> P s \<Longrightarrow> body s = (s', again) \<Longrightarrow> P s'"
  shows "P (loop_n n body s)"
  using assms(1,2)
proof (induction n arbitrary: s)
  case (Suc n)
  obtain s' again where b: "body s = (s', again)" by (cases "body s")
  with Suc body_ok assms(3) show ?case by auto
qed simp

end

lemma loop_n_keeps:
  assumes "P s" "\<And>s s' again. P s \<Longrightarrow> body s = (s', again) \<Longrightarrow> P s'"
  shows "P (loop_n n body s)"
  using assms(1)
proof (induction n arbitrary: s)
  case (Suc n)
  then show ?case using assms(2) by (cases "body s") auto
qed simp

end
