(* ===== verification/Run_State.thy ===== *)
theory Run_State
  imports Dependency_Graph Authority Loops
begin

text \<open>
  Reading and refreshing a run (\<^verbatim>\<open>coordinator.rs\<close>, \<^verbatim>\<open>flow.rs\<close>): revisions, readiness, the derived
  run status, conditions and routes that skip steps, and repeating a step with everything
  downstream of it.
\<close>

section \<open>Looking things up\<close>

definition find_task :: "run \<Rightarrow> string \<Rightarrow> task_record option" where
  "find_task r i = find (\<lambda>t. task_step_id t = i) (run_tasks r)"

definition find_step :: "run \<Rightarrow> string \<Rightarrow> pipeline_step option" where
  "find_step r i = find (\<lambda>s. step_id s = i) (run_steps r)"

definition task_index :: "run \<Rightarrow> string \<Rightarrow> nat option" where
  "task_index r i = position (\<lambda>t. task_step_id t = i) (run_tasks r)"

definition update_task :: "nat \<Rightarrow> (task_record \<Rightarrow> task_record) \<Rightarrow> run \<Rightarrow> run" where
  "update_task i f r = r\<lparr>run_tasks := upd_at i f (run_tasks r)\<rparr>"

definition bump :: "task_record \<Rightarrow> task_record" where
  "bump t = t\<lparr>task_revision := task_revision t + 1\<rparr>"

definition bump_run :: "run \<Rightarrow> run" where
  "bump_run r = r\<lparr>run_revision := run_revision r + 1\<rparr>"

section \<open>Guards\<close>

definition check_revision :: "string \<Rightarrow> revision \<Rightarrow> revision \<Rightarrow> coordinator_error + unit" where
  "check_revision scope expected actual =
     (if expected = actual then Inr () else Inl (RevisionConflict scope expected actual))"

definition check_run_revision :: "run \<Rightarrow> revision \<Rightarrow> coordinator_error + unit" where
  "check_run_revision r expected = check_revision ''run'' expected (run_revision r)"

definition ensure_active :: "run \<Rightarrow> coordinator_error + unit" where
  "ensure_active r = (if run_status r = RunRunning then Inr () else Inl (RunNotActive (run_status r)))"

definition callable_template :: "run \<Rightarrow> string \<Rightarrow> bool" where
  "callable_template r i =
     list_ex (\<lambda>s. step_id s = i \<and> step_execution_mode s = Some Callable) (run_steps r)"

definition dependencies_succeeded :: "run \<Rightarrow> string \<Rightarrow> bool" where
  "dependencies_succeeded r i =
     (case find_step r i of
        None \<Rightarrow> False
      | Some step \<Rightarrow>
          list_all (\<lambda>d. list_ex (\<lambda>t. task_step_id t = d \<and> task_status t = Succeeded) (run_tasks r))
            (step_dependency_step_ids step))"

text \<open>The branches a finished router selected, as recorded in its result.\<close>

definition selected_branches :: "run \<Rightarrow> string \<Rightarrow> task_record \<Rightarrow> json list option" where
  "selected_branches r router_id t =
     Option.bind
       (Option.bind (task_result_data t) (\<lambda>value.
          Option.bind (Option.bind (find_step r router_id) step_router)
            (\<lambda>router. get_field value (selection_field_of router))))
       as_array"

definition gate_router_ids :: "pipeline_step \<Rightarrow> string list" where
  "gate_router_ids step = bs_collect (map gate_router_step_id (step_route_gates step))"

definition route_gate_satisfied :: "run \<Rightarrow> pipeline_step \<Rightarrow> bool" where
  "route_gate_satisfied r step =
     (if step_route_gates step = [] then True
      else list_all (\<lambda>router_id.
        case find_task r router_id of
          None \<Rightarrow> False
        | Some t \<Rightarrow>
            if task_status t \<noteq> Succeeded then False
            else list_ex (\<lambda>gate.
                   is_some_and (selected_branches r router_id t)
                     (list_ex (\<lambda>v. as_str v = Some (gate_branch_id gate))))
                   (filter (\<lambda>gate. gate_router_step_id gate = router_id) (step_route_gates step)))
        (gate_router_ids step))"

section \<open>The derived run status\<close>

definition has_status :: "task_status list \<Rightarrow> task_record \<Rightarrow> bool" where
  "has_status ss t \<longleftrightarrow> task_status t \<in> set ss"

definition idle_template :: "run \<Rightarrow> task_record \<Rightarrow> bool" where
  "idle_template r t \<longleftrightarrow>
     task_status t = Ready \<and> task_lease_id t = None \<and> callable_template r (task_step_id t)"

definition refreshed_status :: "run \<Rightarrow> run_status" where
  "refreshed_status r =
     (let tasks = run_tasks r in
      if list_ex (has_status [Uncertain]) tasks then RunUncertain
      else if list_ex (has_status [Running, AwaitingApproval]) tasks then RunRunning
      else if list_ex (has_status [Failed]) tasks then RunFailed
      else if list_all (\<lambda>t. has_status [Succeeded, Skipped] t \<or> idle_template r t) tasks then RunSucceeded
      else if list_ex (has_status [Ready]) tasks then RunRunning
      else if list_ex (has_status [Cancelled]) tasks then RunCancelled
      else run_status r)"

definition refresh_status :: "run \<Rightarrow> run" where
  "refresh_status r = r\<lparr>run_status := refreshed_status r\<rparr>"

section \<open>Conditions and routes\<close>

definition false_condition :: "run \<Rightarrow> result_condition \<Rightarrow> bool" where
  "false_condition r c =
     is_some_and (find_task r (cond_source_step_id c))
       (\<lambda>src. task_status src = Succeeded \<and>
          Option.bind (task_result_data src) (\<lambda>v. get_field v (cond_field c)) \<noteq> Some (cond_equals c))"

definition route_not_selected :: "run \<Rightarrow> pipeline_step \<Rightarrow> bool" where
  "route_not_selected r step \<longleftrightarrow>
     step_route_gates step \<noteq> [] \<and>
     list_all (\<lambda>router_id. is_some_and (find_task r router_id) (\<lambda>t. task_status t = Succeeded))
       (gate_router_ids step) \<and>
     \<not> route_gate_satisfied r step"

definition inherited_skip :: "run \<Rightarrow> pipeline_step \<Rightarrow> bool" where
  "inherited_skip r step =
     list_ex (\<lambda>d. list_ex (\<lambda>t. task_step_id t = d \<and> task_status t = Skipped) (run_tasks r))
       (step_dependency_step_ids step)"

definition should_skip :: "run \<Rightarrow> pipeline_step \<Rightarrow> bool" where
  "should_skip r step =
     (case find_task r (step_id step) of
        None \<Rightarrow> False
      | Some t \<Rightarrow>
          if task_status t \<noteq> Ready \<or> task_lease_id t \<noteq> None then False
          else inherited_skip r step \<or> is_some_and (step_condition step) (false_condition r) \<or>
               route_not_selected r step)"

definition skipped_ids :: "run \<Rightarrow> string list" where
  "skipped_ids r = map step_id (filter (should_skip r) (run_steps r))"

definition skip_pass :: "run \<Rightarrow> run" where
  "skip_pass r =
     r\<lparr>run_tasks := map (\<lambda>t. if task_step_id t \<in> set (skipped_ids r)
                              then bump (t\<lparr>task_status := Skipped\<rparr>) else t) (run_tasks r)\<rparr>"

definition ready_count :: "run \<Rightarrow> nat" where
  "ready_count r = length (filter (\<lambda>t. task_status t = Ready) (run_tasks r))"

lemma length_filter_less:
  assumes "length xs = length ys" "\<And>i. i < length xs \<Longrightarrow> P (ys ! i) \<Longrightarrow> P (xs ! i)"
    "\<exists>i < length xs. P (xs ! i) \<and> \<not> P (ys ! i)"
  shows "length (filter P ys) < length (filter P xs)"
proof -
  have "{i. i < length ys \<and> P (ys ! i)} \<subset> {i. i < length xs \<and> P (xs ! i)}"
    using assms by auto
  then have "card {i. i < length ys \<and> P (ys ! i)} < card {i. i < length xs \<and> P (xs ! i)}"
    by (rule psubset_card_mono[rotated]) simp
  then show ?thesis by (simp add: length_filter_conv_card)
qed

lemma length_filter_le_nth:
  assumes "length xs = length ys" "\<And>i. i < length xs \<Longrightarrow> P (ys ! i) \<Longrightarrow> P (xs ! i)"
  shows "length (filter P ys) \<le> length (filter P xs)"
proof -
  have "{i. i < length ys \<and> P (ys ! i)} \<subseteq> {i. i < length xs \<and> P (xs ! i)}"
    using assms by auto
  then have "card {i. i < length ys \<and> P (ys ! i)} \<le> card {i. i < length xs \<and> P (xs ! i)}"
    by (rule card_mono[rotated]) simp
  then show ?thesis by (simp add: length_filter_conv_card)
qed

lemma find_task_nth:
  assumes "find_task r i = Some t"
  shows "\<exists>k < length (run_tasks r). run_tasks r ! k = t \<and> task_step_id t = i"
  using find_Some_set[OF assms[unfolded find_task_def]] by (auto simp: in_set_conv_nth)

lemma task_status_bump [simp]: "task_status (bump t) = task_status t"
  by (simp add: bump_def)

lemma ready_count_skip_pass:
  assumes "skipped_ids r \<noteq> []"
  shows "ready_count (skip_pass r) < ready_count r"
proof -
  obtain s where s: "s \<in> set (run_steps r)" "should_skip r s"
    using assms by (auto simp: skipped_ids_def filter_empty_conv)
  then obtain t where t: "find_task r (step_id s) = Some t" "task_status t = Ready"
    by (auto simp: should_skip_def split: option.splits if_splits)
  then obtain k where k: "k < length (run_tasks r)" "run_tasks r ! k = t" "task_step_id t = step_id s"
    using find_task_nth by blast
  have "step_id s \<in> set (skipped_ids r)" using s by (auto simp: skipped_ids_def)
  with k t show ?thesis
    unfolding ready_count_def skip_pass_def
    by (intro length_filter_less) (auto split: if_splits)
qed

function advance_conditions :: "run \<Rightarrow> run" where
  "advance_conditions r = (if skipped_ids r = [] then r else advance_conditions (skip_pass r))"
  by pat_completeness auto
termination
  by (relation "measure ready_count") (auto simp: ready_count_skip_pass)

declare advance_conditions.simps [simp del]

section \<open>Repeating a step\<close>

text \<open>One pass over the steps adds, in place, every step that depends on an affected one.\<close>

definition affected_pass :: "pipeline_step list \<Rightarrow> string list \<Rightarrow> string list" where
  "affected_pass steps affected =
     fold (\<lambda>step aff. if list_ex (\<lambda>d. d \<in> set aff) (step_dependency_step_ids step)
                      then bs_insert (step_id step) aff else aff) steps affected"

lemma affected_fold_mono:
  "set aff \<subseteq> set (fold (\<lambda>step aff. if list_ex (\<lambda>d. d \<in> set aff) (step_dependency_step_ids step)
     then bs_insert (step_id step) aff else aff) steps aff)"
proof (induction steps arbitrary: aff)
  case (Cons s steps)
  show ?case
    using Cons[of "bs_insert (step_id s) aff"] Cons[of aff] by auto
qed simp

lemma affected_fold_sub:
  "set (fold (\<lambda>step aff. if list_ex (\<lambda>d. d \<in> set aff) (step_dependency_step_ids step)
     then bs_insert (step_id step) aff else aff) steps aff) \<subseteq> set aff \<union> step_id ` set steps"
proof (induction steps arbitrary: aff)
  case (Cons s steps)
  show ?case
    using Cons[of "bs_insert (step_id s) aff"] Cons[of aff] by auto
qed simp

lemma affected_fold_eq:
  assumes "set (fold (\<lambda>step aff. if list_ex (\<lambda>d. d \<in> set aff) (step_dependency_step_ids step)
     then bs_insert (step_id step) aff else aff) steps aff) = set aff"
  shows "fold (\<lambda>step aff. if list_ex (\<lambda>d. d \<in> set aff) (step_dependency_step_ids step)
     then bs_insert (step_id step) aff else aff) steps aff = aff \<and>
     (\<forall>s\<in>set steps. (\<exists>d\<in>set (step_dependency_step_ids s). d \<in> set aff) \<longrightarrow> step_id s \<in> set aff)"
  using assms
proof (induction steps arbitrary: aff)
  case (Cons s steps)
  show ?case
  proof (cases "list_ex (\<lambda>d. d \<in> set aff) (step_dependency_step_ids s)")
    case True
    then have "step_id s \<in> set aff"
      using Cons.prems affected_fold_mono[of "bs_insert (step_id s) aff" steps] by auto
    then have "bs_insert (step_id s) aff = aff" by (simp add: insort_insert_key_def)
    with Cons True \<open>step_id s \<in> set aff\<close> show ?thesis by simp
  next
    case False
    with Cons show ?thesis by (auto simp: list_ex_iff)
  qed
qed simp

function affected_loop :: "pipeline_step list \<Rightarrow> string list \<Rightarrow> string list" where
  "affected_loop steps affected =
     (let next = affected_pass steps affected in
      if length next = length affected then next else affected_loop steps next)"
  by pat_completeness auto
termination
proof (relation "measure (\<lambda>(steps, affected). card (step_id ` set steps - set affected))", goal_cases)
  case (2 steps affected "next")
  have mono: "set affected \<subseteq> set next"
    unfolding 2 affected_pass_def by (rule affected_fold_mono)
  have "set next \<noteq> set affected"
  proof
    assume "set next = set affected"
    with affected_fold_eq[of steps affected] 2 show False by (auto simp: affected_pass_def)
  qed
  with mono obtain x where x: "x \<in> set next" "x \<notin> set affected" by auto
  then have "x \<in> step_id ` set steps"
    unfolding 2 affected_pass_def using affected_fold_sub by blast
  with x mono show ?case
    by (auto intro!: psubset_card_mono)
qed auto

declare affected_loop.simps [simp del]

definition affected_steps :: "pipeline_step list \<Rightarrow> string \<Rightarrow> string list" where
  "affected_steps steps i = affected_loop steps [i]"

definition reset_task :: "task_record \<Rightarrow> task_record" where
  "reset_task t = bump (t\<lparr>task_status := Ready, task_execution := None, task_result_reference := None,
     task_result_data := None, task_failure := None, task_output := None, task_pinned := False\<rparr>)"

definition repeat_from :: "string \<Rightarrow> run \<Rightarrow> unit run_op" where
  "repeat_from i r =
     (let affected = affected_steps (run_steps r) i in
      if list_ex (\<lambda>t. task_step_id t \<in> set affected \<and>
            (has_status [Running, Uncertain] t \<or> task_lease_id t \<noteq> None)) (run_tasks r)
      then (Inl (InvalidRunData ''repeat would overwrite active or uncertain work''), r)
      else (Inr (), r\<lparr>
        run_attempts := run_attempts r @
          filter (\<lambda>t. task_step_id t \<in> set affected \<and> task_execution t \<noteq> None) (run_tasks r),
        run_tasks := map (\<lambda>t. if task_step_id t \<in> set affected then reset_task t else t) (run_tasks r),
        run_status := RunRunning\<rparr>))"

section \<open>Reviews and acceptance\<close>

definition review_rounds :: "run \<Rightarrow> string \<Rightarrow> nat" where
  "review_rounds r i =
     saturating_add
       (length (filter (\<lambda>t. task_step_id t = i \<and> has_status [Succeeded, AwaitingApproval] t)
          (run_attempts r))) 1"

definition review_limit_reached :: "run \<Rightarrow> string \<Rightarrow> review_rule \<Rightarrow> bool" where
  "review_limit_reached r i review =
     is_some_and (review_max_iterations review) (\<lambda>limit. review_rounds r i \<ge> unat limit)"

definition review_hold :: "run \<Rightarrow> string \<Rightarrow> review_rule \<Rightarrow> string option" where
  "review_hold r i review =
     (if review_limit_reached r i review then Some ''review-limit-reached''
      else if retries_pinned_step r (review_retry_from_step_id review) then Some REVIEW_RETRY_PINNED
      else None)"

definition set_status :: "task_status \<Rightarrow> task_record \<Rightarrow> task_record" where
  "set_status st t = t\<lparr>task_status := st\<rparr>"

definition set_failed :: "task_status \<Rightarrow> string \<Rightarrow> task_record \<Rightarrow> task_record" where
  "set_failed st code t = t\<lparr>task_status := st, task_failure := Some (failure_new code)\<rparr>"

definition review_verdict :: "review_rule \<Rightarrow> task_record \<Rightarrow> bool option" where
  "review_verdict review t =
     Option.bind (Option.bind (task_result_data t) (\<lambda>v. get_field v (review_field review))) as_bool"

definition repeated_verdict :: "run \<Rightarrow> string \<Rightarrow> nat \<Rightarrow> bool" where
  "repeated_verdict r i index =
     is_some_and (find (\<lambda>t. task_step_id t = i) (rev (run_attempts r)))
       (\<lambda>t. task_result_data t = task_result_data (run_tasks r ! index))"

definition review_rejected :: "run \<Rightarrow> nat \<Rightarrow> pipeline_step \<Rightarrow> review_rule \<Rightarrow> run" where
  "review_rejected r index step review =
     (case review_hold r (step_id step) review of
        Some code \<Rightarrow> update_task index (set_failed AwaitingApproval code) r
      | None \<Rightarrow>
          let repeated = repeated_verdict r (step_id step) index;
              r' = (case repeat_from (review_retry_from_step_id review) r of
                      (Inl _, r1) \<Rightarrow> update_task index (set_failed Failed ''review-retry-conflict'') r1
                    | (Inr _, r1) \<Rightarrow> r1)
          in if repeated then r'\<lparr>run_paused := True\<rparr> else r')"

definition apply_acceptance :: "run \<Rightarrow> nat \<Rightarrow> pipeline_step \<Rightarrow> run" where
  "apply_acceptance r index step =
     (if task_status (run_tasks r ! index) = Succeeded then
        (case step_review step of
           Some review \<Rightarrow>
             (case review_verdict review (run_tasks r ! index) of
                Some False \<Rightarrow> review_rejected r index step review
              | Some True \<Rightarrow>
                  if step_require_approval step
                  then update_task index (set_status AwaitingApproval) r else r
              | None \<Rightarrow> update_task index (set_failed Failed ''review-verdict-missing'') r)
         | None \<Rightarrow>
             if step_require_approval step
             then update_task index (set_status AwaitingApproval) r else r)
      else r)"

definition settle_result :: "nat \<Rightarrow> pipeline_step \<Rightarrow> run \<Rightarrow> run" where
  "settle_result index step r = refresh_status (advance_conditions (apply_acceptance r index step))"

end
