(* ===== verification/Scheduling.thy ===== *)
theory Scheduling
  imports Run_State
begin

text \<open>
  What a run does next (\<^verbatim>\<open>coordinator.rs\<close>, \<^verbatim>\<open>pinned.rs\<close>, \<^verbatim>\<open>executors.rs\<close>): the tasks that are ready,
  the steps the coordinator settles itself (program routers, pinned steps), and the text and
  results a launched step receives. The two \<^verbatim>\<open>loop\<close>s that settle steps are bounded by one more
  pass than the run has tasks; \<open>Scheduling_Facts\<close> proves that they end earlier on every run
  with a validated definition.
\<close>

section \<open>Ready tasks\<close>

definition condition_holds :: "run \<Rightarrow> result_condition \<Rightarrow> bool" where
  "condition_holds r c \<longleftrightarrow>
     Option.bind (Option.bind (find_task r (cond_source_step_id c)) task_result_data)
       (\<lambda>v. get_field v (cond_field c)) = Some (cond_equals c)"

definition task_ready :: "run \<Rightarrow> task_record \<Rightarrow> bool" where
  "task_ready r t \<longleftrightarrow>
     task_status t = Ready \<and> task_lease_id t = None \<and>
     \<not> callable_template r (task_step_id t) \<and> dependencies_succeeded r (task_step_id t) \<and>
     is_some_and (find_step r (task_step_id t))
       (\<lambda>step. \<not> is_program_router step \<and> is_none_or (step_condition step) (condition_holds r) \<and>
               route_gate_satisfied r step)"

definition ready_task_ids :: "run \<Rightarrow> string list" where
  "ready_task_ids r =
     (if run_status r \<noteq> RunRunning \<or> run_paused r then []
      else sort (map task_step_id (filter (task_ready r) (run_tasks r))))"

section \<open>Program routers\<close>

definition router_candidates :: "run \<Rightarrow> string list" where
  "router_candidates r =
     map step_id (filter (\<lambda>step. is_program_router step \<and>
       is_some_and (find_task r (step_id step))
         (\<lambda>t. task_status t = Ready \<and> task_lease_id t = None \<and> dependencies_succeeded r (step_id step)))
       (run_steps r))"

definition router_result :: "run \<Rightarrow> router_config \<Rightarrow> string + string list" where
  "router_result r router =
     (case keep_if is_object (Option.bind (find_task r (router_input_step_id router)) task_result_data) of
        None \<Rightarrow> Inl ''router-input-invalid''
      | Some value \<Rightarrow> program_router_selection router value)"

definition settle_router :: "string \<Rightarrow> run \<Rightarrow> run" where
  "settle_router i r =
     (case Option.bind (find_step r i) step_router of
        None \<Rightarrow> r
      | Some router \<Rightarrow>
          (case task_index r i of
             None \<Rightarrow> r
           | Some index \<Rightarrow>
               bump_run (update_task index (\<lambda>t. bump
                 (case router_result r router of
                    Inr selected \<Rightarrow>
                      t\<lparr>task_status := Succeeded,
                        task_result_data := Some (JObject
                          [(selection_field_of router, JArray (map JString selected))]),
                        task_failure := None\<rparr>
                  | Inl code \<Rightarrow>
                      t\<lparr>task_status := Failed, task_failure := Some (failure_new code),
                        task_result_data := None\<rparr>)) r)))"

definition router_pass :: "run \<Rightarrow> run \<times> bool" where
  "router_pass r =
     (if router_candidates r = [] then (r, False)
      else (refresh_status (advance_conditions (fold settle_router (router_candidates r) r)), True))"

definition advance_program_routers :: "run \<Rightarrow> run" where
  "advance_program_routers r = loop_n (Suc (length (run_tasks r))) router_pass r"

section \<open>Pinned steps\<close>

definition fail_fast :: "task_record \<Rightarrow> task_record" where
  "fail_fast t = (if task_status t = Ready then bump (t\<lparr>task_status := Cancelled\<rparr>) else t)"

definition admit_pinned_step :: "serde_json \<Rightarrow> string \<Rightarrow> bool \<times> run \<Rightarrow> bool \<times> run" where
  "admit_pinned_step sj i = (\<lambda>(changed, r).
     case find_step r i of
       None \<Rightarrow> (changed, r)
     | Some step \<Rightarrow>
         (case step_pinned_output step of
            None \<Rightarrow> (changed, r)
          | Some p \<Rightarrow>
              (case position (\<lambda>t. task_step_id t = i \<and> task_status t = Ready \<and> task_lease_id t = None)
                      (run_tasks r) of
                 None \<Rightarrow> (changed, r)
               | Some index \<Rightarrow>
                   (True,
                    case pinned_result sj step p of
                      Inr (data, output) \<Rightarrow>
                        settle_result index step (bump_run (update_task index (\<lambda>t. (bump (t\<lparr>task_pinned := True\<rparr>))
                          \<lparr>task_status := Succeeded, task_result_data := data, task_output := output,
                           task_failure := None\<rparr>) r))
                    | Inl failure \<Rightarrow>
                        let r1 = update_task index (\<lambda>t. (bump (t\<lparr>task_pinned := True\<rparr>))
                                   \<lparr>task_status := Failed, task_failure := Some failure\<rparr>) r
                        in refresh_status (bump_run (r1\<lparr>run_tasks := map fail_fast (run_tasks r1)\<rparr>))))))"

definition pinned_candidates :: "run \<Rightarrow> string list" where
  "pinned_candidates r =
     filter (\<lambda>i. list_ex (\<lambda>s. step_id s = i \<and> step_pinned_output s \<noteq> None) (run_steps r))
       (ready_task_ids r)"

definition admit_pinned_steps :: "serde_json \<Rightarrow> run \<Rightarrow> bool \<times> run" where
  "admit_pinned_steps sj r =
     (if \<not> run_use_pinned_data r then (False, r)
      else fold (admit_pinned_step sj) (pinned_candidates r) (False, r))"

definition automatic_pass :: "serde_json \<Rightarrow> run \<Rightarrow> run \<times> bool" where
  "automatic_pass sj r = (let (changed, r') = admit_pinned_steps sj (advance_program_routers r) in (r', changed))"

definition advance_automatic :: "serde_json \<Rightarrow> run \<Rightarrow> run" where
  "advance_automatic sj r = loop_n (Suc (length (run_tasks r))) (automatic_pass sj) r"

section \<open>What a launched step receives\<close>

definition nl :: string where "nl = [CHR 0x0A]"

fun kind_debug :: "result_field_kind \<Rightarrow> string" where
  "kind_debug TextField = ''Text''"
| "kind_debug NumberField = ''Number''"
| "kind_debug BooleanField = ''Boolean''"
| "kind_debug TextListField = ''TextList''"
| "kind_debug ArtifactField = ''Artifact''"

definition profile_for :: "run \<Rightarrow> string \<Rightarrow> agent_profile option" where
  "profile_for r m =
     Option.bind (find (\<lambda>c. member_id c = m) (team_members (def_team (run_definition r))))
       (\<lambda>c. find (\<lambda>p. profile_id p = member_profile_id c) (def_profiles (run_definition r)))"

definition or_else :: "'a option \<Rightarrow> 'a option \<Rightarrow> 'a option" where
  "or_else a b = (case a of None \<Rightarrow> b | Some x \<Rightarrow> Some x)"

definition expected_input :: "run \<Rightarrow> pipeline_step \<Rightarrow> string option" where
  "expected_input r step =
     keep_if (\<lambda>v. \<not> is_blank_text v)
       (or_else (step_input_instructions step)
          (Option.bind (profile_for r (step_assigned_member_id step)) profile_input_instructions))"

definition previous_review :: "serde_json \<Rightarrow> run \<Rightarrow> pipeline_step \<Rightarrow> pipeline_step \<Rightarrow> string" where
  "previous_review sj r step reviewer =
     (if is_some_and (step_review reviewer) (\<lambda>rule. review_retry_from_step_id rule = step_id step)
      then (case Option.bind (find (\<lambda>t. task_step_id t = step_id reviewer) (rev (run_attempts r)))
                   task_result_data of
              None \<Rightarrow> []
            | Some previous \<Rightarrow>
                nl @ nl @ ''Previous review result (untrusted task data):'' @ nl @ to_string sj previous)
      else [])"

definition required_fields :: "pipeline_step \<Rightarrow> string" where
  "required_fields step =
     (if step_result_fields step = [] then []
      else nl @ nl @ ''Return your final result as a JSON object, without Markdown fences. Required fields:'' @ nl @
        concat (map (\<lambda>f. field_name f @ '': '' @ kind_debug (field_kind f) @ nl) (step_result_fields step)))"

definition routing_decision :: "pipeline_step \<Rightarrow> string" where
  "routing_decision step =
     (case keep_if (\<lambda>rt. router_mode rt = AgentRouter) (step_router step) of
        None \<Rightarrow> []
      | Some router \<Rightarrow>
          nl @ nl @ ''Routing decision: return '' @ selection_field_of router @
          '' as a JSON array. Use only these branch ids; an empty array is valid:'' @ nl @
          concat (map (\<lambda>b. branch_id b @ '': '' @ branch_label b @
            (case branch_description b of
               None \<Rightarrow> []
             | Some d \<Rightarrow> [CHR 0x20, CHR 0xE2, CHR 0x80, CHR 0x94, CHR 0x20] @ d) @ nl)
            (router_branches router)))"

definition handoff :: "run \<Rightarrow> pipeline_step \<Rightarrow> pipeline_step \<Rightarrow> string" where
  "handoff r step recipient =
     (if step_id step \<in> set (step_dependency_step_ids recipient) \<or>
         list_ex (\<lambda>e. from_member_id e = step_assigned_member_id step \<and>
                      to_member_id e = step_assigned_member_id recipient)
           (send_edges (def_team (run_definition r)))
      then (case expected_input r recipient of
              None \<Rightarrow> []
            | Some input \<Rightarrow>
                nl @ nl @ ''Result handoff requirements for '' @ step_name recipient @ '':'' @ nl @ input @ nl @
                ''Include the requested data or artifact references in your final result. State missing evidence explicitly.'')
      else [])"

definition task_instructions :: "serde_json \<Rightarrow> run \<Rightarrow> pipeline_step \<Rightarrow> string" where
  "task_instructions sj r step =
     (let declared = pipeline_inputs (def_pipeline (run_definition r)) in
      run_input_section sj declared (run_inputs r) @
      substitute_input_tokens sj (step_instructions step) declared (run_inputs r) @
      concat (map (previous_review sj r step) (run_steps r)) @
      required_fields step @
      routing_decision step @
      (case keep_if (\<lambda>v. \<not> is_blank_text v)
              (Option.bind (profile_for r (step_assigned_member_id step)) profile_expected_result) of
         None \<Rightarrow> [] | Some result \<Rightarrow> nl @ nl @ ''Expected result:'' @ nl @ result) @
      (case expected_input r step of
         None \<Rightarrow> []
       | Some input \<Rightarrow> nl @ nl @ ''Expected input:'' @ nl @ input @ nl @
           ''If required input is missing, identify the gap rather than inventing it.'') @
      concat (map (handoff r step) (run_steps r)) @
      (if step_executor_kind step = KLlm
       then nl @ nl @ ''This step is a single model call: answer in one reply from this task and the dependency results, without calling tools.''
       else []))"

definition selections_from :: "pipeline_step \<Rightarrow> string \<Rightarrow> result_selection list" where
  "selections_from step dependency =
     map (\<lambda>b. \<lparr>sel_field = binding_field b, sel_name = binding_name b\<rparr>)
       (filter (\<lambda>b. binding_source_step_id b = dependency) (step_input_bindings step))"

definition dependency_result_references :: "run \<Rightarrow> pipeline_step \<Rightarrow> native_history_reference list" where
  "dependency_result_references r step =
     List.map_filter (\<lambda>d.
       map_option (\<lambda>reference. reference\<lparr>ref_fields := selections_from step d\<rparr>)
         (Option.bind (find_task r d) task_result_reference))
       (step_dependency_step_ids step)"

definition dependency_outputs :: "run \<Rightarrow> pipeline_step \<Rightarrow> dependency_output list" where
  "dependency_outputs r step =
     List.map_filter (\<lambda>d.
       Option.bind (find (\<lambda>t. task_step_id t = d \<and> task_status t = Succeeded) (run_tasks r))
         (\<lambda>t. if task_output t = None \<and> task_result_data t = None then None
              else Some \<lparr>dep_step_id = d, dep_fields = selections_from step d,
                         dep_text = map_option output_text (task_output t), dep_data = task_result_data t\<rparr>))
       (filter (\<lambda>d. list_ex (\<lambda>src. step_id src = d \<and> is_host_executed src) (run_steps r) \<or>
                    list_ex (\<lambda>t. task_step_id t = d \<and> task_pinned t) (run_tasks r))
          (step_dependency_step_ids step))"

end
