(* ===== verification/Scheduling_Facts.thy ===== *)
theory Scheduling_Facts
  imports Scheduling
begin

text \<open>
  Facts about the scheduler: what the helpers leave unchanged, that skipping reaches a fixed
  point and touches only ready tasks, and that the coordinator's own steps settle within their
  bound: every pass that asks for another one uses up a ready task, and every change is counted
  in the run revision.
\<close>

section \<open>Frames\<close>

text \<open>Everything but the status, the pause flag, the attempts, the revision and the tasks' own
  progress.\<close>

definition frame_eq :: "run \<Rightarrow> run \<Rightarrow> bool" where
  "frame_eq r r' \<longleftrightarrow>
     run_definition r' = run_definition r \<and> run_id r' = run_id r \<and> run_inputs r' = run_inputs r \<and>
     run_trigger r' = run_trigger r \<and> run_schema_version r' = run_schema_version r \<and>
     run_initial_definition r' = run_initial_definition r \<and> run_messages r' = run_messages r \<and>
     run_agent_requests r' = run_agent_requests r \<and> run_use_pinned_data r' = run_use_pinned_data r \<and>
     map task_step_id (run_tasks r') = map task_step_id (run_tasks r)"

lemma frame_eq_refl [simp]: "frame_eq r r"
  by (simp add: frame_eq_def)

lemma frame_eq_trans: "frame_eq r s \<Longrightarrow> frame_eq s t \<Longrightarrow> frame_eq r t"
  by (simp add: frame_eq_def)

lemma bump_simps [simp]:
  "task_step_id (bump t) = task_step_id t" "task_lease_id (bump t) = task_lease_id t"
  "task_execution (bump t) = task_execution t" "task_result_data (bump t) = task_result_data t"
  "task_failure (bump t) = task_failure t" "task_output (bump t) = task_output t"
  "task_pinned (bump t) = task_pinned t" "task_result_reference (bump t) = task_result_reference t"
  "task_revision (bump t) = task_revision t + 1"
  by (simp_all add: bump_def)

lemma update_task_frame:
  "(\<And>t. task_step_id (f t) = task_step_id t) \<Longrightarrow> frame_eq r (update_task i f r)"
  by (simp add: frame_eq_def update_task_def map_upd_at)

lemma bump_run_frame [simp]: "frame_eq r (bump_run r)"
  by (simp add: frame_eq_def bump_run_def)

lemma refresh_status_frame [simp]: "frame_eq r (refresh_status r)"
  by (simp add: frame_eq_def refresh_status_def)

lemma map_tasks_frame:
  "(\<And>t. task_step_id (f t) = task_step_id t) \<Longrightarrow> frame_eq r (r\<lparr>run_tasks := map f (run_tasks r)\<rparr>)"
  by (simp add: frame_eq_def o_def)

lemma skip_pass_frame: "frame_eq r (skip_pass r)"
  unfolding skip_pass_def by (rule map_tasks_frame) simp

lemma advance_conditions_frame: "frame_eq r (advance_conditions r)"
proof (induction r rule: advance_conditions.induct)
  case (1 r)
  then show ?case
    using frame_eq_trans[OF skip_pass_frame] by (subst advance_conditions.simps) auto
qed

lemma run_revision_simps [simp]:
  "run_revision (update_task i f r) = run_revision r"
  "run_revision (bump_run r) = run_revision r + 1"
  "run_revision (refresh_status r) = run_revision r"
  "run_revision (skip_pass r) = run_revision r"
  by (simp_all add: update_task_def bump_run_def refresh_status_def skip_pass_def)

lemma advance_conditions_revision [simp]: "run_revision (advance_conditions r) = run_revision r"
  by (induction r rule: advance_conditions.induct) (subst advance_conditions.simps, simp)

lemma run_tasks_simps [simp]:
  "run_tasks (update_task i f r) = upd_at i f (run_tasks r)"
  "run_tasks (bump_run r) = run_tasks r"
  "run_tasks (refresh_status r) = run_tasks r"
  by (simp_all add: update_task_def bump_run_def refresh_status_def)

lemma run_definition_simps [simp]:
  "run_definition (update_task i f r) = run_definition r"
  "run_definition (bump_run r) = run_definition r"
  "run_definition (refresh_status r) = run_definition r"
  "run_definition (skip_pass r) = run_definition r"
  "run_definition (advance_conditions r) = run_definition r"
  using advance_conditions_frame[of r]
  by (simp_all add: update_task_def bump_run_def refresh_status_def skip_pass_def frame_eq_def)

lemma run_attempts_simps [simp]:
  "run_attempts (update_task i f r) = run_attempts r"
  "run_attempts (bump_run r) = run_attempts r"
  "run_attempts (refresh_status r) = run_attempts r"
  "run_attempts (skip_pass r) = run_attempts r"
  by (simp_all add: update_task_def bump_run_def refresh_status_def skip_pass_def)

lemma advance_conditions_attempts [simp]: "run_attempts (advance_conditions r) = run_attempts r"
  by (induction r rule: advance_conditions.induct) (subst advance_conditions.simps, simp)

lemma ready_count_simps [simp]:
  "ready_count (bump_run r) = ready_count r" "ready_count (refresh_status r) = ready_count r"
  by (simp_all add: ready_count_def)

lemma ready_count_le: "ready_count r \<le> length (run_tasks r)"
  by (simp add: ready_count_def)

section \<open>Skipping\<close>

text \<open>Skipping a task is the only thing a pass over the conditions does to it.\<close>

definition skips :: "task_record \<Rightarrow> task_record \<Rightarrow> bool" where
  "skips t t' \<longleftrightarrow> t' = t \<or>
     (task_status t = Ready \<and> task_lease_id t = None \<and> t' = bump (t\<lparr>task_status := Skipped\<rparr>))"

lemma skips_trans: "skips a b \<Longrightarrow> skips b c \<Longrightarrow> skips a c"
  by (auto simp: skips_def)

lemma skip_pass_skips:
  assumes "distinct (map task_step_id (run_tasks r))"
  shows "list_all2 skips (run_tasks r) (run_tasks (skip_pass r))"
proof -
  have "task_status t = Ready \<and> task_lease_id t = None"
    if t: "t \<in> set (run_tasks r)" and i: "task_step_id t \<in> set (skipped_ids r)" for t
  proof -
    from i obtain s where "should_skip r s" "step_id s = task_step_id t"
      by (auto simp: skipped_ids_def)
    moreover have "find_task r (task_step_id t) = Some t"
      unfolding find_task_def by (rule find_unique[OF assms t])
    ultimately show ?thesis by (auto simp: should_skip_def split: if_splits)
  qed
  then show ?thesis
    by (auto simp: skip_pass_def skips_def list_all2_conv_all_nth)
qed

lemma advance_conditions_skips:
  "distinct (map task_step_id (run_tasks r)) \<Longrightarrow>
   list_all2 skips (run_tasks r) (run_tasks (advance_conditions r))"
proof (induction r rule: advance_conditions.induct)
  case (1 r)
  show ?case
  proof (cases "skipped_ids r = []")
    case True
    then show ?thesis
      by (subst advance_conditions.simps) (simp add: list_all2_conv_all_nth skips_def)
  next
    case False
    have d: "distinct (map task_step_id (run_tasks (skip_pass r)))"
      using 1(2) skip_pass_frame[of r] by (simp add: frame_eq_def)
    have "list_all2 skips (run_tasks r) (run_tasks (advance_conditions (skip_pass r)))"
      by (rule list_all2_trans[OF _ skip_pass_skips[OF 1(2)] 1(1)[OF False d]]) (rule skips_trans)
    with False show ?thesis by (subst advance_conditions.simps) simp
  qed
qed

lemma advance_conditions_fixed: "skipped_ids (advance_conditions r) = []"
proof (induction r rule: advance_conditions.induct)
  case (1 r)
  then show ?case by (subst advance_conditions.simps) auto
qed

lemma ready_count_advance: "ready_count (advance_conditions r) \<le> ready_count r"
proof (induction r rule: advance_conditions.induct)
  case (1 r)
  then show ?case
    using ready_count_skip_pass[of r] by (subst advance_conditions.simps) auto
qed

section \<open>Finding tasks after an update\<close>

lemma find_upd_other:
  assumes "\<And>x. key (f x) = key x" "k < length xs \<Longrightarrow> key (xs ! k) \<noteq> j"
  shows "find (\<lambda>x. key x = j) (upd_at k f xs) = find (\<lambda>x. key x = j) xs"
  using assms(2)
proof (induction xs arbitrary: k)
  case (Cons x xs)
  show ?case
  proof (cases k)
    case 0
    with Cons.prems show ?thesis by (simp add: upd_at_def assms(1))
  next
    case (Suc m)
    then have "upd_at k f (x # xs) = x # upd_at m f xs" by (simp add: upd_at_def)
    with Cons.IH[of m] Cons.prems Suc show ?thesis by simp
  qed
qed (simp add: upd_at_def)

lemma task_index_Some:
  assumes "task_index r i = Some k"
  shows "k < length (run_tasks r)" "task_step_id (run_tasks r ! k) = i"
    "find_task r i = Some (run_tasks r ! k)"
  using position_Some[OF assms[unfolded task_index_def]] assms
  by (auto simp: find_task_def position_find task_index_def)

lemma task_index_ex: "find_task r i \<noteq> None \<longleftrightarrow> (\<exists>k. task_index r i = Some k)"
  by (simp add: find_task_def position_find task_index_def del: position_None)

lemma find_task_update_other:
  assumes "task_index r i = Some k" "\<And>t. task_step_id (f t) = task_step_id t" "j \<noteq> i"
  shows "find_task (update_task k f r) j = find_task r j"
  unfolding find_task_def using task_index_Some[OF assms(1)] assms(2,3)
  by (simp add: find_upd_other)

lemma find_step_cong: "run_definition r' = run_definition r \<Longrightarrow> find_step r' i = find_step r i"
  by (simp add: find_step_def)

lemma find_step_unique:
  assumes "distinct (map step_id (run_steps r))" "s \<in> set (run_steps r)"
  shows "find_step r (step_id s) = Some s"
  unfolding find_step_def by (rule find_unique[OF assms])

lemma ready_count_update:
  assumes "k < length (run_tasks r)" "task_status (run_tasks r ! k) = Ready"
    "task_status (f (run_tasks r ! k)) \<noteq> Ready"
  shows "Suc (ready_count (update_task k f r)) \<le> ready_count r"
  unfolding ready_count_def Suc_le_eq using assms
  by (intro length_filter_less) (auto simp: nth_upd_at split: if_splits)

section \<open>Progress\<close>

text \<open>\<open>k\<close> settled steps: as many ready tasks are used up and the run revision moved by \<open>k\<close>;
  without one the run is the same.\<close>

definition progress :: "run \<Rightarrow> run \<Rightarrow> nat \<Rightarrow> bool" where
  "progress r r' k \<longleftrightarrow>
     frame_eq r r' \<and> run_revision r' = run_revision r + of_nat k \<and>
     k + ready_count r' \<le> ready_count r \<and> (k = 0 \<longrightarrow> r' = r)"

lemma progress_refl [simp]: "progress r r 0"
  by (simp add: progress_def)

lemma progress_trans: "progress r s k \<Longrightarrow> progress s t m \<Longrightarrow> progress r t (k + m)"
  by (auto simp: progress_def frame_eq_def)

lemma progress_settle:
  assumes "progress r s k" "0 < k"
  shows "progress r (refresh_status (advance_conditions s)) k"
proof -
  have "frame_eq r (refresh_status (advance_conditions s))"
    using assms advance_conditions_frame[of s] refresh_status_frame frame_eq_trans
    unfolding progress_def by blast
  with assms ready_count_advance[of s] show ?thesis by (simp add: progress_def)
qed

lemma settle_router_progress:
  assumes "find_task r i = Some t" "task_status t = Ready" "Option.bind (find_step r i) step_router = Some rt"
  shows "progress r (settle_router i r) 1"
    and "j \<noteq> i \<Longrightarrow> find_task (settle_router i r) j = find_task r j"
proof -
  obtain k where k: "task_index r i = Some k" using assms(1) task_index_ex[of r i] by auto
  note K = task_index_Some[OF k]
  define f where "f = (\<lambda>t. bump
                 (case router_result r rt of
                    Inr selected \<Rightarrow>
                      t\<lparr>task_status := Succeeded,
                        task_result_data := Some (JObject
                          [(selection_field_of rt, JArray (map JString selected))]),
                        task_failure := None\<rparr>
                  | Inl code \<Rightarrow>
                      t\<lparr>task_status := Failed, task_failure := Some (failure_new code),
                        task_result_data := None\<rparr>))"
  have f: "task_step_id (f t) = task_step_id t" "task_status (f t) \<noteq> Ready" for t
    by (auto simp: f_def split: sum.splits)
  have eq: "settle_router i r = bump_run (update_task k f r)"
    using assms(3) k by (simp add: settle_router_def f_def)
  have "frame_eq r (bump_run (update_task k f r))"
    using update_task_frame[of f r k] f(1) bump_run_frame frame_eq_trans by blast
  moreover have "Suc (ready_count (update_task k f r)) \<le> ready_count r"
    using K assms(1,2) f(2) by (intro ready_count_update) auto
  ultimately show "progress r (settle_router i r) 1"
    unfolding eq progress_def by simp
  show "find_task (settle_router i r) j = find_task r j" if "j \<noteq> i"
    using find_task_update_other[OF k f(1) that] unfolding eq find_task_def by simp
qed

lemma fold_settle_router_progress:
  assumes "distinct cs"
    "\<forall>c\<in>set cs. (\<exists>t. find_task r c = Some t \<and> task_status t = Ready) \<and>
       (\<exists>rt. Option.bind (find_step r c) step_router = Some rt)"
  shows "progress r (fold settle_router cs r) (length cs)"
  using assms
proof (induction cs arbitrary: r)
  case (Cons c cs)
  then obtain t rt where c: "find_task r c = Some t" "task_status t = Ready"
    "Option.bind (find_step r c) step_router = Some rt" by auto
  note P = settle_router_progress(1)[OF c]
  have step: "find_step (settle_router c r) j = find_step r j" for j
    using P by (intro find_step_cong) (simp add: progress_def frame_eq_def)
  have task: "find_task (settle_router c r) j = find_task r j" if "j \<in> set cs" for j
    by (rule settle_router_progress(2)[OF c]) (use that Cons.prems(1) in auto)
  have "progress (settle_router c r) (fold settle_router cs (settle_router c r)) (length cs)"
    using Cons.IH[of "settle_router c r"] Cons.prems step task by auto
  from progress_trans[OF P this] show ?case by simp
qed simp

section \<open>Program routers\<close>

abbreviation steps_distinct :: "run \<Rightarrow> bool" where
  "steps_distinct r \<equiv> distinct (map step_id (run_steps r))"

lemma router_pass_progress:
  assumes "steps_distinct r" "router_pass r = (r', again)"
  shows "\<exists>k. progress r r' k \<and> (again \<longleftrightarrow> 0 < k)"
proof (cases "router_candidates r = []")
  case True
  with assms(2) show ?thesis by (auto simp: router_pass_def intro: exI[of _ 0])
next
  case False
  let ?cs = "router_candidates r"
  have "distinct ?cs"
    using assms(1) by (simp add: router_candidates_def distinct_map_filter)
  moreover have "(\<exists>t. find_task r c = Some t \<and> task_status t = Ready) \<and>
      (\<exists>rt. Option.bind (find_step r c) step_router = Some rt)" if c: "c \<in> set ?cs" for c
  proof -
    from c obtain s where s: "s \<in> set (run_steps r)" "step_id s = c" "is_program_router s"
      "is_some_and (find_task r c) (\<lambda>t. task_status t = Ready \<and> task_lease_id t = None \<and>
         dependencies_succeeded r c)"
      by (auto simp: router_candidates_def)
    have "find_step r c = Some s" using find_step_unique[OF assms(1) s(1)] s(2) by simp
    with s(3,4) show ?thesis
      by (auto simp: is_program_router_def is_some_and_def split: option.splits)
  qed
  ultimately have "progress r (fold settle_router ?cs r) (length ?cs)"
    by (intro fold_settle_router_progress) auto
  from progress_settle[OF this] False assms(2) show ?thesis
    by (auto simp: router_pass_def)
qed

lemma progress_frame: "progress r r' k \<Longrightarrow> frame_eq r r'"
  by (simp add: progress_def)

lemma frame_eq_steps: "frame_eq r r' \<Longrightarrow> run_steps r' = run_steps r"
  by (simp add: frame_eq_def)

interpretation routers: bounded_loop router_pass steps_distinct ready_count
proof
  show "steps_distinct s'" if "steps_distinct s" "router_pass s = (s', again)" for s s' again
    using router_pass_progress[OF that] that(1) frame_eq_steps progress_frame by metis
  show "ready_count s' < ready_count s" if "steps_distinct s" "router_pass s = (s', True)" for s s'
    using router_pass_progress[OF that] by (auto simp: progress_def)
qed

lemma advance_program_routers_progress:
  assumes "steps_distinct r"
  shows "\<exists>k. progress r (advance_program_routers r) k"
  unfolding advance_program_routers_def
proof (rule routers.keeps[OF assms])
  show "\<exists>k. progress r r k" by (rule exI[of _ 0]) simp
  show "\<exists>k. progress r s' k" if "steps_distinct s" "\<exists>k. progress r s k" "router_pass s = (s', again)"
    for s s' again
    using router_pass_progress[OF that(1,3)] that(2) progress_trans by blast
qed

text \<open>No program router is left that could be settled.\<close>

lemma advance_program_routers_done:
  assumes "steps_distinct r"
  shows "router_candidates (advance_program_routers r) = []"
proof -
  have "ready_count r < Suc (length (run_tasks r))" using ready_count_le[of r] by simp
  from routers.ends[OF assms this] show ?thesis
    by (auto simp: advance_program_routers_def router_pass_def split: if_splits)
qed

section \<open>Pinned steps\<close>

text \<open>What validation guarantees about the steps an automatic pass may settle.\<close>

definition settles :: "run \<Rightarrow> bool" where
  "settles r \<longleftrightarrow> steps_distinct r \<and>
     (\<forall>s\<in>set (run_steps r). step_pinned_output s \<noteq> None \<longrightarrow> step_review s = None)"

lemma settles_frame: "frame_eq r r' \<Longrightarrow> settles r \<Longrightarrow> settles r'"
  by (simp add: settles_def frame_eq_steps)

lemma validate_definition_settles:
  assumes "validate_definition sj (run_definition r) = Inr ()"
  shows "settles r"
proof -
  have g: "graph_ok (run_steps r)" using validate_definition_graph[OF assms] by blast
  have v: "validate_pipeline sj (run_definition r) = Inr ()"
    by (rule validate_definition_parts(1)[OF assms])
  have "validate_pipeline_pins sj (def_pipeline (run_definition r)) = Inr ()"
    by (rule validate_pipeline_parts[OF v]) (auto simp: validate_pipeline_declarations_def)
  then have "\<forall>s\<in>set (run_steps r). \<forall>p. step_pinned_output s = Some p \<longrightarrow>
      validate_pinned_output sj s p = Inr ()"
    unfolding validate_pipeline_pins_def using validate_pins_loop_ok by blast
  with g show ?thesis
    by (auto simp: settles_def graph_ok_def dest!: validate_pinned_output_ok)
qed

lemma apply_acceptance_no_review:
  assumes "step_review step = None"
  shows "apply_acceptance r k step =
    (if task_status (run_tasks r ! k) = Succeeded \<and> step_require_approval step
     then update_task k (set_status AwaitingApproval) r else r)"
  using assms by (simp add: apply_acceptance_def)

lemma update_update: "update_task k f (update_task k g r) = update_task k (f \<circ> g) r"
  by (simp add: update_task_def)

lemma update_bump_run: "update_task k f (bump_run r) = bump_run (update_task k f r)"
  by (simp add: update_task_def bump_run_def)

lemma bump_run_tasks: "(bump_run s)\<lparr>run_tasks := ts\<rparr> = bump_run (s\<lparr>run_tasks := ts\<rparr>)"
  by (cases s) (simp add: bump_run_def)

lemma ready_count_fail_fast: "ready_count (r\<lparr>run_tasks := map fail_fast (run_tasks r)\<rparr>) \<le> ready_count r"
  unfolding ready_count_def
  by (intro length_filter_le_nth) (auto simp: fail_fast_def split: if_splits)

lemma fail_fast_id [simp]: "task_step_id (fail_fast t) = task_step_id t"
  by (simp add: fail_fast_def)

text \<open>An update that makes one ready task terminal, then moves the revision.\<close>

lemma progress_update:
  assumes "k < length (run_tasks r)" "task_status (run_tasks r ! k) = Ready"
    "\<And>t. task_step_id (f t) = task_step_id t" "task_status (f (run_tasks r ! k)) \<noteq> Ready"
  shows "progress r (bump_run (update_task k f r)) 1"
proof -
  have "frame_eq r (bump_run (update_task k f r))"
    using update_task_frame[of f r k] assms(3) bump_run_frame frame_eq_trans by blast
  moreover have "Suc (ready_count (update_task k f r)) \<le> ready_count r"
    by (rule ready_count_update) (use assms in auto)
  ultimately show ?thesis by (simp add: progress_def)
qed

lemma progress_fail_fast:
  assumes "progress r s k" "0 < k"
  shows "progress r (refresh_status (s\<lparr>run_tasks := map fail_fast (run_tasks s)\<rparr>)) k"
proof -
  have "frame_eq s (s\<lparr>run_tasks := map fail_fast (run_tasks s)\<rparr>)"
    by (rule map_tasks_frame) simp
  then have "frame_eq r (refresh_status (s\<lparr>run_tasks := map fail_fast (run_tasks s)\<rparr>))"
    using progress_frame[OF assms(1)] frame_eq_trans refresh_status_frame by blast
  with assms ready_count_fail_fast[of s] show ?thesis by (simp add: progress_def)
qed

lemma admit_pinned_step_progress:
  assumes "settles r"
  shows "\<exists>k. progress r (snd (admit_pinned_step sj i (changed, r))) k \<and>
           (fst (admit_pinned_step sj i (changed, r)) \<longleftrightarrow> changed \<or> 0 < k)"
proof -
  let ?P = "\<lambda>t. task_step_id t = i \<and> task_status t = Ready \<and> task_lease_id t = None"
  consider "admit_pinned_step sj i (changed, r) = (changed, r)"
    | step p k where "find_step r i = Some step" "step_pinned_output step = Some p"
        "position ?P (run_tasks r) = Some k"
    by (cases "find_step r i"; cases "step_pinned_output (the (find_step r i))";
        cases "position ?P (run_tasks r)")
       (auto simp: admit_pinned_step_def simp del: position_None)
  then show ?thesis
  proof cases
    case 1
    then show ?thesis by (intro exI[of _ 0]) simp
  next
    case (2 step p k)
    note K = position_Some[OF 2(3)]
    have "step \<in> set (run_steps r)" using find_Some_set[OF 2(1)[unfolded find_step_def]] by simp
    with assms 2(2) have nr: "step_review step = None" by (auto simp: settles_def)
    show ?thesis
    proof (cases "pinned_result sj step p")
      case (Inl failure)
      let ?f = "\<lambda>t. (bump (t\<lparr>task_pinned := True\<rparr>))\<lparr>task_status := Failed, task_failure := Some failure\<rparr>"
      have "progress r (bump_run (update_task k ?f r)) 1"
        using K by (intro progress_update) auto
      from progress_fail_fast[OF this]
      have "progress r (refresh_status (bump_run ((update_task k ?f r)
          \<lparr>run_tasks := map fail_fast (run_tasks (update_task k ?f r))\<rparr>))) 1"
        by (simp add: bump_run_tasks)
      moreover have "admit_pinned_step sj i (changed, r) = (True, refresh_status (bump_run ((update_task k ?f r)
          \<lparr>run_tasks := map fail_fast (run_tasks (update_task k ?f r))\<rparr>)))"
        using 2 Inl by (simp add: admit_pinned_step_def Let_def)
      ultimately show ?thesis by (intro exI[of _ 1]) simp
    next
      case (Inr res)
      obtain data out where res: "res = (data, out)" by (cases res)
      let ?f = "\<lambda>t. (bump (t\<lparr>task_pinned := True\<rparr>))\<lparr>task_status := Succeeded, task_result_data := data,
          task_output := out, task_failure := None\<rparr>"
      let ?s = "bump_run (update_task k ?f r)"
      define g where "g = (if step_require_approval step then set_status AwaitingApproval \<circ> ?f else ?f)"
      have "apply_acceptance ?s k step = bump_run (update_task k g r)"
        using nr K by (auto simp: apply_acceptance_no_review update_bump_run update_update g_def)
      moreover have "progress r (bump_run (update_task k g r)) 1"
        using K by (intro progress_update) (auto simp: g_def set_status_def)
      ultimately have "progress r (settle_result k step ?s) 1"
        unfolding settle_result_def by (simp add: progress_settle)
      moreover have "admit_pinned_step sj i (changed, r) = (True, settle_result k step ?s)"
        using 2 Inr res by (simp add: admit_pinned_step_def)
      ultimately show ?thesis by (intro exI[of _ 1]) simp
    qed
  qed
qed

lemma fold_admit_progress:
  assumes "settles r" "fold (admit_pinned_step sj) cs (changed, r) = (changed', r')"
  shows "\<exists>k. progress r r' k \<and> (changed' \<longleftrightarrow> changed \<or> 0 < k)"
  using assms
proof (induction cs arbitrary: changed r)
  case Nil
  then show ?case by (intro exI[of _ 0]) simp
next
  case (Cons c cs)
  obtain ch1 r1 where one: "admit_pinned_step sj c (changed, r) = (ch1, r1)" by fastforce
  with admit_pinned_step_progress[OF Cons.prems(1), of sj c changed]
  obtain k where k: "progress r r1 k" "ch1 \<longleftrightarrow> changed \<or> 0 < k" by auto
  have "settles r1" using settles_frame[OF progress_frame[OF k(1)] Cons.prems(1)] .
  from Cons.IH[OF this, of ch1] Cons.prems(2) one
  obtain m where "progress r1 r' m" "changed' \<longleftrightarrow> ch1 \<or> 0 < m" by auto
  with k progress_trans show ?case by (intro exI[of _ "k + m"]) blast
qed

lemma admit_pinned_steps_progress:
  assumes "settles r" "admit_pinned_steps sj r = (changed, r')"
  shows "\<exists>k. progress r r' k \<and> (changed \<longleftrightarrow> 0 < k)"
proof (cases "run_use_pinned_data r")
  case True
  with assms(2) have "fold (admit_pinned_step sj) (pinned_candidates r) (False, r) = (changed, r')"
    by (simp add: admit_pinned_steps_def)
  from fold_admit_progress[OF assms(1) this] show ?thesis by simp
next
  case False
  with assms(2) show ?thesis by (intro exI[of _ 0]) (simp add: admit_pinned_steps_def)
qed

lemma automatic_pass_progress:
  assumes "settles r" "automatic_pass sj r = (r', again)"
  shows "\<exists>k m. progress r (advance_program_routers r) k \<and>
            progress (advance_program_routers r) r' m \<and> (again \<longleftrightarrow> 0 < m)"
proof -
  have d: "steps_distinct r" using assms(1) by (simp add: settles_def)
  from advance_program_routers_progress[OF d] obtain k where
    k: "progress r (advance_program_routers r) k" by blast
  have "settles (advance_program_routers r)"
    using settles_frame[OF progress_frame[OF k] assms(1)] .
  from admit_pinned_steps_progress[OF this, of sj again r'] assms(2) k show ?thesis
    by (auto simp: automatic_pass_def split: prod.splits)
qed

interpretation automatic: bounded_loop "automatic_pass sj" settles ready_count for sj
proof
  show "settles s'" if "settles s" "automatic_pass sj s = (s', again)" for s s' again
    using automatic_pass_progress[OF that] that(1) settles_frame progress_frame by metis
  show "ready_count s' < ready_count s" if "settles s" "automatic_pass sj s = (s', True)" for s s'
    using automatic_pass_progress[OF that] by (auto simp: progress_def)
qed

lemma advance_automatic_progress:
  assumes "settles r"
  shows "\<exists>k. progress r (advance_automatic sj r) k"
  unfolding advance_automatic_def
proof (rule automatic.keeps[OF assms])
  show "\<exists>k. progress r r k" by (rule exI[of _ 0]) simp
  show "\<exists>k. progress r s' k" if "settles s" "\<exists>k. progress r s k" "automatic_pass sj s = (s', again)"
    for s s' again
    using automatic_pass_progress[OF that(1,3)] that(2) progress_trans by blast
qed

section \<open>Ready tasks\<close>

lemma ready_task_ids_mem:
  "i \<in> set (ready_task_ids r) \<longleftrightarrow>
   run_status r = RunRunning \<and> \<not> run_paused r \<and>
   (\<exists>t\<in>set (run_tasks r). task_step_id t = i \<and> task_ready r t)"
  by (auto simp: ready_task_ids_def)

lemma ready_task_ids_sorted: "sorted (ready_task_ids r)"
  by (simp add: ready_task_ids_def)

lemma ready_task_ids_distinct:
  "distinct (map task_step_id (run_tasks r)) \<Longrightarrow> distinct (ready_task_ids r)"
  by (simp add: ready_task_ids_def distinct_map_filter)

text \<open>A ready pinned step is admitted by the very next pass.\<close>

lemma admit_first_candidate:
  assumes "settles r" "i \<in> set (pinned_candidates r)"
  shows "fst (admit_pinned_step sj i (changed, r))"
proof -
  let ?P = "\<lambda>t. task_step_id t = i \<and> task_status t = Ready \<and> task_lease_id t = None"
  from assms(2) obtain s t where s: "s \<in> set (run_steps r)" "step_id s = i" "step_pinned_output s \<noteq> None"
    and t: "t \<in> set (run_tasks r)" "task_step_id t = i" "task_ready r t"
    by (auto simp: pinned_candidates_def ready_task_ids_mem list_ex_iff)
  have "find_step r i = Some s"
    using find_step_unique[of r s] s assms(1) by (simp add: settles_def)
  moreover have "\<exists>k. position ?P (run_tasks r) = Some k"
    using t by (cases "position ?P (run_tasks r)") (auto simp: task_ready_def)
  ultimately show ?thesis using s(3) by (auto simp: admit_pinned_step_def)
qed

lemma fold_admit_changed: "fst (fold (admit_pinned_step sj) cs (True, r))"
proof (induction cs arbitrary: r)
  case (Cons c cs)
  have "fst (admit_pinned_step sj c (True, r))"
    by (auto simp: admit_pinned_step_def split: option.splits)
  with Cons show ?case by (cases "admit_pinned_step sj c (True, r)") auto
qed simp

lemma admit_none_left:
  assumes "settles r" "run_use_pinned_data r" "admit_pinned_steps sj r = (False, r')"
  shows "pinned_candidates r = [] \<and> r' = r"
proof (cases "pinned_candidates r")
  case Nil
  with assms show ?thesis by (simp add: admit_pinned_steps_def)
next
  case (Cons c cs)
  then have "fst (admit_pinned_step sj c (False, r))"
    using admit_first_candidate[OF assms(1)] by simp
  then have "fst (admit_pinned_steps sj r)"
    using assms(2) Cons fold_admit_changed
    by (cases "admit_pinned_step sj c (False, r)") (auto simp: admit_pinned_steps_def)
  with assms(3) show ?thesis by simp
qed

text \<open>The automatic loop ends with nothing left to settle.\<close>

lemma advance_automatic_done:
  assumes "settles r"
  shows "router_candidates (advance_automatic sj r) = [] \<and>
         (run_use_pinned_data r \<longrightarrow> pinned_candidates (advance_automatic sj r) = [])"
proof -
  have "ready_count r < Suc (length (run_tasks r))" using ready_count_le[of r] by simp
  from automatic.ends[OF assms this, of sj] obtain s0 where
    s0: "settles s0" "automatic_pass sj s0 = (advance_automatic sj r, False)"
    by (auto simp: advance_automatic_def)
  let ?s = "advance_program_routers s0"
  have adm: "admit_pinned_steps sj ?s = (False, advance_automatic sj r)"
    using s0(2) by (auto simp: automatic_pass_def split: prod.splits)
  obtain k m where k: "progress s0 ?s k" and m: "progress ?s (advance_automatic sj r) m" "m = 0"
    using automatic_pass_progress[OF s0] by auto
  then have eq: "advance_automatic sj r = ?s" by (simp add: progress_def)
  have "router_candidates ?s = []"
    using advance_program_routers_done s0(1) by (simp add: settles_def)
  moreover have "run_use_pinned_data ?s = run_use_pinned_data r"
    using advance_automatic_progress[OF assms, of sj] eq by (auto simp: progress_def frame_eq_def)
  moreover have "settles ?s" using settles_frame[OF progress_frame[OF k] s0(1)] .
  ultimately show ?thesis using admit_none_left[of ?s sj] adm eq by auto
qed

end
