(* ===== verification/Coordinator.thy ===== *)
theory Coordinator
  imports Scheduling
begin

text \<open>
  The transitions of a run (\<^verbatim>\<open>coordinator.rs\<close>, and \<^verbatim>\<open>cancel_task\<close>, \<^verbatim>\<open>control_flow\<close> and
  \<^verbatim>\<open>complete_checked_task\<close> of \<^verbatim>\<open>flow.rs\<close>). Every operation takes the run last and returns its
  result together with the run it leaves behind; \<open>require\<close> is the question mark operator on a
  check that does not touch the run.
\<close>

definition require :: "coordinator_error + 'a \<Rightarrow> run \<Rightarrow> ('a \<Rightarrow> 'b run_op) \<Rightarrow> 'b run_op" where
  "require m r k = (case m of Inl e \<Rightarrow> (Inl e, r) | Inr a \<Rightarrow> k a)"

lemma require_simps [simp]:
  "require (Inl e) r k = (Inl e, r)" "require (Inr a) r k = k a"
  by (simp_all add: require_def)

section \<open>Starting a run\<close>

definition new_task :: "string \<Rightarrow> task_record" where
  "new_task i = \<lparr>task_result_data = None, task_step_id = i, task_status = Ready, task_revision = 0,
     task_lease_id = None, task_execution = None, task_result_reference = None, task_failure = None,
     task_output = None, task_pinned = False\<rparr>"

definition without_pins :: "run_definition_snapshot \<Rightarrow> run_definition_snapshot" where
  "without_pins d =
     d\<lparr>def_pipeline := (def_pipeline d)\<lparr>pipeline_steps :=
        map (step_pinned_output_update (\<lambda>_. None)) (pipeline_steps (def_pipeline d))\<rparr>\<rparr>"

definition new_started_run ::
  "serde_json \<Rightarrow> string \<Rightarrow> run_definition_snapshot \<Rightarrow> json_map \<Rightarrow> run_trigger option \<Rightarrow> bool \<Rightarrow>
   coordinator_error + run" where
  "new_started_run sj rid definition inputs trigger use_pinned_data =
     (if use_pinned_data \<and>
         \<not> list_ex (\<lambda>s. step_pinned_output s \<noteq> None) (pipeline_steps (def_pipeline definition))
      then Inl NoPinnedData
      else
        let definition = (if use_pinned_data then definition else without_pins definition) in
        and_then (map_err InvalidDefinition (validate_definition sj definition)) (\<lambda>_.
        if is_blank_text rid then Inl (EmptyIdentifier ''run'')
        else if is_some_and trigger (\<lambda>t. \<not> trigger_is_valid t)
          then Inl (InvalidRunData ''run trigger is invalid'')
        else and_then (map_err InvalidRunInput
                 (resolve_run_inputs (pipeline_inputs (def_pipeline definition)) inputs))
          (\<lambda>resolved. Inr \<lparr>run_inputs = resolved, run_trigger = trigger, run_paused = False,
             run_attempts = [], run_schema_version = ORCHESTRATION_SCHEMA_VERSION, run_id = rid,
             run_definition = definition, run_initial_definition = None, run_status = RunRunning,
             run_revision = 0,
             run_tasks = map (\<lambda>s. new_task (step_id s)) (pipeline_steps (def_pipeline definition)),
             run_messages = [], run_agent_requests = [], run_use_pinned_data = use_pinned_data\<rparr>)))"

definition new_run_with_options where
  "new_run_with_options sj rid definition inputs use_pinned_data =
     new_started_run sj rid definition inputs None use_pinned_data"

definition new_triggered_run where
  "new_triggered_run sj rid definition inputs trigger =
     new_started_run sj rid definition inputs trigger False"

definition new_run_with_inputs where
  "new_run_with_inputs sj rid definition inputs =
     new_run_with_options sj rid definition inputs False"

definition new_run where
  "new_run sj rid definition = new_run_with_inputs sj rid definition []"

section \<open>Leasing and dispatching\<close>

definition step_launch :: "run \<Rightarrow> pipeline_step \<Rightarrow> coordinator_error + team_member \<times> agent_profile" where
  "step_launch r step =
     (case find (\<lambda>m. member_id m = step_assigned_member_id step) (team_members (def_team (run_definition r))) of
        None \<Rightarrow> Inl (InvalidRunData ''step has no assigned member'')
      | Some member \<Rightarrow>
          (case find (\<lambda>p. profile_id p = member_profile_id member) (def_profiles (run_definition r)) of
             None \<Rightarrow> Inl (InvalidRunData ''member has no profile'')
           | Some profile \<Rightarrow> Inr (member, profile)))"

definition native_step :: "run \<Rightarrow> string \<Rightarrow> coordinator_error + pipeline_step" where
  "native_step r i =
     (case find_step r i of
        None \<Rightarrow> Inl (InvalidRunData ''task has no pipeline step'')
      | Some step \<Rightarrow> if is_host_executed step then Inl (ExecutorMismatch i) else Inr step)"

definition index_or :: "coordinator_error \<Rightarrow> run \<Rightarrow> string \<Rightarrow> coordinator_error + nat" where
  "index_or e r i = (case task_index r i of None \<Rightarrow> Inl e | Some k \<Rightarrow> Inr k)"

definition spawn_lease ::
  "serde_json \<Rightarrow> run \<Rightarrow> pipeline_step \<Rightarrow> team_member \<Rightarrow> agent_profile \<Rightarrow> string \<Rightarrow> revision \<Rightarrow> revision \<Rightarrow>
   controlled_spawn_lease" where
  "spawn_lease sj r step member profile lease_id run_rev task_rev =
     \<lparr>lease_run_id = run_id r, lease_run_revision = run_rev, lease_task_revision = task_rev,
      lease_lease_id = lease_id, lease_step_id = step_id step, lease_member_id = member_id member,
      lease_profile = profile, lease_task_instructions = task_instructions sj r step,
      lease_dependency_result_references = dependency_result_references r step,
      lease_dependency_outputs = dependency_outputs r step\<rparr>"

definition launch_of ::
  "serde_json \<Rightarrow> run \<Rightarrow> pipeline_step \<Rightarrow> team_member \<Rightarrow> agent_profile \<Rightarrow> native_execution_reference \<Rightarrow>
   revision \<Rightarrow> revision \<Rightarrow> launch_request" where
  "launch_of sj r step member profile execution run_rev task_rev =
     \<lparr>launch_run_id = run_id r, launch_run_revision = run_rev, launch_task_revision = task_rev,
      launch_step_id = step_id step, launch_member_id = member_id member, launch_profile = profile,
      launch_task_instructions = task_instructions sj r step,
      launch_dependency_result_references = dependency_result_references r step,
      launch_dependency_outputs = dependency_outputs r step, launch_execution = execution\<rparr>"

definition take_lease :: "string \<Rightarrow> nat \<Rightarrow> run \<Rightarrow> run" where
  "take_lease lease_id index r =
     bump_run (update_task index (\<lambda>t. bump (t\<lparr>task_lease_id := Some lease_id\<rparr>)) r)"

definition start_execution :: "native_execution_reference \<Rightarrow> nat \<Rightarrow> run \<Rightarrow> run" where
  "start_execution execution index r =
     bump_run (update_task index (\<lambda>t. bump (t\<lparr>task_status := Running, task_lease_id := None,
       task_execution := Some execution\<rparr>)) r)"

definition lease_next_task ::
  "serde_json \<Rightarrow> revision \<Rightarrow> string \<Rightarrow> run \<Rightarrow> controlled_spawn_lease option run_op" where
  "lease_next_task sj expected lease_id r =
     require (check_run_revision r expected) r (\<lambda>_.
     require (ensure_active r) r (\<lambda>_.
     if is_blank_text lease_id then (Inl (EmptyIdentifier ''lease''), r)
     else
     let r = advance_automatic sj r in
     case ready_task_ids r of
       [] \<Rightarrow> (Inr None, r)
     | i # _ \<Rightarrow>
         require (native_step r i) r (\<lambda>step.
         require (step_launch r step) r (\<lambda>(member, profile).
         require (index_or (InvalidRunData ''pipeline step has no task'') r i) r (\<lambda>index.
         let r' = take_lease lease_id index r in
         (Inr (Some (spawn_lease sj r step member profile lease_id (run_revision r')
                (task_revision (run_tasks r' ! index)))), r'))))))"

definition lease_controlled_spawn ::
  "serde_json \<Rightarrow> revision \<Rightarrow> string \<Rightarrow> string \<Rightarrow> string \<Rightarrow> run \<Rightarrow> controlled_spawn_lease run_op" where
  "lease_controlled_spawn sj expected actor i lease_id r =
     require (check_run_revision r expected) r (\<lambda>_.
     require (ensure_active r) r (\<lambda>_.
     if run_paused r then (Inl RunPaused, r)
     else if is_blank_text lease_id then (Inl (EmptyIdentifier ''lease''), r)
     else case find (\<lambda>m. member_id m = actor) (team_members (def_team (run_definition r))) of
       None \<Rightarrow> (Inl (Authorization (UnknownMember actor)), r)
     | Some actor_member \<Rightarrow>
     (case find_step r i of
        None \<Rightarrow> (Inl (UnknownTask i), r)
      | Some step \<Rightarrow>
     if step_executor_kind step \<noteq> KAgent then (Inl (Authorization (StepNotSpawnable i)), r)
     else if admitted_from_pin r step then (Inl (Authorization (StepPinned i)), r)
     else case find (\<lambda>m. member_id m = step_assigned_member_id step)
                 (team_members (def_team (run_definition r))) of
       None \<Rightarrow> (Inl (InvalidRunData ''step has no assigned member''), r)
     | Some target_member \<Rightarrow>
     require (map_err Authorization (authorize_spawn (run_definition r)
                (member_profile_id actor_member) (member_profile_id target_member))) r (\<lambda>profile.
     require (index_or (InvalidRunData ''pipeline step has no task'') r i) r (\<lambda>index.
     let t = run_tasks r ! index in
     if task_status t \<noteq> Ready then (Inl (InvalidTaskStatus i Ready (task_status t)), r)
     else case task_lease_id t of
       Some existing \<Rightarrow>
         if existing = lease_id
         then (Inr (spawn_lease sj r step target_member profile lease_id (run_revision r)
                  (task_revision t)), r)
         else (Inl (LeaseConflict i), r)
     | None \<Rightarrow>
         if \<not> dependencies_succeeded r i then (Inl (DependenciesNotReady i), r)
         else
         let r' = take_lease lease_id index r in
         (Inr (spawn_lease sj r step target_member profile lease_id (run_revision r')
            (task_revision (run_tasks r' ! index))), r'))))))"

definition dispatch_leased_task ::
  "serde_json \<Rightarrow> string \<Rightarrow> revision \<Rightarrow> string \<Rightarrow> native_execution_reference \<Rightarrow> revision \<Rightarrow> run \<Rightarrow>
   launch_request run_op" where
  "dispatch_leased_task sj i task_rev lease_id execution expected r =
     require (check_run_revision r expected) r (\<lambda>_.
     require (ensure_active r) r (\<lambda>_.
     if is_blank_text (execution_id execution) then (Inl (EmptyIdentifier ''execution''), r)
     else
     require (index_or (UnknownTask i) r i) r (\<lambda>index.
     let t = run_tasks r ! index in
     require (check_revision ''task'' task_rev (task_revision t)) r (\<lambda>_.
     if task_status t \<noteq> Ready then (Inl (InvalidTaskStatus i Ready (task_status t)), r)
     else if task_lease_id t \<noteq> Some lease_id then (Inl (LeaseConflict i), r)
     else
     require (native_step r i) r (\<lambda>step.
     require (step_launch r step) r (\<lambda>(member, profile).
     let r' = start_execution execution index r in
     (Inr (launch_of sj r step member profile execution (run_revision r')
        (task_revision (run_tasks r' ! index))), r')))))))"

definition release_task_lease ::
  "string \<Rightarrow> revision \<Rightarrow> string \<Rightarrow> revision \<Rightarrow> run \<Rightarrow> unit run_op" where
  "release_task_lease i task_rev lease_id expected r =
     require (check_run_revision r expected) r (\<lambda>_.
     require (index_or (UnknownTask i) r i) r (\<lambda>index.
     let t = run_tasks r ! index in
     require (check_revision ''task'' task_rev (task_revision t)) r (\<lambda>_.
     if task_status t \<noteq> Ready \<or> task_lease_id t \<noteq> Some lease_id then (Inl (LeaseConflict i), r)
     else (Inr (), bump_run (update_task index (\<lambda>t. bump (t\<lparr>task_lease_id := None\<rparr>)) r)))))"

definition dispatch_next ::
  "serde_json \<Rightarrow> native_execution_reference \<Rightarrow> revision \<Rightarrow> run \<Rightarrow> launch_request option run_op" where
  "dispatch_next sj execution expected r =
     require (check_run_revision r expected) r (\<lambda>_.
     require (ensure_active r) r (\<lambda>_.
     if is_blank_text (execution_id execution) then (Inl (EmptyIdentifier ''execution''), r)
     else
     let r = advance_automatic sj r in
     case ready_task_ids r of
       [] \<Rightarrow> (Inr None, r)
     | i # _ \<Rightarrow>
         require (native_step r i) r (\<lambda>step.
         require (step_launch r step) r (\<lambda>(member, profile).
         require (index_or (InvalidRunData ''pipeline step has no task'') r i) r (\<lambda>index.
         let r' = start_execution execution index r in
         (Inr (Some (launch_of sj r step member profile execution (run_revision r')
                (task_revision (run_tasks r' ! index)))), r'))))))"

section \<open>Spawned agents\<close>

definition runs_profile :: "run_definition_snapshot \<Rightarrow> string \<Rightarrow> pipeline_step \<Rightarrow> bool" where
  "runs_profile d pid step =
     list_ex (\<lambda>m. member_id m = step_assigned_member_id step \<and> member_profile_id m = pid)
       (team_members (def_team d))"

text \<open>The send edges between the new member and one recipient.\<close>

definition spawn_edges :: "team_definition \<Rightarrow> string \<Rightarrow> string \<Rightarrow> string \<Rightarrow> directed_edge list" where
  "spawn_edges team actor new_id recipient =
     List.map_filter (\<lambda>(from, to).
       if recipient = actor \<or>
          (if from = new_id then is_ok (authorize_send team actor recipient)
           else is_ok (authorize_send team recipient actor))
       then Some \<lparr>from_member_id = from, to_member_id = to\<rparr> else None)
       [(recipient, new_id), (new_id, recipient)]"

definition spawned_definition ::
  "run_definition_snapshot \<Rightarrow> string \<Rightarrow> string \<Rightarrow> string \<Rightarrow> string \<Rightarrow> string \<Rightarrow> run_definition_snapshot" where
  "spawned_definition d0 actor new_id pid name instructions =
     (let team0 = def_team d0;
          recipients = (if spawned_agents_join_team team0 then map member_id (team_members team0)
                        else [actor]);
          team = team0\<lparr>team_members := team_members team0 @ [\<lparr>member_id = new_id, member_profile_id = pid\<rparr>],
                       send_edges := send_edges team0 @ concat (map (spawn_edges team0 actor new_id) recipients),
                       observe_edges := observe_edges team0 @
                         [\<lparr>from_member_id = actor, to_member_id = new_id\<rparr>]\<rparr>;
          d = d0\<lparr>def_team := team\<rparr>;
          steps = pipeline_steps (def_pipeline d0);
          step = \<lparr>step_input_bindings = [], step_condition = None, step_route_gates = [],
                  step_router = None, step_review = None,
                  step_require_approval = list_ex (\<lambda>s. step_require_approval s \<and> runs_profile d pid s) steps,
                  step_result_fields = (case find (runs_profile d pid) steps of
                                          None \<Rightarrow> [] | Some s \<Rightarrow> step_result_fields s),
                  step_execution_mode = None, step_executor = None, step_pinned_output = None,
                  step_input_instructions =
                    find_map (\<lambda>s. if runs_profile d pid s then step_input_instructions s else None) steps,
                  step_id = new_id, step_name = name, step_assigned_member_id = new_id,
                  step_instructions = instructions, step_dependency_step_ids = []\<rparr>
      in d\<lparr>def_pipeline := (def_pipeline d)\<lparr>pipeline_steps := steps @ [step]\<rparr>\<rparr>)"

definition add_spawned_agent ::
  "serde_json \<Rightarrow> string \<Rightarrow> string \<Rightarrow> string \<Rightarrow> string \<Rightarrow> string \<Rightarrow> run \<Rightarrow> string run_op" where
  "add_spawned_agent sj actor_id rq pid name instructions r =
     require (ensure_active r) r (\<lambda>_.
     if run_paused r then (Inl RunPaused, r)
     else case find (\<lambda>m. member_id m = actor_id) (team_members (def_team (run_definition r))) of
       None \<Rightarrow> (Inl (Authorization (UnknownMember actor_id)), r)
     | Some actor \<Rightarrow>
     require (map_err Authorization (authorize_spawn (run_definition r) (member_profile_id actor) pid)) r (\<lambda>_.
     if is_blank_text name \<or> is_blank_text instructions \<or> is_blank_text rq
       then (Inl (EmptyIdentifier ''agent task''), r)
     else
     let new_id = ''agent-'' @ rq in
     if list_ex (\<lambda>s. step_id s = new_id) (run_steps r) then (Inl (AgentRequestConflict rq), r)
     else
     let d = spawned_definition (run_definition r) actor_id new_id pid name instructions in
     require (map_err InvalidDefinition (validate_definition sj d)) r (\<lambda>_.
     (Inr new_id, bump_run (r\<lparr>
        run_initial_definition := (case run_initial_definition r of
                                     None \<Rightarrow> Some (run_definition r) | Some d0 \<Rightarrow> Some d0),
        run_definition := d,
        run_tasks := run_tasks r @ [new_task new_id]\<rparr>)))))"

section \<open>Completion and rejection\<close>

definition record_outcome :: "completion_outcome \<Rightarrow> task_record \<Rightarrow> task_record" where
  "record_outcome outcome t =
     bump (case outcome of
             OutcomeSucceeded reference \<Rightarrow>
               t\<lparr>task_status := Succeeded, task_result_reference := reference\<rparr>
           | OutcomeFailed failure \<Rightarrow> t\<lparr>task_status := Failed, task_failure := Some failure\<rparr>)"

definition cancel_ready :: "run \<Rightarrow> run" where
  "cancel_ready r = r\<lparr>run_tasks := map fail_fast (run_tasks r)\<rparr>"

definition reference_check :: "native_history_reference option \<Rightarrow> coordinator_error + unit" where
  "reference_check reference =
     (case reference of
        None \<Rightarrow> Inr ()
      | Some rf \<Rightarrow> map_err InvalidDefinition (validate_history_reference rf))"

definition complete_task_transition ::
  "string \<Rightarrow> revision \<Rightarrow> string \<Rightarrow> completion_outcome \<Rightarrow> revision \<Rightarrow> run \<Rightarrow> unit run_op" where
  "complete_task_transition i task_rev exec outcome expected r =
     require (check_run_revision r expected) r (\<lambda>_.
     require (index_or (UnknownTask i) r i) r (\<lambda>index.
     let t = run_tasks r ! index in
     require (check_revision ''task'' task_rev (task_revision t)) r (\<lambda>_.
     if task_status t \<noteq> Running then (Inl (InvalidTaskStatus i Running (task_status t)), r)
     else if map_option execution_id (task_execution t) \<noteq> Some exec then (Inl (StaleExecution i), r)
     else
     require (case outcome of OutcomeSucceeded reference \<Rightarrow> reference_check reference
                            | OutcomeFailed _ \<Rightarrow> Inr ()) r (\<lambda>_.
     let r1 = update_task index (record_outcome outcome) r;
         r2 = (case outcome of OutcomeFailed _ \<Rightarrow> cancel_ready r1 | OutcomeSucceeded _ \<Rightarrow> r1)
     in (Inr (), refresh_status (bump_run r2))))))"

definition complete_task ::
  "string \<Rightarrow> revision \<Rightarrow> string \<Rightarrow> completion_outcome \<Rightarrow> revision \<Rightarrow> run \<Rightarrow> unit run_op" where
  "complete_task i task_rev exec outcome expected r =
     (if list_ex (\<lambda>s. step_id s = i \<and> is_host_executed s) (run_steps r)
      then (Inl (ExecutorMismatch i), r)
      else complete_task_transition i task_rev exec outcome expected r)"

definition reject_ready_task ::
  "string \<Rightarrow> revision \<Rightarrow> failure_record \<Rightarrow> revision \<Rightarrow> run \<Rightarrow> unit run_op" where
  "reject_ready_task i task_rev failure expected r =
     require (check_run_revision r expected) r (\<lambda>_.
     require (index_or (UnknownTask i) r i) r (\<lambda>index.
     let t = run_tasks r ! index in
     require (check_revision ''task'' task_rev (task_revision t)) r (\<lambda>_.
     if task_status t \<noteq> Ready \<or> task_lease_id t \<noteq> None
       then (Inl (InvalidTaskStatus i Ready (task_status t)), r)
     else (Inr (), refresh_status (bump_run (cancel_ready (update_task index
            (\<lambda>t. bump (t\<lparr>task_status := Failed, task_failure := Some failure\<rparr>)) r)))))))"

section \<open>Cancellation\<close>

definition cancel_requests :: "run \<Rightarrow> cancel_request list" where
  "cancel_requests r =
     sort_key cancel_step_id (List.map_filter (\<lambda>t.
       if task_status t = Running
       then map_option (\<lambda>e. \<lparr>cancel_run_id = run_id r, cancel_step_id = task_step_id t,
                              cancel_execution = e\<rparr>) (task_execution t)
       else None) (run_tasks r))"

definition cancellation_requests :: "revision \<Rightarrow> run \<Rightarrow> coordinator_error + cancel_request list" where
  "cancellation_requests expected r =
     and_then (check_run_revision r expected) (\<lambda>_.
     and_then (ensure_active r) (\<lambda>_. Inr (cancel_requests r)))"

definition cancel_active :: "task_record \<Rightarrow> task_record" where
  "cancel_active t =
     (if task_status t = Running then bump (t\<lparr>task_status := Cancelled\<rparr>)
      else if has_status [Ready, AwaitingApproval] t
        then bump (t\<lparr>task_lease_id := None, task_status := Cancelled\<rparr>)
      else t)"

definition cancel_run :: "revision \<Rightarrow> run \<Rightarrow> cancel_request list run_op" where
  "cancel_run expected r =
     require (check_run_revision r expected) r (\<lambda>_.
     require (ensure_active r) r (\<lambda>_.
     (Inr (cancel_requests r),
      bump_run (r\<lparr>run_tasks := map cancel_active (run_tasks r), run_status := RunCancelled\<rparr>))))"

text \<open>Steps that depend on a cancelled one, and the loop that cancels their ready tasks.\<close>

definition blocked_ids :: "run \<Rightarrow> string list" where
  "blocked_ids r =
     bs_collect (map step_id (filter (\<lambda>s.
       list_ex (\<lambda>d. list_ex (\<lambda>t. task_step_id t = d \<and> task_status t = Cancelled) (run_tasks r))
         (step_dependency_step_ids s)) (run_steps r)))"

definition is_blocked :: "run \<Rightarrow> task_record \<Rightarrow> bool" where
  "is_blocked r t \<longleftrightarrow> task_status t = Ready \<and> task_step_id t \<in> set (blocked_ids r)"

definition cancel_pass :: "run \<Rightarrow> run" where
  "cancel_pass r =
     r\<lparr>run_tasks := map (\<lambda>t. if is_blocked r t then bump (t\<lparr>task_status := Cancelled\<rparr>) else t) (run_tasks r)\<rparr>"

lemma ready_count_cancel_pass:
  assumes "list_ex (is_blocked r) (run_tasks r)"
  shows "ready_count (cancel_pass r) < ready_count r"
proof -
  obtain k where "k < length (run_tasks r)" "is_blocked r (run_tasks r ! k)"
    using assms by (auto simp: list_ex_iff in_set_conv_nth)
  then show ?thesis
    unfolding ready_count_def cancel_pass_def
    by (intro length_filter_less) (auto simp: is_blocked_def split: if_splits)
qed

function cancel_downstream :: "run \<Rightarrow> run" where
  "cancel_downstream r =
     (if list_ex (is_blocked r) (run_tasks r) then cancel_downstream (cancel_pass r) else r)"
  by pat_completeness auto
termination
  by (relation "measure ready_count") (auto simp: ready_count_cancel_pass)

declare cancel_downstream.simps [simp del]

definition cancel_task :: "string \<Rightarrow> revision \<Rightarrow> run \<Rightarrow> unit run_op" where
  "cancel_task i expected r =
     require (check_run_revision r expected) r (\<lambda>_.
     require (index_or (UnknownTask i) r i) r (\<lambda>index.
     if \<not> has_status [Ready, Running, AwaitingApproval] (run_tasks r ! index)
       then (Inl (InvalidRunData ''task is already terminal''), r)
     else (Inr (), refresh_status (bump_run (cancel_downstream (update_task index
            (\<lambda>t. bump (t\<lparr>task_status := Cancelled, task_lease_id := None\<rparr>)) r))))))"

section \<open>Uncertainty and restarts\<close>

definition mark_task_uncertain ::
  "string \<Rightarrow> revision \<Rightarrow> uncertainty_identity \<Rightarrow> revision \<Rightarrow> run \<Rightarrow> unit run_op" where
  "mark_task_uncertain i task_rev identity expected r =
     require (check_run_revision r expected) r (\<lambda>_.
     require (index_or (UnknownTask i) r i) r (\<lambda>index.
     let t = run_tasks r ! index in
     require (check_revision ''task'' task_rev (task_revision t)) r (\<lambda>_.
     if \<not> (case identity of
              ExecutionIdentity e \<Rightarrow> task_status t = Running \<and>
                is_some_and (task_execution t) (\<lambda>x. execution_id x = e)
            | LeaseIdentity l \<Rightarrow> task_status t = Ready \<and> task_lease_id t = Some l)
       then (Inl (StaleExecution i), r)
     else (Inr (), (bump_run (update_task index
            (\<lambda>t. bump (t\<lparr>task_status := Uncertain, task_lease_id := None\<rparr>)) r))
              \<lparr>run_status := RunUncertain\<rparr>))))"

definition interrupted_by_restart :: "run \<Rightarrow> task_record \<Rightarrow> bool" where
  "interrupted_by_restart r t =
     (case task_status t of
        Ready \<Rightarrow> task_lease_id t \<noteq> None
      | Running \<Rightarrow> task_execution t = None \<or>
          \<not> list_ex (\<lambda>s. step_id s = task_step_id t \<and> is_pipeline s) (run_steps r)
      | _ \<Rightarrow> False)"

definition needs_restore :: "run \<Rightarrow> bool" where
  "needs_restore r = list_ex (interrupted_by_restart r) (run_tasks r)"

definition restore :: "revision \<Rightarrow> run \<Rightarrow> unit run_op" where
  "restore expected r =
     require (check_run_revision r expected) r (\<lambda>_.
     let interrupted = bs_collect (map task_step_id (filter (interrupted_by_restart r) (run_tasks r)));
         changed = list_ex (\<lambda>t. task_step_id t \<in> set interrupted) (run_tasks r);
         r1 = r\<lparr>run_tasks := map (\<lambda>t. if task_step_id t \<in> set interrupted
                then bump (t\<lparr>task_status := Uncertain, task_lease_id := None\<rparr>) else t) (run_tasks r)\<rparr>
     in (Inr (), if changed then bump_run (r1\<lparr>run_status := RunUncertain\<rparr>) else r1))"

definition resolve_task :: "uncertain_resolution \<Rightarrow> task_record \<Rightarrow> task_record" where
  "resolve_task resolution t =
     bump (case resolution of
             ResolvedSucceeded reference \<Rightarrow>
               t\<lparr>task_status := Succeeded, task_result_reference := reference\<rparr>
           | ResolvedFailed failure \<Rightarrow> t\<lparr>task_status := Failed, task_failure := Some failure\<rparr>
           | ResolvedCancelled \<Rightarrow> t\<lparr>task_status := Cancelled\<rparr>)"

definition reconcile_uncertain_task ::
  "string \<Rightarrow> revision \<Rightarrow> uncertain_resolution \<Rightarrow> revision \<Rightarrow> run \<Rightarrow> unit run_op" where
  "reconcile_uncertain_task i task_rev resolution expected r =
     require (check_run_revision r expected) r (\<lambda>_.
     require (index_or (UnknownTask i) r i) r (\<lambda>index.
     let t = run_tasks r ! index in
     require (check_revision ''task'' task_rev (task_revision t)) r (\<lambda>_.
     if task_status t \<noteq> Uncertain then (Inl (InvalidTaskStatus i Uncertain (task_status t)), r)
     else
     require (case resolution of
                ResolvedSucceeded (Some reference) \<Rightarrow>
                  if list_ex (\<lambda>s. step_id s = i \<and> is_host_executed s) (run_steps r)
                  then Inl (ExecutorMismatch i)
                  else map_err InvalidDefinition (validate_history_reference reference)
              | _ \<Rightarrow> Inr ()) r (\<lambda>_.
     if (case resolution of ResolvedSucceeded _ \<Rightarrow> True | _ \<Rightarrow> False) \<and>
        list_ex (\<lambda>s. step_id s = i \<and> (step_result_fields s \<noteq> [] \<or> step_require_approval s \<or>
                   step_review s \<noteq> None)) (run_steps r)
       then (Inl (InvalidRunData ''structured results require native validation; reconcile as failed or cancelled before an explicit repeat''), r)
     else
     let r1 = update_task index (resolve_task resolution) r;
         r2 = (case resolution of ResolvedSucceeded _ \<Rightarrow> r1 | _ \<Rightarrow> cancel_ready r1)
     in (Inr (), refresh_status (bump_run r2))))))"

definition retry_uncertain_task :: "string \<Rightarrow> revision \<Rightarrow> revision \<Rightarrow> run \<Rightarrow> unit run_op" where
  "retry_uncertain_task i task_rev expected r =
     require (check_run_revision r expected) r (\<lambda>_.
     require (index_or (UnknownTask i) r i) r (\<lambda>index.
     let t = run_tasks r ! index in
     require (check_revision ''task'' task_rev (task_revision t)) r (\<lambda>_.
     if task_status t \<noteq> Uncertain then (Inl (InvalidTaskStatus i Uncertain (task_status t)), r)
     else (Inr (), (bump_run (update_task index (\<lambda>t. (reset_task t)\<lparr>task_lease_id := None\<rparr>) r))
            \<lparr>run_attempts := run_attempts r @ [t], run_status := RunRunning\<rparr>))))"

section \<open>Agent requests and messages\<close>

definition record_agent_request ::
  "string \<Rightarrow> string \<Rightarrow> string \<Rightarrow> agent_request_kind \<Rightarrow> revision \<Rightarrow> run \<Rightarrow> bool run_op" where
  "record_agent_request rid session actor operation expected r =
     require (check_run_revision r expected) r (\<lambda>_.
     if is_blank_text rid then (Inl (EmptyIdentifier ''agent request''), r)
     else case find (\<lambda>q. request_id q = rid) (run_agent_requests r) of
       Some existing \<Rightarrow>
         if request_actor_workspace_session_id existing = session \<and>
            request_actor_member_id existing = actor \<and> request_operation existing = operation
         then (Inr False, r)
         else (Inl (AgentRequestConflict rid), r)
     | None \<Rightarrow>
         (Inr True, bump_run (r\<lparr>run_agent_requests := run_agent_requests r @
            [\<lparr>request_id = rid, request_actor_workspace_session_id = session,
              request_actor_member_id = actor, request_operation = operation\<rparr>]\<rparr>)))"

definition accept_message :: "string \<Rightarrow> message_intent \<Rightarrow> revision \<Rightarrow> run \<Rightarrow> unit run_op" where
  "accept_message sender intent expected r =
     require (check_run_revision r expected) r (\<lambda>_.
     require (ensure_active r) r (\<lambda>_.
     if is_blank_text (intent_id intent) then (Inl (EmptyIdentifier ''message''), r)
     else if list_ex (\<lambda>m. message_id m = intent_id intent) (run_messages r)
       then (Inl (DuplicateMessage (intent_id intent)), r)
     else
     require (map_err Authorization (authorize_send (def_team (run_definition r)) sender
                (intent_recipient_member_id intent))) r (\<lambda>_.
     (Inr (), bump_run (r\<lparr>run_messages := run_messages r @
        [\<lparr>message_id = intent_id intent, message_sender_member_id = sender,
          message_recipient_member_id = intent_recipient_member_id intent,
          message_body = intent_body intent, message_status = Accepted, message_revision = 0\<rparr>]\<rparr>)))))"

definition mark_message_delivered :: "string \<Rightarrow> revision \<Rightarrow> revision \<Rightarrow> run \<Rightarrow> unit run_op" where
  "mark_message_delivered mid message_rev expected r =
     require (check_run_revision r expected) r (\<lambda>_.
     case position (\<lambda>m. message_id m = mid) (run_messages r) of
       None \<Rightarrow> (Inl (UnknownMessage mid), r)
     | Some k \<Rightarrow>
         let m = run_messages r ! k in
         require (check_revision ''message'' message_rev (message_revision m)) r (\<lambda>_.
         if message_status m \<noteq> Accepted
         then (Inl (InvalidMessageStatus mid Accepted (message_status m)), r)
         else (Inr (), bump_run (r\<lparr>run_messages := upd_at k (\<lambda>m. m\<lparr>message_status := Delivered,
                 message_revision := message_revision m + 1\<rparr>) (run_messages r)\<rparr>))))"

section \<open>Flow control and checked completion\<close>

definition control_flow :: "flow_action \<Rightarrow> revision \<Rightarrow> run \<Rightarrow> unit run_op" where
  "control_flow action expected r =
     require (check_run_revision r expected) r (\<lambda>_.
     let (res, r') =
       (case action of
          Pause \<Rightarrow> if run_status r \<noteq> RunRunning then (Inl (RunNotActive (run_status r)), r)
                   else (Inr (), r\<lparr>run_paused := True\<rparr>)
        | Resume \<Rightarrow> if run_status r \<noteq> RunRunning then (Inl (RunNotActive (run_status r)), r)
                    else (Inr (), r\<lparr>run_paused := False\<rparr>)
        | Decide i task_rev approved \<Rightarrow>
            require (index_or (UnknownTask i) r i) r (\<lambda>index.
            if task_revision (run_tasks r ! index) \<noteq> task_rev \<or>
               task_status (run_tasks r ! index) \<noteq> AwaitingApproval
              then (Inl (InvalidRunData ''decision is stale''), r)
            else (Inr (), update_task index (\<lambda>t. bump (t\<lparr>
                    task_status := (if approved then Succeeded else Failed),
                    task_failure := (if approved then None else Some (failure_new ''result-rejected''))\<rparr>)) r))
        | Repeat i task_rev \<Rightarrow>
            require (index_or (UnknownTask i) r i) r (\<lambda>index.
            if task_revision (run_tasks r ! index) \<noteq> task_rev \<or>
               \<not> has_status [Succeeded, Failed, Cancelled, AwaitingApproval] (run_tasks r ! index)
              then (Inl (InvalidRunData ''repeat requires a reconciled terminal attempt''), r)
            else repeat_from i r))
     in case res of
          Inl e \<Rightarrow> (Inl e, r')
        | Inr _ \<Rightarrow> (Inr (), refresh_status (bump_run (advance_conditions r'))))"

text \<open>The outcome and the data a native completion records, from the text the host read.\<close>

definition checked_outcome ::
  "serde_json \<Rightarrow> pipeline_step \<Rightarrow> completion_outcome \<Rightarrow> string option \<Rightarrow>
   completion_outcome \<times> json option" where
  "checked_outcome sj step outcome text =
     (case outcome of
        OutcomeFailed _ \<Rightarrow> (outcome, None)
      | OutcomeSucceeded _ \<Rightarrow>
          (case validate_result sj (step_result_fields step) (case text of None \<Rightarrow> [] | Some t \<Rightarrow> t) of
             Inl code \<Rightarrow> (OutcomeFailed (failure_new code), None)
           | Inr _ \<Rightarrow>
               let data = keep_if is_object (Option.bind text (from_str sj)) in
               (case keep_if (\<lambda>rt. router_mode rt = AgentRouter) (step_router step) of
                  None \<Rightarrow> (outcome, data)
                | Some router \<Rightarrow>
                    (case data of
                       None \<Rightarrow> (OutcomeFailed (failure_new ''router-selection-invalid''), data)
                     | Some value \<Rightarrow>
                         (case agent_router_selection router value of
                            Inl code \<Rightarrow> (OutcomeFailed (failure_new code), data)
                          | Inr selected \<Rightarrow>
                              (outcome,
                               case as_object value of
                                 None \<Rightarrow> data
                               | Some object \<Rightarrow>
                                   Some (JObject (bm_insert (selection_field_of router)
                                     (JArray (map JString selected)) object))))))))"

definition complete_checked_task ::
  "serde_json \<Rightarrow> string \<Rightarrow> revision \<Rightarrow> string \<Rightarrow> completion_outcome \<Rightarrow> string option \<Rightarrow> revision \<Rightarrow> run \<Rightarrow>
   unit run_op" where
  "complete_checked_task sj i task_rev exec outcome text expected r =
     (case find_step r i of
        None \<Rightarrow> (Inl (UnknownTask i), r)
      | Some step \<Rightarrow>
          if is_host_executed step then (Inl (ExecutorMismatch i), r)
          else
          let (outcome, data) = checked_outcome sj step outcome text in
          (case complete_task i task_rev exec outcome expected r of
             (Inl e, r1) \<Rightarrow> (Inl e, r1)
           | (Inr _, r1) \<Rightarrow>
               require (index_or (UnknownTask i) r1 i) r1 (\<lambda>index.
               (Inr (), settle_result index step
                  (update_task index (task_result_data_update (\<lambda>_. data)) r1)))))"

end
