(* ===== verification/Run_Data.thy ===== *)
theory Run_Data
  imports Coordinator
begin

text \<open>
  Loading durable run data (\<^verbatim>\<open>deserialize_run\<close> and \<^verbatim>\<open>validate_run_data\<close> of \<^verbatim>\<open>coordinator.rs\<close>). The
  derived JSON decoder is the parameter \<open>decode\<close>.
\<close>

definition run_data_error :: "string \<Rightarrow> coordinator_error + unit" where
  "run_data_error reason = Inl (InvalidRunData reason)"

definition message_authority_ok :: "run \<Rightarrow> message_record \<Rightarrow> bool" where
  "message_authority_ok r m \<longleftrightarrow>
     \<not> (is_blank_text (message_id m) \<or>
        \<not> is_ok (authorize_send (def_team (run_definition r)) (message_sender_member_id m)
                   (message_recipient_member_id m)))"

definition request_authority_ok :: "run \<Rightarrow> agent_request_record \<Rightarrow> bool" where
  "request_authority_ok r q \<longleftrightarrow>
     \<not> (is_blank_text (request_id q) \<or> is_blank_text (request_actor_workspace_session_id q) \<or>
        \<not> list_ex (\<lambda>m. member_id m = request_actor_member_id q) (team_members (def_team (run_definition r))))"

definition request_target_exists :: "run \<Rightarrow> agent_request_record \<Rightarrow> bool" where
  "request_target_exists r q =
     (case request_operation q of
        Roster \<Rightarrow> True
      | SpawnAgent pid _ _ \<Rightarrow>
          is_some_and (find (\<lambda>m. member_id m = request_actor_member_id q)
              (team_members (def_team (run_definition r))))
            (\<lambda>m. is_ok (authorize_spawn (run_definition r) (member_profile_id m) pid))
      | Send recipient \<Rightarrow>
          is_ok (authorize_send (def_team (run_definition r)) (request_actor_member_id q) recipient)
      | Observe target \<Rightarrow>
          is_ok (authorize_observe (def_team (run_definition r)) (request_actor_member_id q) target)
      | Spawn i \<Rightarrow> list_ex (\<lambda>s. step_id s = i) (run_steps r))"

definition validate_request :: "run \<Rightarrow> agent_request_record \<Rightarrow> coordinator_error + unit" where
  "validate_request r q =
     (if \<not> request_authority_ok r q then run_data_error ''agent request authority is invalid''
      else if \<not> request_target_exists r q then run_data_error ''agent request target is invalid''
      else Inr ())"

definition output_ok :: "run \<Rightarrow> task_record \<Rightarrow> bool" where
  "output_ok r t \<longleftrightarrow>
     \<not> (task_output t \<noteq> None \<and> \<not> task_pinned t \<and>
        \<not> list_ex (\<lambda>s. step_id s = task_step_id t \<and> is_host_executed s) (run_steps r))"

definition pinned_ok :: "run \<Rightarrow> task_record \<Rightarrow> bool" where
  "pinned_ok r t \<longleftrightarrow>
     \<not> (task_pinned t \<and>
        (\<not> run_use_pinned_data r \<or> task_execution t \<noteq> None \<or> task_result_reference t \<noteq> None \<or>
         has_status [Ready, Running, Uncertain] t \<or>
         \<not> list_ex (\<lambda>s. step_id s = task_step_id t \<and> step_pinned_output s \<noteq> None) (run_steps r)))"

definition validate_task :: "run \<Rightarrow> task_record \<Rightarrow> coordinator_error + unit" where
  "validate_task r t =
     and_then (reference_check (task_result_reference t)) (\<lambda>_.
     if task_lease_id t \<noteq> None \<and> task_status t \<noteq> Ready
       then run_data_error ''only ready tasks may hold a lease''
     else if task_status t = Failed \<and> task_failure t = None
       then run_data_error ''failed task has no failure record''
     else if task_status t = Running \<and> task_execution t = None
       then run_data_error ''running task has no execution reference''
     else if \<not> output_ok r t
       then run_data_error ''only host-executed tasks record output''
     else if \<not> pinned_ok r t
       then run_data_error ''a pinned task has no pinned data or was executed''
     else Inr ())"

definition lease_ids :: "run \<Rightarrow> string list" where
  "lease_ids r = List.map_filter task_lease_id (run_tasks r)"

definition validate_run_data :: "serde_json \<Rightarrow> run \<Rightarrow> coordinator_error + unit" where
  "validate_run_data sj r =
     (if run_schema_version r \<noteq> ORCHESTRATION_SCHEMA_VERSION
      then run_data_error ''unsupported schema version''
      else
      and_then (map_err InvalidDefinition (validate_definition sj (run_definition r))) (\<lambda>_.
      if is_some_and (run_trigger r) (\<lambda>t. \<not> trigger_is_valid t)
        then run_data_error ''run trigger is invalid''
      else if bs_collect (map step_id (run_steps r)) \<noteq> bs_collect (map task_step_id (run_tasks r)) \<or>
              length (bs_collect (map task_step_id (run_tasks r))) \<noteq> length (run_tasks r)
        then run_data_error ''tasks do not match pipeline steps''
      else if length (bs_collect (map message_id (run_messages r))) \<noteq> length (run_messages r)
        then run_data_error ''duplicate message identifiers''
      else if length (bs_collect (map request_id (run_agent_requests r))) \<noteq> length (run_agent_requests r)
        then run_data_error ''duplicate agent request identifiers''
      else
      and_then (try_each (\<lambda>m. if \<not> message_authority_ok r m
                              then run_data_error ''message authority is invalid'' else Inr ())
                  (run_messages r)) (\<lambda>_.
      and_then (try_each (validate_request r) (run_agent_requests r)) (\<lambda>_.
      if length (bs_collect (lease_ids r)) \<noteq> length (filter (\<lambda>t. task_lease_id t \<noteq> None) (run_tasks r))
        then run_data_error ''duplicate task lease identifiers''
      else try_each (validate_task r) (run_tasks r)))))"

datatype run_data_failure = Deserialize | Invalid coordinator_error

definition upgrade_run :: "run \<Rightarrow> run" where
  "upgrade_run r =
     (if 1 \<le> run_schema_version r \<and> run_schema_version r \<le> 5
      then r\<lparr>run_schema_version := ORCHESTRATION_SCHEMA_VERSION\<rparr> else r)"

definition deserialize_run ::
  "(string \<Rightarrow> run option) \<Rightarrow> serde_json \<Rightarrow> string \<Rightarrow> run_data_failure + run" where
  "deserialize_run decode sj bytes =
     (case decode bytes of
        None \<Rightarrow> Inl Deserialize
      | Some r \<Rightarrow>
          and_then (map_err Invalid (validate_run_data sj (upgrade_run r))) (\<lambda>_. Inr (upgrade_run r)))"

end
