(* ===== verification/Host_Steps.thy ===== *)
theory Host_Steps
  imports Coordinator
begin

text \<open>
  Steps the host executes: scripts (\<^verbatim>\<open>executors.rs\<close>), plugin nodes (\<^verbatim>\<open>plugin_steps.rs\<close>) and
  sub-pipelines (\<^verbatim>\<open>subpipelines.rs\<close>): their leases, the documents they read, dispatch and
  completion. The lease records share the fields of \<^verbatim>\<open>HostStepLease\<close>.
\<close>

section \<open>Leases\<close>

record script_dependency =
  sdep_step_id :: string
  sdep_reference :: "native_history_reference option"
  sdep_text :: "string option"
  sdep_data :: "json option"

record host_lease =
  hl_run_id :: string
  hl_run_revision :: revision
  hl_task_revision :: revision
  hl_lease_id :: string
  hl_step_id :: string
  hl_step_name :: string
  hl_inputs :: json_map
  hl_dependencies :: "script_dependency list"

record script_lease = host_lease +
  sl_runtime :: script_runtime
  sl_source :: string
  sl_timeout_seconds :: "32 word"

record plugin_step_lease = host_lease +
  pl_plugin_id :: string
  pl_node_type :: string
  pl_config :: json_map

record pipeline_step_lease = host_lease +
  pil_launch_command_id :: string
  pil_sources :: "(string, subpipeline_input_source) btree_map"
  pil_parent_trigger :: "run_trigger option"

definition script_dependencies :: "run \<Rightarrow> pipeline_step \<Rightarrow> script_dependency list" where
  "script_dependencies r step =
     map (\<lambda>d. let t = find_task r d in
       \<lparr>sdep_step_id = d, sdep_reference = Option.bind t task_result_reference,
        sdep_text = map_option output_text (Option.bind t task_output),
        sdep_data = Option.bind t task_result_data\<rparr>) (step_dependency_step_ids step)"

definition host_step :: "run \<Rightarrow> string \<Rightarrow> coordinator_error + pipeline_step" where
  "host_step r i =
     (case find_step r i of
        None \<Rightarrow> Inl (UnknownTask i)
      | Some step \<Rightarrow> if \<not> is_host_executed step then Inl (ExecutorMismatch i) else Inr step)"

text \<open>The part the three lease operations share: guards, automatic steps, the first ready task,
  the executor the caller accepts, and the lease itself. \<open>build\<close> completes the lease record.\<close>

definition lease_next_host ::
  "serde_json \<Rightarrow> (step_executor \<Rightarrow> 'x option) \<Rightarrow>
   ('x \<Rightarrow> run \<Rightarrow> pipeline_step \<Rightarrow> revision \<Rightarrow> revision \<Rightarrow> 'l) \<Rightarrow> string \<Rightarrow> revision \<Rightarrow> run \<Rightarrow> 'l option run_op" where
  "lease_next_host sj accepts build lease_id expected r =
     require (check_run_revision r expected) r (\<lambda>_.
     require (ensure_active r) r (\<lambda>_.
     if is_blank_text lease_id then (Inl (EmptyIdentifier ''lease''), r)
     else
     let r = advance_automatic sj r in
     case ready_task_ids r of
       [] \<Rightarrow> (Inr None, r)
     | i # _ \<Rightarrow>
         require (host_step r i) r (\<lambda>step.
         case Option.bind (step_executor step) accepts of
           None \<Rightarrow> (Inl (ExecutorMismatch i), r)
         | Some x \<Rightarrow>
             require (index_or (InvalidRunData ''pipeline step has no task'') r i) r (\<lambda>index.
             let r' = take_lease lease_id index r in
             (Inr (Some (build x r step (run_revision r') (task_revision (run_tasks r' ! index)))), r')))))"

fun script_config :: "step_executor \<Rightarrow> (script_runtime \<times> string \<times> 32 word) option" where
  "script_config (ScriptExecutor rt src tm) = Some (rt, src, tm)"
| "script_config _ = None"

fun plugin_config :: "step_executor \<Rightarrow> (string \<times> string \<times> json_map) option" where
  "plugin_config (PluginExecutor p n c) = Some (p, n, c)"
| "plugin_config _ = None"

fun pipeline_config ::
  "step_executor \<Rightarrow> (string \<times> (string, subpipeline_input_source) btree_map) option" where
  "pipeline_config (PipelineExecutor l ins) = Some (l, ins)"
| "pipeline_config _ = None"

definition lease_next_script ::
  "serde_json \<Rightarrow> string \<Rightarrow> revision \<Rightarrow> run \<Rightarrow> script_lease option run_op" where
  "lease_next_script sj lease_id =
     lease_next_host sj script_config (\<lambda>(rt, src, tm) r step run_rev task_rev.
       \<lparr>hl_run_id = run_id r, hl_run_revision = run_rev, hl_task_revision = task_rev,
        hl_lease_id = lease_id, hl_step_id = step_id step, hl_step_name = step_name step,
        hl_inputs = run_inputs r, hl_dependencies = script_dependencies r step,
        sl_runtime = rt, sl_source = src, sl_timeout_seconds = tm\<rparr>) lease_id"

definition lease_next_plugin_step ::
  "serde_json \<Rightarrow> string \<Rightarrow> revision \<Rightarrow> run \<Rightarrow> plugin_step_lease option run_op" where
  "lease_next_plugin_step sj lease_id =
     lease_next_host sj plugin_config (\<lambda>(p, n, c) r step run_rev task_rev.
       \<lparr>hl_run_id = run_id r, hl_run_revision = run_rev, hl_task_revision = task_rev,
        hl_lease_id = lease_id, hl_step_id = step_id step, hl_step_name = step_name step,
        hl_inputs = run_inputs r, hl_dependencies = script_dependencies r step,
        pl_plugin_id = p, pl_node_type = n, pl_config = c\<rparr>) lease_id"

definition lease_next_pipeline_step ::
  "serde_json \<Rightarrow> string \<Rightarrow> revision \<Rightarrow> run \<Rightarrow> pipeline_step_lease option run_op" where
  "lease_next_pipeline_step sj lease_id =
     lease_next_host sj pipeline_config (\<lambda>(l, ins) r step run_rev task_rev.
       \<lparr>hl_run_id = run_id r, hl_run_revision = run_rev, hl_task_revision = task_rev,
        hl_lease_id = lease_id, hl_step_id = step_id step, hl_step_name = step_name step,
        hl_inputs = run_inputs r, hl_dependencies = script_dependencies r step,
        pil_launch_command_id = l, pil_sources = ins, pil_parent_trigger = run_trigger r\<rparr>) lease_id"

section \<open>Documents\<close>

definition opt_json :: "json option \<Rightarrow> json" where
  "opt_json v = (case v of None \<Rightarrow> JNull | Some x \<Rightarrow> x)"

definition dependency_documents :: "script_dependency list \<Rightarrow> json" where
  "dependency_documents deps =
     JObject (bm_collect (map (\<lambda>d. (sdep_step_id d,
       JObject (bm_collect [(''text'', opt_json (map_option JString (sdep_text d))),
                            (''data'', opt_json (sdep_data d))]))) deps))"

definition step_document :: "'a host_lease_scheme \<Rightarrow> json" where
  "step_document l =
     JObject (bm_collect [(''id'', JString (hl_step_id l)), (''name'', JString (hl_step_name l))])"

definition stdin_document :: "script_lease \<Rightarrow> json" where
  "stdin_document l =
     JObject (bm_collect [(''inputs'', JObject (hl_inputs l)),
       (''dependencies'', dependency_documents (hl_dependencies l)),
       (''step'', step_document l)])"

definition node_run_params :: "plugin_step_lease \<Rightarrow> json" where
  "node_run_params l =
     JObject (bm_collect [(''nodeType'', JString (pl_node_type l)), (''config'', JObject (pl_config l)),
       (''inputs'', JObject (hl_inputs l)),
       (''dependencies'', dependency_documents (hl_dependencies l)),
       (''step'', step_document l),
       (''run'', JObject [(''id'', JString (hl_run_id l))])])"

section \<open>Child triggers\<close>

definition SUBPIPELINE_DEPTH :: string where "SUBPIPELINE_DEPTH = ''subpipeline-depth''"

definition u8_saturating_add :: "8 word \<Rightarrow> 8 word \<Rightarrow> 8 word" where
  "u8_saturating_add a b = (if unat a + unat b > 255 then 255 else a + b)"

definition child_trigger :: "pipeline_step_lease \<Rightarrow> string + run_trigger" where
  "child_trigger l =
     (let depth = u8_saturating_add
        (case pil_parent_trigger l of None \<Rightarrow> 0 | Some t \<Rightarrow> trigger_subpipeline_depth t) 1
      in if depth > MAX_SUBPIPELINE_DEPTH then Inl SUBPIPELINE_DEPTH
         else Inr (PipelineTrigger (hl_run_id l) (hl_step_id l) (pil_launch_command_id l) depth))"

section \<open>Dispatch and completion\<close>

definition dispatch_leased_script ::
  "string \<Rightarrow> revision \<Rightarrow> string \<Rightarrow> native_execution_reference \<Rightarrow> revision \<Rightarrow> run \<Rightarrow> unit run_op" where
  "dispatch_leased_script i task_rev lease_id execution expected r =
     require (check_run_revision r expected) r (\<lambda>_.
     require (ensure_active r) r (\<lambda>_.
     if is_blank_text (execution_id execution) then (Inl (EmptyIdentifier ''execution''), r)
     else
     require (host_step r i) r (\<lambda>_.
     require (index_or (UnknownTask i) r i) r (\<lambda>index.
     let t = run_tasks r ! index in
     require (check_revision ''task'' task_rev (task_revision t)) r (\<lambda>_.
     if task_status t \<noteq> Ready then (Inl (InvalidTaskStatus i Ready (task_status t)), r)
     else if task_lease_id t \<noteq> Some lease_id then (Inl (LeaseConflict i), r)
     else (Inr (), start_execution execution index r))))))"

text \<open>The tail of both completions: the terminal transition, the recorded data and output, then
  review and acceptance.\<close>

definition complete_host_task ::
  "pipeline_step \<Rightarrow> completion_outcome \<times> json option \<times> task_output option \<Rightarrow>
   string \<Rightarrow> revision \<Rightarrow> string \<Rightarrow> revision \<Rightarrow> run \<Rightarrow> unit run_op" where
  "complete_host_task step = (\<lambda>(outcome, data, output) i task_rev exec expected r.
     case complete_task_transition i task_rev exec outcome expected r of
       (Inl e, r1) \<Rightarrow> (Inl e, r1)
     | (Inr _, r1) \<Rightarrow>
         require (index_or (UnknownTask i) r1 i) r1 (\<lambda>index.
         (Inr (), settle_result index step
            (update_task index (\<lambda>t. t\<lparr>task_result_data := data, task_output := output\<rparr>) r1))))"

definition stdout_outcome ::
  "script_stdout_result \<Rightarrow> completion_outcome \<times> json option \<times> task_output option" where
  "stdout_outcome res =
     (case res of
        StdoutData v \<Rightarrow> (OutcomeSucceeded None, Some v, None)
      | StdoutOutput out \<Rightarrow> (OutcomeSucceeded None, None, Some out)
      | StdoutFailed failure \<Rightarrow> (OutcomeFailed failure, None, None))"

definition script_outcome ::
  "serde_json \<Rightarrow> pipeline_step \<Rightarrow> script_completion \<Rightarrow>
   completion_outcome \<times> json option \<times> task_output option" where
  "script_outcome sj step completion =
     (case completion of
        ScriptFailed failure \<Rightarrow> (OutcomeFailed failure, None, None)
      | Exited stdout truncated \<Rightarrow>
          stdout_outcome (script_stdout_result sj (step_result_fields step) stdout truncated))"

definition complete_script_task ::
  "serde_json \<Rightarrow> string \<Rightarrow> revision \<Rightarrow> string \<Rightarrow> script_completion \<Rightarrow> revision \<Rightarrow> run \<Rightarrow> unit run_op" where
  "complete_script_task sj i task_rev exec completion expected r =
     require (host_step r i) r (\<lambda>step.
     if is_pipeline step then (Inl (ExecutorMismatch i), r)
     else complete_host_task step (script_outcome sj step completion) i task_rev exec expected r)"

definition SUBPIPELINE_OUTPUT_UNAVAILABLE :: string where
  "SUBPIPELINE_OUTPUT_UNAVAILABLE = ''subpipeline-output-unavailable''"

datatype pipeline_completion =
    PipelineSucceeded "json_map option" "string option"
  | PipelineFailed failure_record

definition pipeline_outcome ::
  "serde_json \<Rightarrow> pipeline_step \<Rightarrow> pipeline_completion \<Rightarrow>
   completion_outcome \<times> json option \<times> task_output option" where
  "pipeline_outcome sj step completion =
     (case completion of
        PipelineFailed failure \<Rightarrow> (OutcomeFailed failure, None, None)
      | PipelineSucceeded (Some data) _ \<Rightarrow>
          (case validate_result_value (step_result_fields step) (JObject data) of
             Inr _ \<Rightarrow> (OutcomeSucceeded None, Some (JObject data), None)
           | Inl code \<Rightarrow> (OutcomeFailed (failure_new code), None, None))
      | PipelineSucceeded None (Some txt) \<Rightarrow>
          stdout_outcome (script_stdout_result sj (step_result_fields step) txt False)
      | PipelineSucceeded None None \<Rightarrow>
          if step_result_fields step = [] then (OutcomeSucceeded None, None, None)
          else (OutcomeFailed (failure_new SUBPIPELINE_OUTPUT_UNAVAILABLE), None, None))"

definition complete_pipeline_task ::
  "serde_json \<Rightarrow> string \<Rightarrow> revision \<Rightarrow> string \<Rightarrow> pipeline_completion \<Rightarrow> revision \<Rightarrow> run \<Rightarrow> unit run_op" where
  "complete_pipeline_task sj i task_rev exec completion expected r =
     require (host_step r i) r (\<lambda>step.
     if \<not> is_pipeline step then (Inl (ExecutorMismatch i), r)
     else complete_host_task step (pipeline_outcome sj step completion) i task_rev exec expected r)"

end
