(* ===== verification/Run_Invariant.thy ===== *)
theory Run_Invariant
  imports Scheduling_Facts Run_Data Host_Steps
begin

text \<open>
  The invariant of a run and the building blocks that keep it. A task is well-formed when the
  fields that belong to its status are present and the others are absent; a run when its
  definition is valid, it has one well-formed task per step in step order, and every accepted
  message is authorised by the team.
\<close>

section \<open>Well-formed tasks\<close>

definition task_wf :: "pipeline_step list \<Rightarrow> bool \<Rightarrow> task_record \<Rightarrow> bool" where
  "task_wf steps use_pins t \<longleftrightarrow>
     (task_status t = Failed \<longrightarrow> task_failure t \<noteq> None) \<and>
     (task_status t = Running \<longrightarrow> task_execution t \<noteq> None) \<and>
     (task_lease_id t \<noteq> None \<longrightarrow> task_status t \<in> {Ready, Cancelled}) \<and>
     (task_status t = Ready \<longrightarrow> task_execution t = None \<and> task_result_reference t = None \<and> task_output t = None) \<and>
     (task_status t \<in> {Ready, Running, Uncertain} \<longrightarrow> \<not> task_pinned t) \<and>
     (task_status t \<in> {Running, Uncertain} \<longrightarrow> task_output t = None) \<and>
     (task_output t \<noteq> None \<longrightarrow> task_pinned t \<or>
        (\<exists>s\<in>set steps. step_id s = task_step_id t \<and> is_host_executed s)) \<and>
     (task_pinned t \<longrightarrow> use_pins \<and> task_execution t = None \<and> task_result_reference t = None \<and>
        (\<exists>s\<in>set steps. step_id s = task_step_id t \<and> step_pinned_output s \<noteq> None)) \<and>
     reference_check (task_result_reference t) = Inr ()"

abbreviation wf_task :: "run \<Rightarrow> task_record \<Rightarrow> bool" where
  "wf_task r \<equiv> task_wf (run_steps r) (run_use_pinned_data r)"

definition tasks_wf :: "run \<Rightarrow> bool" where
  "tasks_wf r \<longleftrightarrow> (\<forall>t\<in>set (run_tasks r). wf_task r t)"

definition run_inv :: "serde_json \<Rightarrow> run \<Rightarrow> bool" where
  "run_inv sj r \<longleftrightarrow>
     validate_definition sj (run_definition r) = Inr () \<and>
     map task_step_id (run_tasks r) = map step_id (run_steps r) \<and>
     tasks_wf r \<and>
     run_schema_version r = ORCHESTRATION_SCHEMA_VERSION \<and>
     is_none_or (run_trigger r) trigger_is_valid \<and>
     distinct (map message_id (run_messages r)) \<and>
     (\<forall>m\<in>set (run_messages r). message_authority_ok r m) \<and>
     distinct (map request_id (run_agent_requests r))"

lemma wf_task_frame: "frame_eq r r' \<Longrightarrow> wf_task r' t = wf_task r t"
  by (simp add: frame_eq_def)

lemma run_inv_frame:
  assumes "run_inv sj r" "frame_eq r r'" "tasks_wf r'"
  shows "run_inv sj r'"
  using assms by (auto simp: run_inv_def frame_eq_def message_authority_ok_def)

lemma run_inv_settles: "run_inv sj r \<Longrightarrow> settles r"
  unfolding run_inv_def using validate_definition_settles by blast

lemma run_inv_graph: "run_inv sj r \<Longrightarrow> graph_ok (run_steps r)"
  unfolding run_inv_def using validate_definition_graph by blast

lemma run_inv_distinct:
  assumes "run_inv sj r"
  shows "steps_distinct r" "distinct (map task_step_id (run_tasks r))"
  using run_inv_settles[OF assms] assms by (simp_all add: settles_def run_inv_def)

section \<open>Building blocks\<close>

text \<open>What a step of the coordinator keeps: the frame and the well-formed tasks.\<close>

definition keeps_wf :: "run \<Rightarrow> run \<Rightarrow> bool" where
  "keeps_wf r r' \<longleftrightarrow> frame_eq r r' \<and> (tasks_wf r \<longrightarrow> tasks_wf r')"

lemma keeps_wf_refl [simp]: "keeps_wf r r"
  by (simp add: keeps_wf_def)

lemma keeps_wf_trans: "keeps_wf r s \<Longrightarrow> keeps_wf s t \<Longrightarrow> keeps_wf r t"
  by (auto simp: keeps_wf_def intro: frame_eq_trans)

lemma run_inv_keeps: "run_inv sj r \<Longrightarrow> keeps_wf r r' \<Longrightarrow> run_inv sj r'"
  unfolding keeps_wf_def using run_inv_frame run_inv_def by blast

lemma keeps_wf_same_tasks:
  "frame_eq r r' \<Longrightarrow> run_tasks r' = run_tasks r \<Longrightarrow> keeps_wf r r'"
  by (auto simp: keeps_wf_def tasks_wf_def frame_eq_def)

lemma keeps_wf_bump_run [simp]: "keeps_wf r (bump_run r)"
  by (rule keeps_wf_same_tasks) simp_all

lemma keeps_wf_refresh [simp]: "keeps_wf r (refresh_status r)"
  by (rule keeps_wf_same_tasks) simp_all

lemma keeps_wf_flags [simp]:
  "keeps_wf r (r\<lparr>run_status := st\<rparr>)" "keeps_wf r (r\<lparr>run_paused := b\<rparr>)"
  "keeps_wf r (r\<lparr>run_attempts := a\<rparr>)"
  by (rule keeps_wf_same_tasks; simp add: frame_eq_def)+

lemma keeps_wf_update:
  assumes "\<And>t. task_step_id (f t) = task_step_id t"
    "k < length (run_tasks r) \<Longrightarrow> wf_task r (run_tasks r ! k) \<Longrightarrow> wf_task r (f (run_tasks r ! k))"
  shows "keeps_wf r (update_task k f r)"
  unfolding keeps_wf_def
proof (intro conjI impI)
  show "frame_eq r (update_task k f r)" using assms(1) by (rule update_task_frame)
  assume wf: "tasks_wf r"
  show "tasks_wf (update_task k f r)"
    unfolding tasks_wf_def
  proof
    fix t assume "t \<in> set (run_tasks (update_task k f r))"
    then have "t \<in> set (run_tasks r) \<or> (k < length (run_tasks r) \<and> t = f (run_tasks r ! k))"
      by (auto dest: set_upd_atD)
    then have "wf_task r t" using wf assms(2) by (auto simp: tasks_wf_def)
    then show "wf_task (update_task k f r) t" by (simp add: update_task_def)
  qed
qed

lemma keeps_wf_map:
  assumes "\<And>t. task_step_id (f t) = task_step_id t"
    "\<And>t. t \<in> set (run_tasks r) \<Longrightarrow> wf_task r t \<Longrightarrow> wf_task r (f t)"
  shows "keeps_wf r (r\<lparr>run_tasks := map f (run_tasks r)\<rparr>)"
  using assms map_tasks_frame[of f r] by (auto simp: keeps_wf_def tasks_wf_def)

text \<open>Status changes of one task.\<close>

lemma reference_check_None [simp]: "reference_check None = Inr ()"
  by (simp add: reference_check_def)

lemma task_wf_bump [simp]: "task_wf steps pins (bump t) = task_wf steps pins t"
  by (simp add: task_wf_def)

lemma task_wf_skip:
  "task_wf steps pins t \<Longrightarrow> task_status t = Ready \<Longrightarrow> task_lease_id t = None \<Longrightarrow>
   task_wf steps pins (t\<lparr>task_status := Skipped\<rparr>)"
  by (simp add: task_wf_def)

lemma task_wf_fail_fast: "task_wf steps pins t \<Longrightarrow> task_wf steps pins (fail_fast t)"
  by (cases "task_status t = Ready") (simp_all add: task_wf_def fail_fast_def)

lemma task_wf_reset: "task_wf steps pins (reset_task t)"
  by (simp add: task_wf_def reset_task_def)

lemma task_wf_settled:
  assumes "task_wf steps pins t" "task_status t = Succeeded"
  shows "task_wf steps pins (set_status AwaitingApproval t)"
    and "st \<in> {AwaitingApproval, Failed} \<Longrightarrow> task_wf steps pins (set_failed st code t)"
  using assms by (simp_all add: task_wf_def set_status_def set_failed_def) auto

lemma task_wf_router:
  assumes "task_wf steps pins t" "task_status t = Ready" "task_lease_id t = None"
  shows "task_wf steps pins (t\<lparr>task_status := Succeeded, task_result_data := d, task_failure := None\<rparr>)"
    and "task_wf steps pins (t\<lparr>task_status := Failed, task_failure := Some f, task_result_data := d\<rparr>)"
  using assms by (simp_all add: task_wf_def)

lemma keeps_wf_cancel_ready: "keeps_wf r (cancel_ready r)"
  unfolding cancel_ready_def by (rule keeps_wf_map) (auto simp: task_wf_fail_fast)

lemma keeps_wf_advance_conditions:
  assumes "distinct (map task_step_id (run_tasks r))"
  shows "keeps_wf r (advance_conditions r)"
  unfolding keeps_wf_def
proof (intro conjI impI)
  show fr: "frame_eq r (advance_conditions r)" by (rule advance_conditions_frame)
  assume wf: "tasks_wf r"
  show "tasks_wf (advance_conditions r)"
    unfolding tasks_wf_def
  proof
    fix t' assume "t' \<in> set (run_tasks (advance_conditions r))"
    then obtain t where t: "t \<in> set (run_tasks r)" "skips t t'"
      using advance_conditions_skips[OF assms]
      by (metis in_set_conv_nth list_all2_conv_all_nth)
    then have "wf_task r t'" using wf by (auto simp: tasks_wf_def skips_def task_wf_skip)
    then show "wf_task (advance_conditions r) t'" using fr by (simp add: frame_eq_def)
  qed
qed

lemma keeps_wf_repeat: "keeps_wf r (snd (repeat_from i r))"
proof -
  let ?aff = "set (affected_steps (run_steps r) i)"
  let ?r = "r\<lparr>run_tasks := map (\<lambda>t. if task_step_id t \<in> ?aff then reset_task t else t) (run_tasks r)\<rparr>"
  have "keeps_wf r ?r"
    by (rule keeps_wf_map) (auto simp: task_wf_reset, simp add: reset_task_def)
  then show ?thesis
    by (auto simp: repeat_from_def Let_def keeps_wf_def frame_eq_def tasks_wf_def)
qed

lemma keeps_wf_acceptance: "keeps_wf r (apply_acceptance r k step)"
proof -
  have app: "keeps_wf r (update_task k (set_status AwaitingApproval) r)"
    if "task_status (run_tasks r ! k) = Succeeded"
    by (rule keeps_wf_update) (simp_all add: set_status_def task_wf_settled[unfolded set_status_def] that)
  have upd: "keeps_wf r (update_task k (set_failed st c) r)"
    if "task_status (run_tasks r ! k) = Succeeded" "st \<in> {AwaitingApproval, Failed}" for st c
    by (rule keeps_wf_update, simp add: set_failed_def) (rule task_wf_settled(2)[OF _ that])
  have rej: "keeps_wf r (review_rejected r k step review)"
    if s: "task_status (run_tasks r ! k) = Succeeded" for review
  proof (cases "review_hold r (step_id step) review")
    case (Some code)
    then show ?thesis using upd[OF s] by (simp add: review_rejected_def)
  next
    case None
    let ?r1 = "snd (repeat_from (review_retry_from_step_id review) r)"
    have r1: "keeps_wf r ?r1" by (rule keeps_wf_repeat)
    have err: "?r1 = r" if "fst (repeat_from (review_retry_from_step_id review) r) = Inl e" for e
      using that by (auto simp: repeat_from_def Let_def split: if_splits)
    let ?r2 = "case repeat_from (review_retry_from_step_id review) r of
        (Inl _, r1) \<Rightarrow> update_task k (set_failed Failed ''review-retry-conflict'') r1 | (Inr _, r1) \<Rightarrow> r1"
    have "keeps_wf r ?r2"
      using r1 err upd[OF s] by (cases "repeat_from (review_retry_from_step_id review) r")
        (auto split: sum.splits)
    moreover have "keeps_wf ?r2 (?r2\<lparr>run_paused := True\<rparr>)" by simp
    ultimately show ?thesis
      using None keeps_wf_trans by (auto simp: review_rejected_def Let_def)
  qed
  show ?thesis
    using app upd rej by (auto simp: apply_acceptance_def split: option.splits bool.splits)
qed

lemma frame_eq_distinct:
  "frame_eq r r' \<Longrightarrow> distinct (map task_step_id (run_tasks r)) \<Longrightarrow>
   distinct (map task_step_id (run_tasks r'))"
  by (simp add: frame_eq_def)

lemma keeps_wf_settle:
  assumes "distinct (map task_step_id (run_tasks r))"
  shows "keeps_wf r (settle_result k step r)"
proof -
  have a: "keeps_wf r (apply_acceptance r k step)" by (rule keeps_wf_acceptance)
  have "keeps_wf (apply_acceptance r k step) (advance_conditions (apply_acceptance r k step))"
    using a assms frame_eq_distinct by (intro keeps_wf_advance_conditions) (auto simp: keeps_wf_def)
  with a show ?thesis unfolding settle_result_def using keeps_wf_trans keeps_wf_refresh by blast
qed

section \<open>The coordinator's own steps\<close>

lemma keeps_wf_settle_router:
  assumes "find_task r i = Some t" "task_status t = Ready" "task_lease_id t = None"
  shows "keeps_wf r (settle_router i r)"
proof (cases "Option.bind (find_step r i) step_router")
  case (Some rt)
  obtain k where k: "task_index r i = Some k" using assms(1) task_index_ex[of r i] by auto
  note K = task_index_Some[OF k]
  have t: "run_tasks r ! k = t" using K assms(1) by simp
  have "keeps_wf r (update_task k (\<lambda>t. bump
     (case router_result r rt of
        Inr selected \<Rightarrow>
          t\<lparr>task_status := Succeeded,
            task_result_data := Some (JObject [(selection_field_of rt, JArray (map JString selected))]),
            task_failure := None\<rparr>
      | Inl code \<Rightarrow>
          t\<lparr>task_status := Failed, task_failure := Some (failure_new code), task_result_data := None\<rparr>)) r)"
    by (rule keeps_wf_update)
       (use t assms task_wf_router in \<open>auto split: sum.splits\<close>)
  with Some k show ?thesis
    using keeps_wf_trans[OF _ keeps_wf_bump_run] by (simp add: settle_router_def)
qed (simp add: settle_router_def)

lemma keeps_wf_fold_router:
  assumes "distinct cs"
    "\<forall>c\<in>set cs. (\<exists>t. find_task r c = Some t \<and> task_status t = Ready \<and> task_lease_id t = None) \<and>
       (\<exists>rt. Option.bind (find_step r c) step_router = Some rt)"
  shows "keeps_wf r (fold settle_router cs r)"
  using assms
proof (induction cs arbitrary: r)
  case (Cons c cs)
  then obtain t rt where c: "find_task r c = Some t" "task_status t = Ready" "task_lease_id t = None"
    "Option.bind (find_step r c) step_router = Some rt" by auto
  have one: "keeps_wf r (settle_router c r)" by (rule keeps_wf_settle_router[OF c(1-3)])
  have step: "find_step (settle_router c r) j = find_step r j" for j
    using one by (intro find_step_cong) (simp add: keeps_wf_def frame_eq_def)
  have task: "find_task (settle_router c r) j = find_task r j" if "j \<in> set cs" for j
    by (rule settle_router_progress(2)[OF c(1,2,4)]) (use that Cons.prems(1) in auto)
  have "keeps_wf (settle_router c r) (fold settle_router cs (settle_router c r))"
    using Cons.IH[of "settle_router c r"] Cons.prems step task by auto
  from keeps_wf_trans[OF one this] show ?case by simp
qed simp

lemma keeps_wf_router_pass:
  assumes "steps_distinct r" "distinct (map task_step_id (run_tasks r))"
  shows "keeps_wf r (fst (router_pass r))"
proof (cases "router_candidates r = []")
  case False
  let ?cs = "router_candidates r"
  have "(\<exists>t. find_task r c = Some t \<and> task_status t = Ready \<and> task_lease_id t = None) \<and>
      (\<exists>rt. Option.bind (find_step r c) step_router = Some rt)" if c: "c \<in> set ?cs" for c
  proof -
    from c obtain s where s: "s \<in> set (run_steps r)" "step_id s = c" "is_program_router s"
      "is_some_and (find_task r c) (\<lambda>t. task_status t = Ready \<and> task_lease_id t = None \<and>
         dependencies_succeeded r c)"
      by (auto simp: router_candidates_def)
    have "find_step r c = Some s" using find_step_unique[OF assms(1) s(1)] s(2) by simp
    with s(3,4) show ?thesis
      by (auto simp: is_program_router_def is_some_and_def split: option.splits)
  qed
  moreover have "distinct ?cs" using assms(1) by (simp add: router_candidates_def distinct_map_filter)
  ultimately have f: "keeps_wf r (fold settle_router ?cs r)" by (intro keeps_wf_fold_router) auto
  then have "distinct (map task_step_id (run_tasks (fold settle_router ?cs r)))"
    using assms(2) frame_eq_distinct by (auto simp: keeps_wf_def)
  from keeps_wf_trans[OF f keeps_wf_advance_conditions[OF this]] False show ?thesis
    using keeps_wf_trans[OF _ keeps_wf_refresh] by (simp add: router_pass_def)
qed (simp add: router_pass_def)

lemma keeps_wf_distinct:
  assumes "keeps_wf r s" "settles r" "distinct (map task_step_id (run_tasks r))"
  shows "settles s" "steps_distinct s" "distinct (map task_step_id (run_tasks s))"
proof -
  show "settles s" using assms settles_frame by (auto simp: keeps_wf_def)
  then show "steps_distinct s" by (simp add: settles_def)
  show "distinct (map task_step_id (run_tasks s))"
    using assms frame_eq_distinct by (auto simp: keeps_wf_def)
qed

lemma keeps_wf_routers:
  assumes "settles r" "distinct (map task_step_id (run_tasks r))"
  shows "keeps_wf r (advance_program_routers r)"
  unfolding advance_program_routers_def
proof (rule loop_n_keeps)
  fix s s' again
  assume s: "keeps_wf r s" "router_pass s = (s', again)"
  note d = keeps_wf_distinct[OF s(1) assms]
  from keeps_wf_router_pass[OF d(2,3)] s(2) have "keeps_wf s s'" by simp
  with s(1) show "keeps_wf r s'" by (rule keeps_wf_trans)
qed simp

lemma keeps_wf_admit_step:
  assumes "settles r" "distinct (map task_step_id (run_tasks r))" "run_use_pinned_data r"
  shows "keeps_wf r (snd (admit_pinned_step sj i (changed, r)))"
proof -
  let ?P = "\<lambda>t. task_step_id t = i \<and> task_status t = Ready \<and> task_lease_id t = None"
  consider "admit_pinned_step sj i (changed, r) = (changed, r)"
    | step p k where "find_step r i = Some step" "step_pinned_output step = Some p"
        "position ?P (run_tasks r) = Some k"
    by (cases "find_step r i"; cases "step_pinned_output (the (find_step r i))";
        cases "position ?P (run_tasks r)")
       (auto simp: admit_pinned_step_def simp del: position_None)
  then show ?thesis
  proof cases
    case (2 step p k)
    note K = position_Some[OF 2(3)]
    have st: "step \<in> set (run_steps r)" "step_id step = i"
      using find_Some_set[OF 2(1)[unfolded find_step_def]] by auto
    show ?thesis
    proof (cases "pinned_result sj step p")
      case (Inl failure)
      let ?f = "\<lambda>t. (bump (t\<lparr>task_pinned := True\<rparr>))\<lparr>task_status := Failed, task_failure := Some failure\<rparr>"
      have "keeps_wf r (update_task k ?f r)"
        by (rule keeps_wf_update) (use K st 2(2) assms(3) in \<open>simp_all add: task_wf_def, blast?\<close>)
      then have "keeps_wf r (refresh_status (bump_run (cancel_ready (update_task k ?f r))))"
        using keeps_wf_trans keeps_wf_cancel_ready keeps_wf_bump_run keeps_wf_refresh by blast
      with 2 Inl show ?thesis by (simp add: admit_pinned_step_def Let_def cancel_ready_def)
    next
      case (Inr res)
      obtain data out where res: "res = (data, out)" by (cases res)
      let ?f = "\<lambda>t. (bump (t\<lparr>task_pinned := True\<rparr>))\<lparr>task_status := Succeeded, task_result_data := data,
          task_output := out, task_failure := None\<rparr>"
      let ?s = "bump_run (update_task k ?f r)"
      have "keeps_wf r (update_task k ?f r)"
        by (rule keeps_wf_update) (use K st 2(2) assms(3) in \<open>simp_all add: task_wf_def, blast?\<close>)
      then have s: "keeps_wf r ?s" using keeps_wf_trans keeps_wf_bump_run by blast
      from keeps_wf_trans[OF s keeps_wf_settle[OF keeps_wf_distinct(3)[OF s assms(1,2)]]]
      show ?thesis using 2 Inr res by (simp add: admit_pinned_step_def)
    qed
  qed simp
qed

lemma keeps_wf_fold_admit:
  assumes "settles r" "distinct (map task_step_id (run_tasks r))" "run_use_pinned_data r"
  shows "keeps_wf r (snd (fold (admit_pinned_step sj) cs (changed, r)))"
  using assms
proof (induction cs arbitrary: changed r)
  case (Cons c cs)
  obtain ch1 r1 where one: "admit_pinned_step sj c (changed, r) = (ch1, r1)" by fastforce
  then have k: "keeps_wf r r1" using keeps_wf_admit_step[OF Cons.prems, of sj c changed] by simp
  note d = keeps_wf_distinct[OF k Cons.prems(1,2)]
  have "run_use_pinned_data r1" using k Cons.prems(3) by (simp add: keeps_wf_def frame_eq_def)
  from keeps_wf_trans[OF k Cons.IH[OF d(1,3) this, of ch1]] one show ?case by simp
qed simp

lemma keeps_wf_automatic:
  assumes "settles r" "distinct (map task_step_id (run_tasks r))"
  shows "keeps_wf r (advance_automatic sj r)"
  unfolding advance_automatic_def
proof (rule loop_n_keeps)
  fix s s' again
  assume s: "keeps_wf r s" "automatic_pass sj s = (s', again)"
  note d = keeps_wf_distinct[OF s(1) assms]
  have a: "keeps_wf s (advance_program_routers s)" by (rule keeps_wf_routers[OF d(1,3)])
  note e = keeps_wf_distinct[OF a d(1,3)]
  have "s' = snd (admit_pinned_steps sj (advance_program_routers s))"
    using s(2) by (auto simp: automatic_pass_def split: prod.splits)
  then have "keeps_wf (advance_program_routers s) s'"
    using keeps_wf_fold_admit[OF e(1,3)] by (simp add: admit_pinned_steps_def)
  with a s(1) show "keeps_wf r s'" using keeps_wf_trans by blast
qed simp

end
