(* ===== verification/Lifecycle.thy ===== *)
theory Lifecycle
  imports Run_Invariant
begin

text \<open>
  The coordinator as a state machine: every operation as a value, its execution on a run, the
  step relation and the reachable runs. Every operation keeps the invariant and every change
  moves the run revision; the locale \<open>guarded_operations\<close> draws the consequences for clients
  that race with the same expected revision.
\<close>

section \<open>Operations\<close>

datatype operation =
    LeaseNext string
  | LeaseSpawn string string string
  | DispatchLeased string revision string native_execution_reference
  | ReleaseLease string revision string
  | DispatchNext native_execution_reference
  | CompleteTask string revision string completion_outcome
  | CompleteChecked string revision string completion_outcome "string option"
  | RejectReady string revision failure_record
  | CancelRun
  | CancelTask string
  | MarkUncertain string revision uncertainty_identity
  | Restore
  | Reconcile string revision uncertain_resolution
  | RetryUncertain string revision
  | RecordRequest string string string agent_request_kind
  | AcceptMessage string message_intent
  | MarkDelivered string revision
  | ControlFlow flow_action
  | LeaseScript string
  | LeasePlugin string
  | LeasePipeline string
  | DispatchScript string revision string native_execution_reference
  | CompleteScript string revision string script_completion
  | CompletePipeline string revision string pipeline_completion

definition forget :: "'a run_op \<Rightarrow> unit run_op" where
  "forget x = (map_sum id (\<lambda>_. ()) (fst x), snd x)"

fun execute :: "serde_json \<Rightarrow> operation \<Rightarrow> revision \<Rightarrow> run \<Rightarrow> unit run_op" where
  "execute sj (LeaseNext l) e r = forget (lease_next_task sj e l r)"
| "execute sj (LeaseSpawn a i l) e r = forget (lease_controlled_spawn sj e a i l r)"
| "execute sj (DispatchLeased i tr l x) e r = forget (dispatch_leased_task sj i tr l x e r)"
| "execute sj (ReleaseLease i tr l) e r = release_task_lease i tr l e r"
| "execute sj (DispatchNext x) e r = forget (dispatch_next sj x e r)"
| "execute sj (CompleteTask i tr x oc) e r = complete_task i tr x oc e r"
| "execute sj (CompleteChecked i tr x oc t) e r = complete_checked_task sj i tr x oc t e r"
| "execute sj (RejectReady i tr f) e r = reject_ready_task i tr f e r"
| "execute sj CancelRun e r = forget (cancel_run e r)"
| "execute sj (CancelTask i) e r = cancel_task i e r"
| "execute sj (MarkUncertain i tr u) e r = mark_task_uncertain i tr u e r"
| "execute sj Restore e r = restore e r"
| "execute sj (Reconcile i tr res) e r = reconcile_uncertain_task i tr res e r"
| "execute sj (RetryUncertain i tr) e r = retry_uncertain_task i tr e r"
| "execute sj (RecordRequest q s a k) e r = forget (record_agent_request q s a k e r)"
| "execute sj (AcceptMessage s m) e r = accept_message s m e r"
| "execute sj (MarkDelivered m mr) e r = mark_message_delivered m mr e r"
| "execute sj (ControlFlow a) e r = control_flow a e r"
| "execute sj (LeaseScript l) e r = forget (lease_next_script sj l e r)"
| "execute sj (LeasePlugin l) e r = forget (lease_next_plugin_step sj l e r)"
| "execute sj (LeasePipeline l) e r = forget (lease_next_pipeline_step sj l e r)"
| "execute sj (DispatchScript i tr l x) e r = dispatch_leased_script i tr l x e r"
| "execute sj (CompleteScript i tr x c) e r = complete_script_task sj i tr x c e r"
| "execute sj (CompletePipeline i tr x c) e r = complete_pipeline_task sj i tr x c e r"

lemma snd_forget [simp]: "snd (forget x) = snd x"
  by (simp add: forget_def)

section \<open>Stale revisions\<close>

lemma execute_stale:
  assumes "e \<noteq> run_revision r"
  shows "\<exists>err. execute sj op e r = (Inl err, r)"
proof -
  have stale: "check_run_revision r e = Inl (RevisionConflict ''run'' e (run_revision r))"
    using assms by (simp add: check_run_revision_def check_revision_def)
  have tr: "\<exists>err. complete_task_transition i tk x oc e r = (Inl err, r)" for i tk x oc
    by (simp add: complete_task_transition_def stale)
  have ct: "\<exists>err. complete_task i tk x oc e r = (Inl err, r)" for i tk x oc
    using tr by (simp add: complete_task_def)
  have host: "\<exists>err. complete_host_task step oc i tk x e r = (Inl err, r)" for step oc i tk x
    using tr by (auto simp: complete_host_task_def split: prod.splits sum.splits) (metis prod.inject sum.distinct(1))+
  show ?thesis
  proof (cases op)
    case (CompleteChecked i tk x oc res)
    then show ?thesis
      using ct by (auto simp: complete_checked_task_def Let_def split: option.splits prod.splits sum.splits)
        (metis Pair_inject sum.distinct(1))+
  next
    case (CompleteScript i tk x c)
    then show ?thesis using host
      by (cases "host_step r i") (auto simp: complete_script_task_def)
  next
    case (CompletePipeline i tk x c)
    then show ?thesis using host
      by (cases "host_step r i") (auto simp: complete_pipeline_task_def)
  qed (simp_all add: forget_def stale ct lease_next_task_def lease_controlled_spawn_def
      dispatch_leased_task_def release_task_lease_def dispatch_next_def reject_ready_task_def
      cancel_run_def cancel_task_def mark_task_uncertain_def restore_def
      reconcile_uncertain_task_def retry_uncertain_task_def record_agent_request_def
      accept_message_def mark_message_delivered_def control_flow_def lease_next_script_def
      lease_next_plugin_step_def lease_next_pipeline_step_def lease_next_host_def
      dispatch_leased_script_def)
qed

section \<open>Moves\<close>

text \<open>A move leaves the run as it is or advances its revision by a small number. A step also keeps the
  invariant and the identity of the run.\<close>

definition moved :: "run \<Rightarrow> run \<Rightarrow> bool" where
  "moved r r' \<longleftrightarrow> r' = r \<or>
     (\<exists>k. 1 \<le> k \<and> k \<le> Suc (length (run_tasks r)) \<and> run_revision r' = run_revision r + of_nat k)"

definition step_ok :: "serde_json \<Rightarrow> run \<Rightarrow> run \<Rightarrow> bool" where
  "step_ok sj r r' \<longleftrightarrow> run_inv sj r' \<and> moved r r' \<and> run_id r' = run_id r"

lemma step_ok_refl [simp]: "run_inv sj r \<Longrightarrow> step_ok sj r r"
  by (simp add: step_ok_def moved_def)

lemma step_ok_bump:
  assumes "run_inv sj r" "keeps_wf r r'" "run_revision r' = run_revision r + 1"
  shows "step_ok sj r r'"
  using run_inv_keeps[OF assms(1,2)] assms(2,3)
  by (auto simp: step_ok_def moved_def keeps_wf_def frame_eq_def intro!: exI[of _ 1])

text \<open>After the automatic steps, with or without one more change.\<close>

lemma step_ok_automatic:
  assumes "run_inv sj r"
  shows "step_ok sj r (advance_automatic sj' r)"
    and "run_inv sj (advance_automatic sj' r)" "frame_eq r (advance_automatic sj' r)"
    and "step_ok sj (advance_automatic sj' r) r' \<Longrightarrow>
         run_revision r' = run_revision (advance_automatic sj' r) + 1 \<Longrightarrow> step_ok sj r r'"
proof -
  let ?a = "advance_automatic sj' r"
  note s = run_inv_settles[OF assms] and d = run_inv_distinct(2)[OF assms]
  have k: "keeps_wf r ?a" by (rule keeps_wf_automatic[OF s d])
  show inv: "run_inv sj ?a" by (rule run_inv_keeps[OF assms k])
  show f: "frame_eq r ?a" using k by (simp add: keeps_wf_def)
  then have i: "run_id ?a = run_id r" by (simp add: frame_eq_def)
  obtain m where m: "progress r ?a m" using advance_automatic_progress[OF s] by blast
  then have le: "m \<le> length (run_tasks r)"
    using ready_count_le[of r] by (auto simp: progress_def)
  show "step_ok sj r ?a"
    using inv m le i by (cases "m = 0") (auto simp: step_ok_def moved_def progress_def intro!: exI[of _ m])
  show "step_ok sj r r'" if "step_ok sj ?a r'" "run_revision r' = run_revision ?a + 1"
    using that m le i
    by (auto simp: step_ok_def moved_def progress_def ac_simps intro!: exI[of _ "Suc m"])
qed

section \<open>One task at a time\<close>

lemma index_or_Inr: "index_or e r i = Inr k \<Longrightarrow> task_index r i = Some k"
  by (auto simp: index_or_def split: option.splits)

lemma ready_index:
  assumes "distinct (map task_step_id (run_tasks r))" "ready_task_ids r = i # is" "task_index r i = Some k"
  shows "k < length (run_tasks r)" "task_ready r (run_tasks r ! k)" "task_step_id (run_tasks r ! k) = i"
proof -
  show k: "k < length (run_tasks r)" "task_step_id (run_tasks r ! k) = i"
    using task_index_Some[OF assms(3)] by auto
  have "i \<in> set (ready_task_ids r)" using assms(2) by simp
  then obtain t where t: "t \<in> set (run_tasks r)" "task_step_id t = i" "task_ready r t"
    unfolding ready_task_ids_mem by blast
  have "t = run_tasks r ! k"
    using k t assms(1) by (metis distinct_map inj_on_contraD nth_mem)
  with t show "task_ready r (run_tasks r ! k)" by simp
qed

lemma keeps_wf_take_lease:
  assumes "task_status (run_tasks r ! k) = Ready"
  shows "keeps_wf r (take_lease l k r)"
proof -
  have "keeps_wf r (update_task k (\<lambda>t. bump (t\<lparr>task_lease_id := Some l\<rparr>)) r)"
    by (rule keeps_wf_update) (use assms in \<open>simp_all add: task_wf_def\<close>)
  then show ?thesis unfolding take_lease_def using keeps_wf_trans keeps_wf_bump_run by blast
qed

lemma keeps_wf_start:
  assumes "task_status (run_tasks r ! k) = Ready"
  shows "keeps_wf r (start_execution x k r)"
proof -
  have "keeps_wf r (update_task k (\<lambda>t. bump (t\<lparr>task_status := Running, task_lease_id := None,
       task_execution := Some x\<rparr>)) r)"
    by (rule keeps_wf_update) (use assms in \<open>simp_all add: task_wf_def\<close>)
  then show ?thesis unfolding start_execution_def using keeps_wf_trans keeps_wf_bump_run by blast
qed

lemma lease_revisions [simp]:
  "run_revision (take_lease l k r) = run_revision r + 1"
  "run_revision (start_execution x k r) = run_revision r + 1"
  by (simp_all add: take_lease_def start_execution_def)

text \<open>Operations that touch the first ready task after the automatic steps.\<close>

lemma step_ok_first_ready:
  assumes "run_inv sj r" "ready_task_ids (advance_automatic sj' r) = i # is"
    "task_index (advance_automatic sj' r) i = Some k"
  shows "step_ok sj r (take_lease l k (advance_automatic sj' r))"
    and "step_ok sj r (start_execution x k (advance_automatic sj' r))"
proof -
  let ?a = "advance_automatic sj' r"
  note A = step_ok_automatic[OF assms(1), of sj']
  have "task_status (run_tasks ?a ! k) = Ready"
    using ready_index(2)[OF run_inv_distinct(2)[OF A(2)] assms(2,3)] by (simp add: task_ready_def)
  note ready = keeps_wf_take_lease[OF this, of l] keeps_wf_start[OF this, of x]
  show "step_ok sj r (take_lease l k ?a)"
    by (rule A(4)[OF step_ok_bump[OF A(2) ready(1)]]) simp_all
  show "step_ok sj r (start_execution x k ?a)"
    by (rule A(4)[OF step_ok_bump[OF A(2) ready(2)]]) simp_all
qed

lemma step_ok_lease_next:
  assumes "run_inv sj r"
  shows "step_ok sj r (snd (lease_next_task sj' e l r))"
proof -
  note A = step_ok_automatic(1)[OF assms, of sj'] and F = step_ok_first_ready[OF assms]
  show ?thesis
    using assms A F
    by (auto simp: lease_next_task_def require_def Let_def split: sum.splits list.splits
        dest!: index_or_Inr)
qed

lemma step_ok_dispatch_next:
  assumes "run_inv sj r"
  shows "step_ok sj r (snd (dispatch_next sj' x e r))"
proof -
  note A = step_ok_automatic(1)[OF assms, of sj'] and F = step_ok_first_ready[OF assms]
  show ?thesis
    using assms A F
    by (auto simp: dispatch_next_def require_def Let_def split: sum.splits list.splits
        dest!: index_or_Inr)
qed

lemma step_ok_lease_host:
  assumes "run_inv sj r"
  shows "step_ok sj r (snd (lease_next_host sj' accepts build l e r))"
proof -
  note A = step_ok_automatic(1)[OF assms, of sj'] and F = step_ok_first_ready[OF assms]
  show ?thesis
    using assms A F
    by (auto simp: lease_next_host_def require_def Let_def split: sum.splits list.splits option.splits
        dest!: index_or_Inr)
qed

lemma step_ok_update:
  assumes "run_inv sj r" "\<And>t. task_step_id (f t) = task_step_id t"
    "k < length (run_tasks r) \<Longrightarrow> wf_task r (run_tasks r ! k) \<Longrightarrow> wf_task r (f (run_tasks r ! k))"
  shows "step_ok sj r (bump_run (update_task k f r))"
    and "step_ok sj r ((bump_run (update_task k f r))\<lparr>run_status := st\<rparr>)"
    and "step_ok sj r (refresh_status (bump_run (update_task k f r)))"
    and "step_ok sj r (refresh_status (bump_run (cancel_ready (update_task k f r))))"
proof -
  have k: "keeps_wf r (update_task k f r)" by (rule keeps_wf_update[OF assms(2,3)])
  then have b: "keeps_wf r (bump_run (update_task k f r))"
    and c: "keeps_wf r (bump_run (cancel_ready (update_task k f r)))"
    using keeps_wf_trans keeps_wf_bump_run keeps_wf_cancel_ready by blast+
  show "step_ok sj r (bump_run (update_task k f r))"
    by (rule step_ok_bump[OF assms(1) b]) simp
  show "step_ok sj r ((bump_run (update_task k f r))\<lparr>run_status := st\<rparr>)"
    by (rule step_ok_bump[OF assms(1) keeps_wf_trans[OF b keeps_wf_flags(1)]]) simp
  show "step_ok sj r (refresh_status (bump_run (update_task k f r)))"
    by (rule step_ok_bump[OF assms(1) keeps_wf_trans[OF b keeps_wf_refresh]]) simp
  show "step_ok sj r (refresh_status (bump_run (cancel_ready (update_task k f r))))"
    by (rule step_ok_bump[OF assms(1) keeps_wf_trans[OF c keeps_wf_refresh]])
       (simp add: cancel_ready_def)
qed

lemma step_ok_lease_spawn:
  assumes "run_inv sj r"
  shows "step_ok sj r (snd (lease_controlled_spawn sj' e a i l r))"
proof -
  have "step_ok sj r (take_lease l k r)" if "task_status (run_tasks r ! k) = Ready" for k
    by (rule step_ok_bump[OF assms keeps_wf_take_lease[OF that]]) simp
  with assms show ?thesis
    by (auto simp: lease_controlled_spawn_def require_def Let_def split: sum.splits option.splits)
qed

lemma step_ok_dispatch_leased:
  assumes "run_inv sj r"
  shows "step_ok sj r (snd (dispatch_leased_task sj' i tr l x e r))"
    and "step_ok sj r (snd (dispatch_leased_script i tr l x e r))"
proof -
  have s: "step_ok sj r (start_execution x k r)" if "task_status (run_tasks r ! k) = Ready" for k
    by (rule step_ok_bump[OF assms keeps_wf_start[OF that]]) simp
  show "step_ok sj r (snd (dispatch_leased_task sj' i tr l x e r))"
    using assms s by (auto simp: dispatch_leased_task_def require_def Let_def split: sum.splits)
  show "step_ok sj r (snd (dispatch_leased_script i tr l x e r))"
    using assms s by (auto simp: dispatch_leased_script_def require_def Let_def split: sum.splits)
qed

lemma step_ok_release:
  assumes "run_inv sj r"
  shows "step_ok sj r (snd (release_task_lease i tr l e r))"
proof -
  have "step_ok sj r (bump_run (update_task k (\<lambda>t. bump (t\<lparr>task_lease_id := None\<rparr>)) r))" for k
    by (rule step_ok_update(1)[OF assms]) (simp_all add: task_wf_def)
  with assms show ?thesis
    by (auto simp: release_task_lease_def require_def Let_def split: sum.splits)
qed

lemma task_wf_outcome:
  assumes "task_wf steps pins t" "task_status t = Running"
    "\<And>reference. oc = OutcomeSucceeded reference \<Longrightarrow> reference_check reference = Inr ()"
  shows "task_wf steps pins (record_outcome oc t)"
  using assms by (cases oc) (simp_all add: record_outcome_def task_wf_def)

lemma record_outcome_id [simp]: "task_step_id (record_outcome oc t) = task_step_id t"
  by (cases oc) (simp_all add: record_outcome_def)

text \<open>The terminal transition: unchanged on an error, one recorded outcome otherwise.\<close>

lemma complete_transition_cases:
  obtains err where "complete_task_transition i tr x oc e r = (Inl err, r)"
  | k where "task_index r i = Some k" "task_revision (run_tasks r ! k) = tr"
      "task_status (run_tasks r ! k) = Running" "e = run_revision r"
      "map_option execution_id (task_execution (run_tasks r ! k)) = Some x"
      "\<And>reference. oc = OutcomeSucceeded reference \<Longrightarrow> reference_check reference = Inr ()"
      "complete_task_transition i tr x oc e r = (Inr (), refresh_status (bump_run
         (case oc of OutcomeFailed _ \<Rightarrow> cancel_ready (update_task k (record_outcome oc) r)
                   | OutcomeSucceeded _ \<Rightarrow> update_task k (record_outcome oc) r)))"
proof (cases "check_run_revision r e")
  case (Inl err)
  then show thesis using that(1) by (simp add: complete_task_transition_def)
next
  case run: (Inr u)
  show thesis
  proof (cases "index_or (UnknownTask i) r i")
    case (Inl err)
    with run show thesis using that(1) by (simp add: complete_task_transition_def)
  next
    case (Inr k)
    show thesis
    proof (cases "task_revision (run_tasks r ! k) = tr \<and> task_status (run_tasks r ! k) = Running \<and>
        map_option execution_id (task_execution (run_tasks r ! k)) = Some x \<and>
        (case oc of OutcomeSucceeded reference \<Rightarrow> reference_check reference = Inr ()
                  | OutcomeFailed _ \<Rightarrow> True)")
      case True
      with run Inr show thesis
        by (intro that(2)[OF index_or_Inr[OF Inr]])
           (auto simp: complete_task_transition_def check_run_revision_def check_revision_def Let_def
             split: completion_outcome.splits if_splits)
    next
      case False
      with run Inr have "\<exists>err. complete_task_transition i tr x oc e r = (Inl err, r)"
        by (auto simp: complete_task_transition_def check_revision_def Let_def require_def
            split: completion_outcome.splits sum.splits)
      then show thesis using that(1) by blast
    qed
  qed
qed

lemma step_ok_transition:
  assumes "run_inv sj r"
  shows "step_ok sj r (snd (complete_task_transition i tr x oc e r))"
proof (rule complete_transition_cases[of i tr x oc e r])
  fix k
  assume k: "task_status (run_tasks r ! k) = Running"
      "\<And>reference. oc = OutcomeSucceeded reference \<Longrightarrow> reference_check reference = Inr ()"
    and eq: "complete_task_transition i tr x oc e r = (Inr (), refresh_status (bump_run
         (case oc of OutcomeFailed _ \<Rightarrow> cancel_ready (update_task k (record_outcome oc) r)
                   | OutcomeSucceeded _ \<Rightarrow> update_task k (record_outcome oc) r)))"
  have wf: "wf_task r (record_outcome oc (run_tasks r ! k))" if "wf_task r (run_tasks r ! k)"
    by (rule task_wf_outcome[OF that k(1)]) (rule k(2))
  show ?thesis unfolding eq
    using step_ok_update(3,4)[OF assms, of "record_outcome oc" k, OF record_outcome_id wf]
    by (cases oc) simp_all
qed (use assms in simp)

lemma step_ok_complete:
  assumes "run_inv sj r"
  shows "step_ok sj r (snd (complete_task i tr x oc e r))"
  using assms step_ok_transition[OF assms] by (simp add: complete_task_def)

text \<open>What follows a successful terminal transition: recorded data, then review and acceptance.\<close>

lemma transition_revision:
  "complete_task_transition i tr x oc e r = (Inr u, r1) \<Longrightarrow> run_revision r1 = run_revision r + 1"
  by (rule complete_transition_cases[of i tr x oc e r])
     (auto simp: cancel_ready_def split: completion_outcome.splits)

lemma settle_revision [simp]: "run_revision (settle_result k step r) = run_revision r"
  by (auto simp: settle_result_def apply_acceptance_def review_rejected_def repeat_from_def Let_def
      split: option.splits bool.splits)

lemma step_ok_settled:
  assumes "run_inv sj r" "step_ok sj r r1" "run_revision r1 = run_revision r + 1"
    "\<And>t. task_step_id (f t) = task_step_id t"
    "k < length (run_tasks r1) \<Longrightarrow> wf_task r1 (run_tasks r1 ! k) \<Longrightarrow> wf_task r1 (f (run_tasks r1 ! k))"
  shows "step_ok sj r (settle_result k step (update_task k f r1))"
proof -
  have inv: "run_inv sj r1" using assms(2) by (simp add: step_ok_def)
  have u: "keeps_wf r1 (update_task k f r1)" by (rule keeps_wf_update[OF assms(4,5)])
  have "distinct (map task_step_id (run_tasks (update_task k f r1)))"
    using run_inv_distinct(2)[OF run_inv_keeps[OF inv u]] .
  from keeps_wf_trans[OF u keeps_wf_settle[OF this]]
  have k: "keeps_wf r1 (settle_result k step (update_task k f r1))" .
  then have "run_id (settle_result k step (update_task k f r1)) = run_id r"
    using assms(2) by (simp add: keeps_wf_def frame_eq_def step_ok_def)
  with run_inv_keeps[OF inv k] assms(3) show ?thesis by (auto simp: step_ok_def moved_def intro!: exI[of _ 1])
qed

lemma step_ok_checked:
  assumes "run_inv sj r"
  shows "step_ok sj r (snd (complete_checked_task sj' i tr x oc res e r))"
proof -
  have "step_ok sj r (settle_result k step (update_task k (task_result_data_update (\<lambda>_. data)) r1))"
    if "complete_task i tr x oc' e r = (Inr u, r1)" for oc' u r1 k step data
  proof (rule step_ok_settled[OF assms])
    show "step_ok sj r r1" using step_ok_complete[OF assms, of i tr x oc' e] that by simp
    show "run_revision r1 = run_revision r + 1"
      using that transition_revision by (auto simp: complete_task_def split: if_splits)
  qed (simp_all add: task_wf_def)
  moreover have "step_ok sj r r1" if "complete_task i tr x oc' e r = (res', r1)" for oc' res' r1
    using step_ok_complete[OF assms, of i tr x oc' e] that by simp
  ultimately show ?thesis
    using assms
    by (auto simp: complete_checked_task_def require_def Let_def split: option.splits prod.splits sum.splits)
qed

lemma task_index_ids:
  assumes ids: "map task_step_id (run_tasks r') = map task_step_id (run_tasks r)"
  shows "task_index r' i = task_index r i"
  unfolding task_index_def
proof (rule position_cong_len)
  show len: "length (run_tasks r') = length (run_tasks r)" using ids by (metis length_map)
  show "(task_step_id (run_tasks r' ! j) = i) = (task_step_id (run_tasks r ! j) = i)"
    if "j < length (run_tasks r')" for j
    using that len ids by (metis nth_map)
qed

lemma task_index_frame: "frame_eq r r' \<Longrightarrow> task_index r' i = task_index r i"
  by (rule task_index_ids) (simp add: frame_eq_def)

lemma transition_frame: "frame_eq r (snd (complete_task_transition i tr x oc e r))"
proof (rule complete_transition_cases[of i tr x oc e r])
  fix k
  assume eq: "complete_task_transition i tr x oc e r = (Inr (), refresh_status (bump_run
         (case oc of OutcomeFailed _ \<Rightarrow> cancel_ready (update_task k (record_outcome oc) r)
                   | OutcomeSucceeded _ \<Rightarrow> update_task k (record_outcome oc) r)))"
  have u: "frame_eq r (update_task k (record_outcome oc) r)" by (rule update_task_frame) simp
  moreover have "frame_eq s (cancel_ready s)" for s
    unfolding cancel_ready_def by (rule map_tasks_frame) simp
  ultimately have "frame_eq r (case oc of OutcomeFailed _ \<Rightarrow> cancel_ready (update_task k (record_outcome oc) r)
                   | OutcomeSucceeded _ \<Rightarrow> update_task k (record_outcome oc) r)"
    using frame_eq_trans by (cases oc) auto
  then show ?thesis unfolding eq snd_conv
    using frame_eq_trans[OF frame_eq_trans[OF _ bump_run_frame] refresh_status_frame] by blast
qed simp

text \<open>The completed task carries its outcome.\<close>

lemma transition_task:
  assumes "complete_task_transition i tr x oc e r = (Inr u, r1)" "task_index r1 i = Some k"
  shows "task_status (run_tasks r1 ! k) = (case oc of OutcomeSucceeded _ \<Rightarrow> Succeeded | OutcomeFailed _ \<Rightarrow> Failed)"
    and "k < length (run_tasks r1)"
proof -
  have k: "task_index r i = Some k"
    using assms task_index_frame[OF transition_frame[of r i tr x oc e]] by simp
  note K = task_index_Some[OF k]
  show "k < length (run_tasks r1)" by (rule task_index_Some(1)[OF assms(2)])
  show "task_status (run_tasks r1 ! k) = (case oc of OutcomeSucceeded _ \<Rightarrow> Succeeded | OutcomeFailed _ \<Rightarrow> Failed)"
    by (rule complete_transition_cases[of i tr x oc e r])
       (use assms(1) k K in \<open>auto simp: cancel_ready_def record_outcome_def fail_fast_def
          split: completion_outcome.splits\<close>)
qed

lemma step_ok_host_complete:
  assumes "run_inv sj r" "find_step r i = Some step" "is_host_executed step"
    "\<And>oc data out f. res = (oc, data, out) \<Longrightarrow> oc = OutcomeFailed f \<Longrightarrow> out = None"
  shows "step_ok sj r (snd (complete_host_task step res i tr x e r))"
proof -
  obtain oc data out where res: "res = (oc, data, out)" by (cases res)
  have "step_ok sj r (settle_result k step (update_task k (\<lambda>t. t\<lparr>task_result_data := data, task_output := out\<rparr>) r1))"
    if c: "complete_task_transition i tr x oc e r = (Inr u, r1)" and k: "task_index r1 i = Some k" for u r1 k
  proof (rule step_ok_settled[OF assms(1)])
    show "step_ok sj r r1" using step_ok_transition[OF assms(1), of i tr x oc e] c by simp
    show "run_revision r1 = run_revision r + 1" by (rule transition_revision[OF c])
    have "run_steps r1 = run_steps r" using transition_frame[of r i tr x oc e] c by (simp add: frame_eq_def)
    then have host: "\<exists>s\<in>set (run_steps r1). step_id s = i \<and> is_host_executed s"
      using find_Some_set[OF assms(2)[unfolded find_step_def]] assms(3) by auto
    show "wf_task r1 ((run_tasks r1 ! k)\<lparr>task_result_data := data, task_output := out\<rparr>)"
      if "wf_task r1 (run_tasks r1 ! k)"
      using that transition_task(1)[OF c k] task_index_Some(2)[OF k] host assms(4)[OF res]
      by (cases oc) (simp_all add: task_wf_def)
  qed simp
  moreover have "step_ok sj r r1" if "complete_task_transition i tr x oc e r = (res', r1)" for res' r1
    using step_ok_transition[OF assms(1), of i tr x oc e] that by simp
  ultimately show ?thesis
    by (auto simp: complete_host_task_def res require_def split: prod.splits sum.splits dest!: index_or_Inr)
qed

lemma host_step_Inr: "host_step r i = Inr step \<Longrightarrow> find_step r i = Some step \<and> is_host_executed step"
  by (auto simp: host_step_def split: option.splits if_splits)

lemma stdout_outcome_failed: "stdout_outcome res = (OutcomeFailed f, data, out) \<Longrightarrow> out = None"
  by (auto simp: stdout_outcome_def split: script_stdout_result.splits)

lemma host_outcome_failed:
  "script_outcome sj step c = (OutcomeFailed f, data, out) \<Longrightarrow> out = None"
  "pipeline_outcome sj step pc = (OutcomeFailed f, data, out) \<Longrightarrow> out = None"
  by (auto simp: script_outcome_def pipeline_outcome_def stdout_outcome_failed
      split: script_completion.splits pipeline_completion.splits option.splits sum.splits if_splits)

lemma step_ok_script:
  assumes "run_inv sj r"
  shows "step_ok sj r (snd (complete_script_task sj' i tr x c e r))"
    and "step_ok sj r (snd (complete_pipeline_task sj' i tr x pc e r))"
proof -
  show "step_ok sj r (snd (complete_script_task sj' i tr x c e r))"
  proof (cases "host_step r i")
    case (Inr step)
    note H = host_step_Inr[OF Inr]
    have "step_ok sj r (snd (complete_host_task step (script_outcome sj' step c) i tr x e r))"
      by (rule step_ok_host_complete[OF assms]) (use H host_outcome_failed in auto)
    with Inr assms show ?thesis by (simp add: complete_script_task_def)
  qed (use assms in \<open>simp add: complete_script_task_def\<close>)
  show "step_ok sj r (snd (complete_pipeline_task sj' i tr x pc e r))"
  proof (cases "host_step r i")
    case (Inr step)
    note H = host_step_Inr[OF Inr]
    have "step_ok sj r (snd (complete_host_task step (pipeline_outcome sj' step pc) i tr x e r))"
      by (rule step_ok_host_complete[OF assms]) (use H host_outcome_failed in auto)
    with Inr assms show ?thesis by (simp add: complete_pipeline_task_def)
  qed (use assms in \<open>simp add: complete_pipeline_task_def\<close>)
qed

lemma step_ok_reject:
  assumes "run_inv sj r"
  shows "step_ok sj r (snd (reject_ready_task i tr f e r))"
proof -
  have "step_ok sj r (refresh_status (bump_run (cancel_ready (update_task k
      (\<lambda>t. bump (t\<lparr>task_status := Failed, task_failure := Some f\<rparr>)) r))))"
    if "task_status (run_tasks r ! k) = Ready" "task_lease_id (run_tasks r ! k) = None" for k
    by (rule step_ok_update(4)[OF assms]) (use that in \<open>simp_all add: task_wf_def\<close>)
  with assms show ?thesis
    by (auto simp: reject_ready_task_def require_def Let_def split: sum.splits)
qed

lemma task_wf_cancel:
  "task_wf steps pins t \<Longrightarrow> task_wf steps pins (t\<lparr>task_status := Cancelled\<rparr>)"
  "task_wf steps pins t \<Longrightarrow> task_wf steps pins (t\<lparr>task_status := Cancelled, task_lease_id := None\<rparr>)"
  "task_wf steps pins t \<Longrightarrow> task_wf steps pins (t\<lparr>task_lease_id := None, task_status := Cancelled\<rparr>)"
  by (simp_all add: task_wf_def)

lemma step_ok_cancel_run:
  assumes "run_inv sj r"
  shows "step_ok sj r (snd (cancel_run e r))"
proof -
  have "keeps_wf r (r\<lparr>run_tasks := map cancel_active (run_tasks r)\<rparr>)"
    by (rule keeps_wf_map) (auto simp: cancel_active_def task_wf_cancel)
  then have k: "keeps_wf r (bump_run (r\<lparr>run_tasks := map cancel_active (run_tasks r), run_status := RunCancelled\<rparr>))"
    by (auto simp: keeps_wf_def frame_eq_def tasks_wf_def bump_run_def)
  have "step_ok sj r (bump_run (r\<lparr>run_tasks := map cancel_active (run_tasks r), run_status := RunCancelled\<rparr>))"
    by (rule step_ok_bump[OF assms k]) simp
  with assms show ?thesis
    by (auto simp: cancel_run_def require_def split: sum.splits)
qed

lemma keeps_wf_cancel_downstream:
  "keeps_wf r (cancel_downstream r) \<and> run_revision (cancel_downstream r) = run_revision r"
proof (induction r rule: cancel_downstream.induct)
  case (1 r)
  have "keeps_wf r (cancel_pass r)"
    unfolding cancel_pass_def by (rule keeps_wf_map) (auto simp: task_wf_cancel)
  moreover have "run_revision (cancel_pass r) = run_revision r" by (simp add: cancel_pass_def)
  ultimately show ?case
    using 1 keeps_wf_trans by (subst (1 2) cancel_downstream.simps) auto
qed

lemma step_ok_cancel_task:
  assumes "run_inv sj r"
  shows "step_ok sj r (snd (cancel_task i e r))"
proof -
  have "step_ok sj r (refresh_status (bump_run (cancel_downstream (update_task k
      (\<lambda>t. bump (t\<lparr>task_status := Cancelled, task_lease_id := None\<rparr>)) r))))" (is "step_ok sj r (refresh_status (bump_run (cancel_downstream ?u)))") for k
  proof (rule step_ok_bump[OF assms])
    have "keeps_wf r ?u" by (rule keeps_wf_update) (simp_all add: task_wf_cancel)
    then have "keeps_wf r (cancel_downstream ?u)"
      using keeps_wf_cancel_downstream[of ?u] keeps_wf_trans by blast
    then show "keeps_wf r (refresh_status (bump_run (cancel_downstream ?u)))"
      using keeps_wf_trans keeps_wf_bump_run keeps_wf_refresh by blast
    show "run_revision (refresh_status (bump_run (cancel_downstream ?u))) = run_revision r + 1"
      using keeps_wf_cancel_downstream[of ?u] by simp
  qed
  with assms show ?thesis
    by (auto simp: cancel_task_def require_def split: sum.splits)
qed

lemma task_wf_uncertain:
  "task_wf steps pins t \<Longrightarrow> task_status t \<in> {Ready, Running} \<Longrightarrow>
   task_wf steps pins (t\<lparr>task_status := Uncertain, task_lease_id := None\<rparr>)"
  by (auto simp: task_wf_def)

lemma step_ok_mark_uncertain:
  assumes "run_inv sj r"
  shows "step_ok sj r (snd (mark_task_uncertain i tr u e r))"
proof -
  have "step_ok sj r ((bump_run (update_task k
      (\<lambda>t. bump (t\<lparr>task_status := Uncertain, task_lease_id := None\<rparr>)) r))\<lparr>run_status := RunUncertain\<rparr>)"
    if "task_status (run_tasks r ! k) \<in> {Ready, Running}" for k
    by (rule step_ok_update(2)[OF assms]) (use that in \<open>simp_all add: task_wf_uncertain\<close>)
  with assms show ?thesis
    by (auto simp: mark_task_uncertain_def require_def Let_def split: sum.splits uncertainty_identity.splits)
qed

lemma step_ok_restore:
  assumes "run_inv sj r"
  shows "step_ok sj r (snd (restore e r))"
proof -
  let ?ids = "bs_collect (map task_step_id (filter (interrupted_by_restart r) (run_tasks r)))"
  let ?f = "\<lambda>t. if task_step_id t \<in> set ?ids
      then bump (t\<lparr>task_status := Uncertain, task_lease_id := None\<rparr>) else t"
  let ?r1 = "r\<lparr>run_tasks := map ?f (run_tasks r)\<rparr>"
  have k: "keeps_wf r ?r1"
  proof (rule keeps_wf_map)
    fix t assume t: "t \<in> set (run_tasks r)" "wf_task r t"
    have "task_status t \<in> {Ready, Running}" if "task_step_id t \<in> set ?ids"
    proof -
      from that obtain t' where t': "t' \<in> set (run_tasks r)" "task_step_id t' = task_step_id t"
        "interrupted_by_restart r t'" by auto
      then have "t' = t"
        using run_inv_distinct(2)[OF assms] t(1) by (auto simp: distinct_map dest: inj_onD)
      with t'(3) show ?thesis by (auto simp: interrupted_by_restart_def split: task_status.splits)
    qed
    with t(2) show "wf_task r (?f t)" by (simp add: task_wf_uncertain del: set_bs_collect)
  qed simp
  then have b: "keeps_wf r (bump_run (?r1\<lparr>run_status := RunUncertain\<rparr>))"
    using keeps_wf_trans keeps_wf_bump_run keeps_wf_flags(1) by blast
  have "step_ok sj r (bump_run (?r1\<lparr>run_status := RunUncertain\<rparr>))"
    by (rule step_ok_bump[OF assms b]) simp
  moreover have "?r1 = r" if "\<not> list_ex (\<lambda>t. task_step_id t \<in> set ?ids) (run_tasks r)"
  proof -
    have "map ?f (run_tasks r) = run_tasks r" using that by (intro map_idI) (auto simp: list_ex_iff)
    then show ?thesis by simp
  qed
  ultimately show ?thesis
    using assms unfolding restore_def require_def Let_def
    by (cases "check_run_revision r e") (auto simp del: set_bs_collect)
qed

lemma task_wf_resolve:
  assumes "task_wf steps pins t" "task_status t = Uncertain"
    "\<And>reference. res = ResolvedSucceeded reference \<Longrightarrow> reference_check reference = Inr ()"
  shows "task_wf steps pins (resolve_task res t)"
  using assms by (cases res) (simp_all add: resolve_task_def task_wf_def)

lemma resolve_task_id [simp]: "task_step_id (resolve_task res t) = task_step_id t"
  by (cases res) (simp_all add: resolve_task_def)

lemma step_ok_reconcile:
  assumes "run_inv sj r"
  shows "step_ok sj r (snd (reconcile_uncertain_task i tr res e r))"
proof -
  let ?check = "case res of
      ResolvedSucceeded (Some reference) \<Rightarrow>
        if list_ex (\<lambda>s. step_id s = i \<and> is_host_executed s) (run_steps r)
        then Inl (ExecutorMismatch i)
        else map_err InvalidDefinition (validate_history_reference reference)
    | _ \<Rightarrow> Inr ()"
  have fin: "step_ok sj r (refresh_status (bump_run (case res of
         ResolvedSucceeded _ \<Rightarrow> update_task k (resolve_task res) r
       | _ \<Rightarrow> cancel_ready (update_task k (resolve_task res) r))))"
    if u: "task_status (run_tasks r ! k) = Uncertain" and check: "?check = Inr ()" for k
  proof -
    have ref: "reference_check reference = Inr ()" if "res = ResolvedSucceeded reference" for reference
      using check that by (cases reference) (auto simp: reference_check_def split: if_splits)
    have wf: "wf_task r (resolve_task res (run_tasks r ! k))" if "wf_task r (run_tasks r ! k)"
      by (rule task_wf_resolve[OF that u ref])
    show ?thesis
      using step_ok_update(3,4)[OF assms, of "resolve_task res" k, OF resolve_task_id wf]
      by (cases res) simp_all
  qed
  show ?thesis
    using assms fin
    by (auto simp: reconcile_uncertain_task_def require_def Let_def split: sum.splits)
qed

lemma step_ok_retry:
  assumes "run_inv sj r"
  shows "step_ok sj r (snd (retry_uncertain_task i tr e r))"
proof -
  have "step_ok sj r ((bump_run (update_task k (\<lambda>t. (reset_task t)\<lparr>task_lease_id := None\<rparr>) r))
      \<lparr>run_attempts := a, run_status := RunRunning\<rparr>)" (is "step_ok sj r (?b\<lparr>run_attempts := a, run_status := RunRunning\<rparr>)") for k a
  proof (rule step_ok_bump[OF assms])
    have "keeps_wf r (update_task k (\<lambda>t. (reset_task t)\<lparr>task_lease_id := None\<rparr>) r)"
      by (rule keeps_wf_update) (simp_all add: reset_task_def task_wf_def)
    then show "keeps_wf r (?b\<lparr>run_attempts := a, run_status := RunRunning\<rparr>)"
      using keeps_wf_trans keeps_wf_bump_run keeps_wf_flags by metis
  qed simp
  with assms show ?thesis
    by (auto simp: retry_uncertain_task_def require_def Let_def split: sum.splits)
qed

section \<open>Requests and messages\<close>

lemma step_ok_rev:
  "run_inv sj r' \<Longrightarrow> run_revision r' = run_revision r + 1 \<Longrightarrow> run_id r' = run_id r \<Longrightarrow> step_ok sj r r'"
  by (auto simp: step_ok_def moved_def intro!: exI[of _ 1])

lemma step_ok_request:
  assumes "run_inv sj r"
  shows "step_ok sj r (snd (record_agent_request q s a k e r))"
proof -
  have "step_ok sj r (bump_run (r\<lparr>run_agent_requests := run_agent_requests r @
      [\<lparr>request_id = q, request_actor_workspace_session_id = s, request_actor_member_id = a,
        request_operation = k\<rparr>]\<rparr>))"
    if "find (\<lambda>x. request_id x = q) (run_agent_requests r) = None"
  proof (rule step_ok_rev)
    show "run_inv sj (bump_run (r\<lparr>run_agent_requests := run_agent_requests r @
      [\<lparr>request_id = q, request_actor_workspace_session_id = s, request_actor_member_id = a,
        request_operation = k\<rparr>]\<rparr>))"
      using assms that
      by (auto simp: run_inv_def bump_run_def tasks_wf_def message_authority_ok_def find_None_iff')
  qed (simp_all add: bump_run_def)
  with assms show ?thesis
    by (auto simp: record_agent_request_def require_def split: sum.splits option.splits)
qed

lemma step_ok_accept:
  assumes "run_inv sj r"
  shows "step_ok sj r (snd (accept_message s m e r))"
proof -
  let ?m = "\<lparr>message_id = intent_id m, message_sender_member_id = s,
      message_recipient_member_id = intent_recipient_member_id m,
      message_body = intent_body m, message_status = Accepted, message_revision = 0\<rparr>"
  have "step_ok sj r (bump_run (r\<lparr>run_messages := run_messages r @ [?m]\<rparr>))"
    if "\<not> list_ex (\<lambda>x. message_id x = intent_id m) (run_messages r)" "\<not> is_blank_text (intent_id m)"
      "authorize_send (def_team (run_definition r)) s (intent_recipient_member_id m) = Inr u" for u
  proof (rule step_ok_rev)
    show "run_inv sj (bump_run (r\<lparr>run_messages := run_messages r @ [?m]\<rparr>))"
      using assms that
      by (auto simp: run_inv_def bump_run_def tasks_wf_def message_authority_ok_def list_ex_iff)
  qed (simp_all add: bump_run_def)
  with assms show ?thesis
    by (auto simp: accept_message_def require_def split: sum.splits)
qed

lemma step_ok_delivered:
  assumes "run_inv sj r"
  shows "step_ok sj r (snd (mark_message_delivered mid mr e r))"
proof -
  let ?f = "\<lambda>m. m\<lparr>message_status := Delivered, message_revision := message_revision m + 1\<rparr>"
  have "step_ok sj r (bump_run (r\<lparr>run_messages := upd_at k ?f (run_messages r)\<rparr>))" for k
  proof (rule step_ok_rev)
    have ids: "map message_id (upd_at k ?f (run_messages r)) = map message_id (run_messages r)"
      by (rule map_upd_at) simp
    have "message_authority_ok r x" if "x \<in> set (upd_at k ?f (run_messages r))" for x
      using set_upd_atD[OF that] assms nth_mem by (fastforce simp: run_inv_def message_authority_ok_def)
    with ids assms show "run_inv sj (bump_run (r\<lparr>run_messages := upd_at k ?f (run_messages r)\<rparr>))"
      by (auto simp: run_inv_def bump_run_def tasks_wf_def message_authority_ok_def)
  qed (simp_all add: bump_run_def)
  with assms show ?thesis
    by (auto simp: mark_message_delivered_def require_def Let_def split: sum.splits option.splits)
qed

section \<open>Flow control\<close>

lemma step_ok_flow:
  assumes "run_inv sj r"
  shows "step_ok sj r (snd (control_flow a e r))"
proof -
  have fin: "step_ok sj r (refresh_status (bump_run (advance_conditions r')))"
    if k: "keeps_wf r r'" and rev: "run_revision r' = run_revision r" for r'
  proof (rule step_ok_bump[OF assms])
    have "keeps_wf r' (advance_conditions r')"
      by (rule keeps_wf_advance_conditions[OF run_inv_distinct(2)[OF run_inv_keeps[OF assms k]]])
    with k show "keeps_wf r (refresh_status (bump_run (advance_conditions r')))"
      using keeps_wf_trans keeps_wf_bump_run keeps_wf_refresh by blast
  qed (simp add: rev)
  have dec: "step_ok sj r (refresh_status (bump_run (advance_conditions (update_task k
      (\<lambda>t. bump (t\<lparr>task_status := st, task_failure := f\<rparr>)) r))))"
    if "task_status (run_tasks r ! k) = AwaitingApproval"
      "st = Succeeded \<or> st = Failed \<and> f \<noteq> None" for k st f
  proof (rule fin)
    show "keeps_wf r (update_task k (\<lambda>t. bump (t\<lparr>task_status := st, task_failure := f\<rparr>)) r)"
      by (rule keeps_wf_update) (use that in \<open>auto simp: task_wf_def\<close>)
  qed (simp_all add: bump_run_def)
  have rep: "run_revision (snd (repeat_from i r)) = run_revision r" for i
    by (simp add: repeat_from_def Let_def)
  have rep_err: "step_ok sj r r'" if "repeat_from i r = (Inl err, r')" for i err r'
    using that assms by (auto simp: repeat_from_def Let_def split: if_splits)
  have rep_ok: "step_ok sj r (refresh_status (bump_run (advance_conditions r')))"
    if "repeat_from i r = (Inr u, r')" for i u r'
    using fin[of r'] keeps_wf_repeat[of r i] rep[of i] that by simp
  show ?thesis
    using assms fin dec rep_err rep_ok
    by (cases a) (auto simp: control_flow_def require_def Let_def split: sum.splits prod.splits)
qed

text \<open>Every operation keeps the invariant and moves the revision with every change.\<close>

lemma execute_step_ok:
  assumes "run_inv sj r"
  shows "step_ok sj r (snd (execute sj' op e r))"
  by (cases op)
     (simp_all add: step_ok_lease_next[OF assms] step_ok_dispatch_next[OF assms]
       step_ok_lease_host[OF assms] step_ok_lease_spawn[OF assms] step_ok_dispatch_leased[OF assms]
       step_ok_release[OF assms] step_ok_complete[OF assms] step_ok_checked[OF assms]
       step_ok_script[OF assms] step_ok_reject[OF assms] step_ok_cancel_run[OF assms]
       step_ok_cancel_task[OF assms] step_ok_mark_uncertain[OF assms] step_ok_restore[OF assms]
       step_ok_reconcile[OF assms] step_ok_retry[OF assms] step_ok_request[OF assms]
       step_ok_accept[OF assms] step_ok_delivered[OF assms] step_ok_flow[OF assms]
       lease_next_script_def lease_next_plugin_step_def lease_next_pipeline_step_def)

section \<open>Spawned agents\<close>

lemma task_wf_mono: "task_wf steps pins t \<Longrightarrow> set steps \<subseteq> set steps' \<Longrightarrow> task_wf steps' pins t"
  unfolding task_wf_def by blast

lemma spawned_definition_simps:
  "pipeline_steps (def_pipeline (spawned_definition d a n p nm ins)) =
     pipeline_steps (def_pipeline d) @ [last (pipeline_steps (def_pipeline (spawned_definition d a n p nm ins)))]"
  "step_id (last (pipeline_steps (def_pipeline (spawned_definition d a n p nm ins)))) = n"
  "team_members (def_team (spawned_definition d a n p nm ins)) =
     team_members (def_team d) @ [\<lparr>member_id = n, member_profile_id = p\<rparr>]"
  "set (send_edges (def_team d)) \<subseteq> set (send_edges (def_team (spawned_definition d a n p nm ins)))"
  by (simp_all add: spawned_definition_def Let_def)

lemma task_wf_new: "task_wf steps pins (new_task i)"
  by (simp add: task_wf_def new_task_def)

lemma step_ok_spawn:
  assumes "run_inv sj r"
  shows "step_ok sj r (snd (add_spawned_agent sj a q p nm ins r))"
proof -
  let ?d = "spawned_definition (run_definition r) a (''agent-'' @ q) p nm ins"
  let ?r = "\<lambda>i. bump_run (r\<lparr>run_initial_definition := i, run_definition := ?d,
        run_tasks := run_tasks r @ [new_task (''agent-'' @ q)]\<rparr>)"
  note S = spawned_definition_simps[of "run_definition r" a "''agent-'' @ q" p nm ins]
  have "step_ok sj r (?r i)" if v: "validate_definition sj ?d = Inr ()" for i
  proof (rule step_ok_rev)
    have sub: "set (run_steps r) \<subseteq> set (pipeline_steps (def_pipeline ?d))"
      by (subst S(1)) auto
    have wf: "task_wf (pipeline_steps (def_pipeline ?d)) (run_use_pinned_data r) t"
      if "t \<in> set (run_tasks r @ [new_task (''agent-'' @ q)])" for t
      using that assms task_wf_mono[OF _ sub] task_wf_new
      by (auto simp: run_inv_def tasks_wf_def)
    have ids: "map step_id (pipeline_steps (def_pipeline ?d)) = map step_id (run_steps r) @ [''agent-'' @ q]"
      by (subst S(1)) (simp add: S(2)[simplified])
    have msg: "message_authority_ok (?r i) m" if "message_authority_ok r m" for m
      using that S(3,4) unfolding message_authority_ok_def is_ok_unit_iff authorize_send_ok
        has_member_def has_edge_def by (auto simp: bump_run_def)
    show "run_inv sj (?r i)"
      unfolding run_inv_def tasks_wf_def using v wf ids msg assms
      by (simp add: bump_run_def run_inv_def new_task_def)
  qed (simp_all add: bump_run_def)
  with assms show ?thesis
    by (auto simp: add_spawned_agent_def require_def Let_def split: sum.splits option.splits)
qed

section \<open>Reachable runs\<close>

lemma new_run_inv:
  assumes "new_started_run sj rid d inputs trig pins = Inr r"
  shows "run_inv sj r"
  using assms task_wf_new
  by (auto simp: new_started_run_def Let_def run_inv_def tasks_wf_def is_some_and_def is_none_or_def
      new_task_def split: if_splits option.splits)

inductive run_step :: "serde_json \<Rightarrow> run \<Rightarrow> run \<Rightarrow> bool" for sj where
  step_execute: "execute sj op e r = (res, r') \<Longrightarrow> run_step sj r r'"
| step_spawn: "add_spawned_agent sj a q p nm ins r = (res, r') \<Longrightarrow> run_step sj r r'"

inductive reachable :: "serde_json \<Rightarrow> run \<Rightarrow> bool" for sj where
  start: "new_started_run sj rid d inputs trig pins = Inr r \<Longrightarrow> reachable sj r"
| step: "reachable sj r \<Longrightarrow> run_step sj r r' \<Longrightarrow> reachable sj r'"

inductive_cases run_stepE: "run_step sj r r'"

lemma run_step_ok:
  assumes "run_step sj r r'" "run_inv sj r"
  shows "step_ok sj r r'"
  using assms(1)
proof (cases rule: run_step.cases)
  case (step_execute op e res)
  then show ?thesis using execute_step_ok[OF assms(2), of sj op e] by simp
next
  case (step_spawn a q p nm ins res)
  then show ?thesis using step_ok_spawn[OF assms(2), of a q p nm ins] by simp
qed

lemma reachable_inv: "reachable sj r \<Longrightarrow> run_inv sj r"
proof (induction rule: reachable.induct)
  case (start rid d inputs trig pins r)
  then show ?case by (rule new_run_inv)
next
  case (step r r')
  then show ?case using run_step_ok by (auto simp: step_ok_def)
qed

section \<open>Optimistic concurrency\<close>

locale guarded_operations =
  fixes exec :: "'op \<Rightarrow> revision \<Rightarrow> run \<Rightarrow> unit run_op"
    and inv :: "run \<Rightarrow> bool"
  assumes stale: "e \<noteq> run_revision r \<Longrightarrow> \<exists>err. exec op e r = (Inl err, r)"
    and tracked: "inv r \<Longrightarrow> moved r (snd (exec op e r))"
    and kept: "inv r \<Longrightarrow> inv (snd (exec op e r))"
begin

text \<open>A change is only made for a caller that knew the current revision, and is visible in the
  new one.\<close>

lemma changed:
  assumes "inv r" "Suc (length (run_tasks r)) < 2 ^ 64" "exec op e r = (res, r')" "r' \<noteq> r"
  shows "e = run_revision r" "run_revision r' \<noteq> e"
proof -
  show e: "e = run_revision r" using stale[of e r op] assms(3,4) by auto
  from tracked[OF assms(1), of op e] assms(3,4) obtain k where
    k: "1 \<le> k" "k \<le> Suc (length (run_tasks r))" "run_revision r' = run_revision r + of_nat k"
    by (auto simp: moved_def)
  then have "k < 2 ^ LENGTH(64)" using assms(2) by simp
  then have "unat (of_nat k :: revision) = k" by (simp add: unat_of_nat take_bit_nat_eq_self)
  then have "(of_nat k :: revision) \<noteq> 0" using k(1) by auto
  with k(3) e show "run_revision r' \<noteq> e" by simp
qed

text \<open>Of two callers with the same expected revision at most one changes the run.\<close>

lemma no_lost_update:
  assumes "inv r" "Suc (length (run_tasks r)) < 2 ^ 64" "exec op e r = (res, r')" "r' \<noteq> r"
  shows "\<exists>err. exec op' e r' = (Inl err, r')"
  using stale changed(2)[OF assms] by metis

end

interpretation coordinator: guarded_operations "execute sj" "run_inv sj" for sj
proof
  show "\<exists>err. execute sj op e r = (Inl err, r)" if "e \<noteq> run_revision r" for e r op
    by (rule execute_stale[OF that])
  show "moved r (snd (execute sj op e r))" if "run_inv sj r" for r op e
    using execute_step_ok[OF that] by (simp add: step_ok_def)
  show "run_inv sj (snd (execute sj op e r))" if "run_inv sj r" for r op e
    using execute_step_ok[OF that] by (simp add: step_ok_def)
qed

end
