(* ===== verification/Samples.thy ===== *)
theory Samples
  imports Lifecycle "HOL-Library.Code_Target_Nat"
begin

text \<open>
  Concrete definitions and runs on which the witnesses evaluate the properties: a team of two
  members, and a pipeline in which \<open>build\<close> is reviewed by \<open>review\<close>.
\<close>

text \<open>The loop over the ready set without a pattern on the fuel, as evaluation with binary
  natural numbers needs it.\<close>

lemma kahn_code [code]:
  "kahn n outgoing visited indegree ready =
     (if n = 0 then Inr (visited, indegree, ready)
      else case ready of
        [] \<Rightarrow> Inr (visited, indegree, [])
      | i # rest \<Rightarrow>
          and_then (visit_children (children_of outgoing i) indegree rest)
            (\<lambda>(indegree, ready). kahn (n - 1) outgoing (visited + 1) indegree ready))"
  by (cases n; cases ready) simp_all

definition sample_json :: serde_json where
  "sample_json = \<lparr>from_str = (\<lambda>s. if s = ''{}'' then Some (JObject []) else None),
                  to_string = (\<lambda>v. ''{}'')\<rparr>"

definition sample_profile :: "string \<Rightarrow> string list \<Rightarrow> agent_profile" where
  "sample_profile i spawns =
     \<lparr>profile_when_to_call = None, profile_input_instructions = None, profile_expected_result = None,
      profile_id = i, profile_name = i, profile_harness = Pi, profile_model_provider = None,
      profile_model = ''m'', profile_permission_mode = WorkspaceWrite, profile_network_access = False,
      profile_instructions = [], profile_base_instructions = None, profile_reasoning = None,
      profile_resource_rules = [], profile_service_tier = None,
      profile_tool_policy = \<lparr>policy_rules = []\<rparr>, profile_allowed_spawn_profile_ids = spawns\<rparr>"

definition sample_step :: "string \<Rightarrow> string list \<Rightarrow> pipeline_step" where
  "sample_step i deps =
     \<lparr>step_input_bindings = [], step_condition = None, step_route_gates = [], step_router = None,
      step_review = None, step_require_approval = False, step_result_fields = [],
      step_execution_mode = None, step_executor = None, step_pinned_output = None,
      step_input_instructions = None, step_id = i, step_name = i, step_assigned_member_id = ''a'',
      step_instructions = ''do'', step_dependency_step_ids = deps\<rparr>"

definition sample_team :: team_definition where
  "sample_team =
     \<lparr>spawned_agents_join_team = False, team_id = ''t'', team_name = ''T'',
      team_members = [\<lparr>member_id = ''a'', member_profile_id = ''p''\<rparr>,
                      \<lparr>member_id = ''b'', member_profile_id = ''q''\<rparr>],
      send_edges = [\<lparr>from_member_id = ''a'', to_member_id = ''b''\<rparr>], observe_edges = [],
      orchestrator_member_id = ''a''\<rparr>"

definition sample_definition :: "pipeline_step list \<Rightarrow> run_definition_snapshot" where
  "sample_definition steps =
     \<lparr>def_profiles = [sample_profile ''p'' [''q''], sample_profile ''q'' []], def_team = sample_team,
      def_pipeline = \<lparr>pipeline_id = ''l'', pipeline_name = ''L'', pipeline_steps = steps,
                      pipeline_inputs = [], pipeline_outputs = []\<rparr>,
      def_launch_command = None\<rparr>"

definition sample_run :: "pipeline_step list \<Rightarrow> run" where
  "sample_run steps = projr (new_run sample_json ''r'' (sample_definition steps))"

lemma sample_valid:
  "validate_definition sample_json (sample_definition [sample_step ''s1'' [], sample_step ''s2'' [''s1'']]) = Inr ()"
  by code_simp

end
