(* ===== verification/Definition_Properties.thy ===== *)
theory Definition_Properties
  imports Samples Run_Data
begin

text \<open>
  What an accepted definition, an accepted input and an accepted result promise: the properties
  of the validators, of the authority checks and of the text and result contracts, each with a
  concrete instance.
\<close>

section \<open>Definitions\<close>

text \<open>C5. The cycle check is exact. For the degrees and edges the validation loop builds from the
  steps of a pipeline, Kahn's algorithm accepts if and only if the dependency relation is acyclic,
  and otherwise reports a dependency cycle; it never runs out of fuel and its degree counters
  never go below zero.\<close>

theorem cycle_check_exact:
  assumes "unique_ids ''step'' (map step_id steps) = Inr sids"
    and "validate_steps_loop snapshot sids members steps (map (\<lambda>i. (i, 0)) sids) [] = Inr (ind, out)"
  shows "(check_cycles sids ind out = Inr () \<longleftrightarrow> acyclic (dep_rel steps)) \<and>
         (\<not> acyclic (dep_rel steps) \<longrightarrow> (\<exists>i. check_cycles sids ind out = Inl (DependencyCycle i)))"
proof -
  have ids: "distinct (map step_id steps)" "set sids = step_id ` set steps" "bs_wf sids"
    using unique_ids_ok[OF assms(1)] by simp_all
  from check_cycles_correct[OF ids assms(2)] obtain visited ind' where
    k: "kahn (Suc (length sids)) out 0 ind
          (bs_collect (map fst (filter (\<lambda>(i, d). d = 0) ind))) = Inr (visited, ind', [])"
       "visited = length sids \<longleftrightarrow> acyclic (dep_rel steps)" by blast
  then show ?thesis by (simp add: check_cycles_def)
qed

theorem cycle_check_exact_witness:
  "(let steps = [sample_step ''s1'' [''s2''], sample_step ''s2'' [''s1'']];
        sids = projr (unique_ids ''step'' (map step_id steps));
        loop = projr (validate_steps_loop (sample_definition steps) sids [''a'', ''b''] steps
                 (map (\<lambda>i. (i, 0)) sids) [])
    in (check_cycles sids (fst loop) (snd loop) = Inr () \<longleftrightarrow> acyclic (dep_rel steps)))"
proof -
  let ?steps = "[sample_step ''s1'' [''s2''], sample_step ''s2'' [''s1'']]"
  have ids: "unique_ids ''step'' (map step_id ?steps) = Inr [''s1'', ''s2'']" by code_simp
  obtain ind out where loop: "validate_steps_loop (sample_definition ?steps) [''s1'', ''s2''] [''a'', ''b'']
      ?steps (map (\<lambda>i. (i, 0)) [''s1'', ''s2'']) [] = Inr (ind, out)"
    by (rule that) code_simp
  show ?thesis using cycle_check_exact[OF ids loop] unfolding Let_def ids sum.sel loop by simp
qed

text \<open>An accepted definition has a well-formed dependency graph: step identifiers are distinct
  and not blank, every dependency names a step of the pipeline, none is repeated, and the
  dependency relation is acyclic.\<close>

theorem definition_graph_ok:
  assumes "validate_definition sj d = Inr ()"
  shows "graph_ok (pipeline_steps (def_pipeline d))"
  using validate_definition_graph[OF assms] by simp

theorem definition_graph_ok_witness:
  "graph_ok (pipeline_steps (def_pipeline
     (sample_definition [sample_step ''s1'' [], sample_step ''s2'' [''s1'']])))"
  by (rule definition_graph_ok[OF sample_valid])

text \<open>A review step of an accepted definition names a correction step strictly upstream of it
  in the dependency graph, so a repetition never restarts a step that does not lead to the review.\<close>

theorem review_correction_upstream:
  assumes "validate_definition sj d = Inr ()" "step \<in> set (pipeline_steps (def_pipeline d))"
    and "step_review step = Some review"
  shows "(review_retry_from_step_id review, step_id step) \<in> (dep_rel (pipeline_steps (def_pipeline d)))\<^sup>+ \<and>
         review_retry_from_step_id review \<noteq> step_id step"
proof -
  note g = validate_definition_graph[OF assms(1)]
  have "(review_retry_from_step_id review, step_id step) \<in> (dep_rel (pipeline_steps (def_pipeline d)))\<^sup>+"
    using validate_review_upstream[OF validate_step_review assms(3,2)] g assms(2) by blast
  then show ?thesis using g by (auto simp: graph_ok_def acyclic_def)
qed

definition reviewed_steps :: "pipeline_step list" where
  "reviewed_steps =
     [sample_step ''build'' [],
      (sample_step ''review'' [''build''])
        \<lparr>step_review := Some \<lparr>review_field = ''ok'', review_retry_from_step_id = ''build'',
           review_max_iterations = Some 2\<rparr>,
         step_result_fields := [\<lparr>field_name = ''ok'', field_kind = BooleanField\<rparr>]\<rparr>]"

theorem review_correction_upstream_witness:
  "(''build'', ''review'') \<in> (dep_rel reviewed_steps)\<^sup>+"
proof -
  have v: "validate_definition sample_json (sample_definition reviewed_steps) = Inr ()" by code_simp
  have s: "pipeline_steps (def_pipeline (sample_definition reviewed_steps)) = reviewed_steps"
    by (simp add: sample_definition_def)
  have m: "reviewed_steps ! 1 \<in> set (pipeline_steps (def_pipeline (sample_definition reviewed_steps)))"
    by (simp add: s) (simp add: reviewed_steps_def)
  have r: "step_review (reviewed_steps ! 1) = Some \<lparr>review_field = ''ok'',
      review_retry_from_step_id = ''build'', review_max_iterations = Some 2\<rparr>"
    by (simp add: reviewed_steps_def)
  from review_correction_upstream[OF v m r] show ?thesis
    by (simp add: s) (simp add: reviewed_steps_def sample_step_def)
qed

text \<open>The step a dependency cycle error names need not lie on a cycle: for the steps
  \<open>a\<close> after \<open>b\<close>, \<open>b\<close> after \<open>c\<close> and \<open>c\<close> after \<open>b\<close> the validator reports \<open>a\<close>, on which nothing depends.\<close>

theorem cycle_report_not_on_cycle:
  "let steps = [sample_step ''a'' [''b''], sample_step ''b'' [''c''], sample_step ''c'' [''b'']]
   in validate_definition sample_json (sample_definition steps) = Inl (DependencyCycle ''a'') \<and>
      (''a'', ''a'') \<notin> (dep_rel steps)\<^sup>+"
proof -
  let ?steps = "[sample_step ''a'' [''b''], sample_step ''b'' [''c''], sample_step ''c'' [''b'']]"
  have "validate_definition sample_json (sample_definition ?steps) = Inl (DependencyCycle ''a'')"
    by code_simp
  moreover have "(''a'', y) \<notin> dep_rel ?steps" for y
    by (simp add: dep_rel_def sample_step_def)
  then have "(''a'', ''a'') \<notin> (dep_rel ?steps)\<^sup>+"
    by (meson tranclD)
  ultimately show ?thesis by (simp only: Let_def) simp
qed

section \<open>Authority\<close>

text \<open>C6. Spawning never escalates. Along any chain of spawns that the authority check grants, every
  agent has at most the authority of the first one: file access, network access, denied tools,
  tool allowlist, resource rules and the profiles it may spawn itself.\<close>

theorem spawn_no_escalation:
  assumes "validate_definition sj d = Inr ()" "p \<in> set (def_profiles d)"
    and "spawn_chain d p is = Some ps" "q \<in> set ps"
  shows "spawn_permissions_subset p q \<and>
         (profile_network_access q \<longrightarrow> profile_network_access p) \<and>
         set (profile_allowed_spawn_profile_ids q) \<subseteq> set (profile_allowed_spawn_profile_ids p)"
proof -
  obtain profiles where "unique_ids ''profile'' (map profile_id (def_profiles d)) = Inr profiles"
    using validate_definition_parts(2)[OF assms(1)] by blast
  then have "distinct (map profile_id (def_profiles d))" using unique_ids_ok by blast
  from spawn_chain_successively[OF assms(3,2) this] obtain qs where
    "ps = p # qs" "successively spawn_permissions_subset (p # qs)" by blast
  then have "spawn_permissions_subset p q" using spawn.chain_bounded[of p qs q] assms(4) by blast
  then show ?thesis unfolding spawn_permissions_subset_iff by blast
qed

theorem spawn_no_escalation_witness:
  "spawn_permissions_subset (sample_profile ''p'' [''q'']) (sample_profile ''q'' [])"
proof -
  let ?d = "sample_definition [sample_step ''s1'' [], sample_step ''s2'' [''s1'']]"
  have c: "spawn_chain ?d (sample_profile ''p'' [''q'']) [''q''] =
      Some [sample_profile ''p'' [''q''], sample_profile ''q'' []]" by code_simp
  have p: "sample_profile ''p'' [''q''] \<in> set (def_profiles ?d)" by (simp add: sample_definition_def)
  show ?thesis by (rule conjunct1[OF spawn_no_escalation[OF sample_valid p c]]) simp
qed

text \<open>A language model step of an accepted definition runs with the least authority: its member
  sends to nobody, observes nobody and is observed by nobody, and its profile is read only,
  without network, tools or spawns.\<close>

theorem llm_least_authority:
  assumes "validate_definition sj d = Inr ()" "step \<in> set (pipeline_steps (def_pipeline d))"
    and "step_executor_kind step = KLlm"
  shows "(\<forall>e\<in>set (send_edges (def_team d)) \<union> set (observe_edges (def_team d)).
            from_member_id e \<noteq> step_assigned_member_id step \<and>
            to_member_id e \<noteq> step_assigned_member_id step) \<and>
         (\<exists>member profile.
            find (\<lambda>c. member_id c = step_assigned_member_id step) (team_members (def_team d)) = Some member \<and>
            find (\<lambda>p. profile_id p = member_profile_id member) (def_profiles d) = Some profile \<and>
            least_authority d profile)"
proof -
  have "validate_step d (bs_collect (map member_id (team_members (def_team d)))) step = Inr ()"
    using validate_definition_graph[OF assms(1)] assms(2) by blast
  then have "validate_llm_authority d step = Inr ()"
    using assms(3) by (auto simp: validate_step_def validate_executor_authority_def Let_def split: if_splits)
  then show ?thesis by (rule validate_llm_authority_ok)
qed

definition llm_definition :: run_definition_snapshot where
  "llm_definition =
     (sample_definition [(sample_step ''ask'' [])
        \<lparr>step_executor := Some LlmExecutor, step_assigned_member_id := ''c''\<rparr>])
     \<lparr>def_profiles := [sample_profile ''p'' [''q''], sample_profile ''q'' [],
        (sample_profile ''l'' [])\<lparr>profile_permission_mode := ReadOnly\<rparr>],
      def_team := sample_team\<lparr>team_members :=
        team_members sample_team @ [\<lparr>member_id = ''c'', member_profile_id = ''l''\<rparr>]\<rparr>\<rparr>"

theorem llm_least_authority_witness:
  "\<exists>profile. profile_id profile = ''l'' \<and> least_authority llm_definition profile"
proof -
  let ?s = "hd (pipeline_steps (def_pipeline llm_definition))"
  have v: "validate_definition sample_json llm_definition = Inr ()" by code_simp
  have m: "?s \<in> set (pipeline_steps (def_pipeline llm_definition))"
    by (simp add: llm_definition_def sample_definition_def)
  have k: "step_executor_kind ?s = KLlm" by code_simp
  have f: "find (\<lambda>c. member_id c = step_assigned_member_id ?s) (team_members (def_team llm_definition)) =
      Some \<lparr>member_id = ''c'', member_profile_id = ''l''\<rparr>" by code_simp
  from llm_least_authority[OF v m k] f show ?thesis by (auto dest: find_Some_set)
qed

section \<open>Inputs\<close>

text \<open>C25. Resolving the inputs of a run gives exactly the declared names: each holds the supplied value,
  or else the declared default, the value passed the check of its kind, a required input is present
  and not blank, no undeclared name was supplied, and all texts together respect the run limit.\<close>

theorem resolved_inputs:
  assumes "validate_pipeline_inputs declared = Inr ()" "resolve_run_inputs declared supplied = Inr out"
  shows "(\<forall>i\<in>set declared. bm_get out (input_name i) = chosen_value supplied i \<and>
            (\<forall>v. bm_get out (input_name i) = Some v \<longrightarrow> check_value i v = Inr ()) \<and>
            (input_required i \<longrightarrow> (\<exists>v. bm_get out (input_name i) = Some v \<and> \<not> is_blank v))) \<and>
         (\<forall>k. k \<notin> input_name ` set declared \<longrightarrow> bm_get out k = None \<and> bm_get supplied k = None) \<and>
         sum_list (List.map_filter (\<lambda>i. map_option text_len (chosen_value supplied i)) declared)
           \<le> MAX_RUN_INPUT_TEXT_BYTES"
proof -
  have d: "distinct (map input_name declared)" using validate_pipeline_inputs_ok[OF assms(1)] by simp
  from assms(2) obtain m where m: "resolve_loop supplied declared [] 0 = Inr (out, m)"
    "m \<le> MAX_RUN_INPUT_TEXT_BYTES"
    by (auto simp: resolve_run_inputs_def split: option.splits sum.splits if_splits)
  have t: "m = min usize_max (sum_list (List.map_filter (\<lambda>i. map_option text_len (chosen_value supplied i)) declared))"
    using resolve_loop_text[OF m(1)] by simp
  have "bm_get supplied k = None" if "k \<notin> input_name ` set declared" for k
    using resolve_keys_declared[OF assms(2)] that by (cases "bm_get supplied k") auto
  with resolve_loop_spec[OF m(1) d] t m(2) show ?thesis
    by (auto simp: MAX_RUN_INPUT_TEXT_BYTES_def usize_max_def split: option.splits)
qed

definition sample_input :: pipeline_input where
  "sample_input = \<lparr>input_name = ''topic'', input_label = ''Topic'', input_kind = TextInput,
     input_required = True, input_description = None, input_options = [], input_default_value = None\<rparr>"

theorem resolved_inputs_witness:
  "bm_get (projr (resolve_run_inputs [sample_input] [(''topic'', JString ''x'')])) ''topic'' =
   Some (JString ''x'')"
proof -
  have v: "validate_pipeline_inputs [sample_input] = Inr ()" by code_simp
  have c: "check_value sample_input (JString ''x'') = Inr ()" "\<not> is_blank (JString ''x'')"
    by code_simp+
  have r: "resolve_run_inputs [sample_input] [(''topic'', JString ''x'')] =
      Inr [(''topic'', JString ''x'')]"
    using c by (simp add: resolve_run_inputs_def bm_keys_def chosen_value_def sample_input_def
        text_len_def saturating_add_def usize_max_def MAX_RUN_INPUT_TEXT_BYTES_def)
  from resolved_inputs[OF v r] show ?thesis unfolding r
    by (simp add: sample_input_def chosen_value_def)
qed

text \<open>An input token in step instructions is replaced by the value of the declared input: text before
  the token is copied, the rendered value follows, and the substitution goes on behind the token,
  so a value that itself looks like a token is never expanded.\<close>

theorem input_token_substitution:
  assumes "CHR ''{'' \<notin> set pre" "CHR ''{'' \<notin> set post" "valid_input_name name"
    and "input \<in> set declared" "input_name input = name"
  shows "substitute_input_tokens sj (pre @ ''{{input.'' @ name @ ''}}'' @ post) declared values =
    pre @ rendered sj (bm_get values name) @ post"
  using subst_token[OF assms(1,3,4,5)] subst_no_open[OF find_open_None_brace[OF assms(2)]] by simp

theorem input_token_substitution_witness:
  "substitute_input_tokens sample_json ''a {{input.topic}} b'' [sample_input]
     [(''topic'', JString ''{{input.topic}}'')] = ''a {{input.topic}} b''"
  using input_token_substitution[of "''a ''" "'' b''" "''topic''" sample_input "[sample_input]" sample_json
      "[(''topic'', JString ''{{input.topic}}'')]"]
  by (simp add: sample_input_def valid_input_name_def ascii_defs MAX_INPUT_NAME_LEN_def)

section \<open>Results\<close>

text \<open>A completed result is accepted if and only if no field is declared, or its text is a JSON document
  that has every declared field with a value of the declared kind.\<close>

theorem result_contract:
  "validate_result sj flds txt' = Inr () \<longleftrightarrow>
   flds = [] \<or> (\<exists>v. from_str sj (trim txt') = Some v \<and> satisfies_fields flds v)"
  by (auto simp: validate_result_def validate_result_value_ok split: option.splits)

text \<open>The result of a script: data is recorded only for a complete output that is a JSON object with
  every declared field; a step with declared fields never records plain output; plain output is a
  prefix of what the script wrote of at most the output limit, marked truncated when it is not all.\<close>

theorem script_stdout_contract:
  "(case script_stdout_result sj flds stdout cut_off of
      StdoutData v \<Rightarrow> \<not> cut_off \<and> length stdout \<le> MAX_SCRIPT_STDOUT_BYTES \<and>
        from_str sj (trim stdout) = Some v \<and> satisfies_fields flds v
    | StdoutOutput out \<Rightarrow> flds = [] \<and> length (output_text out) \<le> MAX_SCRIPT_STDOUT_BYTES \<and>
        (\<exists>rest. stdout = output_text out @ rest \<and> (\<not> output_truncated out \<longleftrightarrow> \<not> cut_off \<and> rest = []))
    | StdoutFailed f \<Rightarrow> flds \<noteq> [])"
proof -
  obtain out was_cut where b: "bounded_text stdout MAX_SCRIPT_STDOUT_BYTES = (out, was_cut)" by fastforce
  note p = bounded_text_props[OF b]
  have nf: "validate_result_value [] v \<noteq> Inl code" for v code
  proof -
    have "validate_result_value [] v = Inr ()" by (simp add: validate_result_value_ok satisfies_fields_def)
    then show ?thesis by simp
  qed
  show ?thesis
    using p nf by (auto simp: script_stdout_result_def b Let_def keep_if_def validate_result_value_ok
        split: option.splits sum.splits if_splits)
qed

text \<open>A failure detail is at most two kilobytes long and has no ASCII control character but line feed
  and tab.\<close>

theorem failure_detail_bounded:
  "length (failure_detail s) \<le> 2048 \<and>
   {c \<in> set (failure_detail s). is_ascii_control c} \<subseteq> {CHR 0x0A, CHR 0x09}"
  using failure_detail_length[of s] failure_detail_set[of s] drop_controls_ascii
  by (auto simp: MAX_FAILURE_DETAIL_BYTES_def)

text \<open>Bounding a text cuts it to a valid prefix: at most the limit in bytes, cut exactly when the text
  is longer, and never inside a character of a UTF-8 text.\<close>

theorem bounded_text_prefix:
  assumes "utf8_valid s" "bounded_text s limit = (out, was_cut)"
  shows "utf8_valid out \<and> length out \<le> limit \<and> (was_cut \<longleftrightarrow> limit < length s) \<and>
         (\<exists>rest. s = out @ rest \<and> (was_cut \<longleftrightarrow> rest \<noteq> []))"
  using bounded_text_props[OF assms(2)] bounded_text_utf8[OF assms(1), of limit] assms(2) by auto

theorem bounded_text_prefix_witness:
  "bounded_text [CHR ''a'', CHR 0xC3, CHR 0xA9] 2 = ([CHR ''a''], True) \<and> utf8_valid [CHR ''a'']"
proof -
  have u: "utf8_valid [CHR ''a'', CHR 0xC3, CHR 0xA9]" by code_simp
  have b: "bounded_text [CHR ''a'', CHR 0xC3, CHR 0xA9] 2 = ([CHR ''a''], True)" by code_simp
  show ?thesis using bounded_text_prefix[OF u b] b by simp
qed

section \<open>Pinned data\<close>

text \<open>The pinned data of an accepted definition fits its budget: all pins of a pipeline together take
  at most one megabyte, each pin holds a text or data and is on a step that may be pinned: no
  callable template, no program router and no review.\<close>

theorem pinned_budget:
  assumes "validate_definition sj d = Inr ()"
  shows "pinned_bytes sj (pipeline_steps (def_pipeline d)) \<le> 1024 * 1024 \<and>
         (\<forall>s\<in>set (pipeline_steps (def_pipeline d)). \<forall>p. step_pinned_output s = Some p \<longrightarrow>
            step_execution_mode s \<noteq> Some Callable \<and> \<not> is_program_router s \<and> step_review s = None \<and>
            size_bytes sj p \<le> MAX_PINNED_TEXT_BYTES + MAX_PINNED_DATA_BYTES \<and>
            (pinned_text p \<noteq> None \<or> pinned_data p \<noteq> None))"
proof -
  have "validate_pipeline_declarations sj (def_pipeline d) = Inr ()"
    using validate_pipeline_parts[OF validate_definition_parts(1)[OF assms]] by blast
  then have "validate_pins_loop sj 0 (pipeline_steps (def_pipeline d)) = Inr ()"
    by (auto simp: validate_pipeline_declarations_def validate_pipeline_pins_def)
  note pins = validate_pins_loop_ok[OF this]
  show ?thesis
  proof (intro conjI ballI allI impI)
    show "pinned_bytes sj (pipeline_steps (def_pipeline d)) \<le> 1024 * 1024"
      using pins by (simp add: MAX_PIPELINE_PINNED_BYTES_def)
  next
    fix s p
    assume "s \<in> set (pipeline_steps (def_pipeline d))" "step_pinned_output s = Some p"
    then have "validate_pinned_output sj s p = Inr ()" using pins by simp
    note ok = validate_pinned_output_ok[OF this]
    show "step_execution_mode s \<noteq> Some Callable" "\<not> is_program_router s" "step_review s = None"
      "size_bytes sj p \<le> MAX_PINNED_TEXT_BYTES + MAX_PINNED_DATA_BYTES"
      "pinned_text p \<noteq> None \<or> pinned_data p \<noteq> None"
      using ok by blast+
  qed
qed

definition pinned_step :: pipeline_step where
  "pinned_step = (sample_step ''s1'' [])\<lparr>step_pinned_output := Some \<lparr>pinned_text = Some ''done'',
     pinned_truncated = False, pinned_data = None, pinned_at = ''2026'', pinned_source_run_id = None\<rparr>\<rparr>"

theorem pinned_budget_witness:
  "pinned_bytes sample_json (pipeline_steps (def_pipeline (sample_definition [pinned_step]))) \<le> 1024 * 1024"
proof -
  have "validate_definition sample_json (sample_definition [pinned_step]) = Inr ()" by code_simp
  from pinned_budget[OF this] show ?thesis by simp
qed

text \<open>Replaying a pin respects the result contract of its step: when it is accepted for a step without
  a router, the recorded data has every declared field.\<close>

theorem pinned_result_declared:
  assumes "pinned_result sj step p = Inr (data, out)" "step_router step = None"
  shows "step_result_fields step = [] \<or>
         (\<exists>v. data = Some v \<and> satisfies_fields (step_result_fields step) v)"
  by (rule pinned_result_fields[OF assms])

definition pinned_flag :: pinned_output where
  "pinned_flag = \<lparr>pinned_text = None, pinned_truncated = False,
     pinned_data = Some (JObject [(''ok'', JBool True)]), pinned_at = ''2026'', pinned_source_run_id = None\<rparr>"

theorem pinned_result_declared_witness:
  "let step = (sample_step ''s1'' [])\<lparr>step_result_fields := [\<lparr>field_name = ''ok'', field_kind = BooleanField\<rparr>]\<rparr>
   in \<exists>v. fst (projr (pinned_result sample_json step pinned_flag)) = Some v \<and>
          satisfies_fields (step_result_fields step) v"
proof -
  let ?step = "(sample_step ''s1'' [])\<lparr>step_result_fields := [\<lparr>field_name = ''ok'', field_kind = BooleanField\<rparr>]\<rparr>"
  obtain data out where r: "pinned_result sample_json ?step pinned_flag = Inr (data, out)"
    by (rule that) code_simp
  have n: "step_router ?step = None" by (simp add: sample_step_def)
  from pinned_result_declared[OF r n] show ?thesis unfolding Let_def r by auto
qed

text \<open>A run started without pinned data carries no pin at all, so no step of it is ever admitted
  from one.\<close>

theorem unpinned_run_has_no_pins:
  assumes "new_started_run sj rid d inputs trig False = Inr r"
  shows "\<not> run_use_pinned_data r \<and> (\<forall>s\<in>set (run_steps r). step_pinned_output s = None) \<and>
         (\<forall>s. \<not> admitted_from_pin r s) \<and> map step_id (run_steps r) = map step_id (pipeline_steps (def_pipeline d))"
proof -
  have "run_definition r = without_pins d" "\<not> run_use_pinned_data r"
    using assms by (auto simp: new_started_run_def Let_def split: if_splits)
  then show ?thesis by (auto simp: without_pins_def admitted_from_pin_def)
qed

theorem unpinned_run_has_no_pins_witness:
  "map step_pinned_output (run_steps (projr (new_started_run sample_json ''r''
     (sample_definition [pinned_step]) [] None False))) = [None]"
proof -
  obtain r where r: "new_started_run sample_json ''r'' (sample_definition [pinned_step]) [] None False = Inr r"
    by (rule that) code_simp
  from unpinned_run_has_no_pins[OF r] have p: "step_pinned_output s = None" if "s \<in> set (run_steps r)" for s
    using that by blast
  have "length (run_steps r) = 1"
    using unpinned_run_has_no_pins[OF r] by (auto simp: sample_definition_def dest!: arg_cong[where f = length])
  then obtain s where "run_steps r = [s]" by (auto simp: length_Suc_conv)
  with p show ?thesis unfolding r by simp
qed

section \<open>Harness identities\<close>

text \<open>Harness names and harness values correspond one to one: every well-formed harness is parsed back
  from the name it is displayed with, and every accepted name is the display of the harness it
  parses to.\<close>

theorem harness_round_trip:
  "harness_parse name = Some h \<longleftrightarrow> harness_wf h \<and> harness_display h = name"
proof -
  have "harness_parse (harness_display h) = Some h" if "harness_wf h" for h
  proof (cases "\<exists>i. h = Acp i")
    case True
    with that show ?thesis using harness_parse_acp by auto
  qed (use harness_parse_builtin in blast)
  moreover have "harness_wf h \<and> harness_display h = name" if p: "harness_parse name = Some h"
    using harness_parse_cases[OF p] acp_new_as_str
    by (auto simp: BUILTIN_def)
  ultimately show ?thesis by blast
qed

end
