(* ===== verification/Run_Samples.thy ===== *)
theory Run_Samples
  imports Samples
begin

text \<open>
  Concrete runs of the sample pipelines, evaluated operation by operation: two independent steps,
  and the first of them dispatched, leased, completed or failed.
\<close>

definition two_steps :: "pipeline_step list" where
  "two_steps = [sample_step ''s1'' [], sample_step ''s2'' []]"

definition chained_steps :: "pipeline_step list" where
  "chained_steps = [sample_step ''s1'' [], sample_step ''s2'' [''s1'']]"

definition sample_execution :: native_execution_reference where
  "sample_execution = \<lparr>execution_id = ''x''\<rparr>"

definition after_op :: "operation \<Rightarrow> revision \<Rightarrow> run \<Rightarrow> run" where
  "after_op op e r = snd (execute sample_json op e r)"

definition dispatched :: run where
  "dispatched = after_op (DispatchNext sample_execution) 0 (sample_run two_steps)"

definition completed :: run where
  "completed = after_op (CompleteTask ''s1'' 1 ''x'' (OutcomeSucceeded None)) 1 dispatched"

definition unsure :: run where
  "unsure = after_op (MarkUncertain ''s1'' 1 (ExecutionIdentity ''x'')) 1 dispatched"

text \<open>The second step is leased while the first one runs, and then the first one fails.\<close>

definition leased_beside :: run where
  "leased_beside = after_op (LeaseNext ''l'') 1 dispatched"

definition failed_beside :: run where
  "failed_beside = after_op (CompleteTask ''s1'' 1 ''x'' (OutcomeFailed (failure_new ''boom''))) 2 leased_beside"

lemma after_op_execute:
  "execute sample_json op e r = (fst (execute sample_json op e r), after_op op e r)"
  by (simp only: after_op_def prod.collapse)

lemma started_reachable:
  "new_started_run sj rid d inputs trig pins = Inr r \<Longrightarrow> reachable sj r"
  by (rule reachable.start)

lemma after_op_reachable:
  assumes "reachable sample_json r"
  shows "reachable sample_json (after_op op e r)"
proof (rule reachable.step[OF assms])
  show "run_step sample_json r (after_op op e r)"
    by (rule step_execute[OF after_op_execute])
qed

lemma two_steps_started:
  "new_started_run sample_json ''r'' (sample_definition two_steps) [] None False = Inr (sample_run two_steps)"
  by code_simp

lemma chained_steps_started:
  "new_started_run sample_json ''r'' (sample_definition chained_steps) [] None False = Inr (sample_run chained_steps)"
  by code_simp

lemma samples_reachable:
  "reachable sample_json (sample_run two_steps)" "reachable sample_json (sample_run chained_steps)"
  "reachable sample_json dispatched" "reachable sample_json completed" "reachable sample_json unsure"
  "reachable sample_json leased_beside" "reachable sample_json failed_beside"
  by (simp_all add: started_reachable[OF two_steps_started] started_reachable[OF chained_steps_started]
      dispatched_def completed_def unsure_def leased_beside_def failed_beside_def after_op_reachable)

end
