(* ===== verification/Run_Progress.thy ===== *)
theory Run_Progress
  imports Lifecycle
begin

text \<open>
  What the derived status of a run promises and what the scheduler owes to it: a run that reports
  success has nothing left to do, and a settled active run without active work always has a ready
  step or is done.
\<close>

section \<open>Success is final\<close>

definition all_done :: "run \<Rightarrow> bool" where
  "all_done r = list_all (\<lambda>t. has_status [Succeeded, Skipped] t \<or> idle_template r t) (run_tasks r)"

definition status_sound :: "run \<Rightarrow> bool" where
  "status_sound r \<longleftrightarrow> (run_status r = RunSucceeded \<longrightarrow> all_done r)"

lemma refreshed_done:
  assumes "refreshed_status r = RunSucceeded"
  shows "all_done r"
proof (rule ccontr)
  assume n: "\<not> all_done r"
  then obtain t where t: "t \<in> set (run_tasks r)" "\<not> has_status [Succeeded, Skipped] t"
    by (auto simp: all_done_def list_all_iff)
  have "has_status [Uncertain] t \<or> has_status [Running, AwaitingApproval] t \<or> has_status [Failed] t \<or>
      has_status [Ready] t \<or> has_status [Cancelled] t"
    using t(2) by (cases "task_status t") (simp_all add: has_status_def)
  with t(1) n assms show False
    by (auto simp: refreshed_status_def all_done_def list_ex_iff Let_def split: if_splits)
qed

lemma sound_refresh [simp]: "status_sound (refresh_status r)"
proof -
  have "all_done (refresh_status r) = all_done r"
    by (simp add: all_done_def idle_template_def callable_template_def refresh_status_def)
  moreover have "run_status (refresh_status r) = refreshed_status r" by (simp add: refresh_status_def)
  ultimately show ?thesis using refreshed_done unfolding status_sound_def by simp
qed

lemma sound_other [simp]: "run_status r \<noteq> RunSucceeded \<Longrightarrow> status_sound r"
  by (simp add: status_sound_def)

lemma sound_same:
  "status_sound r \<Longrightarrow> run_tasks r' = run_tasks r \<Longrightarrow> run_status r' = run_status r \<Longrightarrow>
   run_definition r' = run_definition r \<Longrightarrow> status_sound r'"
  by (simp add: status_sound_def all_done_def idle_template_def callable_template_def)

lemma sound_settle [simp]: "status_sound (settle_result k step r)"
  by (simp add: settle_result_def)

lemma sound_routers: "status_sound r \<Longrightarrow> status_sound (advance_program_routers r)"
  unfolding advance_program_routers_def
  by (rule loop_n_keeps[of status_sound]) (auto simp: router_pass_def split: if_splits)

lemma sound_admit: "status_sound r \<Longrightarrow> status_sound (snd (admit_pinned_step sj i (changed, r)))"
  by (auto simp: admit_pinned_step_def Let_def split: option.splits sum.splits)

lemma sound_fold_admit: "status_sound (snd s) \<Longrightarrow> status_sound (snd (fold (admit_pinned_step sj) cs s))"
proof (induction cs arbitrary: s)
  case (Cons c cs)
  then show ?case using sound_admit[of "snd s" sj c "fst s"] by simp
qed simp

lemma sound_automatic: "status_sound r \<Longrightarrow> status_sound (advance_automatic sj r)"
  unfolding advance_automatic_def
proof (rule loop_n_keeps[of status_sound])
  fix s s' again
  assume s: "status_sound s" "automatic_pass sj s = (s', again)"
  then have "s' = snd (admit_pinned_steps sj (advance_program_routers s))"
    by (auto simp: automatic_pass_def split: prod.splits)
  then show "status_sound s'"
    using sound_routers[OF s(1)] sound_fold_admit by (simp add: admit_pinned_steps_def)
qed

lemma active_status: "ensure_active r = Inr u \<Longrightarrow> run_status r = RunRunning"
  by (auto simp: ensure_active_def split: if_splits)

lemma lease_status [simp]:
  "run_status (take_lease l k r) = run_status r" "run_status (start_execution x k r) = run_status r"
  by (simp_all add: take_lease_def start_execution_def bump_run_def update_task_def)

lemma ready_status: "ready_task_ids r = i # is \<Longrightarrow> run_status r = RunRunning"
  by (simp add: ready_task_ids_def split: if_splits)

lemma sound_next:
  assumes "status_sound r"
  shows "status_sound (snd (lease_next_task sj e l r))" "status_sound (snd (dispatch_next sj x e r))"
    "status_sound (snd (lease_next_host sj accepts build l e r))"
  using assms sound_automatic[OF assms, of sj]
  by (auto simp: lease_next_task_def dispatch_next_def lease_next_host_def require_def Let_def
      split: sum.splits list.splits option.splits dest: ready_status)

lemma sound_leases:
  assumes "status_sound r"
  shows "status_sound (snd (lease_controlled_spawn sj e a i l r))"
    "status_sound (snd (dispatch_leased_task sj i tr l x e r))"
    "status_sound (snd (dispatch_leased_script i tr l x e r))"
  using assms
  by (auto simp: lease_controlled_spawn_def dispatch_leased_task_def dispatch_leased_script_def
      require_def Let_def split: sum.splits option.splits dest: active_status)

lemma sound_release:
  assumes "status_sound r"
  shows "status_sound (snd (release_task_lease i tr l e r))"
proof -
  have "run_status r \<noteq> RunSucceeded"
    if "task_index r i = Some k" "task_status (run_tasks r ! k) = Ready" "task_lease_id (run_tasks r ! k) = Some l" for k
  proof
    assume "run_status r = RunSucceeded"
    with assms have "list_all (\<lambda>t. has_status [Succeeded, Skipped] t \<or> idle_template r t) (run_tasks r)"
      by (simp add: status_sound_def all_done_def)
    with task_index_Some(1)[OF that(1)] that(2,3) show False
      by (auto simp: list_all_length has_status_def idle_template_def)
  qed
  with assms show ?thesis
    by (auto simp: release_task_lease_def require_def Let_def bump_run_def update_task_def
        split: sum.splits dest!: index_or_Inr)
qed

lemma sound_transition:
  "status_sound r \<Longrightarrow> status_sound (snd (complete_task_transition i tr x oc e r))"
  by (auto simp: complete_task_transition_def require_def Let_def split: sum.splits)

lemma sound_complete:
  assumes "status_sound r"
  shows "status_sound (snd (complete_task i tr x oc e r))"
    "status_sound (snd (complete_checked_task sj i tr x oc res e r))"
    "status_sound (snd (complete_host_task step out i tr x e r))"
proof -
  note T = sound_transition[OF assms]
  have pre: "status_sound r1" if "complete_task_transition i tr x oc e r = (res, r1)" for oc res r1
    using T[of i tr x oc e] that by simp
  show "status_sound (snd (complete_task i tr x oc e r))"
    using T assms by (simp add: complete_task_def)
  show "status_sound (snd (complete_checked_task sj i tr x oc res e r))"
    using pre assms by (auto simp: complete_checked_task_def complete_task_def require_def Let_def
        split: option.splits prod.splits sum.splits)
  show "status_sound (snd (complete_host_task step out i tr x e r))"
    using pre assms by (auto simp: complete_host_task_def require_def Let_def
        split: option.splits prod.splits sum.splits)
qed

lemma sound_flow:
  assumes "status_sound r"
  shows "status_sound (snd (control_flow a e r))"
proof -
  have "status_sound r'" if "repeat_from i r = (Inl err, r')" for i err r'
    using that assms by (auto simp: repeat_from_def Let_def split: if_splits)
  with assms show ?thesis
    by (cases a) (auto simp: control_flow_def require_def Let_def split: sum.splits prod.splits if_splits)
qed

lemma sound_restore:
  assumes "status_sound r"
  shows "status_sound (snd (restore e r))"
proof -
  let ?ids = "set (bs_collect (map task_step_id (filter (interrupted_by_restart r) (run_tasks r))))"
  have "map (\<lambda>t. if task_step_id t \<in> ?ids then bump (t\<lparr>task_status := Uncertain, task_lease_id := None\<rparr>) else t)
      (run_tasks r) = run_tasks r" if "\<not> list_ex (\<lambda>t. task_step_id t \<in> ?ids) (run_tasks r)"
    using that by (intro map_idI) (auto simp: list_ex_iff simp del: set_bs_collect)
  with assms show ?thesis
    by (auto simp: restore_def require_def Let_def bump_run_def simp del: set_bs_collect split: sum.splits)
qed

lemma sound_messages:
  assumes "status_sound r"
  shows "status_sound (snd (record_agent_request q s a k e r))" "status_sound (snd (accept_message s m e r))"
    "status_sound (snd (mark_message_delivered mid mr e r))"
  by (rule sound_same[OF assms];
      auto simp: record_agent_request_def accept_message_def mark_message_delivered_def require_def Let_def
        bump_run_def split: sum.splits option.splits)+

lemma sound_explicit:
  assumes "status_sound r"
  shows "status_sound (snd (reject_ready_task i tr f e r))" "status_sound (snd (cancel_run e r))"
    "status_sound (snd (cancel_task i e r))" "status_sound (snd (mark_task_uncertain i tr un e r))"
    "status_sound (snd (reconcile_uncertain_task i tr resl e r))"
    "status_sound (snd (retry_uncertain_task i tr e r))"
  using assms
  by (auto simp: reject_ready_task_def cancel_run_def cancel_task_def mark_task_uncertain_def
      reconcile_uncertain_task_def retry_uncertain_task_def bump_run_def require_def Let_def split: sum.splits)

lemma execute_sound:
  assumes "status_sound r"
  shows "status_sound (snd (execute sj op e r))"
  using assms
  by (cases op)
     (auto simp: sound_next sound_leases sound_release sound_complete sound_flow sound_restore
       sound_messages sound_explicit lease_next_script_def lease_next_plugin_step_def
       lease_next_pipeline_step_def complete_script_task_def complete_pipeline_task_def require_def
       split: sum.splits)

lemma spawn_sound:
  "status_sound r \<Longrightarrow> status_sound (snd (add_spawned_agent sj a q p nm ins r))"
  by (auto simp: add_spawned_agent_def require_def Let_def bump_run_def split: sum.splits option.splits
      dest!: active_status)

lemma reachable_sound: "reachable sj r \<Longrightarrow> status_sound r"
proof (induction rule: reachable.induct)
  case (start rid d inputs trig pins r)
  then have "run_status r = RunRunning"
    by (auto simp: new_started_run_def Let_def split: if_splits)
  then show ?case by simp
next
  case (step r r')
  from step(2) show ?case
  proof (cases rule: run_step.cases)
    case (step_execute op e res)
    then show ?thesis using execute_sound[OF step(3), of sj op e] by simp
  next
    case (step_spawn a q p nm ins res)
    then show ?thesis using spawn_sound[OF step(3), of sj a q p nm ins] by simp
  qed
qed

section \<open>No deadlock\<close>

text \<open>Active work that waits for nobody: every task is ready and unleased, or settled.\<close>

definition quiescent :: "run \<Rightarrow> bool" where
  "quiescent r = list_all (\<lambda>t. has_status [Ready, Succeeded, Skipped] t \<and> task_lease_id t = None) (run_tasks r)"

lemma no_callable_dependency:
  assumes "validate_pipeline sj d = Inr ()" "s \<in> set (pipeline_steps (def_pipeline d))"
    "i \<in> set (step_dependency_step_ids s)" "s' \<in> set (pipeline_steps (def_pipeline d))" "step_id s' = i"
  shows "step_execution_mode s' \<noteq> Some Callable"
proof
  assume c: "step_execution_mode s' = Some Callable"
  let ?callable = "bs_collect (map step_id
      (filter (\<lambda>s. step_execution_mode s = Some Callable) (pipeline_steps (def_pipeline d))))"
  have "i \<in> set ?callable" using assms(4,5) c by auto
  with assms(2,3) have "list_ex (\<lambda>s. (step_dependency_step_ids s \<noteq> [] \<and> step_id s \<in> set ?callable) \<or>
      list_ex (\<lambda>i. i \<in> set ?callable) (step_dependency_step_ids s)) (pipeline_steps (def_pipeline d))"
    by (auto simp: list_ex_iff simp del: set_bs_collect)
  with assms(1) show False
    unfolding validate_pipeline_def Let_def by (simp del: set_bs_collect split: if_splits)
qed

text \<open>A step none of whose dependencies is ready any more is ready itself, once nothing is left to
  skip and no program router waits.\<close>

lemma task_of_step:
  assumes "run_inv sj r" "i \<in> step_id ` set (run_steps r)"
  obtains t where "t \<in> set (run_tasks r)" "task_step_id t = i" "find_task r i = Some t"
proof -
  have "set (map task_step_id (run_tasks r)) = set (map step_id (run_steps r))"
    using assms(1) by (simp add: run_inv_def)
  with assms(2) obtain t where t: "t \<in> set (run_tasks r)" "task_step_id t = i"
    by (metis (mono_tags, opaque_lifting) imageE set_map)
  moreover have "find_task r i = Some t"
    unfolding find_task_def using find_unique[OF run_inv_distinct(2)[OF assms(1)] t(1)] t(2) by simp
  ultimately show thesis by (rule that)
qed

lemma step_of_task:
  assumes "run_inv sj r" "t \<in> set (run_tasks r)"
  obtains s where "s \<in> set (run_steps r)" "step_id s = task_step_id t" "find_step r (task_step_id t) = Some s"
    "find_task r (task_step_id t) = Some t"
proof -
  have "set (map task_step_id (run_tasks r)) = set (map step_id (run_steps r))"
    using assms(1) by (simp add: run_inv_def)
  with assms(2) obtain s where s: "s \<in> set (run_steps r)" "step_id s = task_step_id t"
    by (metis (mono_tags, opaque_lifting) imageE imageI set_map)
  moreover have "find_step r (task_step_id t) = Some s"
    using find_step_unique[OF run_inv_distinct(1)[OF assms(1)] s(1)] s(2) by simp
  moreover have "find_task r (task_step_id t) = Some t"
    unfolding find_task_def by (rule find_unique[OF run_inv_distinct(2)[OF assms(1)] assms(2)])
  ultimately show thesis by (rule that)
qed

text \<open>The dependencies of a step that is not skipped have succeeded, once none of them is ready.\<close>

lemma settled_dependency:
  assumes "run_inv sj r" "quiescent r" "s \<in> set (run_steps r)" "\<not> inherited_skip r s"
    and "\<forall>t\<in>set (run_tasks r). task_step_id t \<in> set (step_dependency_step_ids s) \<longrightarrow> task_status t \<noteq> Ready"
    and d: "d \<in> set (step_dependency_step_ids s)"
  shows "\<exists>t. find_task r d = Some t \<and> t \<in> set (run_tasks r) \<and> task_step_id t = d \<and> task_status t = Succeeded"
proof -
  have "d \<in> step_id ` set (run_steps r)"
    using run_inv_graph[OF assms(1)] assms(3) d by (auto simp: graph_ok_def)
  then obtain t where t: "t \<in> set (run_tasks r)" "task_step_id t = d" "find_task r d = Some t"
    by (rule task_of_step[OF assms(1)])
  have "task_status t \<noteq> Ready" using assms(5) t d by blast
  moreover have "task_status t \<noteq> Skipped" using assms(4) d t by (auto simp: inherited_skip_def list_ex_iff)
  moreover have "task_status t \<in> {Ready, Succeeded, Skipped}"
    using assms(2) t(1) by (auto simp: quiescent_def list_all_iff has_status_def)
  ultimately show ?thesis using t by auto
qed

text \<open>With its dependencies succeeded, a step of a valid definition is skipped or its condition and
  its route gates hold.\<close>

lemma decided_step:
  assumes "run_inv sj r" "s \<in> set (run_steps r)"
    and succeeded: "\<forall>d\<in>set (step_dependency_step_ids s). \<exists>t. find_task r d = Some t \<and> task_status t = Succeeded"
    and skip: "\<not> is_some_and (step_condition s) (false_condition r)" "\<not> route_not_selected r s"
  shows "is_none_or (step_condition s) (condition_holds r)" "route_gate_satisfied r s"
proof -
  have v: "validate_condition (def_pipeline (run_definition r)) s = Inr ()"
    "\<forall>gate\<in>set (step_route_gates s). validate_route_gate (def_pipeline (run_definition r)) s gate = Inr ()"
    using validate_definition_graph[of sj "run_definition r"] assms(1,2)
    by (auto simp: run_inv_def validate_step_def Let_def)
  show "is_none_or (step_condition s) (condition_holds r)"
  proof (cases "step_condition s")
    case (Some c)
    then have "cond_source_step_id c \<in> set (step_dependency_step_ids s)"
      using v(1) by (auto simp: validate_condition_def split: if_splits)
    from succeeded this Some skip(1) show ?thesis
      by (auto simp: false_condition_def condition_holds_def)
  qed simp
  have "is_some_and (find_task r i) (\<lambda>t. task_status t = Succeeded)" if "i \<in> set (gate_router_ids s)" for i
  proof -
    from that obtain gate where "gate \<in> set (step_route_gates s)" "i = gate_router_step_id gate"
      by (auto simp: gate_router_ids_def)
    then have "i \<in> set (step_dependency_step_ids s)"
      using v(2) by (auto simp: validate_route_gate_def split: option.splits if_splits)
    from succeeded this show ?thesis by auto
  qed
  then show "route_gate_satisfied r s"
    using skip(2) by (cases "step_route_gates s = []")
      (simp_all add: route_not_selected_def list_all_iff, simp add: route_gate_satisfied_def)
qed

lemma settled_step_ready:
  assumes "run_inv sj r" "quiescent r" "skipped_ids r = []" "router_candidates r = []"
    and t: "t \<in> set (run_tasks r)" "task_status t = Ready" "\<not> callable_template r (task_step_id t)"
    and deps: "\<And>t'. (task_step_id t', task_step_id t) \<in> dep_rel (run_steps r) \<Longrightarrow>
      t' \<in> set (run_tasks r) \<Longrightarrow> task_status t' \<noteq> Ready"
  shows "task_ready r t"
proof -
  obtain s where s: "s \<in> set (run_steps r)" "step_id s = task_step_id t"
    and fs: "find_step r (task_step_id t) = Some s" and ft: "find_task r (task_step_id t) = Some t"
    by (rule step_of_task[OF assms(1) t(1)])
  have lease: "task_lease_id t = None" using assms(2) t(1) by (auto simp: quiescent_def list_all_iff)
  have "\<not> should_skip r s" using assms(3) s(1) by (auto simp: skipped_ids_def filter_empty_conv)
  then have skip: "\<not> inherited_skip r s" "\<not> is_some_and (step_condition s) (false_condition r)"
    "\<not> route_not_selected r s"
    using ft lease t(2) by (auto simp: should_skip_def s(2))
  have "\<forall>t'\<in>set (run_tasks r). task_step_id t' \<in> set (step_dependency_step_ids s) \<longrightarrow> task_status t' \<noteq> Ready"
    using s deps by (auto simp: dep_rel_def)
  note dep = settled_dependency[OF assms(1,2) s(1) skip(1) this]
  have ds: "dependencies_succeeded r (task_step_id t)"
    using dep by (auto simp: dependencies_succeeded_def fs list_all_iff list_ex_iff)
  have nr: "\<not> is_program_router s"
  proof
    assume "is_program_router s"
    with s ft t(2) lease ds have "s \<in> set (filter (\<lambda>step. is_program_router step \<and>
       is_some_and (find_task r (step_id step))
         (\<lambda>t. task_status t = Ready \<and> task_lease_id t = None \<and> dependencies_succeeded r (step_id step)))
       (run_steps r))" by simp
    with assms(4) show False unfolding router_candidates_def by auto
  qed
  have "\<forall>d\<in>set (step_dependency_step_ids s). \<exists>t. find_task r d = Some t \<and> task_status t = Succeeded"
    using dep by blast
  note decided = decided_step[OF assms(1) s(1) this skip(2,3)]
  show ?thesis using t(2,3) lease ds fs nr decided by (simp add: task_ready_def)
qed

lemma quiescent_progress:
  assumes "run_inv sj r" "quiescent r" "skipped_ids r = []" "router_candidates r = []"
    and "run_status r = RunRunning" "\<not> run_paused r"
  shows "ready_task_ids r \<noteq> [] \<or> all_done r"
proof (rule disjCI)
  assume "\<not> all_done r"
  let ?open = "{t \<in> set (run_tasks r). task_status t = Ready \<and> \<not> callable_template r (task_step_id t)}"
  obtain t0 where "t0 \<in> ?open"
    using \<open>\<not> all_done r\<close> assms(2)
    by (auto simp: all_done_def quiescent_def list_all_iff has_status_def idle_template_def)
  moreover have "wf (dep_rel (run_steps r))"
    using run_inv_graph[OF assms(1)] finite_dep_rel by (auto simp: graph_ok_def intro: finite_acyclic_wf)
  ultimately obtain i where i: "i \<in> task_step_id ` ?open"
    and least: "\<And>d. (d, i) \<in> dep_rel (run_steps r) \<Longrightarrow> d \<notin> task_step_id ` ?open"
    using wfE_min[of "dep_rel (run_steps r)" "task_step_id t0" "task_step_id ` ?open"] by blast
  obtain t where t: "t \<in> set (run_tasks r)" "task_status t = Ready" "\<not> callable_template r (task_step_id t)"
    "task_step_id t = i" using i by auto
  have v: "validate_pipeline sj (run_definition r) = Inr ()"
    using assms(1) validate_definition_parts(1) by (auto simp: run_inv_def)
  have "task_ready r t"
  proof (rule settled_step_ready[OF assms(1-4) t(1-3)])
    fix t'
    assume d: "(task_step_id t', task_step_id t) \<in> dep_rel (run_steps r)" and t': "t' \<in> set (run_tasks r)"
    have "\<not> callable_template r (task_step_id t')"
      using d no_callable_dependency[OF v]
      by (auto simp: callable_template_def dep_rel_def list_ex_iff)
    with least[of "task_step_id t'"] d t' t(4) show "task_status t' \<noteq> Ready" by auto
  qed
  then have "i \<in> set (ready_task_ids r)" using ready_task_ids_mem assms(5,6) t by auto
  then show "ready_task_ids r \<noteq> []" by auto
qed

end
