(* ===== verification/Subpipelines.thy ===== *)
theory Subpipelines
  imports Host_Steps
begin

text \<open>
  Sub-pipeline references and child runs (\<^verbatim>\<open>subpipelines.rs\<close>): the reference cycle check, the
  ancestry walk, the values a child starts with and what an ended child hands to its parent. The
  stores the host looks things up in are the parameters \<open>pipeline_of\<close> and \<open>find_run\<close>.
\<close>

section \<open>Reference cycles\<close>

definition referenced_launch_commands :: "pipeline_definition \<Rightarrow> string list" where
  "referenced_launch_commands pipeline =
     bs_collect (List.map_filter (\<lambda>step. case step_executor step of
        Some (PipelineExecutor launch_command_id _) \<Rightarrow> Some launch_command_id | _ \<Rightarrow> None)
       (pipeline_steps pipeline))"

definition child_commands :: "(string \<Rightarrow> pipeline_definition option) \<Rightarrow> string \<Rightarrow> string list" where
  "child_commands pipeline_of i =
     (case pipeline_of i of None \<Rightarrow> [] | Some p \<Rightarrow> referenced_launch_commands p)"

text \<open>The depth-first search. The head of the list is the top of the stack; a command maps to
  \<open>True\<close> while it is on the current path and to \<open>False\<close> when it is finished. The result \<open>None\<close>
  stands for a search that does not end.\<close>

partial_function (option) cycle_search ::
  "(string \<Rightarrow> string list) \<Rightarrow> (string, bool) btree_map \<Rightarrow> (string \<times> string list) list \<Rightarrow> bool option" where
  "cycle_search children on_path stack =
     (case stack of
        [] \<Rightarrow> Some False
      | (c, pending) # rest \<Rightarrow>
          if pending = [] then cycle_search children (bm_insert c False on_path) rest
          else
            let next = last pending; stack' = (c, butlast pending) # rest in
            case bm_get on_path next of
              Some on \<Rightarrow> if on then Some True else cycle_search children on_path stack'
            | None \<Rightarrow> cycle_search children (bm_insert next True on_path) ((next, children next) # stack'))"

definition subpipeline_cycle :: "string \<Rightarrow> (string \<Rightarrow> pipeline_definition option) \<Rightarrow> bool option" where
  "subpipeline_cycle start pipeline_of =
     cycle_search (child_commands pipeline_of) (bm_insert start True [])
       [(start, child_commands pipeline_of start)]"

section \<open>Ancestors\<close>

function ancestor_commands ::
  "(string \<Rightarrow> run option) \<Rightarrow> 8 word \<Rightarrow> run option \<Rightarrow> string list" where
  "ancestor_commands find_run hops current =
     (case current of
        None \<Rightarrow> []
      | Some r \<Rightarrow>
          (case def_launch_command (run_definition r) of None \<Rightarrow> [] | Some c \<Rightarrow> [command_id c]) @
          (case run_trigger r of Some (PipelineTrigger _ _ l _) \<Rightarrow> [l] | _ \<Rightarrow> []) @
          (if hops > MAX_SUBPIPELINE_DEPTH then []
           else ancestor_commands find_run (hops + 1)
                  (Option.bind (Option.bind (run_trigger r) trigger_pipeline_parent)
                     (\<lambda>(parent, _). find_run parent))))"
  by pat_completeness auto
termination
proof (relation "measure (\<lambda>(_, hops, _). 6 - unat hops)", goal_cases)
  case (2 find_run hops current r)
  then have "hops \<le> 4" by (simp add: MAX_SUBPIPELINE_DEPTH_def)
  then have "unat hops \<le> 4" by (simp add: word_le_nat_alt)
  moreover from this have "unat (hops + 1) = unat hops + 1"
    by (simp add: unat_word_ariths)
  ultimately show ?case by simp
qed simp

declare ancestor_commands.simps [simp del]

definition ancestor_launch_commands :: "run \<Rightarrow> (string \<Rightarrow> run option) \<Rightarrow> string list" where
  "ancestor_launch_commands r find_run = dedup (ancestor_commands find_run 0 (Some r))"

section \<open>Child inputs\<close>

definition SUBPIPELINE_INPUT_UNAVAILABLE :: string where
  "SUBPIPELINE_INPUT_UNAVAILABLE = ''subpipeline-input-unavailable''"
definition SUBPIPELINE_FAILED :: string where "SUBPIPELINE_FAILED = ''subpipeline-failed''"
definition SUBPIPELINE_CANCELLED :: string where "SUBPIPELINE_CANCELLED = ''subpipeline-cancelled''"

definition source_value ::
  "serde_json \<Rightarrow> json_map \<Rightarrow> script_dependency list \<Rightarrow> subpipeline_input_source \<Rightarrow> string + json option" where
  "source_value sj run_ins deps source =
     (case source of
        ValueSource v \<Rightarrow> Inr (Some v)
      | InputSource name \<Rightarrow> Inr (bm_get run_ins name)
      | StepSource i field \<Rightarrow>
          (case find (\<lambda>d. sdep_step_id d = i) deps of
             None \<Rightarrow> Inl SUBPIPELINE_INPUT_UNAVAILABLE
           | Some d \<Rightarrow>
               (case field of
                  Some f \<Rightarrow>
                    (case Option.bind (sdep_data d) (\<lambda>v. get_field v f) of
                       None \<Rightarrow> Inl SUBPIPELINE_INPUT_UNAVAILABLE
                     | Some v \<Rightarrow> Inr (Some v))
                | None \<Rightarrow>
                    (case sdep_text d of
                       Some t \<Rightarrow> Inr (Some (JString t))
                     | None \<Rightarrow>
                         (case sdep_data d of
                            Some v \<Rightarrow> Inr (Some (JString (to_string sj v)))
                          | None \<Rightarrow> Inl SUBPIPELINE_INPUT_UNAVAILABLE)))))"

fun child_inputs_loop ::
  "serde_json \<Rightarrow> json_map \<Rightarrow> script_dependency list \<Rightarrow> (string \<times> subpipeline_input_source) list \<Rightarrow> json_map \<Rightarrow>
   string + json_map" where
  "child_inputs_loop sj run_ins deps [] values = Inr values"
| "child_inputs_loop sj run_ins deps ((name, source) # rest) values =
     and_then (source_value sj run_ins deps source)
       (\<lambda>v. child_inputs_loop sj run_ins deps rest
              (case v of None \<Rightarrow> values | Some x \<Rightarrow> bm_insert name x values))"

definition resolve_child_inputs ::
  "serde_json \<Rightarrow> (string, subpipeline_input_source) btree_map \<Rightarrow> json_map \<Rightarrow> script_dependency list \<Rightarrow>
   string + json_map" where
  "resolve_child_inputs sj sources run_ins deps = child_inputs_loop sj run_ins deps sources []"

section \<open>What a child hands on\<close>

definition last_succeeded :: "run \<Rightarrow> task_record option" where
  "last_succeeded r = find (\<lambda>t. task_status t = Succeeded) (rev (run_tasks r))"

definition child_declared :: "run \<Rightarrow> pipeline_output list" where
  "child_declared child = pipeline_outputs (def_pipeline (run_definition child))"

definition text_steps :: "run \<Rightarrow> string list" where
  "text_steps child =
     (if child_declared child = []
      then (case last_succeeded child of None \<Rightarrow> [] | Some t \<Rightarrow> [task_step_id t])
      else bs_collect (map out_source_step_id (filter (\<lambda>out. out_field out = None) (child_declared child))))"

definition child_output_references :: "run \<Rightarrow> (string \<times> native_history_reference) list" where
  "child_output_references child =
     List.map_filter (\<lambda>i.
       Option.bind (find (\<lambda>t. task_step_id t = i \<and> task_status t = Succeeded) (run_tasks child))
         (\<lambda>t. if task_output t \<noteq> None then None
              else map_option (\<lambda>reference. (i, reference\<lparr>ref_fields := []\<rparr>)) (task_result_reference t)))
       (text_steps child)"

definition task_text :: "serde_json \<Rightarrow> task_record \<Rightarrow> (string, string) btree_map \<Rightarrow> string option" where
  "task_text sj t native_texts =
     or_else (map_option output_text (task_output t))
       (or_else (bm_get native_texts (task_step_id t)) (map_option (to_string sj) (task_result_data t)))"

fun child_outputs_loop ::
  "serde_json \<Rightarrow> run \<Rightarrow> (string, string) btree_map \<Rightarrow> pipeline_output list \<Rightarrow> json_map \<Rightarrow> result_field list \<Rightarrow>
   string + json_map \<times> result_field list" where
  "child_outputs_loop sj child native_texts [] data present = Inr (data, present)"
| "child_outputs_loop sj child native_texts (out # rest) data present =
     (case find_task child (out_source_step_id out) of
        None \<Rightarrow> Inl SUBPIPELINE_OUTPUT_UNAVAILABLE
      | Some t \<Rightarrow>
          if task_status t \<noteq> Succeeded then child_outputs_loop sj child native_texts rest data present
          else
            (case (case out_field out of
                     Some f \<Rightarrow> Option.bind (task_result_data t) (\<lambda>v. get_field v f)
                   | None \<Rightarrow> map_option JString (task_text sj t native_texts)) of
               None \<Rightarrow> Inl SUBPIPELINE_OUTPUT_UNAVAILABLE
             | Some v \<Rightarrow>
                 child_outputs_loop sj child native_texts rest (bm_insert (out_name out) v data)
                   (present @ [\<lparr>field_name = out_name out, field_kind = out_kind out\<rparr>])))"

definition child_outputs ::
  "serde_json \<Rightarrow> run \<Rightarrow> (string, string) btree_map \<Rightarrow> string + json_map option \<times> string option" where
  "child_outputs sj child native_texts =
     (if child_declared child = []
      then Inr (None, Option.bind (last_succeeded child) (\<lambda>t. task_text sj t native_texts))
      else
        and_then (child_outputs_loop sj child native_texts (child_declared child) [] [])
          (\<lambda>(data, present).
             case validate_result_value present (JObject data) of
               Inl _ \<Rightarrow> Inl SUBPIPELINE_OUTPUT_UNAVAILABLE
             | Inr _ \<Rightarrow> Inr (Some data, None)))"

definition child_failure :: "run \<Rightarrow> failure_record" where
  "child_failure child =
     (case find_map (\<lambda>t. map_option (\<lambda>f. (task_step_id t, f)) (task_failure t))
             (filter (\<lambda>t. task_status t = Failed) (run_tasks child)) of
        None \<Rightarrow> failure_new SUBPIPELINE_FAILED
      | Some (i, f) \<Rightarrow>
          failure_with_detail SUBPIPELINE_FAILED
            (''step '' @ [CHR 0x22] @ i @ [CHR 0x22] @ '' failed ('' @ fail_code f @ '')'' @
             (case keep_if (\<lambda>s. s \<noteq> []) (map_option trim (fail_detail f)) of
                None \<Rightarrow> [] | Some inner \<Rightarrow> '': '' @ inner)))"

definition child_completion ::
  "serde_json \<Rightarrow> run \<Rightarrow> (string, string) btree_map \<Rightarrow> pipeline_completion option" where
  "child_completion sj child native_texts =
     (case run_status child of
        RunRunning \<Rightarrow> None
      | RunUncertain \<Rightarrow> None
      | RunCancelled \<Rightarrow> Some (PipelineFailed (failure_new SUBPIPELINE_CANCELLED))
      | RunFailed \<Rightarrow> Some (PipelineFailed (child_failure child))
      | RunSucceeded \<Rightarrow>
          Some (case child_outputs sj child native_texts of
                  Inr (data, whole) \<Rightarrow> PipelineSucceeded data whole
                | Inl code \<Rightarrow> PipelineFailed (failure_new code)))"

section \<open>The search is correct\<close>

definition refers :: "(string \<Rightarrow> string list) \<Rightarrow> (string \<times> string) set" where
  "refers children = {(a, b). b \<in> set (children a)}"

definition cycle_reachable :: "(string \<Rightarrow> string list) \<Rightarrow> string \<Rightarrow> bool" where
  "cycle_reachable children start \<longleftrightarrow>
     (\<exists>c. (start, c) \<in> (refers children)\<^sup>* \<and> (c, c) \<in> (refers children)\<^sup>+)"

text \<open>A stack is a path: every command was referred to by the one below it, and the references
  already taken from a command lead to finished commands or to the command above it.\<close>

fun stack_ok ::
  "(string \<Rightarrow> string list) \<Rightarrow> string set \<Rightarrow> string set \<Rightarrow> (string \<times> string list) list \<Rightarrow> bool" where
  "stack_ok children black up [] = True"
| "stack_ok children black up ((c, pending) # rest) \<longleftrightarrow>
     set pending \<subseteq> set (children c) \<and>
     set (children c) - set pending \<subseteq> black \<union> up \<and>
     (case rest of [] \<Rightarrow> True | (d, _) # _ \<Rightarrow> c \<in> set (children d)) \<and>
     stack_ok children black {c} rest"

definition search_inv ::
  "(string \<Rightarrow> string list) \<Rightarrow> string \<Rightarrow> (string, bool) btree_map \<Rightarrow> (string \<times> string list) list \<Rightarrow> bool" where
  "search_inv children start on_path stack \<longleftrightarrow>
     (let black = {c. bm_get on_path c = Some False} in
      distinct (map fst stack) \<and> fst ` set stack = {c. bm_get on_path c = Some True} \<and>
      stack_ok children black {} stack \<and>
      (\<forall>b\<in>black. set (children b) \<subseteq> black \<and> (b, b) \<notin> (refers children)\<^sup>+) \<and>
      (\<forall>c. bm_get on_path c \<noteq> None \<longrightarrow> (start, c) \<in> (refers children)\<^sup>*) \<and>
      bm_get on_path start \<noteq> None)"

lemma stack_ok_mono:
  "stack_ok children black up stack \<Longrightarrow> black \<subseteq> black' \<Longrightarrow> stack_ok children black' up stack"
  by (induction children black up stack rule: stack_ok.induct) auto

lemma stack_path:
  assumes "stack_ok children black up ((c, pending) # rest)" "d \<in> fst ` set ((c, pending) # rest)"
  shows "(d, c) \<in> (refers children)\<^sup>*"
  using assms
proof (induction rest arbitrary: c pending up)
  case (Cons x rest)
  obtain c' p' where x: "x = (c', p')" by (cases x)
  have edge: "(c', c) \<in> refers children" and ok: "stack_ok children black {c} ((c', p') # rest)"
    using Cons.prems(1) x by (auto simp: refers_def)
  show ?case
  proof (cases "d = c")
    case False
    then have "d \<in> fst ` set ((c', p') # rest)" using Cons.prems(2) x by auto
    from Cons.IH[OF ok this] edge show ?thesis by (rule rtrancl_into_rtrancl)
  qed simp
qed auto

text \<open>Finished commands stay closed under references.\<close>

lemma black_closed:
  assumes "\<forall>b\<in>black. set (children b) \<subseteq> black" "(b, x) \<in> (refers children)\<^sup>*" "b \<in> black"
  shows "x \<in> black"
  using assms(2,3)
proof (induction rule: rtrancl_induct)
  case (step y z)
  then show ?case using assms(1) by (auto simp: refers_def)
qed

lemma search_finish:
  assumes "search_inv children start on_path ((c, []) # rest)"
  shows "search_inv children start (bm_insert c False on_path) rest"
proof -
  let ?black = "{x. bm_get on_path x = Some False}"
  let ?black' = "{x. bm_get (bm_insert c False on_path) x = Some False}"
  note I = assms[unfolded search_inv_def Let_def]
  have eq: "?black' = insert c ?black" by (auto simp: bm_get_insert)
  have kids: "set (children c) \<subseteq> ?black" using I by auto
  have "c \<in> {x. bm_get on_path x = Some True}" using conjunct1[OF conjunct2[OF I]] by auto
  then have cnb: "c \<notin> ?black" by simp
  have closed: "\<forall>b\<in>?black. set (children b) \<subseteq> ?black" using I by blast
  have "(c, c) \<notin> (refers children)\<^sup>+"
  proof
    assume "(c, c) \<in> (refers children)\<^sup>+"
    then obtain b where b: "(c, b) \<in> refers children" "(b, c) \<in> (refers children)\<^sup>*"
      by (auto dest: tranclD)
    then have "b \<in> ?black" using kids by (auto simp: refers_def)
    from black_closed[OF closed b(2) this] cnb show False by contradiction
  qed
  moreover have "stack_ok children ?black' {} rest"
  proof (cases rest)
    case (Cons x rest')
    obtain d p where x: "x = (d, p)" by (cases x)
    have "stack_ok children ?black {c} rest" using I by simp
    then have "stack_ok children ?black' {c} rest" by (rule stack_ok_mono) (auto simp: eq)
    then show ?thesis using Cons x eq by auto
  qed simp
  moreover have "fst ` set rest = {x. bm_get (bm_insert c False on_path) x = Some True}"
    using I by (auto simp: bm_get_insert)
  moreover have "\<forall>x. bm_get (bm_insert c False on_path) x \<noteq> None \<longrightarrow> (start, x) \<in> (refers children)\<^sup>*"
  proof -
    have "bm_get on_path c \<noteq> None" using I by auto
    then show ?thesis using I by (auto simp: bm_get_insert)
  qed
  ultimately show ?thesis
    unfolding search_inv_def Let_def eq using I kids by (auto simp: bm_get_insert)
qed

lemma search_skip:
  assumes "search_inv children start on_path ((c, pending) # rest)" "pending \<noteq> []"
    "bm_get on_path (last pending) = Some False"
  shows "search_inv children start on_path ((c, butlast pending) # rest)"
proof -
  have p: "set pending = insert (last pending) (set (butlast pending))"
    using assms(2) by (metis append_butlast_last_id list.simps(15) rotate1.simps(2) set_rotate1)
  have "stack_ok children {x. bm_get on_path x = Some False} {} ((c, butlast pending) # rest)"
    using assms(1,3) p by (auto simp: search_inv_def Let_def dest: in_set_butlastD)
  then show ?thesis using assms(1) by (simp add: search_inv_def Let_def)
qed

lemma search_push:
  assumes "search_inv children start on_path ((c, pending) # rest)" "pending \<noteq> []"
    "bm_get on_path (last pending) = None"
  shows "search_inv children start (bm_insert (last pending) True on_path)
    ((last pending, children (last pending)) # (c, butlast pending) # rest)"
proof -
  let ?n = "last pending"
  let ?black = "{x. bm_get on_path x = Some False}"
  note I = assms(1)[unfolded search_inv_def Let_def]
  have p: "set pending = insert ?n (set (butlast pending))"
    using assms(2) by (metis append_butlast_last_id list.simps(15) rotate1.simps(2) set_rotate1)
  have black: "{x. bm_get (bm_insert ?n True on_path) x = Some False} = ?black"
    using assms(3) by (auto simp: bm_get_insert)
  have edge: "?n \<in> set (children c)" using I p by auto
  have "stack_ok children ?black {?n} ((c, butlast pending) # rest)"
    using I p by (auto dest: in_set_butlastD)
  then have "stack_ok children ?black {} ((?n, children ?n) # (c, butlast pending) # rest)"
    using edge by simp
  moreover have "?n \<notin> fst ` set ((c, pending) # rest)"
    using I assms(3) by (metis (mono_tags, lifting) mem_Collect_eq option.distinct(1))
  moreover have "(start, ?n) \<in> (refers children)\<^sup>*"
  proof -
    have "bm_get on_path c = Some True" using I by auto
    then have "(start, c) \<in> (refers children)\<^sup>*" using I by auto
    moreover have "(c, ?n) \<in> refers children" using edge by (simp add: refers_def)
    ultimately show ?thesis by (rule rtrancl_into_rtrancl)
  qed
  ultimately show ?thesis
    unfolding search_inv_def Let_def black using I by (auto simp: bm_get_insert)
qed

definition search_size :: "(string \<times> string list) list \<Rightarrow> nat" where
  "search_size stack = sum_list (map (\<lambda>(c, pending). Suc (length pending)) stack)"

text \<open>On a finite set of commands the search ends, with the answer.\<close>

lemma cycle_search_correct:
  assumes "finite U" "\<And>c. set (children c) \<subseteq> U" "search_inv children start on_path stack"
  shows "cycle_search children on_path stack = Some (cycle_reachable children start)"
  using assms(3)
proof (induction "(card (U - {c. bm_get on_path c \<noteq> None}), search_size stack)"
    arbitrary: on_path stack rule: wf_induct_rule[OF wf_lex_prod[OF wf_less_than wf_less_than]])
  case (1 on_path stack)
  note I = 1(2)[unfolded search_inv_def Let_def]
  show ?case
  proof (cases stack)
    case Nil
    have "\<forall>c. bm_get on_path c \<noteq> Some True" using I Nil by auto
    then have start: "start \<in> {c. bm_get on_path c = Some False}" using I by auto
    have closed: "\<forall>b\<in>{c. bm_get on_path c = Some False}. set (children b) \<subseteq> {c. bm_get on_path c = Some False}"
      using I by blast
    have "\<not> cycle_reachable children start"
      unfolding cycle_reachable_def using black_closed[OF closed _ start] I by blast
    with Nil show ?thesis by (subst cycle_search.simps) simp
  next
    case (Cons x rest)
    obtain c pending where x: "x = (c, pending)" by (cases x)
    have known: "bm_get on_path c \<noteq> None" using conjunct1[OF conjunct2[OF I]] Cons x by auto
    show ?thesis
    proof (cases "pending = []")
      case True
      have "{d. bm_get (bm_insert c False on_path) d \<noteq> None} = {d. bm_get on_path d \<noteq> None}"
        using known by (auto simp: bm_get_insert)
      then have "cycle_search children (bm_insert c False on_path) rest = Some (cycle_reachable children start)"
        using 1(1)[of "bm_insert c False on_path" rest] search_finish[of children start on_path c rest] 1(2) Cons x True
        by (simp add: search_size_def)
      with Cons x True show ?thesis by (subst cycle_search.simps) simp
    next
      case False
      let ?n = "last pending"
      have lp: "length (butlast pending) < length pending" using False by simp
      show ?thesis
      proof (cases "bm_get on_path ?n")
        case None
        have "set pending \<subseteq> set (children c)" using I Cons x by simp
        then have nU: "?n \<in> U" using assms(2)[of c] last_in_set[OF False] by blast
        have "card (U - {d. bm_get (bm_insert ?n True on_path) d \<noteq> None}) < card (U - {d. bm_get on_path d \<noteq> None})"
          using assms(1) nU None by (intro psubset_card_mono) (auto simp: bm_get_insert)
        then have "cycle_search children (bm_insert ?n True on_path)
            ((?n, children ?n) # (c, butlast pending) # rest) = Some (cycle_reachable children start)"
          using 1(1)[of "bm_insert ?n True on_path" "(?n, children ?n) # (c, butlast pending) # rest"]
            search_push[of children start on_path c pending rest] 1(2) Cons x False None by simp
        with Cons x False None show ?thesis by (subst cycle_search.simps) (simp add: Let_def)
      next
        case (Some on)
        show ?thesis
        proof (cases on)
          case True
          have "?n \<in> fst ` set stack" using I Some True by auto
          then have up_path: "(?n, c) \<in> (refers children)\<^sup>*"
            using stack_path[of children _ "{}" c pending rest ?n] I Cons x by blast
          have edge: "(c, ?n) \<in> refers children"
            using I Cons x last_in_set[OF False] by (auto simp: refers_def)
          have "(start, c) \<in> (refers children)\<^sup>*" using I known by blast
          moreover have "(c, c) \<in> (refers children)\<^sup>+" using edge up_path by (rule rtrancl_into_trancl2)
          ultimately have "cycle_reachable children start" unfolding cycle_reachable_def by blast
          with Cons x False Some True show ?thesis by (subst cycle_search.simps) (simp add: Let_def)
        next
          case b: False
          have "cycle_search children on_path ((c, butlast pending) # rest) = Some (cycle_reachable children start)"
            using 1(1)[of on_path "(c, butlast pending) # rest"] search_skip[of children start on_path c pending rest]
              1(2) Cons x False Some b lp by (simp add: search_size_def)
          with Cons x False Some b show ?thesis by (subst cycle_search.simps) (simp add: Let_def)
        qed
      qed
    qed
  qed
qed

lemma subpipeline_cycle_correct:
  assumes "finite {i. pipeline_of i \<noteq> None}"
  shows "subpipeline_cycle start pipeline_of = Some (cycle_reachable (child_commands pipeline_of) start)"
proof -
  let ?U = "\<Union>i\<in>{i. pipeline_of i \<noteq> None}. set (child_commands pipeline_of i)"
  have "set (child_commands pipeline_of c) \<subseteq> ?U" for c
    by (cases "pipeline_of c") (auto simp: child_commands_def)
  moreover have "search_inv (child_commands pipeline_of) start (bm_insert start True [])
      [(start, child_commands pipeline_of start)]"
    by (auto simp: search_inv_def Let_def)
  ultimately show ?thesis
    unfolding subpipeline_cycle_def using assms by (intro cycle_search_correct[of ?U]) auto
qed

section \<open>Children\<close>

lemma child_completion_None:
  "child_completion sj child texts = None \<longleftrightarrow> run_status child \<in> {RunRunning, RunUncertain}"
  by (auto simp: child_completion_def split: run_status.splits)

lemma child_outputs_loop_ok:
  assumes "child_outputs_loop sj child texts outs data present = Inr (data', present')"
    "distinct (map out_name outs)" "\<forall>f\<in>set present. field_name f \<notin> out_name ` set outs"
  shows "(\<forall>k. k \<notin> out_name ` set outs \<longrightarrow> bm_get data' k = bm_get data k) \<and>
         (\<forall>out\<in>set outs. \<exists>t. find_task child (out_source_step_id out) = Some t \<and>
            (task_status t = Succeeded \<longrightarrow>
               \<lparr>field_name = out_name out, field_kind = out_kind out\<rparr> \<in> set present' \<and>
               bm_get data' (out_name out) =
                 (case out_field out of
                    Some f \<Rightarrow> Option.bind (task_result_data t) (\<lambda>v. get_field v f)
                  | None \<Rightarrow> map_option JString (task_text sj t texts)))) \<and>
         set present \<subseteq> set present'"
  using assms
proof (induction outs arbitrary: data present)
  case (Cons out outs)
  then obtain t where t: "find_task child (out_source_step_id out) = Some t"
    by (auto split: option.splits)
  show ?case
  proof (cases "task_status t = Succeeded")
    case False
    with Cons t show ?thesis by simp
  next
    case True
    let ?v = "case out_field out of
        Some f \<Rightarrow> Option.bind (task_result_data t) (\<lambda>v. get_field v f)
      | None \<Rightarrow> map_option JString (task_text sj t texts)"
    let ?f = "\<lparr>field_name = out_name out, field_kind = out_kind out\<rparr>"
    from Cons.prems t True obtain v where v: "?v = Some v"
      and rest: "child_outputs_loop sj child texts outs (bm_insert (out_name out) v data) (present @ [?f]) =
        Inr (data', present')"
      by (cases ?v) auto
    have "distinct (map out_name outs)" "\<forall>f\<in>set (present @ [?f]). field_name f \<notin> out_name ` set outs"
      using Cons.prems(2,3) by auto
    note IH = Cons.IH[OF rest this]
    have "out_name out \<notin> out_name ` set outs" using Cons.prems(2) by auto
    then have "bm_get data' (out_name out) = Some v" using IH by (simp add: bm_get_insert)
    with IH t v show ?thesis by (auto simp: bm_get_insert)
  qed
qed simp

end
