(* ===== verification/Run_Evaluations.thy ===== *)
theory Run_Evaluations
  imports Definition_Properties Run_Samples Run_Progress Subpipelines
begin

text \<open>
  What the operations of the coordinator compute on the sample runs: a run of one step that is done, a
  run whose work waits for a second review round, a command that launches itself and a child run with a
  declared output. One evaluation gives the facts; the bundles after it name them by run.
\<close>

definition one_done :: run where
  "one_done = after_op (CompleteTask ''s1'' 1 ''x'' (OutcomeSucceeded None)) 1
     (after_op (DispatchNext sample_execution) 0 (sample_run [sample_step ''s1'' []]))"

definition reviewed_run :: run where
  "reviewed_run = (sample_run reviewed_steps)\<lparr>run_tasks :=
     map (\<lambda>t. t\<lparr>task_status := Succeeded, task_execution := Some sample_execution\<rparr>)
       (run_tasks (sample_run reviewed_steps))\<rparr>"

definition recursive_store :: "string \<Rightarrow> pipeline_definition option" where
  "recursive_store i =
     (if i = ''c'' then Some (def_pipeline (sample_definition
        [(sample_step ''again'' [])\<lparr>step_executor := Some (PipelineExecutor ''c'' [])\<rparr>])) else None)"

definition child_run :: run where
  "child_run = one_done\<lparr>run_definition := (run_definition one_done)\<lparr>def_pipeline :=
     (def_pipeline (run_definition one_done))\<lparr>pipeline_outputs :=
        [\<lparr>out_name = ''answer'', out_kind = TextField, out_source_step_id = ''s1'', out_field = None\<rparr>]\<rparr>\<rparr>\<rparr>"

lemma run_evaluations:
  "Suc (length (run_tasks (sample_run two_steps))) < 2 ^ 64"
  "run_revision dispatched \<noteq> run_revision (sample_run two_steps)"
  "(7 :: revision) \<noteq> run_revision (sample_run two_steps)"
  "fst (lease_next_task sample_json 0 ''l'' (sample_run two_steps)) =
     Inr (Some (the (projr (fst (lease_next_task sample_json 0 ''l'' (sample_run two_steps))))))"
  "run_tasks unsure \<noteq> []"
  "task_status (hd (run_tasks unsure)) = Uncertain"
  "fst (execute sample_json (CompleteTask ''s1'' 1 ''x'' (OutcomeSucceeded None)) 1 dispatched) = Inr ()"
  "list_all (\<lambda>t. task_status t \<noteq> Cancelled) (run_tasks dispatched)"
  "distinct (lease_ids dispatched)"
  "run_agent_requests dispatched = []"
  "needs_restore dispatched"
  "fst (cancel_run 1 dispatched) = Inr (projr (fst (cancel_run 1 dispatched)))"
  "list_ex (\<lambda>t. task_status t = Cancelled \<and> task_lease_id t = Some ''l'') (run_tasks failed_beside)"
  "validate_run_data sample_json failed_beside = Inl (InvalidRunData ''only ready tasks may hold a lease'')"
  "run_status completed = RunRunning"
  "\<not> run_paused completed"
  "quiescent completed"
  "skipped_ids completed = []"
  "router_candidates completed = []"
  "\<not> all_done completed"
  "fst (repeat_from ''s1'' completed) = Inr ()"
  "new_started_run sample_json ''r'' (sample_definition [sample_step ''s1'' []]) [] None False =
     Inr (sample_run [sample_step ''s1'' []])"
  "run_status one_done = RunSucceeded"
  "run_tasks one_done \<noteq> []"
  "task_status (hd (run_tasks one_done)) \<noteq> Skipped"
  "task_status (hd (run_tasks one_done)) \<noteq> Ready"
  "review_max_iterations (the (step_review (reviewed_steps ! 1))) = Some 2"
  "1 < length (run_tasks reviewed_run)"
  "run_attempts (review_rejected reviewed_run 1 (reviewed_steps ! 1) (the (step_review (reviewed_steps ! 1))))
     \<noteq> run_attempts reviewed_run"
  "step_id (reviewed_steps ! 1) = ''review''"
  "fst (cancel_task ''s1'' 0 (sample_run chained_steps)) = Inr ()"
  "fst (add_spawned_agent sample_json ''a'' ''q1'' ''q'' ''N'' ''do'' (sample_run two_steps)) = Inr ''agent-q1''"
  "\<lparr>from_member_id = ''a'', to_member_id = ''agent-q1''\<rparr> \<in> set (send_edges (def_team (run_definition
     (snd (add_spawned_agent sample_json ''a'' ''q1'' ''q'' ''N'' ''do'' (sample_run two_steps))))))"
  "\<lparr>from_member_id = ''a'', to_member_id = ''agent-q1''\<rparr> \<notin>
     set (send_edges (def_team (run_definition (sample_run two_steps))))"
  "child_completion sample_json child_run [(''s1'', ''yes'')] =
     Some (PipelineSucceeded (Some [(''answer'', JString ''yes'')]) None)"
  "distinct (map out_name (child_declared child_run))"
  by code_simp+

lemmas two_steps_facts = run_evaluations(1-4)
lemmas unsure_facts = run_evaluations(5,6)
lemmas dispatched_facts = run_evaluations(7-12)
lemmas failed_beside_facts = run_evaluations(13,14)
lemmas completed_facts = run_evaluations(15-21)
lemmas one_done_facts = run_evaluations(22-26)
lemmas reviewed_facts = run_evaluations(27-30)
lemmas chained_steps_facts = run_evaluations(31)
lemmas spawned_facts = run_evaluations(32-34)
lemmas child_run_facts = run_evaluations(35,36)

lemma recursive_store_cyclic: "subpipeline_cycle ''c'' recursive_store = Some True"
  unfolding subpipeline_cycle_def by (subst cycle_search.simps) code_simp

end
