(* ===== verification/Recovery.thy ===== *)
theory Recovery
  imports Lifecycle
begin

text \<open>
  Uncertain work. A task whose native side effects are unknown is left alone by every operation
  except the two that a person calls for it: \<^verbatim>\<open>reconcile_uncertain_task\<close> and
  \<^verbatim>\<open>retry_uncertain_task\<close>. Restarts turn leased and running work into uncertain work, once.
\<close>

section \<open>Operations that leave uncertain tasks alone\<close>

definition spares :: "run \<Rightarrow> run \<Rightarrow> bool" where
  "spares r r' \<longleftrightarrow> list_all2 (\<lambda>t t'. task_status t = Uncertain \<longrightarrow> t' = t) (run_tasks r) (run_tasks r')"

lemma spares_refl [simp]: "spares r r"
  by (simp add: spares_def list_all2_conv_all_nth)

lemma spares_trans: "spares r s \<Longrightarrow> spares s t \<Longrightarrow> spares r t"
  unfolding spares_def list_all2_conv_all_nth by metis

lemma spares_same_tasks: "run_tasks r' = run_tasks r \<Longrightarrow> spares r r'"
  by (simp add: spares_def list_all2_conv_all_nth)

lemma spares_flags [simp]:
  "spares r (bump_run r)" "spares r (refresh_status r)" "spares r (r\<lparr>run_status := st\<rparr>)"
  "spares r (r\<lparr>run_paused := b\<rparr>)" "spares r (r\<lparr>run_attempts := a\<rparr>)"
  "spares r (r\<lparr>run_agent_requests := q\<rparr>)" "spares r (r\<lparr>run_messages := m\<rparr>)"
  by (rule spares_same_tasks; simp)+

lemma spares_update:
  "(k < length (run_tasks r) \<Longrightarrow> task_status (run_tasks r ! k) \<noteq> Uncertain) \<Longrightarrow>
   spares r (update_task k f r)"
  by (auto simp: spares_def list_all2_conv_all_nth nth_upd_at)

lemma spares_map:
  "(\<And>t. t \<in> set (run_tasks r) \<Longrightarrow> task_status t = Uncertain \<Longrightarrow> f t = t) \<Longrightarrow>
   spares r (r\<lparr>run_tasks := map f (run_tasks r)\<rparr>)"
  by (auto simp: spares_def list_all2_conv_all_nth)

lemma spares_cancel_ready: "spares r (cancel_ready r)"
  unfolding cancel_ready_def by (rule spares_map) (simp add: fail_fast_def)

lemma spares_advance:
  "distinct (map task_step_id (run_tasks r)) \<Longrightarrow> spares r (advance_conditions r)"
  using advance_conditions_skips[of r]
  by (auto simp: spares_def skips_def elim!: list_all2_mono)

lemma spares_repeat: "spares r (snd (repeat_from i r))"
proof (cases "fst (repeat_from i r)")
  case (Inl err)
  then have "snd (repeat_from i r) = r" by (auto simp: repeat_from_def Let_def split: if_splits)
  then show ?thesis by simp
next
  case (Inr u)
  let ?aff = "set (affected_steps (run_steps r) i)"
  have none: "\<not> list_ex (\<lambda>t. task_step_id t \<in> ?aff \<and> (has_status [Running, Uncertain] t \<or> task_lease_id t \<noteq> None))
      (run_tasks r)"
    using Inr by (auto simp: repeat_from_def Let_def split: if_splits)
  have "spares r (r\<lparr>run_tasks := map (\<lambda>t. if task_step_id t \<in> ?aff then reset_task t else t) (run_tasks r)\<rparr>)"
    by (rule spares_map) (use none in \<open>auto simp: list_ex_iff has_status_def\<close>)
  then show ?thesis
    using none by (simp add: repeat_from_def Let_def spares_def)
qed

lemma spares_acceptance: "spares r (apply_acceptance r k step)"
proof -
  have u: "spares r (update_task k f r)" if "task_status (run_tasks r ! k) = Succeeded" for f
    by (rule spares_update) (simp add: that)
  have rej: "spares r (review_rejected r k step review)"
    if s: "task_status (run_tasks r ! k) = Succeeded" for review
  proof -
    let ?i = "review_retry_from_step_id review"
    have err: "snd (repeat_from ?i r) = r" if "fst (repeat_from ?i r) = Inl e" for e
      using that by (auto simp: repeat_from_def Let_def split: if_splits)
    let ?r2 = "case repeat_from ?i r of
        (Inl _, r1) \<Rightarrow> update_task k (set_failed Failed ''review-retry-conflict'') r1 | (Inr _, r1) \<Rightarrow> r1"
    have "spares r ?r2"
      using spares_repeat[of r ?i] err u[OF s] by (cases "repeat_from ?i r") (auto split: sum.splits)
    moreover have "spares ?r2 (?r2\<lparr>run_paused := True\<rparr>)" by simp
    ultimately show ?thesis
      using u[OF s] spares_trans by (auto simp: review_rejected_def Let_def split: option.splits)
  qed
  show ?thesis
    using u rej by (auto simp: apply_acceptance_def split: option.splits bool.splits)
qed

lemma spares_settle:
  assumes "distinct (map task_step_id (run_tasks r))"
  shows "spares r (settle_result k step r)"
proof -
  have "distinct (map task_step_id (run_tasks (apply_acceptance r k step)))"
    using keeps_wf_acceptance[of r k step] frame_eq_distinct[OF _ assms] by (auto simp: keeps_wf_def)
  from spares_trans[OF spares_acceptance spares_advance[OF this]] show ?thesis
    unfolding settle_result_def using spares_trans spares_flags(2) by blast
qed

section \<open>The automatic steps\<close>

lemma spares_settle_router:
  assumes "find_task r i = Some t" "task_status t = Ready"
  shows "spares r (settle_router i r)"
proof (cases "Option.bind (find_step r i) step_router")
  case (Some rt)
  obtain k where k: "task_index r i = Some k" using assms(1) task_index_ex[of r i] by auto
  have "task_status (run_tasks r ! k) = Ready" using task_index_Some(3)[OF k] assms by simp
  then have "spares r (bump_run (update_task k f r))" for f
    using spares_trans[OF spares_update spares_flags(1)] by simp
  then show ?thesis using Some k by (simp add: settle_router_def)
qed (simp add: settle_router_def)

lemma spares_fold_router:
  assumes "distinct cs"
    "\<forall>c\<in>set cs. (\<exists>t. find_task r c = Some t \<and> task_status t = Ready) \<and>
       (\<exists>rt. Option.bind (find_step r c) step_router = Some rt)"
  shows "spares r (fold settle_router cs r)"
  using assms
proof (induction cs arbitrary: r)
  case (Cons c cs)
  then obtain t rt where c: "find_task r c = Some t" "task_status t = Ready"
    "Option.bind (find_step r c) step_router = Some rt" by auto
  have one: "spares r (settle_router c r)" by (rule spares_settle_router[OF c(1,2)])
  have step: "find_step (settle_router c r) j = find_step r j" for j
    using settle_router_progress(1)[OF c] by (intro find_step_cong) (simp add: progress_def frame_eq_def)
  have task: "find_task (settle_router c r) j = find_task r j" if "j \<in> set cs" for j
    by (rule settle_router_progress(2)[OF c]) (use that Cons.prems(1) in auto)
  have "spares (settle_router c r) (fold settle_router cs (settle_router c r))"
    using Cons.IH[of "settle_router c r"] Cons.prems step task by auto
  from spares_trans[OF one this] show ?case by simp
qed simp

lemma router_candidate:
  assumes "steps_distinct r" "c \<in> set (router_candidates r)"
  shows "(\<exists>t. find_task r c = Some t \<and> task_status t = Ready \<and> task_lease_id t = None) \<and>
         (\<exists>rt. Option.bind (find_step r c) step_router = Some rt)"
proof -
  from assms(2) obtain s where s: "s \<in> set (run_steps r)" "step_id s = c" "is_program_router s"
    "is_some_and (find_task r c) (\<lambda>t. task_status t = Ready \<and> task_lease_id t = None \<and>
       dependencies_succeeded r c)"
    by (auto simp: router_candidates_def)
  have "find_step r c = Some s" using find_step_unique[OF assms(1) s(1)] s(2) by simp
  with s(3,4) show ?thesis
    by (auto simp: is_program_router_def is_some_and_def split: option.splits)
qed

lemma spares_routers:
  assumes "settles r" "distinct (map task_step_id (run_tasks r))"
  shows "spares r (advance_program_routers r)"
proof -
  have "keeps_wf r (advance_program_routers r) \<and> spares r (advance_program_routers r)"
    unfolding advance_program_routers_def
  proof (rule loop_n_keeps[where P = "\<lambda>s. keeps_wf r s \<and> spares r s"])
    fix s s' again
    assume s: "keeps_wf r s \<and> spares r s" "router_pass s = (s', again)"
    note d = keeps_wf_distinct[OF conjunct1[OF s(1)] assms]
    let ?m = "fold settle_router (router_candidates s) s"
    have fold: "spares s ?m \<and> keeps_wf s ?m"
    proof
      have "distinct (router_candidates s)"
        using d(2) by (simp add: router_candidates_def distinct_map_filter)
      then show "spares s ?m" "keeps_wf s ?m"
        using router_candidate[OF d(2)] spares_fold_router keeps_wf_fold_router by meson+
    qed
    then have "distinct (map task_step_id (run_tasks ?m))"
      using d(3) frame_eq_distinct by (auto simp: keeps_wf_def)
    then have "spares s (refresh_status (advance_conditions ?m))"
      using fold spares_advance spares_trans spares_flags(2) by blast
    then have "spares s s'" using s(2) by (auto simp: router_pass_def split: if_splits)
    moreover have "keeps_wf s s'" using keeps_wf_router_pass[OF d(2,3)] s(2) by simp
    ultimately show "keeps_wf r s' \<and> spares r s'"
      using s(1) keeps_wf_trans spares_trans by blast
  qed simp
  then show ?thesis by blast
qed

lemma spares_admit_step:
  assumes "distinct (map task_step_id (run_tasks r))"
  shows "spares r (snd (admit_pinned_step sj i (changed, r)))"
proof -
  let ?P = "\<lambda>t. task_step_id t = i \<and> task_status t = Ready \<and> task_lease_id t = None"
  consider "admit_pinned_step sj i (changed, r) = (changed, r)"
    | step p k where "find_step r i = Some step" "step_pinned_output step = Some p"
        "position ?P (run_tasks r) = Some k"
    by (cases "find_step r i"; cases "step_pinned_output (the (find_step r i))";
        cases "position ?P (run_tasks r)")
       (auto simp: admit_pinned_step_def simp del: position_None)
  then show ?thesis
  proof cases
    case (2 step p k)
    note K = position_Some[OF 2(3)]
    have u: "spares r (update_task k f r)" for f by (rule spares_update) (use K in simp)
    show ?thesis
    proof (cases "pinned_result sj step p")
      case (Inl failure)
      let ?u = "update_task k (\<lambda>t. (bump (t\<lparr>task_pinned := True\<rparr>))
          \<lparr>task_status := Failed, task_failure := Some failure\<rparr>) r"
      have "spares r (refresh_status (bump_run (cancel_ready ?u)))"
        using spares_trans[OF spares_trans[OF spares_trans[OF u spares_cancel_ready] spares_flags(1)]
            spares_flags(2)] .
      with 2 Inl show ?thesis by (simp add: admit_pinned_step_def Let_def cancel_ready_def)
    next
      case (Inr res)
      obtain data out where res: "res = (data, out)" by (cases res)
      let ?f = "\<lambda>t. (bump (t\<lparr>task_pinned := True\<rparr>))\<lparr>task_status := Succeeded, task_result_data := data,
          task_output := out, task_failure := None\<rparr>"
      have "distinct (map task_step_id (run_tasks (bump_run (update_task k ?f r))))"
        using assms by (simp add: map_upd_at)
      from spares_trans[OF spares_trans[OF u spares_flags(1)] spares_settle[OF this]]
      show ?thesis using 2 Inr res by (simp add: admit_pinned_step_def)
    qed
  qed simp
qed

lemma spares_fold_admit:
  assumes "settles r" "distinct (map task_step_id (run_tasks r))" "run_use_pinned_data r"
  shows "spares r (snd (fold (admit_pinned_step sj) cs (changed, r)))"
  using assms
proof (induction cs arbitrary: changed r)
  case (Cons c cs)
  obtain ch1 r1 where one: "admit_pinned_step sj c (changed, r) = (ch1, r1)" by fastforce
  then have s: "spares r r1" and k: "keeps_wf r r1"
    using spares_admit_step[OF Cons.prems(2), of sj c changed]
      keeps_wf_admit_step[OF Cons.prems, of sj c changed] by simp_all
  note d = keeps_wf_distinct[OF k Cons.prems(1,2)]
  have "run_use_pinned_data r1" using k Cons.prems(3) by (simp add: keeps_wf_def frame_eq_def)
  from spares_trans[OF s Cons.IH[OF d(1,3) this, of ch1]] one show ?case by simp
qed simp

lemma spares_automatic:
  assumes "settles r" "distinct (map task_step_id (run_tasks r))"
  shows "spares r (advance_automatic sj r)"
proof -
  have "keeps_wf r (advance_automatic sj r) \<and> spares r (advance_automatic sj r)"
    unfolding advance_automatic_def
  proof (rule loop_n_keeps[where P = "\<lambda>s. keeps_wf r s \<and> spares r s"])
    fix s s' again
    assume s: "keeps_wf r s \<and> spares r s" "automatic_pass sj s = (s', again)"
    note d = keeps_wf_distinct[OF conjunct1[OF s(1)] assms]
    let ?a = "advance_program_routers s"
    have a: "keeps_wf s ?a" "spares s ?a"
      using keeps_wf_routers[OF d(1,3)] spares_routers[OF d(1,3)] by blast+
    note e = keeps_wf_distinct[OF a(1) d(1,3)]
    have "s' = snd (admit_pinned_steps sj ?a)"
      using s(2) by (auto simp: automatic_pass_def split: prod.splits)
    then have "keeps_wf ?a s'" "spares ?a s'"
      using keeps_wf_fold_admit[OF e(1,3)] spares_fold_admit[OF e(1,3)]
      by (simp_all add: admit_pinned_steps_def)
    with a s(1) show "keeps_wf r s' \<and> spares r s'" using keeps_wf_trans spares_trans by blast
  qed simp
  then show ?thesis by blast
qed

section \<open>Every operation but two\<close>

fun resolves_uncertainty :: "operation \<Rightarrow> bool" where
  "resolves_uncertainty (Reconcile _ _ _) = True"
| "resolves_uncertainty (RetryUncertain _ _) = True"
| "resolves_uncertainty _ = False"

lemma spares_lease:
  "task_status (run_tasks r ! k) = Ready \<Longrightarrow> spares r (take_lease l k r)"
  "task_status (run_tasks r ! k) = Ready \<Longrightarrow> spares r (start_execution x k r)"
  unfolding take_lease_def start_execution_def
  by (rule spares_trans[OF spares_update spares_flags(1)]; simp)+

lemma spares_first_ready:
  assumes "run_inv sj r" "ready_task_ids (advance_automatic sj' r) = i # is"
    "task_index (advance_automatic sj' r) i = Some k"
  shows "spares r (take_lease l k (advance_automatic sj' r))"
    and "spares r (start_execution x k (advance_automatic sj' r))"
proof -
  let ?a = "advance_automatic sj' r"
  have a: "spares r ?a" by (rule spares_automatic[OF run_inv_settles[OF assms(1)] run_inv_distinct(2)[OF assms(1)]])
  have "task_status (run_tasks ?a ! k) = Ready"
    using ready_index(2)[OF run_inv_distinct(2)[OF step_ok_automatic(2)[OF assms(1)]] assms(2,3)]
    by (simp add: task_ready_def)
  then show "spares r (take_lease l k ?a)" "spares r (start_execution x k ?a)"
    using spares_trans[OF a] spares_lease by blast+
qed

lemma spares_next:
  assumes "run_inv sj r"
  shows "spares r (snd (lease_next_task sj' e l r))" "spares r (snd (dispatch_next sj' x e r))"
    "spares r (snd (lease_next_host sj' accepts build l e r))"
proof -
  note A = spares_automatic[OF run_inv_settles[OF assms] run_inv_distinct(2)[OF assms]]
    and F = spares_first_ready[OF assms]
  show "spares r (snd (lease_next_task sj' e l r))"
    using A F by (auto simp: lease_next_task_def require_def Let_def split: sum.splits list.splits
        dest!: index_or_Inr)
  show "spares r (snd (dispatch_next sj' x e r))"
    using A F by (auto simp: dispatch_next_def require_def Let_def split: sum.splits list.splits
        dest!: index_or_Inr)
  show "spares r (snd (lease_next_host sj' accepts build l e r))"
    using A F by (auto simp: lease_next_host_def require_def Let_def split: sum.splits list.splits option.splits
        dest!: index_or_Inr)
qed

lemma spares_transition: "spares r (snd (complete_task_transition i tr x oc e r))"
proof (rule complete_transition_cases[of i tr x oc e r])
  fix k
  assume k: "task_status (run_tasks r ! k) = Running"
    and eq: "complete_task_transition i tr x oc e r = (Inr (), refresh_status (bump_run
         (case oc of OutcomeFailed _ \<Rightarrow> cancel_ready (update_task k (record_outcome oc) r)
                   | OutcomeSucceeded _ \<Rightarrow> update_task k (record_outcome oc) r)))"
  have u: "spares r (update_task k (record_outcome oc) r)" by (rule spares_update) (simp add: k)
  then have "spares r (case oc of OutcomeFailed _ \<Rightarrow> cancel_ready (update_task k (record_outcome oc) r)
      | OutcomeSucceeded _ \<Rightarrow> update_task k (record_outcome oc) r)"
    using spares_trans[OF u spares_cancel_ready] by (cases oc) simp_all
  from spares_trans[OF spares_trans[OF this spares_flags(1)] spares_flags(2)]
  show ?thesis unfolding eq by simp
qed simp

text \<open>After a successful transition the completed task is terminal, so recording its data and
  settling it spare the others.\<close>

lemma spares_completed:
  assumes "run_inv sj r" "complete_task_transition i tr x oc e r = (Inr u, r1)" "task_index r1 i = Some k"
    "\<And>t. task_step_id (f t) = task_step_id t"
  shows "spares r (settle_result k step (update_task k f r1))"
proof -
  have "spares r r1" using spares_transition[of r i tr x oc e] assms(2) by simp
  moreover have "spares r1 (update_task k f r1)"
    using transition_task[OF assms(2,3)] by (intro spares_update) (auto split: completion_outcome.splits)
  moreover have "run_inv sj r1"
    using step_ok_transition[OF assms(1), of i tr x oc e] assms(2) by (simp add: step_ok_def)
  then have "distinct (map task_step_id (run_tasks (update_task k f r1)))"
    using run_inv_distinct(2) assms(4) by (simp add: map_upd_at)
  ultimately show ?thesis using spares_settle spares_trans by blast
qed

lemma spares_complete:
  assumes "run_inv sj r"
  shows "spares r (snd (complete_task i tr x oc e r))"
    "spares r (snd (complete_checked_task sj' i tr x oc res e r))"
    "spares r (snd (complete_host_task step out i tr x e r))"
proof -
  note T = spares_transition and C = spares_completed[OF assms]
  show "spares r (snd (complete_task i tr x oc e r))"
    using T by (simp add: complete_task_def)
  have pre: "spares r r1" if "complete_task_transition i tr x oc e r = (res, r1)" for oc res r1
    using T[of r i tr x oc e] that by simp
  show "spares r (snd (complete_checked_task sj' i tr x oc res e r))"
    using pre C by (auto simp: complete_checked_task_def complete_task_def require_def Let_def
        split: option.splits prod.splits sum.splits dest!: index_or_Inr)
  show "spares r (snd (complete_host_task step out i tr x e r))"
    using pre C by (auto simp: complete_host_task_def require_def Let_def
        split: option.splits prod.splits sum.splits dest!: index_or_Inr)
qed

lemma spares_cancel_downstream: "spares r (cancel_downstream r)"
proof (induction r rule: cancel_downstream.induct)
  case (1 r)
  have "spares r (cancel_pass r)"
    unfolding cancel_pass_def by (rule spares_map) (simp add: is_blocked_def)
  then show ?case using 1 spares_trans by (subst cancel_downstream.simps) auto
qed

lemma spares_upd_bump:
  assumes "task_status (run_tasks r ! k) \<noteq> Uncertain"
  shows "spares r (bump_run (update_task k f r))"
    "spares r ((bump_run (update_task k f r))\<lparr>run_status := st\<rparr>)"
    "spares r (refresh_status (bump_run (cancel_ready (update_task k f r))))"
    "spares r (refresh_status (bump_run (cancel_downstream (update_task k f r))))"
proof -
  have u: "spares r (update_task k f r)" by (rule spares_update) (use assms in simp)
  show b: "spares r (bump_run (update_task k f r))" by (rule spares_trans[OF u spares_flags(1)])
  show "spares r ((bump_run (update_task k f r))\<lparr>run_status := st\<rparr>)"
    by (rule spares_trans[OF b spares_flags(3)])
  show "spares r (refresh_status (bump_run (cancel_ready (update_task k f r))))"
    by (rule spares_trans[OF spares_trans[OF spares_trans[OF u spares_cancel_ready] spares_flags(1)]
        spares_flags(2)])
  show "spares r (refresh_status (bump_run (cancel_downstream (update_task k f r))))"
    by (rule spares_trans[OF spares_trans[OF spares_trans[OF u spares_cancel_downstream] spares_flags(1)]
        spares_flags(2)])
qed

lemma spares_single:
  "spares r (snd (lease_controlled_spawn sj e a i l r))"
  "spares r (snd (dispatch_leased_task sj i tr l x e r))"
  "spares r (snd (dispatch_leased_script i tr l x e r))"
  "spares r (snd (release_task_lease i tr l e r))"
  "spares r (snd (reject_ready_task i tr f e r))"
  "spares r (snd (cancel_task i e r))"
  "spares r (snd (mark_task_uncertain i tr un e r))"
  using spares_lease spares_upd_bump
  by (auto simp: lease_controlled_spawn_def dispatch_leased_task_def dispatch_leased_script_def
      release_task_lease_def reject_ready_task_def cancel_task_def mark_task_uncertain_def has_status_def
      require_def Let_def split: sum.splits option.splits uncertainty_identity.splits)

lemma spares_whole:
  assumes "run_inv sj r"
  shows "spares r (snd (cancel_run e r))" "spares r (snd (restore e r))"
    "spares r (snd (control_flow a e r))"
proof -
  have "spares r (r\<lparr>run_tasks := map cancel_active (run_tasks r)\<rparr>)"
    by (rule spares_map) (simp add: cancel_active_def has_status_def)
  then show "spares r (snd (cancel_run e r))"
    by (auto simp: cancel_run_def require_def spares_def bump_run_def list_all2_conv_all_nth split: sum.splits)
  let ?ids = "set (bs_collect (map task_step_id (filter (interrupted_by_restart r) (run_tasks r))))"
  have notin: "task_step_id t \<notin> ?ids" if t: "t \<in> set (run_tasks r)" "task_status t = Uncertain" for t
  proof
    assume "task_step_id t \<in> ?ids"
    then obtain t' where t': "t' \<in> set (run_tasks r)" "task_step_id t' = task_step_id t"
      "interrupted_by_restart r t'" by auto
    then have "t' = t"
      using run_inv_distinct(2)[OF assms] t(1) by (auto simp: distinct_map dest: inj_onD)
    with t' t(2) show False by (simp add: interrupted_by_restart_def)
  qed
  have "spares r (r\<lparr>run_tasks := map (\<lambda>t. if task_step_id t \<in> ?ids
      then bump (t\<lparr>task_status := Uncertain, task_lease_id := None\<rparr>) else t) (run_tasks r)\<rparr>)"
    by (rule spares_map) (simp add: notin del: set_bs_collect)
  then show "spares r (snd (restore e r))"
    by (auto simp: restore_def require_def Let_def spares_def bump_run_def list_all2_refl split: sum.splits)
  have fin: "spares r (refresh_status (bump_run (advance_conditions r')))"
    if "spares r r'" "keeps_wf r r'" for r'
  proof -
    have "distinct (map task_step_id (run_tasks r'))"
      using that(2) run_inv_distinct(2)[OF assms] frame_eq_distinct by (auto simp: keeps_wf_def)
    from spares_trans[OF that(1) spares_advance[OF this]] show ?thesis
      using spares_trans spares_flags(1,2) by blast
  qed
  have dec: "spares r (refresh_status (bump_run (advance_conditions (update_task k f r))))"
    if "task_status (run_tasks r ! k) = AwaitingApproval" "\<And>t. task_step_id (f t) = task_step_id t" for k f
  proof -
    have "distinct (map task_step_id (run_tasks (update_task k f r)))"
      using that(2) run_inv_distinct(2)[OF assms] by (simp add: map_upd_at)
    moreover have "spares r (update_task k f r)" by (rule spares_update) (simp add: that(1))
    ultimately show ?thesis using spares_advance spares_trans spares_flags(1,2) by blast
  qed
  have rep: "spares r r'" "spares r (refresh_status (bump_run (advance_conditions r')))"
    if "repeat_from i r = (res, r')" for i res r'
    using spares_repeat[of r i] keeps_wf_repeat[of r i] fin[of r'] that by simp_all
  have flag: "spares r (refresh_status (bump_run (advance_conditions (r\<lparr>run_paused := b\<rparr>))))" for b
    by (rule fin) simp_all
  show "spares r (snd (control_flow a e r))"
    using dec rep flag
    by (cases a) (auto simp: control_flow_def require_def Let_def split: sum.splits prod.splits)
qed

lemma spares_messages:
  "spares r (snd (record_agent_request q s a k e r))"
  "spares r (snd (accept_message s m e r))"
  "spares r (snd (mark_message_delivered mid mr e r))"
  by (rule spares_same_tasks;
      auto simp: record_agent_request_def accept_message_def mark_message_delivered_def require_def Let_def
      split: sum.splits option.splits)+

lemma execute_spares:
  assumes "run_inv sj r" "\<not> resolves_uncertainty op"
  shows "spares r (snd (execute sj' op e r))"
proof -
  have "spares r (snd (complete_script_task sj' i tr x c e r))"
    "spares r (snd (complete_pipeline_task sj' i tr x pc e r))" for i tr x c pc
    using spares_complete(3)[OF assms(1)]
    by (auto simp: complete_script_task_def complete_pipeline_task_def require_def split: sum.splits)
  with assms(2) show ?thesis
    by (cases op)
       (simp_all add: spares_next[OF assms(1)] spares_single spares_complete[OF assms(1)]
         spares_whole[OF assms(1)] spares_messages
         lease_next_script_def lease_next_plugin_step_def lease_next_pipeline_step_def)
qed

section \<open>Restarts\<close>

lemma restore_tasks:
  assumes "run_inv sj r"
  shows "run_tasks (snd (restore (run_revision r) r)) =
    map (\<lambda>t. if interrupted_by_restart r t
             then bump (t\<lparr>task_status := Uncertain, task_lease_id := None\<rparr>) else t) (run_tasks r)"
proof -
  let ?ids = "set (bs_collect (map task_step_id (filter (interrupted_by_restart r) (run_tasks r))))"
  have iff: "task_step_id t \<in> ?ids \<longleftrightarrow> interrupted_by_restart r t" if "t \<in> set (run_tasks r)" for t
  proof
    assume "task_step_id t \<in> ?ids"
    then obtain t' where t': "t' \<in> set (run_tasks r)" "task_step_id t' = task_step_id t"
      "interrupted_by_restart r t'" by auto
    then have "t' = t"
      using run_inv_distinct(2)[OF assms] that by (auto simp: distinct_map dest: inj_onD)
    with t' show "interrupted_by_restart r t" by simp
  qed (use that in auto)
  have "run_tasks (snd (restore (run_revision r) r)) =
    map (\<lambda>t. if task_step_id t \<in> ?ids
             then bump (t\<lparr>task_status := Uncertain, task_lease_id := None\<rparr>) else t) (run_tasks r)"
    by (simp add: restore_def check_run_revision_def check_revision_def Let_def bump_run_def)
  then show ?thesis using iff by (auto simp del: set_bs_collect)
qed

lemma restore_ok:
  assumes "run_inv sj r" "restore (run_revision r) r = (res, r')"
  shows "\<not> needs_restore r'" "res = Inr ()" "\<not> needs_restore r \<Longrightarrow> r' = r"
proof -
  have steps: "run_steps r' = run_steps r"
    using assms(2) by (auto simp: restore_def check_run_revision_def check_revision_def Let_def
        bump_run_def split: if_splits)
  have int: "interrupted_by_restart r' t = interrupted_by_restart r t" for t
    unfolding interrupted_by_restart_def steps ..
  have tasks: "run_tasks r' = map (\<lambda>t. if interrupted_by_restart r t
             then bump (t\<lparr>task_status := Uncertain, task_lease_id := None\<rparr>) else t) (run_tasks r)"
    using restore_tasks[OF assms(1)] assms(2) by simp
  have "\<not> interrupted_by_restart r (bump (t\<lparr>task_status := Uncertain, task_lease_id := None\<rparr>))" for t
    by (simp add: interrupted_by_restart_def)
  then show "\<not> needs_restore r'"
    by (auto simp: needs_restore_def int tasks list_ex_iff)
  show "res = Inr ()"
    using assms(2) by (auto simp: restore_def check_run_revision_def check_revision_def Let_def)
  show "r' = r" if "\<not> needs_restore r"
  proof -
    have none: "\<forall>t\<in>set (run_tasks r). \<not> interrupted_by_restart r t"
      using that by (auto simp: needs_restore_def list_ex_iff)
    then have "filter (interrupted_by_restart r) (run_tasks r) = []" by (simp add: filter_empty_conv)
    then show ?thesis
      using assms(2) by (auto simp: restore_def check_run_revision_def check_revision_def Let_def
          bs_collect_def list_ex_iff)
  qed
qed

end
