(* ===== verification/Run_Behaviour.thy ===== *)
theory Run_Behaviour
  imports Recovery
begin

text \<open>
  Functional behaviour of the coordinator's operations: what a repeat resets, what a review may
  repeat, what cancellation leaves, which task a lease takes, that a completion is recorded
  once, that a run the coordinator produced loads again, and what a spawned agent may reach.
\<close>

section \<open>Repeating\<close>

abbreviation affected_fold :: "pipeline_step list \<Rightarrow> string list \<Rightarrow> string list" where
  "affected_fold \<equiv> fold (\<lambda>step aff. if list_ex (\<lambda>d. d \<in> set aff) (step_dependency_step_ids step)
                      then bs_insert (step_id step) aff else aff)"

lemma length_bs_insert: "length (bs_insert x s) = (if x \<in> set s then length s else Suc (length s))"
  by (simp add: insort_insert_key_def)

lemma affected_fold_length:
  "length aff \<le> length (affected_fold steps aff) \<and>
   (length (affected_fold steps aff) = length aff \<longrightarrow> set (affected_fold steps aff) = set aff)"
proof (induction steps arbitrary: aff)
  case (Cons s steps)
  show ?case
  proof (cases "list_ex (\<lambda>d. d \<in> set aff) (step_dependency_step_ids s) \<and> step_id s \<notin> set aff")
    case True
    then show ?thesis
      using Cons[of "bs_insert (step_id s) aff"] by (simp add: length_bs_insert)
  next
    case False
    then have "affected_fold (s # steps) aff = affected_fold steps aff"
      by (auto simp: insort_insert_key_def)
    with Cons[of aff] show ?thesis by simp
  qed
qed simp

lemma affected_fold_closure:
  assumes "set aff \<subseteq> {s. (i, s) \<in> (dep_rel all)\<^sup>*}" "set steps \<subseteq> set all"
  shows "set (affected_fold steps aff) \<subseteq> {s. (i, s) \<in> (dep_rel all)\<^sup>*}"
  using assms
proof (induction steps arbitrary: aff)
  case (Cons s steps)
  show ?case
  proof (cases "list_ex (\<lambda>d. d \<in> set aff) (step_dependency_step_ids s)")
    case True
    then obtain d where d: "d \<in> set aff" "d \<in> set (step_dependency_step_ids s)"
      by (auto simp: list_ex_iff)
    have "(d, step_id s) \<in> dep_rel all" using d(2) Cons.prems(2) by (auto simp: dep_rel_def)
    moreover have "(i, d) \<in> (dep_rel all)\<^sup>*" using d(1) Cons.prems(1) by auto
    ultimately have "(i, step_id s) \<in> (dep_rel all)\<^sup>*" by (rule rtrancl_into_rtrancl[rotated])
    with Cons.IH[of "bs_insert (step_id s) aff"] Cons.prems True show ?thesis by simp
  next
    case False
    with Cons show ?thesis by simp
  qed
qed simp

lemma affected_loop_spec:
  assumes "i \<in> set aff" "set aff \<subseteq> {s. (i, s) \<in> (dep_rel steps)\<^sup>*}"
  shows "set (affected_loop steps aff) = {s. (i, s) \<in> (dep_rel steps)\<^sup>*}"
  using assms
proof (induction steps aff rule: affected_loop.induct)
  case (1 steps aff)
  let ?next = "affected_pass steps aff"
  have sub: "set ?next \<subseteq> {s. (i, s) \<in> (dep_rel steps)\<^sup>*}"
    unfolding affected_pass_def by (rule affected_fold_closure[OF 1(3)]) simp
  have mem: "i \<in> set ?next"
    unfolding affected_pass_def using affected_fold_mono[of aff steps] 1(2) by blast
  show ?case
  proof (cases "length ?next = length aff")
    case True
    then have eq: "set ?next = set aff"
      unfolding affected_pass_def using affected_fold_length[of aff steps] by simp
    have closed: "\<forall>s\<in>set steps. (\<exists>d\<in>set (step_dependency_step_ids s). d \<in> set aff) \<longrightarrow> step_id s \<in> set aff"
      using affected_fold_eq[of steps aff] eq by (simp add: affected_pass_def)
    have "s \<in> set aff" if "(i, s) \<in> (dep_rel steps)\<^sup>*" for s
      using that
    proof (induction rule: rtrancl_induct)
      case base
      then show ?case by (rule 1(2))
    next
      case (step y z)
      then show ?case using closed by (auto simp: dep_rel_def)
    qed
    with True eq sub show ?thesis by (subst affected_loop.simps) (auto simp: Let_def)
  next
    case False
    from 1(1)[OF refl False mem sub] False show ?thesis
      by (subst affected_loop.simps) (simp add: Let_def)
  qed
qed

text \<open>The affected steps are the step itself and everything downstream of it.\<close>

lemma affected_steps_spec: "set (affected_steps steps i) = {s. (i, s) \<in> (dep_rel steps)\<^sup>*}"
  unfolding affected_steps_def by (rule affected_loop_spec) auto

lemma repeat_from_ok:
  assumes "repeat_from i r = (Inr u, r')"
  shows "run_tasks r' = map (\<lambda>t. if (i, task_step_id t) \<in> (dep_rel (run_steps r))\<^sup>* then reset_task t else t)
           (run_tasks r)"
    and "\<forall>t\<in>set (run_tasks r). (i, task_step_id t) \<in> (dep_rel (run_steps r))\<^sup>* \<longrightarrow>
           task_status t \<notin> {Running, Uncertain} \<and> task_lease_id t = None"
    and "run_attempts r' = run_attempts r @
           filter (\<lambda>t. (i, task_step_id t) \<in> (dep_rel (run_steps r))\<^sup>* \<and> task_execution t \<noteq> None) (run_tasks r)"
  using assms
  by (auto simp: repeat_from_def Let_def affected_steps_spec list_ex_iff has_status_def split: if_splits)

lemma repeat_from_err: "repeat_from i r = (Inl err, r') \<Longrightarrow> r' = r"
  by (auto simp: repeat_from_def Let_def split: if_splits)

section \<open>Reviews\<close>

text \<open>A rejected review starts another round only below the rule's bound, and never from a step
  that runs from pinned data.\<close>

lemma review_rejected_rounds:
  assumes "review_max_iterations review = Some limit"
    "run_attempts (review_rejected r k step review) \<noteq> run_attempts r"
  shows "review_rounds r (step_id step) < unat limit"
    and "\<not> retries_pinned_step r (review_retry_from_step_id review)"
  using assms
  by (auto simp: review_rejected_def review_hold_def review_limit_reached_def split: if_splits)

lemma review_rejected_held:
  assumes "review_hold r (step_id step) review = Some code" "k < length (run_tasks r)"
  shows "review_rejected r k step review = update_task k (set_failed AwaitingApproval code) r"
  using assms by (simp add: review_rejected_def)

section \<open>Cancellation\<close>

lemma cancel_downstream_done: "\<not> list_ex (is_blocked (cancel_downstream r)) (run_tasks (cancel_downstream r))"
proof (induction r rule: cancel_downstream.induct)
  case (1 r)
  then show ?case by (subst (1 2) cancel_downstream.simps) auto
qed

lemma is_blocked_iff:
  "is_blocked r t \<longleftrightarrow> task_status t = Ready \<and>
     (\<exists>s\<in>set (run_steps r). step_id s = task_step_id t \<and>
        (\<exists>d\<in>set (step_dependency_step_ids s). \<exists>t'\<in>set (run_tasks r).
            task_step_id t' = d \<and> task_status t' = Cancelled))"
  unfolding is_blocked_def blocked_ids_def set_bs_collect set_map set_filter list_ex_iff image_iff
  by fastforce

lemma cancel_downstream_frame: "run_steps (cancel_downstream r) = run_steps r"
  using keeps_wf_cancel_downstream[of r] by (simp add: keeps_wf_def frame_eq_def)

lemma cancel_downstream_terminal:
  "k < length (run_tasks r) \<Longrightarrow> task_status (run_tasks r ! k) = Cancelled \<Longrightarrow>
   run_tasks (cancel_downstream r) ! k = run_tasks r ! k"
proof (induction r rule: cancel_downstream.induct)
  case (1 r)
  have "run_tasks (cancel_pass r) ! k = run_tasks r ! k"
    using 1(2,3) by (simp add: cancel_pass_def is_blocked_def)
  with 1 show ?case
    by (subst cancel_downstream.simps) (auto simp: cancel_pass_def)
qed

lemma cancel_task_ok:
  assumes "cancel_task i e r = (Inr u, r')"
  shows "\<exists>t\<in>set (run_tasks r'). task_step_id t = i \<and> task_status t = Cancelled \<and> task_lease_id t = None"
    and "\<forall>t\<in>set (run_tasks r'). \<not> is_blocked r' t"
proof -
  from assms obtain k where k: "task_index r i = Some k" and r': "r' = refresh_status (bump_run
      (cancel_downstream (update_task k (\<lambda>t. bump (t\<lparr>task_status := Cancelled, task_lease_id := None\<rparr>)) r)))"
    by (auto simp: cancel_task_def require_def split: sum.splits if_splits dest!: index_or_Inr)
  let ?u = "update_task k (\<lambda>t. bump (t\<lparr>task_status := Cancelled, task_lease_id := None\<rparr>)) r"
  note K = task_index_Some[OF k]
  have "run_tasks r' ! k = run_tasks ?u ! k" "length (run_tasks r') = length (run_tasks r)"
    using cancel_downstream_terminal[of k ?u] K keeps_wf_cancel_downstream[of ?u]
    by (auto simp: r' keeps_wf_def frame_eq_def dest: map_eq_imp_length_eq)
  with K show "\<exists>t\<in>set (run_tasks r'). task_step_id t = i \<and> task_status t = Cancelled \<and> task_lease_id t = None"
    by (intro bexI[of _ "run_tasks r' ! k"] nth_mem) simp_all
  show "\<forall>t\<in>set (run_tasks r'). \<not> is_blocked r' t"
    using cancel_downstream_done[of ?u] by (auto simp: r' list_ex_iff is_blocked_iff)
qed

lemma cancel_run_ok:
  assumes "cancel_run e r = (Inr reqs, r')"
  shows "\<forall>t\<in>set (run_tasks r'). task_status t \<notin> {Ready, Running, AwaitingApproval}"
    and "run_status r' = RunCancelled" "ready_task_ids r' = []"
    and "sorted (map cancel_step_id reqs)"
    and "set reqs = {\<lparr>cancel_run_id = run_id r, cancel_step_id = task_step_id t, cancel_execution = x\<rparr> | t x.
           t \<in> set (run_tasks r) \<and> task_status t = Running \<and> task_execution t = Some x}"
proof -
  from assms have r': "r' = bump_run (r\<lparr>run_tasks := map cancel_active (run_tasks r), run_status := RunCancelled\<rparr>)"
    and reqs: "reqs = cancel_requests r"
    by (auto simp: cancel_run_def require_def split: sum.splits)
  have "task_status (cancel_active t) \<notin> {Ready, Running, AwaitingApproval}" for t
    by (cases "task_status t") (simp_all add: cancel_active_def has_status_def)
  then show "\<forall>t\<in>set (run_tasks r'). task_status t \<notin> {Ready, Running, AwaitingApproval}"
    by (auto simp: r' bump_run_def)
  show "run_status r' = RunCancelled" "ready_task_ids r' = []"
    by (simp_all add: r' bump_run_def ready_task_ids_def)
  show "sorted (map cancel_step_id reqs)" by (simp add: reqs cancel_requests_def)
  show "set reqs = {\<lparr>cancel_run_id = run_id r, cancel_step_id = task_step_id t, cancel_execution = x\<rparr> | t x.
           t \<in> set (run_tasks r) \<and> task_status t = Running \<and> task_execution t = Some x}"
    by (auto simp: reqs cancel_requests_def List.map_filter_def image_iff split: if_splits) fastforce+
qed

section \<open>Leases\<close>

lemma lease_next_task_ok:
  assumes "run_inv sj r" "lease_next_task sj e l r = (Inr (Some lease), r')"
  defines "a \<equiv> advance_automatic sj r"
  obtains k step where
    "find_step a (lease_step_id lease) = Some step" "\<not> is_host_executed step" "\<not> admitted_from_pin a step"
    "lease_lease_id lease = l" "task_index a (lease_step_id lease) = Some k"
    "task_ready a (run_tasks a ! k)" "\<forall>i\<in>set (ready_task_ids a). lease_step_id lease \<le> i"
    "r' = take_lease l k a" "e = run_revision r" "run_status r = RunRunning"
    "lease_run_revision lease = run_revision r'" "lease_task_revision lease = task_revision (run_tasks r' ! k)"
proof -
  from assms(2) obtain i "is" step member profile k where
    ready: "ready_task_ids a = i # is" and step: "native_step a i = Inr step"
    and k: "task_index a i = Some k" and r': "r' = take_lease l k a"
    and lease: "lease = spawn_lease sj a step member profile l (run_revision r') (task_revision (run_tasks r' ! k))"
    and g: "check_run_revision r e = Inr ()" "ensure_active r = Inr ()"
    by (auto simp: lease_next_task_def require_def Let_def a_def split: sum.splits list.splits if_splits
        dest!: index_or_Inr)
  have fs: "find_step a i = Some step" "\<not> is_host_executed step"
    using step by (auto simp: native_step_def split: option.splits if_splits)
  have sid: "step_id step = i" and mem: "step \<in> set (run_steps a)"
    using find_Some_set[OF fs(1)[unfolded find_step_def]] by auto
  have inv: "run_inv sj a" unfolding a_def by (rule step_ok_automatic(2)[OF assms(1)])
  have "\<not> admitted_from_pin a step"
  proof
    assume "admitted_from_pin a step"
    then have "i \<in> set (pinned_candidates a)" "run_use_pinned_data a"
      using ready sid mem by (auto simp: admitted_from_pin_def pinned_candidates_def list_ex_iff)
    moreover have "run_use_pinned_data r = run_use_pinned_data a"
      using step_ok_automatic(3)[OF assms(1), of sj] by (simp add: frame_eq_def a_def)
    ultimately show False
      using advance_automatic_done[OF run_inv_settles[OF assms(1)], of sj] by (simp add: a_def)
  qed
  moreover have "\<forall>j\<in>set (ready_task_ids a). i \<le> j"
    using ready_task_ids_sorted[of a] ready by simp
  ultimately show thesis
    using that[of step k] fs k r' lease sid g ready_index(2)[OF run_inv_distinct(2)[OF inv] ready k]
    by (simp add: spawn_lease_def check_run_revision_def check_revision_def ensure_active_def
        split: if_splits)
qed

section \<open>Completion happens once\<close>

text \<open>No task enters \<^verbatim>\<open>Running\<close>.\<close>

definition starts_none :: "run \<Rightarrow> run \<Rightarrow> bool" where
  "starts_none r r' \<longleftrightarrow>
     list_all2 (\<lambda>t t'. task_status t' = Running \<longrightarrow> task_status t = Running) (run_tasks r) (run_tasks r')"

lemma starts_none_refl [simp]: "run_tasks r' = run_tasks r \<Longrightarrow> starts_none r r'"
  by (simp add: starts_none_def list_all2_conv_all_nth)

lemma starts_none_trans: "starts_none r s \<Longrightarrow> starts_none s t \<Longrightarrow> starts_none r t"
  unfolding starts_none_def list_all2_conv_all_nth by metis

lemma starts_none_update:
  "(\<And>t. task_status (f t) = Running \<Longrightarrow> task_status t = Running) \<Longrightarrow> starts_none r (update_task k f r)"
  by (auto simp: starts_none_def list_all2_conv_all_nth nth_upd_at)

lemma starts_none_map:
  "(\<And>t. task_status (f t) = Running \<Longrightarrow> task_status t = Running) \<Longrightarrow>
   run_tasks r' = map f (run_tasks r) \<Longrightarrow> starts_none r r'"
  by (auto simp: starts_none_def list_all2_conv_all_nth)

lemma starts_none_repeat: "starts_none r (snd (repeat_from i r))"
  by (auto simp: repeat_from_def Let_def reset_task_def split: if_splits
      intro!: starts_none_map[where f = "\<lambda>t. if task_step_id t \<in> set (affected_steps (run_steps r) i)
        then reset_task t else t"])

lemma starts_none_acceptance: "starts_none r (apply_acceptance r k step)"
proof -
  have u: "starts_none s (update_task k (set_status AwaitingApproval) s)"
    "st \<noteq> Running \<Longrightarrow> starts_none s (update_task k (set_failed st c) s)" for st c s
    by (rule starts_none_update; simp add: set_status_def set_failed_def)+
  have "starts_none r (review_rejected r k step review)" for review
  proof (cases "review_hold r (step_id step) review")
    case None
    let ?r2 = "case repeat_from (review_retry_from_step_id review) r of
        (Inl _, r1) \<Rightarrow> update_task k (set_failed Failed ''review-retry-conflict'') r1 | (Inr _, r1) \<Rightarrow> r1"
    have "starts_none r ?r2"
      using starts_none_repeat[of r "review_retry_from_step_id review"] u(2) starts_none_trans
      by (cases "repeat_from (review_retry_from_step_id review) r") (auto split: sum.splits)
    moreover have "starts_none ?r2 (?r2\<lparr>run_paused := True\<rparr>)" by simp
    ultimately show ?thesis
      using None starts_none_trans by (auto simp: review_rejected_def Let_def)
  qed (simp add: review_rejected_def u)
  then show ?thesis
    using u by (auto simp: apply_acceptance_def split: option.splits bool.splits)
qed

lemma starts_none_advance: "starts_none r (advance_conditions r)"
proof (induction r rule: advance_conditions.induct)
  case (1 r)
  have "starts_none r (skip_pass r)"
    by (rule starts_none_map[where f = "\<lambda>t. if task_step_id t \<in> set (skipped_ids r)
        then bump (t\<lparr>task_status := Skipped\<rparr>) else t"]) (auto simp: skip_pass_def split: if_splits)
  with 1 show ?case using starts_none_trans by (subst advance_conditions.simps) auto
qed

lemma starts_none_settle: "starts_none r (settle_result k step r)"
  unfolding settle_result_def
  using starts_none_trans[OF starts_none_trans[OF starts_none_acceptance starts_none_advance]]
  by (meson run_tasks_simps(3) starts_none_refl)

lemma not_running_refused:
  assumes "\<And>k. task_index r i = Some k \<Longrightarrow> task_status (run_tasks r ! k) \<noteq> Running"
  shows "\<exists>err. complete_task_transition i tr x oc e r = (Inl err, r)"
  by (rule complete_transition_cases[of i tr x oc e r]) (use assms in auto)

lemma settled_not_running:
  assumes "complete_task_transition i tr x oc e r = (Inr u, r1)" "task_index r1 i = Some k"
    "\<And>t. task_status (f t) = task_status t" "\<And>t. task_step_id (f t) = task_step_id t"
    "task_index (settle_result k step (update_task k f r1)) i = Some j"
  shows "task_status (run_tasks (settle_result k step (update_task k f r1)) ! j) \<noteq> Running"
proof -
  let ?r2 = "settle_result k step (update_task k f r1)"
  note T = transition_task[OF assms(1,2)]
  have s: "starts_none (update_task k f r1) ?r2" by (rule starts_none_settle)
  then have len: "length (run_tasks ?r2) = length (run_tasks r1)"
    by (simp add: starts_none_def list_all2_conv_all_nth)
  have ids: "map task_step_id (run_tasks ?r2) = map task_step_id (run_tasks (update_task k f r1))"
    using keeps_wf_acceptance[of "update_task k f r1" k step]
      advance_conditions_frame[of "apply_acceptance (update_task k f r1) k step"]
    by (simp add: settle_result_def keeps_wf_def frame_eq_def)
  then have "task_index ?r2 i = task_index r1 i"
    by (intro task_index_ids) (simp add: map_upd_at assms(4))
  with assms(2,5) have "j = k" by simp
  with s T assms(3) show ?thesis
    by (auto simp: starts_none_def list_all2_conv_all_nth nth_upd_at split: completion_outcome.splits)
qed

text \<open>Whatever is reported later, a completed execution is not completed again.\<close>

lemma completed_once:
  assumes "execute sj op e r = (Inr u, r')"
    "op = CompleteTask i tr x oc \<or> op = CompleteChecked i tr x oc res \<or> op = CompleteScript i tr x sc \<or>
     op = CompletePipeline i tr x pc"
  shows "\<exists>err. complete_task_transition i tr' x' oc' e' r' = (Inl err, r')"
proof (rule not_running_refused)
  fix j assume j: "task_index r' i = Some j"
  have settled: "task_status (run_tasks r' ! j) \<noteq> Running"
    if "complete_task_transition i tr x oc1 e r = (Inr u1, r1)" "task_index r1 i = Some k"
      "\<And>t. task_status (f t) = task_status t" "\<And>t. task_step_id (f t) = task_step_id t"
      "r' = settle_result k step (update_task k f r1)" for oc1 u1 r1 k f step
    using settled_not_running[OF that(1-4)] j that(5) by blast
  have host: "task_status (run_tasks r' ! j) \<noteq> Running"
    if h: "complete_host_task step out i tr x e r = (Inr v, r')" for step out v
  proof -
    obtain oc1 data outp where out: "out = (oc1, data, outp)" by (cases out)
    from h obtain u1 r1 k where
      "complete_task_transition i tr x oc1 e r = (Inr u1, r1)" "task_index r1 i = Some k"
      "r' = settle_result k step (update_task k (\<lambda>t. t\<lparr>task_result_data := data, task_output := outp\<rparr>) r1)"
      by (auto simp: complete_host_task_def out require_def split: prod.splits sum.splits dest!: index_or_Inr)
    then show ?thesis using settled[of oc1 u1 r1 k "\<lambda>t. t\<lparr>task_result_data := data, task_output := outp\<rparr>" step] by simp
  qed
  from assms(2) show "task_status (run_tasks r' ! j) \<noteq> Running"
  proof (elim disjE)
    assume "op = CompleteTask i tr x oc"
    with assms(1) have "complete_task_transition i tr x oc e r = (Inr u, r')"
      by (auto simp: complete_task_def split: if_splits)
    from transition_task(1)[OF this j] show ?thesis by (auto split: completion_outcome.splits)
  next
    assume "op = CompleteChecked i tr x oc res"
    with assms(1) obtain step data oc1 u1 r1 k where
      c: "complete_task i tr x oc1 e r = (Inr u1, r1)" "task_index r1 i = Some k"
      "r' = settle_result k step (update_task k (task_result_data_update (\<lambda>_. data)) r1)"
      by (auto simp: complete_checked_task_def require_def Let_def
          split: option.splits prod.splits sum.splits if_splits dest!: index_or_Inr)
    then have "complete_task_transition i tr x oc1 e r = (Inr u1, r1)"
      by (auto simp: complete_task_def split: if_splits)
    then show ?thesis using settled[of oc1 u1 r1 k "task_result_data_update (\<lambda>_. data)" step] c(2,3) by simp
  next
    assume "op = CompleteScript i tr x sc"
    with assms(1) show ?thesis
      using host by (auto simp: complete_script_task_def require_def split: sum.splits if_splits)
  next
    assume "op = CompletePipeline i tr x pc"
    with assms(1) show ?thesis
      using host by (auto simp: complete_pipeline_task_def require_def split: sum.splits if_splits)
  qed
qed

section \<open>Loading what the coordinator produced\<close>

lemma message_checks:
  "run_inv sj r \<Longrightarrow> try_each (\<lambda>m. if \<not> message_authority_ok r m
     then run_data_error ''message authority is invalid'' else Inr ()) (run_messages r) = Inr ()"
  by (simp add: run_inv_def)

lemma wf_task_validates:
  assumes "wf_task r t" "task_status t = Cancelled \<longrightarrow> task_lease_id t = None"
  shows "validate_task r t = Inr ()"
proof -
  note W = assms(1)[unfolded task_wf_def]
  have "output_ok r t"
    unfolding output_ok_def list_ex_iff using W by blast
  moreover have "pinned_ok r t"
    unfolding pinned_ok_def list_ex_iff has_status_def using W by fastforce
  moreover have "task_lease_id t \<noteq> None \<longrightarrow> task_status t \<in> {Ready, Cancelled}" using W by (elim conjE)
  then have "\<not> (task_lease_id t \<noteq> None \<and> task_status t \<noteq> Ready)" using assms(2) by auto
  moreover have "\<not> (task_status t = Failed \<and> task_failure t = None)"
    "\<not> (task_status t = Running \<and> task_execution t = None)"
    "reference_check (task_result_reference t) = Inr ()" using W by blast+
  ultimately show ?thesis unfolding validate_task_def by auto
qed

lemma length_lease_ids: "length (filter (\<lambda>t. task_lease_id t \<noteq> None) (run_tasks r)) = length (lease_ids r)"
  by (simp add: lease_ids_def List.map_filter_def)

lemma run_inv_loads:
  assumes "run_inv sj r" "\<forall>t\<in>set (run_tasks r). task_status t = Cancelled \<longrightarrow> task_lease_id t = None"
    "distinct (lease_ids r)" "\<forall>q\<in>set (run_agent_requests r). validate_request r q = Inr ()"
  shows "validate_run_data sj r = Inr ()"
proof -
  note I = assms(1)[unfolded run_inv_def]
  have tasks: "\<forall>t\<in>set (run_tasks r). validate_task r t = Inr ()"
    using I assms(2) wf_task_validates by (auto simp: tasks_wf_def)
  have "bs_collect (map step_id (run_steps r)) = bs_collect (map task_step_id (run_tasks r))"
    using I by simp
  moreover have "length (bs_collect (map task_step_id (run_tasks r))) = length (run_tasks r)"
    using run_inv_distinct(2)[OF assms(1)] length_bs_collect_distinct by (metis length_map)
  moreover have "length (bs_collect (map message_id (run_messages r))) = length (run_messages r)"
    "length (bs_collect (map request_id (run_agent_requests r))) = length (run_agent_requests r)"
    using I length_bs_collect_distinct by (metis length_map)+
  moreover have "length (bs_collect (lease_ids r)) = length (filter (\<lambda>t. task_lease_id t \<noteq> None) (run_tasks r))"
    unfolding length_lease_ids using assms(3) by (simp only: length_bs_collect_distinct)
  moreover have "\<not> is_some_and (run_trigger r) (\<lambda>t. \<not> trigger_is_valid t)"
    using I by (auto simp: is_some_and_def is_none_or_def split: option.splits)
  ultimately show ?thesis
    using I tasks assms(4) message_checks[OF assms(1)] by (simp add: validate_run_data_def)
qed

section \<open>Spawned agents\<close>

lemma spawn_edges_set:
  "set (spawn_edges team actor n recipient) =
   {\<lparr>from_member_id = recipient, to_member_id = n\<rparr> | u::unit. recipient = actor \<or>
      (if recipient = n then is_ok (authorize_send team actor recipient)
       else is_ok (authorize_send team recipient actor))} \<union>
   {\<lparr>from_member_id = n, to_member_id = recipient\<rparr> | u::unit. recipient = actor \<or>
      is_ok (authorize_send team actor recipient)}"
  by (auto simp: spawn_edges_def List.map_filter_def)

text \<open>The send routes of a spawned definition: the old ones, the ones between the new agent and
  its parent, and mirrors of routes its parent already has.\<close>

lemma spawned_routes:
  assumes "e \<in> set (send_edges (def_team (spawned_definition d actor n p nm ins)))"
    "e \<notin> set (send_edges (def_team d))" "n \<notin> member_id ` set (team_members (def_team d))" "n \<noteq> actor"
  shows "(\<exists>x. e = \<lparr>from_member_id = x, to_member_id = n\<rparr> \<and>
            (x = actor \<or> authorize_send (def_team d) x actor = Inr ())) \<or>
         (\<exists>x. e = \<lparr>from_member_id = n, to_member_id = x\<rparr> \<and>
            (x = actor \<or> authorize_send (def_team d) actor x = Inr ()))"
proof -
  let ?rs = "if spawned_agents_join_team (def_team d) then map member_id (team_members (def_team d)) else [actor]"
  obtain x where x: "x \<in> set ?rs" "e \<in> set (spawn_edges (def_team d) actor n x)"
    using assms(1,2) by (auto simp: spawned_definition_def Let_def split: if_splits)
  have "x \<noteq> n" using x(1) assms(3,4) by (auto split: if_splits)
  with x(2) show ?thesis
    by (auto simp: spawn_edges_set is_ok_unit_iff)
qed

end
