(* ===== verification/Codec.thy ===== *)
theory Codec
  imports Json
begin

text \<open>
  The framing of the agent protocol (\<^verbatim>\<open>src/crates/piui-runtime/src/codec.rs\<close>): a decoder that is fed
  byte chunks of any size and returns one JSON value per line, an encoder, and the normaliser of
  events. The JSON crate is a parameter: \<open>from_slice\<close> parses the bytes of a frame, \<open>to_vec\<close> prints a
  value (\<open>Inl\<close> carries the crate's error message).

  The decoder is proved to decode exactly the lines of the stream (\<open>read_stream\<close> is the
  specification), independently of where the chunks are cut (locale \<open>chunked_decoder\<close>).
\<close>

section \<open>The codec\<close>

record rpc_codec_config =
  max_frame_bytes :: nat

definition DEFAULT_MAX_FRAME_BYTES :: nat where
  "DEFAULT_MAX_FRAME_BYTES = 32 * 1024 * 1024"

definition rpc_codec_config_default :: rpc_codec_config where
  "rpc_codec_config_default = \<lparr>max_frame_bytes = DEFAULT_MAX_FRAME_BYTES\<rparr>"

record rpc_codec_counters =
  empty_frames :: "64 word"
  decoded_frames :: "64 word"

datatype rpc_codec_error =
    InvalidFrameLimit
  | FrameTooLarge (error_limit: nat) (error_observed: nat)
  | IncompleteEof nat
  | InvalidUtf8
  | InvalidJson string
  | Terminal
  | EncodeJson string

record rpc_codec =
  codec_config :: rpc_codec_config
  codec_pending :: string
  codec_counters :: rpc_codec_counters
  codec_terminal :: bool

definition codec_new :: "rpc_codec_config \<Rightarrow> rpc_codec_error + rpc_codec" where
  "codec_new config =
     (if max_frame_bytes config = 0 then Inl InvalidFrameLimit
      else Inr \<lparr>codec_config = config, codec_pending = [],
                codec_counters = \<lparr>empty_frames = 0, decoded_frames = 0\<rparr>, codec_terminal = False\<rparr>)"

text \<open>\<^verbatim>\<open>fail\<close>: the partial frame is dropped and every later call is refused.\<close>

definition codec_fail :: "rpc_codec_error \<Rightarrow> rpc_codec \<Rightarrow> (rpc_codec_error, 'a, rpc_codec) outcome" where
  "codec_fail error c = (Inl error, c\<lparr>codec_pending := [], codec_terminal := True\<rparr>)"

text \<open>\<^verbatim>\<open>strip_suffix(b"\r").unwrap_or(frame)\<close>.\<close>

definition strip_cr :: "string \<Rightarrow> string" where
  "strip_cr frame = (if frame \<noteq> [] \<and> last frame = CHR 0x0D then butlast frame else frame)"

definition decode_frame ::
  "(string \<Rightarrow> string + json) \<Rightarrow> string \<Rightarrow> rpc_codec \<Rightarrow> (rpc_codec_error, json option, rpc_codec) outcome" where
  "decode_frame from_slice frame c =
     (let frame = strip_cr frame in
      if frame = [] then
        (Inr None, c\<lparr>codec_counters := (codec_counters c)
           \<lparr>empty_frames := saturating_inc (empty_frames (codec_counters c))\<rparr>\<rparr>)
      else if \<not> utf8_valid frame then (Inl InvalidUtf8, c)
      else case from_slice frame of
        Inl message \<Rightarrow> (Inl (InvalidJson message), c)
      | Inr v \<Rightarrow> (Inr (Some v), c\<lparr>codec_counters := (codec_counters c)
           \<lparr>decoded_frames := saturating_inc (decoded_frames (codec_counters c))\<rparr>\<rparr>))"

text \<open>The byte that ends a frame.\<close>

abbreviation LF :: char where
  "LF \<equiv> CHR 0x0A"

definition too_large :: "nat \<Rightarrow> rpc_codec_error" where
  "too_large limit = FrameTooLarge limit (saturating_add limit 1)"

text \<open>The loop of \<^verbatim>\<open>push\<close>, with the values read so far.\<close>

fun push_loop ::
  "(string \<Rightarrow> string + json) \<Rightarrow> json list \<Rightarrow> string \<Rightarrow> rpc_codec \<Rightarrow> (rpc_codec_error, json list, rpc_codec) outcome" where
  "push_loop from_slice vs [] c = (Inr vs, c)"
| "push_loop from_slice vs (b # chunk) c =
     (if b = LF then
        (case decode_frame from_slice (codec_pending c) (c\<lparr>codec_pending := []\<rparr>) of
           (Inr (Some v), c') \<Rightarrow> push_loop from_slice (vs @ [v]) chunk c'
         | (Inr None, c') \<Rightarrow> push_loop from_slice vs chunk c'
         | (Inl error, c') \<Rightarrow> codec_fail error c')
      else if length (codec_pending c) = max_frame_bytes (codec_config c) then
        codec_fail (too_large (max_frame_bytes (codec_config c))) c
      else push_loop from_slice vs chunk (c\<lparr>codec_pending := codec_pending c @ [b]\<rparr>))"

definition push ::
  "(string \<Rightarrow> string + json) \<Rightarrow> string \<Rightarrow> rpc_codec \<Rightarrow> (rpc_codec_error, json list, rpc_codec) outcome" where
  "push from_slice chunk c =
     (if codec_terminal c then (Inl Terminal, c) else push_loop from_slice [] chunk c)"

text \<open>\<^verbatim>\<open>map(from_value).collect()\<close>: the first value that is no \<^verbatim>\<open>T\<close> is the error.\<close>

fun collect_as :: "(json \<Rightarrow> string + 'a) \<Rightarrow> json list \<Rightarrow> rpc_codec_error + 'a list" where
  "collect_as from_value [] = Inr []"
| "collect_as from_value (v # vs) =
     and_then (map_err InvalidJson (from_value v)) (\<lambda>x.
     and_then (collect_as from_value vs) (\<lambda>xs. Inr (x # xs)))"

definition push_as ::
  "(string \<Rightarrow> string + json) \<Rightarrow> (json \<Rightarrow> string + 'a) \<Rightarrow> string \<Rightarrow> rpc_codec \<Rightarrow> (rpc_codec_error, 'a list, rpc_codec) outcome" where
  "push_as from_slice from_value chunk c =
     (let (res, c') = push from_slice chunk c in (and_then res (collect_as from_value), c'))"

definition finish :: "rpc_codec \<Rightarrow> (rpc_codec_error, unit, rpc_codec) outcome" where
  "finish c =
     (if codec_terminal c then (Inl Terminal, c)
      else if codec_pending c = [] then (Inr (), c)
      else codec_fail (IncompleteEof (length (codec_pending c))) c)"

definition encode :: "('a \<Rightarrow> string + string) \<Rightarrow> 'a \<Rightarrow> rpc_codec \<Rightarrow> rpc_codec_error + string" where
  "encode to_vec v c =
     and_then (map_err EncodeJson (to_vec v)) (\<lambda>encoded.
       if max_frame_bytes (codec_config c) < length encoded
       then Inl (FrameTooLarge (max_frame_bytes (codec_config c)) (length encoded))
       else Inr (encoded @ [LF]))"

section \<open>Events\<close>

datatype json_value_kind = KNull | KBoolean | KNumber | KString | KArray | KObject

fun kind_from_value :: "json \<Rightarrow> json_value_kind" where
  "kind_from_value JNull = KNull"
| "kind_from_value (JBool _) = KBoolean"
| "kind_from_value (JNumber _) = KNumber"
| "kind_from_value (JString _) = KString"
| "kind_from_value (JArray _) = KArray"
| "kind_from_value (JObject _) = KObject"

datatype unknown_event_type_category = NotAnObject | Missing | NonString | UnrecognizedString

record opaque_rpc_event =
  event_type_category :: unknown_event_type_category
  top_level_kind :: json_value_kind
  original_byte_len :: nat

datatype normalized_rpc_event = Known string json | Unknown opaque_rpc_event

record rpc_event_normalizer =
  known_types :: "string list"

definition normalizer_new :: "string list \<Rightarrow> rpc_event_normalizer" where
  "normalizer_new types = \<lparr>known_types = bs_collect types\<rparr>"

definition unknown_category :: "json \<Rightarrow> unknown_event_type_category" where
  "unknown_category v =
     (case as_object v of
        None \<Rightarrow> NotAnObject
      | Some m \<Rightarrow>
        (case bm_get m ''type'' of
           None \<Rightarrow> Missing
         | Some (JString _) \<Rightarrow> UnrecognizedString
         | Some _ \<Rightarrow> NonString))"

text \<open>The writer saturates: \<open>to_vec\<close> stands for what \<^verbatim>\<open>to_writer\<close> writes into it, 0 for an error.\<close>

definition compact_json_byte_len :: "(json \<Rightarrow> string + string) \<Rightarrow> json \<Rightarrow> nat" where
  "compact_json_byte_len to_vec v =
     (case to_vec v of Inl _ \<Rightarrow> 0 | Inr bytes \<Rightarrow> saturating_add 0 (length bytes))"

definition normalize :: "(json \<Rightarrow> string + string) \<Rightarrow> json \<Rightarrow> rpc_event_normalizer \<Rightarrow> normalized_rpc_event" where
  "normalize to_vec v n =
     (case keep_if (\<lambda>t. t \<in> set (known_types n))
             (Option.bind (Option.bind (as_object v) (\<lambda>m. bm_get m ''type'')) as_str) of
        Some event_type \<Rightarrow> Known event_type v
      | None \<Rightarrow> Unknown \<lparr>event_type_category = unknown_category v, top_level_kind = kind_from_value v,
                         original_byte_len = compact_json_byte_len to_vec v\<rparr>)"

section \<open>Specification: one value per line\<close>

definition line_result :: "nat \<Rightarrow> (string \<Rightarrow> string + json) \<Rightarrow> string \<Rightarrow> rpc_codec_error + json option" where
  "line_result limit from_slice line =
     (if limit < length line then Inl (too_large limit)
      else if strip_cr line = [] then Inr None
      else if \<not> utf8_valid (strip_cr line) then Inl InvalidUtf8
      else map_sum InvalidJson Some (from_slice (strip_cr line)))"

text \<open>The frames up to the first bad line, and its error.\<close>

fun decode_lines ::
  "nat \<Rightarrow> (string \<Rightarrow> string + json) \<Rightarrow> string list \<Rightarrow> json option list \<times> rpc_codec_error option" where
  "decode_lines limit from_slice [] = ([], None)"
| "decode_lines limit from_slice (l # ls) =
     (case line_result limit from_slice l of
        Inl e \<Rightarrow> ([], Some e)
      | Inr v \<Rightarrow> map_prod (Cons v) id (decode_lines limit from_slice ls))"

definition read_stream ::
  "nat \<Rightarrow> (string \<Rightarrow> string + json) \<Rightarrow> string \<Rightarrow> json option list \<times> rpc_codec_error option \<times> string" where
  "read_stream limit from_slice s =
     (let ls = split_on LF s; (frames, e) = decode_lines limit from_slice (butlast ls) in
      (frames, if e = None \<and> limit < length (last ls) then Some (too_large limit) else e, last ls))"

fun tally :: "json option list \<Rightarrow> rpc_codec_counters \<Rightarrow> rpc_codec_counters" where
  "tally [] k = k"
| "tally (None # fs) k = tally fs (k\<lparr>empty_frames := saturating_inc (empty_frames k)\<rparr>)"
| "tally (Some v # fs) k = tally fs (k\<lparr>decoded_frames := saturating_inc (decoded_frames k)\<rparr>)"

definition decoded :: "rpc_codec \<Rightarrow> json option list \<times> rpc_codec_error option \<times> string \<Rightarrow>
    (rpc_codec_error, json list, rpc_codec) outcome" where
  "decoded c = (\<lambda>(frames, e, rest). case e of
       None \<Rightarrow> (Inr (List.map_filter id frames),
                c\<lparr>codec_pending := rest, codec_counters := tally frames (codec_counters c)\<rparr>)
     | Some e \<Rightarrow> (Inl e, c\<lparr>codec_pending := [], codec_counters := tally frames (codec_counters c),
                          codec_terminal := True\<rparr>))"

definition codec_wf :: "rpc_codec \<Rightarrow> bool" where
  "codec_wf c \<longleftrightarrow> 0 < max_frame_bytes (codec_config c) \<and>
     length (codec_pending c) \<le> max_frame_bytes (codec_config c) \<and> LF \<notin> set (codec_pending c) \<and>
     (codec_terminal c \<longrightarrow> codec_pending c = [])"

section \<open>The decoder implements the specification\<close>

lemma map_filter_id_simps [simp]:
  "List.map_filter id [] = []" "List.map_filter id (None # xs) = List.map_filter id xs"
  "List.map_filter id (Some x # xs) = x # List.map_filter id xs"
  by (simp_all add: List.map_filter_def)

lemma map_filter_id_Some [simp]: "List.map_filter id (map Some xs) = xs"
  by (induction xs) auto

lemma decode_frame_line:
  assumes "length l \<le> limit"
  shows "decode_frame fs l c =
     (case line_result limit fs l of
        Inl e \<Rightarrow> (Inl e, c)
      | Inr v \<Rightarrow> (Inr v, c\<lparr>codec_counters := tally [v] (codec_counters c)\<rparr>))"
  using assms by (auto simp: decode_frame_def line_result_def Let_def split: sum.splits)

lemma push_loop_acc: "push_loop fs vs xs c = map_prod (map_sum id ((@) vs)) id (push_loop fs [] xs c)"
proof (induction xs arbitrary: vs c)
  case (Cons b xs)
  let ?next = "decode_frame fs (codec_pending c) (c\<lparr>codec_pending := []\<rparr>)"
  show ?case
  proof (cases "b = LF \<and> (\<exists>v c'. ?next = (Inr (Some v), c'))")
    case True
    then obtain v c' where "?next = (Inr (Some v), c')" by blast
    with True show ?thesis
      by (simp add: Cons[of "vs @ [v]"] Cons[of "[v]"] prod.map_comp comp_def sum.map_comp)
  next
    case False
    then show ?thesis
      using Cons[of vs] by (auto simp: codec_fail_def split: prod.splits sum.splits option.splits)
  qed
qed simp

lemma decoded_pending [simp]: "decoded (c\<lparr>codec_pending := p\<rparr>) x = decoded c x"
  by (auto simp: decoded_def split: prod.splits option.splits)

lemma push_loop_lines:
  assumes "length (codec_pending c) \<le> max_frame_bytes (codec_config c)" "LF \<notin> set (codec_pending c)"
  shows "push_loop fs [] chunk c =
     decoded c (read_stream (max_frame_bytes (codec_config c)) fs (codec_pending c @ chunk))"
  using assms
proof (induction chunk arbitrary: c)
  case Nil
  then show ?case by (simp add: read_stream_def split_on_none decoded_def)
next
  case (Cons b chunk)
  let ?m = "max_frame_bytes (codec_config c)" and ?p = "codec_pending c"
  consider (line) "b = LF" | (large) "b \<noteq> LF" "length ?p = ?m" | (more) "b \<noteq> LF" "length ?p < ?m"
    using Cons.prems by linarith
  then show ?case
  proof cases
    case line
    have s: "split_on LF (?p @ b # chunk) = ?p # split_on LF chunk"
      using line Cons.prems by (simp add: split_on_sep)
    show ?thesis
    proof (cases "line_result ?m fs ?p")
      case (Inl e)
      then show ?thesis
        using line Cons.prems s
        by (simp add: decode_frame_line[OF Cons.prems(1)] codec_fail_def read_stream_def decoded_def)
    next
      case (Inr v)
      let ?c = "c\<lparr>codec_pending := [], codec_counters := tally [v] (codec_counters c)\<rparr>"
      have "push_loop fs [] chunk ?c = decoded ?c (read_stream ?m fs chunk)"
        using Cons.IH[of ?c] by simp
      then show ?thesis
        using line Cons.prems s Inr push_loop_acc[of fs "[the v]" chunk ?c]
        by (cases v) (auto simp: decode_frame_line[OF Cons.prems(1)] read_stream_def decoded_def
            map_prod_def split: prod.splits option.splits)
    qed
  next
    case large
    obtain q ls where "split_on LF (?p @ b # chunk) = (?p @ b # q) # ls"
      using split_on_no_sep[of LF "?p @ [b]" chunk] Cons.prems large by auto
    then show ?thesis
      using large by (auto simp: codec_fail_def read_stream_def line_result_def decoded_def)
  next
    case more
    then show ?thesis
      using Cons.prems Cons.IH[of "c\<lparr>codec_pending := ?p @ [b]\<rparr>"] by simp
  qed
qed

section \<open>Chunks\<close>

text \<open>A reader feeds one chunk after the other and stops at the first error.\<close>

fun and_feed :: "('e, 'v list, 's) outcome \<Rightarrow> ('s \<Rightarrow> ('e, 'v list, 's) outcome) \<Rightarrow> ('e, 'v list, 's) outcome" where
  "and_feed (Inl e, s) f = (Inl e, s)"
| "and_feed (Inr vs, s) f = map_prod (map_sum id ((@) vs)) id (f s)"

fun feed_chunks ::
  "('c list \<Rightarrow> 's \<Rightarrow> ('e, 'v list, 's) outcome) \<Rightarrow> 'c list list \<Rightarrow> 's \<Rightarrow> ('e, 'v list, 's) outcome" where
  "feed_chunks feed [] s = (Inr [], s)"
| "feed_chunks feed (x # xs) s = and_feed (feed x s) (feed_chunks feed xs)"

text \<open>What a reader relies on: feeding nothing changes nothing, and feeding two pieces is feeding
  their concatenation.\<close>

locale chunked_decoder =
  fixes feed :: "'c list \<Rightarrow> 's \<Rightarrow> ('e, 'v list, 's) outcome"
    and alive :: "'s \<Rightarrow> bool"
  assumes feed_nil: "alive s \<Longrightarrow> feed [] s = (Inr [], s)"
    and feed_append: "alive s \<Longrightarrow> feed (xs @ ys) s = and_feed (feed xs s) (feed ys)"
    and feed_alive: "alive s \<Longrightarrow> feed xs s = (Inr vs, s') \<Longrightarrow> alive s'"
begin

lemma chunking: "alive s \<Longrightarrow> feed_chunks feed chunks s = feed (concat chunks) s"
proof (induction chunks arbitrary: s)
  case (Cons x xs)
  then show ?case
    using feed_append[OF Cons.prems, of x "concat xs"] feed_alive[OF Cons.prems]
    by (cases "feed x s"; cases "fst (feed x s)") auto
qed (simp add: feed_nil)

lemma same_stream:
  "alive s \<Longrightarrow> concat chunks = concat chunks' \<Longrightarrow> feed_chunks feed chunks s = feed_chunks feed chunks' s"
  by (simp add: chunking)

end

definition receiving :: "rpc_codec \<Rightarrow> bool" where
  "receiving c \<longleftrightarrow> codec_wf c \<and> \<not> codec_terminal c"

lemma and_feed_map:
  "and_feed (map_prod (map_sum id ((@) vs)) id p) f = map_prod (map_sum id ((@) vs)) id (and_feed p f)"
proof (cases p)
  case (Pair r s)
  then show ?thesis
    by (cases r; cases "f s"; cases "fst (f s)") auto
qed

lemma push_loop_append: "push_loop fs [] (xs @ ys) c = and_feed (push_loop fs [] xs c) (push_loop fs [] ys)"
proof (induction xs arbitrary: c)
  case Nil
  then show ?case by (cases "push_loop fs [] ys c"; cases "fst (push_loop fs [] ys c)") auto
next
  case (Cons b xs)
  have "push_loop fs [v] (xs @ ys) d = and_feed (push_loop fs [v] xs d) (push_loop fs [] ys)" for v d
    by (simp add: push_loop_acc[of fs "[v]"] and_feed_map Cons)
  then show ?case using Cons by (auto simp: codec_fail_def split: prod.splits sum.splits option.splits)
qed

lemma push_lines:
  "receiving c \<Longrightarrow> push fs chunk c =
     decoded c (read_stream (max_frame_bytes (codec_config c)) fs (codec_pending c @ chunk))"
  by (simp add: push_def push_loop_lines receiving_def codec_wf_def)

lemma codec_new_receiving: "codec_new config = Inr c \<Longrightarrow> receiving c \<and> codec_pending c = []"
  by (auto simp: codec_new_def receiving_def codec_wf_def split: if_splits)

lemma push_wf: "codec_wf c \<Longrightarrow> codec_wf (snd (push fs chunk c))"
proof (cases "codec_terminal c")
  case False
  assume "codec_wf c"
  with False have "receiving c" by (simp add: receiving_def)
  then show ?thesis
    using last_split_on[of LF "codec_pending c @ chunk"]
    by (auto simp: push_lines decoded_def read_stream_def codec_wf_def receiving_def Let_def
        split: prod.splits option.splits if_splits)
qed (simp add: push_def)

lemma push_alive: "receiving c \<Longrightarrow> push fs chunk c = (Inr vs, c') \<Longrightarrow> receiving c'"
  using push_wf[of c fs chunk] push_lines[of c fs chunk]
  by (auto simp: receiving_def decoded_def split: prod.splits option.splits)

interpretation frames: chunked_decoder "push fs" receiving for fs
proof
  show "receiving c \<Longrightarrow> push fs [] c = (Inr [], c)" for c
    by (simp add: push_def receiving_def)
  show "push fs (xs @ ys) c = and_feed (push fs xs c) (push fs ys)" if r: "receiving c" for c xs ys
  proof -
    have "push fs ys c' = push_loop fs [] ys c'" if "push_loop fs [] xs c = (Inr vs, c')" for vs c'
      using push_alive[OF r, of fs xs vs c'] r that by (simp add: push_def receiving_def)
    then have "and_feed (push_loop fs [] xs c) (push fs ys) = and_feed (push_loop fs [] xs c) (push_loop fs [] ys)"
      by (cases "push_loop fs [] xs c"; cases "fst (push_loop fs [] xs c)") auto
    then show ?thesis using r by (simp add: push_def[of fs _ c] receiving_def push_loop_append)
  qed
qed (rule push_alive)

lemma finish_ok: "fst (finish c) = Inr () \<longleftrightarrow> \<not> codec_terminal c \<and> codec_pending c = []"
  by (auto simp: finish_def codec_fail_def)

lemma finish_wf: "codec_wf c \<Longrightarrow> codec_wf (snd (finish c))"
  by (auto simp: finish_def codec_fail_def codec_wf_def)

lemma terminal_stays: "codec_terminal c \<Longrightarrow> push fs chunk c = (Inl Terminal, c) \<and> finish c = (Inl Terminal, c)"
  by (simp add: push_def finish_def)

lemma encode_ok:
  "encode to_vec v c = Inr b \<longleftrightarrow>
     (\<exists>e. to_vec v = Inr e \<and> length e \<le> max_frame_bytes (codec_config c) \<and> b = e @ [LF])"
  by (cases "to_vec v") (auto simp: encode_def)

lemma decode_lines_ok:
  "list_all2 (\<lambda>v l. line_result m fs l = Inr v) vs ls \<Longrightarrow> decode_lines m fs ls = (vs, None)"
  by (induction rule: list_all2_induct) auto

lemma line_result_value:
  "fs l = Inr v \<Longrightarrow> l \<noteq> [] \<Longrightarrow> utf8_valid l \<Longrightarrow> last l \<noteq> CHR 0x0D \<Longrightarrow> length l \<le> m \<Longrightarrow>
   line_result m fs l = Inr (Some v)"
  by (simp add: line_result_def strip_cr_def)

section \<open>Events carry no payload\<close>

lemma normalize_known:
  "normalize to_vec v n = Known t v' \<longleftrightarrow>
     v' = v \<and> t \<in> set (known_types n) \<and> get_field v ''type'' = Some (JString t)"
  by (cases v) (auto simp: normalize_def as_str_Some keep_if_def Option.bind_eq_Some_conv split: option.splits bind_splits)

lemma normalizer_known_types [simp]: "set (known_types (normalizer_new ts)) = set ts"
  by (simp add: normalizer_new_def)

text \<open>An unknown event is described by its category, its kind and its length alone.\<close>

lemma normalize_payload_free:
  assumes "normalize to_vec v n = Unknown e" "normalize to_vec w n = Unknown e'"
    and "unknown_category v = unknown_category w" "kind_from_value v = kind_from_value w"
    and "compact_json_byte_len to_vec v = compact_json_byte_len to_vec w"
  shows "e = e'"
  using assms by (auto simp: normalize_def split: option.splits)

section \<open>A sample codec\<close>

definition sample_from_slice :: "string \<Rightarrow> string + json" where
  "sample_from_slice s =
     (if s = ''null'' then Inr JNull else if s = ''true'' then Inr (JBool True) else Inl ''expected value'')"

fun sample_to_vec :: "json \<Rightarrow> string + string" where
  "sample_to_vec JNull = Inr ''null''"
| "sample_to_vec (JBool b) = Inr (if b then ''true'' else ''false'')"
| "sample_to_vec _ = Inl ''unsupported''"

definition sample_codec :: rpc_codec where
  "sample_codec = projr (codec_new \<lparr>max_frame_bytes = 8\<rparr>)"

section \<open>Properties\<close>

text \<open>C38. However a stream is cut into chunks, the codec returns exactly the values of its complete lines, in
  order, keeps the unfinished line, and counts the frames; at the first line that is too long, no
  UTF-8 or no JSON it reports that error, drops the partial frame and is terminal. The partial frame
  never exceeds the limit.\<close>

theorem push_reads_lines:
  assumes "codec_wf c" "\<not> codec_terminal c"
  shows "feed_chunks (push fs) chunks c =
           decoded c (read_stream (max_frame_bytes (codec_config c)) fs (codec_pending c @ concat chunks)) \<and>
         codec_wf (snd (feed_chunks (push fs) chunks c))"
proof -
  have "receiving c" using assms by (simp add: receiving_def)
  then show ?thesis using push_wf[OF assms(1), of fs "concat chunks"] by (simp add: frames.chunking push_lines)
qed

theorem push_reads_lines_witness:
  "fst (feed_chunks (push sample_from_slice) [''nu'', ''ll'' @ [LF, CHR 0x0D], LF # ''tr''] sample_codec) =
   Inr [JNull]"
proof -
  have "codec_wf sample_codec" "\<not> codec_terminal sample_codec" by code_simp+
  note r = push_reads_lines[OF this, of sample_from_slice "[''nu'', ''ll'' @ [LF, CHR 0x0D], LF # ''tr'']"]
  have "fst (decoded sample_codec (read_stream (max_frame_bytes (codec_config sample_codec)) sample_from_slice
      (codec_pending sample_codec @ concat [''nu'', ''ll'' @ [LF, CHR 0x0D], LF # ''tr'']))) = Inr [JNull]"
    by code_simp
  with r show ?thesis by simp
qed

text \<open>C39. A receiver decodes what a sender encoded: for values that the JSON crate prints compactly (parsed
  back from what it printed, non-empty UTF-8 without line feed and not ending in a carriage return),
  feeding the encoded frames, cut anywhere, returns the values in order, and the stream may end
  there.\<close>

theorem encoded_frames_decoded:
  assumes "codec_wf c" "\<not> codec_terminal c" "codec_pending c = []"
    and limit: "max_frame_bytes (codec_config sender) \<le> max_frame_bytes (codec_config c)"
    and encoded: "list_all2 (\<lambda>v b. encode to_vec v sender = Inr b) vs bytes"
    and serde: "\<And>v b. v \<in> set vs \<Longrightarrow> to_vec v = Inr b \<Longrightarrow>
      fs b = Inr v \<and> b \<noteq> [] \<and> utf8_valid b \<and> LF \<notin> set b \<and> last b \<noteq> CHR 0x0D"
    and cut: "concat chunks = concat bytes"
  shows "feed_chunks (push fs) chunks c =
           (Inr vs, c\<lparr>codec_counters := tally (map Some vs) (codec_counters c)\<rparr>) \<and>
         fst (finish (snd (feed_chunks (push fs) chunks c))) = Inr ()"
proof -
  let ?m = "max_frame_bytes (codec_config c)"
  obtain ls where bytes: "bytes = map (\<lambda>l. l @ [LF]) ls"
    and ls: "list_all2 (\<lambda>v l. to_vec v = Inr l \<and> length l \<le> ?m) vs ls"
  proof -
    from encoded have "\<exists>ls. bytes = map (\<lambda>l. l @ [LF]) ls \<and>
        list_all2 (\<lambda>v l. to_vec v = Inr l \<and> length l \<le> ?m) vs ls"
    proof (induction rule: list_all2_induct)
      case (Cons v vs b bs)
      then obtain ls e where "bs = map (\<lambda>l. l @ [LF]) ls" "b = e @ [LF]" "to_vec v = Inr e" "length e \<le> ?m"
          "list_all2 (\<lambda>v l. to_vec v = Inr l \<and> length l \<le> ?m) vs ls"
        using limit by (auto simp: encode_ok)
      then show ?case by (intro exI[of _ "e # ls"]) auto
    qed simp
    then show ?thesis using that by blast
  qed
  have "list_all2 (\<lambda>v l. LF \<notin> set l \<and> line_result ?m fs l = Inr (Some v)) vs ls"
    using ls by (rule list.rel_mono_strong) (use serde line_result_value in blast)
  then have good: "list_all2 (\<lambda>v l. line_result ?m fs l = Inr v) (map Some vs) ls" "\<forall>l\<in>set ls. LF \<notin> set l"
    by (auto simp: list_all2_conv_all_nth in_set_conv_nth)
  then have "read_stream ?m fs (concat chunks) = (map Some vs, None, [])"
    by (simp add: read_stream_def cut bytes split_on_lines decode_lines_ok)
  moreover have "receiving c" using assms(1,2) by (simp add: receiving_def)
  ultimately have "feed_chunks (push fs) chunks c =
      (Inr vs, c\<lparr>codec_counters := tally (map Some vs) (codec_counters c)\<rparr>)"
    using assms(3) by (simp add: frames.chunking push_lines decoded_def)
  then show ?thesis using assms(2,3) by (simp add: finish_ok)
qed

theorem encoded_frames_decoded_witness:
  "fst (feed_chunks (push sample_from_slice) [''nul'', ''l'' @ [LF], ''true'' @ [LF]] sample_codec) =
   Inr [JNull, JBool True]"
proof -
  have c: "codec_wf sample_codec" "\<not> codec_terminal sample_codec" "codec_pending sample_codec = []"
    by code_simp+
  have e: "list_all2 (\<lambda>v b. encode sample_to_vec v sample_codec = Inr b) [JNull, JBool True]
      [''null'' @ [LF], ''true'' @ [LF]]"
    by code_simp
  have s: "sample_from_slice b = Inr v \<and> b \<noteq> [] \<and> utf8_valid b \<and> LF \<notin> set b \<and> last b \<noteq> CHR 0x0D"
    if "v \<in> set [JNull, JBool True]" "sample_to_vec v = Inr b" for v b
  proof -
    have "utf8_valid ''null''" "utf8_valid ''true''" by code_simp+
    moreover have "v = JNull \<and> b = ''null'' \<or> v = JBool True \<and> b = ''true''" using that by auto
    ultimately show ?thesis by (elim disjE) (simp_all add: sample_from_slice_def del: utf8_valid.simps)
  qed
  from encoded_frames_decoded[OF c order_refl e s,
      of "[''nul'', ''l'' @ [LF], ''true'' @ [LF]]"] show ?thesis by simp
qed

end
