(* ===== verification/Semver.thy ===== *)
theory Semver
  imports Text "HOL-Library.Product_Lexorder" "HOL-Library.Code_Target_Nat"
begin

text \<open>
  Plugin versions and the ranges of \<^verbatim>\<open>engines.piui\<close> (\<^verbatim>\<open>src/crates/piui-plugins/src/semver.rs\<close>).
  The numbers are \<^verbatim>\<open>u64\<close>; the successors in the caret and tilde ceilings wrap, as release builds do.

  The comparison of versions is shown to be the linear order of a key (\<open>version_key\<close>), so that it is
  a total preorder; ranges are convex in it (locale \<open>keyed_order\<close>).
\<close>

section \<open>Versions\<close>

record version =
  version_major :: "64 word"
  version_minor :: "64 word"
  version_patch :: "64 word"
  version_pre :: "string list"

definition digit_val :: "char \<Rightarrow> nat" where
  "digit_val c = byte_val c - 48"

text \<open>\<^verbatim>\<open>str::parse::<u64>\<close>: an optional plus sign, then at least one digit, without overflow.\<close>

fun parse_digits :: "nat \<Rightarrow> string \<Rightarrow> 64 word option" where
  "parse_digits acc [] = Some (of_nat acc)"
| "parse_digits acc (c # s) =
     (if \<not> is_ascii_digit c then None
      else if 2 ^ 64 \<le> acc * 10 + digit_val c then None
      else parse_digits (acc * 10 + digit_val c) s)"

definition parse_u64 :: "string \<Rightarrow> 64 word option" where
  "parse_u64 s =
     (let digits = (case s of c # t \<Rightarrow> if c = CHR ''+'' then t else s | [] \<Rightarrow> []) in
      if digits = [] then None else parse_digits 0 digits)"

definition number :: "string \<Rightarrow> 64 word option" where
  "number s = (if s = [] \<or> \<not> list_all is_ascii_digit s then None else parse_u64 s)"

definition identifier_ok :: "string \<Rightarrow> bool" where
  "identifier_ok i \<longleftrightarrow> i \<noteq> [] \<and> list_all (\<lambda>c. is_ascii_alphanumeric c \<or> c = CHR ''-'') i"

definition parse_pre :: "string option \<Rightarrow> string list option" where
  "parse_pre pre =
     (case pre of
        None \<Rightarrow> Some []
      | Some p \<Rightarrow>
        (let identifiers = split_on CHR ''.'' p in
         if list_all identifier_ok identifiers then Some identifiers else None))"

definition parse_version :: "string \<Rightarrow> version option" where
  "parse_version s =
     (let (core, pre) = (case split_once CHR ''-'' s of Some (core, pre) \<Rightarrow> (core, Some pre) | None \<Rightarrow> (s, None)) in
      case split_on CHR ''.'' core of
        [a, b, c] \<Rightarrow>
          Option.bind (number a) (\<lambda>major. Option.bind (number b) (\<lambda>minor. Option.bind (number c) (\<lambda>patch.
          Option.bind (parse_pre pre) (\<lambda>pre.
            Some \<lparr>version_major = major, version_minor = minor, version_patch = patch, version_pre = pre\<rparr>))))
      | _ \<Rightarrow> None)"

definition version_core :: "version \<Rightarrow> 64 word \<times> 64 word \<times> 64 word" where
  "version_core v = (version_major v, version_minor v, version_patch v)"

section \<open>Order\<close>

datatype ordering = OLess | OEqual | OGreater

definition cmp_of :: "'a::linorder \<Rightarrow> 'a \<Rightarrow> ordering" where
  "cmp_of a b = (if a < b then OLess else if a = b then OEqual else OGreater)"

fun then_with :: "ordering \<Rightarrow> ordering \<Rightarrow> ordering" where
  "then_with OEqual b = b"
| "then_with a b = a"

definition compare_identifier :: "string \<Rightarrow> string \<Rightarrow> ordering" where
  "compare_identifier left right =
     (case (parse_u64 left, parse_u64 right) of
        (Some l, Some r) \<Rightarrow> cmp_of l r
      | (Some _, None) \<Rightarrow> OLess
      | (None, Some _) \<Rightarrow> OGreater
      | (None, None) \<Rightarrow> cmp_of left right)"

fun compare_zip :: "(string \<times> string) list \<Rightarrow> ordering" where
  "compare_zip [] = OEqual"
| "compare_zip ((l, r) # ps) =
     (if compare_identifier l r \<noteq> OEqual then compare_identifier l r else compare_zip ps)"

definition compare_pre :: "string list \<Rightarrow> string list \<Rightarrow> ordering" where
  "compare_pre left right =
     (let order = compare_zip (zip left right) in
      if order \<noteq> OEqual then order else cmp_of (length left) (length right))"

definition version_cmp :: "version \<Rightarrow> version \<Rightarrow> ordering" where
  "version_cmp a b =
     then_with (cmp_of (version_core a) (version_core b))
       (case (version_pre a = [], version_pre b = []) of
          (True, True) \<Rightarrow> OEqual
        | (True, False) \<Rightarrow> OGreater
        | (False, True) \<Rightarrow> OLess
        | (False, False) \<Rightarrow> compare_pre (version_pre a) (version_pre b))"

section \<open>Ranges\<close>

datatype operator = AtLeast | Above | AtMost | Below | Exactly | Caret | Tilde

record comparator =
  cmp_operator :: operator
  cmp_version :: version

definition caret_ceiling :: "version \<Rightarrow> 64 word \<times> 64 word \<times> 64 word" where
  "caret_ceiling v =
     (if 0 < version_major v then (version_major v + 1, 0, 0)
      else if 0 < version_minor v then (0, version_minor v + 1, 0)
      else (0, 0, version_patch v + 1))"

definition tilde_ceiling :: "version \<Rightarrow> 64 word \<times> 64 word \<times> 64 word" where
  "tilde_ceiling v = (version_major v, version_minor v + 1, 0)"

definition comparator_matches :: "comparator \<Rightarrow> version \<Rightarrow> bool" where
  "comparator_matches k current =
     (let v = cmp_version k in
      case cmp_operator k of
        AtLeast \<Rightarrow> version_cmp current v \<noteq> OLess
      | Above \<Rightarrow> version_cmp current v = OGreater
      | AtMost \<Rightarrow> version_cmp current v \<noteq> OGreater
      | Below \<Rightarrow> version_cmp current v = OLess
      | Exactly \<Rightarrow> current = v
      | Caret \<Rightarrow> version_cmp current v \<noteq> OLess \<and> version_core current < caret_ceiling v
      | Tilde \<Rightarrow> version_cmp current v \<noteq> OLess \<and> version_core current < tilde_ceiling v)"

record version_range =
  comparators :: "comparator list"

definition operator_prefixes :: "(string \<times> operator) list" where
  "operator_prefixes =
     [(''>='', AtLeast), (''<='', AtMost), (''>'', Above), (''<'', Below), (''='', Exactly),
      (''^'', Caret), (''~'', Tilde)]"

definition parse_comparator :: "string \<Rightarrow> comparator option" where
  "parse_comparator token =
     (let (operator, rest) =
        (case find_map (\<lambda>(prefix, operator). map_option (Pair operator) (strip_prefix prefix token))
                operator_prefixes of
           Some found \<Rightarrow> found
         | None \<Rightarrow> (Exactly, token)) in
      map_option (\<lambda>v. \<lparr>cmp_operator = operator, cmp_version = v\<rparr>) (parse_version rest))"

fun collect_options :: "'a option list \<Rightarrow> 'a list option" where
  "collect_options [] = Some []"
| "collect_options (None # xs) = None"
| "collect_options (Some x # xs) = map_option (Cons x) (collect_options xs)"

fun has_double_space :: "string \<Rightarrow> bool" where
  "has_double_space (a # b # s) = (a = CHR '' '' \<and> b = CHR '' '' \<or> has_double_space (b # s))"
| "has_double_space _ = False"

definition parse_range :: "string \<Rightarrow> version_range option" where
  "parse_range s =
     (if s = [] \<or> 100 < length s \<or> has_double_space s \<or> s \<noteq> trim s then None
      else Option.bind (collect_options (map parse_comparator (split_on CHR '' '' s))) (\<lambda>ks.
        if ks \<noteq> [] \<and> length ks \<le> 4 then Some \<lparr>comparators = ks\<rparr> else None))"

definition range_matches :: "version_range \<Rightarrow> version \<Rightarrow> bool" where
  "range_matches r current = list_all (\<lambda>k. comparator_matches k current) (comparators r)"

section \<open>The order as a key\<close>

text \<open>Numeric identifiers come before the others and compare by value; a release comes after its
  pre-releases; a longer list of identifiers comes after its prefixes.\<close>

definition identifier_key :: "string \<Rightarrow> bool \<times> 64 word \<times> string" where
  "identifier_key s = (case parse_u64 s of Some n \<Rightarrow> (False, n, []) | None \<Rightarrow> (True, 0, s))"

definition version_key ::
  "version \<Rightarrow> (64 word \<times> 64 word \<times> 64 word) \<times> bool \<times> (bool \<times> 64 word \<times> string) list" where
  "version_key v = (version_core v, version_pre v = [], map identifier_key (version_pre v))"

lemma cmp_of_simps [simp]:
  "cmp_of a b = OLess \<longleftrightarrow> a < b" "cmp_of a b = OEqual \<longleftrightarrow> a = b" "cmp_of a b = OGreater \<longleftrightarrow> b < a"
  by (auto simp: cmp_of_def)

lemma cmp_of_pair: "cmp_of (a, b) (c, d) = then_with (cmp_of a c) (cmp_of b d)"
  by (auto simp: cmp_of_def)

lemma cmp_of_Cons: "cmp_of (x # xs) (y # ys) = then_with (cmp_of x y) (cmp_of xs ys)"
  by (auto simp: cmp_of_def)

lemma compare_identifier_key: "compare_identifier l r = cmp_of (identifier_key l) (identifier_key r)"
  by (auto simp: compare_identifier_def identifier_key_def cmp_of_def split: option.splits)

lemma compare_pre_key: "compare_pre l r = cmp_of (map identifier_key l) (map identifier_key r)"
proof (induction l arbitrary: r)
  case Nil
  then show ?case by (cases r) (auto simp: compare_pre_def cmp_of_def)
next
  case (Cons i l)
  show ?case
  proof (cases r)
    case Nil
    then show ?thesis by (auto simp: compare_pre_def cmp_of_def)
  next
    case r: (Cons j r')
    have "compare_pre (i # l) r = then_with (compare_identifier i j) (compare_pre l r')"
      by (cases "compare_identifier i j") (auto simp: r compare_pre_def cmp_of_def Let_def)
    then show ?thesis using Cons[of r'] by (simp add: r cmp_of_Cons compare_identifier_key)
  qed
qed

lemma version_cmp_key: "version_cmp a b = cmp_of (version_key a) (version_key b)"
  by (auto simp: version_cmp_def version_key_def cmp_of_pair compare_pre_key)
     (auto simp: cmp_of_def compare_pre_key)

text \<open>What the ranges rely on: the comparison is the order of a key, hence a total preorder.\<close>

locale keyed_order =
  fixes cmp :: "'a \<Rightarrow> 'a \<Rightarrow> ordering" and key :: "'a \<Rightarrow> 'k::linorder"
  assumes cmp_key: "cmp a b = cmp_of (key a) (key b)"
begin

lemma cmp_refl: "cmp a a = OEqual"
  by (simp add: cmp_key)

lemma cmp_flip: "cmp b a = OLess \<longleftrightarrow> cmp a b = OGreater" "cmp b a = OEqual \<longleftrightarrow> cmp a b = OEqual"
  by (auto simp: cmp_key)

lemma cmp_trans: "cmp a b \<noteq> OGreater \<Longrightarrow> cmp b c \<noteq> OGreater \<Longrightarrow> cmp a c \<noteq> OGreater"
  by (auto simp: cmp_key)

lemma at_least_up: "cmp a v \<noteq> OLess \<Longrightarrow> cmp a b \<noteq> OGreater \<Longrightarrow> cmp b v \<noteq> OLess"
  and above_up: "cmp a v = OGreater \<Longrightarrow> cmp a b \<noteq> OGreater \<Longrightarrow> cmp b v = OGreater"
  and at_most_down: "cmp c v \<noteq> OGreater \<Longrightarrow> cmp b c \<noteq> OGreater \<Longrightarrow> cmp b v \<noteq> OGreater"
  and below_down: "cmp c v = OLess \<Longrightarrow> cmp b c \<noteq> OGreater \<Longrightarrow> cmp b v = OLess"
  by (auto simp: cmp_key)

end

interpretation versions: keyed_order version_cmp version_key
  by unfold_locales (rule version_cmp_key)

lemma core_le: "version_cmp b c \<noteq> OGreater \<Longrightarrow> version_core b \<le> version_core c"
  by (auto simp: versions.cmp_key version_key_def not_less)

text \<open>Every comparator but the exact one selects an interval.\<close>

lemma comparator_interval:
  assumes "cmp_operator k \<noteq> Exactly" "comparator_matches k a" "comparator_matches k c"
    and "version_cmp a b \<noteq> OGreater" "version_cmp b c \<noteq> OGreater"
  shows "comparator_matches k b"
proof -
  have "version_core b < m" if "version_core c < m" for m
    using core_le[OF assms(5)] that by (rule le_less_trans)
  moreover note versions.at_least_up[OF _ assms(4)] versions.above_up[OF _ assms(4)]
    versions.at_most_down[OF _ assms(5)] versions.below_down[OF _ assms(5)]
  ultimately show ?thesis
    using assms(1-3) by (cases "cmp_operator k") (simp_all add: comparator_matches_def Let_def)
qed

section \<open>Parsing\<close>

lemma collect_options_Some: "collect_options xs = Some ys \<longleftrightarrow> xs = map Some ys"
  by (induction xs arbitrary: ys rule: collect_options.induct) (auto simp: Cons_eq_map_conv)

lemma parse_range_bounds:
  assumes "parse_range s = Some r"
  shows "comparators r \<noteq> []" "length (comparators r) \<le> 4" "length s \<le> 100"
    "map parse_comparator (split_on CHR '' '' s) = map Some (comparators r)"
  using assms by (auto simp: parse_range_def collect_options_Some Option.bind_eq_Some_conv split: if_splits)

text \<open>A digit string without overflow has the value it denotes.\<close>

lemma parse_digits_value:
  "list_all is_ascii_digit s \<Longrightarrow> acc < 2 ^ 64 \<Longrightarrow>
   parse_digits acc s = (let n = foldl (\<lambda>a c. a * 10 + digit_val c) acc s in
     if n < 2 ^ 64 then Some (of_nat n) else None)"
proof (induction s arbitrary: acc)
  case (Cons c s)
  have mono: "a \<le> foldl (\<lambda>a c. a * 10 + digit_val c) a s" for a
  proof (induction s arbitrary: a)
    case (Cons d s)
    show ?case using Cons[of "a * 10 + digit_val d"] by simp
  qed simp
  show ?case
  proof (cases "acc * 10 + digit_val c < 2 ^ 64")
    case True
    then show ?thesis using Cons by simp
  next
    case False
    then have "\<not> foldl (\<lambda>a c. a * 10 + digit_val c) acc (c # s) < 2 ^ 64"
      using mono[of "acc * 10 + digit_val c"] by simp
    then show ?thesis using Cons.prems False by (simp add: Let_def)
  qed
qed simp

text \<open>Versions of equal rank need not be equal: identifiers with leading zeros compare by value, but
  \<^verbatim>\<open>=\<close> compares them as text.\<close>

lemma equal_rank_not_equal:
  "version_cmp (the (parse_version ''1.0.0-01'')) (the (parse_version ''1.0.0-1'')) = OEqual \<and>
   parse_version ''1.0.0-01'' \<noteq> parse_version ''1.0.0-1''"
  by code_simp

text \<open>The ceiling of a caret range at the largest major number wraps to zero: the range does not match
  its own version.\<close>

lemma caret_ceiling_wraps:
  "(let v = \<lparr>version_major = - 1, version_minor = 0, version_patch = 0, version_pre = []\<rparr> in
    \<not> comparator_matches \<lparr>cmp_operator = Caret, cmp_version = v\<rparr> v)"
  by (simp add: comparator_matches_def caret_ceiling_def version_core_def Let_def)

section \<open>Properties\<close>

text \<open>A version range without exact comparators is an interval of the version order: a version between
  two versions that it admits is admitted.\<close>

theorem range_interval:
  assumes "Exactly \<notin> cmp_operator ` set (comparators r)"
    and "range_matches r a" "range_matches r c"
    and "version_cmp a b \<noteq> OGreater" "version_cmp b c \<noteq> OGreater"
  shows "range_matches r b"
  using assms comparator_interval[OF _ _ _ assms(4,5)] by (force simp: range_matches_def list_all_iff)

theorem range_interval_witness:
  "range_matches (the (parse_range ''>=0.1.0 <1.0.0'')) (the (parse_version ''0.2.0-rc.1''))"
  by (rule range_interval[of _ "the (parse_version ''0.1.0'')" "the (parse_version ''0.9.0'')"]) code_simp+

end
