(* ===== verification/Automation_Paths.thy ===== *)
theory Automation_Paths
  imports Text
begin

text \<open>
  Path patterns of file-change automations
  (\<^verbatim>\<open>src/apps/desktop/src-tauri/src/automation_paths.rs\<close>): validation, brace expansion, parsing into
  segments and tokens, and matching. Characters are code points, decoded from the UTF-8 bytes of a
  text. The matcher with one backtrack point is a partial function, proved to return and to decide
  the declarative matching relation \<open>wild\<close>.
\<close>

section \<open>Characters\<close>

text \<open>\<^verbatim>\<open>chars()\<close> of a well-formed text.\<close>

definition cp :: "char \<Rightarrow> nat" where
  "cp c = byte_val c"

fun code_points :: "string \<Rightarrow> nat list" where
  "code_points [] = []"
| "code_points (a # s) =
     (let x = byte_val a in
      if x < 128 then x # code_points s
      else case s of
        [] \<Rightarrow> [x]
      | b # s2 \<Rightarrow>
        if x < 224 then ((x - 192) * 64 + (byte_val b - 128)) # code_points s2
        else case s2 of
          [] \<Rightarrow> [x]
        | c # s3 \<Rightarrow>
          if x < 240 then ((x - 224) * 4096 + (byte_val b - 128) * 64 + (byte_val c - 128)) # code_points s3
          else case s3 of
            [] \<Rightarrow> [x]
          | d # s4 \<Rightarrow>
            ((x - 240) * 262144 + (byte_val b - 128) * 4096 + (byte_val c - 128) * 64 + (byte_val d - 128))
              # code_points s4)"

definition to_ascii_lowercase :: "nat \<Rightarrow> nat" where
  "to_ascii_lowercase c = (if 65 \<le> c \<and> c \<le> 90 then c + 32 else c)"

definition to_ascii_uppercase :: "nat \<Rightarrow> nat" where
  "to_ascii_uppercase c = (if 97 \<le> c \<and> c \<le> 122 then c - 32 else c)"

section \<open>Patterns\<close>

definition MAX_PATTERNS :: nat where "MAX_PATTERNS = 32"
definition MAX_PATTERN_BYTES :: nat where "MAX_PATTERN_BYTES = 256"
definition MAX_ALTERNATIVES :: nat where "MAX_ALTERNATIVES = 64"

datatype pattern_error =
    PatEmpty | PatTooLong | PatControl | PatBackslash | PatAbsolute | PatDotSegment | PatEmptySegment
  | PatDoubleStar | PatBracket | PatBrace

datatype class_item = ItemChar nat | ItemRange nat nat

datatype token = Literal nat | Any | One | Class bool "class_item list"

datatype segment = Globstar | Glob "token list"

record path_pattern =
  alternatives :: "segment list list"

text \<open>\<^verbatim>\<open>iter().map(f).collect::<Result<Vec<_>, _>>()\<close>, and a loop that pushes \<^verbatim>\<open>f(x)?\<close>.\<close>

fun try_map :: "('a \<Rightarrow> 'e + 'b) \<Rightarrow> 'a list \<Rightarrow> 'e + 'b list" where
  "try_map f [] = Inr []"
| "try_map f (x # xs) = and_then (f x) (\<lambda>y. and_then (try_map f xs) (\<lambda>ys. Inr (y # ys)))"

subsection \<open>Braces\<close>

text \<open>The two loops that build the alternatives; the bound is tested after every push.\<close>

fun push_options :: "string \<Rightarrow> string \<Rightarrow> string list \<Rightarrow> string list \<Rightarrow> pattern_error + string list" where
  "push_options pre rest [] res = Inr res"
| "push_options pre rest (option # options) res =
     (let res = res @ [pre @ option @ rest] in
      if MAX_ALTERNATIVES < length res then Inl PatBrace else push_options pre rest options res)"

fun push_rests :: "string \<Rightarrow> string list \<Rightarrow> string list \<Rightarrow> string list \<Rightarrow> pattern_error + string list" where
  "push_rests pre options [] res = Inr res"
| "push_rests pre options (rest # rests) res =
     and_then (push_options pre rest options res) (push_rests pre options rests)"

function expand_braces :: "string \<Rightarrow> pattern_error + string list" where
  "expand_braces s =
     (case position (\<lambda>c. c = CHR ''{'') s of
        None \<Rightarrow> if CHR ''}'' \<in> set s then Inl PatBrace else Inr [s]
      | Some i \<Rightarrow>
        (case position (\<lambda>c. c = CHR ''}'') (drop i s) of
           None \<Rightarrow> Inl PatBrace
         | Some n \<Rightarrow>
           (let inner = take (n - 1) (drop (i + 1) s); options = split_on CHR '','' inner; pre = take i s in
            if CHR ''{'' \<in> set inner \<or> CHR ''/'' \<in> set inner then Inl PatBrace
            else if length options < 2 \<or> [] \<in> set options then Inl PatBrace
            else if CHR ''}'' \<in> set pre then Inl PatBrace
            else and_then (expand_braces (drop (i + n + 1) s))
                   (\<lambda>rests. push_rests pre options rests []))))"
  by pat_completeness auto
termination
  by (relation "measure length") (auto dest: position_Some)

declare expand_braces.simps [simp del]

subsection \<open>Segments\<close>

fun has_double_star :: "string \<Rightarrow> bool" where
  "has_double_star (a # b # s) = (a = CHR ''*'' \<and> b = CHR ''*'' \<or> has_double_star (b # s))"
| "has_double_star _ = False"

text \<open>The loop over a character class, up to its closing bracket: the items and the rest.\<close>

fun class_loop :: "class_item list \<Rightarrow> nat list \<Rightarrow> pattern_error + (class_item list \<times> nat list)" where
  "class_loop items [] = Inl PatBracket"
| "class_loop items (item # cs) =
     (if item = cp CHR '']'' then (if items = [] then Inl PatBracket else Inr (items, cs))
      else if item = cp CHR ''['' then Inl PatBracket
      else case cs of
        [] \<Rightarrow> class_loop (items @ [ItemChar item]) cs
      | c # cs2 \<Rightarrow>
        if c = cp CHR ''-'' then
          (case cs2 of
             [] \<Rightarrow> Inl PatBracket
           | e # cs3 \<Rightarrow>
             if e = cp CHR '']'' then Inl PatBracket
             else if e < item then Inl PatBracket
             else class_loop (items @ [ItemRange item e]) cs3)
        else class_loop (items @ [ItemChar item]) cs)"

text \<open>An optional \<^verbatim>\<open>!\<close> or \<^verbatim>\<open>^\<close> behind the opening bracket.\<close>

fun negation :: "nat list \<Rightarrow> bool \<times> nat list" where
  "negation [] = (False, [])"
| "negation (c # cs) = (if c = cp CHR ''!'' \<or> c = cp CHR ''^'' then (True, cs) else (False, c # cs))"

lemma class_loop_length:
  "class_loop items cs = Inr (res, rest) \<Longrightarrow> length rest < length cs"
proof (induction items cs rule: class_loop.induct)
  case (2 items item cs)
  show ?case
  proof (cases cs)
    case Nil
    then show ?thesis using 2 by (simp split: if_splits)
  next
    case c: (Cons c cs2)
    show ?thesis
    proof (cases cs2)
      case Nil
      then show ?thesis using 2 c by (auto split: if_splits)
    next
      case (Cons e cs3)
      then show ?thesis
        using 2(4) 2(2)[OF _ _ c _ Cons] 2(3)[OF _ _ c] c by (auto split: if_splits)
    qed
  qed
qed simp

lemma negation_length: "length (snd (negation cs)) \<le> length cs"
  by (cases cs) auto

function tokens_loop :: "token list \<Rightarrow> nat list \<Rightarrow> pattern_error + token list" where
  "tokens_loop tokens [] = Inr tokens"
| "tokens_loop tokens (c # cs) =
     (if c = cp CHR ''*'' then tokens_loop (tokens @ [Any]) cs
      else if c = cp CHR ''?'' then tokens_loop (tokens @ [One]) cs
      else if c = cp CHR '']'' then Inl PatBracket
      else if c = cp CHR ''['' then
        and_then (class_loop [] (snd (negation cs))) (\<lambda>(items, rest).
          tokens_loop (tokens @ [Class (fst (negation cs)) items]) rest)
      else tokens_loop (tokens @ [Literal c]) cs)"
  by pat_completeness auto
termination
proof (relation "measure (\<lambda>(_, cs). length cs)", goal_cases)
  case (4 tokens c cs x items rest)
  then show ?case using class_loop_length[of "[]" "snd (negation cs)" items rest] negation_length[of cs] by simp
qed simp_all

definition parse_segment :: "string \<Rightarrow> pattern_error + segment" where
  "parse_segment part =
     (if part = [] then Inl PatEmptySegment
      else if part = ''.'' \<or> part = ''..'' then Inl PatDotSegment
      else if part = ''**'' then Inr Globstar
      else if has_double_star part then Inl PatDoubleStar
      else and_then (tokens_loop [] (code_points part)) (\<lambda>tokens. Inr (Glob tokens)))"

definition is_absolute_text :: "string \<Rightarrow> bool" where
  "is_absolute_text s \<longleftrightarrow>
     (case s of [] \<Rightarrow> False | a # t \<Rightarrow> a = CHR ''/'' \<or> a = CHR ''~'' \<or>
        (is_ascii_lowercase a \<or> is_ascii_uppercase a) \<and> (case t of [] \<Rightarrow> False | b # _ \<Rightarrow> b = CHR '':''))"

definition strip_slash :: "string \<Rightarrow> string" where
  "strip_slash s = (if s \<noteq> [] \<and> last s = CHR ''/'' then butlast s else s)"

definition parse_alternative :: "bool \<Rightarrow> string \<Rightarrow> pattern_error + segment list" where
  "parse_alternative anchored expanded =
     and_then (try_map parse_segment (split_on CHR ''/'' expanded))
       (\<lambda>segments. Inr (if anchored then segments else Globstar # segments))"

definition parse_pattern :: "string \<Rightarrow> pattern_error + path_pattern" where
  "parse_pattern s =
     (if is_blank_text s then Inl PatEmpty
      else if MAX_PATTERN_BYTES < length s then Inl PatTooLong
      else if has_control s then Inl PatControl
      else if CHR 0x5C \<in> set s then Inl PatBackslash
      else if is_absolute_text s then Inl PatAbsolute
      else let body = strip_slash s in
        and_then (expand_braces body) (\<lambda>expanded.
        and_then (try_map (parse_alternative (CHR ''/'' \<in> set body)) expanded) (\<lambda>alts.
          Inr \<lparr>alternatives = alts\<rparr>)))"

definition parse_patterns :: "string list \<Rightarrow> pattern_error + path_pattern list" where
  "parse_patterns values = try_map parse_pattern values"

section \<open>Matching\<close>

definition same :: "nat \<Rightarrow> nat \<Rightarrow> bool \<Rightarrow> bool" where
  "same left right fold_case \<longleftrightarrow>
     left = right \<or> (fold_case \<and> to_ascii_lowercase left = to_ascii_lowercase right)"

fun item_holds :: "class_item \<Rightarrow> nat \<Rightarrow> bool \<Rightarrow> bool" where
  "item_holds (ItemChar expected) candidate fold_case = same expected candidate fold_case"
| "item_holds (ItemRange lo hi) candidate fold_case = (lo \<le> candidate \<and> candidate \<le> hi)"

definition in_class :: "class_item list \<Rightarrow> nat \<Rightarrow> bool \<Rightarrow> bool" where
  "in_class items v fold_case =
     (let candidates = (if fold_case then [to_ascii_lowercase v, to_ascii_uppercase v] else [v, v]) in
      list_ex (\<lambda>item. list_ex (\<lambda>candidate. item_holds item candidate fold_case) candidates) items)"

text \<open>Whether a token that stands for one character accepts it.\<close>

fun accepts :: "bool \<Rightarrow> token \<Rightarrow> nat \<Rightarrow> bool" where
  "accepts fold_case (Literal expected) c = same expected c fold_case"
| "accepts fold_case One c = True"
| "accepts fold_case (Class negated items) c = (in_class items c fold_case \<noteq> negated)"
| "accepts fold_case Any c = False"

text \<open>The loop of \<^verbatim>\<open>match_tokens\<close>: the token, the position and the backtrack point.\<close>

partial_function (option) match_loop ::
  "token list \<Rightarrow> nat list \<Rightarrow> bool \<Rightarrow> nat \<Rightarrow> nat \<Rightarrow> (nat \<times> nat) option \<Rightarrow> bool option" where
  "match_loop tokens name fold_case tok pos star =
     (if pos < length name then
        (if tok < length tokens \<and> tokens ! tok = Any then
           match_loop tokens name fold_case (tok + 1) pos (Some (tok, pos))
         else if tok < length tokens \<and> accepts fold_case (tokens ! tok) (name ! pos) then
           match_loop tokens name fold_case (tok + 1) (pos + 1) star
         else
           (case star of
              Some (star_token, star_position) \<Rightarrow>
                match_loop tokens name fold_case (star_token + 1) (star_position + 1)
                  (Some (star_token, star_position + 1))
            | None \<Rightarrow> Some False))
      else Some (list_all (\<lambda>t. t = Any) (drop tok tokens)))"

text \<open>A loop that does not return would match nothing; \<open>match_loop_wild\<close> shows that it returns.\<close>

definition match_tokens :: "token list \<Rightarrow> nat list \<Rightarrow> bool \<Rightarrow> bool" where
  "match_tokens tokens name fold_case = (match_loop tokens name fold_case 0 0 None = Some True)"

fun match_segments :: "segment list \<Rightarrow> string list \<Rightarrow> bool \<Rightarrow> bool" where
  "match_segments [] parts fold_case = (parts = [])"
| "match_segments (Globstar # rest) parts fold_case =
     list_ex (\<lambda>skip. match_segments rest (drop skip parts) fold_case) [0..<Suc (length parts)]"
| "match_segments (Glob tokens # rest) parts fold_case =
     (case parts of
        [] \<Rightarrow> False
      | part # remaining \<Rightarrow>
          match_tokens tokens (code_points part) fold_case \<and> match_segments rest remaining fold_case)"

definition path_parts :: "string \<Rightarrow> string list" where
  "path_parts path = filter (\<lambda>part. part \<noteq> []) (split_on CHR ''/'' path)"

definition pattern_matches :: "path_pattern \<Rightarrow> string \<Rightarrow> bool \<Rightarrow> bool" where
  "pattern_matches p path fold_case =
     (let parts = path_parts path in
      parts \<noteq> [] \<and>
      list_ex (\<lambda>segments. list_ex (\<lambda>n. match_segments segments (take n parts) fold_case)
         [1..<Suc (length parts)]) (alternatives p))"

section \<open>What a token list matches\<close>

fun wild :: "bool \<Rightarrow> token list \<Rightarrow> nat list \<Rightarrow> bool" where
  "wild fc [] cs = (cs = [])"
| "wild fc (t # ts) cs =
     (if t = Any then \<exists>k\<le>length cs. wild fc ts (drop k cs)
      else cs \<noteq> [] \<and> accepts fc t (hd cs) \<and> wild fc ts (tl cs))"

lemma wild_Nil: "wild fc ts [] \<longleftrightarrow> list_all (\<lambda>t. t = Any) ts"
  by (induction ts) auto

lemma wild_star_skip: "wild fc (Any # ts) (drop k cs) \<Longrightarrow> wild fc (Any # ts) (drop j cs)" if "j \<le> k"
proof -
  assume "wild fc (Any # ts) (drop k cs)"
  then obtain m where m: "m \<le> length cs - k" "wild fc ts (drop (m + k) cs)" by auto
  show ?thesis
  proof (cases "k \<le> length cs")
    case True
    then show ?thesis using m that by (auto intro!: exI[of _ "m + k - j"])
  next
    case False
    then have "wild fc ts []" using m by simp
    then show ?thesis by (auto intro!: exI[of _ "length cs - j"])
  qed
qed

text \<open>Tokens without a star consume one character each.\<close>

lemma wild_fixed:
  assumes "wild fc (us @ ts) cs" "Any \<notin> set us"
  shows "length us \<le> length cs \<and> wild fc ts (drop (length us) cs)"
  using assms
proof (induction us arbitrary: cs)
  case (Cons u us)
  then show ?case by (cases cs) auto
qed simp

section \<open>One backtrack point is enough\<close>

text \<open>Behind the last star the loop has matched one character per token.\<close>

definition backtrack_ok :: "token list \<Rightarrow> nat list \<Rightarrow> nat \<Rightarrow> nat \<Rightarrow> (nat \<times> nat) option \<Rightarrow> bool" where
  "backtrack_ok tokens name tok pos star \<longleftrightarrow>
     tok \<le> length tokens \<and> pos \<le> length name \<and>
     (case star of
        None \<Rightarrow> True
      | Some (st, sp) \<Rightarrow> st < tok \<and> tokens ! st = Any \<and> pos = sp + (tok - Suc st) \<and>
          Any \<notin> set (take (tok - Suc st) (drop (Suc st) tokens)))"

text \<open>The matches that later starts behind the last star could still find.\<close>

definition later_match :: "bool \<Rightarrow> token list \<Rightarrow> nat list \<Rightarrow> (nat \<times> nat) option \<Rightarrow> bool" where
  "later_match fc tokens name star \<longleftrightarrow>
     (case star of
        None \<Rightarrow> False
      | Some (st, sp) \<Rightarrow> \<exists>k. sp < k \<and> k \<le> length name \<and> wild fc (drop (Suc st) tokens) (drop k name))"

definition still_matches :: "bool \<Rightarrow> token list \<Rightarrow> nat list \<Rightarrow> nat \<Rightarrow> nat \<Rightarrow> (nat \<times> nat) option \<Rightarrow> bool" where
  "still_matches fc tokens name tok pos star \<longleftrightarrow>
     wild fc (drop tok tokens) (drop pos name) \<or> later_match fc tokens name star"

lemma later_match_shift:
  assumes "backtrack_ok tokens name tok pos star" "later_match fc tokens name star"
  shows "\<exists>k. pos < k \<and> k \<le> length name \<and> wild fc (drop tok tokens) (drop k name)"
proof -
  from assms obtain st sp k where star: "star = Some (st, sp)" "st < tok" "pos = sp + (tok - Suc st)"
      "Any \<notin> set (take (tok - Suc st) (drop (Suc st) tokens))" "tok \<le> length tokens"
    and k: "sp < k" "k \<le> length name" "wild fc (drop (Suc st) tokens) (drop k name)"
    by (auto simp: backtrack_ok_def later_match_def split: option.splits)
  let ?n = "tok - Suc st"
  have "drop (Suc st) tokens = take ?n (drop (Suc st) tokens) @ drop tok tokens"
    using star(2) append_take_drop_id[of ?n "drop (Suc st) tokens"] by simp
  with k(3) have w: "wild fc (take ?n (drop (Suc st) tokens) @ drop tok tokens) (drop k name)" by simp
  have l: "length (take ?n (drop (Suc st) tokens)) = ?n" using star by simp
  from wild_fixed[OF w star(4), unfolded l] have "?n + k \<le> length name" "wild fc (drop tok tokens) (drop (?n + k) name)"
    using k(2) by (auto simp: add.commute)
  then show ?thesis using star(3) k(1) by (intro exI[of _ "?n + k"]) simp
qed

lemma still_matches_star:
  assumes ok: "backtrack_ok tokens name tok pos star" and tok: "tok < length tokens" "tokens ! tok = Any"
  shows "still_matches fc tokens name (Suc tok) pos (Some (tok, pos)) \<longleftrightarrow> still_matches fc tokens name tok pos star"
    and "backtrack_ok tokens name (Suc tok) pos (Some (tok, pos))"
proof -
  have d: "drop tok tokens = Any # drop (Suc tok) tokens" using tok Cons_nth_drop_Suc by metis
  have p: "pos \<le> length name" using ok by (simp add: backtrack_ok_def)
  have "wild fc (drop tok tokens) (drop pos name) \<longleftrightarrow>
      (\<exists>k. pos \<le> k \<and> k \<le> length name \<and> wild fc (drop (Suc tok) tokens) (drop k name))"
  proof
    assume "wild fc (drop tok tokens) (drop pos name)"
    then obtain k where "k \<le> length name - pos" "wild fc (drop (Suc tok) tokens) (drop (k + pos) name)"
      unfolding d by auto
    then show "\<exists>k. pos \<le> k \<and> k \<le> length name \<and> wild fc (drop (Suc tok) tokens) (drop k name)"
      using p by (intro exI[of _ "k + pos"]) simp
  next
    assume "\<exists>k. pos \<le> k \<and> k \<le> length name \<and> wild fc (drop (Suc tok) tokens) (drop k name)"
    then obtain k where "pos \<le> k" "k \<le> length name" "wild fc (drop (Suc tok) tokens) (drop k name)" by blast
    then show "wild fc (drop tok tokens) (drop pos name)"
      unfolding d by (auto intro!: exI[of _ "k - pos"])
  qed
  also have "\<dots> \<longleftrightarrow> still_matches fc tokens name (Suc tok) pos (Some (tok, pos))"
    using p by (auto simp: still_matches_def later_match_def le_less)
  finally have w: "wild fc (drop tok tokens) (drop pos name) \<longleftrightarrow>
      still_matches fc tokens name (Suc tok) pos (Some (tok, pos))" .
  have "later_match fc tokens name star \<Longrightarrow> wild fc (drop tok tokens) (drop pos name)"
    using later_match_shift[OF ok, of fc] wild_star_skip unfolding d by (metis less_imp_le)
  with w show "still_matches fc tokens name (Suc tok) pos (Some (tok, pos)) \<longleftrightarrow> still_matches fc tokens name tok pos star"
    by (auto simp: still_matches_def)
  show "backtrack_ok tokens name (Suc tok) pos (Some (tok, pos))"
    using ok tok by (simp add: backtrack_ok_def)
qed

lemma still_matches_step:
  assumes ok: "backtrack_ok tokens name tok pos star" and tok: "tok < length tokens" "tokens ! tok \<noteq> Any"
    and pos: "pos < length name" "accepts fc (tokens ! tok) (name ! pos)"
  shows "still_matches fc tokens name (Suc tok) (Suc pos) star \<longleftrightarrow> still_matches fc tokens name tok pos star"
    and "backtrack_ok tokens name (Suc tok) (Suc pos) star"
proof -
  have d: "drop tok tokens = tokens ! tok # drop (Suc tok) tokens" "drop pos name = name ! pos # drop (Suc pos) name"
    using tok(1) pos(1) by (simp_all add: Cons_nth_drop_Suc)
  show "still_matches fc tokens name (Suc tok) (Suc pos) star \<longleftrightarrow> still_matches fc tokens name tok pos star"
    using tok(2) pos(2) by (simp add: still_matches_def d)
  have "Any \<notin> set (take (Suc tok - Suc st) (drop (Suc st) tokens))"
    if "st < tok" "Any \<notin> set (take (tok - Suc st) (drop (Suc st) tokens))" for st
  proof -
    have "Suc tok - Suc st = Suc (tok - Suc st)" using that(1) by simp
    moreover have "take (Suc (tok - Suc st)) (drop (Suc st) tokens) =
        take (tok - Suc st) (drop (Suc st) tokens) @ [tokens ! tok]"
      using that(1) tok(1) by (subst take_Suc_conv_app_nth) auto
    ultimately show ?thesis using that(2) tok(2) by simp
  qed
  then show "backtrack_ok tokens name (Suc tok) (Suc pos) star"
    using ok tok(1) pos(1) by (auto simp: backtrack_ok_def split: option.splits)
qed

lemma wild_mismatch:
  assumes "pos < length name" "\<not> (tok < length tokens \<and> tokens ! tok = Any)"
    and "\<not> (tok < length tokens \<and> accepts fc (tokens ! tok) (name ! pos))"
  shows "\<not> wild fc (drop tok tokens) (drop pos name)"
proof (cases "tok < length tokens")
  case True
  then have "drop tok tokens = tokens ! tok # drop (Suc tok) tokens" by (simp add: Cons_nth_drop_Suc)
  then show ?thesis using assms True by (simp add: hd_drop_conv_nth)
qed (use assms in simp)

lemma later_match_next:
  assumes "sp < length name"
  shows "later_match fc tokens name (Some (st, sp)) \<longleftrightarrow>
    still_matches fc tokens name (Suc st) (Suc sp) (Some (st, Suc sp))"
proof -
  have "sp < k \<longleftrightarrow> k = Suc sp \<or> Suc sp < k" for k by linarith
  then show ?thesis
    using assms by (simp add: later_match_def still_matches_def conj_disj_distribR ex_disj_distrib Suc_le_eq)
qed

lemma match_loop_wild:
  assumes "backtrack_ok tokens name tok pos star"
  shows "match_loop tokens name fc tok pos star = Some (still_matches fc tokens name tok pos star)"
  using assms
proof (induction "(tok, star)" arbitrary: tok pos star
    rule: wf_induct_rule[OF wf_measures[of
      "[\<lambda>(tok, star). Suc (length name) - (case star of None \<Rightarrow> 0 | Some (st, sp) \<Rightarrow> Suc sp),
        \<lambda>(tok, star). length tokens - tok]"]])
  case (1 tok star)
  note ok = 1(2) and IH = 1(1)
  let ?star = "tok < length tokens \<and> tokens ! tok = Any"
  let ?step = "tok < length tokens \<and> accepts fc (tokens ! tok) (name ! pos)"
  have b: "tok \<le> length tokens" "pos \<le> length name" using ok by (auto simp: backtrack_ok_def)
  have sp: "sp \<le> pos" "st < tok" if "star = Some (st, sp)" for st sp
    using ok that by (auto simp: backtrack_ok_def)
  consider (stop) "pos = length name" | (star) "pos < length name" "?star"
    | (step) "pos < length name" "\<not> ?star" "?step" | (miss) "pos < length name" "\<not> ?star" "\<not> ?step"
    using b(2) by linarith
  then show ?case
  proof cases
    case stop
    have "\<not> later_match fc tokens name star" using later_match_shift[OF ok, of fc] stop by auto
    with stop show ?thesis by (subst match_loop.simps) (simp add: still_matches_def wild_Nil)
  next
    case star
    note s = still_matches_star[OF ok conjunct1[OF star(2)] conjunct2[OF star(2)]]
    have "match_loop tokens name fc (Suc tok) pos (Some (tok, pos)) =
        Some (still_matches fc tokens name (Suc tok) pos (Some (tok, pos)))"
      using star sp b by (intro IH s(2)) (auto split: option.splits)
    then show ?thesis using star s(1) by (subst match_loop.simps) simp
  next
    case step
    then have t: "tok < length tokens" "tokens ! tok \<noteq> Any" "accepts fc (tokens ! tok) (name ! pos)" by auto
    note s = still_matches_step[OF ok t(1,2) step(1) t(3)]
    have "match_loop tokens name fc (Suc tok) (Suc pos) star =
        Some (still_matches fc tokens name (Suc tok) (Suc pos) star)"
      using t by (intro IH s(2)) (auto split: option.splits)
    then show ?thesis using step s(1) by (subst match_loop.simps) simp
  next
    case miss
    have w: "\<not> wild fc (drop tok tokens) (drop pos name)" by (rule wild_mismatch[OF miss])
    show ?thesis
    proof (cases star)
      case None
      then show ?thesis using miss w
        by (subst match_loop.simps) (auto simp: still_matches_def later_match_def)
    next
      case (Some q)
      then obtain st sp' where q: "star = Some (st, sp')" by (cases q) auto
      have n: "backtrack_ok tokens name (Suc st) (Suc sp') (Some (st, Suc sp'))"
        using ok sp[OF q] miss(1) by (auto simp: backtrack_ok_def q)
      have "match_loop tokens name fc (Suc st) (Suc sp') (Some (st, Suc sp')) =
          Some (still_matches fc tokens name (Suc st) (Suc sp') (Some (st, Suc sp')))"
        using sp[OF q] miss(1) q by (intro IH n) auto
      then show ?thesis
        using miss w sp[OF q] later_match_next[of sp' name fc tokens st] q
        by (subst match_loop.simps) (auto simp: still_matches_def[of fc tokens name tok])
    qed
  qed
qed

lemma match_tokens_wild: "match_tokens tokens name fc = wild fc tokens name"
proof -
  have "backtrack_ok tokens name 0 0 None" by (simp add: backtrack_ok_def)
  from match_loop_wild[OF this, of fc] show ?thesis
    by (simp add: match_tokens_def still_matches_def later_match_def)
qed

section \<open>What a segment list covers\<close>

inductive covers :: "bool \<Rightarrow> segment list \<Rightarrow> string list \<Rightarrow> bool" for fc where
  covers_Nil: "covers fc [] []"
| covers_Globstar: "covers fc rest ys \<Longrightarrow> covers fc (Globstar # rest) (xs @ ys)"
| covers_Glob: "wild fc tokens (code_points part) \<Longrightarrow> covers fc rest parts \<Longrightarrow>
    covers fc (Glob tokens # rest) (part # parts)"

inductive_cases covers_NilE: "covers fc [] parts"
inductive_cases covers_GlobstarE: "covers fc (Globstar # rest) parts"
inductive_cases covers_GlobE: "covers fc (Glob tokens # rest) parts"

lemma match_segments_covers: "match_segments segments parts fc = covers fc segments parts"
proof (induction segments parts fc rule: match_segments.induct)
  case (1 parts fc)
  then show ?case by (auto intro: covers_Nil elim: covers_NilE)
next
  case (2 rest parts fc)
  have "covers fc (Globstar # rest) parts \<longleftrightarrow> (\<exists>skip<Suc (length parts). covers fc rest (drop skip parts))"
  proof
    assume "covers fc (Globstar # rest) parts"
    then obtain xs ys where "parts = xs @ ys" "covers fc rest ys" by (auto elim: covers_GlobstarE)
    then show "\<exists>skip<Suc (length parts). covers fc rest (drop skip parts)"
      by (intro exI[of _ "length xs"]) auto
  next
    assume "\<exists>skip<Suc (length parts). covers fc rest (drop skip parts)"
    then obtain skip where "covers fc rest (drop skip parts)" by blast
    from covers_Globstar[OF this, of "take skip parts"] show "covers fc (Globstar # rest) parts" by simp
  qed
  moreover have "match_segments rest (drop skip parts) fc = covers fc rest (drop skip parts)"
    if "skip < Suc (length parts)" for skip
    using 2[of skip] that by (simp del: upt_Suc)
  ultimately show ?case by (auto simp: list_ex_iff simp del: upt_Suc)
next
  case (3 tokens rest parts fc)
  then show ?case
    by (cases parts) (auto simp: match_tokens_wild intro: covers_Glob elim: covers_GlobE)
qed

lemma pattern_matches_covers:
  "pattern_matches p path fc \<longleftrightarrow>
     (\<exists>segments\<in>set (alternatives p). \<exists>n\<in>{1..length (path_parts path)}. covers fc segments (take n (path_parts path)))"
  by (auto simp: pattern_matches_def Let_def list_ex_iff match_segments_covers Bex_def less_Suc_eq_le
      simp del: upt_Suc)

lemma path_parts_append: "path_parts (path @ CHR ''/'' # sub) = path_parts path @ path_parts sub"
  by (simp add: path_parts_def split_on_append)

text \<open>A pattern that matches a folder matches everything inside it.\<close>

lemma folder_covers_contents:
  assumes "pattern_matches p path fc"
  shows "pattern_matches p (path @ CHR ''/'' # sub) fc"
proof -
  from assms obtain segments n where "segments \<in> set (alternatives p)" "1 \<le> n" "n \<le> length (path_parts path)"
      "covers fc segments (take n (path_parts path))"
    unfolding pattern_matches_covers by auto
  then show ?thesis
    unfolding pattern_matches_covers path_parts_append by (intro bexI[of _ segments] bexI[of _ n]) auto
qed

section \<open>Alternatives\<close>

lemma push_options_bound:
  "push_options pre rest options res = Inr out \<Longrightarrow>
   out = res @ map (\<lambda>option. pre @ option @ rest) options \<and>
   (length out \<le> MAX_ALTERNATIVES \<or> options = [])"
proof (induction options arbitrary: res)
  case (Cons option options)
  then have "push_options pre rest options (res @ [pre @ option @ rest]) = Inr out"
      "length (res @ [pre @ option @ rest]) \<le> MAX_ALTERNATIVES"
    by (auto simp: Let_def split: if_splits)
  with Cons.IH[OF this(1)] show ?case by auto
qed simp

lemma push_rests_bound:
  "push_rests pre options rests res = Inr out \<Longrightarrow> length res \<le> MAX_ALTERNATIVES \<Longrightarrow>
   length out \<le> MAX_ALTERNATIVES \<and>
   out = res @ concat (map (\<lambda>rest. map (\<lambda>option. pre @ option @ rest) options) rests)"
proof (induction rests arbitrary: res)
  case (Cons rest rests)
  then obtain mid where m: "push_options pre rest options res = Inr mid" "push_rests pre options rests mid = Inr out"
    by auto
  then show ?case using push_options_bound[OF m(1)] Cons.IH[OF m(2)] Cons.prems(2) by auto
qed simp

lemma expand_braces_plain:
  "position (\<lambda>c. c = CHR ''{'') s = None \<Longrightarrow>
   expand_braces s = (if CHR ''}'' \<in> set s then Inl PatBrace else Inr [s])"
  by (subst expand_braces.simps) (simp only: option.case)

lemma expand_braces_unclosed:
  "position (\<lambda>c. c = CHR ''{'') s = Some i \<Longrightarrow> position (\<lambda>c. c = CHR ''}'') (drop i s) = None \<Longrightarrow>
   expand_braces s = Inl PatBrace"
  by (subst expand_braces.simps) (simp only: option.case)

lemma expand_braces_group:
  assumes "position (\<lambda>c. c = CHR ''{'') s = Some i" "position (\<lambda>c. c = CHR ''}'') (drop i s) = Some n"
    and "expand_braces s = Inr out"
    and "inner = take (n - 1) (drop (i + 1) s)" "options = split_on CHR '','' inner"
  obtains rests where "\<not> (CHR ''{'' \<in> set inner \<or> CHR ''/'' \<in> set inner)"
    "\<not> (length options < 2 \<or> [] \<in> set options)" "CHR ''}'' \<notin> set (take i s)"
    "expand_braces (drop (i + n + 1) s) = Inr rests" "push_rests (take i s) options rests [] = Inr out"
proof -
  have "(if CHR ''{'' \<in> set inner \<or> CHR ''/'' \<in> set inner then Inl PatBrace
         else if length options < 2 \<or> [] \<in> set options then Inl PatBrace
         else if CHR ''}'' \<in> set (take i s) then Inl PatBrace
         else and_then (expand_braces (drop (i + n + 1) s)) (\<lambda>rests. push_rests (take i s) options rests [])) = Inr out"
    using assms(3) by (subst (asm) expand_braces.simps) (simp only: assms(1,2,4,5) option.case Let_def)
  then show ?thesis using that by (auto split: if_splits)
qed

text \<open>The expansion of a pattern has at most 64 alternatives, at least one, and no brace is left.\<close>

lemma expand_braces_ok:
  assumes "expand_braces s = Inr out"
  shows "length out \<le> MAX_ALTERNATIVES \<and> out \<noteq> [] \<and>
    (\<forall>e\<in>set out. CHR ''{'' \<notin> set e \<and> CHR ''}'' \<notin> set e)"
  using assms
proof (induction s arbitrary: out rule: expand_braces.induct)
  case (1 s)
  show ?case
  proof (cases "position (\<lambda>c. c = CHR ''{'') s")
    case None
    then have o: "CHR ''{'' \<notin> set s" by simp blast
    have "CHR ''}'' \<notin> set s" "out = [s]"
      using 1(2) unfolding expand_braces_plain[OF None] by (simp_all split: if_splits)
    with o show ?thesis by (simp add: MAX_ALTERNATIVES_def)
  next
    case (Some i)
    then obtain n where n: "position (\<lambda>c. c = CHR ''}'') (drop i s) = Some n"
      using 1(2) expand_braces_unclosed[OF Some] by (cases "position (\<lambda>c. c = CHR ''}'') (drop i s)") auto
    let ?inner = "take (n - 1) (drop (i + 1) s)"
    let ?options = "split_on CHR '','' ?inner"
    obtain rests where g: "\<not> (CHR ''{'' \<in> set ?inner \<or> CHR ''/'' \<in> set ?inner)"
        "\<not> (length ?options < 2 \<or> [] \<in> set ?options)" "CHR ''}'' \<notin> set (take i s)"
        "expand_braces (drop (i + n + 1) s) = Inr rests" "push_rests (take i s) ?options rests [] = Inr out"
      by (rule expand_braces_group[OF Some n 1(2) refl refl])
    have IH: "length rests \<le> MAX_ALTERNATIVES \<and> rests \<noteq> [] \<and>
        (\<forall>e\<in>set rests. CHR ''{'' \<notin> set e \<and> CHR ''}'' \<notin> set e)"
      using 1(1)[OF Some n refl refl refl g(1-4)] .
    from position_Some[OF Some] have "CHR ''{'' \<notin> set (take i s)"
      by (auto simp: in_set_conv_nth)
    moreover have "CHR ''}'' \<notin> set ?inner"
    proof
      assume "CHR ''}'' \<in> set ?inner"
      then obtain k where "k < n - 1" "Suc k < length (drop i s)" "drop i s ! Suc k = CHR ''}''"
        by (auto simp: in_set_conv_nth)
      then show False using position_Some[OF n] by (metis Suc_less_eq less_diff_conv Suc_eq_plus1)
    qed
    moreover have "set x \<subseteq> set ?inner" if "x \<in> set ?options" for x
      using split_on_chars[OF that] by blast
    ultimately have "CHR ''{'' \<notin> set e \<and> CHR ''}'' \<notin> set e" if "e \<in> set out" for e
      using push_rests_bound[OF g(5)] IH g(1,3) that by auto blast+
    then show ?thesis using push_rests_bound[OF g(5)] IH g(2) by (cases rests) (auto simp: MAX_ALTERNATIVES_def)
  qed
qed

lemma try_map_ok: "try_map f xs = Inr ys \<longleftrightarrow> list_all2 (\<lambda>x y. f x = Inr y) xs ys"
  by (induction xs arbitrary: ys) (auto simp: list_all2_Cons1)

lemma split_on_parses: "split_on c s = xs \<Longrightarrow> list_all2 R xs ys \<Longrightarrow> ys \<noteq> []"
  using split_on_ne[of c s] by auto

lemma parse_pattern_bounded:
  assumes "parse_pattern s = Inr p"
  shows "1 \<le> length (alternatives p)" "length (alternatives p) \<le> MAX_ALTERNATIVES" "[] \<notin> set (alternatives p)"
proof -
  from assms obtain out where out: "expand_braces (strip_slash s) = Inr out"
      "list_all2 (\<lambda>e segs. parse_alternative (CHR ''/'' \<in> set (strip_slash s)) e = Inr segs) out (alternatives p)"
    by (auto simp: parse_pattern_def Let_def try_map_ok split: if_splits)
  have "length (alternatives p) = length out" using out(2) by (simp add: list_all2_lengthD)
  then show "1 \<le> length (alternatives p)" "length (alternatives p) \<le> MAX_ALTERNATIVES"
    using expand_braces_ok[OF out(1)] by (cases out; simp)+
  have "segs \<noteq> []" if "parse_alternative b e = Inr segs" for b e segs
    using that split_on_parses[OF refl] by (auto simp: parse_alternative_def try_map_ok split: if_splits)
  then show "[] \<notin> set (alternatives p)"
    using out(2) by (auto simp: list_all2_conv_all_nth in_set_conv_nth)
qed

section \<open>Properties\<close>

text \<open>C30. Matching is exact and always ends: the loop with a single backtrack point returns whether the
  tokens of a segment match a name, and a path matches a pattern exactly when one of its
  alternatives covers the path or a folder that contains it.\<close>

theorem pattern_matching_exact:
  "match_loop tokens name fc 0 0 None = Some (wild fc tokens name) \<and>
   (pattern_matches p path fc \<longleftrightarrow>
     (\<exists>segments\<in>set (alternatives p). \<exists>n\<in>{1..length (path_parts path)}.
        covers fc segments (take n (path_parts path))))"
proof -
  have "backtrack_ok tokens name 0 0 None" by (simp add: backtrack_ok_def)
  from match_loop_wild[OF this, of fc] show ?thesis
    by (simp add: still_matches_def later_match_def pattern_matches_covers)
qed

end
