(* ===== verification/Schedules.thy ===== *)
theory Schedules
  imports Automation_Paths Json "HOL-Library.Sublist"
begin

text \<open>
  Calendar, interval and event triggers of launch commands
  (\<^verbatim>\<open>src/apps/desktop/src-tauri/src/orchestration_schedule.rs\<close>): validation, due times, the bounded
  history of occurrences and the identities of occurrences.

  An instant (\<^verbatim>\<open>DateTime<Utc>\<close>) is its number of nanoseconds since 1970, a date its day number, a local
  date and time its number of seconds, a duration its number of milliseconds. The crates \<^verbatim>\<open>chrono\<close>,
  \<^verbatim>\<open>chrono_tz\<close> and \<^verbatim>\<open>sha2\<close> are the fields of the record \<open>chrono\<close> and the argument \<open>sha256\<close>; what the
  theorems use of them is \<open>chrono_laws\<close>. Dates are taken to lie within the years that \<^verbatim>\<open>chrono\<close>
  supports (the operators on dates panic outside).
\<close>

type_synonym instant = int
type_synonym date = int

datatype local_result = LocalSingle instant | LocalAmbiguous instant instant | LocalNone

record 'z chrono =
  min_utc :: instant
  max_utc :: instant
  checked_add_signed :: "instant \<Rightarrow> int \<Rightarrow> instant option"
  try_seconds :: "int \<Rightarrow> int option"
  parse_zone :: "string \<Rightarrow> 'z option"
  from_local_datetime :: "'z \<Rightarrow> int \<Rightarrow> local_result"
  date_in_zone :: "'z \<Rightarrow> instant \<Rightarrow> date"

section \<open>Triggers\<close>

datatype interval_unit = Minutes | Hours

datatype finished_outcome = FinishedSucceeded | FinishedFailed | FinishedCancelled

definition MIN_DEBOUNCE_SECONDS :: "32 word" where "MIN_DEBOUNCE_SECONDS = 2"
definition MAX_DEBOUNCE_SECONDS :: "32 word" where "MAX_DEBOUNCE_SECONDS = 3600"

datatype event_trigger =
    RunFinished (event_launch_command_id: string) (event_outcomes: "finished_outcome list")
  | FilesChanged (event_include: "string list") (event_exclude: "string list") (event_debounce: "32 word")

datatype schedule_trigger =
    Once instant string
  | Interval "64 word" interval_unit instant string
  | Calendar string "8 word list" instant string
  | Event event_trigger

text \<open>The derived order of the outcomes.\<close>

fun outcome_rank :: "finished_outcome \<Rightarrow> nat" where
  "outcome_rank FinishedSucceeded = 0"
| "outcome_rank FinishedFailed = 1"
| "outcome_rank FinishedCancelled = 2"

lemma outcome_rank_inj: "outcome_rank a = outcome_rank b \<Longrightarrow> a = b"
  by (cases a; cases b) simp_all

instantiation finished_outcome :: linorder
begin

definition less_eq_finished_outcome :: "finished_outcome \<Rightarrow> finished_outcome \<Rightarrow> bool" where
  "a \<le> b \<longleftrightarrow> outcome_rank a \<le> outcome_rank b"

definition less_finished_outcome :: "finished_outcome \<Rightarrow> finished_outcome \<Rightarrow> bool" where
  "a < b \<longleftrightarrow> outcome_rank a < outcome_rank b"

instance
  by standard (auto simp: less_eq_finished_outcome_def less_finished_outcome_def outcome_rank_inj)

end

text \<open>Sorting, removing repetitions and comparing the lengths tests for duplicates.\<close>

definition no_duplicates :: "finished_outcome list \<Rightarrow> bool" where
  "no_duplicates outcomes \<longleftrightarrow> length (dedup (sort outcomes)) = length outcomes"

fun event_valid :: "event_trigger \<Rightarrow> bool" where
  "event_valid (RunFinished launch outcomes) =
     (\<not> is_blank_text launch \<and> outcomes \<noteq> [] \<and> no_duplicates outcomes)"
| "event_valid (FilesChanged inc exc debounce) =
     (inc \<noteq> [] \<and> length inc \<le> MAX_PATTERNS \<and> length exc \<le> MAX_PATTERNS \<and>
      is_ok (parse_patterns inc) \<and> is_ok (parse_patterns exc) \<and>
      MIN_DEBOUNCE_SECONDS \<le> debounce \<and> debounce \<le> MAX_DEBOUNCE_SECONDS)"

fun source_launch_command_id :: "event_trigger \<Rightarrow> string option" where
  "source_launch_command_id (RunFinished launch _) = Some launch"
| "source_launch_command_id (FilesChanged _ _ _) = None"

section \<open>Calendar rules\<close>

record 'z calendar_rule =
  rule_time :: int
  rule_days :: "bool list"
  rule_zone :: 'z
  rule_starts_at :: instant

definition MAX_GAP_MINUTES :: nat where "MAX_GAP_MINUTES = 180"
definition SEARCH_DAYS :: nat where "SEARCH_DAYS = 9"

text \<open>Two digits, as \<^verbatim>\<open>parse\<close> reads them.\<close>

definition two_digits :: "string \<Rightarrow> int option" where
  "two_digits s = (case s of
     [a, b] \<Rightarrow> if is_ascii_digit a \<and> is_ascii_digit b
       then Some (int (10 * (byte_val a - 48) + (byte_val b - 48))) else None
   | _ \<Rightarrow> None)"

text \<open>\<^verbatim>\<open>NaiveTime::from_hms_opt\<close> refuses hours above 23 and minutes above 59.\<close>

definition parse_local_time :: "string \<Rightarrow> int option" where
  "parse_local_time v =
     Option.bind (split_once CHR '':'' v) (\<lambda>(hour, minute).
     Option.bind (two_digits hour) (\<lambda>h. Option.bind (two_digits minute) (\<lambda>m.
       if h \<le> 23 \<and> m \<le> 59 then Some (h * 3600 + m * 60) else None)))"

fun mask_days :: "8 word list \<Rightarrow> bool list \<Rightarrow> bool list option" where
  "mask_days [] chosen = Some chosen"
| "mask_days (day # days) chosen =
     (if day = 0 then None
      else let index = unat day - 1 in
        if 7 \<le> index \<or> chosen ! index then None else mask_days days (chosen[index := True]))"

definition calendar_parse ::
  "'z chrono \<Rightarrow> string \<Rightarrow> 8 word list \<Rightarrow> instant \<Rightarrow> string \<Rightarrow> 'z calendar_rule option" where
  "calendar_parse ch time days starts_at zone =
     Option.bind (parse_local_time time) (\<lambda>t.
     Option.bind (parse_zone ch zone) (\<lambda>z.
       if days = [] \<or> 7 < length days then None
       else Option.bind (mask_days days (replicate 7 False)) (\<lambda>chosen.
         Some \<lparr>rule_time = t, rule_days = chosen, rule_zone = z, rule_starts_at = starts_at\<rparr>)))"

text \<open>Day 0 is a Thursday.\<close>

definition days_from_monday :: "date \<Rightarrow> nat" where
  "days_from_monday d = nat ((d + 3) mod 7)"

definition runs_on :: "'z calendar_rule \<Rightarrow> date \<Rightarrow> bool" where
  "runs_on rule d \<longleftrightarrow>
     (let index = days_from_monday d in index < length (rule_days rule) \<and> rule_days rule ! index)"

fun resolve_local :: "local_result \<Rightarrow> instant option" where
  "resolve_local (LocalSingle v) = Some v"
| "resolve_local (LocalAmbiguous earliest _) = Some earliest"
| "resolve_local LocalNone = None"

definition occurrence_on :: "'z chrono \<Rightarrow> 'z calendar_rule \<Rightarrow> date \<Rightarrow> instant option" where
  "occurrence_on ch rule d =
     (if \<not> runs_on rule d then None
      else let loc = d * 86400 + rule_time rule;
               resolve = (\<lambda>l. resolve_local (from_local_datetime ch (rule_zone rule) l)) in
        (case resolve loc of
           Some v \<Rightarrow> Some v
         | None \<Rightarrow> find_map (\<lambda>minutes. resolve (loc + int minutes * 60)) [1..<Suc MAX_GAP_MINUTES]))"

definition ms :: int where "ms = 1000000"

definition calendar_first_after :: "'z chrono \<Rightarrow> 'z calendar_rule \<Rightarrow> instant \<Rightarrow> instant option" where
  "calendar_first_after ch rule t =
     (let least = max t (rule_starts_at rule - ms); start = date_in_zone ch (rule_zone rule) least - 1 in
      find (\<lambda>candidate. least < candidate \<and> rule_starts_at rule \<le> candidate)
        (List.map_filter (\<lambda>offset. occurrence_on ch rule (start + int offset)) [0..<Suc SEARCH_DAYS]))"

definition calendar_latest :: "'z chrono \<Rightarrow> 'z calendar_rule \<Rightarrow> instant \<Rightarrow> instant option" where
  "calendar_latest ch rule t =
     (if t < rule_starts_at rule then None
      else let stop = date_in_zone ch (rule_zone rule) t + 1 in
        find (\<lambda>candidate. candidate \<le> t \<and> rule_starts_at rule \<le> candidate)
          (List.map_filter (\<lambda>offset. occurrence_on ch rule (stop - int offset)) [0..<Suc SEARCH_DAYS]))"

section \<open>Due times\<close>

fun trigger_time_zone :: "schedule_trigger \<Rightarrow> string option" where
  "trigger_time_zone (Once _ z) = Some z"
| "trigger_time_zone (Interval _ _ _ z) = Some z"
| "trigger_time_zone (Calendar _ _ _ z) = Some z"
| "trigger_time_zone (Event _) = None"

fun trigger_event :: "schedule_trigger \<Rightarrow> event_trigger option" where
  "trigger_event (Event e) = Some e"
| "trigger_event _ = None"

fun trigger_calendar :: "'z chrono \<Rightarrow> schedule_trigger \<Rightarrow> 'z calendar_rule option" where
  "trigger_calendar ch (Calendar time days starts_at zone) = calendar_parse ch time days starts_at zone"
| "trigger_calendar ch _ = None"

fun is_calendar :: "schedule_trigger \<Rightarrow> bool" where
  "is_calendar (Calendar _ _ _ _) = True"
| "is_calendar _ = False"

definition calendar_valid :: "'z chrono \<Rightarrow> schedule_trigger \<Rightarrow> bool" where
  "calendar_valid ch tr \<longleftrightarrow> \<not> is_calendar tr \<or> trigger_calendar ch tr \<noteq> None"

fun initial_due :: "'z chrono \<Rightarrow> schedule_trigger \<Rightarrow> instant option" where
  "initial_due ch (Once due _) = Some due"
| "initial_due ch (Interval _ _ anchor _) = Some anchor"
| "initial_due ch (Calendar time days starts_at zone) =
     Some (case Option.bind (calendar_parse ch time days starts_at zone)
                  (\<lambda>rule. calendar_first_after ch rule (starts_at - ms)) of
             Some due \<Rightarrow> due
           | None \<Rightarrow> starts_at)"
| "initial_due ch (Event _) = None"

text \<open>Checked \<^verbatim>\<open>i64\<close> arithmetic.\<close>

definition i64 :: "int \<Rightarrow> int option" where
  "i64 x = (if - (2 ^ 63) \<le> x \<and> x < 2 ^ 63 then Some x else None)"

definition unit_seconds :: "interval_unit \<Rightarrow> int" where
  "unit_seconds u = (case u of Minutes \<Rightarrow> 60 | Hours \<Rightarrow> 3600)"

fun interval_duration :: "'z chrono \<Rightarrow> schedule_trigger \<Rightarrow> int option" where
  "interval_duration ch (Interval every u _ _) =
     Option.bind (keep_if (\<lambda>v. 0 < v) (i64 (uint every))) (\<lambda>every.
     Option.bind (i64 (every * unit_seconds u)) (try_seconds ch))"
| "interval_duration ch _ = Some 0"

definition timestamp_millis :: "instant \<Rightarrow> int" where
  "timestamp_millis t = t div ms"

text \<open>\<^verbatim>\<open>checked_div\<close> of numbers that are not negative: only a zero divisor fails.\<close>

definition interval_steps :: "'z chrono \<Rightarrow> schedule_trigger \<Rightarrow> instant \<Rightarrow> instant \<Rightarrow> (int \<times> int) option" where
  "interval_steps ch tr anchor t =
     Option.bind (interval_duration ch tr) (\<lambda>duration.
     Option.bind (i64 (timestamp_millis t - timestamp_millis anchor)) (\<lambda>elapsed.
       if duration = 0 then None else Some (duration, elapsed div duration)))"

fun latest_at_or_before :: "'z chrono \<Rightarrow> schedule_trigger \<Rightarrow> instant \<Rightarrow> instant option" where
  "latest_at_or_before ch (Calendar time days starts_at zone) t =
     Option.bind (calendar_parse ch time days starts_at zone) (\<lambda>rule. calendar_latest ch rule t)"
| "latest_at_or_before ch (Interval every u anchor zone) t =
     (if t < anchor then None
      else Option.bind (interval_steps ch (Interval every u anchor zone) anchor t) (\<lambda>(duration, steps).
        Option.bind (i64 (duration * steps)) (checked_add_signed ch anchor)))"
| "latest_at_or_before ch tr t = keep_if (\<lambda>due. due \<le> t) (initial_due ch tr)"

fun first_after :: "'z chrono \<Rightarrow> schedule_trigger \<Rightarrow> instant \<Rightarrow> instant option" where
  "first_after ch (Once _ _) t = None"
| "first_after ch (Event _) t = None"
| "first_after ch (Calendar time days starts_at zone) t =
     Option.bind (calendar_parse ch time days starts_at zone) (\<lambda>rule. calendar_first_after ch rule t)"
| "first_after ch (Interval every u anchor zone) t =
     (if t < anchor then Some anchor
      else Option.bind (interval_steps ch (Interval every u anchor zone) anchor t) (\<lambda>(duration, steps).
        Option.bind (i64 (steps + 1)) (\<lambda>steps.
        Option.bind (i64 (duration * steps)) (checked_add_signed ch anchor))))"

section \<open>Definitions\<close>

datatype missed_run_policy = MissedSkip | MissedCoalesce

datatype overlap_policy = OverlapAllow | OverlapSkip

record schedule_definition =
  schedule_id :: string
  schedule_name :: string
  schedule_launch_command_id :: string
  schedule_trigger_of :: schedule_trigger
  schedule_missed_run_policy :: missed_run_policy
  schedule_overlap_policy :: overlap_policy
  schedule_inputs :: json_map

definition schedule_validate :: "'z chrono \<Rightarrow> schedule_definition \<Rightarrow> bool" where
  "schedule_validate ch d \<longleftrightarrow>
     (let tr = schedule_trigger_of d;
          timing = (case tr of
              Event e \<Rightarrow> event_valid e \<and> schedule_missed_run_policy d = MissedSkip
            | _ \<Rightarrow> is_some_and (trigger_time_zone tr) (\<lambda>zone. \<not> is_blank_text zone)) in
      \<not> is_blank_text (schedule_id d) \<and> \<not> is_blank_text (schedule_name d) \<and>
      \<not> is_blank_text (schedule_launch_command_id d) \<and> timing \<and>
      interval_duration ch tr \<noteq> None \<and> calendar_valid ch tr)"

definition execution_equals :: "schedule_definition \<Rightarrow> schedule_definition \<Rightarrow> bool" where
  "execution_equals a b \<longleftrightarrow>
     schedule_launch_command_id a = schedule_launch_command_id b \<and>
     schedule_trigger_of a = schedule_trigger_of b \<and>
     schedule_missed_run_policy a = schedule_missed_run_policy b \<and>
     schedule_overlap_policy a = schedule_overlap_policy b \<and>
     schedule_inputs a = schedule_inputs b"

section \<open>Occurrences\<close>

datatype schedule_occurrence_outcome =
    OccurrenceStarted | SkippedMissed | SkippedOverlap | OccurrenceFailed | SkippedChainLimit
  | SkippedCooldown | SkippedPaused

record schedule_occurrence =
  occurrence_identity :: string
  occurrence_nominal_at :: instant
  occurrence_recorded_at :: instant
  occurrence_outcome :: schedule_occurrence_outcome
  occurrence_run_id :: "string option"
  occurrence_failure_code :: "string option"
  occurrence_source_run_id :: "string option"
  occurrence_chain_depth :: "8 word option"

definition MAX_STORED_OCCURRENCES :: nat where "MAX_STORED_OCCURRENCES = 200"

definition droppable :: "(string \<Rightarrow> bool) \<Rightarrow> schedule_occurrence \<Rightarrow> bool" where
  "droppable run_active o' = is_none_or (occurrence_run_id o') (\<lambda>run. \<not> run_active run)"

function trim_occurrences ::
  "(string \<Rightarrow> bool) \<Rightarrow> schedule_occurrence list \<Rightarrow> schedule_occurrence list" where
  "trim_occurrences run_active os =
     (if length os \<le> MAX_STORED_OCCURRENCES then os
      else case position (droppable run_active) os of
        None \<Rightarrow> os
      | Some i \<Rightarrow> trim_occurrences run_active (take i os @ drop (Suc i) os))"
  by pat_completeness auto
termination
  by (relation "measure (length \<circ> snd)") (auto dest: position_Some)

declare trim_occurrences.simps [simp del]

definition push_occurrence ::
  "schedule_occurrence list \<Rightarrow> schedule_occurrence \<Rightarrow> (string \<Rightarrow> bool) \<Rightarrow> schedule_occurrence list" where
  "push_occurrence os o' run_active = trim_occurrences run_active (os @ [o'])"

record stored_schedule =
  stored_revision :: "64 word"
  stored_trigger_revision :: "64 word"
  stored_value :: schedule_definition
  stored_enabled :: bool
  stored_enabled_launch_command_revision :: "64 word option"
  stored_next_due_at :: "instant option"
  stored_occurrences :: "schedule_occurrence list"

record schedule_snapshot =
  snapshot_revision :: "64 word"
  snapshot_trigger_revision :: "64 word"
  snapshot_value :: schedule_definition
  snapshot_enabled :: bool
  snapshot_next_due_at :: "instant option"
  snapshot_last_occurrence :: "schedule_occurrence option"

definition schedule_snapshot_of :: "stored_schedule \<Rightarrow> schedule_snapshot" where
  "schedule_snapshot_of s =
     \<lparr>snapshot_revision = stored_revision s, snapshot_trigger_revision = stored_trigger_revision s,
      snapshot_value = stored_value s, snapshot_enabled = stored_enabled s,
      snapshot_next_due_at = stored_next_due_at s,
      snapshot_last_occurrence =
        (if stored_occurrences s = [] then None else Some (last (stored_occurrences s)))\<rparr>"

section \<open>Identities\<close>

text \<open>\<^verbatim>\<open>to_be_bytes\<close> of a 64-bit number.\<close>

definition be_bytes :: "64 word \<Rightarrow> string" where
  "be_bytes w = map (\<lambda>i. char_of (unat (drop_bit (56 - 8 * i) w) mod 256)) [0..<8]"

definition hex_digit :: "nat \<Rightarrow> char" where
  "hex_digit n = (if n < 10 then char_of (48 + n) else char_of (87 + n))"

definition hex_identity :: "string \<Rightarrow> string \<Rightarrow> string" where
  "hex_identity pre digest =
     pre @ concat (map (\<lambda>b. [hex_digit (byte_val b div 16), hex_digit (byte_val b mod 16)]) digest)"

definition occurrence_id :: "(string \<Rightarrow> string) \<Rightarrow> string \<Rightarrow> 64 word \<Rightarrow> instant \<Rightarrow> string" where
  "occurrence_id sha256 sid trev nominal_at =
     hex_identity ''schedule-''
       (sha256 (sid @ [CHR 0x00] @ be_bytes trev @ [CHR 0x00] @ be_bytes (word_of_int (timestamp_millis nominal_at))))"

definition event_occurrence_id :: "(string \<Rightarrow> string) \<Rightarrow> string \<Rightarrow> 64 word \<Rightarrow> string \<Rightarrow> string" where
  "event_occurrence_id sha256 sid trev cause =
     hex_identity ''event-'' (sha256 (sid @ [CHR 0x00] @ be_bytes trev @ [CHR 0x00] @ cause))"

section \<open>What the code relies on of \<^verbatim>\<open>chrono\<close>\<close>

text \<open>\<^verbatim>\<open>checked_add_signed\<close> adds and fails exactly outside the range of \<^verbatim>\<open>DateTime<Utc>\<close>, which spans some
  524,000 years; \<^verbatim>\<open>try_seconds\<close> makes a duration of that many seconds.\<close>

definition chrono_laws :: "'z chrono \<Rightarrow> bool" where
  "chrono_laws ch \<longleftrightarrow>
     (\<forall>t d. checked_add_signed ch t d =
        (if min_utc ch \<le> t + d * ms \<and> t + d * ms \<le> max_utc ch then Some (t + d * ms) else None)) \<and>
     (\<forall>s d. try_seconds ch s = Some d \<longrightarrow> d = s * 1000) \<and>
     - (2 ^ 62) \<le> min_utc ch div ms \<and> max_utc ch div ms < 2 ^ 62"

section \<open>Validation\<close>

lemma dedup_sorted:
  "sorted xs \<Longrightarrow> length (dedup xs) = length xs \<longleftrightarrow> distinct xs" for xs :: "'a::linorder list"
proof (induction xs rule: dedup.induct)
  case (3 x y xs)
  have "length (dedup (y # xs)) \<le> length (y # xs)" by (rule length_dedup)
  then show ?case using 3 by (cases "x = y") (auto simp: Suc_le_eq)
qed simp_all

lemma no_duplicates_distinct: "no_duplicates outcomes \<longleftrightarrow> distinct outcomes"
  using dedup_sorted[of "sort outcomes"] by (simp add: no_duplicates_def)

lemma mask_days_ok:
  assumes "mask_days days chosen = Some res" "length chosen = 7"
  shows "length res = 7 \<and> (\<forall>i<7. res ! i \<longleftrightarrow> chosen ! i \<or> (\<exists>day\<in>set days. unat day = Suc i))"
  using assms
proof (induction days arbitrary: chosen)
  case (Cons day days)
  then have d: "day \<noteq> 0" "unat day - 1 < 7" "mask_days days (chosen[unat day - 1 := True]) = Some res"
    by (auto simp: Let_def split: if_splits)
  have "0 < unat day" using d(1) by (simp add: unat_gt_0)
  then have "unat day = Suc i \<longleftrightarrow> unat day - 1 = i" for i by auto
  then show ?case using Cons.IH[OF d(3)] Cons.prems(2) d(2) by (auto simp: nth_list_update)
qed simp

lemma two_digits_nonneg: "two_digits s = Some v \<Longrightarrow> 0 \<le> v"
  by (auto simp: two_digits_def split: list.splits if_splits)

lemma calendar_parse_days:
  assumes "calendar_parse ch time days starts_at zone = Some rule"
  shows "length (rule_days rule) = 7" "i < 7 \<Longrightarrow> rule_days rule ! i \<longleftrightarrow> (\<exists>day\<in>set days. unat day = Suc i)"
    "0 \<le> rule_time rule" "rule_time rule < 86400" "rule_starts_at rule = starts_at"
proof -
  from assms obtain t where t: "parse_local_time time = Some t" "rule_time rule = t" "rule_starts_at rule = starts_at"
      "mask_days days (replicate 7 False) = Some (rule_days rule)"
    by (auto simp: calendar_parse_def Option.bind_eq_Some_conv split: if_splits)
  show "length (rule_days rule) = 7" "i < 7 \<Longrightarrow> rule_days rule ! i \<longleftrightarrow> (\<exists>day\<in>set days. unat day = Suc i)"
    using mask_days_ok[OF t(4)] by simp_all
  have "0 \<le> t \<and> t < 86400"
    using t(1) two_digits_nonneg
    by (auto simp: parse_local_time_def Option.bind_eq_Some_conv split: if_splits)
  then show "0 \<le> rule_time rule" "rule_time rule < 86400" using t(2) by auto
  show "rule_starts_at rule = starts_at" by (rule t(3))
qed

section \<open>Occurrences of calendar rules\<close>

lemma find_map_filter:
  "find P (List.map_filter f xs) = Some y \<Longrightarrow> P y \<and> (\<exists>x\<in>set xs. f x = Some y)"
proof (induction xs)
  case (Cons x xs)
  then show ?case by (cases "f x") (auto simp: List.map_filter_simps split: if_splits)
qed (simp add: List.map_filter_simps)

text \<open>What is found is the occurrence of a selected weekday, on the right side of the instant and not
  before the start.\<close>

lemma calendar_first_after_sound:
  assumes "calendar_first_after ch rule t = Some c"
  shows "t < c" "rule_starts_at rule \<le> c" "\<exists>d. runs_on rule d \<and> occurrence_on ch rule d = Some c"
  using find_map_filter[OF assms[unfolded calendar_first_after_def Let_def]]
  by (auto simp: occurrence_on_def split: if_splits)

lemma calendar_latest_sound:
  assumes "calendar_latest ch rule t = Some c"
  shows "c \<le> t" "rule_starts_at rule \<le> c" "\<exists>d. runs_on rule d \<and> occurrence_on ch rule d = Some c"
proof -
  have n: "\<not> t < rule_starts_at rule" using assms by (auto simp: calendar_latest_def)
  have "find (\<lambda>candidate. candidate \<le> t \<and> rule_starts_at rule \<le> candidate)
      (List.map_filter (\<lambda>offset. occurrence_on ch rule (date_in_zone ch (rule_zone rule) t + 1 - int offset))
        [0..<Suc SEARCH_DAYS]) = Some c"
    using assms n by (simp only: calendar_latest_def Let_def if_False)
  from find_map_filter[OF this] show "c \<le> t" "rule_starts_at rule \<le> c"
      "\<exists>d. runs_on rule d \<and> occurrence_on ch rule d = Some c"
    by (auto simp: occurrence_on_def split: if_splits)
qed

section \<open>Occurrences of intervals\<close>

lemma interval_duration_pos:
  assumes "chrono_laws ch" "interval_duration ch (Interval every u anchor zone) = Some d"
  shows "0 < d"
proof -
  from assms(2) have sec: "0 < uint every" "try_seconds ch (uint every * unit_seconds u) = Some d"
    by (auto simp: Option.bind_eq_Some_conv i64_def split: if_splits)
  define sec where "sec = uint every * unit_seconds u"
  have "0 < sec" using sec(1) by (cases u) (simp_all add: sec_def unit_seconds_def)
  moreover have "try_seconds ch sec = Some d" using sec(2) by (simp add: sec_def)
  moreover have "try_seconds ch sec = Some d \<longrightarrow> d = sec * 1000" using assms(1) by (auto simp: chrono_laws_def)
  ultimately show ?thesis by simp
qed

lemma div_bounds:
  fixes d e :: int
  assumes "0 < d"
  shows "d * (e div d) \<le> e" "e < d * (e div d + 1)"
proof -
  define q m where "q = d * (e div d)" and "m = e mod d"
  have "q + m = e" "0 \<le> m" "m < d" using assms by (simp_all add: q_def m_def)
  then have "q \<le> e" "e < q + d" by linarith+
  then show "d * (e div d) \<le> e" "e < d * (e div d + 1)" by (simp_all add: q_def distrib_left)
qed

lemma aligned_bounds:
  fixes k t :: int
  assumes "k \<le> t div ms"
  shows "k * ms \<le> t"
  using assms mult_div_mod_eq[of ms t] pos_mod_sign[of ms t] by (simp add: ms_def)

lemma aligned_above:
  fixes k t :: int
  assumes "t div ms < k"
  shows "t < k * ms"
  using assms mult_div_mod_eq[of ms t] pos_mod_bound[of ms t] by (simp add: ms_def)

text \<open>The history keeps every entry of an active run.\<close>

lemma remove_droppable:
  assumes "position (droppable active) os = Some i"
  shows "filter (\<lambda>x. \<not> droppable active x) (take i os @ drop (Suc i) os) = filter (\<lambda>x. \<not> droppable active x) os"
    and "subseq (take i os @ drop (Suc i) os) os"
proof -
  from position_Some[OF assms] have i: "i < length os" "droppable active (os ! i)" by auto
  have os: "os = take i os @ os ! i # drop (Suc i) os" using i(1) by (simp add: id_take_nth_drop)
  show "filter (\<lambda>x. \<not> droppable active x) (take i os @ drop (Suc i) os) = filter (\<lambda>x. \<not> droppable active x) os"
    by (subst (3) os) (simp add: i(2))
  have "subseq (take i os @ drop (Suc i) os) (take i os @ os ! i # drop (Suc i) os)"
    by (intro list_emb_append_mono) auto
  then show "subseq (take i os @ drop (Suc i) os) os" using os by simp
qed

lemma trim_occurrences_ok:
  "subseq (trim_occurrences active os) os \<and>
   filter (\<lambda>x. \<not> droppable active x) (trim_occurrences active os) = filter (\<lambda>x. \<not> droppable active x) os \<and>
   (length (trim_occurrences active os) \<le> MAX_STORED_OCCURRENCES \<or>
    filter (droppable active) (trim_occurrences active os) = [])"
proof (induction active os rule: trim_occurrences.induct)
  case (1 active os)
  consider (short) "length os \<le> MAX_STORED_OCCURRENCES"
    | (active) "\<not> length os \<le> MAX_STORED_OCCURRENCES" "position (droppable active) os = None"
    | (drop) i where "\<not> length os \<le> MAX_STORED_OCCURRENCES" "position (droppable active) os = Some i"
    by (cases "position (droppable active) os") auto
  then show ?case
  proof cases
    case drop
    then have "trim_occurrences active os = trim_occurrences active (take i os @ drop (Suc i) os)"
      by (subst trim_occurrences.simps) simp
    then show ?thesis
      using 1[OF drop] remove_droppable[OF drop(2)] subseq_order.trans[of _ _ os] by metis
  next
    case active
    then have "trim_occurrences active os = os" by (subst trim_occurrences.simps) (simp only: if_False option.case)
    then show ?thesis using active(2) by (simp add: filter_empty_conv)
  qed (simp add: trim_occurrences.simps[of active os])
qed

section \<open>Identities tell their inputs apart\<close>

lemma length_be_bytes [simp]: "length (be_bytes w) = 8"
  by (simp add: be_bytes_def)

lemma cut_at_separator:
  "c \<notin> set a \<Longrightarrow> c \<notin> set a' \<Longrightarrow> a @ c # b = a' @ c # b' \<Longrightarrow> a = a' \<and> b = b'"
proof (induction a arbitrary: a')
  case Nil
  then show ?case by (cases a') auto
next
  case (Cons x a)
  then show ?case by (cases a') auto
qed

text \<open>The hashed bytes of an event determine the schedule, the revision bytes and the cause, when
  identifiers have no NUL character.\<close>

lemma event_message_injective:
  assumes "CHR 0x00 \<notin> set sid" "CHR 0x00 \<notin> set sid'"
    and "sid @ [CHR 0x00] @ be_bytes trev @ [CHR 0x00] @ cause =
         sid' @ [CHR 0x00] @ be_bytes trev' @ [CHR 0x00] @ cause'"
  shows "sid = sid' \<and> be_bytes trev = be_bytes trev' \<and> cause = cause'"
  using cut_at_separator[OF assms(1,2), of "be_bytes trev @ [CHR 0x00] @ cause" "be_bytes trev' @ [CHR 0x00] @ cause'"]
    assms(3) by simp

section \<open>Properties\<close>


definition sample_chrono :: "unit chrono" where
  "sample_chrono =
     \<lparr>min_utc = - (10 ^ 22), max_utc = 10 ^ 22,
      checked_add_signed = (\<lambda>t d. if - (10 ^ 22) \<le> t + d * ms \<and> t + d * ms \<le> 10 ^ 22 then Some (t + d * ms) else None),
      try_seconds = (\<lambda>s. if \<bar>s\<bar> < 10 ^ 15 then Some (s * 1000) else None),
      parse_zone = (\<lambda>z. if z = ''UTC'' then Some () else None),
      from_local_datetime = (\<lambda>_ l. LocalSingle (l * 1000000000)),
      date_in_zone = (\<lambda>_ t. t div 86400000000000)\<rparr>"

lemma sample_chrono_laws: "chrono_laws sample_chrono"
  by (simp add: chrono_laws_def sample_chrono_def ms_def)


text \<open>With an anchor between two milliseconds the latest occurrence may lie after the instant.\<close>

lemma interval_latest_too_late:
  "latest_at_or_before sample_chrono (Interval 1 Minutes 900000 ''UTC'') 60000500000 = Some 60000900000"
  by (simp add: interval_steps_def i64_def keep_if_def unit_seconds_def sample_chrono_def timestamp_millis_def ms_def)

text \<open>The history of an automation is bounded but keeps active runs: recording an occurrence only drops
  entries, never one whose run is active, keeps their order, and leaves at most 200 entries unless
  only active ones are left.\<close>

theorem history_bounded:
  "subseq (push_occurrence os o' active) (os @ [o']) \<and>
   filter (\<lambda>x. \<not> droppable active x) (push_occurrence os o' active) =
     filter (\<lambda>x. \<not> droppable active x) (os @ [o']) \<and>
   (length (push_occurrence os o' active) \<le> MAX_STORED_OCCURRENCES \<or>
    filter (droppable active) (push_occurrence os o' active) = [])"
  unfolding push_occurrence_def by (rule trim_occurrences_ok)

end
