(* ===== verification/Board_Model.thy ===== *)
theory Board_Model
  imports Types
begin

text \<open>
  The data of the project board (\<^verbatim>\<open>src/apps/desktop/src-tauri/src/board/model.rs\<close>, and the data declared
  in \<^verbatim>\<open>board/ops.rs\<close>): cards with their claims, links, comments and activity, proposals, waiting starts,
  and the board itself. Record fields carry a prefix naming their struct.

  Identifiers are drawn from a supply: \<open>uuid env n\<close> is the \<open>n\<close>-th \<^verbatim>\<open>Uuid::new_v4\<close>. Times are instants
  in nanoseconds; \<^verbatim>\<open>chrono\<close>'s printing and parsing of RFC 3339 texts and Unicode lowercasing are the
  other fields of \<open>board_env\<close>.
\<close>

record board_env =
  uuid :: "nat \<Rightarrow> string"
  rfc3339 :: "int \<Rightarrow> string"
  parse_rfc3339 :: "string \<Rightarrow> int option"
  to_lowercase :: "string \<Rightarrow> string"

section \<open>Limits\<close>

definition MAX_CARDS :: nat where "MAX_CARDS = 2000"
definition MAX_COMMENTS_PER_CARD :: nat where "MAX_COMMENTS_PER_CARD = 500"
definition MAX_CARD_TITLE_CHARS :: nat where "MAX_CARD_TITLE_CHARS = 200"
definition MAX_CARD_DESCRIPTION_BYTES :: nat where "MAX_CARD_DESCRIPTION_BYTES = 64 * 1024"
definition MAX_COMMENT_BYTES :: nat where "MAX_COMMENT_BYTES = 16 * 1024"
definition MAX_LABELS_PER_CARD :: nat where "MAX_LABELS_PER_CARD = 12"
definition MAX_ACTIVITY_PER_CARD :: nat where "MAX_ACTIVITY_PER_CARD = 300"
definition MAX_AGENT_WRITES_PER_TURN :: "32 word" where "MAX_AGENT_WRITES_PER_TURN = 8"
definition CLAIM_LEASE_SECONDS :: int where "CLAIM_LEASE_SECONDS = 30 * 60"
definition MAX_LABEL_CHARS :: nat where "MAX_LABEL_CHARS = 40"
definition MAX_RESOLVED_PROPOSALS :: nat where "MAX_RESOLVED_PROPOSALS = 200"
definition MAX_PENDING :: nat where "MAX_PENDING = 500"
definition MIN_BOARD_CONCURRENCY :: "8 word" where "MIN_BOARD_CONCURRENCY = 1"
definition MAX_BOARD_CONCURRENCY :: "8 word" where "MAX_BOARD_CONCURRENCY = 16"
definition MAX_MENTIONS :: nat where "MAX_MENTIONS = 20"
definition MAX_REASON_CHARS :: nat where "MAX_REASON_CHARS = 500"
definition MAX_REFERENCE_BYTES :: nat where "MAX_REFERENCE_BYTES = 128"
definition RUN_TEXT_COMMENTS :: nat where "RUN_TEXT_COMMENTS = 5"
definition MAX_TURN_KEYS :: nat where "MAX_TURN_KEYS = 4096"
definition START_COOLDOWN_SECONDS :: int where "START_COOLDOWN_SECONDS = 60"
definition MAX_RUN_RESULT_BYTES :: nat where "MAX_RUN_RESULT_BYTES = 4 * 1024"
definition MAX_QUEUED_STARTS :: nat where "MAX_QUEUED_STARTS = 500"

section \<open>Statuses, actors, settings\<close>

datatype card_status = Backlog | Todo | InProgress | InReview | CardBlocked | CardDone | CardCancelled

datatype card_status_category = CatUnstarted | CatActive | CatBlocked | CatClosed

fun category :: "card_status \<Rightarrow> card_status_category" where
  "category Backlog = CatUnstarted"
| "category Todo = CatUnstarted"
| "category InProgress = CatActive"
| "category InReview = CatActive"
| "category CardBlocked = CatBlocked"
| "category CardDone = CatClosed"
| "category CardCancelled = CatClosed"

definition is_closed :: "card_status \<Rightarrow> bool" where
  "is_closed s \<longleftrightarrow> category s = CatClosed"

fun status_as_str :: "card_status \<Rightarrow> string" where
  "status_as_str Backlog = ''backlog''"
| "status_as_str Todo = ''todo''"
| "status_as_str InProgress = ''inProgress''"
| "status_as_str InReview = ''inReview''"
| "status_as_str CardBlocked = ''blocked''"
| "status_as_str CardDone = ''done''"
| "status_as_str CardCancelled = ''cancelled''"

datatype card_priority = Urgent | High | Normal | Low

datatype board_agent_mode = AutoMode | ProposalMode

record board_permissions =
  perm_read :: bool
  perm_comment :: bool
  perm_create :: bool
  perm_move_cards :: bool
  perm_claim :: bool
  perm_assign :: bool

record board_settings =
  settings_agent_mode :: board_agent_mode
  settings_chat_agent_permissions :: board_permissions
  settings_max_concurrent_runs :: "8 word"

definition default_settings :: board_settings where
  "default_settings =
     \<lparr>settings_agent_mode = AutoMode,
      settings_chat_agent_permissions =
        \<lparr>perm_read = True, perm_comment = True, perm_create = True, perm_move_cards = True,
         perm_claim = False, perm_assign = True\<rparr>,
      settings_max_concurrent_runs = 4\<rparr>"

definition settings_valid :: "board_settings \<Rightarrow> bool" where
  "settings_valid s \<longleftrightarrow>
     MIN_BOARD_CONCURRENCY \<le> settings_max_concurrent_runs s \<and>
     settings_max_concurrent_runs s \<le> MAX_BOARD_CONCURRENCY"

datatype board_actor =
    Person
  | ChatAgent string string
  | RunMember string string string "string option"
  | HostActor

fun is_person :: "board_actor \<Rightarrow> bool" where
  "is_person Person = True"
| "is_person _ = False"

fun is_agent :: "board_actor \<Rightarrow> bool" where
  "is_agent (ChatAgent _ _) = True"
| "is_agent (RunMember _ _ _ _) = True"
| "is_agent _ = False"

section \<open>Cards\<close>

record card_claim =
  claim_actor :: board_actor
  claim_run_id :: "string option"
  claim_claimed_at :: string
  claim_expires_at :: string

datatype card_link =
    SessionLink string string string
  | RunLink string "string option" string

record comment_mention =
  mention_teammate_id :: string
  mention_start :: "32 word"
  mention_length :: "32 word"

record card_comment =
  comment_id :: string
  comment_actor :: board_actor
  comment_body :: string
  comment_mentions :: "comment_mention list"
  comment_created_at :: string
  comment_run_id :: "string option"

record card_patch =
  patch_title :: "string option"
  patch_description :: "string option"
  patch_priority :: "card_priority option"
  patch_labels :: "string list option"
  patch_blocked_by :: "string list option"
  patch_parent_id :: "string option option"

definition empty_patch :: card_patch where
  "empty_patch =
     \<lparr>patch_title = None, patch_description = None, patch_priority = None, patch_labels = None,
      patch_blocked_by = None, patch_parent_id = None\<rparr>"

record card_draft =
  draft_title :: string
  draft_description :: "string option"
  draft_priority :: "card_priority option"
  draft_labels :: "string list option"
  draft_blocked_by :: "string list option"
  draft_parent_id :: "string option"

datatype release_reason = ReleaseDone | ReleaseExpired | ReleaseReleased | ReleaseRunEnded

datatype run_outcome = BoardRunSucceeded | BoardRunFailed | BoardRunCancelled

datatype card_change =
    Created
  | Edited "string list" card_patch
  | Moved card_status card_status "string option"
  | ChangeAssigned "string option" "string option"
  | Claimed
  | Released release_reason
  | Linked card_link
  | Unlinked card_link
  | Commented string
  | RunStarted string string
  | ChangeQueued string
  | ChangeRunFinished string run_outcome
  | ChangeUnblocked
  | Reverted string

record card_activity =
  activity_id :: string
  activity_actor :: board_actor
  activity_at :: string
  activity_change :: card_change
  activity_undoable :: bool

record board_card =
  card_id :: string
  card_number :: "64 word"
  card_title :: string
  card_description :: string
  card_priority :: card_priority
  card_labels :: "string list"
  card_blocked_by :: "string list"
  card_parent_id :: "string option"
  card_status :: card_status
  card_order :: int
  card_assignee :: "string option"
  card_claim :: "card_claim option"
  card_links :: "card_link list"
  card_comments :: "card_comment list"
  card_activity :: "card_activity list"
  card_revision :: "64 word"
  card_created_by :: board_actor
  card_created_at :: string
  card_updated_at :: string
  card_closed_at :: "string option"

section \<open>The board\<close>

datatype board_operation =
    OpCreate card_draft "card_status option"
  | OpUpdate string card_patch
  | OpMove string card_status "string option"
  | OpComment string string
  | OpAssign string "string option"

datatype proposal_status = ProposalPending | ProposalAccepted | ProposalRejected

record board_proposal =
  proposal_id :: string
  proposal_card_id :: "string option"
  proposal_operation :: board_operation
  proposal_actor :: board_actor
  proposal_created_at :: string
  proposal_status :: proposal_status

record pending_start =
  pending_id :: string
  pending_card_id :: string
  pending_teammate_id :: string
  pending_cause :: board_run_cause
  pending_requested_by :: board_actor
  pending_created_at :: string

record queued_start_record =
  queued_id :: string
  queued_card_id :: string
  queued_teammate_id :: string
  queued_cause :: board_run_cause
  queued_chain_depth :: "8 word"
  queued_requested_by :: board_actor
  queued_created_at :: string

record board =
  board_workspace_id :: string
  board_enabled :: bool
  board_settings :: board_settings
  board_cards :: "board_card list"
  board_proposals :: "board_proposal list"
  board_pending_starts :: "pending_start list"
  board_queued_starts :: "queued_start_record list"
  board_next_number :: "64 word"
  board_revision :: "64 word"
  board_updated_at :: string

definition board_empty :: "string \<Rightarrow> string \<Rightarrow> board" where
  "board_empty workspace_id now =
     \<lparr>board_workspace_id = workspace_id, board_enabled = False, board_settings = default_settings,
      board_cards = [], board_proposals = [], board_pending_starts = [], board_queued_starts = [],
      board_next_number = 1, board_revision = 0, board_updated_at = now\<rparr>"

text \<open>\<^verbatim>\<open>Board::card\<close>; an update through \<^verbatim>\<open>card_mut\<close> changes the first card with the identifier.\<close>

definition find_card :: "board \<Rightarrow> string \<Rightarrow> board_card option" where
  "find_card b i = find (\<lambda>c. card_id c = i) (board_cards b)"

definition card_by_number :: "board \<Rightarrow> 64 word \<Rightarrow> board_card option" where
  "card_by_number b n = find (\<lambda>c. card_number c = n) (board_cards b)"

fun update_first :: "('a \<Rightarrow> bool) \<Rightarrow> ('a \<Rightarrow> 'a) \<Rightarrow> 'a list \<Rightarrow> 'a list" where
  "update_first P f [] = []"
| "update_first P f (x # xs) = (if P x then f x # xs else x # update_first P f xs)"

definition update_card :: "string \<Rightarrow> (board_card \<Rightarrow> board_card) \<Rightarrow> board \<Rightarrow> board" where
  "update_card i f b = b\<lparr>board_cards := update_first (\<lambda>c. card_id c = i) f (board_cards b)\<rparr>"

datatype card_start_mode = StartAsk | StartNow | StartLater

section \<open>Errors\<close>

datatype board_error =
    SafeMode
  | BoardInvalid string
  | BoardNotFound string
  | BoardDisabled
  | BoardRevisionConflict
  | AlreadyClaimed
  | BoardForbidden string
  | BoardLimit string
  | RateLimited
  | NotAssignable string
  | BoardIo

fun error_code :: "board_error \<Rightarrow> string" where
  "error_code SafeMode = ''SAFE_MODE''"
| "error_code (BoardInvalid _) = ''INVALID_ARGUMENT''"
| "error_code (BoardNotFound _) = ''NOT_FOUND''"
| "error_code BoardDisabled = ''DISABLED''"
| "error_code BoardRevisionConflict = ''REVISION_CONFLICT''"
| "error_code AlreadyClaimed = ''ALREADY_CLAIMED''"
| "error_code (BoardForbidden _) = ''FORBIDDEN''"
| "error_code (BoardLimit _) = ''LIMIT''"
| "error_code RateLimited = ''RATE_LIMITED''"
| "error_code (NotAssignable _) = ''NOT_ASSIGNABLE''"
| "error_code BoardIo = ''IO_ERROR''"

fun error_message :: "board_error \<Rightarrow> string" where
  "error_message SafeMode = ''Safe mode is on: PiUI does not change the board.''"
| "error_message (BoardInvalid m) = m"
| "error_message (BoardNotFound m) = m"
| "error_message BoardDisabled = ''The board of this project is turned off.''"
| "error_message BoardRevisionConflict = ''This card changed since you opened it. Reload and try again.''"
| "error_message AlreadyClaimed =
     ''Someone else is already working on this card. Do not retry; pick other work.''"
| "error_message (BoardForbidden m) = m"
| "error_message (BoardLimit m) = m"
| "error_message RateLimited =
     ''Too many board changes in this turn. Stop changing the board and summarize instead.''"
| "error_message (NotAssignable m) = m"
| "error_message BoardIo = ''PiUI could not save the board.''"

definition RUNS_UNAVAILABLE :: board_error where
  "RUNS_UNAVAILABLE = BoardInvalid ''Runs from the board are not available yet.''"

definition CARD_NOT_FOUND :: string where
  "CARD_NOT_FOUND = ''That card is no longer on the board.''"

definition TEAMMATE_NOT_FOUND :: string where
  "TEAMMATE_NOT_FOUND = ''That teammate no longer exists.''"

definition TEAMMATE_NOT_ASSIGNABLE :: string where
  "TEAMMATE_NOT_ASSIGNABLE = ''This teammate cannot take cards right now.''"

section \<open>Teammates, starts and times\<close>

datatype teammate_start_rule = RuleAsk | RuleAlways | RuleNever

datatype availability = AvailableIdle | AvailableQueued | AvailableWorking

record teammate_ref =
  teammate_id :: string
  teammate_handle :: string
  teammate_name :: string
  teammate_role :: string
  teammate_kind :: string
  teammate_on_assign :: teammate_start_rule
  teammate_on_mention :: bool
  teammate_enabled :: bool
  teammate_not_assignable_reason :: "string option"
  teammate_availability :: availability

definition assignable :: "teammate_ref \<Rightarrow> bool" where
  "assignable t \<longleftrightarrow> teammate_enabled t \<and> teammate_not_assignable_reason t = None"

record session_ref =
  session_ref_id :: string
  session_ref_harness :: string

record board_run_request =
  request_workspace_id :: string
  request_run_id :: string
  request_card_id :: string
  request_card_number :: "64 word"
  request_teammate_id :: string
  request_cause :: board_run_cause
  request_chain_depth :: "8 word"
  request_card_text :: string

datatype assign_outcome = AssignAssigned | AssignPendingStart | AssignStarted | AssignQueued

record board_now =
  now_at :: int
  now_text :: string

definition at_time :: "board_env \<Rightarrow> int \<Rightarrow> board_now" where
  "at_time env t = \<lparr>now_at = t, now_text = rfc3339 env t\<rparr>"

definition plus_seconds :: "board_env \<Rightarrow> board_now \<Rightarrow> int \<Rightarrow> string" where
  "plus_seconds env now seconds = rfc3339 env (now_at now + seconds * 1000000000)"

record start_plan =
  plan_card_id :: string
  plan_teammate_id :: string
  plan_cause :: board_run_cause
  plan_chain_depth :: "8 word"
  plan_actor :: board_actor

record queued_start =
  qs_workspace_id :: string
  qs_card_id :: string
  qs_teammate_id :: string
  qs_cause :: board_run_cause
  qs_chain_depth :: "8 word"
  qs_actor :: board_actor
  qs_priority :: card_priority
  qs_seq :: "64 word"

fun priority_rank :: "card_priority \<Rightarrow> 8 word" where
  "priority_rank Urgent = 0"
| "priority_rank High = 1"
| "priority_rank Normal = 2"
| "priority_rank Low = 3"

datatype run_end = EndSucceeded "string option" | EndFailed string | EndCancelled

fun end_outcome :: "run_end \<Rightarrow> run_outcome" where
  "end_outcome (EndSucceeded _) = BoardRunSucceeded"
| "end_outcome (EndFailed _) = BoardRunFailed"
| "end_outcome EndCancelled = BoardRunCancelled"

lemma update_first_map:
  assumes "distinct (map k xs)"
  shows "update_first (\<lambda>x. k x = i) f xs = map (\<lambda>x. if k x = i then f x else x) xs"
  using assms
proof (induction xs)
  case (Cons x xs)
  have "map (\<lambda>x. if k x = i then f x else x) xs = xs" if "i \<notin> k ` set xs"
    using that by (intro map_idI) auto
  with Cons show ?case by auto
qed simp

lemma is_closed_simps [simp]:
  "is_closed CardDone" "is_closed CardCancelled" "\<not> is_closed Backlog" "\<not> is_closed Todo"
  "\<not> is_closed InProgress" "\<not> is_closed InReview" "\<not> is_closed CardBlocked"
  by (simp_all add: is_closed_def)

lemma is_closed_cases: "is_closed s \<longleftrightarrow> s = CardDone \<or> s = CardCancelled"
  by (cases s) simp_all

end
