(* ===== verification/Board_Ops.thy ===== *)
theory Board_Ops
  imports Board_Model Inputs Step_Output "HOL-Library.Product_Lexorder"
begin

text \<open>
  The changes of a board inside one transaction (\<^verbatim>\<open>src/apps/desktop/src-tauri/src/board/ops.rs\<close>, the
  functions ending in \<^verbatim>\<open>_in\<close> with their validators and helpers). The state of a change is the staged
  board with the number of identifiers drawn so far. An error returns no state: the transaction
  drops the staged board.
\<close>

type_synonym staged = "board \<times> nat"

section \<open>Cards\<close>

definition require_enabled :: "board \<Rightarrow> board_error + unit" where
  "require_enabled b = (if board_enabled b then Inr () else Inl BoardDisabled)"

definition claim_live :: "board_env \<Rightarrow> card_claim \<Rightarrow> board_now \<Rightarrow> bool" where
  "claim_live env c now \<longleftrightarrow>
     claim_run_id c \<noteq> None \<or>
     is_some_and (parse_rfc3339 env (claim_expires_at c)) (\<lambda>expires. now_at now < expires)"

definition touch :: "board_now \<Rightarrow> board_card \<Rightarrow> board_card" where
  "touch now c = c\<lparr>card_revision := saturating_inc (card_revision c), card_updated_at := now_text now\<rparr>"

text \<open>The activity gets the \<open>n\<close>-th identifier; the oldest entries beyond the limit are dropped.\<close>

definition push_activity ::
  "board_env \<Rightarrow> nat \<Rightarrow> board_actor \<Rightarrow> board_now \<Rightarrow> card_change \<Rightarrow> bool \<Rightarrow> board_card \<Rightarrow> board_card" where
  "push_activity env n actor now change undoable c =
     (let entries = card_activity c @ [\<lparr>activity_id = uuid env n, activity_actor = actor,
            activity_at = now_text now, activity_change = change, activity_undoable = undoable\<rparr>] in
      c\<lparr>card_activity := drop (length entries - MAX_ACTIVITY_PER_CARD) entries\<rparr>)"

definition i64_max :: int where
  "i64_max = 2 ^ 63 - 1"

definition next_order :: "board \<Rightarrow> card_status \<Rightarrow> string option \<Rightarrow> int" where
  "next_order b s except =
     (let orders = map card_order (filter (\<lambda>c. card_status c = s \<and> Some (card_id c) \<noteq> except) (board_cards b)) in
      if orders = [] then 0 else min (Max (set orders) + 1) i64_max)"

fun find_teammate :: "teammate_ref list \<Rightarrow> string \<Rightarrow> board_error + teammate_ref" where
  "find_teammate [] i = Inl (BoardNotFound TEAMMATE_NOT_FOUND)"
| "find_teammate (t # ts) i = (if teammate_id t = i then Inr t else find_teammate ts i)"

definition cause_depth :: "board_actor \<Rightarrow> 8 word \<Rightarrow> 8 word" where
  "cause_depth actor causing_depth =
     (if is_agent actor then if causing_depth = 255 then 255 else causing_depth + 1 else 0)"

section \<open>Texts\<close>

fun bad_control :: "bool \<Rightarrow> string \<Rightarrow> bool" where
  "bad_control allow_newlines [] = False"
| "bad_control allow_newlines (c # s) =
     (is_ascii_control c \<and> \<not> (allow_newlines \<and> c \<in> {CHR 0x0A, CHR 0x0D, CHR 0x09}) \<or>
      c1_control c s \<or> bad_control allow_newlines s)"

definition no_controls :: "string \<Rightarrow> bool \<Rightarrow> bool" where
  "no_controls s allow_newlines \<longleftrightarrow> \<not> bad_control allow_newlines s"

definition validate_title :: "string \<Rightarrow> board_error + string" where
  "validate_title title =
     (let title = trim title; count = chars_count title in
      if 1 \<le> count \<and> count \<le> MAX_CARD_TITLE_CHARS \<and> no_controls title False then Inr title
      else Inl (BoardInvalid ''A card title needs 1-200 characters on one line.''))"

definition validate_description :: "string \<Rightarrow> board_error + string" where
  "validate_description description =
     (if length description \<le> MAX_CARD_DESCRIPTION_BYTES \<and> no_controls description True then Inr description
      else Inl (BoardInvalid ''A card description is limited to 64 KiB of text.''))"

fun labels_loop :: "board_env \<Rightarrow> string list \<Rightarrow> string list \<Rightarrow> string list \<Rightarrow> board_error + string list" where
  "labels_loop env seen result [] = Inr result"
| "labels_loop env seen result (label # labels) =
     (let label = trim label; count = chars_count label; key = to_lowercase env label in
      if \<not> (1 \<le> count \<and> count \<le> MAX_LABEL_CHARS) \<or> \<not> no_controls label False
      then Inl (BoardInvalid ''Labels need 1-40 characters on one line.'')
      else if key \<in> set seen then labels_loop env seen result labels
      else labels_loop env (key # seen) (result @ [label]) labels)"

definition validate_labels :: "board_env \<Rightarrow> string list \<Rightarrow> board_error + string list" where
  "validate_labels env labels =
     and_then (labels_loop env [] [] labels) (\<lambda>result.
       if MAX_LABELS_PER_CARD < length result
       then Inl (BoardInvalid ''A card can have at most 12 labels.'') else Inr result)"

definition validate_reason :: "string \<Rightarrow> board_error + string" where
  "validate_reason reason =
     (let reason = trim reason in
      if chars_count reason \<le> MAX_REASON_CHARS \<and> no_controls reason True then Inr reason
      else Inl (BoardInvalid ''A reason is limited to 500 characters.''))"

definition validate_reference :: "string \<Rightarrow> board_error + unit" where
  "validate_reference v =
     (if v \<noteq> [] \<and> length v \<le> MAX_REFERENCE_BYTES \<and> no_controls v False then Inr ()
      else Inl (BoardInvalid ''That chat id is not valid.''))"

fun blockers_loop :: "board \<Rightarrow> string option \<Rightarrow> string list \<Rightarrow> string list \<Rightarrow> board_error + string list" where
  "blockers_loop b i result [] = Inr result"
| "blockers_loop b i result (blocker # blockers) =
     (if Some blocker = i \<or> find_card b blocker = None
      then Inl (BoardInvalid ''A card can be blocked only by other cards of this board.'')
      else blockers_loop b i (if blocker \<in> set result then result else result @ [blocker]) blockers)"

definition validate_blockers :: "board \<Rightarrow> string option \<Rightarrow> string list \<Rightarrow> board_error + string list" where
  "validate_blockers b i blockers =
     and_then (blockers_loop b i [] blockers) (\<lambda>result.
       if MAX_CARDS < length result then Inl (BoardInvalid ''Too many blockers.'') else Inr result)"

definition parent_of :: "board \<Rightarrow> string \<Rightarrow> string option" where
  "parent_of b i = Option.bind (find_card b i) card_parent_id"

text \<open>The walk up from the parent: it fails at the card itself and after more steps than cards.\<close>

function parent_walk :: "board \<Rightarrow> string option \<Rightarrow> string option \<Rightarrow> nat \<Rightarrow> bool" where
  "parent_walk b i None steps = True"
| "parent_walk b i (Some ancestor) steps =
     (if Some ancestor = i \<or> length (board_cards b) < steps then False
      else parent_walk b i (parent_of b ancestor) (Suc steps))"
  by pat_completeness auto
termination
  by (relation "measure (\<lambda>(b, _, _, steps). Suc (length (board_cards b)) - steps)") auto

definition INVALID_PARENT :: board_error where
  "INVALID_PARENT = BoardInvalid ''A parent must be another card of this board, without a cycle.''"

definition validate_parent :: "board \<Rightarrow> string option \<Rightarrow> string option \<Rightarrow> board_error + string option" where
  "validate_parent b i parent =
     (case parent of
        None \<Rightarrow> Inr None
      | Some p \<Rightarrow>
          if Some p = i \<or> find_card b p = None then Inl INVALID_PARENT
          else if parent_walk b i (parent_of b p) 0 then Inr (Some p) else Inl INVALID_PARENT)"

definition validate_comment_body :: "string \<Rightarrow> board_error + unit" where
  "validate_comment_body body =
     (if \<not> is_blank_text body \<and> length body \<le> MAX_COMMENT_BYTES \<and> no_controls body True then Inr ()
      else Inl (BoardInvalid ''A comment needs text and is limited to 16 KiB.''))"

text \<open>\<^verbatim>\<open>encode_utf16().count()\<close>: two units for a character encoded in four bytes.\<close>

definition utf16_count :: "string \<Rightarrow> nat" where
  "utf16_count s = chars_count s + length (filter (\<lambda>c. 240 \<le> byte_val c) s)"

fun mentions_loop :: "nat \<Rightarrow> teammate_ref list \<Rightarrow> comment_mention list \<Rightarrow> board_error + unit" where
  "mentions_loop len teammates [] = Inr ()"
| "mentions_loop len teammates (m # ms) =
     (if mention_length m = 0 \<or> len < unat (mention_start m) + unat (mention_length m)
      then Inl (BoardInvalid ''A mention does not match the comment text.'')
      else if \<not> list_ex (\<lambda>t. teammate_id t = mention_teammate_id m) teammates
      then Inl (BoardNotFound TEAMMATE_NOT_FOUND)
      else mentions_loop len teammates ms)"

definition validate_mentions :: "string \<Rightarrow> comment_mention list \<Rightarrow> teammate_ref list \<Rightarrow> board_error + unit" where
  "validate_mentions body mentions teammates =
     (if MAX_MENTIONS < length mentions
      then Inl (BoardInvalid ''A comment can mention at most 20 teammates.'')
      else mentions_loop (utf16_count body) teammates mentions)"

text \<open>\<^verbatim>\<open>Option::map(f).transpose()\<close>.\<close>

definition check_option :: "('a \<Rightarrow> 'e + 'b) \<Rightarrow> 'a option \<Rightarrow> 'e + 'b option" where
  "check_option f x = (case x of None \<Rightarrow> Inr None | Some a \<Rightarrow> and_then (f a) (\<lambda>v. Inr (Some v)))"

definition truncate_bytes :: "string \<Rightarrow> nat \<Rightarrow> string" where
  "truncate_bytes s limit = (if length s \<le> limit then s else take (prev_boundary s limit) s)"

section \<open>Links\<close>

fun session_link_of :: "string \<Rightarrow> card_link \<Rightarrow> bool" where
  "session_link_of sid (SessionLink s _ _) = (s = sid)"
| "session_link_of sid (RunLink _ _ _) = False"

fun run_link_of :: "string \<Rightarrow> card_link \<Rightarrow> bool" where
  "run_link_of rid (RunLink r _ _) = (r = rid)"
| "run_link_of rid (SessionLink _ _ _) = False"

fun link_since :: "card_link \<Rightarrow> string" where
  "link_since (SessionLink _ _ since) = since"
| "link_since (RunLink _ _ since) = since"

fun renew_link :: "string \<Rightarrow> card_link \<Rightarrow> card_link" where
  "renew_link since (SessionLink s h _) = SessionLink s h since"
| "renew_link since (RunLink r t s) = RunLink r t s"

definition link_session_in ::
  "board_env \<Rightarrow> session_ref \<Rightarrow> board_actor \<Rightarrow> board_now \<Rightarrow> board_card \<times> nat \<Rightarrow> board_card \<times> nat" where
  "link_session_in env s actor now = (\<lambda>(c, n).
     if list_ex (session_link_of (session_ref_id s)) (card_links c) then
       (touch now (c\<lparr>card_links := update_first (session_link_of (session_ref_id s))
                        (renew_link (now_text now)) (card_links c)\<rparr>), n)
     else
       (let link = SessionLink (session_ref_id s) (session_ref_harness s) (now_text now) in
        (touch now (push_activity env n actor now (Linked link) False (c\<lparr>card_links := card_links c @ [link]\<rparr>)),
         Suc n)))"

section \<open>Creating and editing\<close>

definition new_card ::
  "board_env \<Rightarrow> nat \<Rightarrow> board_actor \<Rightarrow> board_now \<Rightarrow> board \<Rightarrow> card_status \<Rightarrow> string \<Rightarrow> string \<Rightarrow> card_priority \<Rightarrow>
   string list \<Rightarrow> string list \<Rightarrow> string option \<Rightarrow> board_card" where
  "new_card env n actor now b s title description priority labels blocked_by parent =
     \<lparr>card_id = uuid env n, card_number = board_next_number b, card_title = title,
      card_description = description, card_priority = priority, card_labels = labels,
      card_blocked_by = blocked_by, card_parent_id = parent, card_status = s,
      card_order = next_order b s None, card_assignee = None, card_claim = None, card_links = [],
      card_comments = [], card_activity = [], card_revision = 0, card_created_by = actor,
      card_created_at = now_text now, card_updated_at = now_text now,
      card_closed_at = (if is_closed s then Some (now_text now) else None)\<rparr>"

text \<open>The link of a new card to the chat it was created in does not count as a revision.\<close>

definition link_created ::
  "board_env \<Rightarrow> session_ref option \<Rightarrow> board_actor \<Rightarrow> board_now \<Rightarrow> board_card \<times> nat \<Rightarrow> board_card \<times> nat" where
  "link_created env session actor now cn =
     (case session of
        None \<Rightarrow> cn
      | Some se \<Rightarrow> (let (c, m) = link_session_in env se actor now cn in (c\<lparr>card_revision := 0\<rparr>, m)))"

definition create_in ::
  "board_env \<Rightarrow> board_actor \<Rightarrow> card_draft \<Rightarrow> card_status option \<Rightarrow> session_ref option \<Rightarrow> board_now \<Rightarrow> staged \<Rightarrow>
   board_error + (string \<times> staged)" where
  "create_in env actor draft s session now = (\<lambda>(b, n).
     if MAX_CARDS \<le> length (board_cards b)
     then Inl (BoardLimit ''This board is full. Delete old cards, then try again.'')
     else
       and_then (validate_title (draft_title draft)) (\<lambda>title.
       and_then (check_option validate_description (draft_description draft)) (\<lambda>description.
       and_then (validate_labels env (case draft_labels draft of None \<Rightarrow> [] | Some ls \<Rightarrow> ls)) (\<lambda>labels.
       and_then (validate_blockers b None (case draft_blocked_by draft of None \<Rightarrow> [] | Some bs \<Rightarrow> bs)) (\<lambda>blocked_by.
       and_then (validate_parent b None (draft_parent_id draft)) (\<lambda>parent.
       and_then (check_option (\<lambda>se. validate_reference (session_ref_id se)) session) (\<lambda>_.
         let s = (case s of None \<Rightarrow> Todo | Some s \<Rightarrow> s); number = board_next_number b in
         if number = - 1 then Inl BoardIo
         else
           (let c = new_card env n actor now b s title (case description of None \<Rightarrow> [] | Some d \<Rightarrow> d)
                      (case draft_priority draft of None \<Rightarrow> Normal | Some p \<Rightarrow> p) labels blocked_by parent;
                c = push_activity env (n + 1) actor now Created False c;
                (c, m) = link_created env session actor now (c, n + 2) in
            Inr (uuid env n,
                 b\<lparr>board_next_number := number + 1, board_cards := board_cards b @ [c]\<rparr>, m)))))))))"

text \<open>One field of a patch: a new value that differs replaces the old one, which is remembered.\<close>

definition edit_field ::
  "'a option \<Rightarrow> (board_card \<Rightarrow> 'a) \<Rightarrow> ('a \<Rightarrow> board_card \<Rightarrow> board_card) \<Rightarrow> ('a \<Rightarrow> card_patch \<Rightarrow> card_patch) \<Rightarrow> string \<Rightarrow>
   board_card \<times> card_patch \<times> string list \<Rightarrow> board_card \<times> card_patch \<times> string list" where
  "edit_field v get put remember name = (\<lambda>(c, previous, names).
     case v of
       None \<Rightarrow> (c, previous, names)
     | Some x \<Rightarrow> if x = get c then (c, previous, names)
                 else (put x c, remember (get c) previous, names @ [name]))"

definition edit_card ::
  "string option \<Rightarrow> string option \<Rightarrow> card_priority option \<Rightarrow> string list option \<Rightarrow> string list option \<Rightarrow>
   string option option \<Rightarrow> board_card \<Rightarrow> board_card \<times> card_patch \<times> string list" where
  "edit_card title description priority labels blocked_by parent c =
     edit_field parent card_parent_id (\<lambda>v. card_parent_id_update (\<lambda>_. v))
       (\<lambda>v. patch_parent_id_update (\<lambda>_. Some v)) ''parentId''
     (edit_field blocked_by card_blocked_by (\<lambda>v. card_blocked_by_update (\<lambda>_. v))
       (\<lambda>v. patch_blocked_by_update (\<lambda>_. Some v)) ''blockedBy''
     (edit_field labels card_labels (\<lambda>v. card_labels_update (\<lambda>_. v))
       (\<lambda>v. patch_labels_update (\<lambda>_. Some v)) ''labels''
     (edit_field priority card_priority (\<lambda>v. card_priority_update (\<lambda>_. v))
       (\<lambda>v. patch_priority_update (\<lambda>_. Some v)) ''priority''
     (edit_field description card_description (\<lambda>v. card_description_update (\<lambda>_. v))
       (\<lambda>v. patch_description_update (\<lambda>_. Some v)) ''description''
     (edit_field title card_title (\<lambda>v. card_title_update (\<lambda>_. v))
       (\<lambda>v. patch_title_update (\<lambda>_. Some v)) ''title'' (c, empty_patch, []))))))"

definition apply_patch_in ::
  "board_env \<Rightarrow> string \<Rightarrow> card_patch \<Rightarrow> board_actor \<Rightarrow> board_now \<Rightarrow> bool \<Rightarrow> staged \<Rightarrow> board_error + (bool \<times> staged)" where
  "apply_patch_in env i patch actor now undoable = (\<lambda>(b, n).
     and_then (check_option validate_title (patch_title patch)) (\<lambda>title.
     and_then (check_option validate_description (patch_description patch)) (\<lambda>description.
     and_then (check_option (validate_labels env) (patch_labels patch)) (\<lambda>labels.
     and_then (check_option (validate_blockers b (Some i)) (patch_blocked_by patch)) (\<lambda>blocked_by.
     and_then (check_option (validate_parent b (Some i)) (patch_parent_id patch)) (\<lambda>parent.
       case find_card b i of
         None \<Rightarrow> Inl (BoardNotFound CARD_NOT_FOUND)
       | Some c \<Rightarrow>
         (let (c', previous, names) = edit_card title description (patch_priority patch) labels blocked_by parent c in
          if names = [] then Inr (False, b, n)
          else Inr (True,
            update_card i (\<lambda>_. touch now (push_activity env n actor now (Edited names previous) undoable c')) b,
            Suc n))))))))"

section \<open>Moving\<close>

text \<open>The cards that wait for nothing any more when \<open>closed_id\<close> is closed, and their move to \<^verbatim>\<open>todo\<close>.\<close>

definition unblocked_ids :: "board \<Rightarrow> string \<Rightarrow> string list" where
  "unblocked_ids b closed_id =
     (let closed = map card_id (filter (\<lambda>c. is_closed (card_status c)) (board_cards b)) in
      map card_id (filter (\<lambda>c. card_status c = CardBlocked \<and> closed_id \<in> set (card_blocked_by c) \<and>
        set (card_blocked_by c) \<subseteq> set closed) (board_cards b)))"

definition unblock_card :: "board_env \<Rightarrow> board_now \<Rightarrow> string \<Rightarrow> staged \<Rightarrow> staged" where
  "unblock_card env now i = (\<lambda>(b, n).
     let order = next_order b Todo (Some i) in
     if find_card b i = None then (b, n)
     else (update_card i (\<lambda>c. touch now (push_activity env n HostActor now ChangeUnblocked False
             (c\<lparr>card_status := Todo, card_order := order\<rparr>))) b, Suc n))"

definition unblock_dependents :: "board_env \<Rightarrow> board_now \<Rightarrow> string \<Rightarrow> staged \<Rightarrow> string list \<times> staged" where
  "unblock_dependents env now closed_id st =
     (let ids = unblocked_ids (fst st) closed_id in (ids, fold (unblock_card env now) ids st))"

record card_moved =
  moved_changed :: bool
  moved_unblocked :: "string list"

text \<open>The card itself: status, order, closing time, and a claim released by closing it.\<close>

definition moved_card ::
  "board_env \<Rightarrow> card_status \<Rightarrow> int \<Rightarrow> string option \<Rightarrow> board_actor \<Rightarrow> board_now \<Rightarrow> bool \<Rightarrow> nat \<Rightarrow> board_card \<Rightarrow> board_card \<times> nat" where
  "moved_card env to' order reason actor now undoable n c =
     (let from' = card_status c;
          c = c\<lparr>card_status := to', card_order := order,
                card_closed_at := (if is_closed to' then Some (now_text now) else None)\<rparr>;
          (c, n) = (if is_closed to' \<and> card_claim c \<noteq> None
                    then (push_activity env n HostActor now (Released ReleaseDone) False (c\<lparr>card_claim := None\<rparr>), Suc n)
                    else (c, n)) in
      (touch now (push_activity env n actor now (Moved from' to' reason) undoable c), Suc n))"

definition drop_queued :: "string \<Rightarrow> board \<Rightarrow> board" where
  "drop_queued i b = b\<lparr>board_queued_starts := filter (\<lambda>q. queued_card_id q \<noteq> i) (board_queued_starts b)\<rparr>"

definition drop_pending :: "string \<Rightarrow> board \<Rightarrow> board" where
  "drop_pending i b = b\<lparr>board_pending_starts := filter (\<lambda>p. pending_card_id p \<noteq> i) (board_pending_starts b)\<rparr>"

definition set_status_in ::
  "board_env \<Rightarrow> string \<Rightarrow> card_status \<Rightarrow> string option \<Rightarrow> board_actor \<Rightarrow> board_now \<Rightarrow> bool \<Rightarrow> staged \<Rightarrow>
   board_error + (card_moved \<times> staged)" where
  "set_status_in env i to' reason actor now undoable = (\<lambda>(b, n).
     case find_card b i of
       None \<Rightarrow> Inl (BoardNotFound CARD_NOT_FOUND)
     | Some c \<Rightarrow>
       if card_status c = to' then Inr (\<lparr>moved_changed = False, moved_unblocked = []\<rparr>, b, n)
       else
         (let order = next_order b to' (Some i);
              (c', m) = moved_card env to' order reason actor now undoable n c;
              b = update_card i (\<lambda>_. c') b;
              b = (if is_closed to' \<or> to' = Backlog then drop_queued i b else b);
              (unblocked, st) = (if is_closed to' then unblock_dependents env now i (b, m) else ([], (b, m))) in
          Inr (\<lparr>moved_changed = True, moved_unblocked = unblocked\<rparr>, st)))"

text \<open>The column in its order, with the card at the given position, is numbered from 0.\<close>

fun renumber :: "nat \<Rightarrow> string list \<Rightarrow> board \<Rightarrow> board" where
  "renumber k [] b = b"
| "renumber k (i # is') b = renumber (Suc k) is' (update_card i (\<lambda>c. c\<lparr>card_order := min (int k) i64_max\<rparr>) b)"

definition column_of :: "board \<Rightarrow> card_status \<Rightarrow> string \<Rightarrow> (int \<times> 64 word \<times> string) list" where
  "column_of b s i =
     sort (map (\<lambda>c. (card_order c, card_number c, card_id c))
       (filter (\<lambda>c. card_status c = s \<and> card_id c \<noteq> i) (board_cards b)))"

definition reorder_in :: "string \<Rightarrow> int \<Rightarrow> board \<Rightarrow> board" where
  "reorder_in i pos b =
     (case find_card b i of
        None \<Rightarrow> b
      | Some c \<Rightarrow>
        (let column = map (\<lambda>(_, _, j). j) (column_of b (card_status c) i);
             index = min (nat pos) (length column) in
         renumber 0 (take index column @ [i] @ drop index column) b))"

section \<open>Comments, assignment and claims\<close>

definition comment_in ::
  "board_env \<Rightarrow> string \<Rightarrow> board_actor \<Rightarrow> string \<Rightarrow> comment_mention list \<Rightarrow> string option \<Rightarrow> board_now \<Rightarrow> staged \<Rightarrow>
   board_error + (unit \<times> staged)" where
  "comment_in env i actor body mentions rid now = (\<lambda>(b, n).
     and_then (validate_comment_body body) (\<lambda>_.
       case find_card b i of
         None \<Rightarrow> Inl (BoardNotFound CARD_NOT_FOUND)
       | Some c \<Rightarrow>
         if MAX_COMMENTS_PER_CARD \<le> length (card_comments c)
         then Inl (BoardLimit ''This card has too many comments. Start a new card to continue.'')
         else
           (let comment = \<lparr>comment_id = uuid env n, comment_actor = actor, comment_body = body,
                  comment_mentions = mentions, comment_created_at = now_text now, comment_run_id = rid\<rparr> in
            Inr ((), update_card i (\<lambda>c. touch now (push_activity env (n + 1) actor now (Commented (uuid env n)) False
                   (c\<lparr>card_comments := card_comments c @ [comment]\<rparr>))) b, n + 2))))"

definition assign_in ::
  "board_env \<Rightarrow> string \<Rightarrow> teammate_ref option \<Rightarrow> board_actor \<Rightarrow> board_now \<Rightarrow> bool \<Rightarrow> staged \<Rightarrow> board_error + (bool \<times> staged)" where
  "assign_in env i teammate actor now undoable = (\<lambda>(b, n).
     if is_some_and teammate (\<lambda>t. \<not> assignable t) then Inl (NotAssignable TEAMMATE_NOT_ASSIGNABLE)
     else
       (let to' = map_option teammate_id teammate in
        case find_card b i of
          None \<Rightarrow> Inl (BoardNotFound CARD_NOT_FOUND)
        | Some c \<Rightarrow>
          if card_assignee c = to' then Inr (False, b, n)
          else
            (let b = update_card i (\<lambda>c. touch now (push_activity env n actor now
                       (ChangeAssigned (card_assignee c) to') undoable (c\<lparr>card_assignee := to'\<rparr>))) b in
             Inr (True,
               b\<lparr>board_pending_starts := filter (\<lambda>p. pending_card_id p \<noteq> i \<or> Some (pending_teammate_id p) = to')
                    (board_pending_starts b),
                 board_queued_starts := filter (\<lambda>q. queued_card_id q \<noteq> i \<or> Some (queued_teammate_id q) = to')
                    (board_queued_starts b)\<rparr>, Suc n))))"

definition claim_in ::
  "board_env \<Rightarrow> string \<Rightarrow> board_actor \<Rightarrow> board_now \<Rightarrow> bool \<Rightarrow> staged \<Rightarrow> board_error + (unit \<times> staged)" where
  "claim_in env i actor now undoable = (\<lambda>(b, n).
     case find_card b i of
       None \<Rightarrow> Inl (BoardNotFound CARD_NOT_FOUND)
     | Some c \<Rightarrow>
       if is_closed (card_status c) then Inl (BoardInvalid ''A closed card cannot be claimed.'')
       else
         (case keep_if (\<lambda>k. claim_live env k now) (card_claim c) of
            Some k \<Rightarrow>
              if claim_actor k \<noteq> actor then Inl AlreadyClaimed
              else Inr ((), update_card i (\<lambda>c. c\<lparr>card_claim :=
                     Some (k\<lparr>claim_expires_at := plus_seconds env now CLAIM_LEASE_SECONDS\<rparr>)\<rparr>) b, n)
          | None \<Rightarrow>
              Inr ((), update_card i (\<lambda>c. touch now (push_activity env n actor now Claimed undoable
                (c\<lparr>card_claim := Some \<lparr>claim_actor = actor, claim_run_id = None,
                     claim_claimed_at = now_text now,
                     claim_expires_at = plus_seconds env now CLAIM_LEASE_SECONDS\<rparr>\<rparr>))) b, Suc n)))"

definition release_in ::
  "board_env \<Rightarrow> string \<Rightarrow> board_actor \<Rightarrow> release_reason \<Rightarrow> board_now \<Rightarrow> staged \<Rightarrow> board_error + (bool \<times> staged)" where
  "release_in env i actor reason now = (\<lambda>(b, n).
     case find_card b i of
       None \<Rightarrow> Inl (BoardNotFound CARD_NOT_FOUND)
     | Some c \<Rightarrow>
       (case card_claim c of
          None \<Rightarrow> Inr (False, b, n)
        | Some k \<Rightarrow>
          if \<not> is_person actor \<and> claim_actor k \<noteq> actor \<and> claim_live env k now
          then Inl (BoardForbidden ''Only the agent holding this card can release it. Do not retry.'')
          else Inr (True, update_card i (\<lambda>c. touch now (push_activity env n actor now (Released reason) False
                 (c\<lparr>card_claim := None\<rparr>))) b, Suc n)))"

section \<open>Starting work\<close>

definition start_cooldown_active :: "board_env \<Rightarrow> board_card \<Rightarrow> board_now \<Rightarrow> bool" where
  "start_cooldown_active env c now =
     list_ex (\<lambda>a. (case activity_change a of
          RunStarted rid _ \<Rightarrow> list_ex (run_link_of rid) (card_links c)
        | _ \<Rightarrow> False) \<and>
        is_some_and (parse_rfc3339 env (activity_at a))
          (\<lambda>t. (now_at now - t) div 1000000000 < START_COOLDOWN_SECONDS)) (rev (card_activity c))"

definition own_run_card :: "board_card \<Rightarrow> board_actor \<Rightarrow> bool" where
  "own_run_card c actor =
     (case actor of
        RunMember rid _ _ _ \<Rightarrow>
          is_some_and (card_claim c) (\<lambda>k. claim_run_id k = Some rid) \<or> list_ex (run_link_of rid) (card_links c)
      | _ \<Rightarrow> False)"

definition add_pending_start ::
  "board_env \<Rightarrow> string \<Rightarrow> string \<Rightarrow> board_run_cause \<Rightarrow> board_actor \<Rightarrow> board_now \<Rightarrow> staged \<Rightarrow> bool \<times> staged" where
  "add_pending_start env i t cause actor now = (\<lambda>(b, n).
     if list_ex (\<lambda>p. pending_card_id p = i \<and> pending_teammate_id p = t) (board_pending_starts b) \<or>
        MAX_PENDING \<le> length (board_pending_starts b) then (False, b, n)
     else (True, b\<lparr>board_pending_starts := board_pending_starts b @
            [\<lparr>pending_id = uuid env n, pending_card_id = i, pending_teammate_id = t, pending_cause = cause,
              pending_requested_by = actor, pending_created_at = now_text now\<rparr>]\<rparr>, Suc n))"

definition may_start :: "card_status \<Rightarrow> bool" where
  "may_start s \<longleftrightarrow> s \<in> {Todo, InProgress, CardBlocked}"

definition wake_in ::
  "board_env \<Rightarrow> string \<Rightarrow> teammate_ref \<Rightarrow> teammate_start_rule \<Rightarrow> board_run_cause \<Rightarrow> board_actor \<Rightarrow> 8 word \<Rightarrow> bool \<Rightarrow>
   board_now \<Rightarrow> staged \<Rightarrow> start_plan option \<times> staged" where
  "wake_in env i t rule cause actor chain_depth starter_available now = (\<lambda>(b, n).
     case find_card b i of
       None \<Rightarrow> (None, b, n)
     | Some c \<Rightarrow>
       if \<not> may_start (card_status c) \<or> is_some_and (card_claim c) (\<lambda>k. claim_live env k now) \<or>
          \<not> assignable t \<or> own_run_card c actor then (None, b, n)
       else
         (let ask = (None, snd (add_pending_start env i (teammate_id t) cause actor now (b, n))) in
          case rule of
            RuleNever \<Rightarrow> (None, b, n)
          | RuleAsk \<Rightarrow> ask
          | RuleAlways \<Rightarrow>
              if MAX_TRIGGER_CHAIN_DEPTH < chain_depth \<or> start_cooldown_active env c now \<or> \<not> starter_available
              then ask
              else (Some \<lparr>plan_card_id = i, plan_teammate_id = teammate_id t, plan_cause = cause,
                          plan_chain_depth = chain_depth, plan_actor = actor\<rparr>, b, n)))"

definition wake_assignee ::
  "board_env \<Rightarrow> string \<Rightarrow> teammate_ref list \<Rightarrow> board_run_cause \<Rightarrow> board_actor \<Rightarrow> 8 word \<Rightarrow> bool \<Rightarrow> board_now \<Rightarrow>
   start_plan list \<times> staged \<Rightarrow> start_plan list \<times> staged" where
  "wake_assignee env i teammates cause actor chain_depth starter_available now = (\<lambda>(plans, st).
     case Option.bind (find_card (fst st) i) card_assignee of
       None \<Rightarrow> (plans, st)
     | Some assignee \<Rightarrow>
       (case find (\<lambda>t. teammate_id t = assignee) teammates of
          None \<Rightarrow> (plans, st)
        | Some t \<Rightarrow>
          (case wake_in env i t (teammate_on_assign t) cause actor chain_depth starter_available now st of
             (Some plan, st') \<Rightarrow> (plans @ [plan], st')
           | (None, st') \<Rightarrow> (plans, st'))))"

section \<open>Undo\<close>

definition existing_only :: "board \<Rightarrow> card_patch \<Rightarrow> card_patch" where
  "existing_only b p =
     (let p = (case patch_parent_id p of
          Some (Some parent) \<Rightarrow> if find_card b parent = None then p\<lparr>patch_parent_id := Some None\<rparr> else p
        | _ \<Rightarrow> p) in
      p\<lparr>patch_blocked_by := map_option (filter (\<lambda>i. find_card b i \<noteq> None)) (patch_blocked_by p)\<rparr>)"

definition revert_change ::
  "board_env \<Rightarrow> string \<Rightarrow> card_activity \<Rightarrow> board_card \<Rightarrow> board_now \<Rightarrow> staged \<Rightarrow> board_error + staged" where
  "revert_change env i a c now = (\<lambda>(b, n).
     case activity_change a of
       Moved from' to' _ \<Rightarrow>
         if card_status c \<noteq> to' then Inl BoardRevisionConflict
         else and_then (set_status_in env i from' None Person now False (b, n)) (\<lambda>(_, st). Inr st)
     | ChangeAssigned from' to' \<Rightarrow>
         if card_assignee c \<noteq> to' then Inl BoardRevisionConflict
         else Inr (update_card i (\<lambda>c. touch now (push_activity env n Person now (ChangeAssigned to' from') False
                (c\<lparr>card_assignee := from'\<rparr>))) b, Suc n)
     | Edited _ previous \<Rightarrow>
         and_then (apply_patch_in env i (existing_only b previous) Person now False (b, n)) (\<lambda>(_, st). Inr st)
     | Claimed \<Rightarrow>
         if \<not> is_some_and (card_claim c) (\<lambda>k. claim_actor k = activity_actor a \<and> claim_run_id k = None)
         then Inl BoardRevisionConflict
         else and_then (release_in env i Person ReleaseReleased now (b, n)) (\<lambda>(_, st). Inr st)
     | _ \<Rightarrow> Inl (BoardInvalid ''That change cannot be undone.''))"

definition undo_in ::
  "board_env \<Rightarrow> string \<Rightarrow> string \<Rightarrow> board_now \<Rightarrow> staged \<Rightarrow> board_error + (unit \<times> staged)" where
  "undo_in env i aid now = (\<lambda>(b, n).
     case find_card b i of
       None \<Rightarrow> Inl (BoardNotFound CARD_NOT_FOUND)
     | Some c \<Rightarrow>
       (case find (\<lambda>a. activity_id a = aid) (card_activity c) of
          None \<Rightarrow> Inl (BoardNotFound ''That change is no longer in the card history.'')
        | Some a \<Rightarrow>
          if \<not> activity_undoable a \<or> list_ex (\<lambda>e. activity_change e = Reverted aid) (card_activity c)
          then Inl (BoardInvalid ''That change cannot be undone.'')
          else and_then (revert_change env i a c now (b, n)) (\<lambda>(b, n).
            if find_card b i = None then Inl (BoardNotFound CARD_NOT_FOUND)
            else Inr ((), update_card i (\<lambda>c. touch now (push_activity env n Person now (Reverted aid) False c)) b,
                      Suc n))))"

section \<open>Proposals\<close>

definition propose_in ::
  "board_env \<Rightarrow> board_actor \<Rightarrow> string option \<Rightarrow> board_operation \<Rightarrow> board_now \<Rightarrow> staged \<Rightarrow> board_error + (string \<times> staged)" where
  "propose_in env actor i operation now = (\<lambda>(b, n).
     if MAX_PENDING \<le> length (filter (\<lambda>p. proposal_status p = ProposalPending) (board_proposals b))
     then Inl (BoardLimit ''Too many proposals wait for the person. Do not retry; ask them to review the Inbox.'')
     else Inr (uuid env n, b\<lparr>board_proposals := board_proposals b @
            [\<lparr>proposal_id = uuid env n, proposal_card_id = i, proposal_operation = operation,
              proposal_actor = actor, proposal_created_at = now_text now, proposal_status = ProposalPending\<rparr>]\<rparr>, Suc n))"

fun session_of :: "board_actor \<Rightarrow> session_ref option" where
  "session_of (ChatAgent s h) = Some \<lparr>session_ref_id = s, session_ref_harness = h\<rparr>"
| "session_of _ = None"

definition apply_proposal_in ::
  "board_env \<Rightarrow> board_proposal \<Rightarrow> teammate_ref list \<Rightarrow> bool \<Rightarrow> board_now \<Rightarrow> staged \<Rightarrow>
   board_error + (start_plan list \<times> staged)" where
  "apply_proposal_in env proposal teammates starter_available now st =
     (let author = proposal_actor proposal in
      case proposal_operation proposal of
        OpCreate draft s \<Rightarrow>
          and_then (create_in env author draft s (session_of author) now st) (\<lambda>(_, st). Inr ([], st))
      | OpUpdate i patch \<Rightarrow>
          and_then (apply_patch_in env i patch author now False st) (\<lambda>(_, st). Inr ([], st))
      | OpMove i to' reason \<Rightarrow>
          and_then (set_status_in env i to' reason author now False st) (\<lambda>(m, st).
            Inr (fold (\<lambda>u. wake_assignee env u teammates Unblocked Person 0 starter_available now)
                   (moved_unblocked m) ([], st)))
      | OpComment i body \<Rightarrow>
          and_then (comment_in env i author body [] None now st) (\<lambda>(_, st). Inr ([], st))
      | OpAssign i t \<Rightarrow>
          and_then (check_option (find_teammate teammates) t) (\<lambda>teammate.
          and_then (assign_in env i teammate author now False st) (\<lambda>(changed, st).
            case keep_if (\<lambda>_. changed) teammate of
              None \<Rightarrow> Inr ([], st)
            | Some t \<Rightarrow>
              (case wake_in env i t (teammate_on_assign t) Assigned Person 0 starter_available now st of
                 (Some plan, st) \<Rightarrow> Inr ([plan], st)
               | (None, st) \<Rightarrow> Inr ([], st)))))"

fun drop_resolved :: "nat \<Rightarrow> board_proposal list \<Rightarrow> board_proposal list" where
  "drop_resolved excess [] = []"
| "drop_resolved excess (p # ps) =
     (if 0 < excess \<and> proposal_status p \<noteq> ProposalPending then drop_resolved (excess - 1) ps
      else p # drop_resolved excess ps)"

definition prune_proposals :: "board \<Rightarrow> board" where
  "prune_proposals b =
     (let resolved = length (filter (\<lambda>p. proposal_status p \<noteq> ProposalPending) (board_proposals b)) in
      b\<lparr>board_proposals := drop_resolved (resolved - MAX_RESOLVED_PROPOSALS) (board_proposals b)\<rparr>)"

section \<open>The end of a run\<close>

definition run_end_status :: "run_outcome \<Rightarrow> bool \<Rightarrow> card_status \<Rightarrow> card_status option" where
  "run_end_status outcome run_held_claim s =
     (if \<not> run_held_claim \<or> is_closed s then None
      else case outcome of
        BoardRunSucceeded \<Rightarrow> if s = InReview then None else Some InReview
      | BoardRunFailed \<Rightarrow> if s = CardBlocked then None else Some CardBlocked
      | BoardRunCancelled \<Rightarrow> None)"

definition run_end_recorded :: "board_card \<Rightarrow> string \<Rightarrow> bool" where
  "run_end_recorded c rid \<longleftrightarrow>
     list_ex (\<lambda>a. case activity_change a of ChangeRunFinished finished _ \<Rightarrow> finished = rid | _ \<Rightarrow> False)
       (card_activity c) \<or>
     list_ex (\<lambda>k. comment_actor k = HostActor \<and> comment_run_id k = Some rid) (card_comments c)"

definition run_end_comment :: "run_end \<Rightarrow> string option \<Rightarrow> string option" where
  "run_end_comment e handle =
     (let who = (case handle of None \<Rightarrow> ''The run'' | Some h \<Rightarrow> ''@'' @ h) in
      case e of
        EndSucceeded result \<Rightarrow>
          Some (case map_option trim result of
              None \<Rightarrow> who @ '' finished without a text result.''
            | Some t \<Rightarrow>
                if t = [] then who @ '' finished without a text result.''
                else
                  (let truncated = truncate_bytes t MAX_RUN_RESULT_BYTES in
                   who @ '' finished. Result:'' @ [CHR 0x0A, CHR 0x0A] @ truncated @
                   (if length truncated < length t
                    then [CHR 0x0A, CHR 0x0A] @ ''(Result truncated; open the run for the rest.)'' else [])))
      | EndFailed reason \<Rightarrow> Some (truncate_bytes (who @ '' failed: '' @ reason) MAX_RUN_RESULT_BYTES)
      | EndCancelled \<Rightarrow> None)"

section \<open>Reading\<close>

text \<open>\<^verbatim>\<open>sort_by\<close> is stable: an element goes before the first later one that is not smaller.\<close>

fun insert_by :: "('a \<Rightarrow> 'a \<Rightarrow> bool) \<Rightarrow> 'a \<Rightarrow> 'a list \<Rightarrow> 'a list" where
  "insert_by le x [] = [x]"
| "insert_by le x (y # ys) = (if le x y then x # y # ys else y # insert_by le x ys)"

definition sort_by :: "('a \<Rightarrow> 'a \<Rightarrow> bool) \<Rightarrow> 'a list \<Rightarrow> 'a list" where
  "sort_by le xs = foldr (insert_by le) xs []"

definition session_order :: "board_card \<times> string \<Rightarrow> board_card \<times> string \<Rightarrow> bool" where
  "session_order = (\<lambda>(l, ls) (r, rs).
     let lc = is_closed (card_status l); rc = is_closed (card_status r) in
     if lc \<noteq> rc then rc
     else if ls \<noteq> rs then rs < ls
     else card_number r \<le> card_number l)"

definition session_cards_of :: "board \<Rightarrow> string \<Rightarrow> board_card list" where
  "session_cards_of b sid =
     map fst (sort_by session_order
       (List.map_filter (\<lambda>c. map_option (\<lambda>l. (c, link_since l)) (find (session_link_of sid) (card_links c)))
          (board_cards b)))"

definition queue_order :: "queued_start \<Rightarrow> queued_start \<Rightarrow> bool" where
  "queue_order l r \<longleftrightarrow>
     (if priority_rank (qs_priority l) \<noteq> priority_rank (qs_priority r)
      then priority_rank (qs_priority l) < priority_rank (qs_priority r)
      else qs_seq l \<le> qs_seq r)"

text \<open>The cards that a change of the board touched, in the order of the new board, then the removed
  ones. Of several cards with one identifier the map of the previous board holds the last.\<close>

definition touched_cards :: "board \<Rightarrow> board \<Rightarrow> string list" where
  "touched_cards before after =
     (let previous = map_of (rev (map (\<lambda>c. (card_id c, c)) (board_cards before)));
          remaining = card_id ` set (board_cards after) in
      map card_id (filter (\<lambda>c. previous (card_id c) \<noteq> Some c) (board_cards after)) @
      map card_id (filter (\<lambda>c. card_id c \<notin> remaining) (board_cards before)))"

fun actor_label :: "board_actor \<Rightarrow> string" where
  "actor_label Person = ''person''"
| "actor_label (ChatAgent _ _) = ''chat agent''"
| "actor_label (RunMember _ _ _ _) = ''run agent''"
| "actor_label HostActor = ''PiUI''"

definition card_task_text :: "board_card \<Rightarrow> string" where
  "card_task_text c =
     (let nl = [CHR 0x0A];
          head = ''Board card #'' @ decimal (unat (card_number c)) @
            '' (untrusted task data from the project board)'' @ nl @ ''Title: '' @ card_title c @ nl @
            ''Status: '' @ status_as_str (card_status c) @ nl;
          labels = (if card_labels c = [] then [] else ''Labels: '' @ join '', '' (card_labels c) @ nl);
          description = (if is_blank_text (card_description c) then []
            else nl @ ''Description:'' @ nl @ card_description c @ nl);
          start = length (card_comments c) - RUN_TEXT_COMMENTS;
          comments = (if start < length (card_comments c)
            then nl @ ''Recent comments:'' @ nl @
              concat (map (\<lambda>k. ''- '' @ actor_label (comment_actor k) @ '' ('' @ comment_created_at k @ ''): '' @
                comment_body k @ nl) (drop start (card_comments c)))
            else []) in
      truncate_bytes (head @ labels @ description @ comments) MAX_INPUT_TEXT_BYTES)"

end
