(* ===== verification/Board_Changes.thy ===== *)
theory Board_Changes
  imports Board_Ops
begin

text \<open>
  The changes that the methods of \<^verbatim>\<open>BoardService\<close> hand to \<^verbatim>\<open>transact\<close>
  (\<^verbatim>\<open>src/apps/desktop/src-tauri/src/board/ops.rs\<close>), one definition per closure: they compose the operations of
  \<open>Board_Ops\<close> and are composed with the store and the run starter in \<open>Board_Service\<close>.
\<close>

section \<open>Settings and cards\<close>

definition set_enabled_in :: "bool \<Rightarrow> staged \<Rightarrow> board_error + (unit \<times> staged)" where
  "set_enabled_in enabled = (\<lambda>(b, n). Inr ((), b\<lparr>board_enabled := enabled\<rparr>, n))"

definition update_settings_in :: "64 word \<Rightarrow> board_settings \<Rightarrow> staged \<Rightarrow> board_error + (unit \<times> staged)" where
  "update_settings_in expected settings = (\<lambda>(b, n).
     if board_revision b \<noteq> expected then Inl BoardRevisionConflict
     else Inr ((), b\<lparr>board_settings := settings\<rparr>, n))"

definition create_card_in ::
  "board_env \<Rightarrow> board_actor \<Rightarrow> card_draft \<Rightarrow> card_status option \<Rightarrow> session_ref option \<Rightarrow> board_now \<Rightarrow> staged \<Rightarrow>
   board_error + (string \<times> staged)" where
  "create_card_in env actor draft s session now = (\<lambda>(b, n).
     and_then (require_enabled b) (\<lambda>_. create_in env actor draft s session now (b, n)))"

definition update_card_in ::
  "board_env \<Rightarrow> board_actor \<Rightarrow> string \<Rightarrow> 64 word option \<Rightarrow> card_patch \<Rightarrow> bool \<Rightarrow> board_now \<Rightarrow> staged \<Rightarrow>
   board_error + (unit \<times> staged)" where
  "update_card_in env actor i expected patch undoable now = (\<lambda>(b, n).
     and_then (require_enabled b) (\<lambda>_.
       case find_card b i of
         None \<Rightarrow> Inl (BoardNotFound CARD_NOT_FOUND)
       | Some c \<Rightarrow>
         if is_some_and expected (\<lambda>r. r \<noteq> card_revision c) then Inl BoardRevisionConflict
         else and_then (apply_patch_in env i patch actor now undoable (b, n)) (\<lambda>(_, st). Inr ((), st))))"

definition move_card_in ::
  "board_env \<Rightarrow> board_actor \<Rightarrow> string \<Rightarrow> card_status \<Rightarrow> int option \<Rightarrow> string option \<Rightarrow> bool \<Rightarrow> teammate_ref list \<Rightarrow> bool \<Rightarrow>
   board_now \<Rightarrow> staged \<Rightarrow> board_error + (start_plan list \<times> staged)" where
  "move_card_in env actor i to' order reason undoable teammates starter_available now = (\<lambda>(b, n).
     and_then (require_enabled b) (\<lambda>_.
     and_then (set_status_in env i to' reason actor now undoable (b, n)) (\<lambda>(m, b, n).
       let b = (case order of None \<Rightarrow> b | Some pos \<Rightarrow> reorder_in i pos b);
           depth = cause_depth actor 0;
           st = (if moved_changed m \<and> to' = Todo \<and> is_person actor
                 then wake_assignee env i teammates MovedToTodo actor depth starter_available now ([], (b, n))
                 else ([], (b, n))) in
       Inr (fold (\<lambda>u. wake_assignee env u teammates Unblocked actor depth starter_available now)
              (moved_unblocked m) st))))"

definition detach_card :: "string \<Rightarrow> board_now \<Rightarrow> board_card \<Rightarrow> board_card" where
  "detach_card i now c =
     (let before = length (card_blocked_by c);
          c = c\<lparr>card_blocked_by := filter (\<lambda>j. j \<noteq> i) (card_blocked_by c)\<rparr>;
          orphaned = (card_parent_id c = Some i);
          c = (if orphaned then c\<lparr>card_parent_id := None\<rparr> else c) in
      if orphaned \<or> before \<noteq> length (card_blocked_by c) then touch now c else c)"

definition delete_card_in ::
  "board_env \<Rightarrow> string \<Rightarrow> 64 word \<Rightarrow> board_now \<Rightarrow> staged \<Rightarrow> board_error + (unit \<times> staged)" where
  "delete_card_in env i expected now = (\<lambda>(b, n).
     and_then (require_enabled b) (\<lambda>_.
       case find_card b i of
         None \<Rightarrow> Inl (BoardNotFound CARD_NOT_FOUND)
       | Some c \<Rightarrow>
         if card_revision c \<noteq> expected then Inl BoardRevisionConflict
         else if is_some_and (card_claim c) (\<lambda>k. claim_run_id k \<noteq> None \<and> claim_live env k now)
         then Inl AlreadyClaimed
         else
           Inr ((), drop_queued i (drop_pending i
             (b\<lparr>board_cards := map (detach_card i now) (filter (\<lambda>c. card_id c \<noteq> i) (board_cards b)),
                board_proposals := filter (\<lambda>p. proposal_card_id p \<noteq> Some i) (board_proposals b)\<rparr>)), n)))"

section \<open>Comments and assignment\<close>

definition wake_mentioned ::
  "board_env \<Rightarrow> string \<Rightarrow> board_actor \<Rightarrow> bool \<Rightarrow> board_now \<Rightarrow> teammate_ref \<Rightarrow> start_plan list \<times> staged \<Rightarrow>
   start_plan list \<times> staged" where
  "wake_mentioned env i actor starter_available now t = (\<lambda>(plans, st).
     case wake_in env i t (teammate_on_assign t) Mention actor 0 starter_available now st of
       (Some plan, st) \<Rightarrow> (plans @ [plan], st)
     | (None, st) \<Rightarrow> (plans, st))"

definition comment_card_in ::
  "board_env \<Rightarrow> board_actor \<Rightarrow> string \<Rightarrow> string \<Rightarrow> comment_mention list \<Rightarrow> string option \<Rightarrow> teammate_ref list \<Rightarrow> bool \<Rightarrow>
   board_now \<Rightarrow> staged \<Rightarrow> board_error + (start_plan list \<times> staged)" where
  "comment_card_in env actor i body mentions rid teammates starter_available now = (\<lambda>(b, n).
     and_then (require_enabled b) (\<lambda>_.
     and_then (comment_in env i actor body mentions rid now (b, n)) (\<lambda>(_, st).
       if is_person actor
       then Inr (fold (wake_mentioned env i actor starter_available now)
              (filter (\<lambda>t. teammate_on_mention t \<and> teammate_id t \<in> set (map mention_teammate_id mentions)) teammates)
              ([], st))
       else Inr ([], st))))"

fun start_rule :: "card_start_mode \<Rightarrow> teammate_ref \<Rightarrow> teammate_start_rule" where
  "start_rule StartAsk t = teammate_on_assign t"
| "start_rule StartNow t = RuleAlways"
| "start_rule StartLater t = RuleNever"

text \<open>The answer: nothing to start, a request that waits for the person (\<open>Inl\<close>), or a start (\<open>Inr\<close>).\<close>

definition assign_card_in ::
  "board_env \<Rightarrow> board_actor \<Rightarrow> string \<Rightarrow> teammate_ref option \<Rightarrow> card_start_mode \<Rightarrow> 8 word \<Rightarrow> bool \<Rightarrow> bool \<Rightarrow>
   board_now \<Rightarrow> staged \<Rightarrow> board_error + ((unit + start_plan) option \<times> staged)" where
  "assign_card_in env actor i teammate start chain_depth undoable starter_available now = (\<lambda>(b, n).
     and_then (require_enabled b) (\<lambda>_.
     and_then (assign_in env i teammate actor now undoable (b, n)) (\<lambda>(changed, b, n).
       case teammate of
         None \<Rightarrow> Inr (None, b, n)
       | Some t \<Rightarrow>
         if \<not> changed \<and> start \<noteq> StartNow then Inr (None, b, n)
         else
           (case wake_in env i t (start_rule start t) Assigned actor chain_depth starter_available now (b, n) of
              (Some plan, st) \<Rightarrow> Inr (Some (Inr plan), st)
            | (None, st) \<Rightarrow>
                if length (board_pending_starts b) < length (board_pending_starts (fst st))
                then Inr (Some (Inl ()), st) else Inr (None, st)))))"

definition drop_pending_in :: "string \<Rightarrow> staged \<Rightarrow> board_error + (unit \<times> staged)" where
  "drop_pending_in pid = (\<lambda>(b, n).
     Inr ((), b\<lparr>board_pending_starts := filter (\<lambda>p. pending_id p \<noteq> pid) (board_pending_starts b)\<rparr>, n))"

section \<open>Runs of a card\<close>

definition RUN_NEEDS_OPEN_CARD :: board_error where
  "RUN_NEEDS_OPEN_CARD = BoardInvalid ''Reopen the card before starting a run.''"

definition claim_for_run :: "board_env \<Rightarrow> string \<Rightarrow> string \<Rightarrow> board_actor \<Rightarrow> board_now \<Rightarrow> nat \<Rightarrow> board_card \<Rightarrow> board_card" where
  "claim_for_run env rid t actor now n c =
     touch now (push_activity env n actor now (RunStarted rid t) False
       (c\<lparr>card_claim := Some \<lparr>claim_actor = HostActor, claim_run_id = Some rid, claim_claimed_at = now_text now,
              claim_expires_at = plus_seconds env now CLAIM_LEASE_SECONDS\<rparr>,
          card_links := card_links c @ [RunLink rid (Some t) (now_text now)]\<rparr>))"

text \<open>The generation that starts a run: it answers the previous status, the task text and the number.\<close>

definition begin_run_in ::
  "board_env \<Rightarrow> string \<Rightarrow> string \<Rightarrow> string \<Rightarrow> board_actor \<Rightarrow> board_now \<Rightarrow> staged \<Rightarrow>
   board_error + ((card_status \<times> string \<times> 64 word) \<times> staged)" where
  "begin_run_in env rid i t actor now = (\<lambda>(b, n).
     and_then (require_enabled b) (\<lambda>_.
       case find_card b i of
         None \<Rightarrow> Inl (BoardNotFound CARD_NOT_FOUND)
       | Some c \<Rightarrow>
         if is_closed (card_status c) then Inl RUN_NEEDS_OPEN_CARD
         else if is_some_and (card_claim c) (\<lambda>k. claim_live env k now) then Inl AlreadyClaimed
         else
           and_then (if card_status c \<noteq> InProgress
                     then and_then (set_status_in env i InProgress None actor now False (b, n)) (\<lambda>(_, st). Inr st)
                     else Inr (b, n)) (\<lambda>(b, n).
             case find_card b i of
               None \<Rightarrow> Inl (BoardNotFound CARD_NOT_FOUND)
             | Some d \<Rightarrow>
               (let d' = claim_for_run env rid t actor now n d in
                Inr ((card_status c, card_task_text d', card_number c),
                     drop_queued i (drop_pending i (update_card i (\<lambda>_. d') b)), Suc n)))))"

definition unclaim_run :: "string \<Rightarrow> board_card \<Rightarrow> board_card" where
  "unclaim_run rid c =
     (let c = (if is_some_and (card_claim c) (\<lambda>k. claim_run_id k = Some rid) then c\<lparr>card_claim := None\<rparr> else c) in
      c\<lparr>card_links := filter (\<lambda>l. \<not> run_link_of rid l) (card_links c)\<rparr>)"

definition rollback_run_in ::
  "board_env \<Rightarrow> string \<Rightarrow> string \<Rightarrow> card_status \<Rightarrow> string \<Rightarrow> board_error \<Rightarrow> board_now \<Rightarrow> staged \<Rightarrow>
   board_error + (unit \<times> staged)" where
  "rollback_run_in env rid i previous_status handle error now = (\<lambda>(b, n).
     case find_card b i of
       None \<Rightarrow> Inr ((), b, n)
     | Some c \<Rightarrow>
       (let restore = (card_status c = InProgress \<and> previous_status \<noteq> InProgress);
            b = update_card i (\<lambda>c. touch now (unclaim_run rid c)) b;
            b = (if restore
                 then (let order = next_order b previous_status (Some i) in
                       update_card i (\<lambda>c. c\<lparr>card_status := previous_status, card_order := order\<rparr>) b)
                 else b) in
        comment_in env i HostActor (''Could not start @'' @ handle @ '': '' @ error_message error) [] None now (b, n)))"

definition finish_card :: "board_env \<Rightarrow> string \<Rightarrow> run_outcome \<Rightarrow> board_now \<Rightarrow> board_card \<times> nat \<Rightarrow> board_card \<times> nat" where
  "finish_card env rid outcome now = (\<lambda>(c, n).
     let (c, n) = (if is_some_and (card_claim c) (\<lambda>k. claim_run_id k = Some rid)
                   then (push_activity env n HostActor now (Released ReleaseRunEnded) False (c\<lparr>card_claim := None\<rparr>), Suc n)
                   else (c, n)) in
     (touch now (push_activity env n HostActor now (ChangeRunFinished rid outcome) False c), Suc n))"

definition finish_run_in ::
  "board_env \<Rightarrow> string \<Rightarrow> string \<Rightarrow> string option \<Rightarrow> run_end \<Rightarrow> board_now \<Rightarrow> staged \<Rightarrow> board_error + (bool \<times> staged)" where
  "finish_run_in env i rid handle e now = (\<lambda>(b, n).
     case find_card b i of
       None \<Rightarrow> Inr (False, b, n)
     | Some c \<Rightarrow>
       (let holds = is_some_and (card_claim c) (\<lambda>k. claim_run_id k = Some rid) in
        if run_end_recorded c rid then
          (if holds
           then Inr (True, update_card i (\<lambda>c. touch now (push_activity env n HostActor now (Released ReleaseRunEnded) False
                  (c\<lparr>card_claim := None\<rparr>))) b, Suc n)
           else Inr (False, b, n))
        else
          (let (c', n) = finish_card env rid (end_outcome e) now (c, n);
               st = (update_card i (\<lambda>_. c') b, n);
               st = (case run_end_comment e handle of
                       None \<Rightarrow> st
                     | Some body \<Rightarrow>
                       (case comment_in env i HostActor body [] (Some rid) now st of Inl _ \<Rightarrow> st | Inr (_, st') \<Rightarrow> st')) in
           case run_end_status (end_outcome e) holds (card_status c) of
             None \<Rightarrow> Inr (True, st)
           | Some to' \<Rightarrow> and_then (set_status_in env i to' None HostActor now False st) (\<lambda>(_, st). Inr (True, st)))))"

section \<open>The queue\<close>

definition enqueue_in ::
  "board_env \<Rightarrow> string \<Rightarrow> string \<Rightarrow> board_run_cause \<Rightarrow> board_actor \<Rightarrow> 8 word \<Rightarrow> board_now \<Rightarrow> staged \<Rightarrow>
   board_error + (unit \<times> staged)" where
  "enqueue_in env i t cause actor chain_depth now = (\<lambda>(b, n).
     and_then (require_enabled b) (\<lambda>_.
       if find_card b i = None then Inl (BoardNotFound CARD_NOT_FOUND)
       else if list_ex (\<lambda>q. queued_card_id q = i \<and> queued_teammate_id q = t) (board_queued_starts b)
       then Inr ((), b, n)
       else
         (let b = drop_queued i b in
          if MAX_QUEUED_STARTS \<le> length (board_queued_starts b)
          then Inl (BoardLimit ''Too many runs wait for a free slot. Try again later.'')
          else
            (let b = b\<lparr>board_queued_starts := board_queued_starts b @
                   [\<lparr>queued_id = uuid env n, queued_card_id = i, queued_teammate_id = t, queued_cause = cause,
                     queued_chain_depth = chain_depth, queued_requested_by = actor, queued_created_at = now_text now\<rparr>]\<rparr> in
             Inr ((), update_card i (\<lambda>c. touch now (push_activity env (n + 1) actor now (ChangeQueued t) False c)) b,
                  n + 2)))))"

definition dequeue_card_in :: "string \<Rightarrow> staged \<Rightarrow> board_error + (unit \<times> staged)" where
  "dequeue_card_in i = (\<lambda>(b, n). Inr ((), drop_queued i b, n))"

definition drop_queued_of :: "string \<Rightarrow> board \<Rightarrow> board" where
  "drop_queued_of t b =
     b\<lparr>board_queued_starts := filter (\<lambda>q. queued_teammate_id q \<noteq> t) (board_queued_starts b)\<rparr>"

definition forget_queued_starts_in :: "string \<Rightarrow> staged \<Rightarrow> board_error + (unit \<times> staged)" where
  "forget_queued_starts_in t = (\<lambda>(b, n). Inr ((), drop_queued_of t b, n))"

section \<open>Changes of every card\<close>

text \<open>A loop over the cards that draws identifiers.\<close>

fun each_card :: "(nat \<Rightarrow> board_card \<Rightarrow> board_card \<times> nat) \<Rightarrow> board_card list \<Rightarrow> nat \<Rightarrow> board_card list \<times> nat" where
  "each_card f [] n = ([], n)"
| "each_card f (c # cs) n = (let (c', m) = f n c; (cs', k) = each_card f cs m in (c' # cs', k))"

definition stale_reason :: "board_env \<Rightarrow> (string \<Rightarrow> bool) \<Rightarrow> board_now \<Rightarrow> card_claim \<Rightarrow> release_reason option" where
  "stale_reason env run_active now k =
     (case claim_run_id k of
        Some rid \<Rightarrow> if run_active rid then None else Some ReleaseRunEnded
      | None \<Rightarrow> if claim_live env k now then None else Some ReleaseExpired)"

definition sweep_card :: "board_env \<Rightarrow> (string \<Rightarrow> bool) \<Rightarrow> board_now \<Rightarrow> nat \<Rightarrow> board_card \<Rightarrow> board_card \<times> nat" where
  "sweep_card env run_active now n c =
     (case Option.bind (card_claim c) (stale_reason env run_active now) of
        None \<Rightarrow> (c, n)
      | Some reason \<Rightarrow>
          (touch now (push_activity env n HostActor now (Released reason) False (c\<lparr>card_claim := None\<rparr>)), Suc n))"

definition sweep_claims_in :: "board_env \<Rightarrow> (string \<Rightarrow> bool) \<Rightarrow> board_now \<Rightarrow> staged \<Rightarrow> board_error + (nat \<times> staged)" where
  "sweep_claims_in env run_active now = (\<lambda>(b, n).
     let released = length (filter (\<lambda>c. Option.bind (card_claim c) (stale_reason env run_active now) \<noteq> None) (board_cards b));
         (cs, m) = each_card (sweep_card env run_active now) (board_cards b) n in
     Inr (released, b\<lparr>board_cards := cs\<rparr>, m))"

definition unassign_card :: "board_env \<Rightarrow> string \<Rightarrow> board_now \<Rightarrow> nat \<Rightarrow> board_card \<Rightarrow> board_card \<times> nat" where
  "unassign_card env t now n c =
     (if card_assignee c = Some t
      then (touch now (push_activity env n HostActor now (ChangeAssigned (Some t) None) False (c\<lparr>card_assignee := None\<rparr>)), Suc n)
      else (c, n))"

definition forget_teammate_in :: "board_env \<Rightarrow> string \<Rightarrow> board_now \<Rightarrow> staged \<Rightarrow> board_error + (unit \<times> staged)" where
  "forget_teammate_in env t now = (\<lambda>(b, n).
     let b = b\<lparr>board_pending_starts := filter (\<lambda>p. pending_teammate_id p \<noteq> t) (board_pending_starts b)\<rparr>;
         (cs, m) = each_card (unassign_card env t now) (board_cards b) n in
     Inr ((), drop_queued_of t (b\<lparr>board_cards := cs\<rparr>), m))"

section \<open>Claims, chats, undo and proposals\<close>

definition release_claim_in :: "board_env \<Rightarrow> board_actor \<Rightarrow> string \<Rightarrow> board_now \<Rightarrow> staged \<Rightarrow> board_error + (unit \<times> staged)" where
  "release_claim_in env actor i now = (\<lambda>(b, n).
     and_then (require_enabled b) (\<lambda>_.
     and_then (release_in env i actor ReleaseReleased now (b, n)) (\<lambda>(_, st). Inr ((), st))))"

definition link_card_in ::
  "board_env \<Rightarrow> board_actor \<Rightarrow> string \<Rightarrow> session_ref \<Rightarrow> board_now \<Rightarrow> staged \<Rightarrow> board_error + (unit \<times> staged)" where
  "link_card_in env actor i session now = (\<lambda>(b, n).
     and_then (require_enabled b) (\<lambda>_.
       case find_card b i of
         None \<Rightarrow> Inl (BoardNotFound CARD_NOT_FOUND)
       | Some c \<Rightarrow> (let (c', m) = link_session_in env session actor now (c, n) in Inr ((), update_card i (\<lambda>_. c') b, m))))"

definition unlink_card_in ::
  "board_env \<Rightarrow> board_actor \<Rightarrow> string \<Rightarrow> string \<Rightarrow> board_now \<Rightarrow> staged \<Rightarrow> board_error + (unit \<times> staged)" where
  "unlink_card_in env actor i sid now = (\<lambda>(b, n).
     and_then (require_enabled b) (\<lambda>_.
       case find_card b i of
         None \<Rightarrow> Inl (BoardNotFound CARD_NOT_FOUND)
       | Some c \<Rightarrow>
         (case position (session_link_of sid) (card_links c) of
            None \<Rightarrow> Inr ((), b, n)
          | Some k \<Rightarrow>
            Inr ((), update_card i (\<lambda>c. touch now (push_activity env n actor now (Unlinked (card_links c ! k)) False
                   (c\<lparr>card_links := take k (card_links c) @ drop (Suc k) (card_links c)\<rparr>))) b, Suc n))))"

definition undo_card_in :: "board_env \<Rightarrow> string \<Rightarrow> string \<Rightarrow> board_now \<Rightarrow> staged \<Rightarrow> board_error + (unit \<times> staged)" where
  "undo_card_in env i aid now = (\<lambda>(b, n). and_then (require_enabled b) (\<lambda>_. undo_in env i aid now (b, n)))"

definition resolve_proposal_in ::
  "board_env \<Rightarrow> string \<Rightarrow> bool \<Rightarrow> teammate_ref list \<Rightarrow> bool \<Rightarrow> board_now \<Rightarrow> staged \<Rightarrow>
   board_error + (start_plan list \<times> staged)" where
  "resolve_proposal_in env pid accept teammates starter_available now = (\<lambda>(b, n).
     and_then (require_enabled b) (\<lambda>_.
       case find (\<lambda>p. proposal_id p = pid \<and> proposal_status p = ProposalPending) (board_proposals b) of
         None \<Rightarrow> Inl (BoardNotFound ''That proposal is no longer waiting.'')
       | Some proposal \<Rightarrow>
         and_then (if accept then apply_proposal_in env proposal teammates starter_available now (b, n)
                   else Inr ([], b, n)) (\<lambda>(plans, b, n).
           let status = (if accept then ProposalAccepted else ProposalRejected);
               b = b\<lparr>board_proposals := update_first (\<lambda>p. proposal_id p = pid)
                      (\<lambda>p. p\<lparr>proposal_status := status\<rparr>) (board_proposals b)\<rparr> in
           Inr (plans, prune_proposals b, n))))"

section \<open>Changes of the agent tool\<close>

text \<open>The closures of \<^verbatim>\<open>src/apps/desktop/src-tauri/src/board/agent.rs\<close> that are no single operation.\<close>

definition agent_link_in ::
  "board_env \<Rightarrow> board_actor \<Rightarrow> string \<Rightarrow> session_ref \<Rightarrow> board_now \<Rightarrow> staged \<Rightarrow> board_error + (unit \<times> staged)" where
  "agent_link_in env actor i session now = (\<lambda>(b, n).
     case find_card b i of
       None \<Rightarrow> Inl (BoardNotFound CARD_NOT_FOUND)
     | Some c \<Rightarrow> (let (c', m) = link_session_in env session actor now (c, n) in Inr ((), update_card i (\<lambda>_. c') b, m)))"

definition agent_assign_in ::
  "board_env \<Rightarrow> board_actor \<Rightarrow> string \<Rightarrow> teammate_ref \<Rightarrow> 8 word \<Rightarrow> bool \<Rightarrow> board_now \<Rightarrow> staged \<Rightarrow>
   board_error + ((start_plan option \<times> bool) \<times> staged)" where
  "agent_assign_in env actor i t depth starter_available now st =
     and_then (assign_in env i (Some t) actor now True st) (\<lambda>(changed, b, n).
       if \<not> changed then Inr ((None, False), b, n)
       else
         (let (plan, st) = wake_in env i t (teammate_on_assign t) Assigned actor depth starter_available now (b, n) in
          Inr ((plan, length (board_pending_starts b) < length (board_pending_starts (fst st))), st)))"

end
