(* ===== verification/Board_Store.thy ===== *)
theory Board_Store
  imports Board_Model Semver Schedules
begin

text \<open>
  The durable storage of boards (\<^verbatim>\<open>src/apps/desktop/src-tauri/src/board/store.rs\<close>): one directory per project, one
  create-only file per generation. A disk is a map from directory names to listings; the file system
  may refuse each step of a write, which the faults of the disk record, one per write. The document
  format (\<^verbatim>\<open>serde_json\<close>) is a parameter; \<open>codec_ok\<close> states what the store relies on.

  The locale \<open>board_store\<close> is the contract of the trait \<^verbatim>\<open>BoardStore\<close>, interpreted on the files.
\<close>

section \<open>Directory names\<close>

definition MAX_WORKSPACE_ID_BYTES :: nat where
  "MAX_WORKSPACE_ID_BYTES = 128"

definition is_plain_id :: "string \<Rightarrow> bool" where
  "is_plain_id w \<longleftrightarrow>
     list_all (\<lambda>c. is_ascii_alphanumeric c \<or> c = CHR ''-'' \<or> c = CHR ''_'') w \<and> strip_prefix ''x-'' w = None"

definition workspace_directory_name :: "string \<Rightarrow> board_error + string" where
  "workspace_directory_name w =
     (if w = [] \<or> MAX_WORKSPACE_ID_BYTES < length w then Inl (BoardInvalid ''That project id is not valid.'')
      else if is_plain_id w then Inr w
      else Inr (hex_identity ''x-'' w))"

section \<open>Generations\<close>

definition DOCUMENT_VERSION :: "32 word" where
  "DOCUMENT_VERSION = 1"

definition KEPT_GENERATIONS :: "64 word" where
  "KEPT_GENERATIONS = 3"

text \<open>\<^verbatim>\<open>{:020}\<close>: the last \<open>k\<close> decimal digits; a \<^verbatim>\<open>u64\<close> has at most twenty.\<close>

fun padded :: "nat \<Rightarrow> nat \<Rightarrow> string" where
  "padded 0 n = []"
| "padded (Suc k) n = padded k (n div 10) @ [char_of (48 + n mod 10)]"

definition generation_path :: "64 word \<Rightarrow> string" where
  "generation_path g = ''board-'' @ padded 20 (unat g) @ ''.json''"

definition strip_suffix :: "string \<Rightarrow> string \<Rightarrow> string option" where
  "strip_suffix p s = map_option rev (strip_prefix (rev p) (rev s))"

definition generation_from_path :: "string \<Rightarrow> 64 word option" where
  "generation_from_path name =
     Option.bind (Option.bind (strip_prefix ''board-'' name) (strip_suffix ''.json''))
       (\<lambda>digits. if length digits = 20 then parse_u64 digits else None)"

section \<open>Files\<close>

record board_document =
  doc_version :: "32 word"
  doc_generation :: "64 word"
  doc_board :: board

record document_codec =
  encode_document :: "board_document \<Rightarrow> string option"
  decode_document :: "string \<Rightarrow> board_document option"

text \<open>What is documented of \<^verbatim>\<open>serde_json\<close> on derived types: writing then reading gives the same value, and
  a truncated object is no JSON text.\<close>

definition codec_ok :: "document_codec \<Rightarrow> bool" where
  "codec_ok c \<longleftrightarrow>
     (\<forall>d s. encode_document c d = Some s \<longrightarrow>
        decode_document c s = Some d \<and> (\<forall>k < length s. decode_document c (take k s) = None))"

datatype board_file = Unreadable | FileBytes string

record directory =
  dir_listable :: bool
  dir_files :: "(string \<times> board_file) list"

text \<open>What goes wrong in a write: creating the directory, opening the file, or writing, flushing and
  syncing it, after some bytes; then the file is removed, which may fail too.\<close>

datatype write_fault = NoFault | CreateDirFails | OpenFails | WriteFails nat bool

record disk =
  disk_dirs :: "(string, directory) btree_map"
  disk_faults :: "write_fault list"
  disk_removable :: "string \<Rightarrow> bool"

fun load_step ::
  "document_codec \<Rightarrow> string \<Rightarrow> string \<times> board_file \<Rightarrow> (64 word \<times> board) option \<Rightarrow> (64 word \<times> board) option" where
  "load_step codec w (name, f) newest =
     (case generation_from_path name of
        None \<Rightarrow> newest
      | Some g \<Rightarrow>
        if is_some_and newest (\<lambda>(cur, _). g \<le> cur) then newest
        else
          (case f of
             Unreadable \<Rightarrow> newest
           | FileBytes bytes \<Rightarrow>
             (case decode_document codec bytes of
                None \<Rightarrow> newest
              | Some d \<Rightarrow>
                if doc_version d \<noteq> DOCUMENT_VERSION \<or> doc_generation d \<noteq> g \<or> board_workspace_id (doc_board d) \<noteq> w
                then newest else Some (g, doc_board d))))"

definition load_dir :: "document_codec \<Rightarrow> string \<Rightarrow> directory option \<Rightarrow> board_error + board option" where
  "load_dir codec w dir =
     (case dir of
        None \<Rightarrow> Inr None
      | Some d \<Rightarrow>
        if \<not> dir_listable d then Inl BoardIo
        else Inr (map_option snd (fold (load_step codec w) (dir_files d) None)))"

definition load_board :: "document_codec \<Rightarrow> disk \<Rightarrow> string \<Rightarrow> board_error + board option" where
  "load_board codec disk w =
     and_then (workspace_directory_name w) (\<lambda>name. load_dir codec w (bm_get (disk_dirs disk) name))"

definition newest_generation :: "directory \<Rightarrow> 64 word" where
  "newest_generation d =
     (if dir_listable d then fold max (List.map_filter (\<lambda>(name, _). generation_from_path name) (dir_files d)) 0
      else 0)"

definition remove_old_generations :: "(string \<Rightarrow> bool) \<Rightarrow> 64 word \<Rightarrow> directory \<Rightarrow> directory" where
  "remove_old_generations removable current d =
     (let keep_from = (if current < KEPT_GENERATIONS - 1 then 0 else current - (KEPT_GENERATIONS - 1)) in
      if \<not> dir_listable d then d
      else d\<lparr>dir_files := filter (\<lambda>(name, _).
             \<not> (is_some_and (generation_from_path name) (\<lambda>g. g < keep_from) \<and> removable name)) (dir_files d)\<rparr>)"

definition add_file :: "string \<Rightarrow> string \<Rightarrow> directory \<Rightarrow> directory" where
  "add_file name bytes d = d\<lparr>dir_files := dir_files d @ [(name, FileBytes bytes)]\<rparr>"

text \<open>The write inside the project's directory.\<close>

definition save_dir ::
  "document_codec \<Rightarrow> (string \<Rightarrow> bool) \<Rightarrow> write_fault \<Rightarrow> board \<Rightarrow> directory \<Rightarrow> (board_error + unit) \<times> directory" where
  "save_dir codec removable fault b d =
     (if newest_generation d = - 1 then (Inl BoardIo, d)
      else
        (let g = newest_generation d + 1; name = generation_path g in
         case encode_document codec \<lparr>doc_version = DOCUMENT_VERSION, doc_generation = g, doc_board = b\<rparr> of
           None \<Rightarrow> (Inl BoardIo, d)
         | Some bytes \<Rightarrow>
           if fault = OpenFails \<or> name \<in> set (map fst (dir_files d)) then (Inl BoardIo, d)
           else
             (case fault of
                WriteFails written removed \<Rightarrow>
                  (Inl BoardIo, if removed then d else add_file name (take written bytes) d)
              | _ \<Rightarrow> (Inr (), remove_old_generations removable g (add_file name bytes d)))))"

definition next_fault :: "disk \<Rightarrow> write_fault" where
  "next_fault disk = (case disk_faults disk of [] \<Rightarrow> NoFault | f # _ \<Rightarrow> f)"

definition save_board :: "document_codec \<Rightarrow> board \<Rightarrow> disk \<Rightarrow> (board_error + unit) \<times> disk" where
  "save_board codec b disk =
     (case workspace_directory_name (board_workspace_id b) of
        Inl e \<Rightarrow> (Inl e, disk)
      | Inr name \<Rightarrow>
        (let fault = next_fault disk; disk = disk\<lparr>disk_faults := tl (disk_faults disk)\<rparr> in
         if fault = CreateDirFails then (Inl BoardIo, disk)
         else
           (let d = (case bm_get (disk_dirs disk) name of None \<Rightarrow> \<lparr>dir_listable = True, dir_files = []\<rparr> | Some d \<Rightarrow> d);
                (r, d) = save_dir codec (disk_removable disk) fault b d in
            (r, disk\<lparr>disk_dirs := bm_insert name d (disk_dirs disk)\<rparr>))))"

section \<open>Names are injective\<close>

lemma hex_digit_inj: "a < 16 \<Longrightarrow> b < 16 \<Longrightarrow> hex_digit a = hex_digit b \<longleftrightarrow> a = b"
  by (auto simp: hex_digit_def of_char_eq_iff[symmetric] split: if_splits simp del: of_char_eq_iff)

lemma byte_val_less: "byte_val c < 256"
  by (simp add: byte_val_def)

lemma hex_bytes_inj:
  "concat (map (\<lambda>b. [hex_digit (byte_val b div 16), hex_digit (byte_val b mod 16)]) s) =
   concat (map (\<lambda>b. [hex_digit (byte_val b div 16), hex_digit (byte_val b mod 16)]) t) \<Longrightarrow> s = t"
proof (induction s arbitrary: t)
  case Nil
  then show ?case by (cases t) auto
next
  case (Cons c s)
  then obtain d t' where t: "t = d # t'" by (cases t) auto
  have less: "byte_val x div 16 < 16" "byte_val x mod 16 < 16" for x
    using byte_val_less[of x] by auto
  from Cons.prems t have "byte_val c div 16 = byte_val d div 16" "byte_val c mod 16 = byte_val d mod 16"
    by (auto simp: hex_digit_inj less)
  then have "byte_val c = byte_val d" by (metis div_mult_mod_eq)
  moreover have "s = t'" using Cons.IH[of t'] Cons.prems t by simp
  ultimately show ?case using t by (simp add: byte_val_def)
qed

lemma hex_identity_prefix: "strip_prefix ''x-'' (hex_identity ''x-'' w) \<noteq> None"
  by (simp add: hex_identity_def)

lemma directory_name_inj:
  "workspace_directory_name v = Inr d \<Longrightarrow> workspace_directory_name w = Inr d \<Longrightarrow> v = w"
  using hex_identity_prefix[of v] hex_identity_prefix[of w]
  by (auto simp: workspace_directory_name_def is_plain_id_def hex_identity_def dest: hex_bytes_inj split: if_splits)

section \<open>Names of generations\<close>

lemma length_padded [simp]: "length (padded k n) = k"
  by (induction k arbitrary: n) auto

lemma digit_char: "n < 10 \<Longrightarrow> is_ascii_digit (char_of (48 + n)) \<and> digit_val (char_of (48 + n)) = n"
  by (simp add: ascii_defs digit_val_def of_char_of)

lemma padded_digits: "list_all is_ascii_digit (padded k n)"
  by (induction k arbitrary: n) (simp_all add: digit_char)

lemma padded_value: "foldl (\<lambda>a c. a * 10 + digit_val c) 0 (padded k n) = n mod 10 ^ k"
  by (induction k arbitrary: n) (simp_all add: digit_char mod_mult2_eq)

lemma parse_padded: "parse_u64 (padded 20 (unat (g :: 64 word))) = Some g"
proof -
  let ?s = "padded 20 (unat g)"
  have ne: "?s \<noteq> []" by (metis length_padded list.size(3) zero_neq_numeral)
  have digits: "list_all is_ascii_digit ?s" by (rule padded_digits)
  then have "hd ?s \<noteq> CHR ''+''" using ne by (cases ?s) (auto simp: ascii_defs)
  then have "parse_u64 ?s = parse_digits 0 ?s" using ne by (auto simp: parse_u64_def split: list.splits)
  moreover have less: "unat g < 2 ^ 64" using unsigned_less[of g] by simp
  then have "unat g < 10 ^ 20" by simp
  ultimately show ?thesis using less digits
    by (simp add: parse_digits_value padded_value Let_def)
qed

lemma generation_from_generation_path [simp]: "generation_from_path (generation_path g) = Some g"
  by (simp add: generation_from_path_def generation_path_def strip_suffix_def parse_padded)

section \<open>The contract of a store\<close>

text \<open>A store that has written a board loads it; a write keeps the boards of other projects, and a
  failed one leaves either the previous board or the new one, never a part of it.\<close>

locale board_store =
  fixes load :: "'d \<Rightarrow> string \<Rightarrow> board_error + board option"
    and save :: "board \<Rightarrow> 'd \<Rightarrow> (board_error + unit) \<times> 'd"
    and sound :: bool
  assumes save_ok: "sound \<Longrightarrow> save b d = (Inr (), d') \<Longrightarrow> is_ok (load d (board_workspace_id b)) \<Longrightarrow>
      load d' (board_workspace_id b) = Inr (Some b)"
    and save_error: "sound \<Longrightarrow> save b d = (Inl e, d') \<Longrightarrow>
      load d' (board_workspace_id b) = load d (board_workspace_id b) \<or>
      load d' (board_workspace_id b) = Inr (Some b)"
    and load_own: "load d w = Inr (Some b) \<Longrightarrow> board_workspace_id b = w"
    and save_other: "save b d = (r, d') \<Longrightarrow> w \<noteq> board_workspace_id b \<Longrightarrow> load d' w = load d w"
begin

lemma save_keeps_readable:
  assumes "sound" "save b d = (r, d')" "is_ok (load d w)"
  shows "is_ok (load d' w)"
proof (cases "w = board_workspace_id b")
  case True
  with assms show ?thesis
    by (cases r) (auto simp: save_ok dest: save_error)
qed (use assms in \<open>simp add: save_other\<close>)

end

lemma load_step_new:
  assumes "\<And>cur x. newest = Some (cur, x) \<Longrightarrow> cur < g" "generation_from_path name = Some g"
    "decode_document codec bytes = Some \<lparr>doc_version = DOCUMENT_VERSION, doc_generation = g, doc_board = b\<rparr>"
  shows "load_step codec (board_workspace_id b) (name, FileBytes bytes) newest = Some (g, b)"
  using assms by (cases newest) (auto simp: not_le)

lemma load_fold_bounded:
  assumes "fold (load_step codec w) fs newest = Some (g, b)"
    "\<And>g b. newest = Some (g, b) \<Longrightarrow> g \<le> m"
    "\<And>name f g. (name, f) \<in> set fs \<Longrightarrow> generation_from_path name = Some g \<Longrightarrow> g \<le> m"
  shows "g \<le> m"
  using assms
proof (induction fs arbitrary: newest)
  case (Cons nf fs)
  obtain name f where nf: "nf = (name, f)" by (cases nf)
  have "h \<le> m" if "load_step codec w nf newest = Some (h, x)" for h x
    using that Cons.prems(2) Cons.prems(3)[of name f] nf
    by (auto split: option.splits if_splits board_file.splits)
  moreover have "h \<le> m" if "(n, x) \<in> set fs" "generation_from_path n = Some h" for n x h
    using Cons.prems(3) that by auto
  ultimately show ?case
    using Cons.IH[of "load_step codec w nf newest"] Cons.prems(1) by auto
qed auto

lemma fold_max_ge:
  fixes m :: "'a::linorder"
  shows "m \<le> fold max xs m \<and> (\<forall>x\<in>set xs. x \<le> fold max xs m)"
proof (induction xs arbitrary: m)
  case (Cons x xs)
  have "max x m \<le> fold max xs (max x m)" "\<forall>y\<in>set xs. y \<le> fold max xs (max x m)"
    using Cons[of "max x m"] by blast+
  then show ?case by (auto simp: max.coboundedI1 max.coboundedI2)
qed simp

lemma newest_generation_ge:
  "dir_listable d \<Longrightarrow> (name, f) \<in> set (dir_files d) \<Longrightarrow> generation_from_path name = Some g \<Longrightarrow>
   g \<le> newest_generation d"
  unfolding newest_generation_def
  using fold_max_ge[of 0 "List.map_filter (\<lambda>(name, _). generation_from_path name) (dir_files d)"]
  by (force simp: List.map_filter_def)

lemma load_dir_new:
  assumes d: "dir_listable d" "newest_generation d \<noteq> - 1"
    and fs: "set fs \<subseteq> set (dir_files d)"
    and g: "g = newest_generation d + 1"
    and dec: "decode_document codec bytes = Some \<lparr>doc_version = DOCUMENT_VERSION, doc_generation = g, doc_board = b\<rparr>"
  shows "load_dir codec (board_workspace_id b) (Some (d\<lparr>dir_files := fs @ [(generation_path g, FileBytes bytes)]\<rparr>))
         = Inr (Some b)"
proof -
  have "1 + newest_generation d \<noteq> 0"
    using d(2) by (metis add.commute add_eq_0_iff)
  then have less: "newest_generation d < g"
    using g by (simp add: word_less_nat_alt unatSuc add.commute)
  have "cur < g" if "fold (load_step codec (board_workspace_id b)) fs None = Some (cur, x)" for cur x
    using load_fold_bounded[OF that, of "newest_generation d"] newest_generation_ge[OF d(1)] fs less
    by (meson le_less_trans option.distinct(1) subsetD)
  then have "load_step codec (board_workspace_id b) (generation_path g, FileBytes bytes)
      (fold (load_step codec (board_workspace_id b)) fs None) = Some (g, b)"
    by (rule load_step_new) (simp_all add: dec)
  then show ?thesis
    using d(1) by (simp add: load_dir_def del: load_step.simps)
qed

text \<open>Inside one directory: a write that succeeds is read back, a failed one is all or nothing.\<close>

lemma save_dir_ok:
  assumes "codec_ok codec" "save_dir codec removable fault b d = (Inr (), d')" "dir_listable d"
  shows "load_dir codec (board_workspace_id b) (Some d') = Inr (Some b)"
proof -
  let ?g = "newest_generation d + 1"
  let ?doc = "\<lparr>doc_version = DOCUMENT_VERSION, doc_generation = ?g, doc_board = b\<rparr>"
  from assms(2) obtain bytes where new: "newest_generation d \<noteq> - 1"
    and enc: "encode_document codec ?doc = Some bytes"
    and d': "d' = remove_old_generations removable ?g (add_file (generation_path ?g) bytes d)"
    by (auto simp: save_dir_def Let_def split: if_splits option.splits write_fault.splits)
  have "\<not> h < (if h < k then 0 else h - k)" for h k :: "64 word"
    by (simp add: not_less word_sub_le_iff)
  then have kept: "\<not> ?g < (if ?g < KEPT_GENERATIONS - 1 then 0 else ?g - (KEPT_GENERATIONS - 1))" .
  obtain fs where "set fs \<subseteq> set (dir_files d)"
    and "d' = d\<lparr>dir_files := fs @ [(generation_path ?g, FileBytes bytes)]\<rparr>"
  proof
    let ?P = "\<lambda>(name, _ :: board_file). \<not> (is_some_and (generation_from_path name)
      (\<lambda>g. g < (if ?g < KEPT_GENERATIONS - 1 then 0 else ?g - (KEPT_GENERATIONS - 1))) \<and> removable name)"
    show "set (filter ?P (dir_files d)) \<subseteq> set (dir_files d)" by auto
    have "?P (generation_path ?g, FileBytes bytes)" using kept by simp
    then show "d' = d\<lparr>dir_files := filter ?P (dir_files d) @ [(generation_path ?g, FileBytes bytes)]\<rparr>"
      using d' assms(3) by (simp only: remove_old_generations_def add_file_def Let_def) simp
  qed
  moreover have "decode_document codec bytes = Some ?doc"
    using assms(1) enc by (auto simp: codec_ok_def)
  ultimately show ?thesis using load_dir_new[OF assms(3) new] by simp
qed

lemma save_dir_error:
  assumes "codec_ok codec" "save_dir codec removable fault b d = (Inl e, d')"
  shows "load_dir codec (board_workspace_id b) (Some d') = load_dir codec (board_workspace_id b) (Some d) \<or>
         load_dir codec (board_workspace_id b) (Some d') = Inr (Some b)"
proof (cases "d' = d \<or> \<not> dir_listable d")
  case True
  then show ?thesis
    using assms(2) by (auto simp: load_dir_def save_dir_def add_file_def Let_def split: if_splits option.splits
      write_fault.splits)
next
  case False
  let ?g = "newest_generation d + 1"
  let ?doc = "\<lparr>doc_version = DOCUMENT_VERSION, doc_generation = ?g, doc_board = b\<rparr>"
  from False assms(2) obtain bytes k where new: "newest_generation d \<noteq> - 1"
    and enc: "encode_document codec ?doc = Some bytes"
    and d': "d' = add_file (generation_path ?g) (take k bytes) d"
    by (auto simp: save_dir_def Let_def split: if_splits option.splits write_fault.splits)
  show ?thesis
  proof (cases "k < length bytes")
    case True
    then have "decode_document codec (take k bytes) = None"
      using assms(1) enc by (auto simp: codec_ok_def)
    then show ?thesis using d' by (simp add: load_dir_def add_file_def)
  next
    case full: False
    have "decode_document codec (take k bytes) = Some ?doc"
      using assms(1) enc full by (auto simp: codec_ok_def)
    then show ?thesis
      using load_dir_new[of d "dir_files d"] d' False new by (simp add: add_file_def)
  qed
qed

lemma load_fold_own:
  assumes "fold (load_step codec w) fs newest = Some (g, b)"
    "\<And>g b. newest = Some (g, b) \<Longrightarrow> board_workspace_id b = w"
  shows "board_workspace_id b = w"
  using assms
proof (induction fs arbitrary: newest)
  case (Cons nf fs)
  have "board_workspace_id x = w" if "load_step codec w nf newest = Some (h, x)" for h x
    using that Cons.prems(2) by (cases nf) (auto split: option.splits if_splits board_file.splits)
  then show ?case using Cons.IH[of "load_step codec w nf newest"] Cons.prems(1) by auto
qed auto

lemma load_dir_own: "load_dir codec w d = Inr (Some b) \<Longrightarrow> board_workspace_id b = w"
  by (auto simp: load_dir_def split: option.splits if_splits dest: load_fold_own)

lemma load_dir_empty [simp]: "load_dir codec w (Some \<lparr>dir_listable = True, dir_files = []\<rparr>) = Inr None"
  by (simp add: load_dir_def)

lemma dir_readable: "load_dir codec w (Some d) = Inr r \<Longrightarrow> dir_listable d"
  by (simp add: load_dir_def split: if_splits)

lemma load_dir_None [simp]: "load_dir codec w None = Inr None"
  by (simp add: load_dir_def)

interpretation file_store: board_store "load_board codec" "save_board codec" "codec_ok codec" for codec
proof
  fix b d d'
  assume sound: "codec_ok codec"
  show "load_board codec d' (board_workspace_id b) = Inr (Some b)"
    if "save_board codec b d = (Inr (), d')" "is_ok (load_board codec d (board_workspace_id b))"
    using that
    by (auto simp: save_board_def load_board_def Let_def bm_get_insert is_ok_iff
        intro!: save_dir_ok[OF sound] dest: dir_readable split: sum.splits option.splits prod.splits if_splits)
  show "load_board codec d' (board_workspace_id b) = load_board codec d (board_workspace_id b) \<or>
      load_board codec d' (board_workspace_id b) = Inr (Some b)"
    if "save_board codec b d = (Inl e, d')" for e
    using that
    by (auto simp: save_board_def load_board_def Let_def bm_get_insert dest!: save_dir_error[OF sound]
        split: sum.splits option.splits prod.splits if_splits)
next
  show "board_workspace_id b = w" if "load_board codec d w = Inr (Some b)" for d w b
    using that by (auto simp: load_board_def dest: load_dir_own)
  show "load_board codec d' w = load_board codec d w"
    if "save_board codec b d = (r, d')" "w \<noteq> board_workspace_id b" for b d r d' w
    using that directory_name_inj[of w _ "board_workspace_id b"]
    by (cases "workspace_directory_name w")
      (auto simp: save_board_def load_board_def Let_def bm_get_insert split: sum.splits option.splits prod.splits if_splits)
qed

end
