(* ===== verification/Board_Service.thy ===== *)
theory Board_Service
  imports Board_Changes Board_Store
begin

text \<open>
  \<^verbatim>\<open>BoardService\<close> (\<^verbatim>\<open>src/apps/desktop/src-tauri/src/board/ops.rs\<close>): the loaded boards, the write budgets of agent turns,
  and the methods that run the changes of \<open>Board_Changes\<close> through \<^verbatim>\<open>transact\<close>, save the result and start
  runs. A method maps the state of the host to an answer and the next state, also when it fails.

  The store and the run starter are traits: their operations are fields of \<open>board_host\<close>, and act on their
  part of the state. The clock gives the time of its \<open>k\<close>-th reading. Identifiers drawn by a change that
  fails are never seen, and are drawn again. The mutexes are held for one method step at a time, so the
  model runs the steps one after the other; a poisoned mutex (after a panic) is not modelled.
\<close>

section \<open>The host\<close>

record ('d, 's) board_host =
  host_env :: board_env
  host_clock :: "nat \<Rightarrow> int"
  host_safe_mode :: bool
  host_load :: "'d \<Rightarrow> string \<Rightarrow> board_error + board option"
  host_save :: "board \<Rightarrow> 'd \<Rightarrow> (board_error + unit) \<times> 'd"
  host_available :: "'s \<Rightarrow> bool"
  host_has_capacity :: "'s \<Rightarrow> string \<Rightarrow> string \<Rightarrow> 8 word \<Rightarrow> bool"
  host_start :: "board_run_request \<Rightarrow> 's \<Rightarrow> (board_error + unit) \<times> 's"

record board_changed_event =
  event_workspace_id :: string
  event_revision :: "64 word"
  event_card_ids :: "string list option"

record ('d, 's) board_state =
  bs_boards :: "(string, board) btree_map"
  bs_turn_writes :: "(string, 32 word) btree_map"
  bs_disk :: 'd
  bs_starter :: 's
  bs_uuids :: nat
  bs_readings :: nat
  bs_events :: "board_changed_event list"

type_synonym ('d, 's, 'a) board_method = "('d, 's) board_state \<Rightarrow> (board_error + 'a) \<times> ('d, 's) board_state"

text \<open>The operator \<^verbatim>\<open>?\<close> on a method that changes the state.\<close>

definition try_then ::
  "('d, 's, 'a) board_method \<Rightarrow> ('a \<Rightarrow> ('d, 's, 'b) board_method) \<Rightarrow> ('d, 's, 'b) board_method" where
  "try_then m k s = (case m s of (Inl e, s') \<Rightarrow> (Inl e, s') | (Inr x, s') \<Rightarrow> k x s')"

definition answer :: "board_error + 'a \<Rightarrow> ('d, 's, 'a) board_method" where
  "answer r s = (r, s)"

text \<open>Dropping the answer: \<^verbatim>\<open>let _ = ...\<close>.\<close>

definition after :: "('d, 's, 'a) board_method \<Rightarrow> ('d, 's) board_state \<Rightarrow> ('d, 's) board_state" where
  "after m s = snd (m s)"

definition read_now :: "('d, 's) board_host \<Rightarrow> ('d, 's) board_state \<Rightarrow> board_now \<times> ('d, 's) board_state" where
  "read_now h s = (at_time (host_env h) (host_clock h (bs_readings s)), s\<lparr>bs_readings := Suc (bs_readings s)\<rparr>)"

section \<open>Reading and changing a board\<close>

definition current :: "('d, 's) board_host \<Rightarrow> string \<Rightarrow> board_now \<Rightarrow> ('d, 's, board) board_method" where
  "current h w now s =
     (case bm_get (bs_boards s) w of
        Some b \<Rightarrow> (Inr b, s)
      | None \<Rightarrow>
        (case host_load h (bs_disk s) w of
           Inl e \<Rightarrow> (Inl e, s)
         | Inr stored \<Rightarrow>
           (let b = (case stored of None \<Rightarrow> board_empty w (now_text now) | Some b \<Rightarrow> b) in
            (Inr b, s\<lparr>bs_boards := bm_insert w b (bs_boards s)\<rparr>))))"

definition get_board :: "('d, 's) board_host \<Rightarrow> string \<Rightarrow> ('d, 's, board) board_method" where
  "get_board h w s =
     (case workspace_directory_name w of
        Inl e \<Rightarrow> (Inl e, s)
      | Inr _ \<Rightarrow> (let (now, s) = read_now h s in current h w now s))"

text \<open>A change that succeeded and is no change writes nothing; another one is a new revision, saved before
  it is seen in memory, and announced after.\<close>

definition commit ::
  "('d, 's) board_host \<Rightarrow> string \<Rightarrow> board_now \<Rightarrow> board \<Rightarrow> 'a \<Rightarrow> staged \<Rightarrow> ('d, 's, 'a \<times> 64 word) board_method" where
  "commit h w now cur x = (\<lambda>(staged, n) s.
     let s = s\<lparr>bs_uuids := n\<rparr> in
     if staged = cur then (Inr (x, board_revision cur), s)
     else if board_revision cur = - 1 then (Inl BoardIo, s)
     else
       (let staged = staged\<lparr>board_revision := board_revision cur + 1, board_updated_at := now_text now\<rparr> in
        case host_save h staged (bs_disk s) of
          (Inl e, disk) \<Rightarrow> (Inl e, s\<lparr>bs_disk := disk\<rparr>)
        | (Inr _, disk) \<Rightarrow>
          (let touched = touched_cards cur staged in
           (Inr (x, board_revision staged),
            s\<lparr>bs_disk := disk, bs_boards := bm_insert w staged (bs_boards s),
              bs_events := bs_events s @ [\<lparr>event_workspace_id = w, event_revision = board_revision staged,
                event_card_ids = (if touched = [] then None else Some touched)\<rparr>]\<rparr>))))"

definition transact ::
  "('d, 's) board_host \<Rightarrow> string \<Rightarrow> (board_now \<Rightarrow> staged \<Rightarrow> board_error + ('a \<times> staged)) \<Rightarrow>
   ('d, 's, 'a \<times> 64 word) board_method" where
  "transact h w change s =
     (if host_safe_mode h then (Inl SafeMode, s)
      else case workspace_directory_name w of
        Inl e \<Rightarrow> (Inl e, s)
      | Inr _ \<Rightarrow>
        (let (now, s) = read_now h s in
         try_then (current h w now) (\<lambda>cur s.
           case change now (cur, bs_uuids s) of
             Inl e \<Rightarrow> (Inl e, s)
           | Inr (x, st) \<Rightarrow> commit h w now cur x st s) s))"

definition card_now :: "('d, 's) board_host \<Rightarrow> string \<Rightarrow> string \<Rightarrow> ('d, 's, board_card \<times> 64 word) board_method" where
  "card_now h w i =
     try_then (get_board h w) (\<lambda>b. answer (case find_card b i of
         None \<Rightarrow> Inl (BoardNotFound CARD_NOT_FOUND)
       | Some c \<Rightarrow> Inr (c, board_revision b)))"

section \<open>Changes that start no run\<close>

definition set_enabled :: "('d, 's) board_host \<Rightarrow> string \<Rightarrow> bool \<Rightarrow> ('d, 's, board) board_method" where
  "set_enabled h w enabled = try_then (transact h w (\<lambda>_. set_enabled_in enabled)) (\<lambda>_. get_board h w)"

definition update_settings ::
  "('d, 's) board_host \<Rightarrow> string \<Rightarrow> 64 word \<Rightarrow> board_settings \<Rightarrow> ('d, 's, board) board_method" where
  "update_settings h w expected settings =
     (if \<not> settings_valid settings then answer (Inl (BoardInvalid ''Board concurrency must be between 1 and 16.''))
      else try_then (transact h w (\<lambda>_. update_settings_in expected settings)) (\<lambda>_. get_board h w))"

definition create_card ::
  "('d, 's) board_host \<Rightarrow> string \<Rightarrow> board_actor \<Rightarrow> card_draft \<Rightarrow> card_status option \<Rightarrow> session_ref option \<Rightarrow>
   ('d, 's, board_card \<times> 64 word) board_method" where
  "create_card h w actor draft status session =
     try_then (transact h w (create_card_in (host_env h) actor draft status session)) (\<lambda>(i, _). card_now h w i)"

definition edit_card_method ::
  "('d, 's) board_host \<Rightarrow> string \<Rightarrow> board_actor \<Rightarrow> string \<Rightarrow> 64 word option \<Rightarrow> card_patch \<Rightarrow> bool \<Rightarrow>
   ('d, 's, board_card \<times> 64 word) board_method" where
  "edit_card_method h w actor i expected patch undoable =
     try_then (transact h w (update_card_in (host_env h) actor i expected patch undoable)) (\<lambda>_. card_now h w i)"

definition delete_card ::
  "('d, 's) board_host \<Rightarrow> string \<Rightarrow> string \<Rightarrow> 64 word \<Rightarrow> ('d, 's, 64 word) board_method" where
  "delete_card h w i expected =
     try_then (transact h w (delete_card_in (host_env h) i expected)) (\<lambda>(_, r). answer (Inr r))"

definition forget_queued_starts :: "('d, 's) board_host \<Rightarrow> string \<Rightarrow> string \<Rightarrow> ('d, 's, unit) board_method" where
  "forget_queued_starts h w t =
     try_then (transact h w (\<lambda>_. forget_queued_starts_in t)) (\<lambda>_. answer (Inr ()))"

definition finish_run ::
  "('d, 's) board_host \<Rightarrow> string \<Rightarrow> string \<Rightarrow> string \<Rightarrow> string option \<Rightarrow> run_end \<Rightarrow> ('d, 's, bool) board_method" where
  "finish_run h w i rid handle e =
     try_then (transact h w (finish_run_in (host_env h) i rid handle e)) (\<lambda>(changed, _). answer (Inr changed))"

definition sweep_claims ::
  "('d, 's) board_host \<Rightarrow> string \<Rightarrow> (string \<Rightarrow> bool) \<Rightarrow> ('d, 's, nat) board_method" where
  "sweep_claims h w run_active =
     try_then (get_board h w) (\<lambda>b s.
       let (now, s) = read_now h s in
       if \<not> list_ex (\<lambda>c. Option.bind (card_claim c) (stale_reason (host_env h) run_active now) \<noteq> None) (board_cards b)
       then (Inr 0, s)
       else try_then (transact h w (sweep_claims_in (host_env h) run_active)) (\<lambda>(released, _). answer (Inr released)) s)"

definition release_claim ::
  "('d, 's) board_host \<Rightarrow> string \<Rightarrow> board_actor \<Rightarrow> string \<Rightarrow> ('d, 's, board_card \<times> 64 word) board_method" where
  "release_claim h w actor i =
     try_then (transact h w (release_claim_in (host_env h) actor i)) (\<lambda>_. card_now h w i)"

definition link_session ::
  "('d, 's) board_host \<Rightarrow> string \<Rightarrow> board_actor \<Rightarrow> string \<Rightarrow> session_ref \<Rightarrow> ('d, 's, board_card \<times> 64 word) board_method" where
  "link_session h w actor i session =
     try_then (answer (validate_reference (session_ref_id session))) (\<lambda>_.
     try_then (transact h w (link_card_in (host_env h) actor i session)) (\<lambda>_. card_now h w i))"

definition unlink_session ::
  "('d, 's) board_host \<Rightarrow> string \<Rightarrow> board_actor \<Rightarrow> string \<Rightarrow> string \<Rightarrow> ('d, 's, board_card \<times> 64 word) board_method" where
  "unlink_session h w actor i sid =
     try_then (transact h w (unlink_card_in (host_env h) actor i sid)) (\<lambda>_. card_now h w i)"

definition session_cards :: "('d, 's) board_host \<Rightarrow> string \<Rightarrow> string \<Rightarrow> ('d, 's, board_card list) board_method" where
  "session_cards h w sid = try_then (get_board h w) (\<lambda>b. answer (Inr (session_cards_of b sid)))"

definition undo :: "('d, 's) board_host \<Rightarrow> string \<Rightarrow> string \<Rightarrow> string \<Rightarrow> ('d, 's, board_card \<times> 64 word) board_method" where
  "undo h w i aid = try_then (transact h w (undo_card_in (host_env h) i aid)) (\<lambda>_. card_now h w i)"

definition forget_teammate :: "('d, 's) board_host \<Rightarrow> string \<Rightarrow> string \<Rightarrow> ('d, 's, unit) board_method" where
  "forget_teammate h w t = try_then (transact h w (forget_teammate_in (host_env h) t)) (\<lambda>_. answer (Inr ()))"

section \<open>Starting runs\<close>

definition enqueue ::
  "('d, 's) board_host \<Rightarrow> string \<Rightarrow> string \<Rightarrow> string \<Rightarrow> board_run_cause \<Rightarrow> board_actor \<Rightarrow> 8 word \<Rightarrow> ('d, 's, unit) board_method" where
  "enqueue h w i t cause actor chain_depth =
     try_then (transact h w (enqueue_in (host_env h) i t cause actor chain_depth)) (\<lambda>_. answer (Inr ()))"

definition dequeue_card :: "('d, 's) board_host \<Rightarrow> string \<Rightarrow> string \<Rightarrow> ('d, 's) board_state \<Rightarrow> ('d, 's) board_state" where
  "dequeue_card h w i = after (transact h w (\<lambda>_. dequeue_card_in i))"

text \<open>The claim is compared with the clock only where the card has one.\<close>

definition claimed_now :: "('d, 's) board_host \<Rightarrow> board_card \<Rightarrow> ('d, 's) board_state \<Rightarrow> bool \<times> ('d, 's) board_state" where
  "claimed_now h c s =
     (case card_claim c of
        None \<Rightarrow> (False, s)
      | Some k \<Rightarrow> (let (now, s) = read_now h s in (claim_live (host_env h) k now, s)))"

definition launch_run ::
  "('d, 's) board_host \<Rightarrow> string \<Rightarrow> string \<Rightarrow> teammate_ref \<Rightarrow> board_run_cause \<Rightarrow> board_actor \<Rightarrow> 8 word \<Rightarrow>
   ('d, 's, string option) board_method" where
  "launch_run h w i t cause actor chain_depth s =
     (let env = host_env h; rid = uuid env (bs_uuids s); s = s\<lparr>bs_uuids := Suc (bs_uuids s)\<rparr> in
      try_then (transact h w (begin_run_in env rid i (teammate_id t) actor)) (\<lambda>((previous, card_text, number), _) s.
        case host_start h \<lparr>request_workspace_id = w, request_run_id = rid, request_card_id = i,
               request_card_number = number, request_teammate_id = teammate_id t, request_cause = cause,
               request_chain_depth = chain_depth, request_card_text = card_text\<rparr> (bs_starter s) of
          (Inr _, starter) \<Rightarrow> (Inr (Some rid), s\<lparr>bs_starter := starter\<rparr>)
        | (Inl e, starter) \<Rightarrow>
            (Inl e, after (transact h w (rollback_run_in env rid i previous (teammate_handle t) e))
               (s\<lparr>bs_starter := starter\<rparr>))) s)"

definition start_card_run ::
  "('d, 's) board_host \<Rightarrow> string \<Rightarrow> string \<Rightarrow> teammate_ref \<Rightarrow> board_run_cause \<Rightarrow> board_actor \<Rightarrow> 8 word \<Rightarrow>
   ('d, 's, string option) board_method" where
  "start_card_run h w i t cause actor chain_depth s =
     (if \<not> host_available h (bs_starter s) then (Inl RUNS_UNAVAILABLE, s)
      else if \<not> assignable t then (Inl (NotAssignable TEAMMATE_NOT_ASSIGNABLE), s)
      else if MAX_TRIGGER_CHAIN_DEPTH < chain_depth
      then (Inl (BoardInvalid ''This start is too far down an automatic chain; start it yourself.''), s)
      else
        try_then (get_board h w) (\<lambda>b.
        try_then (answer (require_enabled b)) (\<lambda>_ s.
          case find_card b i of
            None \<Rightarrow> (Inl (BoardNotFound CARD_NOT_FOUND), s)
          | Some c \<Rightarrow>
            if is_closed (card_status c) then (Inl RUN_NEEDS_OPEN_CARD, s)
            else
              (let (claimed, s) = claimed_now h c s in
               if claimed then (Inl AlreadyClaimed, s)
               else if \<not> host_has_capacity h (bs_starter s) w (teammate_id t)
                      (settings_max_concurrent_runs (board_settings b))
               then try_then (enqueue h w i (teammate_id t) cause actor chain_depth) (\<lambda>_. answer (Inr None)) s
               else launch_run h w i t cause actor chain_depth s))) s)"

definition run_plan ::
  "('d, 's) board_host \<Rightarrow> string \<Rightarrow> teammate_ref list \<Rightarrow> start_plan \<Rightarrow> ('d, 's, string option) board_method" where
  "run_plan h w teammates plan =
     try_then (answer (find_teammate teammates (plan_teammate_id plan))) (\<lambda>t.
       start_card_run h w (plan_card_id plan) t (plan_cause plan) (plan_actor plan) (plan_chain_depth plan))"

fun run_plans ::
  "('d, 's) board_host \<Rightarrow> string \<Rightarrow> teammate_ref list \<Rightarrow> start_plan list \<Rightarrow> ('d, 's) board_state \<Rightarrow> ('d, 's) board_state" where
  "run_plans h w teammates [] s = s"
| "run_plans h w teammates (plan # plans) s = run_plans h w teammates plans (after (run_plan h w teammates plan) s)"

definition count_start :: "(board_error + string option) \<Rightarrow> nat" where
  "count_start r = (case r of Inr (Some _) \<Rightarrow> 1 | _ \<Rightarrow> 0)"

fun execute_plans ::
  "('d, 's) board_host \<Rightarrow> string \<Rightarrow> teammate_ref list \<Rightarrow> start_plan list \<Rightarrow> ('d, 's) board_state \<Rightarrow>
   nat \<times> ('d, 's) board_state" where
  "execute_plans h w teammates [] s = (0, s)"
| "execute_plans h w teammates (plan # plans) s =
     (let (r, s) = run_plan h w teammates plan s; (started, s) = execute_plans h w teammates plans s in
      (count_start r + started, s))"

definition start_run ::
  "('d, 's) board_host \<Rightarrow> string \<Rightarrow> string \<Rightarrow> teammate_ref list \<Rightarrow> ('d, 's, board_card \<times> 64 word) board_method" where
  "start_run h w i teammates =
     try_then (get_board h w) (\<lambda>b.
     try_then (answer (require_enabled b)) (\<lambda>_.
     try_then (answer (case find_card b i of
         None \<Rightarrow> Inl (BoardNotFound CARD_NOT_FOUND)
       | Some c \<Rightarrow>
         (case card_assignee c of
            None \<Rightarrow> Inl (NotAssignable ''Assign the card to a teammate first.'')
          | Some a \<Rightarrow> find_teammate teammates a))) (\<lambda>t.
     try_then (start_card_run h w i t Manual Person 0) (\<lambda>_. card_now h w i))))"

definition resolve_pending_start ::
  "('d, 's) board_host \<Rightarrow> string \<Rightarrow> string \<Rightarrow> bool \<Rightarrow> teammate_ref list \<Rightarrow> ('d, 's, board) board_method" where
  "resolve_pending_start h w pid accept teammates =
     try_then (get_board h w) (\<lambda>b.
       case find (\<lambda>p. pending_id p = pid) (board_pending_starts b) of
         None \<Rightarrow> answer (Inl (BoardNotFound ''That start request is no longer waiting.''))
       | Some p \<Rightarrow>
         try_then (if accept
             then try_then (answer (find_teammate teammates (pending_teammate_id p))) (\<lambda>t.
               start_card_run h w (pending_card_id p) t (pending_cause p) Person 0)
             else answer (Inr None)) (\<lambda>_.
         try_then (transact h w (\<lambda>_. drop_pending_in pid)) (\<lambda>_. get_board h w)))"

definition move_card ::
  "('d, 's) board_host \<Rightarrow> string \<Rightarrow> board_actor \<Rightarrow> string \<Rightarrow> card_status \<Rightarrow> int option \<Rightarrow> string option \<Rightarrow> bool \<Rightarrow>
   teammate_ref list \<Rightarrow> ('d, 's, board_card \<times> 64 word) board_method" where
  "move_card h w actor i to' order reason undoable teammates =
     try_then (answer (check_option validate_reason reason)) (\<lambda>reason s.
       let available = host_available h (bs_starter s) in
       try_then (transact h w (move_card_in (host_env h) actor i to' order reason undoable teammates available))
         (\<lambda>(plans, _) s. card_now h w i (run_plans h w teammates plans s)) s)"

definition comment ::
  "('d, 's) board_host \<Rightarrow> string \<Rightarrow> board_actor \<Rightarrow> string \<Rightarrow> string \<Rightarrow> comment_mention list \<Rightarrow> string option \<Rightarrow>
   teammate_ref list \<Rightarrow> ('d, 's, board_card \<times> 64 word) board_method" where
  "comment h w actor i body mentions rid teammates =
     try_then (answer (validate_mentions body mentions teammates)) (\<lambda>_ s.
       let available = host_available h (bs_starter s) in
       try_then (transact h w (comment_card_in (host_env h) actor i body mentions rid teammates available))
         (\<lambda>(plans, _) s. card_now h w i (run_plans h w teammates plans s)) s)"

definition assign_outcome_of ::
  "('d, 's) board_host \<Rightarrow> string \<Rightarrow> teammate_ref list \<Rightarrow> (unit + start_plan) option \<Rightarrow> ('d, 's) board_state \<Rightarrow>
   assign_outcome \<times> ('d, 's) board_state" where
  "assign_outcome_of h w teammates plan s =
     (case plan of
        None \<Rightarrow> (AssignAssigned, s)
      | Some (Inl _) \<Rightarrow> (AssignPendingStart, s)
      | Some (Inr p) \<Rightarrow>
        (case run_plan h w teammates p s of
           (Inr (Some _), s) \<Rightarrow> (AssignStarted, s)
         | (Inr None, s) \<Rightarrow> (AssignQueued, s)
         | (Inl _, s) \<Rightarrow> (AssignAssigned, s)))"

definition assign ::
  "('d, 's) board_host \<Rightarrow> string \<Rightarrow> board_actor \<Rightarrow> string \<Rightarrow> string option \<Rightarrow> card_start_mode \<Rightarrow> 8 word \<Rightarrow> bool \<Rightarrow>
   teammate_ref list \<Rightarrow> ('d, 's, board_card \<times> 64 word \<times> assign_outcome) board_method" where
  "assign h w actor i t start chain_depth undoable teammates =
     try_then (answer (check_option (find_teammate teammates) t)) (\<lambda>teammate s.
       let available = host_available h (bs_starter s) in
       try_then (transact h w (assign_card_in (host_env h) actor i teammate start chain_depth undoable available))
         (\<lambda>(plan, _) s.
           let (outcome, s) = assign_outcome_of h w teammates plan s in
           try_then (card_now h w i) (\<lambda>(c, r). answer (Inr (c, r, outcome))) s) s)"

definition resolve_proposal ::
  "('d, 's) board_host \<Rightarrow> string \<Rightarrow> string \<Rightarrow> bool \<Rightarrow> teammate_ref list \<Rightarrow> ('d, 's, board) board_method" where
  "resolve_proposal h w pid accept teammates s =
     (let available = host_available h (bs_starter s) in
      try_then (transact h w (resolve_proposal_in (host_env h) pid accept teammates available))
        (\<lambda>(plans, _) s. get_board h w (run_plans h w teammates plans s)) s)"

section \<open>The queue of starts\<close>

definition queued_entry :: "string \<Rightarrow> board \<Rightarrow> nat \<Rightarrow> queued_start_record \<Rightarrow> queued_start" where
  "queued_entry w b index q =
     \<lparr>qs_workspace_id = w, qs_card_id = queued_card_id q, qs_teammate_id = queued_teammate_id q,
      qs_cause = queued_cause q, qs_chain_depth = queued_chain_depth q, qs_actor = queued_requested_by q,
      qs_priority = (case find_card b (queued_card_id q) of None \<Rightarrow> Normal | Some c \<Rightarrow> card_priority c),
      qs_seq = saturating_inc (of_nat index)\<rparr>"

definition queued_of :: "string \<Rightarrow> board \<Rightarrow> queued_start list" where
  "queued_of w b =
     sort_by queue_order (map (\<lambda>(index, q). queued_entry w b index q)
       (List.enumerate 0 (board_queued_starts b)))"

definition queued_starts ::
  "('d, 's) board_host \<Rightarrow> string \<Rightarrow> ('d, 's) board_state \<Rightarrow> queued_start list \<times> ('d, 's) board_state" where
  "queued_starts h w s = (case get_board h w s of (Inl _, s) \<Rightarrow> ([], s) | (Inr b, s) \<Rightarrow> (queued_of w b, s))"

definition queued_workspaces :: "('d, 's) board_state \<Rightarrow> string list" where
  "queued_workspaces s = map fst (filter (\<lambda>(_, b). board_queued_starts b \<noteq> []) (bs_boards s))"

definition loaded_workspaces :: "('d, 's) board_state \<Rightarrow> string list" where
  "loaded_workspaces s = bm_keys (bs_boards s)"

definition start_applies :: "board \<Rightarrow> queued_start \<Rightarrow> bool" where
  "start_applies b q \<longleftrightarrow>
     board_enabled b \<and>
     is_some_and (find_card b (qs_card_id q)) (\<lambda>c. card_assignee c = Some (qs_teammate_id q) \<and> may_start (card_status c))"

fun drain_loop ::
  "('d, 's) board_host \<Rightarrow> string \<Rightarrow> teammate_ref list \<Rightarrow> queued_start list \<Rightarrow> nat \<Rightarrow> ('d, 's) board_state \<Rightarrow>
   nat \<times> ('d, 's) board_state" where
  "drain_loop h w teammates [] started s = (started, s)"
| "drain_loop h w teammates (q # qs) started s =
     (case get_board h w s of
        (Inl _, s) \<Rightarrow> (started, s)
      | (Inr b, s) \<Rightarrow>
        if \<not> list_ex (\<lambda>r. queued_card_id r = qs_card_id q \<and> queued_teammate_id r = qs_teammate_id q) (board_queued_starts b)
        then drain_loop h w teammates qs started s
        else
          (case keep_if (\<lambda>t. start_applies b q \<and> assignable t) (find (\<lambda>t. teammate_id t = qs_teammate_id q) teammates) of
             None \<Rightarrow> drain_loop h w teammates qs started (dequeue_card h w (qs_card_id q) s)
           | Some t \<Rightarrow>
             (case start_card_run h w (qs_card_id q) t (qs_cause q) (qs_actor q) (qs_chain_depth q) s of
                (Inr (Some _), s) \<Rightarrow> drain_loop h w teammates qs (Suc started) s
              | (Inr None, s) \<Rightarrow> drain_loop h w teammates qs started s
              | (Inl _, s) \<Rightarrow> drain_loop h w teammates qs started (dequeue_card h w (qs_card_id q) s))))"

definition drain_queue ::
  "('d, 's) board_host \<Rightarrow> string \<Rightarrow> teammate_ref list \<Rightarrow> ('d, 's) board_state \<Rightarrow> nat \<times> ('d, 's) board_state" where
  "drain_queue h w teammates s =
     (if \<not> host_available h (bs_starter s) then (0, s)
      else (let (queue, s) = queued_starts h w s in drain_loop h w teammates queue 0 s))"

definition queued_teammates ::
  "('d, 's) board_host \<Rightarrow> string \<Rightarrow> ('d, 's) board_state \<Rightarrow> string list \<times> ('d, 's) board_state" where
  "queued_teammates h w s =
     (case get_board h w s of
        (Inl _, s) \<Rightarrow> ([], s)
      | (Inr b, s) \<Rightarrow>
          (map pending_teammate_id (board_pending_starts b) @ map queued_teammate_id (board_queued_starts b), s))"

definition queued_count :: "('d, 's) board_host \<Rightarrow> string \<Rightarrow> string \<Rightarrow> ('d, 's) board_state \<Rightarrow> nat \<times> ('d, 's) board_state" where
  "queued_count h w t s = (let (ts, s) = queued_teammates h w s in (length (filter (\<lambda>x. x = t) ts), s))"

section \<open>The budget of a turn\<close>

definition begin_turn :: "string \<Rightarrow> ('d, 's) board_state \<Rightarrow> ('d, 's) board_state" where
  "begin_turn key s =
     (let writes = (if MAX_TURN_KEYS \<le> length (bs_turn_writes s) then [] else bs_turn_writes s) in
      s\<lparr>bs_turn_writes := bm_insert key 0 writes\<rparr>)"

definition check_turn_budget :: "string \<Rightarrow> ('d, 's, unit) board_method" where
  "check_turn_budget key s =
     (if MAX_AGENT_WRITES_PER_TURN \<le> (case bm_get (bs_turn_writes s) key of None \<Rightarrow> 0 | Some k \<Rightarrow> k)
      then (Inl RateLimited, s) else (Inr (), s))"

definition note_turn_write :: "string \<Rightarrow> ('d, 's) board_state \<Rightarrow> ('d, 's) board_state" where
  "note_turn_write key s =
     (let writes = (if MAX_TURN_KEYS \<le> length (bs_turn_writes s) \<and> bm_get (bs_turn_writes s) key = None
                    then [] else bs_turn_writes s);
          k = (case bm_get writes key of None \<Rightarrow> 0 | Some k \<Rightarrow> k) in
      s\<lparr>bs_turn_writes := bm_insert key (if k = - 1 then k else k + 1) writes\<rparr>)"

end
