(* ===== verification/Board_Invariant.thy ===== *)
theory Board_Invariant
  imports Board_Changes
begin

text \<open>
  The well-formedness of a board and its preservation by the changes of \<open>Board_Ops\<close> and
  \<open>Board_Changes\<close>: identifiers and numbers are unique, every list is within its limit, a card is closed
  exactly when it has a closing time, and then nobody holds it, blockers and parents are cards of the
  board, and no card is its own ancestor.

  Most changes only rewrite single cards. The relation \<open>board_keeps\<close> collects what they have in common, is a
  preorder, and carries the invariant; the changes that do more (creating, editing, deleting) are
  proved one by one.
\<close>

named_theorems board_simps

section \<open>The invariant\<close>

definition card_ok :: "board_env \<Rightarrow> board_card \<Rightarrow> bool" where
  "card_ok env c \<longleftrightarrow>
     1 \<le> chars_count (card_title c) \<and> chars_count (card_title c) \<le> MAX_CARD_TITLE_CHARS \<and>
     length (card_description c) \<le> MAX_CARD_DESCRIPTION_BYTES \<and>
     length (card_labels c) \<le> MAX_LABELS_PER_CARD \<and> distinct (map (to_lowercase env) (card_labels c)) \<and>
     length (card_comments c) \<le> MAX_COMMENTS_PER_CARD \<and> length (card_activity c) \<le> MAX_ACTIVITY_PER_CARD \<and>
     (card_closed_at c \<noteq> None \<longleftrightarrow> is_closed (card_status c)) \<and>
     (is_closed (card_status c) \<longrightarrow> card_claim c = None)"

definition card_ids :: "board \<Rightarrow> string list" where
  "card_ids b = map card_id (board_cards b)"

definition parent_rel :: "board \<Rightarrow> (string \<times> string) set" where
  "parent_rel b = {(card_id c, p) | c p. c \<in> set (board_cards b) \<and> card_parent_id c = Some p}"

definition links_ok :: "string set \<Rightarrow> board_card \<Rightarrow> bool" where
  "links_ok ids c \<longleftrightarrow>
     distinct (card_blocked_by c) \<and> card_id c \<notin> set (card_blocked_by c) \<and> set (card_blocked_by c) \<subseteq> ids \<and>
     set_option (card_parent_id c) \<subseteq> ids"

definition starts_ok :: "board \<Rightarrow> bool" where
  "starts_ok b \<longleftrightarrow>
     distinct (map queued_card_id (board_queued_starts b)) \<and>
     length (board_queued_starts b) \<le> MAX_QUEUED_STARTS \<and>
     queued_card_id ` set (board_queued_starts b) \<subseteq> set (card_ids b) \<and>
     distinct (map (\<lambda>p. (pending_card_id p, pending_teammate_id p)) (board_pending_starts b)) \<and>
     length (board_pending_starts b) \<le> MAX_PENDING \<and>
     pending_card_id ` set (board_pending_starts b) \<subseteq> set (card_ids b) \<and>
     length (filter (\<lambda>p. proposal_status p = ProposalPending) (board_proposals b)) \<le> MAX_PENDING \<and>
     length (filter (\<lambda>p. proposal_status p \<noteq> ProposalPending) (board_proposals b)) \<le> MAX_RESOLVED_PROPOSALS \<and>
     settings_valid (board_settings b)"

definition board_ok :: "board_env \<Rightarrow> staged \<Rightarrow> bool" where
  "board_ok env = (\<lambda>(b, n).
     distinct (card_ids b) \<and> set (card_ids b) \<subseteq> uuid env ` {..<n} \<and>
     distinct (map card_number (board_cards b)) \<and> (\<forall>c\<in>set (board_cards b). card_number c < board_next_number b) \<and>
     length (board_cards b) \<le> MAX_CARDS \<and>
     (\<forall>c\<in>set (board_cards b). card_ok env c \<and> links_ok (set (card_ids b)) c) \<and>
     acyclic (parent_rel b) \<and> starts_ok b)"

section \<open>Who holds a card\<close>

definition same_holder :: "card_claim \<Rightarrow> card_claim \<Rightarrow> bool" where
  "same_holder k k' \<longleftrightarrow> claim_actor k = claim_actor k' \<and> claim_run_id k = claim_run_id k'"

definition claim_kept :: "board_card \<Rightarrow> board_card \<Rightarrow> bool" where
  "claim_kept c c' \<longleftrightarrow> (\<forall>k'. card_claim c' = Some k' \<longrightarrow> (\<exists>k. card_claim c = Some k \<and> same_holder k k'))"

definition claims_from :: "board \<Rightarrow> board \<Rightarrow> bool" where
  "claims_from b b' \<longleftrightarrow>
     (\<forall>c'\<in>set (board_cards b'). card_claim c' \<noteq> None \<longrightarrow>
        (\<exists>c\<in>set (board_cards b). card_id c = card_id c' \<and> claim_kept c c'))"

section \<open>Quiet changes of a card\<close>

definition same_card :: "board_card \<Rightarrow> board_card \<Rightarrow> bool" where
  "same_card c c' \<longleftrightarrow>
     card_id c' = card_id c \<and> card_number c' = card_number c \<and> card_created_by c' = card_created_by c \<and>
     card_created_at c' = card_created_at c \<and> card_revision c \<le> card_revision c'"

definition quiet :: "board_env \<Rightarrow> board_card \<Rightarrow> board_card \<Rightarrow> bool" where
  "quiet env c c' \<longleftrightarrow>
     same_card c c' \<and> card_parent_id c' = card_parent_id c \<and> card_blocked_by c' = card_blocked_by c \<and>
     claim_kept c c' \<and> (card_ok env c \<longrightarrow> card_ok env c')"

definition kept :: "board_env \<Rightarrow> staged \<Rightarrow> staged \<Rightarrow> bool" where
  "kept env st st' \<longleftrightarrow>
     list_all2 (quiet env) (board_cards (fst st)) (board_cards (fst st')) \<and>
     board_next_number (fst st') = board_next_number (fst st) \<and>
     board_workspace_id (fst st') = board_workspace_id (fst st) \<and> snd st \<le> snd st' \<and>
     (starts_ok (fst st) \<longrightarrow> starts_ok (fst st'))"

definition advances :: "board_env \<Rightarrow> staged \<Rightarrow> staged \<Rightarrow> bool" where
  "advances env st st' \<longleftrightarrow>
     (board_ok env st \<longrightarrow> board_ok env st' \<and> claims_from (fst st) (fst st') \<and> snd st \<le> snd st' \<and>
        board_workspace_id (fst st') = board_workspace_id (fst st))"

text \<open>With unique identifiers, an update reaches the card it was computed for.\<close>

definition board_keeps :: "board_env \<Rightarrow> staged \<Rightarrow> staged \<Rightarrow> bool" where
  "board_keeps env st st' \<longleftrightarrow> distinct (card_ids (fst st)) \<longrightarrow> kept env st st'"

lemma claim_kept_refl [simp]: "claim_kept c c"
  by (simp add: claim_kept_def same_holder_def)

lemma claim_kept_trans: "claim_kept a b \<Longrightarrow> claim_kept b c \<Longrightarrow> claim_kept a c"
  unfolding claim_kept_def same_holder_def by metis

lemma quiet_refl [simp, intro!]: "quiet env c c"
  by (simp add: quiet_def same_card_def)

lemma quiet_trans: "quiet env a b \<Longrightarrow> quiet env b c \<Longrightarrow> quiet env a c"
  unfolding quiet_def same_card_def by (auto intro: claim_kept_trans order_trans)

lemma kept_refl [simp]: "kept env st st"
  by (simp add: kept_def list_all2_refl)

lemma kept_trans:
  assumes "kept env a b" "kept env b c"
  shows "kept env a c"
proof -
  have "list_all2 (quiet env) (board_cards (fst a)) (board_cards (fst c))"
    using assms by (intro list_all2_trans[OF quiet_trans]) (auto simp: kept_def)
  then show ?thesis using assms by (auto simp: kept_def)
qed

lemma claims_from_refl [simp]: "claims_from b b"
  by (auto simp: claims_from_def)

lemma claims_from_trans:
  assumes "claims_from a b" "claims_from b c"
  shows "claims_from a c"
  unfolding claims_from_def
proof (intro ballI impI)
  fix z assume z: "z \<in> set (board_cards c)" "card_claim z \<noteq> None"
  with assms(2) obtain y where y: "y \<in> set (board_cards b)" "card_id y = card_id z" "claim_kept y z"
    by (auto simp: claims_from_def)
  with z have "card_claim y \<noteq> None" by (auto simp: claim_kept_def)
  with assms(1) y obtain x where "x \<in> set (board_cards a)" "card_id x = card_id y" "claim_kept x y"
    by (auto simp: claims_from_def)
  with y show "\<exists>x\<in>set (board_cards a). card_id x = card_id z \<and> claim_kept x z"
    by (metis claim_kept_trans)
qed

lemma advances_refl [simp]: "advances env st st"
  by (simp add: advances_def)

lemma advances_trans: "advances env a b \<Longrightarrow> advances env b c \<Longrightarrow> advances env a c"
  unfolding advances_def by (auto intro: claims_from_trans)

section \<open>A quiet change carries the invariant\<close>

lemma quiet_map: "list_all2 (quiet env) xs ys \<Longrightarrow> map card_id ys = map card_id xs \<and> map card_number ys = map card_number xs"
  by (induction rule: list_all2_induct) (auto simp: quiet_def same_card_def)

lemma kept_ids: "kept env st st' \<Longrightarrow> card_ids (fst st') = card_ids (fst st)"
  by (auto simp: kept_def card_ids_def dest: quiet_map)

lemma list_all2_setD2: "list_all2 R xs ys \<Longrightarrow> y \<in> set ys \<Longrightarrow> \<exists>x\<in>set xs. R x y"
  by (induction rule: list_all2_induct) auto

lemma kept_card:
  assumes "kept env st st'" "c' \<in> set (board_cards (fst st'))"
  obtains c where "c \<in> set (board_cards (fst st))" "quiet env c c'"
  using assms by (auto simp: kept_def dest: list_all2_setD2)

lemma kept_parent_rel:
  assumes "kept env st st'"
  shows "parent_rel (fst st') \<subseteq> parent_rel (fst st)"
  using assms by (fastforce simp: parent_rel_def quiet_def same_card_def elim: kept_card)

lemma kept_board_ok:
  assumes st: "kept env st st'" and ok: "board_ok env st"
  shows "board_ok env st'"
proof -
  obtain b n b' n' where eqs: "st = (b, n)" "st' = (b', n')" by (cases st, cases st')
  from st eqs have ids: "card_ids b' = card_ids b" using kept_ids by fastforce
  from st eqs have l2: "list_all2 (quiet env) (board_cards b) (board_cards b')"
    and next_number: "board_next_number b' = board_next_number b" and le: "n \<le> n'"
    and starts: "starts_ok b \<Longrightarrow> starts_ok b'"
    by (auto simp: kept_def)
  have numbers: "map card_number (board_cards b') = map card_number (board_cards b)"
    and len: "length (board_cards b') = length (board_cards b)"
    using quiet_map[OF l2] l2 by (auto dest: list_all2_lengthD)
  have cards: "card_ok env c' \<and> links_ok (set (card_ids b')) c' \<and> card_number c' < board_next_number b'"
    if "c' \<in> set (board_cards b')" for c'
  proof -
    from list_all2_setD2[OF l2 that] obtain c where c: "c \<in> set (board_cards b)" "quiet env c c'" by blast
    with ok eqs have "card_ok env c" "links_ok (set (card_ids b)) c" "card_number c < board_next_number b"
      by (auto simp: board_ok_def)
    with c ids next_number show ?thesis by (simp add: quiet_def same_card_def links_ok_def)
  qed
  have "uuid env ` {..<n} \<subseteq> uuid env ` {..<n'}" using le by auto
  moreover have "acyclic (parent_rel b')"
    using kept_parent_rel[OF st] eqs ok by (auto simp: board_ok_def intro: acyclic_subset)
  ultimately show ?thesis
    using ok eqs ids numbers len cards starts by (auto simp: board_ok_def)
qed

lemma kept_advances: "kept env st st' \<Longrightarrow> advances env st st'"
proof -
  assume st: "kept env st st'"
  have "claims_from (fst st) (fst st')"
    unfolding claims_from_def
  proof (intro ballI impI)
    fix c' assume "c' \<in> set (board_cards (fst st'))"
    then obtain c where "c \<in> set (board_cards (fst st))" "quiet env c c'" by (rule kept_card[OF st])
    then show "\<exists>c\<in>set (board_cards (fst st)). card_id c = card_id c' \<and> claim_kept c c'"
      by (auto simp: quiet_def same_card_def)
  qed
  moreover have "snd st \<le> snd st'" "board_workspace_id (fst st') = board_workspace_id (fst st)"
    using st by (simp_all add: kept_def)
  ultimately show ?thesis using kept_board_ok[OF st] by (simp add: advances_def)
qed

lemma board_ok_distinct: "board_ok env st \<Longrightarrow> distinct (card_ids (fst st))"
  by (cases st) (simp add: board_ok_def)

lemma keeps_advances: "board_keeps env st st' \<Longrightarrow> advances env st st'"
  using kept_advances[of env st st'] by (auto simp: board_keeps_def advances_def dest: board_ok_distinct)

lemma kept_keeps [intro]: "kept env st st' \<Longrightarrow> board_keeps env st st'"
  by (simp add: board_keeps_def)

lemma keeps_refl [simp, intro]: "board_keeps env st st"
  by (simp add: board_keeps_def)

lemma keeps_trans [trans]: "board_keeps env a b \<Longrightarrow> board_keeps env b c \<Longrightarrow> board_keeps env a c"
  unfolding board_keeps_def by (metis kept_ids kept_trans)

lemma fold_keeps:
  assumes "\<And>x st. board_keeps env st (f x st)"
  shows "board_keeps env st (fold f xs st)"
  using assms
proof (induction xs arbitrary: st)
  case (Cons x xs)
  show ?case
    using keeps_trans[OF Cons.prems Cons.IH[OF Cons.prems]] by simp
qed simp

lemma fold_keeps_snd:
  assumes "\<And>x acc st. board_keeps env st (snd (f x (acc, st)))"
  shows "board_keeps env (snd st) (snd (fold f xs st))"
proof (induction xs arbitrary: st)
  case (Cons x xs)
  have "board_keeps env (snd st) (snd (f x st))" using assms[of "snd st" x "fst st"] by simp
  then show ?case using keeps_trans[OF _ Cons.IH] by simp
qed simp

section \<open>Rewriting one card\<close>

lemma length_push_activity: "length (card_activity (push_activity env n actor now change u c)) \<le> MAX_ACTIVITY_PER_CARD"
  by (simp add: push_activity_def Let_def)

lemma push_activity_fields [simp]:
  "card_id (push_activity env n actor now change u c) = card_id c"
  "card_number (push_activity env n actor now change u c) = card_number c"
  "card_title (push_activity env n actor now change u c) = card_title c"
  "card_description (push_activity env n actor now change u c) = card_description c"
  "card_priority (push_activity env n actor now change u c) = card_priority c"
  "card_labels (push_activity env n actor now change u c) = card_labels c"
  "card_blocked_by (push_activity env n actor now change u c) = card_blocked_by c"
  "card_parent_id (push_activity env n actor now change u c) = card_parent_id c"
  "card_status (push_activity env n actor now change u c) = card_status c"
  "card_order (push_activity env n actor now change u c) = card_order c"
  "card_assignee (push_activity env n actor now change u c) = card_assignee c"
  "card_claim (push_activity env n actor now change u c) = card_claim c"
  "card_links (push_activity env n actor now change u c) = card_links c"
  "card_comments (push_activity env n actor now change u c) = card_comments c"
  "card_revision (push_activity env n actor now change u c) = card_revision c"
  "card_created_by (push_activity env n actor now change u c) = card_created_by c"
  "card_created_at (push_activity env n actor now change u c) = card_created_at c"
  "card_closed_at (push_activity env n actor now change u c) = card_closed_at c"
  by (simp_all add: push_activity_def Let_def)

lemma touch_fields [simp]:
  "card_id (touch now c) = card_id c" "card_number (touch now c) = card_number c"
  "card_title (touch now c) = card_title c" "card_description (touch now c) = card_description c"
  "card_priority (touch now c) = card_priority c" "card_labels (touch now c) = card_labels c"
  "card_blocked_by (touch now c) = card_blocked_by c" "card_parent_id (touch now c) = card_parent_id c"
  "card_status (touch now c) = card_status c" "card_order (touch now c) = card_order c"
  "card_assignee (touch now c) = card_assignee c" "card_claim (touch now c) = card_claim c"
  "card_links (touch now c) = card_links c" "card_comments (touch now c) = card_comments c"
  "card_activity (touch now c) = card_activity c" "card_created_by (touch now c) = card_created_by c"
  "card_created_at (touch now c) = card_created_at c" "card_closed_at (touch now c) = card_closed_at c"
  by (simp_all add: touch_def)

lemma saturating_inc_ge: "r \<le> saturating_inc r"
  using unatSuc[of r] by (auto simp: saturating_inc_def word_le_nat_alt add.commute add_eq_0_iff)

lemma quiet_push [intro!]: "quiet env c d \<Longrightarrow> quiet env c (push_activity env' n actor now change u d)"
  by (auto simp: quiet_def same_card_def claim_kept_def card_ok_def length_push_activity)

lemma quiet_touch [intro!]: "quiet env c d \<Longrightarrow> quiet env c (touch now d)"
  using saturating_inc_ge[of "card_revision d"]
  by (auto simp: quiet_def same_card_def claim_kept_def card_ok_def touch_def)

lemma quiet_unclaim [intro!]: "quiet env c d \<Longrightarrow> quiet env c (d\<lparr>card_claim := None\<rparr>)"
  by (auto simp: quiet_def same_card_def claim_kept_def card_ok_def)

lemma quiet_fields [intro!]:
  "quiet env c d \<Longrightarrow> quiet env c (d\<lparr>card_links := ls\<rparr>)"
  "quiet env c d \<Longrightarrow> quiet env c (d\<lparr>card_order := k\<rparr>)"
  "quiet env c d \<Longrightarrow> quiet env c (d\<lparr>card_assignee := t\<rparr>)"
  by (auto simp: quiet_def same_card_def claim_kept_def card_ok_def)

lemma quiet_comments [intro!]:
  "quiet env c d \<Longrightarrow> length ks \<le> MAX_COMMENTS_PER_CARD \<Longrightarrow> quiet env c (d\<lparr>card_comments := ks\<rparr>)"
  by (auto simp: quiet_def same_card_def claim_kept_def card_ok_def)

lemma quiet_reopen [intro!]:
  "quiet env c d \<Longrightarrow> \<not> is_closed (card_status c) \<Longrightarrow> \<not> is_closed (card_status d) \<Longrightarrow> \<not> is_closed s \<Longrightarrow>
   quiet env c (d\<lparr>card_status := s\<rparr>)"
  by (auto simp: quiet_def same_card_def claim_kept_def card_ok_def)

lemma update_first_quiet:
  assumes "\<And>c. find P cs = Some c \<Longrightarrow> quiet env c (f c)"
  shows "list_all2 (quiet env) cs (update_first P f cs)"
  using assms by (induction cs) (auto simp: list_all2_refl)

lemma update_card_fields [simp]:
  "board_next_number (update_card i f b) = board_next_number b"
  "board_pending_starts (update_card i f b) = board_pending_starts b"
  "board_queued_starts (update_card i f b) = board_queued_starts b"
  "board_proposals (update_card i f b) = board_proposals b"
  "board_settings (update_card i f b) = board_settings b"
  "board_enabled (update_card i f b) = board_enabled b"
  "board_workspace_id (update_card i f b) = board_workspace_id b"
  by (simp_all add: update_card_def)

lemma card_ids_fields [simp]:
  "card_ids (b\<lparr>board_pending_starts := ps\<rparr>) = card_ids b" "card_ids (b\<lparr>board_queued_starts := qs\<rparr>) = card_ids b"
  "card_ids (b\<lparr>board_proposals := xs\<rparr>) = card_ids b" "card_ids (b\<lparr>board_settings := v\<rparr>) = card_ids b"
  "card_ids (b\<lparr>board_enabled := e\<rparr>) = card_ids b"
  by (simp_all add: card_ids_def)

lemma starts_ok_cards:
  "card_ids b' = card_ids b \<Longrightarrow> board_queued_starts b' = board_queued_starts b \<Longrightarrow>
   board_pending_starts b' = board_pending_starts b \<Longrightarrow> board_proposals b' = board_proposals b \<Longrightarrow>
   board_settings b' = board_settings b \<Longrightarrow> starts_ok b' = starts_ok b"
  by (simp add: starts_ok_def)

lemma kept_cards:
  assumes "list_all2 (quiet env) (board_cards b) cs" "n \<le> n'"
  shows "kept env (b, n) (b\<lparr>board_cards := cs\<rparr>, n')"
proof -
  have "card_ids (b\<lparr>board_cards := cs\<rparr>) = card_ids b"
    using quiet_map[OF assms(1)] by (simp add: card_ids_def)
  then show ?thesis using assms by (simp add: kept_def starts_ok_cards[of "b\<lparr>board_cards := cs\<rparr>" b])
qed

lemma keeps_update_card:
  assumes "\<And>c. find_card b i = Some c \<Longrightarrow> quiet env c (f c)" "n \<le> n'"
  shows "board_keeps env (b, n) (update_card i f b, n')"
  unfolding update_card_def
  using assms by (intro kept_keeps kept_cards update_first_quiet) (auto simp: find_card_def)

lemma keeps_replace_card:
  assumes "find_card b i = Some c" "quiet env c c'" "n \<le> n'"
  shows "board_keeps env (b, n) (update_card i (\<lambda>_. c') b, n')"
  using assms by (intro keeps_update_card) auto

lemma filter_image_subset: "f ` set xs \<subseteq> A \<Longrightarrow> f ` set (filter P xs) \<subseteq> A"
  by auto

lemma keeps_filter_starts:
  "board_keeps env (b, n) (b\<lparr>board_pending_starts := filter P (board_pending_starts b),
                      board_queued_starts := filter Q (board_queued_starts b)\<rparr>, n)"
  by (intro kept_keeps)
    (auto simp: kept_def starts_ok_def card_ids_def list_all2_refl distinct_map_filter
       intro: le_trans[OF length_filter_le])

lemma keeps_drop_queued: "board_keeps env (b, n) (drop_queued i b, n)"
  using keeps_filter_starts[where P = "\<lambda>_. True"] by (simp add: drop_queued_def)

lemma keeps_drop_pending: "board_keeps env (b, n) (drop_pending i b, n)"
  using keeps_filter_starts[where Q = "\<lambda>_. True"] by (simp add: drop_pending_def)

section \<open>The operations that keep a board\<close>

lemma find_card_Some: "find_card b i = Some c \<Longrightarrow> c \<in> set (board_cards b) \<and> card_id c = i"
  by (auto simp: find_card_def dest: find_Some_set)

lemma find_card_None: "find_card b i = None \<longleftrightarrow> i \<notin> set (card_ids b)"
  by (auto simp: find_card_def find_None_iff' card_ids_def)

lemma find_card_unique:
  "distinct (card_ids b) \<Longrightarrow> c \<in> set (board_cards b) \<Longrightarrow> find_card b (card_id c) = Some c"
  unfolding find_card_def card_ids_def
  by (rule find_unique) (auto simp: inj_on_eq_iff distinct_map)

lemma find_update_first:
  assumes "\<And>c. card_id (f c) = card_id c"
  shows "find (\<lambda>c. card_id c = j) (update_first (\<lambda>c. card_id c = i) f cs) =
         (if j = i then map_option f (find (\<lambda>c. card_id c = i) cs) else find (\<lambda>c. card_id c = j) cs)"
  using assms by (induction cs) auto

lemma find_card_update:
  "(\<And>c. card_id (f c) = card_id c) \<Longrightarrow>
   find_card (update_card i f b) j = (if j = i then map_option f (find_card b i) else find_card b j)"
  by (simp add: find_card_def update_card_def find_update_first)

lemma update_first_found: "find P xs = Some x \<Longrightarrow> update_first P f xs = update_first P (\<lambda>_. f x) xs"
  by (induction xs) (auto split: if_splits)

lemma update_card_found: "find_card b i = Some c \<Longrightarrow> update_card i f b = update_card i (\<lambda>_. f c) b"
  by (metis find_card_def update_card_def update_first_found)

lemma find_update_replace:
  "find (\<lambda>c. card_id c = i) cs = Some c \<Longrightarrow> card_id d = i \<Longrightarrow>
   find (\<lambda>c. card_id c = j) (update_first (\<lambda>c. card_id c = i) (\<lambda>_. d) cs) =
   (if j = i then Some d else find (\<lambda>c. card_id c = j) cs)"
  by (induction cs) (auto split: if_splits)

lemma find_card_replace:
  "find_card b i = Some c \<Longrightarrow> card_id d = i \<Longrightarrow>
   find_card (update_card i (\<lambda>_. d) b) j = (if j = i then Some d else find_card b j)"
  by (simp add: find_card_def update_card_def find_update_replace)

lemma find_card_drop [simp]:
  "find_card (drop_queued i b) j = find_card b j" "find_card (drop_pending i b) j = find_card b j"
  by (simp_all add: find_card_def drop_queued_def drop_pending_def)

lemma moved_card_fields [simp]:
  "card_id (fst (moved_card env to' k reason actor now u n c)) = card_id c"
  "card_status (fst (moved_card env to' k reason actor now u n c)) = to'"
  by (simp_all add: moved_card_def Let_def)

lemma quiet_moved_card: "quiet env c (fst (moved_card env to' k reason actor now u n c))"
  by (auto simp: moved_card_def Let_def quiet_def same_card_def claim_kept_def same_holder_def card_ok_def
      length_push_activity saturating_inc_ge touch_def)

lemma snd_moved_card: "n \<le> snd (moved_card env to' k reason actor now u n c)"
  by (simp add: moved_card_def Let_def)

lemma keeps_unblock_card:
  assumes "\<And>c. find_card b i = Some c \<Longrightarrow> \<not> is_closed (card_status c)"
  shows "board_keeps env (b, n) (unblock_card env now i (b, n))"
  using assms by (auto simp: unblock_card_def Let_def intro!: keeps_update_card)

lemma find_unblock_card:
  "find_card (fst (unblock_card env now i (b, n))) j = Some c \<Longrightarrow>
   (\<And>d. find_card b j = Some d \<Longrightarrow> \<not> is_closed (card_status d)) \<Longrightarrow> \<not> is_closed (card_status c)"
  by (auto simp: unblock_card_def Let_def find_card_update split: if_splits)

lemma keeps_fold_unblock:
  assumes "\<And>i c. i \<in> set is' \<Longrightarrow> find_card (fst st) i = Some c \<Longrightarrow> \<not> is_closed (card_status c)"
  shows "board_keeps env st (fold (unblock_card env now) is' st)"
  using assms
proof (induction is' arbitrary: st)
  case (Cons i is')
  obtain b n where st: "st = (b, n)" by (cases st)
  have "board_keeps env st (unblock_card env now i st)"
    unfolding st by (rule keeps_unblock_card) (use Cons.prems st in auto)
  moreover have "board_keeps env (unblock_card env now i st) (fold (unblock_card env now) is' (unblock_card env now i st))"
  proof (rule Cons.IH)
    show "\<not> is_closed (card_status c)" if "j \<in> set is'" "find_card (fst (unblock_card env now i st)) j = Some c" for j c
      by (rule find_unblock_card[OF that(2)[unfolded st]]) (use Cons.prems that st in auto)
  qed
  ultimately show ?case using keeps_trans by auto
qed simp

lemma unblocked_ids_open:
  "distinct (card_ids b) \<Longrightarrow> j \<in> set (unblocked_ids b i) \<Longrightarrow> find_card b j = Some c \<Longrightarrow> card_status c = CardBlocked"
  by (auto simp: unblocked_ids_def Let_def find_card_unique)

lemma keeps_unblock_dependents: "board_keeps env st (snd (unblock_dependents env now i st))"
proof (cases "distinct (card_ids (fst st))")
  case True
  show ?thesis
    unfolding unblock_dependents_def Let_def snd_conv
    by (rule keeps_fold_unblock) (simp add: unblocked_ids_open[OF True])
qed (simp add: board_keeps_def)

lemma keeps_set_status_in:
  assumes "set_status_in env i to' reason actor now u st = Inr (m, st')"
  shows "board_keeps env st st'"
proof -
  obtain b n where st: "st = (b, n)" by (cases st)
  show ?thesis
  proof (cases "find_card b i")
    case (Some c)
    let ?mc = "moved_card env to' (next_order b to' (Some i)) reason actor now u n c"
    let ?b = "update_card i (\<lambda>_. fst ?mc) b"
    let ?q = "if is_closed to' \<or> to' = Backlog then drop_queued i ?b else ?b"
    have 1: "board_keeps env st (?b, snd ?mc)"
      unfolding st by (rule keeps_replace_card[OF Some quiet_moved_card snd_moved_card])
    have 2: "board_keeps env (?b, snd ?mc) (?q, snd ?mc)" by (simp add: keeps_drop_queued)
    have 3: "board_keeps env (?q, snd ?mc) (snd (unblock_dependents env now i (?q, snd ?mc)))"
      by (rule keeps_unblock_dependents)
    show ?thesis
    proof (cases "card_status c = to'")
      case False
      then have "st' = (if is_closed to' then snd (unblock_dependents env now i (?q, snd ?mc)) else (?q, snd ?mc))"
        using assms Some st by (auto simp: set_status_in_def Let_def split: prod.splits if_splits)
      then show ?thesis using keeps_trans[OF 1 2] keeps_trans[OF keeps_trans[OF 1 2] 3] 
        by (cases "is_closed to'") (simp_all only: if_True if_False)
    qed (use assms Some st in \<open>simp add: set_status_in_def\<close>)
  qed (use assms st in \<open>simp add: set_status_in_def\<close>)
qed

lemma keeps_renumber: "board_keeps env (b, n) (renumber k is' b, n)"
proof (induction k is' b rule: renumber.induct)
  case (2 k i is' b)
  have "board_keeps env (b, n) (update_card i (\<lambda>c. c\<lparr>card_order := min (int k) i64_max\<rparr>) b, n)"
    by (rule keeps_update_card) auto
  from keeps_trans[OF this 2] show ?case by simp
qed simp

lemma keeps_reorder_in: "board_keeps env (b, n) (reorder_in i pos b, n)"
  by (auto simp: reorder_in_def Let_def keeps_renumber split: option.splits)

lemma keeps_comment_in: "comment_in env i actor body ms rid now st = Inr (x, st') \<Longrightarrow> board_keeps env st st'"
  by (cases st) (auto simp: comment_in_def Let_def intro!: keeps_update_card split: option.splits if_splits)

lemma keeps_release_in: "release_in env i actor reason now st = Inr (x, st') \<Longrightarrow> board_keeps env st st'"
  by (cases st) (auto simp: release_in_def intro!: keeps_update_card split: option.splits if_splits)

lemma keeps_assign_in:
  assumes "assign_in env i teammate actor now u st = Inr (x, st')"
  shows "board_keeps env st st'"
proof -
  obtain b n where st: "st = (b, n)" by (cases st)
  let ?to = "map_option teammate_id teammate"
  let ?b = "update_card i (\<lambda>c. touch now (push_activity env n actor now (ChangeAssigned (card_assignee c) ?to) u
    (c\<lparr>card_assignee := ?to\<rparr>))) b"
  have "board_keeps env st (?b, Suc n)" unfolding st by (rule keeps_update_card) auto
  from keeps_trans[OF this keeps_filter_starts] show ?thesis
    using assms st by (auto simp: assign_in_def Let_def split: option.splits if_splits)
qed

lemma keeps_add_pending_start:
  assumes "find_card b i \<noteq> None"
  shows "board_keeps env (b, n) (snd (add_pending_start env i t cause actor now (b, n)))"
proof (cases "fst (add_pending_start env i t cause actor now (b, n))")
  case True
  then have new: "(i, t) \<notin> (\<lambda>p. (pending_card_id p, pending_teammate_id p)) ` set (board_pending_starts b)"
    and room: "length (board_pending_starts b) < MAX_PENDING"
    by (auto simp: add_pending_start_def list_ex_iff split: if_splits)
  have "i \<in> set (card_ids b)" using assms by (simp add: find_card_None)
  with True new room show ?thesis
    by (intro kept_keeps) (auto simp: add_pending_start_def kept_def list_all2_refl starts_ok_def split: if_splits)
qed (auto simp: add_pending_start_def)

lemma keeps_wake_in: "board_keeps env st (snd (wake_in env i t rule cause actor depth available now st))"
  by (cases st) (auto simp: wake_in_def Let_def keeps_add_pending_start split: option.splits teammate_start_rule.splits)

lemma keeps_wake_assignee:
  "board_keeps env (snd pst) (snd (wake_assignee env i ts cause actor depth available now pst))"
  using keeps_wake_in[of env "snd pst" i]
  by (cases pst) (auto simp: wake_assignee_def split: option.splits prod.splits, metis snd_conv, metis snd_conv)

lemma keeps_link_session_in:
  "find_card b i = Some c \<Longrightarrow> link_session_in env se actor now (c, n) = (c', m) \<Longrightarrow>
   board_keeps env (b, n) (update_card i (\<lambda>_. c') b, m)"
  by (rule keeps_replace_card) (auto simp: link_session_in_def Let_def split: if_splits)

section \<open>What the validators accept\<close>

lemma validate_title_ok: "validate_title t = Inr t' \<Longrightarrow> 1 \<le> chars_count t' \<and> chars_count t' \<le> MAX_CARD_TITLE_CHARS"
  by (auto simp: validate_title_def Let_def split: if_splits)

lemma validate_description_ok: "validate_description d = Inr d' \<Longrightarrow> length d' \<le> MAX_CARD_DESCRIPTION_BYTES"
  by (auto simp: validate_description_def split: if_splits)

lemma labels_loop_distinct:
  "labels_loop env seen result ls = Inr out \<Longrightarrow> set seen = to_lowercase env ` set result \<Longrightarrow>
   distinct (map (to_lowercase env) result) \<Longrightarrow> distinct (map (to_lowercase env) out)"
proof (induction env seen result ls rule: labels_loop.induct)
  case (2 env seen result label labels)
  let ?l = "trim label"
  show ?case
  proof (cases "to_lowercase env ?l \<in> set seen")
    case True
    with 2 show ?thesis by (auto simp: Let_def split: if_splits)
  next
    case False
    have "set (to_lowercase env ?l # seen) = to_lowercase env ` set (result @ [?l])"
      "distinct (map (to_lowercase env) (result @ [?l]))"
      using 2(4,5) False by auto
    with 2 False show ?thesis by (auto simp: Let_def split: if_splits)
  qed
qed simp

lemma validate_labels_ok:
  "validate_labels env ls = Inr out \<Longrightarrow> length out \<le> MAX_LABELS_PER_CARD \<and> distinct (map (to_lowercase env) out)"
  by (auto simp: validate_labels_def dest: labels_loop_distinct split: if_splits)

lemma blockers_loop_ok:
  "blockers_loop b i result bs = Inr out \<Longrightarrow> distinct result \<Longrightarrow> set result \<subseteq> set (card_ids b) - set_option i \<Longrightarrow>
   distinct out \<and> set out \<subseteq> set (card_ids b) - set_option i"
  by (induction b i result bs rule: blockers_loop.induct)
    (auto simp: find_card_None elem_set split: if_splits)

lemma validate_blockers_ok:
  "validate_blockers b i bs = Inr out \<Longrightarrow> distinct out \<and> set out \<subseteq> set (card_ids b) - set_option i"
  using blockers_loop_ok[of b i "[]" bs out] by (auto simp: validate_blockers_def split: if_splits)

lemma validate_parent_exists: "validate_parent b i p = Inr p' \<Longrightarrow> p' = p \<and> set_option p' \<subseteq> set (card_ids b)"
  by (auto simp: validate_parent_def find_card_None split: option.splits if_splits)

text \<open>A walk that ends without meeting the card shows that the card is no ancestor.\<close>

lemma parent_rel_iff:
  "distinct (card_ids b) \<Longrightarrow> (i, p) \<in> parent_rel b \<longleftrightarrow> parent_of b i = Some p"
  by (auto simp: parent_rel_def parent_of_def Option.bind_eq_Some_conv find_card_unique dest: find_card_Some)

lemma parent_walk_unreachable:
  "parent_walk b (Some i) start steps \<Longrightarrow> distinct (card_ids b) \<Longrightarrow> start = Some a \<Longrightarrow> (a, i) \<notin> (parent_rel b)\<^sup>*"
proof (induction b "Some i" start steps arbitrary: a rule: parent_walk.induct)
  case (2 b ancestor steps)
  then have ne: "a \<noteq> i" and walk: "parent_walk b (Some i) (parent_of b a) (Suc steps)"
    by (auto split: if_splits)
  show ?case
  proof
    assume "(a, i) \<in> (parent_rel b)\<^sup>*"
    with ne obtain p where "(a, p) \<in> parent_rel b" and rest: "(p, i) \<in> (parent_rel b)\<^sup>*"
      by (meson converse_rtranclE)
    then have "parent_of b a = Some p" using parent_rel_iff 2(3) by blast
    with 2 walk rest show False by (auto split: if_splits)
  qed
qed simp

lemma validate_parent_acyclic:
  assumes "validate_parent b (Some i) (Some p) = Inr q" "distinct (card_ids b)"
  shows "(p, i) \<notin> (parent_rel b)\<^sup>*"
proof
  assume reach: "(p, i) \<in> (parent_rel b)\<^sup>*"
  from assms(1) have ne: "p \<noteq> i" and walk: "parent_walk b (Some i) (parent_of b p) 0"
    by (auto simp: validate_parent_def split: if_splits)
  from reach ne obtain r where "(p, r) \<in> parent_rel b" "(r, i) \<in> (parent_rel b)\<^sup>*" by (meson converse_rtranclE)
  with walk assms(2) show False using parent_walk_unreachable parent_rel_iff by blast
qed

section \<open>Creating a card\<close>

lemma parent_rel_range:
  "(\<And>c. c \<in> set (board_cards b) \<Longrightarrow> links_ok ids c) \<Longrightarrow> Range (parent_rel b) \<subseteq> ids"
  by (fastforce simp: parent_rel_def links_ok_def)

lemma links_ok_mono: "links_ok ids c \<Longrightarrow> ids \<subseteq> ids' \<Longrightarrow> links_ok ids' c"
  by (auto simp: links_ok_def)

lemma board_ok_append:
  assumes ok: "board_ok env (b, n)" and inj: "inj (uuid env)" and m: "n < m"
    and c: "card_id c = uuid env n" "card_number c = board_next_number b" "card_ok env c"
      "distinct (card_blocked_by c)" "set (card_blocked_by c) \<subseteq> set (card_ids b)"
      "set_option (card_parent_id c) \<subseteq> set (card_ids b)"
    and room: "length (board_cards b) < MAX_CARDS" "board_next_number b \<noteq> - 1"
  shows "board_ok env (b\<lparr>board_next_number := board_next_number b + 1, board_cards := board_cards b @ [c]\<rparr>, m)"
proof -
  let ?b = "b\<lparr>board_next_number := board_next_number b + 1, board_cards := board_cards b @ [c]\<rparr>"
  from ok have ids: "set (card_ids b) \<subseteq> uuid env ` {..<n}" and links: "\<And>d. d \<in> set (board_cards b) \<Longrightarrow> links_ok (set (card_ids b)) d"
    and acyclic: "acyclic (parent_rel b)"
    by (auto simp: board_ok_def)
  have fresh: "uuid env n \<notin> set (card_ids b)" using ids inj by (auto dest: injD)
  have ids': "set (card_ids ?b) = insert (uuid env n) (set (card_ids b))" by (simp add: card_ids_def c)
  have less: "x < board_next_number b + 1" if "x \<le> board_next_number b" for x
    using that room(2) unatSuc[of "board_next_number b"]
    by (auto simp: word_less_nat_alt word_le_nat_alt add.commute add_eq_0_iff)
  have "uuid env ` {..<Suc n} \<subseteq> uuid env ` {..<m}" using m by auto
  then have "insert (uuid env n) (uuid env ` {..<n}) \<subseteq> uuid env ` {..<m}" by (simp add: lessThan_Suc)
  then have "set (card_ids ?b) \<subseteq> uuid env ` {..<m}" using ids ids' by blast
  moreover have "acyclic (parent_rel ?b)"
  proof (cases "card_parent_id c")
    case None
    then have "parent_rel ?b = parent_rel b" by (auto simp: parent_rel_def)
    with acyclic show ?thesis by simp
  next
    case (Some p)
    then have rel: "parent_rel ?b = insert (uuid env n, p) (parent_rel b)"
      by (auto simp: parent_rel_def c(1)[symmetric])
    have "uuid env n \<notin> Range (parent_rel b)" using parent_rel_range[OF links] fresh by blast
    moreover have "p \<noteq> uuid env n" using Some c fresh by auto
    ultimately have "(p, uuid env n) \<notin> (parent_rel b)\<^sup>*" by (meson Range_iff rtranclE)
    with acyclic rel show ?thesis by (simp add: acyclic_insert)
  qed
  moreover have "links_ok (set (card_ids ?b)) d" if "d \<in> set (board_cards ?b)" for d
    using that links c fresh ids' by (auto simp: links_ok_def)
  moreover have "starts_ok ?b" using ok ids' by (auto simp: board_ok_def starts_ok_def)
  ultimately show ?thesis
    using ok fresh c room less by (auto simp: board_ok_def card_ids_def)
qed

lemma check_option_Some: "check_option f x = Inr y \<Longrightarrow> (x = None \<and> y = None) \<or> (\<exists>a v. x = Some a \<and> y = Some v \<and> f a = Inr v)"
  by (auto simp: check_option_def split: option.splits)

lemma new_card_fields [simp]:
  "card_id (new_card env n actor now b s ti de pr la bl pa) = uuid env n"
  "card_number (new_card env n actor now b s ti de pr la bl pa) = board_next_number b"
  "card_blocked_by (new_card env n actor now b s ti de pr la bl pa) = bl"
  "card_parent_id (new_card env n actor now b s ti de pr la bl pa) = pa"
  "card_claim (new_card env n actor now b s ti de pr la bl pa) = None"
  "card_revision (new_card env n actor now b s ti de pr la bl pa) = 0"
  by (simp_all add: new_card_def)

lemma new_card_ok:
  "1 \<le> chars_count ti \<Longrightarrow> chars_count ti \<le> MAX_CARD_TITLE_CHARS \<Longrightarrow> length de \<le> MAX_CARD_DESCRIPTION_BYTES \<Longrightarrow>
   length la \<le> MAX_LABELS_PER_CARD \<Longrightarrow> distinct (map (to_lowercase env) la) \<Longrightarrow>
   card_ok env (new_card env n actor now b s ti de pr la bl pa)"
  by (simp add: new_card_def card_ok_def)

lemma quiet_link_session_in: "quiet env c (fst (link_session_in env se actor now (c, n)))"
  by (auto simp: link_session_in_def Let_def)

lemma snd_link_session_in: "n \<le> snd (link_session_in env se actor now (c, n))"
  by (simp add: link_session_in_def Let_def)

text \<open>The new card after its first activity and the link to the chat.\<close>

lemma quiet_link_created:
  assumes "link_created env session actor now (c, k) = (c', m)" "card_revision c = 0"
  shows "quiet env c c'" "k \<le> m"
proof -
  have "quiet env c (d\<lparr>card_revision := 0\<rparr>)" if "quiet env c d" for d
    using that assms(2) by (auto simp: quiet_def same_card_def claim_kept_def card_ok_def)
  then show "quiet env c c'"
    using assms(1) quiet_link_session_in[where c = c and n = k and env = env]
    by (auto simp: link_created_def Let_def split: option.splits prod.splits) (metis fst_conv)
  show "k \<le> m"
    using assms(1) snd_link_session_in[where c = c and n = k and env = env]
    by (auto simp: link_created_def Let_def split: option.splits prod.splits) (metis snd_conv)
qed

lemma create_in_result:
  assumes "create_in env actor draft s session now (b, n) = Inr (i, b', m)"
  obtains c where "i = uuid env n"
    "b' = b\<lparr>board_next_number := board_next_number b + 1, board_cards := board_cards b @ [c]\<rparr>"
    "card_id c = uuid env n" "card_number c = board_next_number b" "card_ok env c"
    "distinct (card_blocked_by c)" "set (card_blocked_by c) \<subseteq> set (card_ids b)"
    "set_option (card_parent_id c) \<subseteq> set (card_ids b)" "card_claim c = None"
    "length (board_cards b) < MAX_CARDS" "board_next_number b \<noteq> - 1" "n < m"
proof -
  define new where "new ti de la bl pa =
    push_activity env (n + 1) actor now Created False
      (new_card env n actor now b (case s of None \<Rightarrow> Todo | Some s \<Rightarrow> s) ti (case de of None \<Rightarrow> [] | Some d \<Rightarrow> d)
        (case draft_priority draft of None \<Rightarrow> Normal | Some p \<Rightarrow> p) la bl pa)"
    for ti de la bl pa
  from assms obtain ti de la bl pa c' where
    v: "validate_title (draft_title draft) = Inr ti"
      "check_option validate_description (draft_description draft) = Inr de"
      "validate_labels env (case draft_labels draft of None \<Rightarrow> [] | Some ls \<Rightarrow> ls) = Inr la"
      "validate_blockers b None (case draft_blocked_by draft of None \<Rightarrow> [] | Some bs \<Rightarrow> bs) = Inr bl"
      "validate_parent b None (draft_parent_id draft) = Inr pa"
    and room: "length (board_cards b) < MAX_CARDS" "board_next_number b \<noteq> - 1"
    and c': "link_created env session actor now (new ti de la bl pa, n + 2) = (c', m)"
    and i: "i = uuid env n"
    and b': "b' = b\<lparr>board_next_number := board_next_number b + 1, board_cards := board_cards b @ [c']\<rparr>"
    unfolding create_in_def new_def
    by (auto simp: Let_def split: if_splits prod.splits)
  have "length (case de of None \<Rightarrow> [] | Some d \<Rightarrow> d) \<le> MAX_CARD_DESCRIPTION_BYTES"
    using check_option_Some[OF v(2)] by (auto dest: validate_description_ok)
  then have "card_ok env (new ti de la bl pa)"
    using validate_title_ok[OF v(1)] validate_labels_ok[OF v(3)] new_card_ok[of ti _ la env n actor now b _ _ bl pa]
    unfolding new_def by (simp add: card_ok_def length_push_activity)
  moreover have "quiet env (new ti de la bl pa) c'" "n + 2 \<le> m"
    using quiet_link_created[OF c'] by (simp_all add: new_def)
  ultimately show thesis
    using that[OF i b'] validate_blockers_ok[OF v(4)] validate_parent_exists[OF v(5)] room
    by (auto simp: quiet_def same_card_def claim_kept_def new_def)
qed

lemma claims_from_append: "card_claim c = None \<Longrightarrow> board_cards b' = board_cards b @ [c] \<Longrightarrow> claims_from b b'"
  by (auto simp: claims_from_def)

lemma advances_create_in:
  assumes "create_in env actor draft s session now st = Inr (i, st')" "inj (uuid env)"
  shows "advances env st st'"
proof -
  obtain b n b' m where eqs: "st = (b, n)" "st' = (b', m)" by (cases st, cases st')
  from assms(1)[unfolded eqs] show ?thesis
    by (rule create_in_result)
      (auto simp: eqs advances_def intro!: board_ok_append[OF _ assms(2)] claims_from_append)
qed

section \<open>Editing a card\<close>

lemma edit_field_fst:
  assumes "\<And>c. put (get c) c = c"
  shows "fst (edit_field v get put remember name st) = put (case v of None \<Rightarrow> get (fst st) | Some x \<Rightarrow> x) (fst st)"
  using assms by (cases st) (auto simp: edit_field_def split: option.splits)

lemma edit_card_fst:
  "fst (edit_card title description priority labels blocked_by parent c) =
   c\<lparr>card_title := case title of None \<Rightarrow> card_title c | Some x \<Rightarrow> x,
     card_description := case description of None \<Rightarrow> card_description c | Some x \<Rightarrow> x,
     card_priority := case priority of None \<Rightarrow> card_priority c | Some x \<Rightarrow> x,
     card_labels := case labels of None \<Rightarrow> card_labels c | Some x \<Rightarrow> x,
     card_blocked_by := case blocked_by of None \<Rightarrow> card_blocked_by c | Some x \<Rightarrow> x,
     card_parent_id := case parent of None \<Rightarrow> card_parent_id c | Some x \<Rightarrow> x\<rparr>"
  by (simp add: edit_card_def edit_field_fst cong: option.case_cong)

lemma board_ok_edit:
  assumes ok: "board_ok env (b, n)" and le: "n \<le> m" and c: "find_card b i = Some c"
    and d: "same_card c d" "card_ok env d" "links_ok (set (card_ids b)) d"
    and parent: "\<And>p. card_parent_id d = Some p \<Longrightarrow> card_parent_id c = Some p \<or> (p, i) \<notin> (parent_rel b)\<^sup>*"
  shows "board_ok env (update_card i (\<lambda>_. d) b, m)"
proof -
  let ?b = "update_card i (\<lambda>_. d) b"
  let ?f = "\<lambda>x. if card_id x = i then d else x"
  from ok have dist: "distinct (card_ids b)" by (simp add: board_ok_def)
  have ci: "card_id c = i" "c \<in> set (board_cards b)" using c by (auto dest: find_card_Some)
  have cards: "board_cards ?b = map ?f (board_cards b)"
    using update_first_map[of card_id "board_cards b" i "\<lambda>_. d"] dist by (simp add: update_card_def card_ids_def)
  have eq: "x = c" if "x \<in> set (board_cards b)" "card_id x = i" for x
    using find_card_unique[OF dist that(1)] that(2) c by simp
  have f: "card_id (?f x) = card_id x \<and> card_number (?f x) = card_number x" if "x \<in> set (board_cards b)" for x
    using eq[OF that] d(1) by (auto simp: same_card_def)
  have ids: "card_ids ?b = card_ids b"
    unfolding card_ids_def cards map_map by (rule map_cong[OF refl]) (use f in simp)
  have numbers: "map card_number (board_cards ?b) = map card_number (board_cards b)"
    unfolding cards map_map by (rule map_cong[OF refl]) (use f in simp)
  have starts: "starts_ok ?b" using ok ids by (simp add: board_ok_def starts_ok_cards[of ?b b])
  have "parent_rel ?b \<subseteq> parent_rel b \<union> {(i, p) | p. card_parent_id d = Some p}"
    using d(1) ci by (auto simp: parent_rel_def cards same_card_def)
  moreover have "acyclic (parent_rel b \<union> {(i, p) | p. card_parent_id d = Some p})"
  proof (cases "card_parent_id d")
    case (Some p)
    have "insert (i, p) (parent_rel b) = parent_rel b \<or> (p, i) \<notin> (parent_rel b)\<^sup>*"
      using parent[OF Some] ci by (auto simp: parent_rel_def)
    moreover have "parent_rel b \<union> {(i, p) | p. card_parent_id d = Some p} = insert (i, p) (parent_rel b)"
      using Some by auto
    moreover have "acyclic (parent_rel b)" using ok by (simp add: board_ok_def)
    ultimately show ?thesis by (metis acyclic_insert)
  qed (use ok in \<open>simp add: board_ok_def\<close>)
  ultimately have "acyclic (parent_rel ?b)" by (rule acyclic_subset[rotated])
  moreover have "card_number x < board_next_number b \<and> card_ok env x \<and> links_ok (set (card_ids b)) x"
    if "x \<in> set (board_cards ?b)" for x
  proof (cases "x = d")
    case True
    have "card_number c < board_next_number b" using ok ci by (auto simp: board_ok_def)
    with True d show ?thesis by (simp add: same_card_def)
  qed (use that ok in \<open>auto simp: cards board_ok_def split: if_splits\<close>)
  moreover have "uuid env ` {..<n} \<subseteq> uuid env ` {..<m}" using le by auto
  moreover have "length (board_cards ?b) = length (board_cards b)" by (simp add: cards)
  ultimately show ?thesis
    using ok ids numbers starts unfolding board_ok_def by auto
qed

lemma claims_from_edit:
  assumes "find_card b i = Some c" "card_id d = card_id c" "claim_kept c d"
  shows "claims_from b (update_card i (\<lambda>_. d) b)"
proof -
  have "x \<in> set (board_cards b) \<or> x = d" if "x \<in> set (update_first P (\<lambda>_. d) cs)" "set cs \<subseteq> set (board_cards b)" for x P cs
    using that by (induction cs) (auto split: if_splits)
  with assms find_card_Some[OF assms(1)] show ?thesis
    unfolding claims_from_def update_card_def by (fastforce intro: claim_kept_refl)
qed

lemma apply_patch_card:
  assumes "check_option validate_title pt = Inr title"
    "check_option validate_description pd = Inr description"
    "check_option (validate_labels env) pl = Inr labels"
    "check_option (validate_blockers b (Some i)) pb = Inr blocked_by"
    "check_option (validate_parent b (Some i)) pp = Inr parent"
    and c: "card_ok env c" "links_ok (set (card_ids b)) c" "card_id c = i"
    and d: "d = fst (edit_card title description priority labels blocked_by parent c)"
  shows "card_ok env d" "links_ok (set (card_ids b)) d"
proof -
  note ok = assms(1-5)[THEN check_option_Some]
  show "card_ok env d"
    using c(1) ok(1) ok(2) ok(3) unfolding d edit_card_fst card_ok_def
    by (auto dest: validate_title_ok validate_description_ok validate_labels_ok)
  show "links_ok (set (card_ids b)) d"
    using c(2,3) ok(4) ok(5) unfolding d edit_card_fst links_ok_def
    by (auto dest!: validate_blockers_ok validate_parent_exists)
qed

lemma advances_apply_patch_in:
  assumes "apply_patch_in env i patch actor now u st = Inr (x, st')"
  shows "advances env st st'"
proof -
  obtain b n where st: "st = (b, n)" by (cases st)
  from assms st obtain title description labels blocked_by parent c where
    v: "check_option validate_title (patch_title patch) = Inr title"
      "check_option validate_description (patch_description patch) = Inr description"
      "check_option (validate_labels env) (patch_labels patch) = Inr labels"
      "check_option (validate_blockers b (Some i)) (patch_blocked_by patch) = Inr blocked_by"
      "check_option (validate_parent b (Some i)) (patch_parent_id patch) = Inr parent"
    and c: "find_card b i = Some c"
    and r: "(let (c', previous, names) = edit_card title description (patch_priority patch) labels blocked_by parent c in
         if names = [] then Inr (False, b, n) :: board_error + bool \<times> staged
         else Inr (True,
           update_card i (\<lambda>_. touch now (push_activity env n actor now (Edited names previous) u c')) b, Suc n)) = Inr (x, st')"
    unfolding apply_patch_in_def by (auto split: option.splits)
  let ?d = "fst (edit_card title description (patch_priority patch) labels blocked_by parent c)"
  from r have st': "st' = (b, n) \<or>
      (\<exists>change. st' = (update_card i (\<lambda>_. touch now (push_activity env n actor now change u ?d)) b, Suc n))"
    by (auto simp: Let_def split: prod.splits if_splits)
  have d: "quiet env ?d (touch now (push_activity env n actor now change u ?d))" for change by auto
  have kept: "claim_kept c (touch now (push_activity env n actor now change u ?d))" for change
    by (simp add: claim_kept_def same_holder_def edit_card_fst)
  have "board_ok env (update_card i (\<lambda>_. touch now (push_activity env n actor now change u ?d)) b, Suc n)"
    if ok: "board_ok env (b, n)" for change
  proof (rule board_ok_edit[OF ok _ c])
    have ci: "card_id c = i" "c \<in> set (board_cards b)" using c by (auto dest: find_card_Some)
    then have okc: "card_ok env c" "links_ok (set (card_ids b)) c" using ok by (auto simp: board_ok_def)
    note dd = apply_patch_card[OF v okc ci(1) refl, of "patch_priority patch"]
    show "card_ok env (touch now (push_activity env n actor now change u ?d))"
      "links_ok (set (card_ids b)) (touch now (push_activity env n actor now change u ?d))"
      using dd d[of change] by (auto simp: quiet_def links_ok_def)
    show "same_card c (touch now (push_activity env n actor now change u ?d))"
      by (simp add: same_card_def edit_card_fst touch_def saturating_inc_ge)
    show "card_parent_id c = Some p \<or> (p, i) \<notin> (parent_rel b)\<^sup>*"
      if "card_parent_id (touch now (push_activity env n actor now change u ?d)) = Some p" for p
      using that check_option_Some[OF v(5)] ok
      by (auto simp: edit_card_fst board_ok_def)
        (metis validate_parent_exists validate_parent_acyclic)
  qed simp
  then show ?thesis using st' claims_from_edit[OF c _ kept] st by (auto simp: advances_def edit_card_fst)
qed

end
