(* ===== verification/Board_Steps.thy ===== *)
theory Board_Steps
  imports Board_Invariant
begin

text \<open>
  Every change that a host or an agent hands to a transaction, as one step relation \<open>board_step\<close>: the
  invariant of \<open>Board_Invariant\<close> is kept by each of them, and no step passes a card from a holder whose
  claim is alive to another one.
\<close>

section \<open>Changes of every card\<close>

lemma each_card_quiet:
  assumes "\<And>n c. quiet env c (fst (f n c)) \<and> n \<le> snd (f n c)"
  shows "list_all2 (quiet env) cs (fst (each_card f cs n)) \<and> n \<le> snd (each_card f cs n)"
proof (induction cs arbitrary: n)
  case (Cons c cs)
  have "quiet env c (fst (f n c))" "n \<le> snd (f n c)" using assms by auto
  with Cons[of "snd (f n c)"] show ?case
    by (auto simp: Let_def split: prod.splits)
qed simp

lemma keeps_each_card:
  assumes "\<And>n c. quiet env c (fst (f n c)) \<and> n \<le> snd (f n c)" "each_card f (board_cards b) n = (cs, m)"
  shows "board_keeps env (b, n) (b\<lparr>board_cards := cs\<rparr>, m)"
  using each_card_quiet[where f = f and env = env and cs = "board_cards b" and n = n] assms
  by (intro kept_keeps kept_cards) auto

lemma quiet_sweep_card: "quiet env c (fst (sweep_card env active now n c)) \<and> n \<le> snd (sweep_card env active now n c)"
  by (auto simp: sweep_card_def split: option.splits)

lemma keeps_sweep_claims_in:
  assumes "sweep_claims_in env active now st = Inr (x, st')"
  shows "board_keeps env st st'"
proof -
  obtain b n where st: "st = (b, n)" by (cases st)
  obtain cs m where ec: "each_card (sweep_card env active now) (board_cards b) n = (cs, m)" by fastforce
  with assms st have "st' = (b\<lparr>board_cards := cs\<rparr>, m)" by (auto simp: sweep_claims_in_def Let_def)
  with keeps_each_card[OF quiet_sweep_card ec] st show ?thesis by simp
qed

lemma quiet_unassign_card: "quiet env c (fst (unassign_card env t now n c)) \<and> n \<le> snd (unassign_card env t now n c)"
  by (auto simp: unassign_card_def)

lemma keeps_drop_queued_of: "board_keeps env (b, n) (drop_queued_of t b, n)"
  using keeps_filter_starts[where P = "\<lambda>_. True"] by (simp add: drop_queued_of_def)

lemma keeps_filter_pending:
  "board_keeps env (b, n) (b\<lparr>board_pending_starts := filter P (board_pending_starts b)\<rparr>, n)"
  using keeps_filter_starts[where Q = "\<lambda>_. True"] by simp

lemma keeps_forget_teammate_in:
  assumes "forget_teammate_in env t now st = Inr (x, st')"
  shows "board_keeps env st st'"
proof -
  obtain b n where st: "st = (b, n)" by (cases st)
  let ?b = "b\<lparr>board_pending_starts := filter (\<lambda>p. pending_teammate_id p \<noteq> t) (board_pending_starts b)\<rparr>"
  obtain cs m where ec: "each_card (unassign_card env t now) (board_cards ?b) n = (cs, m)" by fastforce
  have "st' = (drop_queued_of t (?b\<lparr>board_cards := cs\<rparr>), m)"
    using assms st ec by (simp add: forget_teammate_in_def Let_def)
  moreover have "board_keeps env (b, n) (?b, n)" by (rule keeps_filter_pending)
  ultimately show ?thesis
    using keeps_trans[OF keeps_trans[OF _ keeps_each_card[OF quiet_unassign_card ec]] keeps_drop_queued_of] st by auto
qed

section \<open>Changes that keep a board\<close>

lemma keeps_fold_wake_assignee:
  "board_keeps env (snd pst) (snd (fold (\<lambda>x. wake_assignee env x ts cause actor depth available now) xs pst))"
  by (rule fold_keeps_snd) (metis keeps_wake_assignee snd_conv)

lemma keeps_move_card_in:
  assumes "move_card_in env actor i to' order reason u ts available now st = Inr (plans, st')"
  shows "board_keeps env st st'"
proof -
  obtain b n where st: "st = (b, n)" by (cases st)
  from assms st obtain m b1 n1 where s: "set_status_in env i to' reason actor now u (b, n) = Inr (m, b1, n1)"
    and r: "(let b = (case order of None \<Rightarrow> b1 | Some pos \<Rightarrow> reorder_in i pos b1);
           depth = cause_depth actor 0;
           pst = (if moved_changed m \<and> to' = Todo \<and> is_person actor
                 then wake_assignee env i ts MovedToTodo actor depth available now ([], (b, n1))
                 else ([], (b, n1))) in
       fold (\<lambda>x. wake_assignee env x ts Unblocked actor depth available now) (moved_unblocked m) pst) = (plans, st')"
    unfolding move_card_in_def by (auto simp: Let_def split: if_splits)
  define b2 where "b2 = (case order of None \<Rightarrow> b1 | Some pos \<Rightarrow> reorder_in i pos b1)"
  define pst where "pst = (if moved_changed m \<and> to' = Todo \<and> is_person actor
     then wake_assignee env i ts MovedToTodo actor (cause_depth actor 0) available now ([], (b2, n1)) else ([], (b2, n1)))"
  have "board_keeps env (b1, n1) (b2, n1)" by (auto simp: b2_def keeps_reorder_in split: option.splits)
  moreover have "board_keeps env (b2, n1) (snd pst)"
    using keeps_wake_assignee[where pst = "([], (b2, n1))"] by (simp add: pst_def)
  moreover have "board_keeps env (snd pst) st'"
    using keeps_fold_wake_assignee[of env pst ts Unblocked actor "cause_depth actor 0" available now "moved_unblocked m"] r
    unfolding Let_def b2_def[symmetric] pst_def[symmetric] by simp
  ultimately show ?thesis using keeps_set_status_in[OF s] st by (meson keeps_trans)
qed

lemma keeps_wake_mentioned:
  "board_keeps env (snd pst) (snd (wake_mentioned env i actor available now t pst))"
  using keeps_wake_in[of env "snd pst" i t]
  by (cases pst) (auto simp: wake_mentioned_def split: option.splits prod.splits, metis snd_conv, metis snd_conv)

lemma keeps_comment_card_in:
  assumes "comment_card_in env actor i body ms rid ts available now st = Inr (plans, st')"
  shows "board_keeps env st st'"
proof -
  obtain b n where st: "st = (b, n)" by (cases st)
  from assms st obtain st1 where c: "comment_in env i actor body ms rid now (b, n) = Inr ((), st1)"
    and r: "st' = st1 \<or> (\<exists>xs. fold (wake_mentioned env i actor available now) xs ([], st1) = (plans, st'))"
    by (auto simp: comment_card_in_def split: if_splits)
  have "board_keeps env st1 st'"
    using r fold_keeps_snd[where f = "wake_mentioned env i actor available now" and st = "([], st1)"]
      keeps_wake_mentioned[where pst = "(_, _)"]
    by (metis keeps_refl snd_conv)
  with keeps_comment_in[OF c] st show ?thesis using keeps_trans by blast
qed

lemma keeps_assign_card_in:
  assumes "assign_card_in env actor i t start depth u available now st = Inr (x, st')"
  shows "board_keeps env st st'"
proof -
  obtain b n where st: "st = (b, n)" by (cases st)
  from assms st obtain changed b1 n1 where a: "assign_in env i t actor now u (b, n) = Inr (changed, b1, n1)"
    by (auto simp: assign_card_in_def)
  have "board_keeps env (b1, n1) st'"
  proof (cases t)
    case (Some t')
    obtain p st2 where w: "wake_in env i t' (start_rule start t') Assigned actor depth available now (b1, n1) = (p, st2)"
      by (metis surj_pair)
    then have "st' = (b1, n1) \<or> st' = st2"
      using assms st a Some by (cases p) (auto simp: assign_card_in_def split: if_splits)
    with w show ?thesis using keeps_wake_in by (metis keeps_refl snd_conv)
  qed (use assms st a in \<open>simp add: assign_card_in_def\<close>)
  with keeps_assign_in[OF a] st show ?thesis using keeps_trans by blast
qed

lemma quiet_unclaim_run: "quiet env c (unclaim_run rid c)"
  by (auto simp: unclaim_run_def Let_def)

lemma unclaim_run_fields [simp]:
  "card_id (unclaim_run rid c) = card_id c" "card_status (unclaim_run rid c) = card_status c"
  by (simp_all add: unclaim_run_def Let_def)

lemma keeps_rollback_run_in:
  assumes "rollback_run_in env rid i previous handle e now st = Inr (x, st')" "\<not> is_closed previous"
  shows "board_keeps env st st'"
proof -
  obtain b n where st: "st = (b, n)" by (cases st)
  show ?thesis
  proof (cases "find_card b i")
    case (Some c)
    let ?b1 = "update_card i (\<lambda>c. touch now (unclaim_run rid c)) b"
    let ?b2 = "if card_status c = InProgress \<and> previous \<noteq> InProgress
       then update_card i (\<lambda>c. c\<lparr>card_status := previous, card_order := next_order ?b1 previous (Some i)\<rparr>) ?b1 else ?b1"
    have 1: "board_keeps env (b, n) (?b1, n)" by (rule keeps_update_card) (auto intro: quiet_unclaim_run)
    have "find_card ?b1 i = Some (touch now (unclaim_run rid c))"
      using Some by (simp add: find_card_update)
    then have 2: "board_keeps env (?b1, n) (?b2, n)"
      using assms(2) by (auto intro!: keeps_update_card)
    have "comment_in env i HostActor (''Could not start @'' @ handle @ '': '' @ error_message e) [] None now (?b2, n) = Inr (x, st')"
      using assms(1) unfolding st rollback_run_in_def Let_def by (simp only: prod.case Some option.case)
    from keeps_trans[OF keeps_trans[OF 1 2] keeps_comment_in[OF this]] st show ?thesis by simp
  qed (use assms st in \<open>simp add: rollback_run_in_def\<close>)
qed

lemma quiet_finish_card: "quiet env c (fst (finish_card env rid o' now (c, n))) \<and> n \<le> snd (finish_card env rid o' now (c, n))"
  by (auto simp: finish_card_def Let_def)

lemma keeps_finish_run_in:
  assumes "finish_run_in env i rid handle e now st = Inr (x, st')"
  shows "board_keeps env st st'"
proof -
  obtain b n where st: "st = (b, n)" by (cases st)
  show ?thesis
  proof (cases "find_card b i")
    case (Some c)
    let ?holds = "is_some_and (card_claim c) (\<lambda>k. claim_run_id k = Some rid)"
    show ?thesis
    proof (cases "run_end_recorded c rid")
      case True
      then show ?thesis
        using assms Some st by (auto simp: finish_run_in_def Let_def intro!: keeps_update_card split: if_splits)
    next
      case False
      obtain c' m where fc: "finish_card env rid (end_outcome e) now (c, n) = (c', m)" by fastforce
      define st1 where "st1 = (update_card i (\<lambda>_. c') b, m)"
      define st2 where "st2 = (case run_end_comment e handle of None \<Rightarrow> st1
        | Some body \<Rightarrow> (case comment_in env i HostActor body [] (Some rid) now st1 of Inl _ \<Rightarrow> st1 | Inr (_, st') \<Rightarrow> st'))"
      have 1: "board_keeps env st st1"
        unfolding st st1_def
        using quiet_finish_card[of env c rid "end_outcome e" now n] fc by (intro keeps_replace_card[OF Some]) auto
      have 2: "board_keeps env st1 st2"
        by (auto simp: st2_def intro: keeps_comment_in split: option.splits sum.splits prod.splits)
      have "st' = st2 \<or> (\<exists>to' m. set_status_in env i to' None HostActor now False st2 = Inr (m, st'))"
        using assms Some st False fc unfolding st2_def st1_def
        by (cases "run_end_status (end_outcome e) ?holds (card_status c)")
          (auto simp: finish_run_in_def Let_def)
      then have "board_keeps env st2 st'" by (auto intro: keeps_set_status_in)
      with 1 2 show ?thesis using keeps_trans by blast
    qed
  qed (use assms st in \<open>simp add: finish_run_in_def\<close>)
qed

lemma keeps_enqueue_in:
  assumes "enqueue_in env i t cause actor depth now st = Inr (x, st')"
  shows "board_keeps env st st'"
proof -
  obtain b n where st: "st = (b, n)" by (cases st)
  let ?q = "\<lparr>queued_id = uuid env n, queued_card_id = i, queued_teammate_id = t, queued_cause = cause,
    queued_chain_depth = depth, queued_requested_by = actor, queued_created_at = now_text now\<rparr>"
  let ?b = "drop_queued i b"
  let ?b1 = "?b\<lparr>board_queued_starts := board_queued_starts ?b @ [?q]\<rparr>"
  show ?thesis
  proof (cases "st' = st")
    case False
    then have "find_card b i \<noteq> None" "length (board_queued_starts ?b) < MAX_QUEUED_STARTS"
      and st': "st' = (update_card i (\<lambda>c. touch now (push_activity env (n + 1) actor now (ChangeQueued t) False c)) ?b1, n + 2)"
      using assms st by (auto simp: enqueue_in_def Let_def split: if_splits)
    then have "board_keeps env (?b, n) (?b1, n)"
      by (intro kept_keeps)
        (auto simp: kept_def list_all2_refl starts_ok_def find_card_None drop_queued_def)
    moreover have "board_keeps env (?b1, n) st'" unfolding st' by (rule keeps_update_card) auto
    ultimately show ?thesis using st keeps_trans[OF keeps_drop_queued] keeps_trans by blast
  qed simp
qed

lemma keeps_link_card_in: "link_card_in env actor i se now st = Inr (x, st') \<Longrightarrow> board_keeps env st st'"
  by (cases st) (auto simp: link_card_in_def Let_def intro: keeps_link_session_in split: option.splits prod.splits)

lemma keeps_unlink_card_in: "unlink_card_in env actor i sid now st = Inr (x, st') \<Longrightarrow> board_keeps env st st'"
  by (cases st) (auto simp: unlink_card_in_def intro!: keeps_update_card split: option.splits)

lemma keeps_propose_in: "propose_in env actor i op now st = Inr (x, st') \<Longrightarrow> board_keeps env st st'"
  by (cases st) (auto simp: propose_in_def kept_def list_all2_refl starts_ok_def intro!: kept_keeps split: if_splits)

lemma keeps_set_enabled_in: "set_enabled_in e st = Inr (x, st') \<Longrightarrow> board_keeps env st st'"
  by (cases st) (auto simp: set_enabled_in_def kept_def list_all2_refl starts_ok_def intro!: kept_keeps)

lemma keeps_update_settings_in:
  "update_settings_in r v st = Inr (x, st') \<Longrightarrow> settings_valid v \<Longrightarrow> board_keeps env st st'"
  by (cases st) (auto simp: update_settings_in_def kept_def list_all2_refl starts_ok_def intro!: kept_keeps split: if_splits)

section \<open>Undo and proposals\<close>

lemma advances_revert_change:
  assumes "revert_change env i a c now st = Inr st'"
  shows "advances env st st'"
proof -
  obtain b n where st: "st = (b, n)" by (cases st)
  show ?thesis
  proof (cases "activity_change a")
    case (Edited names previous)
    with assms st show ?thesis by (auto simp: revert_change_def intro: advances_apply_patch_in)
  next
    case (ChangeAssigned f t)
    with assms st show ?thesis
      by (auto simp: revert_change_def intro!: keeps_advances keeps_update_card split: if_splits)
  next
    case (Moved f t r)
    with assms st show ?thesis
      by (auto simp: revert_change_def intro: keeps_advances keeps_set_status_in split: if_splits)
  next
    case Claimed
    with assms st show ?thesis
      by (auto simp: revert_change_def intro: keeps_advances keeps_release_in split: if_splits)
  qed (use assms st in \<open>simp_all add: revert_change_def\<close>)
qed

lemma advances_undo_in:
  assumes "undo_in env i aid now st = Inr (x, st')"
  shows "advances env st st'"
proof -
  obtain b n where st: "st = (b, n)" by (cases st)
  from assms st obtain a c b1 n1 where r: "revert_change env i a c now (b, n) = Inr (b1, n1)"
    and st': "st' = (update_card i (\<lambda>c. touch now (push_activity env n1 Person now (Reverted aid) False c)) b1, Suc n1)"
    by (auto simp: undo_in_def split: option.splits if_splits)
  have "advances env (b1, n1) st'" unfolding st' by (rule keeps_advances, rule keeps_update_card) auto
  with advances_revert_change[OF r] st show ?thesis using advances_trans by blast
qed

lemma advances_apply_proposal_in:
  assumes "apply_proposal_in env p ts available now st = Inr (plans, st')" "inj (uuid env)"
  shows "advances env st st'"
proof (cases "proposal_operation p")
  case (OpCreate draft s)
  with assms show ?thesis by (auto simp: apply_proposal_in_def Let_def intro: advances_create_in)
next
  case (OpUpdate i patch)
  with assms show ?thesis by (auto simp: apply_proposal_in_def Let_def intro: advances_apply_patch_in)
next
  case (OpMove i to' reason)
  with assms obtain m st1 where "set_status_in env i to' reason (proposal_actor p) now False st = Inr (m, st1)"
    and r: "fold (\<lambda>u. wake_assignee env u ts Unblocked Person 0 available now) (moved_unblocked m) ([], st1) = (plans, st')"
    by (auto simp: apply_proposal_in_def Let_def)
  moreover have "board_keeps env st1 st'"
    using keeps_fold_wake_assignee[of env "([], st1)" ts Unblocked Person 0 available now "moved_unblocked m"] r by simp
  ultimately show ?thesis using keeps_set_status_in keeps_trans keeps_advances by blast
next
  case (OpComment i body)
  with assms show ?thesis by (auto simp: apply_proposal_in_def Let_def intro: keeps_advances keeps_comment_in)
next
  case (OpAssign i t)
  with assms obtain tm changed st1 where a: "assign_in env i tm (proposal_actor p) now False st = Inr (changed, st1)"
    and r: "(case keep_if (\<lambda>_. changed) tm of
              None \<Rightarrow> Inr ([], st1) :: board_error + start_plan list \<times> staged
            | Some t \<Rightarrow>
              (case wake_in env i t (teammate_on_assign t) Assigned Person 0 available now st1 of
                 (Some plan, st) \<Rightarrow> Inr ([plan], st)
               | (None, st) \<Rightarrow> Inr ([], st))) = Inr (plans, st')"
    by (auto simp: apply_proposal_in_def Let_def)
  have "board_keeps env st1 st'"
  proof (cases "keep_if (\<lambda>_. changed) tm")
    case (Some t')
    obtain p' st2 where w: "wake_in env i t' (teammate_on_assign t') Assigned Person 0 available now st1 = (p', st2)"
      by (metis surj_pair)
    with r Some have "st' = st2" by (cases p') auto
    with w show ?thesis using keeps_wake_in by (metis snd_conv)
  qed (use r in simp)
  with keeps_assign_in[OF a] show ?thesis using keeps_trans keeps_advances by blast
qed

lemma drop_resolved_pending:
  "filter (\<lambda>p. proposal_status p = ProposalPending) (drop_resolved k ps) = filter (\<lambda>p. proposal_status p = ProposalPending) ps"
  by (induction k ps rule: drop_resolved.induct) auto

lemma drop_resolved_length:
  "length (filter (\<lambda>p. proposal_status p \<noteq> ProposalPending) (drop_resolved k ps)) =
   length (filter (\<lambda>p. proposal_status p \<noteq> ProposalPending) ps) - k"
  by (induction k ps rule: drop_resolved.induct) auto

lemma update_first_pending:
  "s \<noteq> ProposalPending \<Longrightarrow>
   length (filter (\<lambda>p. proposal_status p = ProposalPending) (update_first P (\<lambda>p. p\<lparr>proposal_status := s\<rparr>) ps)) \<le>
   length (filter (\<lambda>p. proposal_status p = ProposalPending) ps)"
  by (induction ps) auto

text \<open>Resolving a proposal and pruning: of the resolved ones the newest are kept.\<close>

lemma keeps_resolved:
  assumes "s \<noteq> ProposalPending"
  shows "board_keeps env (b, n) (prune_proposals (b\<lparr>board_proposals := update_first P (\<lambda>p. p\<lparr>proposal_status := s\<rparr>)
           (board_proposals b)\<rparr>), n)"
  using update_first_pending[OF assms, of P "board_proposals b"]
  by (intro kept_keeps)
    (auto simp: prune_proposals_def Let_def kept_def list_all2_refl starts_ok_def drop_resolved_pending drop_resolved_length)

lemma advances_resolve_proposal_in:
  assumes "resolve_proposal_in env pid accept ts available now st = Inr (plans, st')" "inj (uuid env)"
  shows "advances env st st'"
proof -
  obtain b n where st: "st = (b, n)" by (cases st)
  from assms(1) st obtain p b1 n1 plans' where
    a: "(if accept then apply_proposal_in env p ts available now (b, n) else Inr ([], b, n)) = Inr (plans', b1, n1)"
    and st': "st' = (prune_proposals (b1\<lparr>board_proposals := update_first (\<lambda>p. proposal_id p = pid)
        (\<lambda>p. p\<lparr>proposal_status := (if accept then ProposalAccepted else ProposalRejected)\<rparr>) (board_proposals b1)\<rparr>), n1)"
    unfolding resolve_proposal_in_def by (auto simp: Let_def split: option.splits)
  have "advances env (b, n) (b1, n1)"
    using a by (auto intro: advances_apply_proposal_in[OF _ assms(2)] split: if_splits)
  moreover have "advances env (b1, n1) st'"
    unfolding st' by (rule keeps_advances, rule keeps_resolved) simp
  ultimately show ?thesis using advances_trans st by blast
qed

section \<open>Deleting a card\<close>

lemma detach_card_fields [simp]:
  "card_id (detach_card i now c) = card_id c" "card_number (detach_card i now c) = card_number c"
  "card_claim (detach_card i now c) = card_claim c"
  "card_blocked_by (detach_card i now c) = filter (\<lambda>j. j \<noteq> i) (card_blocked_by c)"
  "card_parent_id (detach_card i now c) = (if card_parent_id c = Some i then None else card_parent_id c)"
  by (simp_all add: detach_card_def Let_def)

lemma card_ok_detach: "card_ok env (detach_card i now c) \<longleftrightarrow> card_ok env c"
  by (simp add: detach_card_def Let_def card_ok_def)

lemma advances_delete_card_in:
  assumes "delete_card_in env i r now st = Inr (x, st')"
  shows "advances env st st'"
proof -
  obtain b n where st: "st = (b, n)" by (cases st)
  define b1 where "b1 = b\<lparr>board_cards := map (detach_card i now) (filter (\<lambda>c. card_id c \<noteq> i) (board_cards b)),
    board_proposals := filter (\<lambda>p. proposal_card_id p \<noteq> Some i) (board_proposals b)\<rparr>"
  define b2 where "b2 = drop_queued i (drop_pending i b1)"
  from assms st have st': "st' = (b2, n)"
    by (auto simp: delete_card_in_def b1_def b2_def split: option.splits if_splits)
  have cards: "board_cards b2 = map (detach_card i now) (filter (\<lambda>c. card_id c \<noteq> i) (board_cards b))"
    and next_number: "board_next_number b2 = board_next_number b" "board_workspace_id b2 = board_workspace_id b"
    by (simp_all add: b2_def b1_def drop_queued_def drop_pending_def)
  have ids: "card_ids b2 = filter (\<lambda>j. j \<noteq> i) (card_ids b)"
    by (simp add: card_ids_def cards filter_map comp_def)
  have len: "length (filter (\<lambda>x. Q x \<and> P x) xs) \<le> length (filter P xs)" for P Q and xs :: "board_proposal list"
    by (induction xs) auto
  have "starts_ok b2" if "starts_ok b"
    using that ids by (auto simp: starts_ok_def b2_def b1_def drop_queued_def drop_pending_def distinct_map_filter
      intro: le_trans[OF length_filter_le] le_trans[OF len])
  moreover have "parent_rel b2 \<subseteq> parent_rel b"
    by (auto simp: parent_rel_def cards split: if_splits)
  then have "acyclic (parent_rel b2)" if "acyclic (parent_rel b)" using that acyclic_subset by blast
  moreover have "links_ok (set (card_ids b2)) (detach_card i now c)" if "links_ok (set (card_ids b)) c" for c
    using that by (auto simp: links_ok_def ids split: if_splits)
  moreover have "claims_from b b2" by (auto simp: claims_from_def cards claim_kept_def same_holder_def)
  moreover have "distinct (map card_number (board_cards b2))" if "distinct (map card_number (board_cards b))"
    using that by (simp add: cards comp_def distinct_map_filter)
  moreover have "length (board_cards b2) \<le> length (board_cards b)" by (simp add: cards)
  ultimately show ?thesis
    unfolding advances_def st st'
    by (auto simp: board_ok_def cards ids next_number card_ok_detach intro: le_trans[OF length_filter_le])
qed

section \<open>Taking a card\<close>

text \<open>No change passes a card whose claim is alive to another holder.\<close>

definition claims_fair :: "board_env \<Rightarrow> board_now \<Rightarrow> board \<Rightarrow> board \<Rightarrow> bool" where
  "claims_fair env now b b' \<longleftrightarrow>
     (\<forall>c\<in>set (board_cards b). \<forall>c'\<in>set (board_cards b'). \<forall>k k'.
        card_id c' = card_id c \<longrightarrow> card_claim c = Some k \<longrightarrow> claim_live env k now \<longrightarrow>
        card_claim c' = Some k' \<longrightarrow> same_holder k k')"

definition fair_step :: "board_env \<Rightarrow> board_now \<Rightarrow> staged \<Rightarrow> staged \<Rightarrow> bool" where
  "fair_step env now st st' \<longleftrightarrow>
     (board_ok env st \<longrightarrow> board_ok env st' \<and> claims_fair env now (fst st) (fst st') \<and> snd st \<le> snd st' \<and>
        board_workspace_id (fst st') = board_workspace_id (fst st))"

lemma claims_from_fair:
  assumes "claims_from b b'" "distinct (card_ids b)"
  shows "claims_fair env now b b'"
  unfolding claims_fair_def
proof (intro ballI allI impI)
  fix c c' k k'
  assume c: "c \<in> set (board_cards b)" "c' \<in> set (board_cards b')" "card_id c' = card_id c"
    "card_claim c = Some k" "card_claim c' = Some k'"
  then obtain d where "d \<in> set (board_cards b)" "card_id d = card_id c'" "claim_kept d c'"
    using assms(1) unfolding claims_from_def by fastforce
  moreover from this have "d = c"
    using find_card_unique[OF assms(2)] c by (metis option.inject)
  ultimately show "same_holder k k'" using c by (auto simp: claim_kept_def)
qed

lemma advances_fair: "advances env st st' \<Longrightarrow> fair_step env now st st'"
  by (auto simp: advances_def fair_step_def intro: claims_from_fair dest: board_ok_distinct)

text \<open>A card that is open and not held is taken by replacing it.\<close>

lemma board_ok_take:
  assumes ok: "board_ok env (b, n)" and c: "find_card b i = Some c"
    and quiet: "quiet env c (d\<lparr>card_claim := None\<rparr>)" and status: "\<not> is_closed (card_status d)" and le: "n \<le> m"
  shows "board_ok env (update_card i (\<lambda>_. d) b, m)"
proof -
  have "c \<in> set (board_cards b)" using c by (auto dest: find_card_Some)
  with ok have okc: "card_ok env c" "links_ok (set (card_ids b)) c" by (auto simp: board_ok_def)
  have same: "same_card c d" "card_parent_id d = card_parent_id c" "card_blocked_by d = card_blocked_by c"
    using quiet by (auto simp: quiet_def same_card_def)
  show ?thesis
  proof (rule board_ok_edit[OF ok le c same(1)])
    show "card_ok env d" using quiet okc status by (auto simp: quiet_def card_ok_def)
    show "links_ok (set (card_ids b)) d" using okc same by (simp add: links_ok_def same_card_def)
  qed (use same in auto)
qed

text \<open>The claims of the other cards come from the board before.\<close>

definition other_claims_from :: "string \<Rightarrow> board \<Rightarrow> board \<Rightarrow> bool" where
  "other_claims_from i b b' \<longleftrightarrow>
     (\<forall>c'\<in>set (board_cards b'). card_id c' \<noteq> i \<longrightarrow> card_claim c' \<noteq> None \<longrightarrow>
        (\<exists>c\<in>set (board_cards b). card_id c = card_id c' \<and> claim_kept c c'))"

lemma other_claims_trans:
  assumes "other_claims_from i a b" "other_claims_from i b c"
  shows "other_claims_from i a c"
  unfolding other_claims_from_def
proof (intro ballI impI)
  fix z assume z: "z \<in> set (board_cards c)" "card_id z \<noteq> i" "card_claim z \<noteq> None"
  with assms(2) obtain y where y: "y \<in> set (board_cards b)" "card_id y = card_id z" "claim_kept y z"
    by (auto simp: other_claims_from_def)
  with z have "card_claim y \<noteq> None" by (auto simp: claim_kept_def)
  with assms(1) y z obtain x where "x \<in> set (board_cards a)" "card_id x = card_id y" "claim_kept x y"
    by (auto simp: other_claims_from_def)
  with y show "\<exists>x\<in>set (board_cards a). card_id x = card_id z \<and> claim_kept x z"
    by (metis claim_kept_trans)
qed

lemma claims_from_other: "claims_from b b' \<Longrightarrow> other_claims_from i b b'"
  by (auto simp: claims_from_def other_claims_from_def)

lemma update_other_claims:
  assumes "card_id d = i"
  shows "other_claims_from i b (update_card i (\<lambda>_. d) b)"
proof -
  have "x \<in> set cs" if "x \<in> set (update_first P (\<lambda>_. d) cs)" "x \<noteq> d" for x P cs
    using that by (induction cs) (auto split: if_splits)
  with assms show ?thesis
    unfolding other_claims_from_def update_card_def by (fastforce intro: claim_kept_refl)
qed

lemma other_claims_fair:
  assumes "other_claims_from i b b'" "distinct (card_ids b)"
    and c: "find_card b i = Some c" "\<And>k c' k'. card_claim c = Some k \<Longrightarrow> claim_live env k now \<Longrightarrow>
      c' \<in> set (board_cards b') \<Longrightarrow> card_id c' = i \<Longrightarrow> card_claim c' = Some k' \<Longrightarrow> same_holder k k'"
  shows "claims_fair env now b b'"
  unfolding claims_fair_def
proof (intro ballI allI impI)
  fix x x' k k'
  assume x: "x \<in> set (board_cards b)" "x' \<in> set (board_cards b')" "card_id x' = card_id x"
    "card_claim x = Some k" "claim_live env k now" "card_claim x' = Some k'"
  have unique: "y = x" if "y \<in> set (board_cards b)" "card_id y = card_id x" for y
    using find_card_unique[OF assms(2)] that x(1) by (metis option.inject)
  show "same_holder k k'"
  proof (cases "card_id x = i")
    case True
    then have "x = c" using find_card_unique[OF assms(2) x(1)] c by simp
    with c(2)[of k x' k'] x True show ?thesis by simp
  next
    case False
    with assms(1) x obtain y where "y \<in> set (board_cards b)" "card_id y = card_id x'" "claim_kept y x'"
      unfolding other_claims_from_def by fastforce
    with unique[of y] x show ?thesis by (auto simp: claim_kept_def)
  qed
qed

lemma update_card_at:
  assumes "distinct (card_ids b)" "c' \<in> set (board_cards (update_card i (\<lambda>_. d) b))" "card_id c' = i"
  shows "c' = d"
  using assms update_first_map[of card_id "board_cards b" i "\<lambda>_. d"]
  by (auto simp: update_card_def card_ids_def split: if_splits)

lemma fair_take:
  assumes c: "find_card b i = Some c" and dead: "\<And>k. card_claim c = Some k \<Longrightarrow> claim_live env k now \<Longrightarrow> claim_kept c d"
    and quiet: "quiet env c (d\<lparr>card_claim := None\<rparr>)" and status: "\<not> is_closed (card_status d)" and le: "n \<le> m"
  shows "fair_step env now (b, n) (update_card i (\<lambda>_. d) b, m)"
  unfolding fair_step_def fst_conv snd_conv
proof (intro impI conjI)
  assume ok: "board_ok env (b, n)"
  show "board_ok env (update_card i (\<lambda>_. d) b, m)" by (rule board_ok_take[OF ok c quiet status le])
  have dist: "distinct (card_ids b)" using ok by (simp add: board_ok_def)
  have id: "card_id d = i" using quiet find_card_Some[OF c] by (simp add: quiet_def same_card_def)
  show "claims_fair env now b (update_card i (\<lambda>_. d) b)"
  proof (rule other_claims_fair[OF update_other_claims[OF id] dist c])
    fix k c' k'
    assume "card_claim c = Some k" "claim_live env k now" "c' \<in> set (board_cards (update_card i (\<lambda>_. d) b))"
      "card_id c' = i" "card_claim c' = Some k'"
    then show "same_holder k k'" using dead[of k] update_card_at[OF dist] by (auto simp: claim_kept_def)
  qed
qed (simp_all add: le)

lemma fair_claim_in:
  assumes "claim_in env i actor now u st = Inr (x, st')"
  shows "fair_step env now st st'"
proof -
  obtain b n where st: "st = (b, n)" by (cases st)
  from assms st obtain c where c: "find_card b i = Some c" "\<not> is_closed (card_status c)"
    by (auto simp: claim_in_def split: option.splits if_splits)
  show ?thesis
  proof (cases "keep_if (\<lambda>k. claim_live env k now) (card_claim c)")
    case None
    let ?d = "\<lambda>c. touch now (push_activity env n actor now Claimed u (c\<lparr>card_claim := Some \<lparr>claim_actor = actor,
      claim_run_id = None, claim_claimed_at = now_text now, claim_expires_at = plus_seconds env now CLAIM_LEASE_SECONDS\<rparr>\<rparr>))"
    have "(?d c)\<lparr>card_claim := None\<rparr> = touch now (push_activity env n actor now Claimed u (c\<lparr>card_claim := None\<rparr>))"
      by (simp add: touch_def push_activity_def Let_def)
    then have quiet: "quiet env c ((?d c)\<lparr>card_claim := None\<rparr>)" by auto
    have "fair_step env now (b, n) (update_card i (\<lambda>_. ?d c) b, Suc n)"
      by (rule fair_take[OF c(1) _ quiet])
        (use None c(2) in \<open>auto simp: keep_if_def split: option.splits if_splits\<close>)
    moreover have "st' = (update_card i ?d b, Suc n)" using assms st c None by (simp add: claim_in_def)
    ultimately show ?thesis using update_card_found[OF c(1), of ?d] st by simp
  next
    case (Some k)
    let ?d = "\<lambda>c. c\<lparr>card_claim := Some (k\<lparr>claim_expires_at := plus_seconds env now CLAIM_LEASE_SECONDS\<rparr>)\<rparr>"
    have k: "card_claim c = Some k" using Some by (auto simp: keep_if_def split: option.splits if_splits)
    have "st' = (update_card i ?d b, n)" using assms st c Some by (auto simp: claim_in_def split: if_splits)
    moreover have "fair_step env now (b, n) (update_card i (\<lambda>_. ?d c) b, n)"
      by (rule fair_take[OF c(1)]) (use k c(2) in \<open>auto simp: claim_kept_def same_holder_def\<close>)
    ultimately show ?thesis using update_card_found[OF c(1), of ?d] st by simp
  qed
qed

lemma claim_for_run_fields [simp]:
  "card_id (claim_for_run env rid t actor now n c) = card_id c"
  "card_status (claim_for_run env rid t actor now n c) = card_status c"
  by (simp_all add: claim_for_run_def)

lemma quiet_claim_for_run: "quiet env c ((claim_for_run env rid t actor now n c)\<lparr>card_claim := None\<rparr>)"
proof -
  have "(claim_for_run env rid t actor now n c)\<lparr>card_claim := None\<rparr> =
    touch now (push_activity env n actor now (RunStarted rid t) False
      (c\<lparr>card_claim := None, card_links := card_links c @ [RunLink rid (Some t) (now_text now)]\<rparr>))"
    by (simp add: claim_for_run_def touch_def push_activity_def Let_def)
  then show ?thesis by auto
qed

lemma begin_run_in_result:
  assumes "begin_run_in env rid i t actor now (b, n) = Inr (x, st')"
  obtains c b1 n1 d where "board_enabled b" "find_card b i = Some c" "\<not> is_closed (card_status c)"
    "\<not> is_some_and (card_claim c) (\<lambda>k. claim_live env k now)"
    "(b1, n1) = (b, n) \<and> card_status c = InProgress \<or>
      (\<exists>m. set_status_in env i InProgress None actor now False (b, n) = Inr (m, b1, n1))"
    "find_card b1 i = Some d"
    "x = (card_status c, card_task_text (claim_for_run env rid t actor now n1 d), card_number c)"
    "st' = (drop_queued i (drop_pending i (update_card i (\<lambda>_. claim_for_run env rid t actor now n1 d) b1)), Suc n1)"
proof -
  from assms obtain c where c: "board_enabled b" "find_card b i = Some c" "\<not> is_closed (card_status c)"
    "\<not> is_some_and (card_claim c) (\<lambda>k. claim_live env k now)"
    by (auto simp: begin_run_in_def require_enabled_def split: option.splits if_splits)
  show thesis
  proof (cases "card_status c = InProgress")
    case True
    with assms c show thesis
      by (intro that[OF c, of b n c]) (auto simp: begin_run_in_def require_enabled_def Let_def)
  next
    case False
    with assms c obtain m b1 n1 d where "set_status_in env i InProgress None actor now False (b, n) = Inr (m, b1, n1)"
      "find_card b1 i = Some d"
      by (auto simp: begin_run_in_def require_enabled_def Let_def split: option.splits)
    with assms c False show thesis
      by (intro that[OF c, of b1 n1 d]) (auto simp: begin_run_in_def require_enabled_def Let_def)
  qed
qed

lemma set_status_in_found:
  assumes "set_status_in env i to' reason actor now u (b, n) = Inr (m, b1, n1)" "find_card b1 i = Some d"
    "\<not> is_closed to'"
  shows "card_status d = to'"
proof -
  from assms(1) obtain c where c: "find_card b i = Some c"
    by (auto simp: set_status_in_def split: option.splits)
  then have "card_id c = i" by (auto dest: find_card_Some)
  with assms c show ?thesis
    by (auto simp: set_status_in_def Let_def find_card_replace[OF c] split: if_splits prod.splits)
      (metis fst_conv moved_card_fields find_card_drop find_card_replace option.inject)+
qed

lemma fair_begin_run_in:
  assumes "begin_run_in env rid i t actor now st = Inr (x, st')"
  shows "fair_step env now st st'"
proof -
  obtain b n where st: "st = (b, n)" by (cases st)
  from assms st obtain c b1 n1 d where c: "find_card b i = Some c" "\<not> is_closed (card_status c)"
    "\<not> is_some_and (card_claim c) (\<lambda>k. claim_live env k now)"
    and b1: "(b1, n1) = (b, n) \<and> card_status c = InProgress \<or>
      (\<exists>m. set_status_in env i InProgress None actor now False (b, n) = Inr (m, b1, n1))"
    and d: "find_card b1 i = Some d"
    and st': "st' = (drop_queued i (drop_pending i (update_card i (\<lambda>_. claim_for_run env rid t actor now n1 d) b1)), Suc n1)"
    by (blast elim: begin_run_in_result)
  let ?d = "claim_for_run env rid t actor now n1 d"
  let ?b2 = "update_card i (\<lambda>_. ?d) b1"
  have status: "card_status d = InProgress"
    using b1 c d set_status_in_found by fastforce
  have 1: "board_keeps env (b, n) (b1, n1)" using b1 by (auto intro: keeps_set_status_in)
  have 3: "board_keeps env (?b2, Suc n1) st'"
    unfolding st' using keeps_trans[OF keeps_drop_pending keeps_drop_queued] .
  have id: "card_id ?d = i" using d by (auto dest: find_card_Some)
  show ?thesis
    unfolding fair_step_def st
  proof (intro impI conjI)
    assume ok: "board_ok env (b, n)"
    note a1 = keeps_advances[OF 1, unfolded advances_def, rule_format, OF ok]
    have ok2: "board_ok env (?b2, Suc n1)"
      by (rule board_ok_take[OF a1[THEN conjunct1] d quiet_claim_for_run]) (simp_all add: status)
    note a3 = keeps_advances[OF 3, unfolded advances_def, rule_format, OF ok2]
    show "board_ok env st'" using a3 by simp
    show "snd (b, n) \<le> snd st'" "board_workspace_id (fst st') = board_workspace_id (fst (b, n))"
      using a1 a3 by simp_all
    have others: "other_claims_from i b (fst st')"
      using other_claims_trans[OF other_claims_trans[OF _ update_other_claims[OF id]]] a1 a3
      by (metis claims_from_other fst_conv)
    have "distinct (card_ids b)" using board_ok_distinct[OF ok] by simp
    moreover have "\<not> claim_live env k now" if "card_claim c = Some k" for k
      using c(3) that by (simp add: is_some_and_def)
    ultimately show "claims_fair env now (fst (b, n)) (fst st')"
      unfolding fst_conv by (intro other_claims_fair[OF others _ c(1)]) auto
  qed
qed

section \<open>Every step\<close>

inductive board_step :: "board_env \<Rightarrow> board_now \<Rightarrow> staged \<Rightarrow> staged \<Rightarrow> bool"
  for env now where
  enabled: "set_enabled_in e st = Inr (x, st') \<Longrightarrow> board_step env now st st'"
| settings: "settings_valid v \<Longrightarrow> update_settings_in r v st = Inr (x, st') \<Longrightarrow> board_step env now st st'"
| created: "create_in env actor draft s session now st = Inr (x, st') \<Longrightarrow> board_step env now st st'"
| edited: "apply_patch_in env i patch actor now u st = Inr (x, st') \<Longrightarrow> board_step env now st st'"
| moved: "move_card_in env actor i to' order reason u ts available now st = Inr (x, st') \<Longrightarrow> board_step env now st st'"
| agent_moved: "set_status_in env i to' reason actor now u st = Inr (x, st') \<Longrightarrow> board_step env now st st'"
| deleted: "delete_card_in env i r now st = Inr (x, st') \<Longrightarrow> board_step env now st st'"
| commented: "comment_card_in env actor i body ms rid ts available now st = Inr (x, st') \<Longrightarrow> board_step env now st st'"
| agent_commented: "comment_in env i actor body ms rid now st = Inr (x, st') \<Longrightarrow> board_step env now st st'"
| assigned: "assign_card_in env actor i t start depth u available now st = Inr (x, st') \<Longrightarrow> board_step env now st st'"
| agent_assigned: "agent_assign_in env actor i t' depth available now st = Inr (y, st') \<Longrightarrow> board_step env now st st'"
| pending_dropped: "drop_pending_in pid st = Inr (x, st') \<Longrightarrow> board_step env now st st'"
| run_begun: "begin_run_in env rid i t actor now st = Inr (x, st') \<Longrightarrow> board_step env now st st'"
| run_rolled_back: "\<not> is_closed previous \<Longrightarrow> rollback_run_in env rid i previous handle e now st = Inr (x, st') \<Longrightarrow>
    board_step env now st st'"
| run_finished: "finish_run_in env i rid h e now st = Inr (x, st') \<Longrightarrow> board_step env now st st'"
| enqueued: "enqueue_in env i t cause actor depth now st = Inr (x, st') \<Longrightarrow> board_step env now st st'"
| dequeued: "dequeue_card_in i st = Inr (x, st') \<Longrightarrow> board_step env now st st'"
| queue_forgotten: "forget_queued_starts_in t st = Inr (x, st') \<Longrightarrow> board_step env now st st'"
| swept: "sweep_claims_in env active now st = Inr (x, st') \<Longrightarrow> board_step env now st st'"
| teammate_forgotten: "forget_teammate_in env t now st = Inr (x, st') \<Longrightarrow> board_step env now st st'"
| claimed: "claim_in env i actor now u st = Inr (x, st') \<Longrightarrow> board_step env now st st'"
| released: "release_in env i actor reason now st = Inr (x, st') \<Longrightarrow> board_step env now st st'"
| linked: "agent_link_in env actor i se now st = Inr (x, st') \<Longrightarrow> board_step env now st st'"
| unlinked: "unlink_card_in env actor i sid now st = Inr (x, st') \<Longrightarrow> board_step env now st st'"
| undone: "undo_in env i aid now st = Inr (x, st') \<Longrightarrow> board_step env now st st'"
| proposed: "propose_in env actor i' op now st = Inr (x, st') \<Longrightarrow> board_step env now st st'"
| resolved: "resolve_proposal_in env pid accept ts available now st = Inr (x, st') \<Longrightarrow> board_step env now st st'"

lemmas keeps_changes =
  keeps_set_enabled_in keeps_update_settings_in keeps_move_card_in keeps_set_status_in keeps_comment_card_in
  keeps_comment_in keeps_assign_card_in keeps_rollback_run_in keeps_finish_run_in keeps_enqueue_in
  keeps_sweep_claims_in keeps_forget_teammate_in keeps_release_in keeps_unlink_card_in keeps_propose_in

lemma keeps_drop_pending_in: "drop_pending_in pid st = Inr (x, st') \<Longrightarrow> board_keeps env st st'"
  by (cases st) (auto simp: drop_pending_in_def keeps_filter_pending)

lemma keeps_dequeue_card_in: "dequeue_card_in i st = Inr (x, st') \<Longrightarrow> board_keeps env st st'"
  by (cases st) (auto simp: dequeue_card_in_def keeps_drop_queued)

lemma keeps_forget_queued_starts_in: "forget_queued_starts_in t st = Inr (x, st') \<Longrightarrow> board_keeps env st st'"
  by (cases st) (auto simp: forget_queued_starts_in_def keeps_drop_queued_of)

lemma keeps_agent_link_in: "agent_link_in env actor i se now st = Inr (x, st') \<Longrightarrow> board_keeps env st st'"
  by (cases st) (auto simp: agent_link_in_def Let_def intro: keeps_link_session_in split: option.splits prod.splits)

lemma keeps_agent_assign_in:
  assumes "agent_assign_in env actor i t depth available now st = Inr (x, st')"
  shows "board_keeps env st st'"
proof -
  from assms obtain changed b1 n1 where a: "assign_in env i (Some t) actor now True st = Inr (changed, b1, n1)"
    by (auto simp: agent_assign_in_def)
  obtain p st2 where w: "wake_in env i t (teammate_on_assign t) Assigned actor depth available now (b1, n1) = (p, st2)"
    by (metis surj_pair)
  then have "st' = (b1, n1) \<or> st' = st2" using assms a by (auto simp: agent_assign_in_def split: if_splits)
  with w have "board_keeps env (b1, n1) st'" using keeps_wake_in by (metis keeps_refl snd_conv)
  with keeps_assign_in[OF a] show ?thesis using keeps_trans by blast
qed

lemma board_step_fair:
  assumes "board_step env now st st'" "inj (uuid env)"
  shows "fair_step env now st st'"
  using assms(1)
proof cases
  case claimed
  then show ?thesis by (rule fair_claim_in)
next
  case run_begun
  then show ?thesis by (rule fair_begin_run_in)
qed (auto intro!: advances_fair intro: advances_create_in[OF _ assms(2)] advances_resolve_proposal_in[OF _ assms(2)]
    advances_apply_patch_in advances_undo_in advances_delete_card_in
    keeps_advances keeps_changes keeps_drop_pending_in keeps_dequeue_card_in keeps_forget_queued_starts_in
    keeps_agent_link_in keeps_agent_assign_in)

text \<open>The boards a project can reach: the empty one, and after each committed step a new revision.\<close>

definition stamp :: "64 word \<Rightarrow> string \<Rightarrow> board \<Rightarrow> board" where
  "stamp r t b = b\<lparr>board_revision := r, board_updated_at := t\<rparr>"

inductive board_reachable :: "board_env \<Rightarrow> string \<Rightarrow> staged \<Rightarrow> bool" for env w where
  fresh: "board_reachable env w (board_empty w t, n)"
| committed: "board_reachable env w st \<Longrightarrow> board_step env now st (b, n) \<Longrightarrow> board_reachable env w (stamp r t b, n)"

lemma board_ok_stamp: "board_ok env (stamp r t b, n) = board_ok env (b, n)"
  by (simp add: board_ok_def stamp_def card_ids_def parent_rel_def starts_ok_def)

lemma board_ok_empty: "board_ok env (board_empty w t, n)"
  by (auto simp: board_ok_def board_empty_def card_ids_def parent_rel_def starts_ok_def settings_valid_def
      default_settings_def MIN_BOARD_CONCURRENCY_def MAX_BOARD_CONCURRENCY_def acyclic_def)

lemma reachable_board_ok:
  assumes "board_reachable env w st" "inj (uuid env)"
  shows "board_ok env st"
  using assms(1)
proof induction
  case (fresh t n)
  show ?case by (rule board_ok_empty)
next
  case (committed st now b n r t)
  then show ?case using board_step_fair[OF _ assms(2)] by (auto simp: fair_step_def board_ok_stamp)
qed

end
