(* ===== verification/Board_Transactions.thy ===== *)
theory Board_Transactions
  imports Board_Service Board_Steps
begin

text \<open>
  \<^verbatim>\<open>transact\<close> against its specification: on the board that the service shows, a transaction is one atomic
  change (\<open>spec_transact\<close>), durable when it succeeds and without effect when it fails, and it touches no
  other project. The locale \<open>board_service\<close> proves this for every store with the contract
  \<open>board_store\<close>.
\<close>

section \<open>The specification\<close>

definition spec_transact ::
  "(staged \<Rightarrow> board_error + ('a \<times> staged)) \<Rightarrow> string \<Rightarrow> staged \<Rightarrow> (board_error + ('a \<times> 64 word)) \<times> board" where
  "spec_transact change t = (\<lambda>(b, n).
     case change (b, n) of
       Inl e \<Rightarrow> (Inl e, b)
     | Inr (x, b', _) \<Rightarrow>
       if b' = b then (Inr (x, board_revision b), b)
       else if board_revision b = - 1 then (Inl BoardIo, b)
       else (Inr (x, board_revision b + 1), stamp (board_revision b + 1) t b'))"

text \<open>The board the service shows: the loaded one, else the stored one, else an empty one.\<close>

definition board_view :: "('d, 's) board_host \<Rightarrow> ('d, 's) board_state \<Rightarrow> string \<Rightarrow> board_now \<Rightarrow> board_error + board" where
  "board_view h s w now =
     (case bm_get (bs_boards s) w of
        Some b \<Rightarrow> Inr b
      | None \<Rightarrow> and_then (host_load h (bs_disk s) w) (\<lambda>stored.
          Inr (case stored of None \<Rightarrow> board_empty w (now_text now) | Some b \<Rightarrow> b)))"

definition next_now :: "('d, 's) board_host \<Rightarrow> ('d, 's) board_state \<Rightarrow> board_now" where
  "next_now h s = at_time (host_env h) (host_clock h (bs_readings s))"

definition boards_own :: "('d, 's) board_state \<Rightarrow> bool" where
  "boards_own s \<longleftrightarrow> (\<forall>(w, b)\<in>set (bs_boards s). board_workspace_id b = w)"

definition keeps_workspace :: "(board_now \<Rightarrow> staged \<Rightarrow> board_error + ('a \<times> staged)) \<Rightarrow> bool" where
  "keeps_workspace change \<longleftrightarrow>
     (\<forall>now st x st'. change now st = Inr (x, st') \<longrightarrow> board_workspace_id (fst st') = board_workspace_id (fst st))"

lemma current_view:
  assumes "current h w now s = (r, s')"
  shows "r = board_view h s w now"
    and "bs_disk s' = bs_disk s" "bs_uuids s' = bs_uuids s"
    and "r = Inr b \<Longrightarrow> bm_get (bs_boards s') w = Some b"
    and "v \<noteq> w \<Longrightarrow> bm_get (bs_boards s') v = bm_get (bs_boards s) v"
    and "bs_events s' = bs_events s"
  using assms
  by (auto simp: current_def board_view_def Let_def bm_get_insert split: option.splits sum.splits)

lemma stamp_fields [simp]:
  "board_revision (stamp r t b) = r" "board_workspace_id (stamp r t b) = board_workspace_id b"
  by (simp_all add: stamp_def)

text \<open>What one transaction does, case by case.\<close>

lemma transact_cases:
  assumes "transact h w change s = (r, s')" "\<not> host_safe_mode h" "workspace_directory_name w = Inr d"
    "board_view h s w (next_now h s) = Inr b"
    "spec_transact (change (next_now h s)) (now_text (next_now h s)) (b, bs_uuids s) = (r0, b0)"
  shows "r = r0 \<and> b0 = b \<and> bs_disk s' = bs_disk s \<and> bm_get (bs_boards s') w = Some b \<and>
           (\<forall>v. v \<noteq> w \<longrightarrow> bm_get (bs_boards s') v = bm_get (bs_boards s) v) \<or>
         b0 \<noteq> b \<and> is_ok r0 \<and> (\<exists>x b'. change (next_now h s) (b, bs_uuids s) = Inr (x, b') \<and> board_workspace_id b0 = board_workspace_id (fst b')) \<and>
           (\<forall>v. v \<noteq> w \<longrightarrow> bm_get (bs_boards s') v = bm_get (bs_boards s) v) \<and>
           (case host_save h b0 (bs_disk s) of
              (Inr _, disk) \<Rightarrow> r = r0 \<and> bs_disk s' = disk \<and> bm_get (bs_boards s') w = Some b0
            | (Inl e, disk) \<Rightarrow> r = Inl e \<and> bs_disk s' = disk \<and> bm_get (bs_boards s') w = Some b)"
proof -
  let ?now = "next_now h s"
  let ?s = "s\<lparr>bs_readings := Suc (bs_readings s)\<rparr>"
  obtain r1 s1 where cur: "current h w ?now ?s = (r1, s1)" by (metis surj_pair)
  note view = current_view[OF cur]
  have r1: "r1 = Inr b" using view(1) assms(4) by (simp add: board_view_def cong: option.case_cong)
  have mem: "bm_get (bs_boards s1) w = Some b" "\<And>v. v \<noteq> w \<Longrightarrow> bm_get (bs_boards s1) v = bm_get (bs_boards s) v"
    "bs_disk s1 = bs_disk s" "bs_uuids s1 = bs_uuids s"
    using view r1 by auto
  show ?thesis
  proof (cases "change ?now (b, bs_uuids s)")
    case (Inl e)
    with assms cur r1 mem show ?thesis
      by (auto simp: transact_def read_now_def next_now_def[symmetric] try_then_def spec_transact_def Let_def)
  next
    case (Inr y)
    obtain x b' n where y: "y = (x, b', n)" by (cases y)
    have t: "transact h w change s = commit h w ?now b x (b', n) s1"
      using assms(2,3) cur r1 mem Inr y
      by (simp add: transact_def read_now_def next_now_def[symmetric] try_then_def Let_def)
    show ?thesis
    proof (cases "b' = b \<or> board_revision b = - 1")
      case True
      with assms(1,5) t Inr y mem show ?thesis
        by (auto simp: commit_def spec_transact_def Let_def split: if_splits)
    next
      case False
      then have b0: "b0 = stamp (board_revision b + 1) (now_text ?now) b'" and r0: "r0 = Inr (x, board_revision b + 1)"
        using assms(5) Inr y by (auto simp: spec_transact_def)
      then have "b0 \<noteq> b" by (metis add_cancel_right_right one_neq_zero stamp_fields(1))
      then show ?thesis
        using assms(1) t False Inr y b0 r0 mem
        by (auto simp: commit_def Let_def stamp_def bm_get_insert split: prod.splits sum.splits)
    qed
  qed
qed

section \<open>Over a store with its contract\<close>

locale board_service = board_store load save sound
  for load :: "'d \<Rightarrow> string \<Rightarrow> board_error + board option"
    and save :: "board \<Rightarrow> 'd \<Rightarrow> (board_error + unit) \<times> 'd"
    and sound :: bool
begin

lemma view_own:
  assumes "boards_own s" "host_load h = load" "board_view h s w now = Inr b"
  shows "board_workspace_id b = w"
  using assms load_own
  by (auto simp: board_view_def boards_own_def board_empty_def split: option.splits dest: map_of_SomeD)

lemma transact_saved:
  assumes h: "host_load h = load" "host_save h = save" "\<not> host_safe_mode h"
    and w: "workspace_directory_name w = Inr d" and own: "boards_own s" "keeps_workspace change"
    and view: "board_view h s w (next_now h s) = Inr b"
    and spec: "spec_transact (change (next_now h s)) (now_text (next_now h s)) (b, bs_uuids s) = (r0, b0)"
    and run: "transact h w change s = (r, s')"
  obtains (unchanged) "r = r0" "b0 = b" "bs_disk s' = bs_disk s" "bm_get (bs_boards s') w = Some b"
    | (saved) "is_ok r0" "board_workspace_id b0 = w" "save b0 (bs_disk s) = (Inr (), bs_disk s')"
        "r = r0" "bm_get (bs_boards s') w = Some b0"
    | (failed) e where "is_ok r0" "board_workspace_id b0 = w" "save b0 (bs_disk s) = (Inl e, bs_disk s')"
        "r = Inl e" "bm_get (bs_boards s') w = Some b"
proof -
  have "board_workspace_id b = w" using view_own[OF own(1) h(1) view] .
  then have "board_workspace_id (fst b') = w" if "change (next_now h s) (b, bs_uuids s) = Inr (x, b')" for x b'
    using own(2) that unfolding keeps_workspace_def by fastforce
  then show thesis
    using transact_cases[OF run h(3) w view spec] h(2) unchanged saved failed
    by (auto split: prod.splits sum.splits)
qed

lemma transact_refines:
  assumes h: "host_load h = load" "host_save h = save" "\<not> host_safe_mode h" "sound"
    and w: "workspace_directory_name w = Inr d" and own: "boards_own s" "keeps_workspace change"
    and view: "board_view h s w (next_now h s) = Inr b"
    and spec: "spec_transact (change (next_now h s)) (now_text (next_now h s)) (b, bs_uuids s) = (r0, b0)"
    and run: "transact h w change s = (r, s')"
  shows "r = r0 \<and> bm_get (bs_boards s') w = Some b0 \<and>
           (b0 \<noteq> b \<longrightarrow> is_ok (load (bs_disk s) w) \<longrightarrow> load (bs_disk s') w = Inr (Some b0)) \<or>
         is_ok r0 \<and> \<not> is_ok r \<and> bm_get (bs_boards s') w = Some b \<and>
           load (bs_disk s') w \<in> {load (bs_disk s) w, Inr (Some b0)}"
  using h(1-3) w own view spec run
proof (cases rule: transact_saved)
  case unchanged
  then show ?thesis by simp
next
  case saved
  then show ?thesis using save_ok[OF h(4), of b0] by simp
next
  case (failed e)
  then show ?thesis using save_error[OF h(4), of b0] by auto
qed

lemma transact_others:
  assumes h: "host_load h = load" "host_save h = save" "\<not> host_safe_mode h"
    and w: "workspace_directory_name w = Inr d" and own: "boards_own s" "keeps_workspace change"
    and view: "board_view h s w (next_now h s) = Inr b"
    and run: "transact h w change s = (r, s')" and v: "v \<noteq> w"
  shows "bm_get (bs_boards s') v = bm_get (bs_boards s) v \<and> load (bs_disk s') v = load (bs_disk s) v"
proof -
  obtain r0 b0 where spec: "spec_transact (change (next_now h s)) (now_text (next_now h s)) (b, bs_uuids s) = (r0, b0)"
    by (metis surj_pair)
  have "bm_get (bs_boards s') v = bm_get (bs_boards s) v"
    using transact_cases[OF run h(3) w view spec] v by blast
  moreover have "load (bs_disk s') v = load (bs_disk s) v"
    using h w own view spec run
  proof (cases rule: transact_saved)
    case saved
    then show ?thesis using save_other v by metis
  next
    case (failed e)
    then show ?thesis using save_other v by metis
  qed simp
  ultimately show ?thesis by simp
qed

end

interpretation file_service: board_service "load_board codec" "save_board codec" "codec_ok codec" for codec
  by unfold_locales

end
