(* ===== verification/Board_Behaviour.thy ===== *)
theory Board_Behaviour
  imports Board_Transactions "HOL-Library.Multiset"
begin

text \<open>
  The behaviour of the board: what closing a card unblocks, that a start which fails is undone on the
  card, that the end of a run is recorded once, and the order of the queue.
\<close>

section \<open>Moving a card\<close>

lemma moved_card_rest [simp]:
  "card_links (fst (moved_card env to' k reason actor now u n c)) = card_links c"
  "card_comments (fst (moved_card env to' k reason actor now u n c)) = card_comments c"
  "card_assignee (fst (moved_card env to' k reason actor now u n c)) = card_assignee c"
  "card_blocked_by (fst (moved_card env to' k reason actor now u n c)) = card_blocked_by c"
  by (simp_all add: moved_card_def Let_def)

lemma set_status_in_open:
  assumes "set_status_in env i to' reason actor now u (b, n) = Inr (m, b1, n1)" "\<not> is_closed to'"
    "find_card b i = Some c" "card_status c \<noteq> to'"
  shows "find_card b1 i = Some (fst (moved_card env to' (next_order b to' (Some i)) reason actor now u n c))"
proof -
  obtain c' k where mc: "moved_card env to' (next_order b to' (Some i)) reason actor now u n c = (c', k)"
    by (metis surj_pair)
  have "card_id c' = i"
    using moved_card_fields(1)[of env to' "next_order b to' (Some i)" reason actor now u n c] mc find_card_Some[OF assms(3)] by simp
  moreover have "b1 = (if to' = Backlog then drop_queued i (update_card i (\<lambda>_. c') b) else update_card i (\<lambda>_. c') b)"
    using assms mc by (auto simp: set_status_in_def Let_def split: if_splits)
  ultimately show ?thesis using find_card_replace[OF assms(3)] mc by simp
qed

section \<open>Closing a card unblocks its dependents\<close>

lemma find_unblock_status:
  "find_card (fst st) j = Some d \<Longrightarrow>
   \<exists>d'. find_card (fst (unblock_card env now i st)) j = Some d' \<and>
        card_status d' = (if j = i then Todo else card_status d)"
  by (cases st) (auto simp: unblock_card_def Let_def find_card_update)

lemma find_fold_unblock:
  "find_card (fst st) j = Some d \<Longrightarrow>
   \<exists>d'. find_card (fst (fold (unblock_card env now) is' st)) j = Some d' \<and>
        card_status d' = (if j \<in> set is' then Todo else card_status d)"
proof (induction is' arbitrary: st d)
  case (Cons i is')
  from find_unblock_status[OF Cons.prems] obtain d1 where
    d1: "find_card (fst (unblock_card env now i st)) j = Some d1" "card_status d1 = (if j = i then Todo else card_status d)"
    by blast
  from Cons.IH[OF d1(1)] d1(2) show ?case by auto
qed simp

text \<open>The cards that wait only for cards that are closed once \<open>i\<close> is.\<close>

definition freed_by :: "board \<Rightarrow> string \<Rightarrow> board_card \<Rightarrow> bool" where
  "freed_by b i d \<longleftrightarrow>
     card_status d = CardBlocked \<and> i \<in> set (card_blocked_by d) \<and>
     (\<forall>j\<in>set (card_blocked_by d). j = i \<or> is_some_and (find_card b j) (\<lambda>x. is_closed (card_status x)))"

lemma closed_ids:
  "distinct (card_ids b) \<Longrightarrow>
   j \<in> set (map card_id (filter (\<lambda>c. is_closed (card_status c)) (board_cards b))) \<longleftrightarrow>
   is_some_and (find_card b j) (\<lambda>x. is_closed (card_status x))"
  by (auto simp: is_some_and_def find_card_unique split: option.splits dest: find_card_Some)

lemma set_status_in_closed:
  assumes ok: "board_ok env (b, n)" and c: "find_card b i = Some c" "card_status c \<noteq> to'" and closed: "is_closed to'"
    and run: "set_status_in env i to' reason actor now u (b, n) = Inr (m, b', n')"
  shows "moved_changed m"
    and "set (moved_unblocked m) = {card_id d | d. d \<in> set (board_cards b) \<and> card_id d \<noteq> i \<and> freed_by b i d}"
    and "find_card b j = Some d \<Longrightarrow> find_card b' j = Some d' \<Longrightarrow>
         card_status d' = (if j = i then to' else if freed_by b i d then Todo else card_status d)"
proof -
  obtain c' k where mc: "moved_card env to' (next_order b to' (Some i)) reason actor now u n c = (c', k)"
    by (metis surj_pair)
  define b1 where "b1 = drop_queued i (update_card i (\<lambda>_. c') b)"
  have c': "card_id c' = i" "card_status c' = to'" "card_blocked_by c' = card_blocked_by c"
    using moved_card_fields[of env to' "next_order b to' (Some i)" reason actor now u n c]
      moved_card_rest(4)[of env to' "next_order b to' (Some i)" reason actor now u n c] mc find_card_Some[OF c(1)] by simp_all
  have dist: "distinct (card_ids b)" using ok by (simp add: board_ok_def)
  have "board_keeps env (b, n) (b1, k)"
    using keeps_trans[OF keeps_replace_card[OF c(1) quiet_moved_card snd_moved_card] keeps_drop_queued]
    unfolding b1_def by (metis mc fst_conv snd_conv)
  then have "card_ids b1 = card_ids b" using dist kept_ids[of env "(b, n)" "(b1, k)"] by (simp add: board_keeps_def)
  then have dist1: "distinct (card_ids b1)" using dist by simp
  have f1: "find_card b1 j = (if j = i then Some c' else find_card b j)" for j
    unfolding b1_def using find_card_replace[OF c(1) c'(1)] by simp
  let ?ids = "unblocked_ids b1 i"
  have m: "m = \<lparr>moved_changed = True, moved_unblocked = ?ids\<rparr>" "b' = fst (fold (unblock_card env now) ?ids (b1, k))"
    using run c closed mc
    by (auto simp: set_status_in_def unblock_dependents_def Let_def b1_def split: prod.splits)
  show "moved_changed m" by (simp add: m)
  have mem: "d \<in> set (board_cards b1) \<longleftrightarrow> find_card b1 (card_id d) = Some d" for d
    using find_card_unique[OF dist1] by (auto dest: find_card_Some)
  have mem0: "d \<in> set (board_cards b) \<longleftrightarrow> find_card b (card_id d) = Some d" for d
    using find_card_unique[OF dist] by (auto dest: find_card_Some)
  have freed: "set (card_blocked_by d) \<subseteq> set (map card_id (filter (\<lambda>c. is_closed (card_status c)) (board_cards b1))) \<longleftrightarrow>
      (\<forall>j\<in>set (card_blocked_by d). j = i \<or> is_some_and (find_card b j) (\<lambda>x. is_closed (card_status x)))" for d
    unfolding subset_iff closed_ids[OF dist1] f1 using c' closed by (auto simp: is_some_and_def)
  have ids: "set ?ids = {card_id d | d. d \<in> set (board_cards b) \<and> card_id d \<noteq> i \<and> freed_by b i d}"
  proof -
    have "set ?ids = {card_id d | d. d \<in> set (board_cards b1) \<and> freed_by b i d}"
      unfolding unblocked_ids_def Let_def freed freed_by_def by auto
    also have "\<dots> = {card_id d | d. d \<in> set (board_cards b) \<and> card_id d \<noteq> i \<and> freed_by b i d}"
    proof -
      have "d \<in> set (board_cards b1) \<and> freed_by b i d \<longleftrightarrow> d \<in> set (board_cards b) \<and> card_id d \<noteq> i \<and> freed_by b i d" for d
      proof (cases "card_id d = i")
        case True
        then show ?thesis using c'(2) closed unfolding mem f1 by (auto simp: freed_by_def)
      qed (simp add: mem mem0 f1)
      then show ?thesis by (simp only:)
    qed
    finally show ?thesis .
  qed
  then show "set (moved_unblocked m) = {card_id d | d. d \<in> set (board_cards b) \<and> card_id d \<noteq> i \<and> freed_by b i d}"
    by (simp add: m)
  show "card_status d' = (if j = i then to' else if freed_by b i d then Todo else card_status d)"
    if "find_card b j = Some d" "find_card b' j = Some d'"
  proof -
    have d1: "find_card (fst (b1, k)) j = Some (if j = i then c' else d)" using that f1 by simp
    have "j \<in> set ?ids \<longleftrightarrow> j \<noteq> i \<and> freed_by b i d"
    proof -
      have "x = d" if "x \<in> set (board_cards b)" "card_id x = j" for x
        using find_card_unique[OF dist that(1)] that(2) \<open>find_card b j = Some d\<close> by simp
      then show ?thesis unfolding ids using find_card_Some[OF that(1)] by blast
    qed
    with find_fold_unblock[OF d1, of env now ?ids] that(2) m(2) c'(2) show ?thesis by auto
  qed
qed

section \<open>A start that fails\<close>

lemma claim_for_run_rest [simp]:
  "card_links (claim_for_run env rid t actor now n c) = card_links c @ [RunLink rid (Some t) (now_text now)]"
  "card_comments (claim_for_run env rid t actor now n c) = card_comments c"
  "card_assignee (claim_for_run env rid t actor now n c) = card_assignee c"
  "card_claim (claim_for_run env rid t actor now n c) =
     Some \<lparr>claim_actor = HostActor, claim_run_id = Some rid, claim_claimed_at = now_text now,
           claim_expires_at = plus_seconds env now CLAIM_LEASE_SECONDS\<rparr>"
  by (simp_all add: claim_for_run_def)

text \<open>The card a start has taken: in progress, held by the run, with the link to it.\<close>

lemma begin_run_in_card:
  assumes "begin_run_in env rid i t actor now (b, n) = Inr ((previous, task, no), b1, n1)" "find_card b i = Some c"
  obtains d k where "previous = card_status c" "\<not> is_closed (card_status c)"
    "find_card b1 i = Some (claim_for_run env rid t actor now k d)"
    "card_status d = InProgress" "card_links d = card_links c" "card_comments d = card_comments c"
    "card_assignee d = card_assignee c"
  using assms(1)
proof (cases rule: begin_run_in_result)
  case (1 c0 b0 n0 d)
  have c0: "c0 = c" using 1 assms(2) by simp
  have id: "card_id d = i" using 1 by (auto dest: find_card_Some)
  have found: "find_card b1 i = Some (claim_for_run env rid t actor now n0 d)"
    using 1 id find_card_replace[of b0 i d "claim_for_run env rid t actor now n0 d" i] by simp
  show thesis
  proof (cases "card_status c = InProgress")
    case True
    then have "d = c"
      using 1 c0 assms(2) by (auto simp: set_status_in_def)
    with that[OF _ _ found] True 1 c0 show thesis by simp
  next
    case False
    then obtain m where m: "set_status_in env i InProgress None actor now False (b, n) = Inr (m, b0, n0)" using 1 c0 by auto
    have "d = fst (moved_card env InProgress (next_order b InProgress (Some i)) None actor now False n c)"
      using set_status_in_open[OF m _ assms(2) False] 1 by simp
    with that[OF _ _ found] 1 c0 show thesis by simp
  qed
qed

lemma failed_start_rolled_back:
  assumes begun: "begin_run_in env rid i t actor now (b, n) = Inr ((previous, task, no), st1)"
    and rolled: "rollback_run_in env rid i previous handle e now' st1 = Inr (x, b2, n2)"
    and c: "find_card b i = Some c" "\<forall>l\<in>set (card_links c). \<not> run_link_of rid l"
  shows "\<exists>d k. find_card b2 i = Some d \<and> card_status d = card_status c \<and> card_claim d = None \<and>
           card_links d = card_links c \<and> card_assignee d = card_assignee c \<and>
           card_comments d = card_comments c @ [k] \<and> comment_actor k = HostActor"
proof -
  obtain b1 n1 where st1: "st1 = (b1, n1)" by (cases st1)
  from begun[unfolded st1] c(1) obtain d k where d: "previous = card_status c"
    "find_card b1 i = Some (claim_for_run env rid t actor now k d)"
    "card_status d = InProgress" "card_links d = card_links c" "card_comments d = card_comments c"
    "card_assignee d = card_assignee c"
    by (rule begin_run_in_card)
  let ?c = "claim_for_run env rid t actor now k d"
  let ?u = "touch now' (unclaim_run rid ?c)"
  have links: "filter (\<lambda>l. \<not> run_link_of rid l) (card_links c) = card_links c" using c(2) by simp
  have u: "card_claim ?u = None" "card_links ?u = card_links c" "card_comments ?u = card_comments c"
    "card_assignee ?u = card_assignee c" "card_status ?u = InProgress"
    using d links by (auto simp: unclaim_run_def Let_def)
  let ?b1 = "update_card i (\<lambda>c. touch now' (unclaim_run rid c)) b1"
  let ?r = "\<lambda>c. c\<lparr>card_status := previous, card_order := next_order ?b1 previous (Some i)\<rparr>"
  let ?b2 = "if previous \<noteq> InProgress then update_card i ?r ?b1 else ?b1"
  have f2: "find_card ?b2 i = Some (if previous \<noteq> InProgress then ?r ?u else ?u)"
    using d(2) by (simp add: find_card_update)
  have "comment_in env i HostActor (''Could not start @'' @ handle @ '': '' @ error_message e) [] None now' (?b2, n1) = Inr (x, b2, n2)"
    using rolled d(2,3) unfolding st1 rollback_run_in_def Let_def by (simp only: prod.case option.case claim_for_run_fields)
      (simp split: if_splits)
  then show ?thesis
    using f2 u d(1) by (auto simp: comment_in_def Let_def find_card_update split: if_splits)
qed

lemma rollback_succeeds:
  assumes "find_card b i = Some c" "length (card_comments c) < MAX_COMMENTS_PER_CARD"
    "validate_comment_body (''Could not start @'' @ handle @ '': '' @ error_message e) = Inr ()"
  shows "\<exists>b' n'. rollback_run_in env rid i previous handle e now (b, n) = Inr ((), b', n')"
proof -
  let ?u = "\<lambda>c. touch now (unclaim_run rid c)"
  let ?b1 = "update_card i ?u b"
  let ?r = "\<lambda>c. c\<lparr>card_status := previous, card_order := next_order ?b1 previous (Some i)\<rparr>"
  have "card_comments (unclaim_run rid x) = card_comments x" for x by (simp add: unclaim_run_def Let_def)
  then have "find_card ?b1 i = Some (?u c)" "length (card_comments (?u c)) = length (card_comments c)"
    "find_card (update_card i ?r ?b1) i = Some (?r (?u c))"
    using assms(1) by (simp_all add: find_card_update)
  then show ?thesis
    using assms by (auto simp: rollback_run_in_def comment_in_def Let_def)
qed

text \<open>At the comment limit the comment is refused, and with it the whole transaction that rolls back.\<close>

lemma rollback_needs_comment:
  assumes "find_card b i = Some c" "MAX_COMMENTS_PER_CARD \<le> length (card_comments c)"
  shows "\<exists>err. rollback_run_in env rid i previous handle e now (b, n) = Inl err"
proof -
  let ?u = "\<lambda>c. touch now (unclaim_run rid c)"
  let ?b1 = "update_card i ?u b"
  let ?r = "\<lambda>c. c\<lparr>card_status := previous, card_order := next_order ?b1 previous (Some i)\<rparr>"
  have "card_comments (unclaim_run rid x) = card_comments x" for x by (simp add: unclaim_run_def Let_def)
  then have "find_card ?b1 i = Some (?u c)" "length (card_comments (?u c)) = length (card_comments c)"
    "find_card (update_card i ?r ?b1) i = Some (?r (?u c))"
    using assms(1) by (simp_all add: find_card_update)
  then show ?thesis
    using assms by (auto simp: rollback_run_in_def comment_in_def Let_def validate_comment_body_def)
qed

lemma transact_refused:
  assumes "bm_get (bs_boards s) w = Some b"
    "\<And>now n. \<exists>err. change now (b, n) = Inl err"
  shows "bm_get (bs_boards (after (transact h w change) s)) w = Some b"
    and "bs_disk (after (transact h w change) s) = bs_disk s"
proof -
  have "\<exists>err. snd (transact h w change s) = (if host_safe_mode h \<or> \<not> is_ok (workspace_directory_name w) then s
      else s\<lparr>bs_readings := Suc (bs_readings s)\<rparr>)"
    using assms(1) assms(2)[of "at_time (host_env h) (host_clock h (bs_readings s))" "bs_uuids s"]
    by (auto simp: transact_def read_now_def try_then_def current_def Let_def split: sum.splits)
  then show "bm_get (bs_boards (after (transact h w change) s)) w = Some b"
    "bs_disk (after (transact h w change) s) = bs_disk s"
    using assms(1) by (auto simp: after_def)
qed

section \<open>The end of a run is recorded once\<close>

text \<open>The end of the run is among the last activities of the card, with at most \<open>m\<close> after it.\<close>

definition finished_recently :: "string \<Rightarrow> nat \<Rightarrow> board_card \<Rightarrow> bool" where
  "finished_recently rid m c \<longleftrightarrow>
     (\<exists>pre a post oc. card_activity c = pre @ a # post \<and> length post \<le> m \<and> activity_change a = ChangeRunFinished rid oc)"

lemma finished_recently_recorded: "finished_recently rid m c \<Longrightarrow> run_end_recorded c rid"
  by (auto simp: finished_recently_def run_end_recorded_def)

lemma finished_recently_push:
  assumes "finished_recently rid m c" "m + 2 \<le> MAX_ACTIVITY_PER_CARD"
  shows "finished_recently rid (Suc m) (push_activity env n actor now change u c)"
proof -
  from assms obtain pre a post oc where c: "card_activity c = pre @ a # post" "length post \<le> m"
    "activity_change a = ChangeRunFinished rid oc"
    by (auto simp: finished_recently_def)
  let ?x = "\<lparr>activity_id = uuid env n, activity_actor = actor, activity_at = now_text now,
    activity_change = change, activity_undoable = u\<rparr>"
  let ?k = "length (pre @ a # post @ [?x]) - MAX_ACTIVITY_PER_CARD"
  have "?k \<le> length pre" using c(2) assms(2) by simp
  then have "card_activity (push_activity env n actor now change u c) = drop ?k pre @ a # (post @ [?x])"
    using c(1) by (simp add: push_activity_def Let_def)
  then show ?thesis using c(2,3) unfolding finished_recently_def
    by (intro exI[of _ "drop ?k pre"] exI[of _ a] exI[of _ "post @ [?x]"]) auto
qed

lemma finished_recently_new: "finished_recently rid 0 (push_activity env n actor now (ChangeRunFinished rid oc) u c)"
proof -
  let ?x = "\<lparr>activity_id = uuid env n, activity_actor = actor, activity_at = now_text now,
    activity_change = ChangeRunFinished rid oc, activity_undoable = u\<rparr>"
  have "card_activity (push_activity env n actor now (ChangeRunFinished rid oc) u c) =
      drop (length (card_activity c @ [?x]) - MAX_ACTIVITY_PER_CARD) (card_activity c) @ ?x # []"
    by (simp add: push_activity_def Let_def MAX_ACTIVITY_PER_CARD_def)
  then show ?thesis unfolding finished_recently_def by fastforce
qed

lemma finished_recently_fields [simp]:
  "finished_recently rid m (touch now c) = finished_recently rid m c"
  "finished_recently rid m (c\<lparr>card_comments := ks\<rparr>) = finished_recently rid m c"
  "finished_recently rid m (c\<lparr>card_status := s\<rparr>) = finished_recently rid m c"
  "finished_recently rid m (c\<lparr>card_order := k\<rparr>) = finished_recently rid m c"
  "finished_recently rid m (c\<lparr>card_closed_at := t\<rparr>) = finished_recently rid m c"
  by (simp_all add: finished_recently_def)

definition run_settled :: "string \<Rightarrow> nat \<Rightarrow> board_card \<Rightarrow> bool" where
  "run_settled rid m c \<longleftrightarrow>
     finished_recently rid m c \<and> \<not> is_some_and (card_claim c) (\<lambda>k. claim_run_id k = Some rid)"

lemma settled_finish_card: "run_settled rid 0 (fst (finish_card env rid oc now (c, n)))"
  by (auto simp: run_settled_def finish_card_def Let_def finished_recently_new is_some_and_def)

lemma comment_in_found:
  assumes "comment_in env i actor body mentions rid' now (b, n) = Inr (x, b1, n1)" "find_card b i = Some c" "run_settled rid 0 c"
  shows "\<exists>d. find_card b1 i = Some d \<and> card_status d = card_status c \<and> run_settled rid 1 d"
proof -
  have "finished_recently rid 1 (push_activity env (Suc n) actor now (Commented (uuid env n)) False (c\<lparr>card_comments := ks\<rparr>))" for ks
    using finished_recently_push[of rid 0 "c\<lparr>card_comments := ks\<rparr>"] assms(3)
    by (simp add: run_settled_def MAX_ACTIVITY_PER_CARD_def)
  then show ?thesis
    using assms by (auto simp: comment_in_def Let_def find_card_update run_settled_def split: if_splits)
qed

lemma settled_moved_card:
  assumes "run_settled rid 1 c" "\<not> is_closed to'"
  shows "run_settled rid 2 (fst (moved_card env to' k reason actor now u n c))"
proof -
  have "finished_recently rid 2 (push_activity env n actor now (Moved (card_status c) to' reason) u
      (c\<lparr>card_status := to', card_order := k, card_closed_at := None\<rparr>))"
    using finished_recently_push[of rid 1 "c\<lparr>card_status := to', card_order := k, card_closed_at := None\<rparr>"] assms(1)
    by (simp add: run_settled_def MAX_ACTIVITY_PER_CARD_def numeral_2_eq_2)
  then show ?thesis using assms by (simp add: run_settled_def moved_card_def Let_def)
qed

lemma run_settled_mono: "run_settled rid m c \<Longrightarrow> m \<le> k \<Longrightarrow> run_settled rid k c"
  by (fastforce simp: run_settled_def finished_recently_def)

lemma finish_run_in_settled:
  assumes c: "find_card b i = Some c" "\<not> run_end_recorded c rid"
    and run: "finish_run_in env i rid handle e now (b, n) = Inr (x, b', n')"
  shows "x \<and> (\<exists>d. find_card b' i = Some d \<and> run_settled rid 2 d)"
proof -
  obtain c' m where fc: "finish_card env rid (end_outcome e) now (c, n) = (c', m)" by fastforce
  have c': "run_settled rid 0 c'" "card_id c' = i" "card_status c' = card_status c"
    using settled_finish_card[of rid env "end_outcome e" now c n] fc find_card_Some[OF c(1)]
    by (auto simp: finish_card_def Let_def split: if_splits)
  define st1 where "st1 = (update_card i (\<lambda>_. c') b, m)"
  define st2 where "st2 = (case run_end_comment e handle of None \<Rightarrow> st1
    | Some body \<Rightarrow> (case comment_in env i HostActor body [] (Some rid) now st1 of Inl _ \<Rightarrow> st1 | Inr (_, st') \<Rightarrow> st'))"
  have f1: "find_card (fst st1) i = Some c'" using find_card_replace[OF c(1) c'(2)] by (simp add: st1_def)
  obtain d where d: "find_card (fst st2) i = Some d" "card_status d = card_status c" "run_settled rid 1 d"
  proof (cases "\<exists>body y. run_end_comment e handle = Some body \<and> comment_in env i HostActor body [] (Some rid) now st1 = Inr y")
    case True
    then obtain body y b2 n2 where "run_end_comment e handle = Some body"
      "comment_in env i HostActor body [] (Some rid) now st1 = Inr (y, b2, n2)" by auto
    then show thesis
      using comment_in_found[OF _ f1[unfolded st1_def fst_conv] c'(1), of env HostActor body "[]" "Some rid" now m y b2 n2] c'(3) that
      by (auto simp: st2_def st1_def)
  next
    case False
    then have "st2 = st1" by (auto simp: st2_def split: option.splits sum.splits)
    then show thesis using that f1 c' run_settled_mono by simp
  qed
  have r: "(case run_end_status (end_outcome e) (is_some_and (card_claim c) (\<lambda>k. claim_run_id k = Some rid)) (card_status c) of
        None \<Rightarrow> Inr (True, st2) :: board_error + bool \<times> staged
      | Some to' \<Rightarrow> and_then (set_status_in env i to' None HostActor now False st2) (\<lambda>(_, st). Inr (True, st))) = Inr (x, b', n')"
    using run c fc unfolding st2_def st1_def finish_run_in_def by (simp add: Let_def)
  show ?thesis
  proof (cases "run_end_status (end_outcome e) (is_some_and (card_claim c) (\<lambda>k. claim_run_id k = Some rid)) (card_status c)")
    case None
    then show ?thesis using r d run_settled_mono by (cases st2) auto
  next
    case (Some to')
    obtain b2 n2 where st2: "st2 = (b2, n2)" by (cases st2)
    have "\<not> is_closed to'" "card_status d \<noteq> to'"
      using Some d(2) by (auto simp: run_end_status_def split: if_splits run_outcome.splits)
    moreover from r Some st2 obtain m where "set_status_in env i to' None HostActor now False (b2, n2) = Inr (m, b', n')" "x" by auto
    ultimately show ?thesis
      using set_status_in_open[of env i to' None HostActor now False b2 n2 m b' n' d] d st2 settled_moved_card by simp
  qed
qed

lemma finish_run_in_again:
  assumes "find_card b i = Some d" "run_settled rid m d"
  shows "finish_run_in env i rid handle e now (b, n) = Inr (False, b, n)"
  using assms finished_recently_recorded[of rid m d] by (simp add: finish_run_in_def run_settled_def Let_def)

section \<open>The queue\<close>

lemma insert_by_mset: "mset (insert_by le x xs) = add_mset x (mset xs)"
  by (induction xs) auto

lemma sort_by_mset: "mset (sort_by le xs) = mset xs"
  by (induction xs) (simp_all add: sort_by_def insert_by_mset)

lemma insert_by_sorted:
  assumes "\<And>x y. le x y \<or> le y x" "\<And>x y z. le x y \<Longrightarrow> le y z \<Longrightarrow> le x z" "sorted_wrt le xs"
  shows "sorted_wrt le (insert_by le x xs)"
  using assms(3)
proof (induction xs)
  case (Cons y ys)
  have "set (insert_by le x ys) = insert x (set ys)" using insert_by_mset[of le x ys] by (metis set_mset_add_mset_insert set_mset_mset)
  with Cons assms(1)[of x y] assms(2)[of x y] show ?case by auto
qed simp

lemma sort_by_sorted:
  assumes "\<And>x y. le x y \<or> le y x" "\<And>x y z. le x y \<Longrightarrow> le y z \<Longrightarrow> le x z"
  shows "sorted_wrt le (sort_by le xs)"
  using insert_by_sorted[of le] assms by (induction xs) (auto simp: sort_by_def)

lemma queued_of_order: "sorted_wrt queue_order (queued_of w b)"
  unfolding queued_of_def by (rule sort_by_sorted) (auto simp: queue_order_def split: if_splits)

lemma queued_of_records:
  "mset (map (\<lambda>q. (qs_card_id q, qs_teammate_id q)) (queued_of w b)) =
   mset (map (\<lambda>q. (queued_card_id q, queued_teammate_id q)) (board_queued_starts b))"
proof -
  have "map (\<lambda>q. (qs_card_id q, qs_teammate_id q)) (map (\<lambda>(index, q). queued_entry w b index q) (List.enumerate k qs)) =
      map (\<lambda>q. (queued_card_id q, queued_teammate_id q)) qs" for k qs
    by (induction qs arbitrary: k) (auto simp: queued_entry_def)
  from this[of 0 "board_queued_starts b"] show ?thesis
    unfolding queued_of_def mset_map[of _ "sort_by _ _"] sort_by_mset by (metis mset_map)
qed

end
