(* ===== verification/Board_Agent.thy ===== *)
theory Board_Agent
  imports Board_Transactions
begin

text \<open>
  The agent-facing \<^verbatim>\<open>board\<close> tool (\<^verbatim>\<open>src/apps/desktop/src-tauri/src/board/agent.rs\<close>): the operations, their answers, and the
  permission, budget and mode checks in front of every change. The lexical similarity of cards
  (\<^verbatim>\<open>board/similarity.rs\<close>, which computes with floating-point scores) is a parameter: \<open>similar_cards\<close> with a
  limit, and \<open>search_cards\<close>.
\<close>

section \<open>Operations and answers\<close>

fun status_rank :: "card_status \<Rightarrow> nat" where
  "status_rank Backlog = 0"
| "status_rank Todo = 1"
| "status_rank InProgress = 2"
| "status_rank InReview = 3"
| "status_rank CardBlocked = 4"
| "status_rank CardDone = 5"
| "status_rank CardCancelled = 6"

instantiation card_status :: linorder
begin

definition less_eq_card_status :: "card_status \<Rightarrow> card_status \<Rightarrow> bool" where
  "s \<le> t \<longleftrightarrow> status_rank s \<le> status_rank t"

definition less_card_status :: "card_status \<Rightarrow> card_status \<Rightarrow> bool" where
  "s < t \<longleftrightarrow> status_rank s < status_rank t"

instance
proof
  show "x = y" if "x \<le> y" "y \<le> x" for x y :: card_status
    using that by (cases x; cases y) (simp_all add: less_eq_card_status_def)
qed (auto simp: less_eq_card_status_def less_card_status_def)

end

definition MAX_TOOL_CARDS :: nat where "MAX_TOOL_CARDS = 50"
definition RECENT_COMMENTS :: nat where "RECENT_COMMENTS = 5"
definition MAX_SIMILAR :: nat where "MAX_SIMILAR = 5"

datatype agent_create_status = AgentBacklog | AgentTodo

fun create_status :: "agent_create_status \<Rightarrow> card_status" where
  "create_status AgentBacklog = Backlog"
| "create_status AgentTodo = Todo"

datatype board_tool_operation =
    ToolContext "string option"
  | ToolSearch string "bool option"
  | ToolList "card_status option"
  | ToolGet "64 word"
  | ToolCreate string "string option" "card_priority option" "string list option" "agent_create_status option" "bool option"
  | ToolUpdate "64 word" "string option" "string option" "card_priority option" "string list option"
  | ToolMove "64 word" card_status "string option"
  | ToolComment "64 word" string
  | ToolClaim "64 word"
  | ToolRelease "64 word"
  | ToolLink "64 word"
  | ToolRoster
  | ToolAssign "64 word" string
  | ToolHandoff string string "string option" "card_priority option"

record agent_context =
  ctx_workspace_id :: string
  ctx_actor :: board_actor
  ctx_permissions :: board_permissions
  ctx_session :: "session_ref option"
  ctx_turn_key :: string
  ctx_causing_depth :: "8 word"
  ctx_teammates :: "teammate_ref list"

record tool_card_summary =
  tool_number :: "64 word"
  tool_title :: string
  tool_status :: card_status
  tool_priority :: card_priority
  tool_assignee :: "string option"
  tool_labels :: "string list"

record tool_comment =
  tool_author :: string
  tool_body :: string
  tool_at :: string

record tool_roster_entry =
  roster_handle :: string
  roster_name :: string
  roster_role :: string
  roster_kind :: string
  roster_availability :: availability

datatype write_state = WriteApplied | WriteProposed | WritePendingStart

datatype board_tool_result =
    ContextResult board_agent_mode board_permissions "(tool_card_summary \<times> string) option" "tool_card_summary list"
  | CardsResult string "tool_card_summary list"
  | CardResult tool_card_summary string "tool_comment list"
  | PossibleDuplicates "tool_card_summary list" string
  | WriteResult string tool_card_summary write_state
  | RosterResult "tool_roster_entry list"
  | ErrorResult string string

definition FORBIDDEN :: board_error where
  "FORBIDDEN = BoardForbidden ''This agent is not allowed to do that on this board. Do not retry; ask the person.''"

definition DUPLICATE_HINT :: string where
  "DUPLICATE_HINT =
     ''Similar open cards exist. Update or comment on one of them, or call create again with confirmNew: true only for a distinct deliverable.''"

definition tool_error :: "board_error \<Rightarrow> board_tool_result" where
  "tool_error e = ErrorResult (error_code e) (error_message e)"

record similarity =
  similar_cards :: "board_card list \<Rightarrow> string \<Rightarrow> string list \<Rightarrow> nat \<Rightarrow> board_card list"
  search_cards :: "board_card list \<Rightarrow> string \<Rightarrow> bool \<Rightarrow> nat \<Rightarrow> board_card list"

section \<open>Helpers\<close>

definition need :: "bool \<Rightarrow> board_error + unit" where
  "need allowed = (if allowed then Inr () else Inl FORBIDDEN)"

definition summary :: "board_card \<Rightarrow> teammate_ref list \<Rightarrow> tool_card_summary" where
  "summary c teammates =
     \<lparr>tool_number = card_number c, tool_title = card_title c, tool_status = card_status c,
      tool_priority = card_priority c,
      tool_assignee = map_option (\<lambda>i. case find (\<lambda>t. teammate_id t = i) teammates of
          None \<Rightarrow> ''unknown'' | Some t \<Rightarrow> teammate_handle t) (card_assignee c),
      tool_labels = card_labels c\<rparr>"

definition draft_summary :: "card_draft \<Rightarrow> card_status \<Rightarrow> tool_card_summary" where
  "draft_summary draft s =
     \<lparr>tool_number = 0, tool_title = trim (draft_title draft), tool_status = s,
      tool_priority = (case draft_priority draft of None \<Rightarrow> Normal | Some p \<Rightarrow> p), tool_assignee = None,
      tool_labels = (case draft_labels draft of None \<Rightarrow> [] | Some ls \<Rightarrow> ls)\<rparr>"

fun author :: "board_actor \<Rightarrow> teammate_ref list \<Rightarrow> string" where
  "author Person teammates = ''person''"
| "author (ChatAgent _ _) teammates = ''chat agent''"
| "author (RunMember _ _ _ t) teammates =
     (case Option.bind t (\<lambda>i. find (\<lambda>x. teammate_id x = i) teammates) of
        None \<Rightarrow> ''run agent'' | Some x \<Rightarrow> ''@'' @ teammate_handle x)"
| "author HostActor teammates = ''PiUI''"

definition card_id_of :: "board \<Rightarrow> 64 word \<Rightarrow> board_error + string" where
  "card_id_of b no =
     (case card_by_number b no of
        None \<Rightarrow> Inl (BoardNotFound ''No card has that number. Call list or search first.'')
      | Some c \<Rightarrow> Inr (card_id c))"

definition teammate_by_handle :: "board_env \<Rightarrow> teammate_ref list \<Rightarrow> string \<Rightarrow> board_error + teammate_ref" where
  "teammate_by_handle env teammates handle =
     (let handle = to_lowercase env (dropWhile (\<lambda>c. c = CHR ''@'') (trim handle)) in
      case find (\<lambda>t. teammate_handle t = handle) teammates of
        None \<Rightarrow> Inl (BoardNotFound ''No teammate has that handle. Call roster first.'')
      | Some t \<Rightarrow> if assignable t then Inr t else Inl (NotAssignable TEAMMATE_NOT_ASSIGNABLE))"

fun run_id_of :: "board_actor \<Rightarrow> string option" where
  "run_id_of (RunMember rid _ _ _) = Some rid"
| "run_id_of _ = None"

section \<open>Reading\<close>

definition tool_context :: "similarity \<Rightarrow> agent_context \<Rightarrow> board \<Rightarrow> string option \<Rightarrow> board_tool_result" where
  "tool_context sim ctx b query =
     (let active = Option.bind (ctx_session ctx) (\<lambda>se.
            find (\<lambda>c. \<not> is_closed (card_status c)) (session_cards_of b (session_ref_id se)));
          similar = (case keep_if (\<lambda>q. trim q \<noteq> []) query of
              None \<Rightarrow> []
            | Some q \<Rightarrow> map (\<lambda>c. summary c (ctx_teammates ctx)) (take MAX_SIMILAR
                (filter (\<lambda>c. \<not> is_some_and active (\<lambda>a. card_id a = card_id c))
                  (similar_cards sim (board_cards b) q [] (MAX_SIMILAR + 1))))) in
      ContextResult (settings_agent_mode (board_settings b)) (ctx_permissions ctx)
        (map_option (\<lambda>c. (summary c (ctx_teammates ctx), card_description c)) active) similar)"

definition tool_list :: "agent_context \<Rightarrow> board \<Rightarrow> card_status option \<Rightarrow> board_tool_result" where
  "tool_list ctx b s =
     (let cards = filter (\<lambda>c. case s of Some s \<Rightarrow> card_status c = s | None \<Rightarrow> \<not> is_closed (card_status c)) (board_cards b);
          cards = sort_key (\<lambda>c. (card_status c, card_order c, card_number c)) cards in
      CardsResult ''list'' (map (\<lambda>c. summary c (ctx_teammates ctx)) (take MAX_TOOL_CARDS cards)))"

definition tool_get :: "agent_context \<Rightarrow> board \<Rightarrow> 64 word \<Rightarrow> board_error + board_tool_result" where
  "tool_get ctx b no =
     (case card_by_number b no of
        None \<Rightarrow> Inl (BoardNotFound CARD_NOT_FOUND)
      | Some c \<Rightarrow>
        Inr (CardResult (summary c (ctx_teammates ctx)) (card_description c)
          (map (\<lambda>k. \<lparr>tool_author = author (comment_actor k) (ctx_teammates ctx), tool_body = comment_body k,
                     tool_at = comment_created_at k\<rparr>)
            (drop (length (card_comments c) - RECENT_COMMENTS) (card_comments c)))))"

definition tool_roster :: "agent_context \<Rightarrow> board_tool_result" where
  "tool_roster ctx =
     RosterResult (map (\<lambda>t. \<lparr>roster_handle = teammate_handle t, roster_name = teammate_name t,
         roster_role = teammate_role t, roster_kind = teammate_kind t, roster_availability = teammate_availability t\<rparr>)
       (filter assignable (ctx_teammates ctx)))"

definition tool_search :: "similarity \<Rightarrow> agent_context \<Rightarrow> board \<Rightarrow> string \<Rightarrow> bool option \<Rightarrow> board_tool_result" where
  "tool_search sim ctx b query include_closed =
     CardsResult ''search'' (map (\<lambda>c. summary c (ctx_teammates ctx))
       (search_cards sim (board_cards b) query (include_closed = Some True) MAX_TOOL_CARDS))"

section \<open>Writing\<close>

definition agent_write ::
  "('d, 's) board_host \<Rightarrow> string \<Rightarrow> agent_context \<Rightarrow> string \<Rightarrow> write_state \<Rightarrow> ('d, 's, board_tool_result) board_method" where
  "agent_write h op ctx i state =
     try_then (get_board h (ctx_workspace_id ctx)) (\<lambda>b. answer (case find_card b i of
         None \<Rightarrow> Inl (BoardNotFound CARD_NOT_FOUND)
       | Some c \<Rightarrow> Inr (WriteResult op (summary c (ctx_teammates ctx)) state)))"

text \<open>The end of a writing operation: the write is counted, then the card is shown.\<close>

definition note_and_write ::
  "('d, 's) board_host \<Rightarrow> string \<Rightarrow> agent_context \<Rightarrow> string \<Rightarrow> write_state \<Rightarrow> ('d, 's, board_tool_result) board_method" where
  "note_and_write h op ctx i state s = agent_write h op ctx i state (note_turn_write (ctx_turn_key ctx) s)"

definition agent_create ::
  "('d, 's) board_host \<Rightarrow> agent_context \<Rightarrow> card_draft \<Rightarrow> card_status \<Rightarrow> bool \<Rightarrow> ('d, 's, board_tool_result) board_method" where
  "agent_create h ctx draft s proposal_mode =
     (if proposal_mode
      then try_then (transact h (ctx_workspace_id ctx)
          (propose_in (host_env h) (ctx_actor ctx) None (OpCreate draft (Some s))))
        (\<lambda>_. answer (Inr (WriteResult ''create'' (draft_summary draft s) WriteProposed)))
      else try_then (transact h (ctx_workspace_id ctx)
          (create_in (host_env h) (ctx_actor ctx) draft (Some s) (ctx_session ctx)))
        (\<lambda>(i, _). agent_write h ''create'' ctx i WriteApplied))"

definition agent_assign ::
  "('d, 's) board_host \<Rightarrow> agent_context \<Rightarrow> string \<Rightarrow> teammate_ref \<Rightarrow> ('d, 's, write_state) board_method" where
  "agent_assign h ctx i t s =
     (let available = host_available h (bs_starter s); depth = cause_depth (ctx_actor ctx) (ctx_causing_depth ctx) in
      try_then (transact h (ctx_workspace_id ctx) (agent_assign_in (host_env h) (ctx_actor ctx) i t depth available))
        (\<lambda>((plan, pending), _) s.
          let s = (case plan of None \<Rightarrow> s
                   | Some p \<Rightarrow> snd (execute_plans h (ctx_workspace_id ctx) (ctx_teammates ctx) [p] s)) in
          (Inr (if pending then WritePendingStart else WriteApplied), s)) s)"

text \<open>A change in proposal mode is a proposal, otherwise it is applied.\<close>

definition propose_or ::
  "('d, 's) board_host \<Rightarrow> agent_context \<Rightarrow> bool \<Rightarrow> string \<Rightarrow> board_operation \<Rightarrow> ('d, 's, write_state) board_method \<Rightarrow>
   ('d, 's, write_state) board_method" where
  "propose_or h ctx proposal_mode i op m =
     (if proposal_mode
      then try_then (transact h (ctx_workspace_id ctx) (propose_in (host_env h) (ctx_actor ctx) (Some i) op))
        (\<lambda>_. answer (Inr WriteProposed))
      else m)"

definition applied :: "('d, 's, 'a) board_method \<Rightarrow> ('d, 's, write_state) board_method" where
  "applied m = try_then m (\<lambda>_. answer (Inr WriteApplied))"

definition tool_create ::
  "('d, 's) board_host \<Rightarrow> similarity \<Rightarrow> agent_context \<Rightarrow> board \<Rightarrow> bool \<Rightarrow> string \<Rightarrow> string option \<Rightarrow> card_priority option \<Rightarrow>
   string list option \<Rightarrow> agent_create_status option \<Rightarrow> bool option \<Rightarrow> ('d, 's, board_tool_result) board_method" where
  "tool_create h sim ctx b proposal_mode title description priority labels status confirm_new =
     try_then (answer (validate_title title)) (\<lambda>title.
       let candidates = (if confirm_new = Some True then []
             else map (\<lambda>c. summary c (ctx_teammates ctx)) (similar_cards sim (board_cards b) title
               (case labels of None \<Rightarrow> [] | Some ls \<Rightarrow> ls) MAX_SIMILAR)) in
       if candidates \<noteq> [] then answer (Inr (PossibleDuplicates candidates DUPLICATE_HINT))
       else
         (let s = (case status of None \<Rightarrow> Todo | Some s \<Rightarrow> create_status s);
              draft = \<lparr>draft_title = title, draft_description = description, draft_priority = priority,
                draft_labels = labels, draft_blocked_by = None, draft_parent_id = None\<rparr> in
          try_then (agent_create h ctx draft s proposal_mode) (\<lambda>r s.
            (Inr r, note_turn_write (ctx_turn_key ctx) s))))"

definition tool_update ::
  "('d, 's) board_host \<Rightarrow> agent_context \<Rightarrow> board \<Rightarrow> bool \<Rightarrow> 64 word \<Rightarrow> card_patch \<Rightarrow> ('d, 's, board_tool_result) board_method" where
  "tool_update h ctx b proposal_mode no patch =
     try_then (answer (card_id_of b no)) (\<lambda>i.
       if patch = empty_patch then answer (Inl (BoardInvalid ''Nothing to update.''))
       else try_then (propose_or h ctx proposal_mode i (OpUpdate i patch)
           (applied (transact h (ctx_workspace_id ctx) (\<lambda>now. apply_patch_in (host_env h) i patch (ctx_actor ctx) now True))))
         (note_and_write h ''update'' ctx i))"

definition tool_move ::
  "('d, 's) board_host \<Rightarrow> agent_context \<Rightarrow> board \<Rightarrow> bool \<Rightarrow> 64 word \<Rightarrow> card_status \<Rightarrow> string option \<Rightarrow>
   ('d, 's, board_tool_result) board_method" where
  "tool_move h ctx b proposal_mode no to' reason =
     try_then (answer (card_id_of b no)) (\<lambda>i.
     try_then (propose_or h ctx (proposal_mode \<or> is_closed to') i (OpMove i to' reason)
         (applied (transact h (ctx_workspace_id ctx) (\<lambda>now. set_status_in (host_env h) i to' reason (ctx_actor ctx) now True))))
       (note_and_write h ''move'' ctx i))"

definition tool_comment_op ::
  "('d, 's) board_host \<Rightarrow> agent_context \<Rightarrow> board \<Rightarrow> bool \<Rightarrow> 64 word \<Rightarrow> string \<Rightarrow> ('d, 's, board_tool_result) board_method" where
  "tool_comment_op h ctx b proposal_mode no body =
     try_then (answer (card_id_of b no)) (\<lambda>i.
     try_then (propose_or h ctx proposal_mode i (OpComment i body)
         (applied (transact h (ctx_workspace_id ctx)
           (comment_in (host_env h) i (ctx_actor ctx) body [] (run_id_of (ctx_actor ctx))))))
       (note_and_write h ''comment'' ctx i))"

definition tool_claim ::
  "('d, 's) board_host \<Rightarrow> agent_context \<Rightarrow> board \<Rightarrow> bool \<Rightarrow> 64 word \<Rightarrow> ('d, 's, board_tool_result) board_method" where
  "tool_claim h ctx b proposal_mode no =
     try_then (answer (card_id_of b no)) (\<lambda>i.
     try_then (applied (transact h (ctx_workspace_id ctx)
         (\<lambda>now. claim_in (host_env h) i (ctx_actor ctx) now (\<not> proposal_mode))))
       (note_and_write h ''claim'' ctx i))"

definition tool_release ::
  "('d, 's) board_host \<Rightarrow> agent_context \<Rightarrow> board \<Rightarrow> 64 word \<Rightarrow> ('d, 's, board_tool_result) board_method" where
  "tool_release h ctx b no =
     try_then (answer (card_id_of b no)) (\<lambda>i.
     try_then (applied (transact h (ctx_workspace_id ctx)
         (release_in (host_env h) i (ctx_actor ctx) ReleaseReleased)))
       (note_and_write h ''release'' ctx i))"

definition tool_link ::
  "('d, 's) board_host \<Rightarrow> agent_context \<Rightarrow> board \<Rightarrow> session_ref \<Rightarrow> 64 word \<Rightarrow> ('d, 's, board_tool_result) board_method" where
  "tool_link h ctx b session no =
     try_then (answer (card_id_of b no)) (\<lambda>i.
     try_then (applied (transact h (ctx_workspace_id ctx) (agent_link_in (host_env h) (ctx_actor ctx) i session)))
       (note_and_write h ''link'' ctx i))"

definition tool_assign ::
  "('d, 's) board_host \<Rightarrow> agent_context \<Rightarrow> board \<Rightarrow> bool \<Rightarrow> 64 word \<Rightarrow> string \<Rightarrow> ('d, 's, board_tool_result) board_method" where
  "tool_assign h ctx b proposal_mode no handle =
     try_then (answer (card_id_of b no)) (\<lambda>i.
     try_then (answer (teammate_by_handle (host_env h) (ctx_teammates ctx) handle)) (\<lambda>t.
     try_then (propose_or h ctx proposal_mode i (OpAssign i (Some (teammate_id t))) (agent_assign h ctx i t))
       (note_and_write h ''assign'' ctx i)))"

fun as_handoff :: "board_tool_result \<Rightarrow> board_tool_result" where
  "as_handoff (WriteResult _ c state) = WriteResult ''handoff'' c state"
| "as_handoff r = r"

definition tool_handoff ::
  "('d, 's) board_host \<Rightarrow> agent_context \<Rightarrow> bool \<Rightarrow> string \<Rightarrow> string \<Rightarrow> string option \<Rightarrow> card_priority option \<Rightarrow>
   ('d, 's, board_tool_result) board_method" where
  "tool_handoff h ctx proposal_mode handle title description priority =
     try_then (answer (teammate_by_handle (host_env h) (ctx_teammates ctx) handle)) (\<lambda>t.
     try_then (answer (validate_title title)) (\<lambda>title.
       let draft = \<lparr>draft_title = title, draft_description = description, draft_priority = priority,
                     draft_labels = None, draft_blocked_by = None, draft_parent_id = None\<rparr> in
       if proposal_mode
       then try_then (agent_create h ctx draft Todo True) (\<lambda>r s.
         (Inr (as_handoff r), note_turn_write (ctx_turn_key ctx) s))
       else
         try_then (transact h (ctx_workspace_id ctx)
             (create_in (host_env h) (ctx_actor ctx) draft (Some Todo) (ctx_session ctx))) (\<lambda>(i, _).
         try_then (agent_assign h ctx i t) (note_and_write h ''handoff'' ctx i))))"

section \<open>The tool\<close>

fun permitted :: "board_permissions \<Rightarrow> board_tool_operation \<Rightarrow> bool" where
  "permitted p (ToolContext _) = perm_read p"
| "permitted p (ToolSearch _ _) = perm_read p"
| "permitted p (ToolList _) = perm_read p"
| "permitted p (ToolGet _) = perm_read p"
| "permitted p (ToolCreate _ _ _ _ _ _) = perm_create p"
| "permitted p (ToolUpdate _ _ _ _ _) = perm_create p"
| "permitted p (ToolMove _ _ _) = perm_move_cards p"
| "permitted p (ToolComment _ _) = perm_comment p"
| "permitted p (ToolClaim _) = perm_claim p"
| "permitted p (ToolRelease _) = perm_claim p"
| "permitted p (ToolLink _) = perm_read p"
| "permitted p ToolRoster = perm_read p"
| "permitted p (ToolAssign _ _) = perm_assign p"
| "permitted p (ToolHandoff _ _ _ _) = (perm_assign p \<and> perm_create p)"

definition budgeted :: "agent_context \<Rightarrow> ('d, 's, 'a) board_method \<Rightarrow> ('d, 's, 'a) board_method" where
  "budgeted ctx m = try_then (check_turn_budget (ctx_turn_key ctx)) (\<lambda>_. m)"

definition run_tool ::
  "('d, 's) board_host \<Rightarrow> similarity \<Rightarrow> agent_context \<Rightarrow> board \<Rightarrow> board_tool_operation \<Rightarrow>
   ('d, 's, board_tool_result) board_method" where
  "run_tool h sim ctx b op =
     (let proposal_mode = (settings_agent_mode (board_settings b) = ProposalMode) in
      case op of
        ToolContext query \<Rightarrow> answer (Inr (tool_context sim ctx b query))
      | ToolSearch query include_closed \<Rightarrow> answer (Inr (tool_search sim ctx b query include_closed))
      | ToolList s \<Rightarrow> answer (Inr (tool_list ctx b s))
      | ToolGet no \<Rightarrow> answer (tool_get ctx b no)
      | ToolRoster \<Rightarrow> answer (Inr (tool_roster ctx))
      | ToolCreate title description priority labels status confirm_new \<Rightarrow>
          budgeted ctx (tool_create h sim ctx b proposal_mode title description priority labels status confirm_new)
      | ToolUpdate no title description priority labels \<Rightarrow>
          budgeted ctx (tool_update h ctx b proposal_mode no (empty_patch\<lparr>patch_title := title,
            patch_description := description, patch_priority := priority, patch_labels := labels\<rparr>))
      | ToolMove no to' reason \<Rightarrow> budgeted ctx (tool_move h ctx b proposal_mode no to' reason)
      | ToolComment no body \<Rightarrow> budgeted ctx (tool_comment_op h ctx b proposal_mode no body)
      | ToolClaim no \<Rightarrow> budgeted ctx (tool_claim h ctx b proposal_mode no)
      | ToolRelease no \<Rightarrow> budgeted ctx (tool_release h ctx b no)
      | ToolLink no \<Rightarrow>
          (case ctx_session ctx of
             None \<Rightarrow> answer (Inl (BoardInvalid ''Only an agent in a chat can link a card to it.''))
           | Some session \<Rightarrow> budgeted ctx (tool_link h ctx b session no))
      | ToolAssign no handle \<Rightarrow> budgeted ctx (tool_assign h ctx b proposal_mode no handle)
      | ToolHandoff handle title description priority \<Rightarrow>
          budgeted ctx (tool_handoff h ctx proposal_mode handle title description priority))"

definition agent_operation ::
  "('d, 's) board_host \<Rightarrow> similarity \<Rightarrow> agent_context \<Rightarrow> board_tool_operation \<Rightarrow> ('d, 's, board_tool_result) board_method" where
  "agent_operation h sim ctx op =
     (if \<not> is_agent (ctx_actor ctx) then answer (Inl FORBIDDEN)
      else
        try_then (get_board h (ctx_workspace_id ctx)) (\<lambda>b.
        try_then (answer (require_enabled b)) (\<lambda>_.
        try_then (answer (need (permitted (ctx_permissions ctx) op))) (\<lambda>_. run_tool h sim ctx b op))))"

definition apply_agent_operation ::
  "('d, 's) board_host \<Rightarrow> similarity \<Rightarrow> agent_context \<Rightarrow> board_tool_operation \<Rightarrow> ('d, 's) board_state \<Rightarrow>
   board_tool_result \<times> ('d, 's) board_state" where
  "apply_agent_operation h sim ctx op s =
     (case agent_operation h sim ctx op s of (Inl e, s) \<Rightarrow> (tool_error e, s) | (Inr r, s) \<Rightarrow> (r, s))"

section \<open>Refused operations change nothing\<close>

definition same_boards :: "('d, 's) board_state \<Rightarrow> ('d, 's) board_state \<Rightarrow> bool" where
  "same_boards s s' \<longleftrightarrow>
     bs_disk s' = bs_disk s \<and> bs_starter s' = bs_starter s \<and> bs_uuids s' = bs_uuids s \<and>
     bs_events s' = bs_events s \<and> bs_turn_writes s' = bs_turn_writes s \<and>
     (\<forall>v b. bm_get (bs_boards s) v = Some b \<longrightarrow> bm_get (bs_boards s') v = Some b)"

lemma get_board_same: "same_boards s (snd (get_board h w s))"
  by (auto simp: get_board_def read_now_def current_def same_boards_def Let_def bm_get_insert
      split: sum.splits option.splits)

fun writes :: "board_tool_operation \<Rightarrow> bool" where
  "writes (ToolContext _) = False"
| "writes (ToolSearch _ _) = False"
| "writes (ToolList _) = False"
| "writes (ToolGet _) = False"
| "writes ToolRoster = False"
| "writes _ = True"

definition turn_writes :: "string \<Rightarrow> ('d, 's) board_state \<Rightarrow> 32 word" where
  "turn_writes key s = (case bm_get (bs_turn_writes s) key of None \<Rightarrow> 0 | Some k \<Rightarrow> k)"

lemma budgeted_refused:
  "MAX_AGENT_WRITES_PER_TURN \<le> turn_writes (ctx_turn_key ctx) s \<Longrightarrow> budgeted ctx m s = (Inl RateLimited, s)"
  by (simp add: budgeted_def try_then_def check_turn_budget_def turn_writes_def)

lemma run_tool_over_budget:
  assumes "writes op" "MAX_AGENT_WRITES_PER_TURN \<le> turn_writes (ctx_turn_key ctx) s"
  shows "\<exists>e. run_tool h sim ctx b op s = (Inl e, s)"
  using assms
  by (cases op) (auto simp: run_tool_def Let_def answer_def budgeted_refused split: option.splits)

lemma agent_operation_refused:
  assumes "\<not> is_agent (ctx_actor ctx) \<or> \<not> permitted (ctx_permissions ctx) op \<or>
      (writes op \<and> MAX_AGENT_WRITES_PER_TURN \<le> turn_writes (ctx_turn_key ctx) s)"
  shows "\<exists>e s'. agent_operation h sim ctx op s = (Inl e, s') \<and> same_boards s s'"
proof (cases "is_agent (ctx_actor ctx)")
  case True
  obtain r s1 where g: "get_board h (ctx_workspace_id ctx) s = (r, s1)" by fastforce
  have same: "same_boards s s1" using get_board_same[of s h "ctx_workspace_id ctx"] g by simp
  then have "turn_writes (ctx_turn_key ctx) s1 = turn_writes (ctx_turn_key ctx) s"
    by (simp add: same_boards_def turn_writes_def)
  then have "\<exists>e. run_tool h sim ctx b op s1 = (Inl e, s1)" if "permitted (ctx_permissions ctx) op" for b
    using assms True that by (intro run_tool_over_budget) auto
  then have "\<exists>e. permitted (ctx_permissions ctx) op \<longrightarrow> run_tool h sim ctx (projr r) op s1 = (Inl e, s1)" by blast
  then obtain e where "permitted (ctx_permissions ctx) op \<longrightarrow> run_tool h sim ctx (projr r) op s1 = (Inl e, s1)" ..
  with True g same show ?thesis
    by (cases r) (auto simp: agent_operation_def try_then_def answer_def need_def split: sum.splits)
qed (auto simp: agent_operation_def answer_def same_boards_def)

section \<open>In proposal mode agents only propose\<close>

definition only_proposes :: "board_actor \<Rightarrow> string \<Rightarrow> board \<Rightarrow> ('d, 's) board_state \<Rightarrow> ('d, 's) board_state \<Rightarrow> bool" where
  "only_proposes actor w b s s' \<longleftrightarrow>
     bs_starter s' = bs_starter s \<and>
     (\<exists>b' ps. bm_get (bs_boards s') w = Some b' \<and> board_cards b' = board_cards b \<and>
        board_pending_starts b' = board_pending_starts b \<and> board_queued_starts b' = board_queued_starts b \<and>
        board_settings b' = board_settings b \<and> board_enabled b' = board_enabled b \<and>
        board_proposals b' = board_proposals b @ ps \<and>
        (\<forall>p\<in>set ps. proposal_status p = ProposalPending \<and> proposal_actor p = actor) \<and> length ps \<le> 1)"

fun proposable :: "board_tool_operation \<Rightarrow> bool" where
  "proposable (ToolClaim _) = False"
| "proposable (ToolRelease _) = False"
| "proposable (ToolLink _) = False"
| "proposable _ = True"

lemma only_proposes_start: "bm_get (bs_boards s) w = Some b \<Longrightarrow> bs_boards s' = bs_boards s \<Longrightarrow> bs_starter s' = bs_starter s \<Longrightarrow>
  only_proposes actor w b s s'"
  by (auto simp: only_proposes_def)

lemma get_board_cached:
  "bm_get (bs_boards s) w = Some b \<Longrightarrow> bs_boards (snd (get_board h w s)) = bs_boards s \<and>
   bs_starter (snd (get_board h w s)) = bs_starter s \<and> fst (get_board h w s) \<in> {Inr b} \<union> range Inl"
  by (auto simp: get_board_def read_now_def current_def Let_def split: sum.splits)

lemma only_proposes_agent_write:
  "only_proposes actor (ctx_workspace_id ctx) b s s1 \<Longrightarrow>
   only_proposes actor (ctx_workspace_id ctx) b s (snd (agent_write h op ctx i state s1))"
proof -
  assume o: "only_proposes actor (ctx_workspace_id ctx) b s s1"
  then obtain b' where "bm_get (bs_boards s1) (ctx_workspace_id ctx) = Some b'" by (auto simp: only_proposes_def)
  from get_board_cached[OF this, of h] have "bs_boards (snd (agent_write h op ctx i state s1)) = bs_boards s1"
    "bs_starter (snd (agent_write h op ctx i state s1)) = bs_starter s1"
    by (auto simp: agent_write_def try_then_def answer_def split: prod.splits sum.splits)
  with o show ?thesis by (simp add: only_proposes_def)
qed

lemma only_proposes_note [simp]:
  "only_proposes actor w b s (note_turn_write key s1) = only_proposes actor w b s s1"
  by (simp add: only_proposes_def note_turn_write_def Let_def)

lemma only_proposes_transact:
  assumes "bm_get (bs_boards s) w = Some b"
  shows "only_proposes actor w b s (snd (transact h w (propose_in env actor i op) s))"
proof -
  have change: "case propose_in env actor i op now (b, n) of Inl _ \<Rightarrow> True
      | Inr (x, b', m) \<Rightarrow> \<exists>p. proposal_status p = ProposalPending \<and> proposal_actor p = actor \<and>
          b' = b\<lparr>board_proposals := board_proposals b @ [p]\<rparr>" for now n
    by (auto simp: propose_in_def intro!: exI[of _ "\<lparr>proposal_id = uuid env n, proposal_card_id = i,
        proposal_operation = op, proposal_actor = actor, proposal_created_at = now_text now,
        proposal_status = ProposalPending\<rparr>"])
  let ?now = "at_time (host_env h) (host_clock h (bs_readings s))"
  show ?thesis
    using assms change[of ?now "bs_uuids s"]
    by (auto simp: transact_def read_now_def try_then_def current_def commit_def Let_def only_proposes_def bm_get_insert
        split: sum.splits prod.splits)
qed

lemma only_proposes_propose_or:
  assumes "bm_get (bs_boards s) (ctx_workspace_id ctx) = Some b" "proposal_mode"
  shows "only_proposes (ctx_actor ctx) (ctx_workspace_id ctx) b s (snd (propose_or h ctx proposal_mode i op m s))"
  using only_proposes_transact[OF assms(1), of "ctx_actor ctx" h "host_env h" "Some i" op] assms(2)
  by (auto simp: propose_or_def try_then_def answer_def split: prod.splits sum.splits)

lemma only_proposes_agent_create:
  assumes "bm_get (bs_boards s) (ctx_workspace_id ctx) = Some b"
  shows "only_proposes (ctx_actor ctx) (ctx_workspace_id ctx) b s (snd (agent_create h ctx draft st True s))"
  using only_proposes_transact[OF assms, of "ctx_actor ctx" h "host_env h" None "OpCreate draft (Some st)"]
  by (auto simp: agent_create_def try_then_def answer_def split: prod.splits sum.splits)

text \<open>The common shape: an error before the change, or the proposal, the count and the answer.\<close>

lemma only_proposes_try:
  assumes "only_proposes actor w b s (snd (m s))"
    "\<And>x s1. only_proposes actor w b s s1 \<Longrightarrow> only_proposes actor w b s (snd (k x s1))"
  shows "only_proposes actor w b s (snd (try_then m k s))"
  using assms by (auto simp: try_then_def split: prod.splits sum.splits)

lemma only_proposes_answer:
  assumes "bm_get (bs_boards s) w = Some b" "\<And>x. only_proposes actor w b s (snd (k x s))"
  shows "only_proposes actor w b s (snd (try_then (answer r) k s))"
  using assms by (auto simp: try_then_def answer_def intro: only_proposes_start split: sum.splits)

lemma run_tool_proposes:
  assumes b: "bm_get (bs_boards s) (ctx_workspace_id ctx) = Some b" and op: "proposable op"
    and mode: "settings_agent_mode (board_settings b) = ProposalMode \<or> (\<exists>no to' reason. op = ToolMove no to' reason \<and> is_closed to')"
  shows "only_proposes (ctx_actor ctx) (ctx_workspace_id ctx) b s (snd (run_tool h sim ctx b op s))"
proof -
  let ?o = "only_proposes (ctx_actor ctx) (ctx_workspace_id ctx) b s"
  have self: "?o s" using b by (simp add: only_proposes_start)
  have note_write: "?o s1 \<Longrightarrow> ?o (snd (note_and_write h name ctx i state s1))" for s1 name i state
    by (simp add: note_and_write_def only_proposes_agent_write)
  have budget: "?o (snd (budgeted ctx m s))" if "?o (snd (m s))" for m :: "('a, 'b, board_tool_result) board_method"
    using that self by (simp add: budgeted_def try_then_def check_turn_budget_def)
  note rules = only_proposes_answer[OF b] only_proposes_try only_proposes_propose_or[OF b] only_proposes_agent_create[OF b]
  show ?thesis
  proof (cases op)
    case (ToolCreate title description priority labels status confirm_new)
    have "?o (snd (tool_create h sim ctx b True title description priority labels status confirm_new s))"
      unfolding tool_create_def Let_def
      by (intro rules) (auto simp: answer_def self intro!: only_proposes_try only_proposes_agent_create[OF b])
    with ToolCreate mode show ?thesis by (simp add: run_tool_def Let_def budget)
  next
    case (ToolUpdate no title description priority labels)
    have "?o (snd (tool_update h ctx b True no patch s))" for patch
      unfolding tool_update_def
      by (intro rules) (auto simp: answer_def self intro!: only_proposes_try only_proposes_propose_or[OF b] note_write)
    with ToolUpdate mode show ?thesis by (simp add: run_tool_def Let_def budget)
  next
    case (ToolMove no to' reason)
    have "?o (snd (tool_move h ctx b (settings_agent_mode (board_settings b) = ProposalMode) no to' reason s))"
      unfolding tool_move_def
      using mode ToolMove by (intro rules) (auto intro!: only_proposes_propose_or[OF b] note_write)
    with ToolMove show ?thesis by (simp add: run_tool_def Let_def budget)
  next
    case (ToolComment no body)
    have "?o (snd (tool_comment_op h ctx b True no body s))"
      unfolding tool_comment_op_def by (intro rules) (auto intro!: note_write)
    with ToolComment mode show ?thesis by (simp add: run_tool_def Let_def budget)
  next
    case (ToolAssign no handle)
    have "?o (snd (tool_assign h ctx b True no handle s))"
      unfolding tool_assign_def by (intro rules) (auto intro!: note_write)
    with ToolAssign mode show ?thesis by (simp add: run_tool_def Let_def budget)
  next
    case (ToolHandoff handle title description priority)
    have "?o (snd (tool_handoff h ctx True handle title description priority s))"
      unfolding tool_handoff_def Let_def
      by (intro rules) (auto intro!: only_proposes_try only_proposes_agent_create[OF b])
    with ToolHandoff mode show ?thesis by (simp add: run_tool_def Let_def budget)
  qed (use op self in \<open>auto simp: run_tool_def Let_def answer_def\<close>)
qed

lemma agent_operation_proposes:
  assumes b: "bm_get (bs_boards s) (ctx_workspace_id ctx) = Some b" and op: "proposable op"
    and mode: "settings_agent_mode (board_settings b) = ProposalMode \<or> (\<exists>no to' reason. op = ToolMove no to' reason \<and> is_closed to')"
  shows "only_proposes (ctx_actor ctx) (ctx_workspace_id ctx) b s (snd (apply_agent_operation h sim ctx op s))"
proof -
  let ?o = "only_proposes (ctx_actor ctx) (ctx_workspace_id ctx) b s"
  obtain r s1 where g: "get_board h (ctx_workspace_id ctx) s = (r, s1)" by fastforce
  have s1: "bs_boards s1 = bs_boards s" "bs_starter s1 = bs_starter s" "\<And>x. r = Inr x \<Longrightarrow> x = b"
    using get_board_cached[OF b, of h] g by auto
  have "only_proposes (ctx_actor ctx) (ctx_workspace_id ctx) b s1 (snd (run_tool h sim ctx b op s1))"
    using s1 b by (intro run_tool_proposes op mode) simp
  then have "?o (snd (run_tool h sim ctx b op s1))" using s1 by (simp add: only_proposes_def)
  moreover have "?o s1" "?o s" using s1 b by (auto intro: only_proposes_start)
  ultimately have "?o (snd (agent_operation h sim ctx op s))"
    using g s1(3) by (cases r) (auto simp: agent_operation_def try_then_def answer_def split: sum.splits)
  then show ?thesis by (auto simp: apply_agent_operation_def split: prod.splits sum.splits)
qed

end
