(* ===== verification/Board_Properties.thy ===== *)
theory Board_Properties
  imports Board_Behaviour Board_Agent
begin

text \<open>
  The properties of the project board, over the facts of the theories \<open>Board_Steps\<close>,
  \<open>Board_Transactions\<close>, \<open>Board_Behaviour\<close> and \<open>Board_Agent\<close>, each with a witness on a small board.
\<close>

section \<open>A small board\<close>

definition sample_board_env :: board_env where
  "sample_board_env =
     \<lparr>uuid = (\<lambda>n. replicate n CHR ''u''), rfc3339 = (\<lambda>_. ''t''), parse_rfc3339 = (\<lambda>_. None), to_lowercase = (\<lambda>s. s)\<rparr>"

definition sample_now :: board_now where
  "sample_now = at_time sample_board_env 0"

definition sample_draft :: card_draft where
  "sample_draft =
     \<lparr>draft_title = ''Fix'', draft_description = None, draft_priority = None, draft_labels = None,
      draft_blocked_by = None, draft_parent_id = None\<rparr>"

definition sample_enabled :: board where
  "sample_enabled = (board_empty ''w'' ''t'')\<lparr>board_enabled := True\<rparr>"

definition sample_card :: board_card where
  "sample_card =
     \<lparr>card_id = [], card_number = 1, card_title = ''Fix'', card_description = [], card_priority = Normal,
      card_labels = [], card_blocked_by = [], card_parent_id = None, card_status = Todo, card_order = 0,
      card_assignee = None, card_claim = None, card_links = [], card_comments = [],
      card_activity = [\<lparr>activity_id = ''u'', activity_actor = Person, activity_at = ''t'',
        activity_change = Created, activity_undoable = False\<rparr>],
      card_revision = 0, card_created_by = Person, card_created_at = ''t'', card_updated_at = ''t'',
      card_closed_at = None\<rparr>"

definition sample_board :: board where
  "sample_board = sample_enabled\<lparr>board_cards := [sample_card], board_next_number := 2\<rparr>"

lemma sample_ids: "inj (uuid sample_board_env)"
  by (simp add: sample_board_env_def inj_def replicate_eq_replicate)

lemma sample_created:
  "create_in sample_board_env Person sample_draft None None sample_now (sample_enabled, 0) = Inr ([], sample_board, 2)"
  by code_simp

lemma sample_enabled_step:
  "set_enabled_in True (board_empty ''w'' ''t'', 0) = Inr ((), sample_enabled, 0)"
  by code_simp

lemma sample_reachable: "board_reachable sample_board_env ''w'' (stamp 2 ''t'' sample_board, 2)"
proof -
  have "board_reachable sample_board_env ''w'' (stamp 1 ''t'' sample_enabled, 0)"
    by (rule board_reachable.committed[OF board_reachable.fresh board_step.enabled[OF sample_enabled_step, where now = sample_now]])
  moreover have "create_in sample_board_env Person sample_draft None None sample_now (stamp 1 ''t'' sample_enabled, 0) =
      Inr ([], stamp 1 ''t'' sample_board, 2)"
    by code_simp
  ultimately have "board_reachable sample_board_env ''w'' (stamp 2 ''t'' (stamp 1 ''t'' sample_board), 2)"
    by (rule board_reachable.committed[OF _ board_step.created])
  then show ?thesis by (simp add: stamp_def)
qed

definition sample_begun :: "board_error + ((card_status \<times> string \<times> 64 word) \<times> staged)" where
  "sample_begun = begin_run_in sample_board_env ''run'' [] ''tm'' Person sample_now (stamp 2 ''t'' sample_board, 2)"

definition sample_running :: board where
  "sample_running = (case sample_begun of Inr (_, b, _) \<Rightarrow> b | Inl _ \<Rightarrow> sample_board)"

definition sample_held :: board_card where
  "sample_held = (case find_card sample_running [] of Some c \<Rightarrow> c | None \<Rightarrow> sample_card)"

lemma sample_begun_result: "sample_begun = Inr (fst (projr sample_begun), sample_running, 4)"
  by code_simp

lemma sample_running_reachable: "board_reachable sample_board_env ''w'' (stamp 3 ''t'' sample_running, 4)"
  by (rule board_reachable.committed[OF sample_reachable board_step.run_begun])
    (rule sample_begun_result[unfolded sample_begun_def])

section \<open>The invariant of a board\<close>

text \<open>C22. Every board that the changes of the host and of agents can reach is well-formed: card
  identifiers and numbers are unique and below the next number, there are at most 2000 cards, every card
  is within its limits, is closed exactly when it has a closing time, and is then held by nobody, blockers
  and parents are cards of the board, no card is its own ancestor, a card waits in the queue once, and
  every waiting start belongs to a card of the board.\<close>

theorem board_always_ok:
  assumes "inj (uuid env)" "board_reachable env w st"
  shows "board_ok env st"
  by (rule reachable_board_ok[OF assms(2,1)])

theorem board_always_ok_witness:
  "inj (uuid sample_board_env) \<and> board_ok sample_board_env (stamp 2 ''t'' sample_board, 2)"
  using board_always_ok[OF sample_ids sample_reachable] sample_ids by simp



section \<open>Transactions\<close>

text \<open>C27. A transaction over the file store refines one atomic change of the board that the service shows:
  either it answers what the change answers, shows the new revision and has it on disk, or the write
  failed, the board shown is the old one and the disk holds the old or the new board, never a part of it.
  The boards of other projects stay as they are.\<close>

theorem transact_atomic:
  assumes "host_load h = load_board codec" "host_save h = save_board codec" "codec_ok codec" "\<not> host_safe_mode h"
    and "workspace_directory_name w = Inr d" "boards_own s" "keeps_workspace change"
    and "board_view h s w (next_now h s) = Inr b"
    and "spec_transact (change (next_now h s)) (now_text (next_now h s)) (b, bs_uuids s) = (r0, b0)"
    and "transact h w change s = (r, s')"
  shows "(r = r0 \<and> bm_get (bs_boards s') w = Some b0 \<and>
           (b0 \<noteq> b \<longrightarrow> is_ok (load_board codec (bs_disk s) w) \<longrightarrow> load_board codec (bs_disk s') w = Inr (Some b0)) \<or>
          is_ok r0 \<and> \<not> is_ok r \<and> bm_get (bs_boards s') w = Some b \<and>
           load_board codec (bs_disk s') w \<in> {load_board codec (bs_disk s) w, Inr (Some b0)}) \<and>
         (\<forall>v. v \<noteq> w \<longrightarrow> bm_get (bs_boards s') v = bm_get (bs_boards s) v \<and>
           load_board codec (bs_disk s') v = load_board codec (bs_disk s) v)"
  using file_service.transact_refines[OF assms(1,2,4,3,5-10)] file_service.transact_others[OF assms(1,2,4-8,10)] by blast

definition sample_document :: board_document where
  "sample_document = \<lparr>doc_version = 1, doc_generation = 1, doc_board = stamp 1 ''t'' sample_enabled\<rparr>"

definition sample_document_codec :: document_codec where
  "sample_document_codec =
     \<lparr>encode_document = (\<lambda>d. if d = sample_document then Some ''x'' else None),
      decode_document = (\<lambda>s. if s = ''x'' then Some sample_document else None)\<rparr>"

definition sample_host :: "(disk, unit) board_host" where
  "sample_host =
     \<lparr>host_env = sample_board_env, host_clock = (\<lambda>_. 0), host_safe_mode = False, host_load = load_board sample_document_codec,
      host_save = save_board sample_document_codec, host_available = (\<lambda>_. False), host_has_capacity = (\<lambda>_ _ _ _. False),
      host_start = (\<lambda>_ s. (Inl RUNS_UNAVAILABLE, s))\<rparr>"

definition sample_state :: "(disk, unit) board_state" where
  "sample_state =
     \<lparr>bs_boards = [], bs_turn_writes = [],
      bs_disk = \<lparr>disk_dirs = [], disk_faults = [], disk_removable = (\<lambda>_. True)\<rparr>, bs_starter = (), bs_uuids = 0,
      bs_readings = 0, bs_events = []\<rparr>"

theorem transact_atomic_witness:
  "load_board sample_document_codec (bs_disk (snd (transact sample_host ''w'' (\<lambda>_. set_enabled_in True) sample_state))) ''w'' =
     Inr (Some (stamp 1 ''t'' sample_enabled)) \<and>
   bm_get (bs_boards (snd (transact sample_host ''w'' (\<lambda>_. set_enabled_in True) sample_state))) ''v'' = None"
proof -
  let ?r = "transact sample_host ''w'' (\<lambda>_. set_enabled_in True) sample_state"
  have codec: "codec_ok sample_document_codec" by (auto simp: codec_ok_def sample_document_codec_def split: if_splits)
  have own: "boards_own sample_state" "keeps_workspace (\<lambda>_. set_enabled_in True)"
    by (auto simp: boards_own_def sample_state_def keeps_workspace_def set_enabled_in_def)
  have host: "host_load sample_host = load_board sample_document_codec" "host_save sample_host = save_board sample_document_codec"
    "\<not> host_safe_mode sample_host"
    by (simp_all add: sample_host_def)
  have name: "workspace_directory_name ''w'' = Inr ''w''" by code_simp
  have view: "board_view sample_host sample_state ''w'' (next_now sample_host sample_state) = Inr (board_empty ''w'' ''t'')"
    by code_simp
  have spec: "spec_transact (set_enabled_in True) (now_text (next_now sample_host sample_state))
      (board_empty ''w'' ''t'', bs_uuids sample_state) = (Inr ((), 1), stamp 1 ''t'' sample_enabled)"
    by code_simp
  have facts: "is_ok (fst ?r)" "is_ok (load_board sample_document_codec (bs_disk sample_state) ''w'')"
    "stamp 1 ''t'' sample_enabled \<noteq> board_empty ''w'' ''t''" "bm_get (bs_boards sample_state) ''v'' = None"
    by code_simp+
  show ?thesis
    using transact_atomic[OF host(1,2) codec host(3) name own view spec, of "fst ?r" "snd ?r"] facts by auto
qed

section \<open>Runs of a card\<close>

text \<open>A start that the run engine refuses leaves the card as it was: after the board generation that
  took the card and its rollback, the status, the links and the assignee are those from before, nobody
  holds the card, and one comment of the host says why. The rollback succeeds when the card has room for
  the comment and its text is a valid comment.\<close>

theorem failed_start_restored:
  assumes "begin_run_in env rid i t actor now (b, n) = Inr ((previous, task, no), b1, n1)"
    and "find_card b i = Some c" "\<forall>l\<in>set (card_links c). \<not> run_link_of rid l"
    and "length (card_comments c) < MAX_COMMENTS_PER_CARD"
    and "validate_comment_body (''Could not start @'' @ handle @ '': '' @ error_message e) = Inr ()"
  shows "\<exists>b2 n2 d k. rollback_run_in env rid i previous handle e now' (b1, n1) = Inr ((), b2, n2) \<and>
           find_card b2 i = Some d \<and> card_status d = card_status c \<and> card_claim d = None \<and>
           card_links d = card_links c \<and> card_assignee d = card_assignee c \<and>
           card_comments d = card_comments c @ [k] \<and> comment_actor k = HostActor"
proof -
  from assms(1,2) obtain d m where "find_card b1 i = Some (claim_for_run env rid t actor now m d)"
    "card_comments d = card_comments c"
    by (rule begin_run_in_card)
  with assms(4,5) obtain b2 n2 where r: "rollback_run_in env rid i previous handle e now' (b1, n1) = Inr ((), b2, n2)"
    using rollback_succeeds by fastforce
  with failed_start_rolled_back[OF assms(1) r assms(2,3)] show ?thesis by blast
qed

theorem failed_start_restored_witness:
  "\<exists>b2 n2 d k. rollback_run_in sample_board_env ''run'' [] Todo ''dev'' RUNS_UNAVAILABLE sample_now (sample_running, 4) =
       Inr ((), b2, n2) \<and>
     find_card b2 [] = Some d \<and> card_status d = Todo \<and> card_claim d = None \<and> card_links d = [] \<and>
     card_assignee d = None \<and> card_comments d = [k] \<and> comment_actor k = HostActor"
proof -
  have begun: "begin_run_in sample_board_env ''run'' [] ''tm'' Person sample_now (stamp 2 ''t'' sample_board, 2) =
      Inr ((Todo, fst (snd (fst (projr sample_begun))), 1), sample_running, 4)"
    by code_simp
  have c: "find_card (stamp 2 ''t'' sample_board) [] = Some sample_card" by code_simp
  have valid: "validate_comment_body (''Could not start @'' @ ''dev'' @ '': '' @ error_message RUNS_UNAVAILABLE) = Inr ()"
    by code_simp
  from failed_start_restored[OF begun c _ _ valid, of sample_now] show ?thesis
    by (simp add: sample_card_def MAX_COMMENTS_PER_CARD_def)
qed


definition sample_full_card :: board_card where
  "sample_full_card =
     sample_held\<lparr>card_comments := replicate 500 \<lparr>comment_id = [], comment_actor = Person, comment_body = ''x'',
       comment_mentions = [], comment_created_at = ''t'', comment_run_id = None\<rparr>\<rparr>"

definition sample_full_board :: board where
  "sample_full_board = sample_running\<lparr>board_cards := [sample_full_card]\<rparr>"


text \<open>The end of a run is recorded on its card once: when it was not recorded before, recording it
  reports a change, and recording it again, at any time and with any outcome, changes nothing.\<close>

theorem run_end_recorded_once:
  assumes "find_card b i = Some c" "\<not> run_end_recorded c rid"
    and "finish_run_in env i rid handle e now (b, n) = Inr (x, b', n')"
  shows "x \<and> finish_run_in env i rid handle' e' now' (b', m) = Inr (False, b', m)"
  using finish_run_in_settled[OF assms] finish_run_in_again by blast

theorem run_end_recorded_once_witness:
  "finish_run_in sample_board_env [] ''run'' None EndCancelled sample_now
     (case finish_run_in sample_board_env [] ''run'' None (EndFailed ''no'') sample_now (sample_running, 4) of
        Inr (_, st) \<Rightarrow> st | Inl _ \<Rightarrow> (sample_running, 0)) =
   Inr (False, (case finish_run_in sample_board_env [] ''run'' None (EndFailed ''no'') sample_now (sample_running, 4) of
        Inr (_, st) \<Rightarrow> st | Inl _ \<Rightarrow> (sample_running, 0)))"
proof -
  let ?f = "finish_run_in sample_board_env [] ''run'' None (EndFailed ''no'') sample_now (sample_running, 4)"
  have "find_card sample_running [] = Some sample_held" "\<not> run_end_recorded sample_held ''run''" "is_ok ?f" by code_simp+
  then show ?thesis
    using run_end_recorded_once[of sample_running "[]" sample_held "''run''"] by (auto simp: is_ok_iff)
qed

section \<open>Closing a card\<close>


definition sample_blocked :: board_card where
  "sample_blocked = sample_card\<lparr>card_id := ''u'', card_number := 2, card_status := CardBlocked, card_blocked_by := [[]]\<rparr>"

definition sample_two :: board where
  "sample_two = sample_board\<lparr>board_cards := [sample_card, sample_blocked], board_next_number := 3\<rparr>"


section \<open>Agents\<close>

text \<open>In proposal mode the tool of an agent changes no card: creating, editing, moving, commenting,
  assigning and handing off add at most one pending proposal of that agent, start no run, and leave the
  cards, the waiting starts and the settings. In every mode the same holds for a move that would close a
  card.\<close>

theorem agent_only_proposes:
  assumes "bm_get (bs_boards s) (ctx_workspace_id ctx) = Some b" "proposable op"
    and "settings_agent_mode (board_settings b) = ProposalMode \<or> (\<exists>no to' reason. op = ToolMove no to' reason \<and> is_closed to')"
  shows "only_proposes (ctx_actor ctx) (ctx_workspace_id ctx) b s (snd (apply_agent_operation h sim ctx op s))"
  by (rule agent_operation_proposes[OF assms])

definition sample_context :: agent_context where
  "sample_context =
     \<lparr>ctx_workspace_id = ''w'', ctx_actor = ChatAgent ''s'' ''pi'',
      ctx_permissions = settings_chat_agent_permissions default_settings, ctx_session = None, ctx_turn_key = ''turn'',
      ctx_causing_depth = 0, ctx_teammates = []\<rparr>"

definition sample_similarity :: similarity where
  "sample_similarity = \<lparr>similar_cards = (\<lambda>_ _ _ _. []), search_cards = (\<lambda>_ _ _ _. [])\<rparr>"

theorem agent_only_proposes_witness:
  "only_proposes (ChatAgent ''s'' ''pi'') ''w'' sample_board (sample_state\<lparr>bs_boards := [(''w'', sample_board)]\<rparr>)
     (snd (apply_agent_operation sample_host sample_similarity sample_context (ToolMove 1 CardDone None)
       (sample_state\<lparr>bs_boards := [(''w'', sample_board)]\<rparr>)))"
  using agent_only_proposes[of "sample_state\<lparr>bs_boards := [(''w'', sample_board)]\<rparr>" sample_context sample_board
      "ToolMove 1 CardDone None" sample_host sample_similarity]
  by (simp add: sample_context_def)

text \<open>C23. A call without the permission of its operation, by an actor that is no agent, or a change beyond
  the eight writes of a turn is refused with an error, and changes no board, no file, no run and no
  budget.\<close>

theorem agent_refused:
  assumes "\<not> is_agent (ctx_actor ctx) \<or> \<not> permitted (ctx_permissions ctx) op \<or>
      (writes op \<and> MAX_AGENT_WRITES_PER_TURN \<le> turn_writes (ctx_turn_key ctx) s)"
  shows "(\<exists>e. fst (apply_agent_operation h sim ctx op s) = tool_error e) \<and>
         same_boards s (snd (apply_agent_operation h sim ctx op s))"
  using agent_operation_refused[OF assms, of h sim] by (auto simp: apply_agent_operation_def)

theorem agent_refused_witness:
  "same_boards sample_state (snd (apply_agent_operation sample_host sample_similarity sample_context (ToolClaim 1) sample_state))"
  using agent_refused[of sample_context "ToolClaim 1" sample_state sample_host sample_similarity]
  by (simp add: sample_context_def default_settings_def)

end
