(* ===== verification/Journal.thy ===== *)
theory Journal
  imports Run_Data Coordinator Board_Store
begin

text \<open>
  The durable journal of user-authored orchestration data
  (\<^verbatim>\<open>src/apps/desktop/src-tauri/src/orchestration_store.rs\<close>): one document with the definitions, schedules,
  teammates and runs of every project. Each change is applied to a staged copy, written as a new
  create-only generation, and only then becomes current; older generations are removed.

  The directory and its faults are those of \<open>Board_Store\<close>. The document format and the derived format
  of a run (\<^verbatim>\<open>serde_json\<close>) are the fields of \<open>journal_codec\<close>, and \<open>journal_codec_ok\<close> states what the
  journal relies on. Writers hold one lock, so the model runs them one after the other; a poisoned
  lock is not modelled.
\<close>

section \<open>Teammates\<close>

datatype teammate_kind = SimpleTeammate string | PipelineTeammate

datatype teammate_card_input = CardInputAuto | CardInputNamed string

record teammate_wake =
  wake_on_assign :: teammate_start_rule
  wake_on_mention :: bool

record teammate =
  mate_id :: string
  mate_handle :: string
  mate_name :: string
  mate_color :: string
  mate_avatar :: string
  mate_role :: string
  mate_kind :: teammate_kind
  mate_launch_command_id :: string
  mate_card_input :: teammate_card_input
  mate_board :: board_permissions
  mate_max_concurrent_runs :: "8 word"
  mate_wake :: teammate_wake
  mate_enabled :: bool
  mate_revision :: revision
  mate_created_at :: string
  mate_updated_at :: string

section \<open>Documents\<close>

definition STORE_VERSION :: "32 word" where "STORE_VERSION = 2"
definition MIN_STORE_VERSION :: "32 word" where "MIN_STORE_VERSION = 1"

record 'v stored_definition =
  sd_revision :: "64 word"
  sd_value :: 'v

record workspace_orchestration =
  ws_id :: string
  ws_profiles :: "agent_profile stored_definition list"
  ws_teams :: "team_definition stored_definition list"
  ws_pipelines :: "pipeline_definition stored_definition list"
  ws_commands :: "launch_command_reference stored_definition list"
  ws_schedules :: "stored_schedule list"
  ws_teammates :: "teammate list"
  ws_runs :: "run list"
  ws_archived_run_ids :: "string list"

definition workspace_empty :: "string \<Rightarrow> workspace_orchestration" where
  "workspace_empty w =
     \<lparr>ws_id = w, ws_profiles = [], ws_teams = [], ws_pipelines = [], ws_commands = [], ws_schedules = [],
      ws_teammates = [], ws_runs = [], ws_archived_run_ids = []\<rparr>"

record store_document =
  store_version :: "32 word"
  store_generation :: "64 word"
  store_workspaces :: "workspace_orchestration list"
  store_paused :: bool

definition store_default :: store_document where
  "store_default =
     \<lparr>store_version = STORE_VERSION, store_generation = 0, store_workspaces = [], store_paused = False\<rparr>"

datatype store_error =
    StoreConflict | StoreAlreadyExists | StoreNotFound | StoreInvalid | StoreDenied
  | StoreRefused string | StoreIo

definition snapshot_workspace :: "store_document \<Rightarrow> string \<Rightarrow> workspace_orchestration option" where
  "snapshot_workspace d w = find (\<lambda>ws. ws_id ws = w) (store_workspaces d)"

section \<open>Files\<close>

definition journal_path :: "64 word \<Rightarrow> string" where
  "journal_path g = ''orchestration-'' @ padded 20 (unat g) @ ''.json''"

definition journal_from_path :: "string \<Rightarrow> 64 word option" where
  "journal_from_path name =
     Option.bind (Option.bind (strip_prefix ''orchestration-'' name) (strip_suffix ''.json''))
       (\<lambda>digits. if length digits = 20 then parse_u64 digits else None)"

record journal_codec =
  encode_store :: "store_document \<Rightarrow> string option"
  decode_store :: "string \<Rightarrow> store_document option"
  serialize_run :: "run \<Rightarrow> string option"
  decode_run :: "string \<Rightarrow> run option"

text \<open>What is documented of \<^verbatim>\<open>serde_json\<close> on derived types: writing then reading gives the same value, and
  a truncated object is no JSON text.\<close>

definition journal_codec_ok :: "journal_codec \<Rightarrow> bool" where
  "journal_codec_ok c \<longleftrightarrow>
     (\<forall>d s. encode_store c d = Some s \<longrightarrow>
        decode_store c s = Some d \<and> (\<forall>k < length s. decode_store c (take k s) = None)) \<and>
     (\<forall>r s. serialize_run c r = Some s \<longrightarrow> decode_run c s = Some r)"

section \<open>Opening\<close>

definition migrate_run :: "journal_codec \<Rightarrow> serde_json \<Rightarrow> run \<Rightarrow> run option" where
  "migrate_run c sj r =
     Option.bind (serialize_run c r) (\<lambda>bytes.
       case deserialize_run (decode_run c) sj bytes of Inl _ \<Rightarrow> None | Inr r \<Rightarrow> Some r)"

fun migrate_workspaces ::
  "journal_codec \<Rightarrow> serde_json \<Rightarrow> string list \<Rightarrow> workspace_orchestration list \<Rightarrow> workspace_orchestration list option" where
  "migrate_workspaces c sj seen [] = Some []"
| "migrate_workspaces c sj seen (w # ws) =
     (if is_blank_text (ws_id w) \<or> ws_id w \<in> set seen then None
      else Option.bind (those (map (migrate_run c sj) (ws_runs w))) (\<lambda>runs.
        map_option (\<lambda>ws. w\<lparr>ws_runs := runs\<rparr> # ws) (migrate_workspaces c sj (bs_insert (ws_id w) seen) ws)))"

definition migrate_document :: "journal_codec \<Rightarrow> serde_json \<Rightarrow> store_document \<Rightarrow> store_document option" where
  "migrate_document c sj d =
     map_option (\<lambda>ws. d\<lparr>store_workspaces := ws, store_version := STORE_VERSION\<rparr>)
       (migrate_workspaces c sj [] (store_workspaces d))"

definition read_generation ::
  "journal_codec \<Rightarrow> serde_json \<Rightarrow> 64 word \<Rightarrow> board_file \<Rightarrow> store_document option" where
  "read_generation c sj g f =
     (case f of
        Unreadable \<Rightarrow> None
      | FileBytes bytes \<Rightarrow>
        Option.bind (decode_store c bytes) (\<lambda>d.
          if MIN_STORE_VERSION \<le> store_version d \<and> store_version d \<le> STORE_VERSION \<and> store_generation d = g
          then migrate_document c sj d else None))"

text \<open>One directory entry: a file that is no generation is left alone, a generation that cannot be read
  is removed, and the newest one that can be read is kept.\<close>

fun open_step ::
  "journal_codec \<Rightarrow> serde_json \<Rightarrow> (string \<Rightarrow> bool) \<Rightarrow> string \<times> board_file \<Rightarrow>
   (64 word \<times> store_document) option \<times> (string \<times> board_file) list \<Rightarrow>
   (64 word \<times> store_document) option \<times> (string \<times> board_file) list" where
  "open_step c sj removable (name, f) (newest, files) =
     (case journal_from_path name of
        None \<Rightarrow> (newest, files @ [(name, f)])
      | Some g \<Rightarrow>
        (case read_generation c sj g f of
           None \<Rightarrow> (newest, if removable name then files else files @ [(name, f)])
         | Some d \<Rightarrow>
           (if is_none_or newest (\<lambda>(current, _). current < g) then Some (g, d) else newest, files @ [(name, f)])))"

record journal =
  journal_current :: store_document
  journal_dir :: directory
  journal_faults :: "write_fault list"
  journal_removable :: "string \<Rightarrow> bool"
  journal_commits :: "64 word"

definition newest_document ::
  "journal_codec \<Rightarrow> serde_json \<Rightarrow> (string \<Rightarrow> bool) \<Rightarrow> (string \<times> board_file) list \<Rightarrow>
   store_document \<times> (string \<times> board_file) list" where
  "newest_document c sj removable files =
     (case fold (open_step c sj removable) files (None, []) of
        (newest, files) \<Rightarrow> (case newest of None \<Rightarrow> store_default | Some (_, d) \<Rightarrow> d, files))"

definition open_store ::
  "journal_codec \<Rightarrow> serde_json \<Rightarrow> directory \<Rightarrow> write_fault list \<Rightarrow> (string \<Rightarrow> bool) \<Rightarrow> store_error + journal" where
  "open_store c sj dir faults removable =
     (if \<not> dir_listable dir then Inl StoreIo
      else
        (let (d, files) = newest_document c sj removable (dir_files dir) in
         Inr \<lparr>journal_current = d, journal_dir = dir\<lparr>dir_files := files\<rparr>, journal_faults = faults,
              journal_removable = removable, journal_commits = store_generation d\<rparr>))"

section \<open>Transactions\<close>

definition persist ::
  "journal_codec \<Rightarrow> write_fault \<Rightarrow> store_document \<Rightarrow> directory \<Rightarrow> (store_error + unit) \<times> directory" where
  "persist c fault d dir =
     (case encode_store c d of
        None \<Rightarrow> (Inl StoreIo, dir)
      | Some bytes \<Rightarrow>
        (let name = journal_path (store_generation d) in
         if fault = OpenFails \<or> fault = CreateDirFails \<or> name \<in> set (map fst (dir_files dir)) then (Inl StoreIo, dir)
         else
           (case fault of
              WriteFails written removed \<Rightarrow>
                (Inl StoreIo, if removed then dir else add_file name (take written bytes) dir)
            | _ \<Rightarrow> (Inr (), add_file name bytes dir))))"

definition remove_older_generations :: "(string \<Rightarrow> bool) \<Rightarrow> 64 word \<Rightarrow> directory \<Rightarrow> directory" where
  "remove_older_generations removable current dir =
     (if \<not> dir_listable dir then dir
      else dir\<lparr>dir_files := filter (\<lambda>(name, _).
             \<not> (is_some_and (journal_from_path name) (\<lambda>g. g < current) \<and> removable name)) (dir_files dir)\<rparr>)"

definition journal_fault :: "journal \<Rightarrow> write_fault" where
  "journal_fault j = (case journal_faults j of [] \<Rightarrow> NoFault | f # _ \<Rightarrow> f)"

definition transact_document ::
  "journal_codec \<Rightarrow> (store_document \<Rightarrow> store_error + ('a \<times> store_document)) \<Rightarrow> journal \<Rightarrow>
   (store_error, 'a, journal) outcome" where
  "transact_document c change j =
     (case change (journal_current j) of
        Inl e \<Rightarrow> (Inl e, j)
      | Inr (a, staged) \<Rightarrow>
        if store_generation staged = - 1 then (Inl StoreInvalid, j)
        else
          (let staged = staged\<lparr>store_generation := store_generation staged + 1\<rparr>;
               (r, dir) = persist c (journal_fault j) staged (journal_dir j);
               j = j\<lparr>journal_faults := tl (journal_faults j)\<rparr> in
           case r of
             Inl e \<Rightarrow> (Inl e, j\<lparr>journal_dir := dir\<rparr>)
           | Inr _ \<Rightarrow>
             (Inr a,
              j\<lparr>journal_current := staged,
                journal_dir := remove_older_generations (journal_removable j) (store_generation staged) dir,
                journal_commits := store_generation staged\<rparr>)))"

text \<open>A change of the workspaces, and one that also sees whether automations are paused.\<close>

definition transact_automations ::
  "journal_codec \<Rightarrow> (bool \<Rightarrow> workspace_orchestration list \<Rightarrow> store_error + ('a \<times> workspace_orchestration list)) \<Rightarrow>
   journal \<Rightarrow> (store_error, 'a, journal) outcome" where
  "transact_automations c change =
     transact_document c (\<lambda>d.
       and_then (change (store_paused d) (store_workspaces d)) (\<lambda>(a, ws). Inr (a, d\<lparr>store_workspaces := ws\<rparr>)))"

definition transact_workspaces ::
  "journal_codec \<Rightarrow> (workspace_orchestration list \<Rightarrow> store_error + ('a \<times> workspace_orchestration list)) \<Rightarrow> journal \<Rightarrow>
   (store_error, 'a, journal) outcome" where
  "transact_workspaces c change = transact_automations c (\<lambda>_. change)"

definition set_automations_paused :: "journal_codec \<Rightarrow> bool \<Rightarrow> journal \<Rightarrow> (store_error, bool, journal) outcome" where
  "set_automations_paused c paused j =
     (if store_paused (journal_current j) = paused then (Inr False, j)
      else transact_document c (\<lambda>d. Inr (store_paused d \<noteq> paused, d\<lparr>store_paused := paused\<rparr>)) j)"

section \<open>Restarts\<close>

fun restore_runs :: "run list \<Rightarrow> store_error + run list" where
  "restore_runs [] = Inr []"
| "restore_runs (r # rs) =
     (case restore (run_revision r) r of
        (Inl _, _) \<Rightarrow> Inl StoreInvalid
      | (Inr _, r) \<Rightarrow> and_then (restore_runs rs) (\<lambda>rs. Inr (r # rs)))"

fun restore_workspaces :: "workspace_orchestration list \<Rightarrow> store_error + workspace_orchestration list" where
  "restore_workspaces [] = Inr []"
| "restore_workspaces (w # ws) =
     and_then (restore_runs (ws_runs w)) (\<lambda>runs.
     and_then (restore_workspaces ws) (\<lambda>ws. Inr (w\<lparr>ws_runs := runs\<rparr> # ws)))"

definition recover_interrupted_runs :: "journal_codec \<Rightarrow> journal \<Rightarrow> (store_error, unit, journal) outcome" where
  "recover_interrupted_runs c j =
     (if \<not> list_ex (\<lambda>w. list_ex needs_restore (ws_runs w)) (store_workspaces (journal_current j)) then (Inr (), j)
      else transact_workspaces c (\<lambda>ws. and_then (restore_workspaces ws) (\<lambda>ws. Inr ((), ws))) j)"

section \<open>What a restart finds\<close>

text \<open>The document a restart of the host would read from the directory.\<close>

definition reopened :: "journal_codec \<Rightarrow> serde_json \<Rightarrow> journal \<Rightarrow> store_document" where
  "reopened c sj j = fst (newest_document c sj (journal_removable j) (dir_files (journal_dir j)))"

definition journal_ok :: "journal_codec \<Rightarrow> serde_json \<Rightarrow> journal \<Rightarrow> bool" where
  "journal_ok c sj j \<longleftrightarrow>
     dir_listable (journal_dir j) \<and> reopened c sj j = journal_current j \<and>
     store_version (journal_current j) = STORE_VERSION"

text \<open>The generations of a listing that can be read, and the newest of them.\<close>

definition readable ::
  "journal_codec \<Rightarrow> serde_json \<Rightarrow> (string \<times> board_file) list \<Rightarrow> (64 word \<times> store_document) list" where
  "readable c sj = List.map_filter (\<lambda>(name, f).
     Option.bind (journal_from_path name) (\<lambda>g. map_option (Pair g) (read_generation c sj g f)))"

fun pick_newest ::
  "64 word \<times> store_document \<Rightarrow> (64 word \<times> store_document) option \<Rightarrow> (64 word \<times> store_document) option" where
  "pick_newest (g, d) newest = (if is_none_or newest (\<lambda>(current, _). current < g) then Some (g, d) else newest)"

lemma fold_open_step:
  "fst (fold (open_step c sj removable) files (newest, out)) = fold pick_newest (readable c sj files) newest"
  by (induction files arbitrary: newest out)
    (auto simp: readable_def List.map_filter_def split: option.splits)

lemma readable_Nil [simp]: "readable c sj [] = []"
  by (simp add: readable_def List.map_filter_simps)

lemma readable_append [simp]: "readable c sj (xs @ ys) = readable c sj xs @ readable c sj ys"
  by (simp add: readable_def List.map_filter_def)

lemma reopened_newest:
  "reopened c sj j =
     (case fold pick_newest (readable c sj (dir_files (journal_dir j))) None of None \<Rightarrow> store_default | Some (_, d) \<Rightarrow> d)"
  using fold_open_step[of c sj "journal_removable j" "dir_files (journal_dir j)" None "[]"]
  by (auto simp: reopened_def newest_document_def split: prod.splits option.splits)

lemma fold_pick_above:
  assumes "fold pick_newest xs newest = Some (k, d)"
  shows "(\<forall>(g, _)\<in>set xs. g \<le> k) \<and> is_none_or newest (\<lambda>(current, _). current \<le> k)"
  using assms
  by (induction xs arbitrary: newest) (fastforce split: if_splits option.splits simp: is_none_or_def)+

lemma fold_pick_mem:
  "fold pick_newest xs newest = Some kd \<Longrightarrow> kd \<in> set xs \<or> newest = Some kd"
  by (induction xs arbitrary: newest) (fastforce split: if_splits)+

lemma fold_pick_none: "fold pick_newest xs None = None \<longleftrightarrow> xs = []"
proof (cases xs)
  case (Cons x xs')
  have "fold pick_newest ys (Some v) \<noteq> None" for ys v
    by (induction ys arbitrary: v) (auto split: if_splits)
  then show ?thesis using Cons by (cases x) (auto simp: is_none_or_def)
qed simp

lemma word_less_inc: "k \<le> g \<Longrightarrow> g \<noteq> - 1 \<Longrightarrow> k < g + 1" for k g :: "64 word"
  using unatSuc[of g] by (auto simp: word_less_nat_alt word_le_nat_alt add.commute add_eq_0_iff)

lemma fold_pick_last:
  assumes "\<And>k d'. (k, d') \<in> set xs \<Longrightarrow> k < g"
  shows "fold pick_newest (xs @ [(g, d)]) None = Some (g, d)"
proof (cases "fold pick_newest xs None")
  case (Some kd)
  then show ?thesis using fold_pick_mem[OF Some] assms by (cases kd) auto
qed simp

lemma read_generation_Some:
  assumes "read_generation c sj g f = Some d"
  shows "store_generation d = g" "store_version d = STORE_VERSION"
  using assms
  by (auto simp: read_generation_def migrate_document_def Option.bind_eq_Some_conv split: board_file.splits if_splits)

lemma readable_name:
  "(g, d) \<in> set (readable c sj files) \<Longrightarrow> \<exists>name f. (name, f) \<in> set files \<and> journal_from_path name = Some g"
  by (induction files) (auto simp: readable_def List.map_filter_simps Option.bind_eq_Some_conv split: option.splits)

lemma readable_mem: "(g, d) \<in> set (readable c sj files) \<Longrightarrow> store_generation d = g"
  by (auto simp: readable_def List.map_filter_def Option.bind_eq_Some_conv dest: read_generation_Some)

lemma journal_from_journal_path [simp]: "journal_from_path (journal_path g) = Some g"
  by (simp add: journal_from_path_def journal_path_def strip_suffix_def parse_padded)

lemma readable_le:
  assumes "journal_ok c sj j" "(g, d) \<in> set (readable c sj (dir_files (journal_dir j)))"
  shows "g \<le> store_generation (journal_current j)"
proof -
  let ?n = "fold pick_newest (readable c sj (dir_files (journal_dir j))) None"
  obtain k d' where n: "?n = Some (k, d')"
    using fold_pick_none assms(2) by (metis empty_iff list.set(1) not_None_eq surj_pair)
  then have "journal_current j = d'" using assms(1) by (simp add: journal_ok_def reopened_newest)
  moreover have "store_generation d' = k" using fold_pick_mem[OF n] by (auto dest: readable_mem)
  ultimately show ?thesis using fold_pick_above[OF n] assms(2) by auto
qed

text \<open>A restart of a journal finds what the last one held.\<close>

lemma readable_filtered:
  assumes "fold (open_step c sj removable) files (newest, out) = (newest', out')"
  shows "readable c sj out' = readable c sj out @ readable c sj files"
  using assms
proof (induction files arbitrary: newest out)
  case (Cons x files)
  obtain name f where x: "x = (name, f)" by (cases x)
  obtain n1 o1 where o1: "open_step c sj removable x (newest, out) = (n1, o1)" by (metis surj_pair)
  then have "readable c sj o1 = readable c sj (out @ [x])"
    unfolding x by (auto simp: readable_def List.map_filter_def split: option.splits if_splits)
  moreover have "fold (open_step c sj removable) files (n1, o1) = (newest', out')" using Cons.prems o1 by simp
  ultimately show ?case using Cons.IH readable_append[of c sj "[x]" files] by simp
qed (simp add: readable_def)

lemma open_store_ok:
  assumes "open_store c sj dir faults removable = Inr j"
  shows "journal_ok c sj j"
proof -
  from assms obtain files where j: "dir_listable dir" "newest_document c sj removable (dir_files dir) = (journal_current j, files)"
      "journal_dir j = dir\<lparr>dir_files := files\<rparr>" "journal_removable j = removable"
    by (auto simp: open_store_def split: if_splits prod.splits)
  then obtain newest where n: "fold (open_step c sj removable) (dir_files dir) (None, []) = (newest, files)"
      "journal_current j = (case newest of None \<Rightarrow> store_default | Some (_, d) \<Rightarrow> d)"
    by (auto simp: newest_document_def split: prod.splits)
  from readable_filtered[OF n(1)] have "readable c sj files = readable c sj (dir_files dir)"
    by (simp add: readable_def)
  then have r: "reopened c sj j = journal_current j"
    using fold_open_step[of c sj removable "dir_files dir" None "[]"] n j(3) by (simp add: reopened_newest)
  have "store_version (journal_current j) = STORE_VERSION"
  proof (cases newest)
    case (Some kd)
    have "fold pick_newest (readable c sj (dir_files dir)) None = newest"
      using fold_open_step[of c sj removable "dir_files dir" None "[]"] n(1) by simp
    then have "kd \<in> set (readable c sj (dir_files dir))" using fold_pick_mem Some by blast
    then show ?thesis using Some n(2)
      by (auto simp: readable_def List.map_filter_def Option.bind_eq_Some_conv dest: read_generation_Some)
  qed (simp add: n(2) store_default_def)
  with r j(1,3) show ?thesis by (simp add: journal_ok_def)
qed

section \<open>A change is durable before it is current\<close>

definition spec_change ::
  "(store_document \<Rightarrow> store_error + ('a \<times> store_document)) \<Rightarrow> store_document \<Rightarrow> store_error + ('a \<times> store_document)" where
  "spec_change change d =
     and_then (change d) (\<lambda>(a, staged).
       if store_generation staged = - 1 then Inl StoreInvalid
       else Inr (a, staged\<lparr>store_generation := store_generation staged + 1\<rparr>))"

definition loadable :: "journal_codec \<Rightarrow> serde_json \<Rightarrow> store_document \<Rightarrow> bool" where
  "loadable c sj d \<longleftrightarrow> migrate_document c sj d = Some d"

definition keeps_header :: "(store_document \<Rightarrow> store_error + ('a \<times> store_document)) \<Rightarrow> bool" where
  "keeps_header change \<longleftrightarrow>
     (\<forall>d a staged. change d = Inr (a, staged) \<longrightarrow>
        store_generation staged = store_generation d \<and> store_version staged = store_version d)"

lemma read_written:
  assumes "journal_codec_ok c" "encode_store c d = Some bytes" "store_version d = STORE_VERSION"
  shows "read_generation c sj (store_generation d) (FileBytes (take k bytes)) =
           (if k < length bytes then None else migrate_document c sj d)"
  using assms by (auto simp: read_generation_def journal_codec_ok_def STORE_VERSION_def MIN_STORE_VERSION_def)

lemma readable_new:
  "readable c sj [(journal_path g, f)] =
     (case read_generation c sj g f of None \<Rightarrow> [] | Some d \<Rightarrow> [(g, d)])"
  by (simp add: readable_def List.map_filter_def split: option.splits)

lemma readable_older:
  assumes "journal_ok c sj j" "(k, d) \<in> set (readable c sj (filter P (dir_files (journal_dir j))))"
  shows "k \<le> store_generation (journal_current j)"
proof -
  have "set (readable c sj (filter P files)) \<subseteq> set (readable c sj files)" for files
    by (induction files) (auto simp: readable_def List.map_filter_simps split: option.splits)
  then show ?thesis using readable_le[OF assms(1)] assms(2) by blast
qed

lemma transact_document_cases:
  assumes "transact_document c change j = (r, j')" "keeps_header change"
  obtains (refused) e where "spec_change change (journal_current j) = Inl e" "r = Inl e" "j' = j"
  | (failed) a staged e files where "spec_change change (journal_current j) = Inr (a, staged)" "r = Inl e"
      "journal_current j' = journal_current j"
      "journal_dir j' = (journal_dir j)\<lparr>dir_files := dir_files (journal_dir j) @ files\<rparr>"
      "files = [] \<or> (\<exists>k bytes. encode_store c staged = Some bytes \<and>
         files = [(journal_path (store_generation staged), FileBytes (take k bytes))])"
      "store_generation staged = store_generation (journal_current j) + 1" "store_generation (journal_current j) \<noteq> - 1"
      "store_version staged = store_version (journal_current j)"
  | (committed) a staged bytes where "spec_change change (journal_current j) = Inr (a, staged)" "r = Inr a"
      "journal_current j' = staged" "encode_store c staged = Some bytes"
      "journal_dir j' = remove_older_generations (journal_removable j) (store_generation staged)
         (add_file (journal_path (store_generation staged)) bytes (journal_dir j))"
      "store_generation staged = store_generation (journal_current j) + 1" "store_generation (journal_current j) \<noteq> - 1"
      "store_version staged = store_version (journal_current j)"
proof (cases "change (journal_current j)")
  case (Inl e)
  then show ?thesis using assms(1) by (intro refused[of e]) (auto simp: spec_change_def transact_document_def)
next
  case (Inr as)
  obtain a staged0 where as: "as = (a, staged0)" by (cases as)
  have header: "store_generation staged0 = store_generation (journal_current j)" "store_version staged0 = store_version (journal_current j)"
    using assms(2) Inr as unfolding keeps_header_def by blast+
  show ?thesis
  proof (cases "store_generation staged0 = - 1")
    case True
    then show ?thesis using assms(1) Inr as by (intro refused[of StoreInvalid]) (auto simp: spec_change_def transact_document_def)
  next
    case False
    let ?s = "staged0\<lparr>store_generation := store_generation staged0 + 1\<rparr>"
    have spec: "spec_change change (journal_current j) = Inr (a, ?s)" using Inr as False by (simp add: spec_change_def)
    obtain pr dir where p: "persist c (journal_fault j) ?s (journal_dir j) = (pr, dir)" by (metis surj_pair)
    show ?thesis
    proof (cases pr)
      case (Inl e)
      have same: "(journal_dir j)\<lparr>dir_files := dir_files (journal_dir j) @ []\<rparr> = journal_dir j" by simp
      from p Inl obtain files where f: "dir = (journal_dir j)\<lparr>dir_files := dir_files (journal_dir j) @ files\<rparr>"
        "files = [] \<or> (\<exists>k bytes. encode_store c ?s = Some bytes \<and>
           files = [(journal_path (store_generation ?s), FileBytes (take k bytes))])"
        unfolding persist_def add_file_def Let_def
        by (auto split: option.splits if_splits write_fault.splits simp: same)
          (metis append.right_neutral same)+
      show ?thesis
        by (rule failed[of a ?s e files])
          (use spec assms(1) Inr as False p Inl f header in \<open>auto simp: transact_document_def Let_def\<close>)
    next
      case u: (Inr u)
      from p u obtain bytes where b: "encode_store c ?s = Some bytes"
          "dir = add_file (journal_path (store_generation ?s)) bytes (journal_dir j)"
        unfolding persist_def Let_def by (auto split: option.splits if_splits write_fault.splits)
      show ?thesis
        by (rule committed[of a ?s bytes])
          (use spec assms(1) Inr as False p u b header in \<open>auto simp: transact_document_def Let_def\<close>)
    qed
  qed
qed

lemma reopened_committed:
  assumes "journal_codec_ok c" "journal_ok c sj j" "encode_store c staged = Some bytes" "store_version staged = STORE_VERSION"
    and "store_generation staged = store_generation (journal_current j) + 1" "store_generation (journal_current j) \<noteq> - 1"
    and "journal_dir j' = remove_older_generations (journal_removable j) (store_generation staged)
           (add_file (journal_path (store_generation staged)) bytes (journal_dir j))"
  shows "loadable c sj staged \<Longrightarrow> reopened c sj j' = staged"
    and "migrate_document c sj staged = None \<Longrightarrow> (\<And>name. journal_removable j name) \<Longrightarrow> reopened c sj j' = store_default"
proof -
  let ?g = "store_generation staged"
  let ?old = "filter (\<lambda>(name, _). \<not> (is_some_and (journal_from_path name) (\<lambda>g. g < ?g) \<and> journal_removable j name))
     (dir_files (journal_dir j))"
  have less: "k < ?g" if "k \<le> store_generation (journal_current j)" for k
    using that assms(5,6) by (simp add: word_less_inc)
  have "dir_files (journal_dir j') = ?old @ [(journal_path ?g, FileBytes (take (length bytes) bytes))]"
    using assms(2,7) by (simp add: remove_older_generations_def add_file_def journal_ok_def)
  then have files: "readable c sj (dir_files (journal_dir j')) =
      readable c sj ?old @ (case migrate_document c sj staged of None \<Rightarrow> [] | Some d \<Rightarrow> [(?g, d)])"
    using read_written[OF assms(1,3,4), of sj "length bytes"] by (simp add: readable_new del: take_all)
  show "reopened c sj j' = staged" if "loadable c sj staged"
  proof -
    have "fold pick_newest (readable c sj ?old @ [(?g, staged)]) None = Some (?g, staged)"
      by (rule fold_pick_last) (use readable_older[OF assms(2)] less in blast)
    with files that show ?thesis by (simp add: reopened_newest loadable_def)
  qed
  show "reopened c sj j' = store_default" if m: "migrate_document c sj staged = None" and "\<And>name. journal_removable j name"
  proof -
    have "readable c sj ?old = []"
    proof (rule ccontr)
      assume "readable c sj ?old \<noteq> []"
      then obtain k d where kd: "(k, d) \<in> set (readable c sj ?old)" by (cases "readable c sj ?old") auto
      from readable_name[OF kd] obtain name f where "(name, f) \<in> set ?old" "journal_from_path name = Some k" by blast
      then have "\<not> k < ?g" using that(2)[of name] by simp
      with less[OF readable_older[OF assms(2) kd]] show False by blast
    qed
    with files m show ?thesis by (simp add: reopened_newest)
  qed
qed

lemma reopened_failed:
  assumes "journal_codec_ok c" "journal_ok c sj j" "loadable c sj staged" "store_version staged = STORE_VERSION"
    and "store_generation staged = store_generation (journal_current j) + 1" "store_generation (journal_current j) \<noteq> - 1"
    and "journal_dir j' = (journal_dir j)\<lparr>dir_files := dir_files (journal_dir j) @ files\<rparr>"
    and "files = [] \<or> (\<exists>k bytes. encode_store c staged = Some bytes \<and>
           files = [(journal_path (store_generation staged), FileBytes (take k bytes))])"
  shows "reopened c sj j' \<in> {journal_current j, staged}"
proof -
  let ?rs = "readable c sj (dir_files (journal_dir j))"
  have r: "readable c sj (dir_files (journal_dir j')) \<in> {?rs, ?rs @ [(store_generation staged, staged)]}"
    using assms(3,7,8) read_written[OF assms(1) _ assms(4), where sj = sj]
    by (auto simp: readable_new loadable_def split: if_splits)
  have "k < store_generation staged" if "(k, d) \<in> set ?rs" for k d
    using readable_le[OF assms(2) that] assms(5,6) by (simp add: word_less_inc)
  then have "fold pick_newest (?rs @ [(store_generation staged, staged)]) None = Some (store_generation staged, staged)"
    by (rule fold_pick_last)
  with r assms(2) show ?thesis by (auto simp: reopened_newest journal_ok_def)
qed

text \<open>A committed change is what a restart finds; a failed one leaves the journal as it is, and a restart
  finds the old or the new document.\<close>

lemma transact_document_durable:
  assumes "journal_codec_ok c" "journal_ok c sj j" "keeps_header change" "transact_document c change j = (r, j')"
    and "\<And>a staged. spec_change change (journal_current j) = Inr (a, staged) \<Longrightarrow> loadable c sj staged"
  shows "(\<exists>a staged. spec_change change (journal_current j) = Inr (a, staged) \<and> r = Inr a \<and>
           journal_current j' = staged \<and> journal_ok c sj j') \<or>
         \<not> is_ok r \<and> journal_current j' = journal_current j \<and>
           (reopened c sj j' = journal_current j \<or>
            (\<exists>a. spec_change change (journal_current j) = Inr (a, reopened c sj j')))"
  using assms(4,3)
proof (cases rule: transact_document_cases)
  case (refused e)
  then show ?thesis using assms(2) by (simp add: journal_ok_def)
next
  case (failed a staged e files)
  have "reopened c sj j' \<in> {journal_current j, staged}"
    by (rule reopened_failed[OF assms(1,2) assms(5)[OF failed(1)] _ failed(6,7,4,5)])
      (use failed(8) assms(2) in \<open>simp add: journal_ok_def\<close>)
  with failed show ?thesis by auto
next
  case (committed a staged bytes)
  have v: "store_version staged = STORE_VERSION" using committed(8) assms(2) by (simp add: journal_ok_def)
  have "reopened c sj j' = staged"
    by (rule reopened_committed(1)[OF assms(1,2) committed(4) v committed(6,7,5) assms(5)[OF committed(1)]])
  moreover have "dir_listable (journal_dir j')"
    using assms(2) committed(5) by (simp add: journal_ok_def remove_older_generations_def add_file_def)
  ultimately show ?thesis using committed v by (auto simp: journal_ok_def)
qed

lemma keeps_header_automations:
  "keeps_header (\<lambda>d. and_then (change (store_paused d) (store_workspaces d)) (\<lambda>(a, ws). Inr (a, d\<lparr>store_workspaces := ws\<rparr>)))"
  by (auto simp: keeps_header_def)

text \<open>A change of the workspaces as a change of the document.\<close>

definition automations_change ::
  "(bool \<Rightarrow> workspace_orchestration list \<Rightarrow> store_error + ('a \<times> workspace_orchestration list)) \<Rightarrow> store_document \<Rightarrow>
   store_error + ('a \<times> store_document)" where
  "automations_change change d =
     and_then (change (store_paused d) (store_workspaces d)) (\<lambda>(a, ws). Inr (a, d\<lparr>store_workspaces := ws\<rparr>))"

lemma keeps_header_change: "keeps_header (automations_change change)"
  by (auto simp: keeps_header_def automations_change_def)

end
