(* ===== verification/Workspace_References.thy ===== *)
theory Workspace_References
  imports Journal Subpipelines
begin

text \<open>
  The rules of a project about sub-pipeline steps
  (\<^verbatim>\<open>src/apps/desktop/src-tauri/src/subpipelines.rs\<close>): what a saved pipeline may refer to, which changes
  of a child are refused because a saved parent would no longer fit it, what must not be deleted, the
  start of a child run, and the ends of children that a parent still waits for. The engine that drives
  the observation is asynchronous glue and is not modelled; log lines are left out.
\<close>

section \<open>Lookups\<close>

definition pipeline_of_command :: "workspace_orchestration \<Rightarrow> string \<Rightarrow> pipeline_definition option" where
  "pipeline_of_command w i =
     Option.bind (find (\<lambda>c. command_id (sd_value c) = i) (ws_commands w)) (\<lambda>c.
       map_option sd_value
         (find (\<lambda>p. pipeline_id (sd_value p) = command_pipeline_id (sd_value c)) (ws_pipelines w)))"

fun runs_command :: "string \<Rightarrow> step_executor option \<Rightarrow> bool" where
  "runs_command i (Some (PipelineExecutor launch _)) = (launch = i)"
| "runs_command i _ = False"

definition launch_command_referenced :: "workspace_orchestration \<Rightarrow> string \<Rightarrow> bool" where
  "launch_command_referenced w i =
     list_ex (\<lambda>p. list_ex (\<lambda>s. runs_command i (step_executor s)) (pipeline_steps (sd_value p))) (ws_pipelines w)"

section \<open>Starting a child\<close>

definition SUBPIPELINE_UNAVAILABLE :: string where "SUBPIPELINE_UNAVAILABLE = ''subpipeline-unavailable''"
definition SUBPIPELINE_CYCLE :: string where "SUBPIPELINE_CYCLE = ''subpipeline-cycle''"
definition SUBPIPELINE_INPUT_INVALID :: string where "SUBPIPELINE_INPUT_INVALID = ''subpipeline-input-invalid''"

record start_run_request =
  start_workspace_id :: string
  start_run_id :: string
  start_team_id :: string
  start_pipeline_id :: string
  start_launch_command_id :: "string option"
  start_inputs :: json_map
  start_use_pinned_data :: bool

text \<open>The search for cycles returns on every project (\<open>reference_search_returns\<close> below), so the test
  \<open>= Some True\<close> is its answer.\<close>

definition plan_child_start ::
  "serde_json \<Rightarrow> workspace_orchestration \<Rightarrow> run \<Rightarrow> pipeline_step_lease \<Rightarrow> string \<Rightarrow>
   string + (start_run_request \<times> run_trigger)" where
  "plan_child_start sj w parent lease child_run_id =
     (case find (\<lambda>c. command_id (sd_value c) = pil_launch_command_id lease) (ws_commands w) of
        None \<Rightarrow> Inl SUBPIPELINE_UNAVAILABLE
      | Some stored \<Rightarrow>
        (let command = sd_value stored in
         if \<not> list_ex (\<lambda>t. team_id (sd_value t) = command_team_id command) (ws_teams w) then Inl SUBPIPELINE_UNAVAILABLE
         else
           (case pipeline_of_command w (command_id command) of
              None \<Rightarrow> Inl SUBPIPELINE_UNAVAILABLE
            | Some pipeline \<Rightarrow>
              and_then (child_trigger lease) (\<lambda>trigger.
              if command_id command \<in> set (ancestor_launch_commands parent (\<lambda>i. find (\<lambda>r. run_id r = i) (ws_runs w))) \<or>
                 subpipeline_cycle (command_id command) (pipeline_of_command w) = Some True
              then Inl SUBPIPELINE_CYCLE
              else
                and_then (resolve_child_inputs sj (pil_sources lease) (hl_inputs lease) (hl_dependencies lease)) (\<lambda>inputs.
                and_then (map_err (\<lambda>_. SUBPIPELINE_INPUT_INVALID) (resolve_run_inputs (pipeline_inputs pipeline) inputs)) (\<lambda>_.
                  Inr (\<lparr>start_workspace_id = ws_id w, start_run_id = child_run_id,
                        start_team_id = command_team_id command, start_pipeline_id = command_pipeline_id command,
                        start_launch_command_id = Some (command_id command), start_inputs = inputs,
                        start_use_pinned_data = False\<rparr>, trigger)))))))"

section \<open>References of a saved pipeline\<close>

definition SUBPIPELINE_UNKNOWN_PIPELINE :: string where
  "SUBPIPELINE_UNKNOWN_PIPELINE = ''subpipeline-unknown-pipeline''"
definition SUBPIPELINE_INPUT_MISMATCH :: string where
  "SUBPIPELINE_INPUT_MISMATCH = ''subpipeline-input-mismatch''"
definition SUBPIPELINE_IN_USE :: string where "SUBPIPELINE_IN_USE = ''subpipeline-in-use''"
definition SUBPIPELINE_BREAKS_PARENT :: string where
  "SUBPIPELINE_BREAKS_PARENT = ''subpipeline-breaks-parent''"

datatype subpipeline_reference_error =
    UnknownLaunchCommand string
  | UnknownInput string string
  | IncompatibleInput string string
  | MissingRequiredInput string string
  | ReferenceCycle string
  | BreaksParent string string

fun api_code :: "subpipeline_reference_error \<Rightarrow> string" where
  "api_code (UnknownLaunchCommand _) = SUBPIPELINE_UNKNOWN_PIPELINE"
| "api_code (UnknownInput _ _) = SUBPIPELINE_INPUT_MISMATCH"
| "api_code (IncompatibleInput _ _) = SUBPIPELINE_INPUT_MISMATCH"
| "api_code (MissingRequiredInput _ _) = SUBPIPELINE_INPUT_MISMATCH"
| "api_code (ReferenceCycle _) = SUBPIPELINE_CYCLE"
| "api_code (BreaksParent _ _) = SUBPIPELINE_BREAKS_PARENT"

definition refuse :: "subpipeline_reference_error \<Rightarrow> store_error" where
  "refuse e = StoreRefused (api_code e)"

definition takes_text :: "pipeline_input_kind \<Rightarrow> bool" where
  "takes_text k \<longleftrightarrow> k \<in> {TextInput, LongTextInput, ChoiceInput}"

text \<open>Whether a value of an input of the parent satisfies an input of the child.\<close>

definition input_compatible :: "pipeline_input \<Rightarrow> pipeline_input \<Rightarrow> bool" where
  "input_compatible parent input =
     (case input_kind input of
        TextInput \<Rightarrow> takes_text (input_kind parent)
      | LongTextInput \<Rightarrow> takes_text (input_kind parent)
      | NumberInput \<Rightarrow> input_kind parent = NumberInput
      | BooleanInput \<Rightarrow> input_kind parent = BooleanInput
      | ChoiceInput \<Rightarrow> input_kind parent = ChoiceInput \<and>
          list_all (\<lambda>opt. opt \<in> set (input_options input)) (input_options parent))"

definition field_compatible :: "result_field_kind option \<Rightarrow> pipeline_input \<Rightarrow> bool" where
  "field_compatible declared input =
     (case declared of
        None \<Rightarrow> True
      | Some TextField \<Rightarrow> takes_text (input_kind input)
      | Some ArtifactField \<Rightarrow> takes_text (input_kind input)
      | Some NumberField \<Rightarrow> input_kind input = NumberInput
      | Some BooleanField \<Rightarrow> input_kind input = BooleanInput
      | Some TextListField \<Rightarrow> False)"

definition source_compatible :: "pipeline_definition \<Rightarrow> subpipeline_input_source \<Rightarrow> pipeline_input \<Rightarrow> bool" where
  "source_compatible pipeline source input =
     (case source of
        ValueSource v \<Rightarrow> is_ok (validate_input_value input v)
      | InputSource name \<Rightarrow>
          is_some_and (find (\<lambda>p. input_name p = name) (pipeline_inputs pipeline)) (\<lambda>p. input_compatible p input)
      | StepSource i f \<Rightarrow>
          (case f of
             None \<Rightarrow> takes_text (input_kind input)
           | Some name \<Rightarrow>
               field_compatible
                 (map_option field_kind
                   (Option.bind (find (\<lambda>s. step_id s = i) (pipeline_steps pipeline))
                      (\<lambda>s. find (\<lambda>g. field_name g = name) (step_result_fields s)))) input))"

fun check_mapping ::
  "pipeline_definition \<Rightarrow> string \<Rightarrow> pipeline_definition \<Rightarrow> (string \<times> subpipeline_input_source) list \<Rightarrow>
   subpipeline_reference_error + unit" where
  "check_mapping pipeline i child [] = Inr ()"
| "check_mapping pipeline i child ((name, source) # rest) =
     (case find (\<lambda>input. input_name input = name) (pipeline_inputs child) of
        None \<Rightarrow> Inl (UnknownInput i name)
      | Some input \<Rightarrow>
        if source_compatible pipeline source input then check_mapping pipeline i child rest
        else Inl (IncompatibleInput i name))"

definition validate_step_inputs ::
  "pipeline_definition \<Rightarrow> string \<Rightarrow> (string, subpipeline_input_source) btree_map \<Rightarrow> pipeline_definition \<Rightarrow>
   subpipeline_reference_error + unit" where
  "validate_step_inputs pipeline i inputs child =
     and_then (check_mapping pipeline i child inputs) (\<lambda>_.
       case find (\<lambda>input. input_required input \<and> input_default_value input = None \<and> bm_get inputs (input_name input) = None)
              (pipeline_inputs child) of
         Some missing \<Rightarrow> Inl (MissingRequiredInput i (input_name missing))
       | None \<Rightarrow> Inr ())"

definition result_fields_fit :: "pipeline_step \<Rightarrow> pipeline_definition \<Rightarrow> bool" where
  "result_fields_fit step child \<longleftrightarrow>
     pipeline_outputs child = [] \<or>
     list_all (\<lambda>f. list_ex (\<lambda>out. out_name out = field_name f \<and> out_kind out = field_kind f) (pipeline_outputs child))
       (step_result_fields step)"

definition step_fits ::
  "pipeline_definition \<Rightarrow> pipeline_step \<Rightarrow> (string, subpipeline_input_source) btree_map \<Rightarrow> pipeline_definition \<Rightarrow> bool" where
  "step_fits parent step inputs child \<longleftrightarrow>
     is_ok (validate_step_inputs parent (step_id step) inputs child) \<and> result_fields_fit step child"

definition reference_cycle :: "workspace_orchestration \<Rightarrow> string option" where
  "reference_cycle w =
     find (\<lambda>i. subpipeline_cycle i (pipeline_of_command w) = Some True) (map (\<lambda>c. command_id (sd_value c)) (ws_commands w))"

fun check_step_reference ::
  "workspace_orchestration \<Rightarrow> pipeline_definition \<Rightarrow> pipeline_step \<Rightarrow> subpipeline_reference_error + unit" where
  "check_step_reference w pipeline step =
     (case step_executor step of
        Some (PipelineExecutor launch inputs) \<Rightarrow>
          (case find (\<lambda>c. command_id (sd_value c) = launch) (ws_commands w) of
             None \<Rightarrow> Inl (UnknownLaunchCommand (step_id step))
           | Some command \<Rightarrow>
             (case (if command_pipeline_id (sd_value command) = pipeline_id pipeline then Some pipeline
                    else pipeline_of_command w launch) of
                None \<Rightarrow> Inl (UnknownLaunchCommand (step_id step))
              | Some child \<Rightarrow> validate_step_inputs pipeline (step_id step) inputs child))
      | _ \<Rightarrow> Inr ())"

definition validate_pipeline_references ::
  "workspace_orchestration \<Rightarrow> pipeline_definition \<Rightarrow> subpipeline_reference_error + unit" where
  "validate_pipeline_references w pipeline =
     and_then (try_each (check_step_reference w pipeline) (pipeline_steps pipeline)) (\<lambda>_.
       case reference_cycle w of Some i \<Rightarrow> Inl (ReferenceCycle i) | None \<Rightarrow> Inr ())"

definition check_saved_pipeline :: "workspace_orchestration \<Rightarrow> pipeline_definition \<Rightarrow> store_error + unit" where
  "check_saved_pipeline w pipeline = map_err refuse (validate_pipeline_references w pipeline)"

definition check_reference_cycles :: "workspace_orchestration \<Rightarrow> store_error + unit" where
  "check_reference_cycles w =
     (case reference_cycle w of Some i \<Rightarrow> Inl (refuse (ReferenceCycle i)) | None \<Rightarrow> Inr ())"

section \<open>Parents of a changed child\<close>

record child_change =
  change_pipeline :: "(string \<times> pipeline_definition option) option"
  change_retargeted :: "(string \<times> string) option"

text \<open>\<open>None\<close> when the change does not affect the command, \<open>Some None\<close> when its child was unknown before.\<close>

definition previous_child ::
  "child_change \<Rightarrow> workspace_orchestration \<Rightarrow> string \<Rightarrow> pipeline_definition option option" where
  "previous_child ch w i =
     (let saved = (\<lambda>p. map_option sd_value (find (\<lambda>q. pipeline_id (sd_value q) = p) (ws_pipelines w)));
          before = (\<lambda>p. case change_pipeline ch of
              Some (changed, previous) \<Rightarrow> if changed = p then previous else saved p
            | None \<Rightarrow> saved p);
          affected = Option.bind (change_pipeline ch) (\<lambda>(changed, previous).
            if list_ex (\<lambda>c. command_id (sd_value c) = i \<and> command_pipeline_id (sd_value c) = changed) (ws_commands w)
            then Some previous else None) in
      case change_retargeted ch of
        Some (command, old) \<Rightarrow> if command = i then Some (before old) else affected
      | None \<Rightarrow> affected)"

definition check_parent_step ::
  "workspace_orchestration \<Rightarrow> child_change \<Rightarrow> pipeline_definition \<Rightarrow> pipeline_step \<Rightarrow> subpipeline_reference_error + unit" where
  "check_parent_step w ch parent step =
     (case step_executor step of
        Some (PipelineExecutor launch inputs) \<Rightarrow>
          (case (previous_child ch w launch, pipeline_of_command w launch) of
             (Some before, Some child) \<Rightarrow>
               if step_fits parent step inputs child then Inr ()
               else if is_none_or before (step_fits parent step inputs)
                 then Inl (BreaksParent (pipeline_id parent) (step_id step))
               else Inr ()
           | _ \<Rightarrow> Inr ())
      | _ \<Rightarrow> Inr ())"

definition validate_parents ::
  "workspace_orchestration \<Rightarrow> child_change \<Rightarrow> subpipeline_reference_error + unit" where
  "validate_parents w ch =
     try_each (\<lambda>parent.
       if map_option fst (change_pipeline ch) = Some (pipeline_id (sd_value parent)) then Inr ()
       else try_each (check_parent_step w ch (sd_value parent)) (pipeline_steps (sd_value parent))) (ws_pipelines w)"

definition check_parents :: "workspace_orchestration \<Rightarrow> child_change \<Rightarrow> store_error + unit" where
  "check_parents w ch = map_err refuse (validate_parents w ch)"

definition check_delete_of ::
  "workspace_orchestration \<Rightarrow> (launch_command_reference \<Rightarrow> bool) \<Rightarrow> store_error + unit" where
  "check_delete_of w runs_it =
     (if list_ex (\<lambda>c. launch_command_referenced w (command_id (sd_value c)))
           (filter (\<lambda>c. runs_it (sd_value c)) (ws_commands w))
      then Inl (StoreRefused SUBPIPELINE_IN_USE) else Inr ())"

section \<open>Children of a run\<close>

definition pipeline_step_ids :: "run \<Rightarrow> string set" where
  "pipeline_step_ids r = step_id ` set (filter is_pipeline (pipeline_steps (def_pipeline (run_definition r))))"

definition running_children :: "workspace_orchestration \<Rightarrow> string \<Rightarrow> string option \<Rightarrow> string list" where
  "running_children w rid step =
     (case find (\<lambda>r. run_id r = rid) (ws_runs w) of
        None \<Rightarrow> []
      | Some r \<Rightarrow>
        filter (\<lambda>child. list_ex (\<lambda>q. run_id q = child \<and> run_status q = RunRunning) (ws_runs w))
          (List.map_filter (\<lambda>t. map_option execution_id (task_execution t))
            (filter (\<lambda>t. task_status t = Running \<and> task_step_id t \<in> pipeline_step_ids r \<and>
                         is_none_or step (\<lambda>i. task_step_id t = i)) (run_tasks r))))"

definition parent_waits_for :: "workspace_orchestration \<Rightarrow> run \<Rightarrow> bool" where
  "parent_waits_for w r =
     (case Option.bind (run_trigger r) trigger_pipeline_parent of
        None \<Rightarrow> False
      | Some (parent, step) \<Rightarrow>
        is_some_and (find (\<lambda>p. run_id p = parent) (ws_runs w)) (\<lambda>p.
          list_ex (\<lambda>t. task_step_id t = step \<and> task_status t = Running \<and>
                       is_some_and (task_execution t) (\<lambda>x. execution_id x = run_id r)) (run_tasks p)))"

fun inherited_depth_loop :: "nat \<Rightarrow> run list \<Rightarrow> run \<Rightarrow> 8 word \<Rightarrow> 8 word" where
  "inherited_depth_loop 0 runs current depth = depth"
| "inherited_depth_loop (Suc n) runs current depth =
     (case Option.bind (run_trigger current) trigger_pipeline_parent of
        None \<Rightarrow> depth
      | Some (parent, _) \<Rightarrow>
        (case find (\<lambda>r. run_id r = parent) runs of
           None \<Rightarrow> depth
         | Some p \<Rightarrow> inherited_depth_loop n runs p (max depth (run_chain_depth p))))"

definition inherited_chain_depth :: "run list \<Rightarrow> run \<Rightarrow> 8 word" where
  "inherited_chain_depth runs r =
     inherited_depth_loop (Suc (unat MAX_SUBPIPELINE_DEPTH)) runs r (run_chain_depth r)"

datatype child_end = ChildEnded | ChildMissing

record pending_end =
  end_workspace_id :: string
  end_parent_run_id :: string
  end_step_id :: string
  end_child_run_id :: string
  end_task_revision :: revision
  end_child :: child_end

definition run_ended :: "run_status \<Rightarrow> bool" where
  "run_ended s \<longleftrightarrow> s \<in> {RunSucceeded, RunFailed, RunCancelled}"

definition pending_end_of :: "workspace_orchestration \<Rightarrow> run \<Rightarrow> task_record \<Rightarrow> pending_end option" where
  "pending_end_of w r t =
     (if task_status t \<noteq> Running \<or> task_step_id t \<notin> pipeline_step_ids r then None
      else Option.bind (task_execution t) (\<lambda>x.
        let child = find (\<lambda>q. run_id q = execution_id x \<and>
              Option.bind (run_trigger q) trigger_pipeline_parent = Some (run_id r, task_step_id t)) (ws_runs w);
            ended = (case child of
                None \<Rightarrow> Some ChildMissing
              | Some q \<Rightarrow> if run_ended (run_status q) then Some ChildEnded else None) in
        map_option (\<lambda>e. \<lparr>end_workspace_id = ws_id w, end_parent_run_id = run_id r, end_step_id = task_step_id t,
          end_child_run_id = execution_id x, end_task_revision = task_revision t, end_child = e\<rparr>) ended))"

definition pending_subpipeline_ends :: "workspace_orchestration list \<Rightarrow> pending_end list" where
  "pending_subpipeline_ends ws =
     concat (map (\<lambda>w. concat (map (\<lambda>r. List.map_filter (pending_end_of w r) (run_tasks r)) (ws_runs w))) ws)"

section \<open>The search for cycles on a project\<close>

lemma runnable_command: "pipeline_of_command w i = Some p \<Longrightarrow> i \<in> (\<lambda>c. command_id (sd_value c)) ` set (ws_commands w)"
  by (auto simp: pipeline_of_command_def Option.bind_eq_Some_conv dest!: find_Some_set)

lemma pipelines_of_commands_finite: "finite {i. pipeline_of_command w i \<noteq> None}"
  by (rule finite_subset[of _ "(\<lambda>c. command_id (sd_value c)) ` set (ws_commands w)"]) (auto dest: runnable_command)

lemma reference_search_returns:
  "subpipeline_cycle i (pipeline_of_command w) = Some (cycle_reachable (child_commands (pipeline_of_command w)) i)"
  by (rule subpipeline_cycle_correct[OF pipelines_of_commands_finite])

text \<open>A project passes the check exactly when no launch command refers to itself over any chain of
  sub-pipeline steps.\<close>

lemma reference_cycle_None:
  "reference_cycle w = None \<longleftrightarrow> acyclic (refers (child_commands (pipeline_of_command w)))"
proof -
  let ?E = "refers (child_commands (pipeline_of_command w))"
  have "a \<in> (\<lambda>c. command_id (sd_value c)) ` set (ws_commands w)" if "(a, b) \<in> ?E" for a b
    using that runnable_command by (cases "pipeline_of_command w a") (auto simp: refers_def child_commands_def)
  then have "a \<in> (\<lambda>c. command_id (sd_value c)) ` set (ws_commands w)" if "(a, a) \<in> ?E\<^sup>+" for a
    using that by (meson tranclD)
  then show ?thesis
    unfolding reference_cycle_def find_None_iff' reference_search_returns acyclic_def cycle_reachable_def
    by (auto simp: image_iff)
qed

end
