(* ===== verification/Workspace_Definitions.thy ===== *)
theory Workspace_Definitions
  imports Workspace_References Authority
begin

text \<open>
  Saving and deleting the definitions of a project (\<^verbatim>\<open>src/apps/desktop/src-tauri/src/orchestration_api.rs\<close>):
  agent profiles, teams, pipelines and launch commands, one by one or as a graph. The trait
  \<^verbatim>\<open>DefinitionValue\<close> is the record \<open>definition_kind\<close>, its four implementations are values of it, and the
  generic operations take it as an argument. What they promise is in \<open>Definition_Laws\<close>.

  An operation changes the list of workspaces of a staged document, or fails and leaves no trace. The
  errors of the commands are the store errors with the same code.
\<close>

section \<open>Workspaces\<close>

definition on_workspace ::
  "string \<Rightarrow> (workspace_orchestration \<Rightarrow> store_error + ('a \<times> workspace_orchestration)) \<Rightarrow> workspace_orchestration list \<Rightarrow>
   store_error + ('a \<times> workspace_orchestration list)" where
  "on_workspace wid f ws =
     (case position (\<lambda>w. ws_id w = wid) ws of
        None \<Rightarrow> Inl StoreNotFound
      | Some i \<Rightarrow> and_then (f (ws ! i)) (\<lambda>(a, w). Inr (a, ws[i := w])))"

definition on_workspace_or_new ::
  "string \<Rightarrow> (workspace_orchestration \<Rightarrow> store_error + ('a \<times> workspace_orchestration)) \<Rightarrow> workspace_orchestration list \<Rightarrow>
   store_error + ('a \<times> workspace_orchestration list)" where
  "on_workspace_or_new wid f ws =
     (case position (\<lambda>w. ws_id w = wid) ws of
        None \<Rightarrow> and_then (f (workspace_empty wid)) (\<lambda>(a, w). Inr (a, ws @ [w]))
      | Some i \<Rightarrow> and_then (f (ws ! i)) (\<lambda>(a, w). Inr (a, ws[i := w])))"

text \<open>\<^verbatim>\<open>validate_workspace_id\<close> and a transaction.\<close>

definition api_transact ::
  "journal_codec \<Rightarrow> string \<Rightarrow> (workspace_orchestration list \<Rightarrow> store_error + ('a \<times> workspace_orchestration list)) \<Rightarrow>
   journal \<Rightarrow> (store_error, 'a, journal) outcome" where
  "api_transact c wid f j = (if is_blank_text wid then (Inl StoreInvalid, j) else transact_workspaces c f j)"

section \<open>The trait\<close>

record 'v definition_kind =
  kind_id :: "'v \<Rightarrow> string"
  kind_values :: "workspace_orchestration \<Rightarrow> 'v stored_definition list"
  kind_put :: "'v stored_definition list \<Rightarrow> workspace_orchestration \<Rightarrow> workspace_orchestration"
  kind_valid :: "'v \<Rightarrow> workspace_orchestration \<Rightarrow> bool"
  kind_can_delete :: "workspace_orchestration \<Rightarrow> string \<Rightarrow> bool"
  kind_after_save :: "'v stored_definition option \<Rightarrow> 'v stored_definition \<Rightarrow> workspace_orchestration \<Rightarrow>
     store_error + workspace_orchestration"
  kind_check_references :: "workspace_orchestration \<Rightarrow> 'v option \<Rightarrow> 'v \<Rightarrow> store_error + unit"
  kind_check_delete :: "workspace_orchestration \<Rightarrow> string \<Rightarrow> store_error + unit"

definition stored_of :: "'v definition_kind \<Rightarrow> workspace_orchestration \<Rightarrow> string \<Rightarrow> 'v stored_definition option" where
  "stored_of k w i = find (\<lambda>s. kind_id k (sd_value s) = i) (kind_values k w)"

definition put_value :: "'v definition_kind \<Rightarrow> 'v stored_definition \<Rightarrow> workspace_orchestration \<Rightarrow> workspace_orchestration" where
  "put_value k saved w =
     (case position (\<lambda>s. kind_id k (sd_value s) = kind_id k (sd_value saved)) (kind_values k w) of
        None \<Rightarrow> kind_put k (kind_values k w @ [saved]) w
      | Some i \<Rightarrow> kind_put k ((kind_values k w)[i := saved]) w)"

definition checked_inc :: "64 word \<Rightarrow> store_error + 64 word" where
  "checked_inc r = (if r = - 1 then Inl StoreInvalid else Inr (r + 1))"

definition saved_value ::
  "'v stored_definition option \<Rightarrow> 64 word option \<Rightarrow> 'v \<Rightarrow> store_error + 'v stored_definition" where
  "saved_value existing expected v =
     (case (existing, expected) of
        (None, None) \<Rightarrow> Inr \<lparr>sd_revision = 0, sd_value = v\<rparr>
      | (None, Some _) \<Rightarrow> Inl StoreNotFound
      | (Some _, None) \<Rightarrow> Inl StoreAlreadyExists
      | (Some s, Some e) \<Rightarrow>
          if sd_revision s \<noteq> e then Inl StoreConflict
          else and_then (checked_inc e) (\<lambda>r. Inr \<lparr>sd_revision = r, sd_value = v\<rparr>))"

definition save_value ::
  "'v definition_kind \<Rightarrow> 64 word option \<Rightarrow> 'v \<Rightarrow> workspace_orchestration \<Rightarrow>
   store_error + ('v stored_definition \<times> workspace_orchestration)" where
  "save_value k expected v w =
     (if \<not> kind_valid k v w then Inl StoreInvalid
      else
        (let previous = stored_of k w (kind_id k v) in
         and_then (saved_value previous expected v) (\<lambda>saved.
         and_then (kind_after_save k previous saved (put_value k saved w)) (\<lambda>w'.
         and_then (kind_check_references k w' (map_option sd_value previous) v) (\<lambda>_. Inr (saved, w'))))))"

definition save_definition ::
  "journal_codec \<Rightarrow> 'v definition_kind \<Rightarrow> string \<Rightarrow> 64 word option \<Rightarrow> 'v \<Rightarrow> journal \<Rightarrow>
   (store_error, 'v stored_definition, journal) outcome" where
  "save_definition c k wid expected v = api_transact c wid (on_workspace_or_new wid (save_value k expected v))"

definition delete_value ::
  "'v definition_kind \<Rightarrow> string \<Rightarrow> 64 word \<Rightarrow> workspace_orchestration \<Rightarrow> store_error + (unit \<times> workspace_orchestration)" where
  "delete_value k i expected w =
     and_then (kind_check_delete k w i) (\<lambda>_.
       if \<not> kind_can_delete k w i then Inl StoreConflict
       else
         (case position (\<lambda>s. kind_id k (sd_value s) = i) (kind_values k w) of
            None \<Rightarrow> Inl StoreNotFound
          | Some n \<Rightarrow>
            if sd_revision (kind_values k w ! n) \<noteq> expected then Inl StoreConflict
            else Inr ((), kind_put k (take n (kind_values k w) @ drop (Suc n) (kind_values k w)) w)))"

definition delete_definition ::
  "journal_codec \<Rightarrow> 'v definition_kind \<Rightarrow> string \<Rightarrow> string \<Rightarrow> 64 word \<Rightarrow> journal \<Rightarrow> (store_error, unit, journal) outcome" where
  "delete_definition c k wid i expected = api_transact c wid (on_workspace wid (delete_value k i expected))"

definition get_definition ::
  "'v definition_kind \<Rightarrow> string \<Rightarrow> string \<Rightarrow> journal \<Rightarrow> store_error + 'v stored_definition option" where
  "get_definition k wid i j =
     (if is_blank_text wid \<or> is_blank_text i then Inl StoreInvalid
      else Inr (Option.bind (snapshot_workspace (journal_current j) wid) (\<lambda>w. stored_of k w i)))"

section \<open>The implementations\<close>

definition REASONING_LEVELS :: "string list" where
  "REASONING_LEVELS =
     [''off'', ''none'', ''minimal'', ''low'', ''medium'', ''high'', ''xhigh'', ''max'', ''ultra'']"

definition profile_valid :: "agent_profile \<Rightarrow> workspace_orchestration \<Rightarrow> bool" where
  "profile_valid p w \<longleftrightarrow>
     \<not> is_blank_text (profile_id p) \<and> \<not> is_blank_text (profile_name p) \<and> \<not> is_blank_text (profile_model p) \<and>
     is_none_or (profile_service_tier p) (\<lambda>tier.
       (profile_harness p = Codex \<or> profile_harness p = PrimeAgent) \<and> (tier = ''standard'' \<or> tier = ''fast'')) \<and>
     is_none_or (profile_reasoning p) (\<lambda>level. level \<in> set REASONING_LEVELS) \<and>
     list_all (\<lambda>i. i = profile_id p \<or> list_ex (\<lambda>q. profile_id (sd_value q) = i) (ws_profiles w))
       (profile_allowed_spawn_profile_ids p) \<and>
     list_all (\<lambda>rule. \<not> is_blank_text (rule_tool rule) \<and>
         (\<not> rule_mandatory rule \<or> rule_enforcement rule \<notin> {Advisory, Unsupported}))
       (policy_rules (profile_tool_policy p))"

definition profile_kind :: "agent_profile definition_kind" where
  "profile_kind =
     \<lparr>kind_id = profile_id, kind_values = ws_profiles, kind_put = (\<lambda>vs w. w\<lparr>ws_profiles := vs\<rparr>),
      kind_valid = profile_valid,
      kind_can_delete = (\<lambda>w i.
        \<not> list_ex (\<lambda>t. list_ex (\<lambda>m. member_profile_id m = i) (team_members (sd_value t))) (ws_teams w) \<and>
        \<not> list_ex (\<lambda>p. i \<in> set (profile_allowed_spawn_profile_ids (sd_value p))) (ws_profiles w)),
      kind_after_save = (\<lambda>_ _ w. Inr w), kind_check_references = (\<lambda>_ _ _. Inr ()), kind_check_delete = (\<lambda>_ _. Inr ())\<rparr>"

definition team_valid :: "team_definition \<Rightarrow> workspace_orchestration \<Rightarrow> bool" where
  "team_valid t w \<longleftrightarrow>
     \<not> is_blank_text (team_id t) \<and> \<not> is_blank_text (team_name t) \<and>
     list_all (\<lambda>m. list_ex (\<lambda>p. profile_id (sd_value p) = member_profile_id m) (ws_profiles w)) (team_members t)"

definition team_kind :: "team_definition definition_kind" where
  "team_kind =
     \<lparr>kind_id = team_id, kind_values = ws_teams, kind_put = (\<lambda>vs w. w\<lparr>ws_teams := vs\<rparr>), kind_valid = team_valid,
      kind_can_delete = (\<lambda>w i. \<not> list_ex (\<lambda>c. command_team_id (sd_value c) = i) (ws_commands w)),
      kind_after_save = (\<lambda>_ _ w. Inr w), kind_check_references = (\<lambda>_ _ _. Inr ()),
      kind_check_delete = (\<lambda>w i. check_delete_of w (\<lambda>c. command_team_id c = i))\<rparr>"

definition pipeline_valid :: "serde_json \<Rightarrow> pipeline_definition \<Rightarrow> workspace_orchestration \<Rightarrow> bool" where
  "pipeline_valid sj p w \<longleftrightarrow>
     \<not> is_blank_text (pipeline_id p) \<and> \<not> is_blank_text (pipeline_name p) \<and> is_ok (validate_pipeline_declarations sj p)"

definition pipeline_kind :: "serde_json \<Rightarrow> pipeline_definition definition_kind" where
  "pipeline_kind sj =
     \<lparr>kind_id = pipeline_id, kind_values = ws_pipelines, kind_put = (\<lambda>vs w. w\<lparr>ws_pipelines := vs\<rparr>),
      kind_valid = pipeline_valid sj,
      kind_can_delete = (\<lambda>w i. \<not> list_ex (\<lambda>c. command_pipeline_id (sd_value c) = i) (ws_commands w)),
      kind_after_save = (\<lambda>_ _ w. Inr w),
      kind_check_references = (\<lambda>w previous v.
        and_then (check_saved_pipeline w v) (\<lambda>_.
          check_parents w \<lparr>change_pipeline = Some (pipeline_id v, previous), change_retargeted = None\<rparr>)),
      kind_check_delete = (\<lambda>w i. check_delete_of w (\<lambda>c. command_pipeline_id c = i))\<rparr>"

definition command_valid :: "launch_command_reference \<Rightarrow> workspace_orchestration \<Rightarrow> bool" where
  "command_valid v w \<longleftrightarrow>
     \<not> is_blank_text (command_id v) \<and> \<not> is_blank_text (command_name v) \<and>
     list_ex (\<lambda>t. team_id (sd_value t) = command_team_id v) (ws_teams w) \<and>
     list_ex (\<lambda>p. pipeline_id (sd_value p) = command_pipeline_id v) (ws_pipelines w)"

definition command_can_delete :: "workspace_orchestration \<Rightarrow> string \<Rightarrow> bool" where
  "command_can_delete w i \<longleftrightarrow>
     \<not> list_ex (\<lambda>m. mate_launch_command_id m = i) (ws_teammates w) \<and> \<not> launch_command_referenced w i \<and>
     \<not> list_ex (\<lambda>s. schedule_launch_command_id (stored_value s) = i \<or>
         Option.bind (trigger_event (schedule_trigger_of (stored_value s))) source_launch_command_id = Some i)
       (ws_schedules w)"

text \<open>An edited command disables the schedules that start it when it now runs something else; otherwise the
  enabled ones follow its revision.\<close>

definition reschedule ::
  "'z chrono \<Rightarrow> bool \<Rightarrow> launch_command_reference stored_definition \<Rightarrow> stored_schedule \<Rightarrow> store_error + stored_schedule" where
  "reschedule ch execution_changed saved s =
     (if schedule_launch_command_id (stored_value s) \<noteq> command_id (sd_value saved) then Inr s
      else if execution_changed \<and> stored_enabled s
        then and_then (checked_inc (stored_revision s)) (\<lambda>r.
             and_then (checked_inc (stored_trigger_revision s)) (\<lambda>t.
               Inr (s\<lparr>stored_revision := r, stored_trigger_revision := t, stored_enabled := False,
                      stored_enabled_launch_command_revision := None,
                      stored_next_due_at := initial_due ch (schedule_trigger_of (stored_value s))\<rparr>)))
      else if stored_enabled s then Inr (s\<lparr>stored_enabled_launch_command_revision := Some (sd_revision saved)\<rparr>)
      else Inr s)"

fun reschedule_all ::
  "'z chrono \<Rightarrow> bool \<Rightarrow> launch_command_reference stored_definition \<Rightarrow> stored_schedule list \<Rightarrow> store_error + stored_schedule list" where
  "reschedule_all ch changed saved [] = Inr []"
| "reschedule_all ch changed saved (s # ss) =
     and_then (reschedule ch changed saved s) (\<lambda>s.
     and_then (reschedule_all ch changed saved ss) (\<lambda>ss. Inr (s # ss)))"

definition command_after_save ::
  "'z chrono \<Rightarrow> launch_command_reference stored_definition option \<Rightarrow> launch_command_reference stored_definition \<Rightarrow>
   workspace_orchestration \<Rightarrow> store_error + workspace_orchestration" where
  "command_after_save ch previous saved w =
     (case previous of
        None \<Rightarrow> Inr w
      | Some p \<Rightarrow>
        and_then (reschedule_all ch
            (command_team_id (sd_value p) \<noteq> command_team_id (sd_value saved) \<or>
             command_pipeline_id (sd_value p) \<noteq> command_pipeline_id (sd_value saved)) saved (ws_schedules w))
          (\<lambda>ss. Inr (w\<lparr>ws_schedules := ss\<rparr>)))"

definition retargeted_from :: "string option \<Rightarrow> launch_command_reference \<Rightarrow> (string \<times> string) option" where
  "retargeted_from previous v =
     map_option (Pair (command_id v)) (keep_if (\<lambda>p. p \<noteq> command_pipeline_id v) previous)"

definition command_kind :: "'z chrono \<Rightarrow> launch_command_reference definition_kind" where
  "command_kind ch =
     \<lparr>kind_id = command_id, kind_values = ws_commands, kind_put = (\<lambda>vs w. w\<lparr>ws_commands := vs\<rparr>),
      kind_valid = command_valid, kind_can_delete = command_can_delete, kind_after_save = command_after_save ch,
      kind_check_references = (\<lambda>w previous v.
        and_then (check_reference_cycles w) (\<lambda>_.
          check_parents w \<lparr>change_pipeline = None,
            change_retargeted = retargeted_from (map_option command_pipeline_id previous) v\<rparr>)),
      kind_check_delete = (\<lambda>w i. check_delete_of w (\<lambda>c. command_id c = i))\<rparr>"

section \<open>Graphs\<close>

text \<open>A graph is one pipeline with everything it needs to run, saved together.\<close>

record 'v save_request =
  save_workspace_id :: string
  save_expected_revision :: "64 word option"
  save_request_value :: 'v

record save_graph_request =
  graph_workspace_id :: string
  graph_profiles :: "agent_profile save_request list"
  graph_team :: "team_definition save_request"
  graph_pipeline :: "pipeline_definition save_request"
  graph_command :: "launch_command_reference save_request"

definition graph_saved_value ::
  "'v stored_definition option \<Rightarrow> 64 word option \<Rightarrow> 'v \<Rightarrow> store_error + 'v stored_definition" where
  "graph_saved_value existing expected v =
     (case (existing, expected) of
        (None, None) \<Rightarrow> Inr \<lparr>sd_revision = 0, sd_value = v\<rparr>
      | (Some s, Some e) \<Rightarrow>
          if sd_revision s = e then and_then (checked_inc e) (\<lambda>r. Inr \<lparr>sd_revision = r, sd_value = v\<rparr>)
          else Inl StoreConflict
      | _ \<Rightarrow> Inl StoreConflict)"

definition put_graph_definition ::
  "'v definition_kind \<Rightarrow> 'v save_request \<Rightarrow> workspace_orchestration \<Rightarrow> store_error + workspace_orchestration" where
  "put_graph_definition k req w =
     (if save_workspace_id req \<noteq> ws_id w then Inl StoreInvalid
      else
        (let previous = stored_of k w (kind_id k (save_request_value req)) in
         and_then (graph_saved_value previous (save_expected_revision req) (save_request_value req)) (\<lambda>saved.
           kind_after_save k previous saved (put_value k saved w))))"

fun put_graph_definitions ::
  "'v definition_kind \<Rightarrow> 'v save_request list \<Rightarrow> workspace_orchestration \<Rightarrow> store_error + workspace_orchestration" where
  "put_graph_definitions k [] w = Inr w"
| "put_graph_definitions k (req # reqs) w = and_then (put_graph_definition k req w) (put_graph_definitions k reqs)"

definition graph_snapshot :: "save_graph_request \<Rightarrow> run_definition_snapshot" where
  "graph_snapshot g =
     \<lparr>def_profiles = map save_request_value (graph_profiles g), def_team = save_request_value (graph_team g),
      def_pipeline = save_request_value (graph_pipeline g),
      def_launch_command = Some (save_request_value (graph_command g))\<rparr>"

definition validate_graph_request :: "serde_json \<Rightarrow> save_graph_request \<Rightarrow> store_error + unit" where
  "validate_graph_request sj g =
     (if is_blank_text (graph_workspace_id g) then Inl StoreInvalid
      else
        and_then (map_err (\<lambda>_. StoreInvalid) (validate_definition sj (graph_snapshot g))) (\<lambda>_.
          try_each (\<lambda>parent. try_each (\<lambda>child.
              and_then (map_err (\<lambda>_. StoreDenied) (authorize_spawn (graph_snapshot g) (profile_id parent) child))
                (\<lambda>_. Inr ()))
            (profile_allowed_spawn_profile_ids parent)) (def_profiles (graph_snapshot g))))"

text \<open>The definitions are put in place first, so that the checks of references see the whole graph.\<close>

definition apply_graph ::
  "'z chrono \<Rightarrow> serde_json \<Rightarrow> save_graph_request \<Rightarrow> workspace_orchestration \<Rightarrow> store_error + workspace_orchestration" where
  "apply_graph ch sj g w =
     (let pipeline = save_request_value (graph_pipeline g);
          previous = map_option sd_value (stored_of (pipeline_kind sj) w (pipeline_id pipeline));
          command = save_request_value (graph_command g);
          target = map_option (\<lambda>s. command_pipeline_id (sd_value s)) (stored_of (command_kind ch) w (command_id command)) in
      and_then (put_graph_definitions profile_kind (graph_profiles g) w) (\<lambda>w.
      and_then (put_graph_definition team_kind (graph_team g) w) (\<lambda>w.
      and_then (put_graph_definition (pipeline_kind sj) (graph_pipeline g) w) (\<lambda>w.
      and_then (put_graph_definition (command_kind ch) (graph_command g) w) (\<lambda>w.
      if list_ex (\<lambda>req. \<not> profile_valid (save_request_value req) w) (graph_profiles g) then Inl StoreInvalid
      else
        and_then (check_saved_pipeline w pipeline) (\<lambda>_.
        and_then (check_parents w \<lparr>change_pipeline = Some (pipeline_id pipeline, previous),
                                   change_retargeted = retargeted_from target command\<rparr>) (\<lambda>_. Inr w)))))))"

definition apply_graph_in ::
  "'z chrono \<Rightarrow> serde_json \<Rightarrow> save_graph_request \<Rightarrow> workspace_orchestration list \<Rightarrow>
   store_error + (nat \<times> workspace_orchestration list)" where
  "apply_graph_in ch sj g ws =
     (let index = (case position (\<lambda>w. ws_id w = graph_workspace_id g) ws of None \<Rightarrow> length ws | Some i \<Rightarrow> i) in
      and_then (on_workspace_or_new (graph_workspace_id g)
                  (\<lambda>w. and_then (apply_graph ch sj g w) (\<lambda>w. Inr ((), w))) ws)
        (\<lambda>(_, ws). Inr (index, ws)))"

definition save_graph ::
  "journal_codec \<Rightarrow> 'z chrono \<Rightarrow> serde_json \<Rightarrow> save_graph_request \<Rightarrow> journal \<Rightarrow> (store_error, unit, journal) outcome" where
  "save_graph c ch sj g j =
     (case validate_graph_request sj g of
        Inl e \<Rightarrow> (Inl e, j)
      | Inr _ \<Rightarrow> transact_workspaces c (\<lambda>ws. and_then (apply_graph_in ch sj g ws) (\<lambda>(_, ws). Inr ((), ws))) j)"

end
