(* ===== verification/Definition_Laws.thy ===== *)
theory Definition_Laws
  imports Workspace_Definitions
begin

text \<open>
  What the generic operations on definitions promise, proved once from the laws of the trait
  \<^verbatim>\<open>DefinitionValue\<close> (\<^verbatim>\<open>src/apps/desktop/src-tauri/src/orchestration_api.rs\<close>) and instantiated for agent
  profiles, teams, pipelines and launch commands: a lookup after a save or a deletion, the revision of a
  saved value, and the refusal of an editor with a stale revision.
\<close>

definition kind_ids :: "'v definition_kind \<Rightarrow> workspace_orchestration \<Rightarrow> string list" where
  "kind_ids k w = map (\<lambda>s. kind_id k (sd_value s)) (kind_values k w)"

lemma put_list:
  assumes "position (\<lambda>s. f s = f x) xs = Some i"
  shows "find (\<lambda>s. f s = a) (xs[i := x]) = (if a = f x then Some x else find (\<lambda>s. f s = a) xs)"
    and "map f (xs[i := x]) = map f xs"
proof -
  note p = position_Some[OF assms]
  show "map f (xs[i := x]) = map f xs"
    using p by (simp add: list_eq_iff_nth_eq map_update nth_list_update)
  show "find (\<lambda>s. f s = a) (xs[i := x]) = (if a = f x then Some x else find (\<lambda>s. f s = a) xs)"
    using assms
  proof (induction xs arbitrary: i)
    case (Cons y xs)
    then show ?case by (auto split: if_splits)
  qed simp
qed

lemma find_append_new: "find P (xs @ [x]) = (case find P xs of Some y \<Rightarrow> Some y | None \<Rightarrow> if P x then Some x else None)"
  by (induction xs) auto

lemma remove_at:
  assumes "position (\<lambda>s. f s = a) xs = Some i" "distinct (map f xs)"
  shows "find (\<lambda>s. f s = b) (take i xs @ drop (Suc i) xs) = (if b = a then None else find (\<lambda>s. f s = b) xs)"
    and "map f (take i xs @ drop (Suc i) xs) = remove1 a (map f xs)"
  using assms
proof (induction xs arbitrary: i)
  case (Cons x xs)
  {
    case 1
    then show ?case using Cons.IH by (fastforce split: if_splits simp: find_None_iff' image_iff)
  next
    case 2
    then show ?case using Cons.IH by (auto split: if_splits)
  }
qed simp_all

locale definition_laws =
  fixes k :: "'v definition_kind"
  assumes values_put: "kind_values k (kind_put k vs w) = vs"
    and put_workspace: "ws_id (kind_put k vs w) = ws_id w" "ws_runs (kind_put k vs w) = ws_runs w"
    and after_save: "kind_after_save k p s w = Inr w' \<Longrightarrow>
      kind_values k w' = kind_values k w \<and> ws_id w' = ws_id w \<and> ws_runs w' = ws_runs w"
    and valid_id: "kind_valid k v w \<Longrightarrow> \<not> is_blank_text (kind_id k v)"
begin

lemma values_put_value:
  "stored_of k (put_value k s w) = (stored_of k w)(kind_id k (sd_value s) \<mapsto> s)"
  "kind_ids k (put_value k s w) =
     (if kind_id k (sd_value s) \<in> set (kind_ids k w) then kind_ids k w else kind_ids k w @ [kind_id k (sd_value s)])"
  "ws_id (put_value k s w) = ws_id w" "ws_runs (put_value k s w) = ws_runs w"
proof -
  let ?f = "\<lambda>s. kind_id k (sd_value s)"
  let ?p = "position (\<lambda>t. ?f t = ?f s) (kind_values k w)"
  show "stored_of k (put_value k s w) = (stored_of k w)(?f s \<mapsto> s)"
  proof (cases ?p)
    case None
    then have "put_value k s w = kind_put k (kind_values k w @ [s]) w" by (simp only: put_value_def option.case)
    moreover have "find (\<lambda>t. ?f t = ?f s) (kind_values k w) = None" using None by (simp add: find_None_iff')
    ultimately show ?thesis
      by (auto simp: fun_eq_iff stored_of_def values_put find_append_new split: option.splits)
  next
    case (Some i)
    then show ?thesis using put_list(1)[where f = ?f, OF Some]
      by (auto simp: fun_eq_iff put_value_def stored_of_def values_put)
  qed
  show "kind_ids k (put_value k s w) =
     (if ?f s \<in> set (kind_ids k w) then kind_ids k w else kind_ids k w @ [?f s])"
  proof (cases ?p)
    case None
    then have "put_value k s w = kind_put k (kind_values k w @ [s]) w" by (simp only: put_value_def option.case)
    then show ?thesis using None by (auto simp: kind_ids_def values_put)
  next
    case (Some i)
    have "?f (kind_values k w ! i) = ?f s" "kind_values k w ! i \<in> set (kind_values k w)"
      using position_Some[OF Some] by simp_all
    then have "?f s \<in> set (kind_ids k w)" by (metis (no_types, lifting) imageI kind_ids_def set_map)
    then show ?thesis using Some put_list(2)[OF Some] by (simp add: put_value_def kind_ids_def values_put)
  qed
qed (simp_all add: put_value_def put_workspace split: option.splits)

lemma save_value_ok:
  assumes "save_value k expected v w = Inr (s, w')"
  shows "sd_value s = v" "stored_of k w' = (stored_of k w)(kind_id k v \<mapsto> s)" "ws_id w' = ws_id w" "ws_runs w' = ws_runs w"
    "\<not> is_blank_text (kind_id k v)"
    "expected = map_option sd_revision (stored_of k w (kind_id k v))"
    "sd_revision s = (case expected of None \<Rightarrow> 0 | Some e \<Rightarrow> e + 1)" "expected \<noteq> Some (- 1)"
    "kind_ids k w' = (if kind_id k v \<in> set (kind_ids k w) then kind_ids k w else kind_ids k w @ [kind_id k v])"
proof -
  from assms have v: "kind_valid k v w" and
    saved: "saved_value (stored_of k w (kind_id k v)) expected v = Inr s" and
    after: "kind_after_save k (stored_of k w (kind_id k v)) s (put_value k s w) = Inr w'"
    by (auto simp: save_value_def Let_def split: if_splits)
  from saved show s: "sd_value s = v" and "expected = map_option sd_revision (stored_of k w (kind_id k v))"
    and "sd_revision s = (case expected of None \<Rightarrow> 0 | Some e \<Rightarrow> e + 1)" "expected \<noteq> Some (- 1)"
    by (auto simp: saved_value_def checked_inc_def split: option.splits if_splits)
  note a = after_save[OF after]
  show "stored_of k w' = (stored_of k w)(kind_id k v \<mapsto> s)"
    using a values_put_value(1)[of s w] s unfolding stored_of_def by simp
  show "kind_ids k w' = (if kind_id k v \<in> set (kind_ids k w) then kind_ids k w else kind_ids k w @ [kind_id k v])"
    using a values_put_value(2)[of s w] s unfolding kind_ids_def by simp
  show "ws_id w' = ws_id w" "ws_runs w' = ws_runs w" using a values_put_value(3,4) by simp_all
  show "\<not> is_blank_text (kind_id k v)" by (rule valid_id[OF v])
qed

text \<open>An editor whose revision is not the stored one is refused.\<close>

lemma save_value_stale:
  assumes "expected \<noteq> map_option sd_revision (stored_of k w (kind_id k v))"
  shows "\<exists>e. save_value k expected v w = Inl e"
  using save_value_ok(6)[of expected v w] assms by (cases "save_value k expected v w") auto

lemma delete_value_ok:
  assumes "delete_value k i expected w = Inr (u, w')" "distinct (kind_ids k w)"
  shows "stored_of k w' = (stored_of k w)(i := None)" "kind_ids k w' = remove1 i (kind_ids k w)"
    "Some expected = map_option sd_revision (stored_of k w i)" "ws_id w' = ws_id w" "ws_runs w' = ws_runs w"
    "kind_can_delete k w i" "kind_check_delete k w i = Inr ()"
proof -
  let ?f = "\<lambda>s. kind_id k (sd_value s)"
  from assms(1) obtain n where n: "position (\<lambda>s. ?f s = i) (kind_values k w) = Some n"
      "sd_revision (kind_values k w ! n) = expected"
      "w' = kind_put k (take n (kind_values k w) @ drop (Suc n) (kind_values k w)) w"
      "kind_can_delete k w i" "kind_check_delete k w i = Inr ()"
    by (auto simp: delete_value_def split: if_splits option.splits)
  note d = assms(2)[unfolded kind_ids_def]
  show "stored_of k w' = (stored_of k w)(i := None)"
    using remove_at(1)[OF n(1) d] by (auto simp: fun_eq_iff stored_of_def n(3) values_put)
  show "kind_ids k w' = remove1 i (kind_ids k w)"
    using remove_at(2)[OF n(1) d] by (simp add: kind_ids_def n(3) values_put)
  show "Some expected = map_option sd_revision (stored_of k w i)"
    using n(1,2) by (simp add: stored_of_def position_find)
qed (use assms in \<open>auto simp: delete_value_def put_workspace split: if_splits option.splits\<close>)

text \<open>A part of a graph.\<close>

lemma put_graph_ok:
  assumes "put_graph_definition k req w = Inr w'"
  shows "\<exists>s. sd_value s = save_request_value req \<and> stored_of k w' = (stored_of k w)(kind_id k (save_request_value req) \<mapsto> s)"
    "kind_ids k w' = (if kind_id k (save_request_value req) \<in> set (kind_ids k w) then kind_ids k w
                      else kind_ids k w @ [kind_id k (save_request_value req)])"
    "ws_id w' = ws_id w" "ws_runs w' = ws_runs w"
proof -
  let ?v = "save_request_value req"
  from assms obtain s where
    s: "graph_saved_value (stored_of k w (kind_id k ?v)) (save_expected_revision req) ?v = Inr s" and
    after: "kind_after_save k (stored_of k w (kind_id k ?v)) s (put_value k s w) = Inr w'"
    by (auto simp: put_graph_definition_def Let_def split: if_splits)
  then have v: "sd_value s = ?v" by (auto simp: graph_saved_value_def split: option.splits if_splits)
  note a = after_save[OF after]
  show "\<exists>s. sd_value s = ?v \<and> stored_of k w' = (stored_of k w)(kind_id k ?v \<mapsto> s)"
    using a values_put_value(1)[of s w] v unfolding stored_of_def by (intro exI[of _ s]) simp
  show "kind_ids k w' = (if kind_id k ?v \<in> set (kind_ids k w) then kind_ids k w else kind_ids k w @ [kind_id k ?v])"
    using a values_put_value(2)[of s w] v unfolding kind_ids_def by simp
  show "ws_id w' = ws_id w" "ws_runs w' = ws_runs w" using a values_put_value(3,4) by simp_all
qed

end

interpretation profile_laws: definition_laws profile_kind
  by unfold_locales (auto simp: profile_kind_def profile_valid_def)

interpretation team_laws: definition_laws team_kind
  by unfold_locales (auto simp: team_kind_def team_valid_def)

interpretation pipeline_laws: definition_laws "pipeline_kind sj" for sj
  by unfold_locales (auto simp: pipeline_kind_def pipeline_valid_def)

lemma command_after_save_keeps:
  "command_after_save ch p s w = Inr w' \<Longrightarrow> \<exists>ss. w' = w\<lparr>ws_schedules := ss\<rparr>"
  by (auto simp: command_after_save_def split: option.splits) (metis workspace_orchestration.surjective workspace_orchestration.update_convs(6))

interpretation command_laws: definition_laws "command_kind ch" for ch
  by unfold_locales (auto simp: command_kind_def command_valid_def dest: command_after_save_keeps)

end
