(* ===== verification/Host_Runs.thy ===== *)
theory Host_Runs
  imports Workspace_Definitions Lifecycle
begin

text \<open>
  The runs of the host (\<^verbatim>\<open>OrchestrationApiState\<close> of
  \<^verbatim>\<open>src/apps/desktop/src-tauri/src/orchestration_api.rs\<close>): every operation that the scheduler, a command or
  a managed agent performs on a run of a project. Each is one journal transaction: it finds the run in
  the staged document, calls the coordinator once or several times, and an error discards all of it.

  An operation on a run is a function \<open>run \<Rightarrow> store_error + 'a \<times> run\<close>; \<open>coord\<close> lifts a coordinator
  operation with the translation of its errors, \<open>on_run\<close> lifts the result to the workspaces.
\<close>

section \<open>Changing one run\<close>

type_synonym 'a run_change = "run \<Rightarrow> store_error + ('a \<times> run)"

definition on_run ::
  "string \<Rightarrow> string \<Rightarrow> 'a run_change \<Rightarrow> workspace_orchestration list \<Rightarrow>
   store_error + ('a \<times> workspace_orchestration list)" where
  "on_run wid rid f =
     on_workspace wid (\<lambda>w.
       case position (\<lambda>r. run_id r = rid) (ws_runs w) of
         None \<Rightarrow> Inl StoreNotFound
       | Some i \<Rightarrow> and_then (f (ws_runs w ! i)) (\<lambda>(a, r). Inr (a, w\<lparr>ws_runs := (ws_runs w)[i := r]\<rparr>)))"

definition coord :: "(coordinator_error \<Rightarrow> store_error) \<Rightarrow> (run \<Rightarrow> 'a run_op) \<Rightarrow> 'a run_change" where
  "coord err op r = (case op r of (Inl e, _) \<Rightarrow> Inl (err e) | (Inr a, r') \<Rightarrow> Inr (a, r'))"

text \<open>\<^verbatim>\<open>Ok(run.clone())\<close>.\<close>

definition returning :: "'a run_change \<Rightarrow> run run_change" where
  "returning f r = and_then (f r) (\<lambda>(_, r'). Inr (r', r'))"

definition then_run :: "'a run_change \<Rightarrow> ('a \<Rightarrow> 'b run_change) \<Rightarrow> 'b run_change" where
  "then_run f g r = and_then (f r) (\<lambda>(a, r'). g a r')"

definition current_revision :: "(revision \<Rightarrow> run \<Rightarrow> 'a run_op) \<Rightarrow> run \<Rightarrow> 'a run_op" where
  "current_revision op r = op (run_revision r) r"

text \<open>The translations of the coordinator's errors.\<close>

definition any_conflict :: "coordinator_error \<Rightarrow> store_error" where
  "any_conflict e = StoreConflict"

fun flow_error :: "coordinator_error \<Rightarrow> store_error" where
  "flow_error (RevisionConflict _ _ _) = StoreConflict"
| "flow_error _ = StoreInvalid"

fun task_error :: "coordinator_error \<Rightarrow> store_error" where
  "task_error (RevisionConflict _ _ _) = StoreConflict"
| "task_error (UnknownTask _) = StoreNotFound"
| "task_error _ = StoreInvalid"

fun lease_error :: "coordinator_error \<Rightarrow> store_error" where
  "lease_error (RevisionConflict _ _ _) = StoreConflict"
| "lease_error (LeaseConflict _) = StoreConflict"
| "lease_error _ = StoreInvalid"

fun uncertain_error :: "coordinator_error \<Rightarrow> store_error" where
  "uncertain_error (RevisionConflict _ _ _) = StoreConflict"
| "uncertain_error (StaleExecution _) = StoreConflict"
| "uncertain_error (UnknownTask _) = StoreNotFound"
| "uncertain_error _ = StoreInvalid"

fun request_error :: "coordinator_error \<Rightarrow> store_error" where
  "request_error (AgentRequestConflict _) = StoreConflict"
| "request_error (RevisionConflict _ _ _) = StoreConflict"
| "request_error _ = StoreInvalid"

fun message_error :: "coordinator_error \<Rightarrow> store_error" where
  "message_error (Authorization _) = StoreDenied"
| "message_error (RevisionConflict _ _ _) = StoreConflict"
| "message_error _ = StoreInvalid"

fun spawn_error :: "coordinator_error \<Rightarrow> store_error" where
  "spawn_error (Authorization _) = StoreDenied"
| "spawn_error (RevisionConflict _ _ _) = StoreConflict"
| "spawn_error (LeaseConflict _) = StoreConflict"
| "spawn_error (UnknownTask _) = StoreNotFound"
| "spawn_error _ = StoreInvalid"

fun api_error :: "coordinator_error \<Rightarrow> store_error" where
  "api_error (RevisionConflict _ _ _) = StoreConflict"
| "api_error (UnknownTask _) = StoreNotFound"
| "api_error (UnknownMessage _) = StoreNotFound"
| "api_error (Authorization _) = StoreDenied"
| "api_error _ = StoreInvalid"

section \<open>Starting runs\<close>

definition workspace_snapshot ::
  "workspace_orchestration \<Rightarrow> team_definition \<Rightarrow> pipeline_definition \<Rightarrow> launch_command_reference option \<Rightarrow>
   run_definition_snapshot" where
  "workspace_snapshot w team pipeline command =
     \<lparr>def_profiles = map sd_value (ws_profiles w), def_team = team, def_pipeline = pipeline,
      def_launch_command = command\<rparr>"

fun start_error :: "coordinator_error \<Rightarrow> store_error" where
  "start_error NoPinnedData = StoreConflict"
| "start_error _ = StoreInvalid"

definition find_value :: "('v \<Rightarrow> bool) \<Rightarrow> 'v stored_definition list \<Rightarrow> store_error + 'v" where
  "find_value P vs = (case find (\<lambda>s. P (sd_value s)) vs of None \<Rightarrow> Inl StoreNotFound | Some s \<Rightarrow> Inr (sd_value s))"

definition create_run_value ::
  "serde_json \<Rightarrow> start_run_request \<Rightarrow> run_trigger option \<Rightarrow> workspace_orchestration \<Rightarrow>
   store_error + (run \<times> workspace_orchestration)" where
  "create_run_value sj req trigger w =
     (if list_ex (\<lambda>r. run_id r = start_run_id req) (ws_runs w) then Inl StoreAlreadyExists
      else
        and_then (find_value (\<lambda>t. team_id t = start_team_id req) (ws_teams w)) (\<lambda>team.
        and_then (find_value (\<lambda>p. pipeline_id p = start_pipeline_id req) (ws_pipelines w)) (\<lambda>pipeline.
        and_then (case start_launch_command_id req of
            None \<Rightarrow> Inr None
          | Some i \<Rightarrow> and_then (find_value (\<lambda>c. command_id c = i) (ws_commands w)) (\<lambda>c. Inr (Some c))) (\<lambda>command.
        and_then (map_err start_error
            (new_started_run sj (start_run_id req) (workspace_snapshot w team pipeline command)
               (start_inputs req) trigger (start_use_pinned_data req))) (\<lambda>r.
          Inr (r, w\<lparr>ws_runs := ws_runs w @ [r]\<rparr>))))))"

definition create_run_in ::
  "serde_json \<Rightarrow> start_run_request \<Rightarrow> run_trigger option \<Rightarrow> workspace_orchestration list \<Rightarrow>
   store_error + (run \<times> workspace_orchestration list)" where
  "create_run_in sj req trigger = on_workspace (start_workspace_id req) (create_run_value sj req trigger)"

definition MAX_CHAT_SESSION_ID_BYTES :: nat where "MAX_CHAT_SESSION_ID_BYTES = 128"

fun trigger_session_too_long :: "run_trigger \<Rightarrow> bool" where
  "trigger_session_too_long (ChatTrigger (Some i)) = (MAX_CHAT_SESSION_ID_BYTES < length i)"
| "trigger_session_too_long _ = False"

datatype start_run_trigger = StartChat "string option"

fun into_run_trigger :: "start_run_trigger \<Rightarrow> run_trigger" where
  "into_run_trigger (StartChat session) = ChatTrigger session"

definition create_run_with_trigger ::
  "journal_codec \<Rightarrow> serde_json \<Rightarrow> start_run_request \<Rightarrow> start_run_trigger option \<Rightarrow> journal \<Rightarrow>
   (store_error, run, journal) outcome" where
  "create_run_with_trigger c sj req trigger j =
     (let trigger = map_option into_run_trigger trigger in
      if is_blank_text (start_workspace_id req) \<or>
         is_some_and trigger (\<lambda>t. \<not> trigger_is_valid t \<or> trigger_session_too_long t) then (Inl StoreInvalid, j)
      else transact_workspaces c (create_run_in sj req trigger) j)"

fun is_board_trigger :: "run_trigger \<Rightarrow> bool" where
  "is_board_trigger (BoardTrigger _ _ _ _) = True"
| "is_board_trigger _ = False"

definition create_board_run ::
  "journal_codec \<Rightarrow> serde_json \<Rightarrow> start_run_request \<Rightarrow> run_trigger \<Rightarrow> journal \<Rightarrow> (store_error, run, journal) outcome" where
  "create_board_run c sj req trigger j =
     (if is_blank_text (start_workspace_id req) \<or> \<not> is_board_trigger trigger \<or> \<not> trigger_is_valid trigger
      then (Inl StoreInvalid, j)
      else transact_workspaces c (create_run_in sj req (Some trigger)) j)"

section \<open>Operations of the scheduler and of a person\<close>

definition transact_run ::
  "journal_codec \<Rightarrow> string \<Rightarrow> string \<Rightarrow> 'a run_change \<Rightarrow> journal \<Rightarrow> (store_error, 'a, journal) outcome" where
  "transact_run c wid rid f = transact_workspaces c (on_run wid rid f)"

text \<open>\<^verbatim>\<open>control_flow\<close>.\<close>

definition host_control_flow :: "revision \<Rightarrow> flow_action \<Rightarrow> run run_change" where
  "host_control_flow expected action = returning (coord flow_error (control_flow action expected))"

text \<open>\<^verbatim>\<open>advance_automatic_steps\<close>.\<close>

definition host_advance :: "serde_json \<Rightarrow> run run_change" where
  "host_advance sj r = Inr (advance_automatic sj r, advance_automatic sj r)"

text \<open>\<^verbatim>\<open>retry_uncertain_in\<close>, and the transaction of \<^verbatim>\<open>orchestration_reconcile_uncertain_task_v6\<close>.\<close>

definition host_retry_uncertain :: "revision \<Rightarrow> string \<Rightarrow> revision \<Rightarrow> run run_change" where
  "host_retry_uncertain expected i task_rev = returning (coord task_error (retry_uncertain_task i task_rev expected))"

definition host_reconcile :: "revision \<Rightarrow> string \<Rightarrow> revision \<Rightarrow> uncertain_resolution \<Rightarrow> run run_change" where
  "host_reconcile expected i task_rev resolution =
     returning (coord task_error (reconcile_uncertain_task i task_rev resolution expected))"

definition lease_next_scheduled_task ::
  "serde_json \<Rightarrow> revision \<Rightarrow> string \<Rightarrow> native_bridge_capabilities \<Rightarrow> controlled_spawn_lease option run_change" where
  "lease_next_scheduled_task sj expected lease_id caps =
     then_run (coord api_error (lease_next_task sj expected lease_id)) (\<lambda>lease r.
       if is_some_and lease (\<lambda>l. \<not> is_ok (validate_profile_capabilities (lease_profile l) caps)) then Inl StoreInvalid
       else Inr (lease, r))"

definition host_lease_script :: "serde_json \<Rightarrow> revision \<Rightarrow> string \<Rightarrow> script_lease option run_change" where
  "host_lease_script sj expected lease_id = coord api_error (lease_next_script sj lease_id expected)"

definition host_lease_plugin :: "serde_json \<Rightarrow> revision \<Rightarrow> string \<Rightarrow> plugin_step_lease option run_change" where
  "host_lease_plugin sj expected lease_id = coord api_error (lease_next_plugin_step sj lease_id expected)"

definition host_lease_pipeline :: "serde_json \<Rightarrow> revision \<Rightarrow> string \<Rightarrow> pipeline_step_lease option run_change" where
  "host_lease_pipeline sj expected lease_id = coord api_error (lease_next_pipeline_step sj lease_id expected)"

text \<open>The task revision that several operations read from the run they are about to change.\<close>

definition with_task_revision :: "string \<Rightarrow> (revision \<Rightarrow> 'a run_change) \<Rightarrow> 'a run_change" where
  "with_task_revision i f r =
     (case find (\<lambda>t. task_step_id t = i) (run_tasks r) of
        None \<Rightarrow> Inl StoreNotFound
      | Some t \<Rightarrow> f (task_revision t) r)"

definition record_pipeline_outcome ::
  "serde_json \<Rightarrow> string \<Rightarrow> string \<Rightarrow> pipeline_completion \<Rightarrow> run run_change" where
  "record_pipeline_outcome sj i child completion =
     with_task_revision i (\<lambda>task_rev.
       returning (coord any_conflict (current_revision (complete_pipeline_task sj i task_rev child completion))))"

definition commit_script_lease :: "'x host_lease_scheme \<Rightarrow> string \<Rightarrow> run run_change" where
  "commit_script_lease lease execution =
     returning (coord lease_error (current_revision
       (dispatch_leased_script (hl_step_id lease) (hl_task_revision lease) (hl_lease_id lease) \<lparr>execution_id = execution\<rparr>)))"

definition reject_leased :: "string \<Rightarrow> revision \<Rightarrow> string \<Rightarrow> string \<Rightarrow> run run_change" where
  "reject_leased i task_rev lease_id code =
     then_run (coord any_conflict (current_revision (release_task_lease i task_rev lease_id))) (\<lambda>_.
     with_task_revision i (\<lambda>task_rev.
       returning (coord any_conflict (current_revision (reject_ready_task i task_rev (failure_new code))))))"

definition reject_leased_script :: "'x host_lease_scheme \<Rightarrow> string \<Rightarrow> run run_change" where
  "reject_leased_script lease code = reject_leased (hl_step_id lease) (hl_task_revision lease) (hl_lease_id lease) code"

definition reject_leased_task :: "controlled_spawn_lease \<Rightarrow> string \<Rightarrow> run run_change" where
  "reject_leased_task lease code =
     reject_leased (lease_step_id lease) (lease_task_revision lease) (lease_lease_id lease) code"

definition release_script_lease :: "'x host_lease_scheme \<Rightarrow> run run_change" where
  "release_script_lease lease =
     returning (coord any_conflict (current_revision
       (release_task_lease (hl_step_id lease) (hl_task_revision lease) (hl_lease_id lease))))"

definition record_script_outcome :: "serde_json \<Rightarrow> string \<Rightarrow> string \<Rightarrow> script_completion \<Rightarrow> run run_change" where
  "record_script_outcome sj i execution completion =
     with_task_revision i (\<lambda>task_rev.
       returning (coord any_conflict (current_revision (complete_script_task sj i task_rev execution completion))))"

definition host_reject_ready :: "string \<Rightarrow> revision \<Rightarrow> string \<Rightarrow> run run_change" where
  "host_reject_ready i task_rev code =
     returning (coord task_error (current_revision (reject_ready_task i task_rev (failure_new code))))"

definition plan_cancel :: "journal \<Rightarrow> string \<Rightarrow> string \<Rightarrow> revision \<Rightarrow> store_error + cancel_request list" where
  "plan_cancel j wid rid expected =
     (case Option.bind (snapshot_workspace (journal_current j) wid) (\<lambda>w. find (\<lambda>r. run_id r = rid) (ws_runs w)) of
        None \<Rightarrow> Inl StoreNotFound
      | Some r \<Rightarrow> map_err api_error (cancellation_requests expected r))"

definition commit_cancel_after_native_stop :: "revision \<Rightarrow> string option \<Rightarrow> run run_change" where
  "commit_cancel_after_native_stop expected step =
     (case step of
        Some i \<Rightarrow> returning (coord flow_error (cancel_task i expected))
      | None \<Rightarrow> returning (coord flow_error (cancel_run expected)))"

definition host_mark_uncertain :: "string \<Rightarrow> revision \<Rightarrow> uncertainty_identity \<Rightarrow> run run_change" where
  "host_mark_uncertain i task_rev identity =
     returning (coord uncertain_error (current_revision (mark_task_uncertain i task_rev identity)))"

definition record_terminal_event ::
  "serde_json \<Rightarrow> string \<Rightarrow> revision \<Rightarrow> string \<Rightarrow> completion_outcome \<Rightarrow> string option \<Rightarrow> run run_change" where
  "record_terminal_event sj i task_rev session outcome result =
     returning (coord any_conflict (current_revision (complete_checked_task sj i task_rev session outcome result)))"

definition commit_launch_lease ::
  "serde_json \<Rightarrow> controlled_spawn_lease \<Rightarrow> string \<Rightarrow> launch_request run_change" where
  "commit_launch_lease sj lease session =
     coord lease_error (current_revision
       (dispatch_leased_task sj (lease_step_id lease) (lease_task_revision lease) (lease_lease_id lease)
          \<lparr>execution_id = session\<rparr>))"

definition release_spawn_lease :: "controlled_spawn_lease \<Rightarrow> unit run_change" where
  "release_spawn_lease lease =
     coord any_conflict (current_revision
       (release_task_lease (lease_step_id lease) (lease_task_revision lease) (lease_lease_id lease)))"

definition mark_managed_message_delivered :: "string \<Rightarrow> run run_change" where
  "mark_managed_message_delivered mid r =
     (case find (\<lambda>m. message_id m = mid) (run_messages r) of
        None \<Rightarrow> Inl StoreNotFound
      | Some m \<Rightarrow>
        returning (coord any_conflict (current_revision (mark_message_delivered mid (message_revision m)))) r)"

end
