(* ===== verification/Automations.thy ===== *)
theory Automations
  imports Host_Runs Step_Output "HOL-Library.Product_Lexorder"
begin

text \<open>
  Automations of the host (\<^verbatim>\<open>src/apps/desktop/src-tauri/src/orchestration_api.rs\<close>): schedules are saved,
  enabled and deleted, and a due time or an observed event is claimed. A claim decides the outcome,
  records the occurrence and creates the run in one journal transaction.

  Adding seconds to an instant is addition; \<^verbatim>\<open>chrono\<close> panics outside its range of some 524,000 years. The
  order of \<open>due.sort()\<close> is the lexicographic order of tuples.
\<close>

section \<open>Saving schedules\<close>

definition event_source_saved :: "workspace_orchestration \<Rightarrow> schedule_definition \<Rightarrow> bool" where
  "event_source_saved w s =
     is_none_or (Option.bind (trigger_event (schedule_trigger_of s)) source_launch_command_id)
       (\<lambda>source. list_ex (\<lambda>c. command_id (sd_value c) = source) (ws_commands w))"

datatype schedule_input_error = TargetUnavailable | InvalidScheduleInput run_input_error

definition schedule_run_inputs ::
  "workspace_orchestration \<Rightarrow> schedule_definition \<Rightarrow> schedule_input_error + json_map" where
  "schedule_run_inputs w s =
     (case Option.bind (find (\<lambda>c. command_id (sd_value c) = schedule_launch_command_id s) (ws_commands w))
        (\<lambda>c. find (\<lambda>p. pipeline_id (sd_value p) = command_pipeline_id (sd_value c)) (ws_pipelines w)) of
        None \<Rightarrow> Inl TargetUnavailable
      | Some p \<Rightarrow> map_err InvalidScheduleInput (resolve_run_inputs (pipeline_inputs (sd_value p)) (schedule_inputs s)))"

definition new_schedule :: "'z chrono \<Rightarrow> schedule_definition \<Rightarrow> stored_schedule" where
  "new_schedule ch v =
     \<lparr>stored_revision = 0, stored_trigger_revision = 0, stored_value = v, stored_enabled = False,
      stored_enabled_launch_command_revision = None, stored_next_due_at = initial_due ch (schedule_trigger_of v),
      stored_occurrences = []\<rparr>"

definition edited_schedule ::
  "'z chrono \<Rightarrow> schedule_definition \<Rightarrow> stored_schedule \<Rightarrow> store_error + stored_schedule" where
  "edited_schedule ch v s =
     and_then (checked_inc (stored_revision s)) (\<lambda>next.
       (let changed = \<not> execution_equals (stored_value s) v; s = s\<lparr>stored_revision := next, stored_value := v\<rparr> in
        if changed
        then and_then (checked_inc (stored_trigger_revision s)) (\<lambda>trev.
               Inr (s\<lparr>stored_trigger_revision := trev, stored_enabled := False,
                      stored_enabled_launch_command_revision := None,
                      stored_next_due_at := initial_due ch (schedule_trigger_of v)\<rparr>))
        else Inr s))"

definition schedule_index :: "workspace_orchestration \<Rightarrow> string \<Rightarrow> nat option" where
  "schedule_index w i = position (\<lambda>s. schedule_id (stored_value s) = i) (ws_schedules w)"

definition save_schedule_value ::
  "'z chrono \<Rightarrow> 64 word option \<Rightarrow> schedule_definition \<Rightarrow> workspace_orchestration \<Rightarrow>
   store_error + (schedule_snapshot \<times> workspace_orchestration)" where
  "save_schedule_value ch expected v w =
     (if \<not> list_ex (\<lambda>c. command_id (sd_value c) = schedule_launch_command_id v) (ws_commands w) \<or> \<not> event_source_saved w v
      then Inl StoreInvalid
      else
        and_then (map_err (\<lambda>_. StoreInvalid) (schedule_run_inputs w v)) (\<lambda>_.
        (case (schedule_index w (schedule_id v), expected) of
           (None, None) \<Rightarrow>
             Inr (schedule_snapshot_of (new_schedule ch v), w\<lparr>ws_schedules := ws_schedules w @ [new_schedule ch v]\<rparr>)
         | (None, Some _) \<Rightarrow> Inl StoreNotFound
         | (Some _, None) \<Rightarrow> Inl StoreAlreadyExists
         | (Some i, Some e) \<Rightarrow>
           if stored_revision (ws_schedules w ! i) \<noteq> e then Inl StoreConflict
           else and_then (edited_schedule ch v (ws_schedules w ! i)) (\<lambda>s.
                  Inr (schedule_snapshot_of s, w\<lparr>ws_schedules := (ws_schedules w)[i := s]\<rparr>)))))"

definition save_schedule ::
  "journal_codec \<Rightarrow> 'z chrono \<Rightarrow> string \<Rightarrow> 64 word option \<Rightarrow> schedule_definition \<Rightarrow> journal \<Rightarrow>
   (store_error, schedule_snapshot, journal) outcome" where
  "save_schedule c ch wid expected v j =
     (if is_blank_text wid \<or> \<not> schedule_validate ch v then (Inl StoreInvalid, j)
      else transact_workspaces c (on_workspace wid (save_schedule_value ch expected v)) j)"

definition runnable_revision :: "workspace_orchestration \<Rightarrow> schedule_definition \<Rightarrow> 64 word option" where
  "runnable_revision w v =
     map_option sd_revision
       (find (\<lambda>c. command_id (sd_value c) = schedule_launch_command_id v \<and>
          list_ex (\<lambda>t. team_id (sd_value t) = command_team_id (sd_value c)) (ws_teams w) \<and>
          list_ex (\<lambda>p. pipeline_id (sd_value p) = command_pipeline_id (sd_value c)) (ws_pipelines w)) (ws_commands w))"

definition enable_schedule ::
  "bool \<Rightarrow> 64 word option \<Rightarrow> stored_schedule \<Rightarrow> store_error + stored_schedule" where
  "enable_schedule enabled runnable s =
     (let target = (if enabled then runnable else None) in
      if stored_enabled s \<noteq> enabled \<or> stored_enabled_launch_command_revision s \<noteq> target
      then and_then (checked_inc (stored_revision s)) (\<lambda>r.
             Inr (s\<lparr>stored_revision := r, stored_enabled := enabled, stored_enabled_launch_command_revision := target\<rparr>))
      else Inr s)"

definition set_enabled_value ::
  "string \<Rightarrow> 64 word \<Rightarrow> bool \<Rightarrow> workspace_orchestration \<Rightarrow> store_error + (schedule_snapshot \<times> workspace_orchestration)" where
  "set_enabled_value i expected enabled w =
     (case schedule_index w i of
        None \<Rightarrow> Inl StoreNotFound
      | Some n \<Rightarrow>
        (let s = ws_schedules w ! n; runnable = runnable_revision w (stored_value s);
             spent = (trigger_event (schedule_trigger_of (stored_value s)) = None \<and> stored_next_due_at s = None) in
         if stored_revision s \<noteq> expected then Inl StoreConflict
         else if enabled \<and> (spent \<or> runnable = None \<or> \<not> event_source_saved w (stored_value s)) then Inl StoreInvalid
         else
           and_then (if enabled then map_err (\<lambda>_. StoreInvalid) (schedule_run_inputs w (stored_value s)) else Inr []) (\<lambda>_.
           and_then (enable_schedule enabled runnable s) (\<lambda>s.
             Inr (schedule_snapshot_of s, w\<lparr>ws_schedules := (ws_schedules w)[n := s]\<rparr>)))))"

definition set_schedule_enabled ::
  "journal_codec \<Rightarrow> string \<Rightarrow> string \<Rightarrow> 64 word \<Rightarrow> bool \<Rightarrow> journal \<Rightarrow> (store_error, schedule_snapshot, journal) outcome" where
  "set_schedule_enabled c wid i expected enabled = api_transact c wid (on_workspace wid (set_enabled_value i expected enabled))"

definition delete_schedule_value ::
  "string \<Rightarrow> 64 word \<Rightarrow> workspace_orchestration \<Rightarrow> store_error + (unit \<times> workspace_orchestration)" where
  "delete_schedule_value i expected w =
     (case schedule_index w i of
        None \<Rightarrow> Inl StoreNotFound
      | Some n \<Rightarrow>
        if stored_revision (ws_schedules w ! n) \<noteq> expected then Inl StoreConflict
        else Inr ((), w\<lparr>ws_schedules := take n (ws_schedules w) @ drop (Suc n) (ws_schedules w)\<rparr>))"

definition delete_schedule ::
  "journal_codec \<Rightarrow> string \<Rightarrow> string \<Rightarrow> 64 word \<Rightarrow> journal \<Rightarrow> (store_error, unit, journal) outcome" where
  "delete_schedule c wid i expected = api_transact c wid (on_workspace wid (delete_schedule_value i expected))"

section \<open>Due schedules\<close>

definition next_schedule_due :: "journal \<Rightarrow> instant option" where
  "next_schedule_due j =
     (let due = List.map_filter stored_next_due_at
        (filter stored_enabled (concat (map ws_schedules (store_workspaces (journal_current j))))) in
      if due = [] then None else Some (Min (set due)))"

definition due_schedule_keys :: "journal \<Rightarrow> instant \<Rightarrow> (string \<times> string \<times> 64 word) list" where
  "due_schedule_keys j now =
     sort (concat (map (\<lambda>w. map (\<lambda>s. (ws_id w, schedule_id (stored_value s), stored_revision s))
       (filter (\<lambda>s. stored_enabled s \<and> is_some_and (stored_next_due_at s) (\<lambda>t. t \<le> now)) (ws_schedules w)))
       (store_workspaces (journal_current j))))"

section \<open>Claims\<close>

definition run_is_active :: "run list \<Rightarrow> string \<Rightarrow> bool" where
  "run_is_active runs rid = is_some_and (find (\<lambda>r. run_id r = rid) runs) (\<lambda>r. run_status r \<in> {RunRunning, RunUncertain})"

definition MAX_TRIGGER_LABEL_BYTES :: nat where "MAX_TRIGGER_LABEL_BYTES = 256"

fun blank_controls :: "string \<Rightarrow> string" where
  "blank_controls [] = []"
| "blank_controls (c # s) =
     (if c1_control c s then CHR '' '' # blank_controls (tl s)
      else if is_ascii_control c then CHR '' '' # blank_controls s
      else c # blank_controls s)"

definition trigger_label :: "string \<Rightarrow> string" where
  "trigger_label name = trim_end (fst (bounded_text (blank_controls (trim name)) MAX_TRIGGER_LABEL_BYTES))"

definition schedule_run_request ::
  "workspace_orchestration \<Rightarrow> string \<Rightarrow> schedule_definition \<Rightarrow> string \<Rightarrow> store_error + start_run_request" where
  "schedule_run_request w wid s rid =
     and_then (find_value (\<lambda>c. command_id c = schedule_launch_command_id s) (ws_commands w)) (\<lambda>c.
       Inr \<lparr>start_workspace_id = wid, start_run_id = rid, start_team_id = command_team_id c,
            start_pipeline_id = command_pipeline_id c, start_launch_command_id = Some (command_id c),
            start_inputs = schedule_inputs s, start_use_pinned_data = False\<rparr>)"

fun store_error_code :: "store_error \<Rightarrow> string" where
  "store_error_code StoreConflict = ''conflict''"
| "store_error_code StoreAlreadyExists = ''already-exists''"
| "store_error_code StoreNotFound = ''not-found''"
| "store_error_code StoreInvalid = ''invalid''"
| "store_error_code StoreDenied = ''denied''"
| "store_error_code (StoreRefused code) = code"
| "store_error_code StoreIo = ''io''"

definition LAUNCH_COMMAND_CHANGED :: string where "LAUNCH_COMMAND_CHANGED = ''launch-command-changed''"

text \<open>What a claim decides: the outcome, the failure code, and the run with the workspace that holds it.\<close>

record claim_decision =
  decided_outcome :: schedule_occurrence_outcome
  decided_failure :: "string option"
  decided_run :: "run option"
  decided_workspace :: workspace_orchestration

definition decided :: "schedule_occurrence_outcome \<Rightarrow> string option \<Rightarrow> workspace_orchestration \<Rightarrow> claim_decision" where
  "decided outcome code w =
     \<lparr>decided_outcome = outcome, decided_failure = code, decided_run = None, decided_workspace = w\<rparr>"

text \<open>\<^verbatim>\<open>create_run_in\<close> on the workspace that is being claimed: the request names this workspace, and both
  look for the first one with that identity.\<close>

definition start_claimed ::
  "serde_json \<Rightarrow> schedule_definition \<Rightarrow> string \<Rightarrow> run_trigger \<Rightarrow> workspace_orchestration \<Rightarrow> claim_decision" where
  "start_claimed sj s key trigger w =
     (case and_then (schedule_run_request w (ws_id w) s key) (\<lambda>req. create_run_value sj req (Some trigger) w) of
        Inr (r, w') \<Rightarrow>
          \<lparr>decided_outcome = OccurrenceStarted, decided_failure = None, decided_run = Some r, decided_workspace = w'\<rparr>
      | Inl e \<Rightarrow> decided OccurrenceFailed (Some (store_error_code e)) w)"

definition overlaps :: "workspace_orchestration \<Rightarrow> stored_schedule \<Rightarrow> bool" where
  "overlaps w s \<longleftrightarrow>
     schedule_overlap_policy (stored_value s) = OverlapSkip \<and>
     list_ex (\<lambda>occ. is_some_and (occurrence_run_id occ) (run_is_active (ws_runs w))) (stored_occurrences s)"

definition command_changed :: "workspace_orchestration \<Rightarrow> stored_schedule \<Rightarrow> bool" where
  "command_changed w s \<longleftrightarrow>
     stored_enabled_launch_command_revision s \<noteq>
       map_option sd_revision
         (find (\<lambda>c. command_id (sd_value c) = schedule_launch_command_id (stored_value s)) (ws_commands w))"

record schedule_claim =
  claim_schedule :: schedule_snapshot
  claim_run :: "run option"

definition record_claim ::
  "nat \<Rightarrow> claim_decision \<Rightarrow> schedule_occurrence \<Rightarrow> (stored_schedule \<Rightarrow> stored_schedule) \<Rightarrow>
   store_error + (schedule_claim \<times> workspace_orchestration)" where
  "record_claim n d occ change =
     (let w = decided_workspace d; s = ws_schedules w ! n in
      and_then (checked_inc (stored_revision s)) (\<lambda>next.
        (let s = change (s\<lparr>stored_revision := next\<rparr>);
             s = s\<lparr>stored_occurrences := push_occurrence (stored_occurrences s) occ (run_is_active (ws_runs w))\<rparr> in
         Inr (\<lparr>claim_schedule = schedule_snapshot_of s, claim_run = decided_run d\<rparr>,
              w\<lparr>ws_schedules := (ws_schedules w)[n := s]\<rparr>))))"

definition claimed_occurrence ::
  "string \<Rightarrow> instant \<Rightarrow> instant \<Rightarrow> claim_decision \<Rightarrow> string option \<Rightarrow> 8 word option \<Rightarrow> schedule_occurrence" where
  "claimed_occurrence key nominal now d source depth =
     \<lparr>occurrence_identity = key, occurrence_nominal_at = nominal, occurrence_recorded_at = now,
      occurrence_outcome = decided_outcome d, occurrence_run_id = map_option run_id (decided_run d),
      occurrence_failure_code = decided_failure d, occurrence_source_run_id = source, occurrence_chain_depth = depth\<rparr>"

definition disable_if :: "bool \<Rightarrow> stored_schedule \<Rightarrow> stored_schedule" where
  "disable_if b s = (if b then s\<lparr>stored_enabled := False, stored_enabled_launch_command_revision := None\<rparr> else s)"

definition advance_due :: "instant option \<Rightarrow> bool \<Rightarrow> stored_schedule \<Rightarrow> stored_schedule" where
  "advance_due following changed s = disable_if (following = None \<or> changed) (s\<lparr>stored_next_due_at := following\<rparr>)"

definition decide_due ::
  "serde_json \<Rightarrow> string option \<Rightarrow> bool \<Rightarrow> string \<Rightarrow> stored_schedule \<Rightarrow> workspace_orchestration \<Rightarrow> claim_decision" where
  "decide_due sj admission_failure missed key s w =
     (if command_changed w s then decided OccurrenceFailed (Some LAUNCH_COMMAND_CHANGED) w
      else if admission_failure \<noteq> None then decided OccurrenceFailed admission_failure w
      else if overlaps w s then decided SkippedOverlap None w
      else if missed \<and> schedule_missed_run_policy (stored_value s) = MissedSkip then decided SkippedMissed None w
      else start_claimed sj (stored_value s) key
             (ScheduleTrigger (schedule_id (stored_value s)) (trigger_label (schedule_name (stored_value s))) key) w)"

definition claim_due_value ::
  "(string \<Rightarrow> string) \<Rightarrow> 'z chrono \<Rightarrow> serde_json \<Rightarrow> string \<Rightarrow> 64 word \<Rightarrow> instant \<Rightarrow> instant \<Rightarrow> string option \<Rightarrow>
   workspace_orchestration \<Rightarrow> store_error + (schedule_claim \<times> workspace_orchestration)" where
  "claim_due_value sha256 ch sj i expected now host_started_at admission_failure w =
     (case schedule_index w i of
        None \<Rightarrow> Inl StoreNotFound
      | Some n \<Rightarrow>
        (let s = ws_schedules w ! n; v = stored_value s in
         if stored_revision s \<noteq> expected \<or> \<not> stored_enabled s then Inl StoreConflict
         else
           (case stored_next_due_at s of
              None \<Rightarrow> Inl StoreConflict
            | Some due \<Rightarrow>
              if now < due then Inl StoreConflict
              else
                (let nominal = (case latest_at_or_before ch (schedule_trigger_of v) now of Some t \<Rightarrow> t | None \<Rightarrow> due);
                     missed = (due < host_started_at \<or> due < nominal);
                     key = occurrence_id sha256 (schedule_id v) (stored_trigger_revision s) nominal;
                     d = decide_due sj admission_failure missed key s w;
                     changed = command_changed w s;
                     following = first_after ch (schedule_trigger_of v) nominal;
                     occ = claimed_occurrence key nominal now d None None in
                 record_claim n d occ (advance_due following changed)))))"

definition claim_due_schedule ::
  "(string \<Rightarrow> string) \<Rightarrow> journal_codec \<Rightarrow> 'z chrono \<Rightarrow> serde_json \<Rightarrow> string \<Rightarrow> string \<Rightarrow> 64 word \<Rightarrow> instant \<Rightarrow> instant \<Rightarrow>
   string option \<Rightarrow> journal \<Rightarrow> (store_error, schedule_claim, journal) outcome" where
  "claim_due_schedule sha256 c ch sj wid i expected now host_started_at admission_failure =
     transact_automations c (\<lambda>paused ws.
       if paused then Inl StoreConflict
       else on_workspace wid (claim_due_value sha256 ch sj i expected now host_started_at admission_failure) ws)"

section \<open>Events\<close>

text \<open>What the engine of \<^verbatim>\<open>orchestration_triggers.rs\<close> hands to a claim.\<close>

definition EVENT_COOLDOWN_SECONDS :: int where "EVENT_COOLDOWN_SECONDS = 30"

definition cooldown :: int where "cooldown = EVENT_COOLDOWN_SECONDS * 1000 * ms"

datatype event_cause = CauseRunFinished string | CauseFilesChanged

record event_firing =
  firing_workspace_id :: string
  firing_schedule_id :: string
  firing_trigger_revision :: "64 word"
  firing_cause :: event_cause
  firing_observed_at :: instant
  firing_chain_depth :: "8 word"

definition decimal_int :: "int \<Rightarrow> string" where
  "decimal_int i = (if i < 0 then CHR ''-'' # decimal (nat (- i)) else decimal (nat i))"

definition cause_key :: "event_firing \<Rightarrow> string" where
  "cause_key f =
     (case firing_cause f of
        CauseRunFinished source \<Rightarrow> ''run:'' @ source
      | CauseFilesChanged \<Rightarrow> ''files:'' @ decimal_int (timestamp_millis (firing_observed_at f)))"

fun matched_event :: "event_trigger option \<Rightarrow> event_cause \<Rightarrow> (run_trigger_event \<times> string option) option" where
  "matched_event (Some (event_trigger.RunFinished _ _)) (CauseRunFinished source) =
     Some (run_trigger_event.RunFinished, Some source)"
| "matched_event (Some (event_trigger.FilesChanged _ _ _)) CauseFilesChanged = Some (run_trigger_event.FilesChanged, None)"
| "matched_event _ _ = None"

definition cooling :: "instant \<Rightarrow> schedule_occurrence list \<Rightarrow> bool" where
  "cooling now occs =
     is_some_and (find (\<lambda>occ. occurrence_outcome occ = OccurrenceStarted) (rev occs))
       (\<lambda>started. now < occurrence_recorded_at started + cooldown)"

definition decide_event ::
  "serde_json \<Rightarrow> event_firing \<Rightarrow> instant \<Rightarrow> string option \<Rightarrow> bool \<Rightarrow> string \<Rightarrow> run_trigger_event \<Rightarrow> string option \<Rightarrow>
   stored_schedule \<Rightarrow> workspace_orchestration \<Rightarrow> claim_decision" where
  "decide_event sj f now admission_failure paused key event source s w =
     (if paused then decided SkippedPaused None w
      else if MAX_TRIGGER_CHAIN_DEPTH < firing_chain_depth f then decided SkippedChainLimit None w
      else if command_changed w s then decided OccurrenceFailed (Some LAUNCH_COMMAND_CHANGED) w
      else if admission_failure \<noteq> None then decided OccurrenceFailed admission_failure w
      else if cooling now (stored_occurrences s) then decided SkippedCooldown None w
      else if overlaps w s then decided SkippedOverlap None w
      else start_claimed sj (stored_value s) key
             (EventTrigger (schedule_id (stored_value s)) (trigger_label (schedule_name (stored_value s))) key event source
                (firing_chain_depth f)) w)"

definition event_key :: "(string \<Rightarrow> string) \<Rightarrow> stored_schedule \<Rightarrow> event_firing \<Rightarrow> string" where
  "event_key sha256 s f = event_occurrence_id sha256 (schedule_id (stored_value s)) (stored_trigger_revision s) (cause_key f)"

definition claim_event_value ::
  "(string \<Rightarrow> string) \<Rightarrow> serde_json \<Rightarrow> event_firing \<Rightarrow> instant \<Rightarrow> string option \<Rightarrow> bool \<Rightarrow> workspace_orchestration \<Rightarrow>
   store_error + (schedule_claim \<times> workspace_orchestration)" where
  "claim_event_value sha256 sj f now admission_failure paused w =
     (case schedule_index w (firing_schedule_id f) of
        None \<Rightarrow> Inl StoreConflict
      | Some n \<Rightarrow>
        (let s = ws_schedules w ! n; v = stored_value s; key = event_key sha256 s f in
         if \<not> stored_enabled s \<or> stored_trigger_revision s \<noteq> firing_trigger_revision f then Inl StoreConflict
         else
           (case matched_event (trigger_event (schedule_trigger_of v)) (firing_cause f) of
              None \<Rightarrow> Inl StoreConflict
            | Some (event, source) \<Rightarrow>
              if list_ex (\<lambda>occ. occurrence_identity occ = key) (stored_occurrences s) \<or>
                 list_ex (\<lambda>r. run_id r = key) (ws_runs w)
              then Inl StoreAlreadyExists
              else
                (let d = decide_event sj f now admission_failure paused key event source s w;
                     changed = command_changed w s;
                     occ = claimed_occurrence key (firing_observed_at f) now d source (Some (firing_chain_depth f)) in
                 record_claim n d occ
                   (disable_if (changed \<and> \<not> paused \<and> firing_chain_depth f \<le> MAX_TRIGGER_CHAIN_DEPTH))))))"

text \<open>An unknown workspace is a stale firing too.\<close>

definition claim_event_in ::
  "(string \<Rightarrow> string) \<Rightarrow> serde_json \<Rightarrow> event_firing \<Rightarrow> instant \<Rightarrow> string option \<Rightarrow> bool \<Rightarrow> workspace_orchestration list \<Rightarrow>
   store_error + (schedule_claim \<times> workspace_orchestration list)" where
  "claim_event_in sha256 sj f now admission_failure paused ws =
     (if position (\<lambda>w. ws_id w = firing_workspace_id f) ws = None then Inl StoreConflict
      else on_workspace (firing_workspace_id f) (claim_event_value sha256 sj f now admission_failure paused) ws)"

definition claim_event_occurrence ::
  "(string \<Rightarrow> string) \<Rightarrow> journal_codec \<Rightarrow> serde_json \<Rightarrow> event_firing \<Rightarrow> instant \<Rightarrow> string option \<Rightarrow> journal \<Rightarrow>
   (store_error, schedule_claim option, journal) outcome" where
  "claim_event_occurrence sha256 c sj f now admission_failure j =
     (case transact_automations c (claim_event_in sha256 sj f now admission_failure) j of
        (Inr claim, j) \<Rightarrow> (Inr (Some claim), j)
      | (Inl e, j) \<Rightarrow> (if e \<in> {StoreConflict, StoreAlreadyExists} then Inr None else Inl e, j))"

section \<open>Children and recovery\<close>

datatype child_start_error = ChildConflict | ChildRefused string

text \<open>Starting a child run: the plan is made and the child created in the workspace, then the parent task is
  dispatched. A refusal is remembered beside the error that discards the transaction.\<close>

definition start_child_value ::
  "serde_json \<Rightarrow> pipeline_step_lease \<Rightarrow> string \<Rightarrow> workspace_orchestration \<Rightarrow>
   child_start_error + ((run \<times> run) \<times> workspace_orchestration)" where
  "start_child_value sj lease child_run_id w =
     (case find (\<lambda>r. run_id r = hl_run_id lease) (ws_runs w) of
        None \<Rightarrow> Inl ChildConflict
      | Some parent \<Rightarrow>
        (case plan_child_start sj w parent lease child_run_id of
           Inl code \<Rightarrow> Inl (ChildRefused code)
         | Inr (start, trigger) \<Rightarrow>
           (case create_run_value sj start (Some trigger) w of
              Inl e \<Rightarrow> Inl (if e \<in> {StoreInvalid, StoreNotFound} then ChildRefused SUBPIPELINE_UNAVAILABLE else ChildConflict)
            | Inr (child, w) \<Rightarrow>
              (case position (\<lambda>r. run_id r = hl_run_id lease) (ws_runs w) of
                 None \<Rightarrow> Inl ChildConflict
               | Some n \<Rightarrow>
                 (case current_revision (dispatch_leased_script (hl_step_id lease) (hl_task_revision lease)
                         (hl_lease_id lease) \<lparr>execution_id = run_id child\<rparr>) (ws_runs w ! n) of
                    (Inl _, _) \<Rightarrow> Inl ChildConflict
                  | (Inr _, parent) \<Rightarrow> Inr ((parent, child), w\<lparr>ws_runs := (ws_runs w)[n := parent]\<rparr>))))))"

definition start_pipeline_child ::
  "journal_codec \<Rightarrow> serde_json \<Rightarrow> string \<Rightarrow> pipeline_step_lease \<Rightarrow> string \<Rightarrow> journal \<Rightarrow>
   (child_start_error, run \<times> run, journal) outcome" where
  "start_pipeline_child c sj wid lease child_run_id j =
     (case find (\<lambda>w. ws_id w = wid) (store_workspaces (journal_current j)) of
        None \<Rightarrow> (Inl ChildConflict, j)
      | Some w \<Rightarrow>
        (case start_child_value sj lease child_run_id w of
           Inl e \<Rightarrow> (Inl e, j)
         | Inr _ \<Rightarrow>
           (case transact_workspaces c
               (on_workspace wid (\<lambda>w. map_err (\<lambda>_. StoreConflict) (start_child_value sj lease child_run_id w))) j of
              (r, j) \<Rightarrow> (map_err (\<lambda>_. ChildConflict) r, j))))"

definition resumable_after_restart :: "run \<Rightarrow> bool" where
  "resumable_after_restart r \<longleftrightarrow>
     run_status r = RunRunning \<and>
     list_ex (\<lambda>t. task_status t = Ready \<and> task_lease_id t = None) (run_tasks r) \<and>
     \<not> list_ex (\<lambda>t.
         (let waits = (task_status t = Running \<and> list_ex (\<lambda>s. step_id s = task_step_id t \<and> is_pipeline s) (run_steps r)) in
          task_status t \<in> {Running, Uncertain} \<and> \<not> waits \<or> task_lease_id t \<noteq> None)) (run_tasks r)"

definition recoverable_runs :: "journal \<Rightarrow> (string \<times> string) list" where
  "recoverable_runs j =
     dedup (sort (concat (map (\<lambda>w. map (\<lambda>r. (ws_id w, run_id r)) (filter resumable_after_restart (ws_runs w)))
       (store_workspaces (journal_current j)))))"

end
