(* ===== verification/Workspace_Integrity.thy ===== *)
theory Workspace_Integrity
  imports Definition_Laws Automations
begin

text \<open>
  Referential integrity of a project: whatever a definition, schedule or teammate names is saved in the
  same project, identities are unique, and no launch command refers to itself through sub-pipeline
  steps. Every operation on definitions and schedules keeps it; claims and runs do not touch what it is
  about.
\<close>

section \<open>The invariant\<close>

definition profiles_of :: "workspace_orchestration \<Rightarrow> string \<Rightarrow> agent_profile stored_definition option" where
  "profiles_of w i = find (\<lambda>s. profile_id (sd_value s) = i) (ws_profiles w)"

definition teams_of :: "workspace_orchestration \<Rightarrow> string \<Rightarrow> team_definition stored_definition option" where
  "teams_of w i = find (\<lambda>s. team_id (sd_value s) = i) (ws_teams w)"

definition pipelines_of :: "workspace_orchestration \<Rightarrow> string \<Rightarrow> pipeline_definition stored_definition option" where
  "pipelines_of w i = find (\<lambda>s. pipeline_id (sd_value s) = i) (ws_pipelines w)"

definition commands_of :: "workspace_orchestration \<Rightarrow> string \<Rightarrow> launch_command_reference stored_definition option" where
  "commands_of w i = find (\<lambda>s. command_id (sd_value s) = i) (ws_commands w)"

definition unique_ids_in :: "workspace_orchestration \<Rightarrow> bool" where
  "unique_ids_in w \<longleftrightarrow>
     distinct (map (\<lambda>s. profile_id (sd_value s)) (ws_profiles w)) \<and> distinct (map (\<lambda>s. team_id (sd_value s)) (ws_teams w)) \<and>
     distinct (map (\<lambda>s. pipeline_id (sd_value s)) (ws_pipelines w)) \<and>
     distinct (map (\<lambda>s. command_id (sd_value s)) (ws_commands w)) \<and>
     distinct (map (\<lambda>s. schedule_id (stored_value s)) (ws_schedules w))"

definition schedule_refs :: "schedule_definition \<Rightarrow> string set" where
  "schedule_refs s =
     Set.insert (schedule_launch_command_id s)
       (set_option (Option.bind (trigger_event (schedule_trigger_of s)) source_launch_command_id))"

definition automation_refs :: "workspace_orchestration \<Rightarrow> string set" where
  "automation_refs w =
     (\<Union>v\<in>stored_value ` set (ws_schedules w). schedule_refs v) \<union> mate_launch_command_id ` set (ws_teammates w)"

definition closed_refs :: "workspace_orchestration \<Rightarrow> bool" where
  "closed_refs w \<longleftrightarrow>
     (\<forall>t\<in>ran (teams_of w). member_profile_id ` set (team_members (sd_value t)) \<subseteq> dom (profiles_of w)) \<and>
     (\<forall>p\<in>ran (profiles_of w). set (profile_allowed_spawn_profile_ids (sd_value p)) \<subseteq> dom (profiles_of w)) \<and>
     (\<forall>c\<in>ran (commands_of w). command_team_id (sd_value c) \<in> dom (teams_of w) \<and>
        command_pipeline_id (sd_value c) \<in> dom (pipelines_of w)) \<and>
     (\<forall>p\<in>ran (pipelines_of w). set (referenced_launch_commands (sd_value p)) \<subseteq> dom (commands_of w)) \<and>
     automation_refs w \<subseteq> dom (commands_of w)"

definition integrity :: "workspace_orchestration \<Rightarrow> bool" where
  "integrity w \<longleftrightarrow> unique_ids_in w \<and> closed_refs w \<and> reference_cycle w = None"

lemma integrityD:
  assumes "integrity w"
  shows "t \<in> ran (teams_of w) \<Longrightarrow> member_profile_id ` set (team_members (sd_value t)) \<subseteq> dom (profiles_of w)"
    "p \<in> ran (profiles_of w) \<Longrightarrow> set (profile_allowed_spawn_profile_ids (sd_value p)) \<subseteq> dom (profiles_of w)"
    "c \<in> ran (commands_of w) \<Longrightarrow> command_team_id (sd_value c) \<in> dom (teams_of w)"
    "c \<in> ran (commands_of w) \<Longrightarrow> command_pipeline_id (sd_value c) \<in> dom (pipelines_of w)"
    "l \<in> ran (pipelines_of w) \<Longrightarrow> set (referenced_launch_commands (sd_value l)) \<subseteq> dom (commands_of w)"
    "automation_refs w \<subseteq> dom (commands_of w)" "unique_ids_in w" "reference_cycle w = None"
  using assms unfolding integrity_def closed_refs_def by simp_all

section \<open>Maps and lists\<close>

lemma stored_of_kinds [simp]:
  "stored_of profile_kind w = profiles_of w" "stored_of team_kind w = teams_of w"
  "stored_of (pipeline_kind sj) w = pipelines_of w" "stored_of (command_kind ch) w = commands_of w"
  by (simp_all add: fun_eq_iff stored_of_def profile_kind_def team_kind_def pipeline_kind_def command_kind_def
      profiles_of_def teams_of_def pipelines_of_def commands_of_def)

lemma kind_ids_kinds [simp]:
  "kind_ids profile_kind w = map (\<lambda>s. profile_id (sd_value s)) (ws_profiles w)"
  "kind_ids team_kind w = map (\<lambda>s. team_id (sd_value s)) (ws_teams w)"
  "kind_ids (pipeline_kind sj) w = map (\<lambda>s. pipeline_id (sd_value s)) (ws_pipelines w)"
  "kind_ids (command_kind ch) w = map (\<lambda>s. command_id (sd_value s)) (ws_commands w)"
  by (simp_all add: kind_ids_def profile_kind_def team_kind_def pipeline_kind_def command_kind_def)

lemma kind_fields [simp]:
  "kind_id profile_kind = profile_id" "kind_id team_kind = team_id" "kind_id (pipeline_kind sj) = pipeline_id"
  "kind_id (command_kind ch) = command_id"
  "kind_put profile_kind vp w = w\<lparr>ws_profiles := vp\<rparr>" "kind_put team_kind vt w = w\<lparr>ws_teams := vt\<rparr>"
  "kind_put (pipeline_kind sj) vl w = w\<lparr>ws_pipelines := vl\<rparr>" "kind_put (command_kind ch) vc w = w\<lparr>ws_commands := vc\<rparr>"
  "kind_valid profile_kind = profile_valid" "kind_valid team_kind = team_valid"
  "kind_valid (pipeline_kind sj) = pipeline_valid sj" "kind_valid (command_kind ch) = command_valid"
  "kind_after_save profile_kind pp sp w = Inr w" "kind_after_save team_kind pt st w = Inr w"
  "kind_after_save (pipeline_kind sj) pl sl w = Inr w" "kind_after_save (command_kind ch) = command_after_save ch"
  by (simp_all add: profile_kind_def team_kind_def pipeline_kind_def command_kind_def)

text \<open>What a successful save has checked.\<close>

lemma save_value_checks:
  assumes "save_value k expected v w = Inr (s, w')"
  shows "kind_valid k v w" "kind_after_save k (stored_of k w (kind_id k v)) s (put_value k s w) = Inr w'"
    "kind_check_references k w' (map_option sd_value (stored_of k w (kind_id k v))) v = Inr ()"
  using assms by (auto simp: save_value_def Let_def split: if_splits)

lemma saved_iff:
  "list_ex (\<lambda>p. profile_id (sd_value p) = i) (ws_profiles w) \<longleftrightarrow> i \<in> dom (profiles_of w)"
  "list_ex (\<lambda>t. team_id (sd_value t) = i) (ws_teams w) \<longleftrightarrow> i \<in> dom (teams_of w)"
  "list_ex (\<lambda>p. pipeline_id (sd_value p) = i) (ws_pipelines w) \<longleftrightarrow> i \<in> dom (pipelines_of w)"
  "list_ex (\<lambda>c. command_id (sd_value c) = i) (ws_commands w) \<longleftrightarrow> i \<in> dom (commands_of w)"
  by (auto simp: list_ex_iff dom_def profiles_of_def teams_of_def pipelines_of_def commands_of_def find_None_iff' dest!: find_Some_set)

lemma ran_find: "distinct (map f xs) \<Longrightarrow> ran (\<lambda>i. find (\<lambda>s. f s = i) xs) = set xs"
proof
  show "ran (\<lambda>i. find (\<lambda>s. f s = i) xs) \<subseteq> set xs" by (auto simp: ran_def dest: find_Some_set)
  assume d: "distinct (map f xs)"
  have "find (\<lambda>s. f s = f x) xs = Some x" if "x \<in> set xs" for x using that d by (induction xs) auto
  then show "set xs \<subseteq> ran (\<lambda>i. find (\<lambda>s. f s = i) xs)" by (auto simp: ran_def)
qed

lemma ran_kinds:
  assumes "unique_ids_in w"
  shows "ran (profiles_of w) = set (ws_profiles w)" "ran (teams_of w) = set (ws_teams w)"
    "ran (pipelines_of w) = set (ws_pipelines w)" "ran (commands_of w) = set (ws_commands w)"
  using assms ran_find unfolding unique_ids_in_def profiles_of_def teams_of_def pipelines_of_def commands_of_def by blast+

lemma pipeline_of_command_maps:
  "pipeline_of_command w i =
     Option.bind (commands_of w i) (\<lambda>c. map_option sd_value (pipelines_of w (command_pipeline_id (sd_value c))))"
  by (simp add: pipeline_of_command_def commands_of_def pipelines_of_def)

lemma cycle_mono:
  assumes "\<And>i. set (child_commands (pipeline_of_command w') i) \<subseteq> set (child_commands (pipeline_of_command w) i)"
    "reference_cycle w = None"
  shows "reference_cycle w' = None"
  unfolding reference_cycle_None
proof (rule acyclic_subset)
  show "acyclic (refers (child_commands (pipeline_of_command w)))" using assms(2) by (simp add: reference_cycle_None)
  show "refers (child_commands (pipeline_of_command w')) \<subseteq> refers (child_commands (pipeline_of_command w))"
    using assms(1) by (auto simp: refers_def)
qed

lemma event_source_saved_iff:
  "event_source_saved w v \<longleftrightarrow>
     set_option (Option.bind (trigger_event (schedule_trigger_of v)) source_launch_command_id) \<subseteq> dom (commands_of w)"
  unfolding event_source_saved_def saved_iff
  by (cases "Option.bind (trigger_event (schedule_trigger_of v)) source_launch_command_id")
     (simp_all add: is_none_or_def del: set_bind_option)

lemma references_iff:
  "i \<in> set (referenced_launch_commands p) \<longleftrightarrow> list_ex (\<lambda>s. runs_command i (step_executor s)) (pipeline_steps p)"
proof -
  have "(case x of Some (PipelineExecutor c _) \<Rightarrow> Some c | _ \<Rightarrow> None) = Some i \<longleftrightarrow> runs_command i x" for x
    by (cases "(i, x)" rule: runs_command.cases) simp_all
  moreover have "set (List.map_filter g xs) = {y. \<exists>x\<in>set xs. g x = Some y}" for g :: "pipeline_step \<Rightarrow> string option" and xs
    by (auto simp: List.map_filter_def image_iff) force
  ultimately show ?thesis by (simp add: referenced_launch_commands_def list_ex_iff)
qed

lemma referenced_iff:
  assumes "unique_ids_in w"
  shows "launch_command_referenced w i \<longleftrightarrow> (\<exists>p\<in>ran (pipelines_of w). i \<in> set (referenced_launch_commands (sd_value p)))"
  by (simp add: launch_command_referenced_def ran_kinds[OF assms] references_iff list_ex_iff)

section \<open>What a change leaves alone\<close>

lemma maps_frame [simp]:
  "profiles_of (w\<lparr>ws_teams := a\<rparr>) = profiles_of w" "profiles_of (w\<lparr>ws_pipelines := b\<rparr>) = profiles_of w"
  "profiles_of (w\<lparr>ws_commands := c\<rparr>) = profiles_of w" "profiles_of (w\<lparr>ws_schedules := d\<rparr>) = profiles_of w"
  "profiles_of (w\<lparr>ws_runs := e\<rparr>) = profiles_of w"
  "teams_of (w\<lparr>ws_profiles := f\<rparr>) = teams_of w" "teams_of (w\<lparr>ws_pipelines := b\<rparr>) = teams_of w"
  "teams_of (w\<lparr>ws_commands := c\<rparr>) = teams_of w" "teams_of (w\<lparr>ws_schedules := d\<rparr>) = teams_of w"
  "teams_of (w\<lparr>ws_runs := e\<rparr>) = teams_of w"
  "pipelines_of (w\<lparr>ws_profiles := f\<rparr>) = pipelines_of w" "pipelines_of (w\<lparr>ws_teams := a\<rparr>) = pipelines_of w"
  "pipelines_of (w\<lparr>ws_commands := c\<rparr>) = pipelines_of w" "pipelines_of (w\<lparr>ws_schedules := d\<rparr>) = pipelines_of w"
  "pipelines_of (w\<lparr>ws_runs := e\<rparr>) = pipelines_of w"
  "commands_of (w\<lparr>ws_profiles := f\<rparr>) = commands_of w" "commands_of (w\<lparr>ws_teams := a\<rparr>) = commands_of w"
  "commands_of (w\<lparr>ws_pipelines := b\<rparr>) = commands_of w" "commands_of (w\<lparr>ws_schedules := d\<rparr>) = commands_of w"
  "commands_of (w\<lparr>ws_runs := e\<rparr>) = commands_of w"
  by (simp_all add: fun_eq_iff profiles_of_def teams_of_def pipelines_of_def commands_of_def)

lemma automation_refs_frame [simp]:
  "automation_refs (w\<lparr>ws_profiles := f\<rparr>) = automation_refs w" "automation_refs (w\<lparr>ws_teams := a\<rparr>) = automation_refs w"
  "automation_refs (w\<lparr>ws_pipelines := b\<rparr>) = automation_refs w" "automation_refs (w\<lparr>ws_commands := c\<rparr>) = automation_refs w"
  "automation_refs (w\<lparr>ws_runs := e\<rparr>) = automation_refs w"
  by (simp_all add: automation_refs_def)

lemma reference_cycle_cong:
  "commands_of w' = commands_of w \<Longrightarrow> pipelines_of w' = pipelines_of w \<Longrightarrow> reference_cycle w' = None \<longleftrightarrow> reference_cycle w = None"
proof -
  assume "commands_of w' = commands_of w" "pipelines_of w' = pipelines_of w"
  then have "pipeline_of_command w' = pipeline_of_command w" by (simp add: fun_eq_iff pipeline_of_command_maps)
  then show ?thesis by (simp add: reference_cycle_None)
qed

lemma put_frame: "\<exists>vs. put_value k s w = kind_put k vs w"
  by (auto simp: put_value_def split: option.splits)

lemma save_frame:
  "save_value profile_kind expected v w = Inr (s, w') \<Longrightarrow> \<exists>vs. w' = w\<lparr>ws_profiles := vs\<rparr>"
  "save_value team_kind expected t w = Inr (st, w') \<Longrightarrow> \<exists>vs. w' = w\<lparr>ws_teams := vs\<rparr>"
  "save_value (pipeline_kind sj) expected p w = Inr (sp, w') \<Longrightarrow> \<exists>vs. w' = w\<lparr>ws_pipelines := vs\<rparr>"
  using put_frame[of profile_kind s w] put_frame[of team_kind st w] put_frame[of "pipeline_kind sj" sp w]
  by (auto dest!: save_value_checks(2))

lemma delete_frame:
  "delete_value profile_kind i expected w = Inr (u, w') \<Longrightarrow> \<exists>vs. w' = w\<lparr>ws_profiles := vs\<rparr>"
  "delete_value team_kind i expected w = Inr (u, w') \<Longrightarrow> \<exists>vs. w' = w\<lparr>ws_teams := vs\<rparr>"
  "delete_value (pipeline_kind sj) i expected w = Inr (u, w') \<Longrightarrow> \<exists>vs. w' = w\<lparr>ws_pipelines := vs\<rparr>"
  "delete_value (command_kind ch) i expected w = Inr (u, w') \<Longrightarrow> \<exists>vs. w' = w\<lparr>ws_commands := vs\<rparr>"
  by (auto simp: delete_value_def profile_kind_def team_kind_def pipeline_kind_def command_kind_def split: if_splits option.splits)

text \<open>Rescheduling keeps what a schedule says.\<close>

lemma reschedule_all_values: "reschedule_all ch changed saved ss = Inr ss' \<Longrightarrow> map stored_value ss' = map stored_value ss"
  by (induction ss arbitrary: ss') (auto simp: reschedule_def split: if_splits)

lemma command_put_frame:
  assumes "command_after_save ch p s (put_value (command_kind ch) s w) = Inr w'"
  obtains vs ss where "w' = w\<lparr>ws_commands := vs, ws_schedules := ss\<rparr>" "map stored_value ss = map stored_value (ws_schedules w)"
proof -
  obtain vs where vs: "put_value (command_kind ch) s w = w\<lparr>ws_commands := vs\<rparr>"
    using put_frame[of "command_kind ch" s w] by (auto simp: command_kind_def)
  show ?thesis
  proof (cases p)
    case None
    have "w\<lparr>ws_commands := vs\<rparr> = w\<lparr>ws_commands := vs, ws_schedules := ws_schedules w\<rparr>" by simp
    then have "w' = w\<lparr>ws_commands := vs, ws_schedules := ws_schedules w\<rparr>"
      using assms vs None by (simp only: command_after_save_def option.case sum.inject)
    then show ?thesis using that by blast
  next
    case (Some q)
    then show ?thesis using assms vs that by (auto simp: command_after_save_def dest: reschedule_all_values)
  qed
qed

lemma map_schedule_ids:
  "map stored_value ss = map stored_value ss' \<Longrightarrow>
   map (\<lambda>s. schedule_id (stored_value s)) ss = map (\<lambda>s. schedule_id (stored_value s)) ss'"
  by (drule arg_cong[of _ _ "map schedule_id"]) (simp add: comp_def)

lemma automation_refs_values:
  "map stored_value (ws_schedules w') = map stored_value (ws_schedules w) \<Longrightarrow> ws_teammates w' = ws_teammates w \<Longrightarrow>
   automation_refs w' = automation_refs w"
  by (metis automation_refs_def list.set_map)

lemma integrity_runs [simp]: "integrity (w\<lparr>ws_runs := rs\<rparr>) = integrity w"
  using reference_cycle_cong[of "w\<lparr>ws_runs := rs\<rparr>" w] by (simp add: integrity_def unique_ids_in_def closed_refs_def)

lemma integrity_schedules:
  assumes "integrity w" "distinct (map (\<lambda>s. schedule_id (stored_value s)) ss)"
    "\<And>s. s \<in> set ss \<Longrightarrow> schedule_refs (stored_value s) \<subseteq> dom (commands_of w)"
  shows "integrity (w\<lparr>ws_schedules := ss\<rparr>)"
proof -
  have "automation_refs (w\<lparr>ws_schedules := ss\<rparr>) \<subseteq> dom (commands_of w)"
    using assms(1,3) by (auto simp: integrity_def closed_refs_def automation_refs_def)
  then show ?thesis
    using assms(1,2) reference_cycle_cong[of "w\<lparr>ws_schedules := ss\<rparr>" w]
    by (simp add: integrity_def unique_ids_in_def closed_refs_def)
qed

section \<open>Definitions\<close>

lemma ran_upd_subset: "ran (m(a \<mapsto> b)) \<subseteq> Set.insert b (ran m)" "ran (m(a := None)) \<subseteq> ran m"
  by (auto simp: ran_def split: if_splits)

lemma integrity_save_profile:
  assumes "integrity w" "save_value profile_kind expected v w = Inr (s, w')"
  shows "integrity w'"
proof -
  obtain vs where w': "w' = w\<lparr>ws_profiles := vs\<rparr>" using save_frame(1)[OF assms(2)] by blast
  note ok = profile_laws.save_value_ok[OF assms(2), simplified]
  have dom: "dom (profiles_of w') = Set.insert (profile_id v) (dom (profiles_of w))" by (simp add: ok(2))
  have "profile_valid v w" using save_value_checks(1)[OF assms(2)] by simp
  then have v: "set (profile_allowed_spawn_profile_ids v) \<subseteq> dom (profiles_of w')"
    unfolding dom by (auto simp: profile_valid_def list_all_iff saved_iff)
  have "\<forall>p\<in>ran (profiles_of w'). set (profile_allowed_spawn_profile_ids (sd_value p)) \<subseteq> dom (profiles_of w')"
  proof
    fix p assume "p \<in> ran (profiles_of w')"
    then have "p = s \<or> p \<in> ran (profiles_of w)" using ran_upd_subset(1) unfolding ok(2) by fast
    then show "set (profile_allowed_spawn_profile_ids (sd_value p)) \<subseteq> dom (profiles_of w')"
      using v ok(1) integrityD(2)[OF assms(1), of p] by (auto simp: dom)
  qed
  moreover have "\<forall>t\<in>ran (teams_of w'). member_profile_id ` set (team_members (sd_value t)) \<subseteq> dom (profiles_of w')"
    using assms(1) unfolding dom by (simp add: w' integrity_def closed_refs_def subset_insertI2)
  moreover have "distinct (map (\<lambda>s. profile_id (sd_value s)) (ws_profiles w'))"
    using assms(1) ok(9) by (auto simp: integrity_def unique_ids_in_def)
  moreover have "reference_cycle w' = None"
    using assms(1) by (subst reference_cycle_cong[of _ w]) (simp_all add: w' integrity_def)
  ultimately show ?thesis
    using assms(1) by (simp add: w' integrity_def unique_ids_in_def closed_refs_def)
qed

lemma integrity_save_team:
  assumes "integrity w" "save_value team_kind expected v w = Inr (s, w')"
  shows "integrity w'"
proof -
  obtain vs where w': "w' = w\<lparr>ws_teams := vs\<rparr>" using save_frame(2)[OF assms(2)] by blast
  note ok = team_laws.save_value_ok[OF assms(2), simplified]
  have dom: "dom (teams_of w') = Set.insert (team_id v) (dom (teams_of w))" by (simp add: ok(2))
  have "team_valid v w" using save_value_checks(1)[OF assms(2)] by simp
  then have v: "member_profile_id ` set (team_members v) \<subseteq> dom (profiles_of w)"
    by (auto simp: team_valid_def list_all_iff saved_iff)
  have "\<forall>t\<in>ran (teams_of w'). member_profile_id ` set (team_members (sd_value t)) \<subseteq> dom (profiles_of w)"
  proof
    fix t assume "t \<in> ran (teams_of w')"
    then have "t = s \<or> t \<in> ran (teams_of w)" using ran_upd_subset(1) unfolding ok(2) by fast
    then show "member_profile_id ` set (team_members (sd_value t)) \<subseteq> dom (profiles_of w)"
      using v ok(1) integrityD(1)[OF assms(1), of t] by (elim disjE) simp_all
  qed
  moreover have "\<forall>c\<in>ran (commands_of w'). command_team_id (sd_value c) \<in> dom (teams_of w')"
    using assms(1) unfolding dom by (simp add: w' integrity_def closed_refs_def)
  moreover have "distinct (map (\<lambda>s. team_id (sd_value s)) (ws_teams w'))"
    using assms(1) ok(9) by (auto simp: integrity_def unique_ids_in_def)
  moreover have "reference_cycle w' = None"
    using assms(1) by (subst reference_cycle_cong[of _ w]) (simp_all add: w' integrity_def)
  ultimately show ?thesis
    using assms(1) by (simp add: w' integrity_def unique_ids_in_def closed_refs_def)
qed

lemma ran_put_all: "(\<And>x. x \<in> ran m \<Longrightarrow> P x) \<Longrightarrow> P s \<Longrightarrow> \<forall>x\<in>ran (m(i \<mapsto> s)). P x"
  by (auto simp: ran_def split: if_splits)

lemma step_references_saved:
  assumes "validate_pipeline_references w p = Inr ()"
  shows "set (referenced_launch_commands p) \<subseteq> dom (commands_of w)" "reference_cycle w = None"
proof -
  from assms have steps: "\<forall>s\<in>set (pipeline_steps p). check_step_reference w p s = Inr ()"
    and c: "(case reference_cycle w of Some i \<Rightarrow> Inl (ReferenceCycle i) | None \<Rightarrow> Inr ()) = Inr ()"
    by (auto simp: validate_pipeline_references_def)
  from c show "reference_cycle w = None" by (simp split: option.splits)
  show "set (referenced_launch_commands p) \<subseteq> dom (commands_of w)"
  proof
    fix i assume "i \<in> set (referenced_launch_commands p)"
    then obtain s inputs where s: "s \<in> set (pipeline_steps p)" "step_executor s = Some (PipelineExecutor i inputs)"
      unfolding references_iff list_ex_iff by (auto elim: runs_command.elims)
    then have "check_step_reference w p s = Inr ()" using steps by blast
    then show "i \<in> dom (commands_of w)" using s(2) by (auto simp: commands_of_def split: option.splits)
  qed
qed

lemma integrity_save_pipeline:
  assumes "integrity w" "save_value (pipeline_kind sj) expected v w = Inr (s, w')"
  shows "integrity w'"
proof -
  obtain vs where w': "w' = w\<lparr>ws_pipelines := vs\<rparr>" using save_frame(3)[OF assms(2)] by blast
  note ok = pipeline_laws.save_value_ok[OF assms(2), simplified]
  have dom: "dom (pipelines_of w') = Set.insert (pipeline_id v) (dom (pipelines_of w))" by (simp add: ok(2))
  have "check_saved_pipeline w' v = Inr ()"
    using save_value_checks(3)[OF assms(2)] by (simp add: pipeline_kind_def)
  then have v: "set (referenced_launch_commands v) \<subseteq> dom (commands_of w')" "reference_cycle w' = None"
    using step_references_saved[of w' v] by (simp_all add: check_saved_pipeline_def)
  have "\<forall>l\<in>ran (pipelines_of w'). set (referenced_launch_commands (sd_value l)) \<subseteq> dom (commands_of w)"
    unfolding ok(2) by (rule ran_put_all) (use v(1) ok(1) integrityD(5)[OF assms(1)] in \<open>simp_all add: w'\<close>)
  moreover have "\<forall>c\<in>ran (commands_of w'). command_pipeline_id (sd_value c) \<in> dom (pipelines_of w')"
    using integrityD(4)[OF assms(1)] unfolding dom by (simp add: w')
  moreover have "distinct (map (\<lambda>s. pipeline_id (sd_value s)) (ws_pipelines w'))"
    using assms(1) ok(9) by (auto simp: integrity_def unique_ids_in_def)
  ultimately show ?thesis
    using assms(1) v(2) by (simp add: w' integrity_def unique_ids_in_def closed_refs_def)
qed

lemma integrity_save_command:
  assumes "integrity w" "save_value (command_kind ch) expected v w = Inr (s, w')"
  shows "integrity w'"
proof -
  obtain vs ss where w': "w' = w\<lparr>ws_commands := vs, ws_schedules := ss\<rparr>"
      "map stored_value ss = map stored_value (ws_schedules w)"
    using command_put_frame save_value_checks(2)[OF assms(2)] by (metis kind_fields(16))
  note ok = command_laws.save_value_ok[OF assms(2), simplified]
  have dom: "dom (commands_of w') = Set.insert (command_id v) (dom (commands_of w))" by (simp add: ok(2))
  have "command_valid v w" using save_value_checks(1)[OF assms(2)] by simp
  then have v: "command_team_id v \<in> dom (teams_of w)" "command_pipeline_id v \<in> dom (pipelines_of w)"
    by (simp_all add: command_valid_def saved_iff)
  have "\<forall>c\<in>ran (commands_of w'). command_team_id (sd_value c) \<in> dom (teams_of w) \<and>
      command_pipeline_id (sd_value c) \<in> dom (pipelines_of w)"
    unfolding ok(2) by (rule ran_put_all) (use v ok(1) integrityD(3,4)[OF assms(1)] in simp_all)
  moreover have "\<forall>l\<in>ran (pipelines_of w'). set (referenced_launch_commands (sd_value l)) \<subseteq> dom (commands_of w')"
    using integrityD(5)[OF assms(1)] unfolding dom by (simp add: w' subset_insertI2)
  moreover have "automation_refs w' \<subseteq> dom (commands_of w')"
    using integrityD(6)[OF assms(1)] automation_refs_values[of w' w] unfolding dom by (simp add: w' subset_insertI2)
  moreover have "distinct (map (\<lambda>s. command_id (sd_value s)) (ws_commands w'))"
    using assms(1) ok(9) by (auto simp: integrity_def unique_ids_in_def)
  moreover have "distinct (map (\<lambda>s. schedule_id (stored_value s)) ss)"
    using assms(1) map_schedule_ids[OF w'(2)] by (simp add: integrity_def unique_ids_in_def)
  moreover have "reference_cycle w' = None"
    using save_value_checks(3)[OF assms(2)] by (simp add: command_kind_def check_reference_cycles_def split: option.splits)
  ultimately show ?thesis
    using assms(1) by (simp add: w' integrity_def unique_ids_in_def closed_refs_def)
qed

section \<open>Deletions\<close>

lemma integrity_delete_profile:
  assumes "integrity w" "delete_value profile_kind i expected w = Inr (u, w')"
  shows "integrity w'"
proof -
  obtain vs where w': "w' = w\<lparr>ws_profiles := vs\<rparr>" using delete_frame(1)[OF assms(2)] by blast
  have u: "unique_ids_in w" by (rule integrityD(7)[OF assms(1)])
  then have "distinct (kind_ids profile_kind w)" by (simp add: unique_ids_in_def)
  note ok = profile_laws.delete_value_ok[OF assms(2) this, simplified]
  have dom: "dom (profiles_of w') = dom (profiles_of w) - {i}" by (auto simp: ok(1))
  have unused: "t \<in> ran (teams_of w) \<Longrightarrow> i \<notin> member_profile_id ` set (team_members (sd_value t))"
    "p \<in> ran (profiles_of w) \<Longrightarrow> i \<notin> set (profile_allowed_spawn_profile_ids (sd_value p))" for t p
    using ok(6) by (auto simp: profile_kind_def list_ex_iff ran_kinds[OF u])
  have "\<forall>t\<in>ran (teams_of w'). member_profile_id ` set (team_members (sd_value t)) \<subseteq> dom (profiles_of w')"
    using integrityD(1)[OF assms(1)] unused(1) unfolding dom by (simp add: w' subset_Diff_insert)
  moreover have "\<forall>p\<in>ran (profiles_of w'). set (profile_allowed_spawn_profile_ids (sd_value p)) \<subseteq> dom (profiles_of w')"
  proof
    fix p assume "p \<in> ran (profiles_of w')"
    then have "p \<in> ran (profiles_of w)" using ran_upd_subset(2) unfolding ok(1) by fast
    then show "set (profile_allowed_spawn_profile_ids (sd_value p)) \<subseteq> dom (profiles_of w')"
      using integrityD(2)[OF assms(1)] unused(2) unfolding dom by (simp add: subset_Diff_insert)
  qed
  moreover have "distinct (map (\<lambda>s. profile_id (sd_value s)) (ws_profiles w'))"
    using u by (simp add: ok(2) unique_ids_in_def distinct_remove1)
  moreover have "reference_cycle w' = None"
    using assms(1) by (subst reference_cycle_cong[of _ w]) (simp_all add: w' integrity_def)
  ultimately show ?thesis
    using assms(1) by (simp add: w' integrity_def unique_ids_in_def closed_refs_def)
qed

lemma integrity_delete_team:
  assumes "integrity w" "delete_value team_kind i expected w = Inr (u, w')"
  shows "integrity w'"
proof -
  obtain vs where w': "w' = w\<lparr>ws_teams := vs\<rparr>" using delete_frame(2)[OF assms(2)] by blast
  have u: "unique_ids_in w" by (rule integrityD(7)[OF assms(1)])
  then have "distinct (kind_ids team_kind w)" by (simp add: unique_ids_in_def)
  note ok = team_laws.delete_value_ok[OF assms(2) this, simplified]
  have dom: "dom (teams_of w') = dom (teams_of w) - {i}" by (auto simp: ok(1))
  have unused: "c \<in> ran (commands_of w) \<Longrightarrow> command_team_id (sd_value c) \<noteq> i" for c
    using ok(6) by (auto simp: team_kind_def list_ex_iff ran_kinds[OF u])
  have "\<forall>t\<in>ran (teams_of w'). member_profile_id ` set (team_members (sd_value t)) \<subseteq> dom (profiles_of w)"
    using integrityD(1)[OF assms(1)] ran_upd_subset(2)[of "teams_of w" i] unfolding ok(1) by blast
  moreover have "\<forall>c\<in>ran (commands_of w'). command_team_id (sd_value c) \<in> dom (teams_of w')"
    using integrityD(3)[OF assms(1)] unused unfolding dom by (simp add: w')
  moreover have "distinct (map (\<lambda>s. team_id (sd_value s)) (ws_teams w'))"
    using u by (simp add: ok(2) unique_ids_in_def distinct_remove1)
  moreover have "reference_cycle w' = None"
    using assms(1) by (subst reference_cycle_cong[of _ w]) (simp_all add: w' integrity_def)
  ultimately show ?thesis
    using assms(1) by (simp add: w' integrity_def unique_ids_in_def closed_refs_def)
qed

lemma integrity_delete_pipeline:
  assumes "integrity w" "delete_value (pipeline_kind sj) i expected w = Inr (u, w')"
  shows "integrity w'"
proof -
  obtain vs where w': "w' = w\<lparr>ws_pipelines := vs\<rparr>" using delete_frame(3)[OF assms(2)] by blast
  have u: "unique_ids_in w" by (rule integrityD(7)[OF assms(1)])
  then have "distinct (kind_ids (pipeline_kind sj) w)" by (simp add: unique_ids_in_def)
  note ok = pipeline_laws.delete_value_ok[OF assms(2) this, simplified]
  have dom: "dom (pipelines_of w') = dom (pipelines_of w) - {i}" by (auto simp: ok(1))
  have unused: "c \<in> ran (commands_of w) \<Longrightarrow> command_pipeline_id (sd_value c) \<noteq> i" for c
    using ok(6) by (auto simp: pipeline_kind_def list_ex_iff ran_kinds[OF u])
  have "\<forall>l\<in>ran (pipelines_of w'). set (referenced_launch_commands (sd_value l)) \<subseteq> dom (commands_of w)"
    using integrityD(5)[OF assms(1)] ran_upd_subset(2)[of "pipelines_of w" i] unfolding ok(1) by blast
  moreover have "\<forall>c\<in>ran (commands_of w'). command_pipeline_id (sd_value c) \<in> dom (pipelines_of w')"
    using integrityD(4)[OF assms(1)] unused unfolding dom by (simp add: w')
  moreover have "distinct (map (\<lambda>s. pipeline_id (sd_value s)) (ws_pipelines w'))"
    using u by (simp add: ok(2) unique_ids_in_def distinct_remove1)
  moreover have "reference_cycle w' = None"
  proof (rule cycle_mono[OF _ integrityD(8)[OF assms(1)]])
    show "set (child_commands (pipeline_of_command w') a) \<subseteq> set (child_commands (pipeline_of_command w) a)" for a
      by (auto simp: child_commands_def pipeline_of_command_maps w' ok(1)[unfolded w'] split: option.splits if_splits Option.bind_splits)
  qed
  ultimately show ?thesis
    using assms(1) by (simp add: w' integrity_def unique_ids_in_def closed_refs_def)
qed

lemma integrity_delete_command:
  assumes "integrity w" "delete_value (command_kind ch) i expected w = Inr (u, w')"
  shows "integrity w'"
proof -
  obtain vs where w': "w' = w\<lparr>ws_commands := vs\<rparr>" using delete_frame(4)[OF assms(2)] by blast
  have u: "unique_ids_in w" by (rule integrityD(7)[OF assms(1)])
  then have "distinct (kind_ids (command_kind ch) w)" by (simp add: unique_ids_in_def)
  note ok = command_laws.delete_value_ok[OF assms(2) this, simplified]
  have dom: "dom (commands_of w') = dom (commands_of w) - {i}" by (auto simp: ok(1))
  have can: "command_can_delete w i" using ok(6) by (simp add: command_kind_def)
  then have unused: "l \<in> ran (pipelines_of w) \<Longrightarrow> i \<notin> set (referenced_launch_commands (sd_value l))" for l
    using referenced_iff[OF u] by (auto simp: command_can_delete_def)
  have free: "i \<notin> automation_refs w"
    using can by (auto simp: command_can_delete_def automation_refs_def schedule_refs_def list_ex_iff Option.bind_eq_Some_conv)
  have "\<forall>c\<in>ran (commands_of w'). command_team_id (sd_value c) \<in> dom (teams_of w) \<and>
      command_pipeline_id (sd_value c) \<in> dom (pipelines_of w)"
    using integrityD(3,4)[OF assms(1)] ran_upd_subset(2)[of "commands_of w" i] unfolding ok(1) by blast
  moreover have "\<forall>l\<in>ran (pipelines_of w'). set (referenced_launch_commands (sd_value l)) \<subseteq> dom (commands_of w')"
    using integrityD(5)[OF assms(1)] unused unfolding dom by (simp add: w' subset_Diff_insert)
  moreover have "automation_refs w' \<subseteq> dom (commands_of w')"
    using integrityD(6)[OF assms(1)] free unfolding dom by (simp add: w' subset_Diff_insert)
  moreover have "distinct (map (\<lambda>s. command_id (sd_value s)) (ws_commands w'))"
    using u by (simp add: ok(2) unique_ids_in_def distinct_remove1)
  moreover have "reference_cycle w' = None"
  proof (rule cycle_mono[OF _ integrityD(8)[OF assms(1)]])
    show "set (child_commands (pipeline_of_command w') a) \<subseteq> set (child_commands (pipeline_of_command w) a)" for a
      by (auto simp: child_commands_def pipeline_of_command_maps w' ok(1)[unfolded w'] split: option.splits if_splits)
  qed
  ultimately show ?thesis
    using assms(1) by (simp add: w' integrity_def unique_ids_in_def closed_refs_def)
qed

section \<open>Graphs\<close>

lemma put_graph_after:
  assumes "put_graph_definition k req w = Inr w'"
  obtains p s where "kind_after_save k p s (put_value k s w) = Inr w'"
  using assms by (auto simp: put_graph_definition_def Let_def split: if_splits)

lemma put_graph_frame:
  "put_graph_definition profile_kind rp w = Inr w' \<Longrightarrow> \<exists>vs. w' = w\<lparr>ws_profiles := vs\<rparr>"
  "put_graph_definition team_kind rt w = Inr w' \<Longrightarrow> \<exists>vs. w' = w\<lparr>ws_teams := vs\<rparr>"
  "put_graph_definition (pipeline_kind sj) rl w = Inr w' \<Longrightarrow> \<exists>vs. w' = w\<lparr>ws_pipelines := vs\<rparr>"
  "put_graph_definition (command_kind ch) rc w = Inr w' \<Longrightarrow>
     \<exists>vs ss. w' = w\<lparr>ws_commands := vs, ws_schedules := ss\<rparr> \<and> map stored_value ss = map stored_value (ws_schedules w)"
  subgoal using put_frame[of profile_kind _ w] by (auto elim!: put_graph_after)
  subgoal using put_frame[of team_kind _ w] by (auto elim!: put_graph_after)
  subgoal using put_frame[of "pipeline_kind sj" _ w] by (auto elim!: put_graph_after)
  subgoal by (elim put_graph_after, simp only: kind_fields, elim command_put_frame, blast)
  done

lemma put_graph_profiles:
  assumes "put_graph_definitions profile_kind reqs w = Inr w'"
  shows "(\<exists>vs. w' = w\<lparr>ws_profiles := vs\<rparr>) \<and>
    dom (profiles_of w') = dom (profiles_of w) \<union> (\<lambda>r. profile_id (save_request_value r)) ` set reqs \<and>
    (\<forall>p\<in>ran (profiles_of w'). p \<in> ran (profiles_of w) \<or> sd_value p \<in> save_request_value ` set reqs) \<and>
    (distinct (map (\<lambda>s. profile_id (sd_value s)) (ws_profiles w)) \<longrightarrow>
     distinct (map (\<lambda>s. profile_id (sd_value s)) (ws_profiles w')))"
  using assms
proof (induction reqs arbitrary: w)
  case Nil
  have "\<exists>vs. w = w\<lparr>ws_profiles := vs\<rparr>" by (rule exI[of _ "ws_profiles w"]) simp
  with Nil show ?case by auto
next
  case (Cons req reqs)
  then obtain w1 where w1: "put_graph_definition profile_kind req w = Inr w1" "put_graph_definitions profile_kind reqs w1 = Inr w'"
    by auto
  note ok = profile_laws.put_graph_ok[OF w1(1), simplified]
  obtain s where s: "sd_value s = save_request_value req"
      "profiles_of w1 = (profiles_of w)(profile_id (save_request_value req) \<mapsto> s)" using ok(1) by blast
  obtain vs where vs: "w1 = w\<lparr>ws_profiles := vs\<rparr>" using put_graph_frame(1)[OF w1(1)] by blast
  note IH = Cons.IH[OF w1(2)]
  have dom: "dom (profiles_of w1) = Set.insert (profile_id (save_request_value req)) (dom (profiles_of w))" by (simp add: s(2))
  have "\<forall>p\<in>ran (profiles_of w1). p \<in> ran (profiles_of w) \<or> sd_value p \<in> save_request_value ` set (req # reqs)"
    unfolding s(2) by (rule ran_put_all) (simp_all add: s(1))
  then have ran: "\<forall>p\<in>ran (profiles_of w'). p \<in> ran (profiles_of w) \<or> sd_value p \<in> save_request_value ` set (req # reqs)"
    using IH by auto
  have frame: "\<exists>vs. w' = w\<lparr>ws_profiles := vs\<rparr>" using IH vs by auto
  have "distinct (map (\<lambda>s. profile_id (sd_value s)) (ws_profiles w1))"
    if "distinct (map (\<lambda>s. profile_id (sd_value s)) (ws_profiles w))" using that by (simp add: ok(2))
  with IH dom ran frame show ?case by auto
qed

lemma graph_definition_facts:
  assumes "validate_graph_request sj g = Inr ()"
  shows "member_profile_id ` set (team_members (save_request_value (graph_team g))) \<subseteq>
           (\<lambda>r. profile_id (save_request_value r)) ` set (graph_profiles g)"
    "command_team_id (save_request_value (graph_command g)) = team_id (save_request_value (graph_team g))"
    "command_pipeline_id (save_request_value (graph_command g)) = pipeline_id (save_request_value (graph_pipeline g))"
proof -
  from assms have v: "validate_definition sj (graph_snapshot g) = Inr ()"
    by (auto simp: validate_graph_request_def split: if_splits)
  then show "command_team_id (save_request_value (graph_command g)) = team_id (save_request_value (graph_team g))"
    "command_pipeline_id (save_request_value (graph_command g)) = pipeline_id (save_request_value (graph_pipeline g))"
    by (auto simp: validate_definition_def graph_snapshot_def split: if_splits)
  from v obtain profiles where p: "unique_ids ''profile'' (map profile_id (def_profiles (graph_snapshot g))) = Inr profiles"
      "validate_team (def_team (graph_snapshot g)) profiles = Inr ()"
    by (auto simp: validate_definition_def)
  have "set profiles = profile_id ` set (def_profiles (graph_snapshot g))" using unique_ids_ok[OF p(1)] by simp
  moreover have "\<forall>m\<in>set (team_members (def_team (graph_snapshot g))). member_profile_id m \<in> set profiles"
    using p(2) by (auto simp: validate_team_def split: if_splits)
  ultimately show "member_profile_id ` set (team_members (save_request_value (graph_team g))) \<subseteq>
           (\<lambda>r. profile_id (save_request_value r)) ` set (graph_profiles g)"
    by (auto simp: graph_snapshot_def image_image)
qed

text \<open>The four steps of a graph, and the checks on what they produce.\<close>

lemma apply_graph_steps:
  assumes "apply_graph ch sj g w = Inr w'"
  obtains w1 w2 w3 where "put_graph_definitions profile_kind (graph_profiles g) w = Inr w1"
    "put_graph_definition team_kind (graph_team g) w1 = Inr w2"
    "put_graph_definition (pipeline_kind sj) (graph_pipeline g) w2 = Inr w3"
    "put_graph_definition (command_kind ch) (graph_command g) w3 = Inr w'"
    "\<forall>r\<in>set (graph_profiles g). profile_valid (save_request_value r) w'"
    "validate_pipeline_references w' (save_request_value (graph_pipeline g)) = Inr ()"
  using assms by (auto simp: apply_graph_def Let_def list_ex_iff check_saved_pipeline_def split: if_splits)

lemma integrity_apply_graph:
  assumes "integrity w" "validate_graph_request sj g = Inr ()" "apply_graph ch sj g w = Inr w'"
  shows "integrity w'"
proof -
  let ?team = "save_request_value (graph_team g)"
  let ?pipeline = "save_request_value (graph_pipeline g)"
  let ?command = "save_request_value (graph_command g)"
  obtain w1 w2 w3 where steps: "put_graph_definitions profile_kind (graph_profiles g) w = Inr w1"
    "put_graph_definition team_kind (graph_team g) w1 = Inr w2"
    "put_graph_definition (pipeline_kind sj) (graph_pipeline g) w2 = Inr w3"
    "put_graph_definition (command_kind ch) (graph_command g) w3 = Inr w'"
    and profiles: "\<forall>r\<in>set (graph_profiles g). profile_valid (save_request_value r) w'"
    and refs: "validate_pipeline_references w' ?pipeline = Inr ()"
    using assms(3) by (rule apply_graph_steps)
  note g = graph_definition_facts[OF assms(2)]
  note P = put_graph_profiles[OF steps(1)]
  note T = team_laws.put_graph_ok[OF steps(2), simplified]
  note L = pipeline_laws.put_graph_ok[OF steps(3), simplified]
  note C = command_laws.put_graph_ok[OF steps(4), simplified]
  obtain v1 v2 v3 v4 ss where f: "w1 = w\<lparr>ws_profiles := v1\<rparr>" "w2 = w1\<lparr>ws_teams := v2\<rparr>" "w3 = w2\<lparr>ws_pipelines := v3\<rparr>"
      "w' = w3\<lparr>ws_commands := v4, ws_schedules := ss\<rparr>" "map stored_value ss = map stored_value (ws_schedules w)"
    using P put_graph_frame(2)[OF steps(2)] put_graph_frame(3)[OF steps(3)] put_graph_frame(4)[OF steps(4)] by auto
  have maps: "profiles_of w' = profiles_of w1" "teams_of w' = teams_of w2" "pipelines_of w' = pipelines_of w3"
      "teams_of w1 = teams_of w" "pipelines_of w2 = pipelines_of w" "commands_of w3 = commands_of w"
    by (simp_all add: f)
  obtain st sl sc where upd: "sd_value st = ?team" "teams_of w' = (teams_of w)(team_id ?team \<mapsto> st)"
      "sd_value sl = ?pipeline" "pipelines_of w' = (pipelines_of w)(pipeline_id ?pipeline \<mapsto> sl)"
      "sd_value sc = ?command" "commands_of w' = (commands_of w)(command_id ?command \<mapsto> sc)"
    using T(1) L(1) C(1) by (auto simp: maps)
  have dp: "dom (profiles_of w') = dom (profiles_of w) \<union> (\<lambda>r. profile_id (save_request_value r)) ` set (graph_profiles g)"
    using P by (simp add: maps)
  have team: "\<forall>t\<in>ran (teams_of w'). member_profile_id ` set (team_members (sd_value t)) \<subseteq> dom (profiles_of w')"
    unfolding upd(2) dp
    by (rule ran_put_all) (use g(1) integrityD(1)[OF assms(1)] in \<open>simp_all add: le_supI1 le_supI2 upd(1)\<close>)
  have spawn: "\<forall>p\<in>ran (profiles_of w'). set (profile_allowed_spawn_profile_ids (sd_value p)) \<subseteq> dom (profiles_of w')"
  proof
    fix p assume "p \<in> ran (profiles_of w')"
    then consider "p \<in> ran (profiles_of w)" | r where "r \<in> set (graph_profiles g)" "sd_value p = save_request_value r"
      using P by (auto simp: maps)
    then show "set (profile_allowed_spawn_profile_ids (sd_value p)) \<subseteq> dom (profiles_of w')"
    proof cases
      case 1
      then show ?thesis using integrityD(2)[OF assms(1)] unfolding dp by blast
    next
      case 2
      then have "profile_valid (sd_value p) w'" "profile_id (sd_value p) \<in> dom (profiles_of w')"
        using profiles by (auto simp: dp)
      then show ?thesis by (auto simp: profile_valid_def list_all_iff saved_iff)
    qed
  qed
  have command: "\<forall>c\<in>ran (commands_of w'). command_team_id (sd_value c) \<in> dom (teams_of w') \<and>
      command_pipeline_id (sd_value c) \<in> dom (pipelines_of w')"
    unfolding upd(6) by (rule ran_put_all) (use g(2,3) integrityD(3,4)[OF assms(1)] in \<open>auto simp: upd(2,4,5)\<close>)
  have pipeline: "\<forall>l\<in>ran (pipelines_of w'). set (referenced_launch_commands (sd_value l)) \<subseteq> dom (commands_of w')"
    unfolding upd(4) by (rule ran_put_all)
      (use step_references_saved(1)[OF refs] integrityD(5)[OF assms(1)] in \<open>auto simp: upd(3,6) subset_insertI2\<close>)
  have "automation_refs w' = automation_refs w" by (rule automation_refs_values) (simp_all add: f)
  then have auto: "automation_refs w' \<subseteq> dom (commands_of w')"
    using integrityD(6)[OF assms(1)] by (simp add: upd(6) subset_insertI2)
  have "unique_ids_in w'"
    using integrityD(7)[OF assms(1)] P T(2) L(2) C(2) map_schedule_ids[OF f(5)] by (simp add: unique_ids_in_def f)
  with team spawn command pipeline auto step_references_saved(2)[OF refs] show ?thesis
    by (simp add: integrity_def closed_refs_def)
qed

section \<open>Schedules and claims\<close>

lemma schedule_refs_saved: "integrity w \<Longrightarrow> s \<in> set (ws_schedules w) \<Longrightarrow> schedule_refs (stored_value s) \<subseteq> dom (commands_of w)"
  using integrityD(6)[of w] unfolding automation_refs_def by blast

lemma schedule_index_put:
  assumes "schedule_index w i = Some n" "schedule_id (stored_value s) = i"
  shows "map (\<lambda>s. schedule_id (stored_value s)) ((ws_schedules w)[n := s]) = map (\<lambda>s. schedule_id (stored_value s)) (ws_schedules w)"
  using position_Some[OF assms(1)[unfolded schedule_index_def]] assms(2)
  by (simp add: list_eq_iff_nth_eq nth_list_update)

lemma integrity_put_schedule:
  assumes "integrity w" "schedule_index w i = Some n" "schedule_id (stored_value s) = i"
    "schedule_refs (stored_value s) \<subseteq> dom (commands_of w)"
  shows "integrity (w\<lparr>ws_schedules := (ws_schedules w)[n := s]\<rparr>)"
proof (rule integrity_schedules[OF assms(1)])
  show "distinct (map (\<lambda>s. schedule_id (stored_value s)) ((ws_schedules w)[n := s]))"
    using integrityD(7)[OF assms(1)] by (simp add: schedule_index_put[OF assms(2,3)] unique_ids_in_def)
  show "schedule_refs (stored_value t) \<subseteq> dom (commands_of w)" if "t \<in> set ((ws_schedules w)[n := s])" for t
    using that assms(4) schedule_refs_saved[OF assms(1), of t] set_update_subset_insert[of "ws_schedules w" n s] by blast
qed

lemma integrity_save_schedule:
  assumes "integrity w" "save_schedule_value ch expected v w = Inr (snap, w')"
  shows "integrity w'"
proof -
  have refs: "schedule_refs v \<subseteq> dom (commands_of w)"
    using assms(2) by (auto simp: save_schedule_value_def schedule_refs_def event_source_saved_iff saved_iff split: if_splits)
  show ?thesis
  proof (cases "schedule_index w (schedule_id v)")
    case None
    then have w': "w' = w\<lparr>ws_schedules := ws_schedules w @ [new_schedule ch v]\<rparr>"
      using assms(2) by (auto simp: save_schedule_value_def split: if_splits option.splits)
    have new: "stored_value (new_schedule ch v) = v" by (simp add: new_schedule_def)
    show ?thesis unfolding w'
      by (rule integrity_schedules[OF assms(1)])
        (use None refs integrityD(6,7)[OF assms(1)] new in
          \<open>auto simp: unique_ids_in_def automation_refs_def schedule_index_def\<close>)
  next
    case (Some n)
    then obtain s where s: "edited_schedule ch v (ws_schedules w ! n) = Inr s" "w' = w\<lparr>ws_schedules := (ws_schedules w)[n := s]\<rparr>"
      using assms(2) by (auto simp: save_schedule_value_def split: if_splits option.splits)
    then have "stored_value s = v" by (auto simp: edited_schedule_def Let_def split: if_splits)
    then show ?thesis using integrity_put_schedule[OF assms(1) Some, of s] refs s(2) by simp
  qed
qed

lemma integrity_same_value:
  assumes "integrity w" "schedule_index w i = Some n" "stored_value s = stored_value (ws_schedules w ! n)"
  shows "integrity (w\<lparr>ws_schedules := (ws_schedules w)[n := s]\<rparr>)"
proof -
  have n: "n < length (ws_schedules w)" "schedule_id (stored_value (ws_schedules w ! n)) = i"
    using position_Some[OF assms(2)[unfolded schedule_index_def]] by simp_all
  then show ?thesis
    by (intro integrity_put_schedule[OF assms(1,2)])
       (use assms(3) schedule_refs_saved[OF assms(1), of "ws_schedules w ! n"] in simp_all)
qed

lemma integrity_set_enabled:
  assumes "integrity w" "set_enabled_value i expected enabled w = Inr (snap, w')"
  shows "integrity w'"
proof -
  from assms(2) obtain n s where n: "schedule_index w i = Some n" "w' = w\<lparr>ws_schedules := (ws_schedules w)[n := s]\<rparr>"
      "\<exists>r. enable_schedule enabled r (ws_schedules w ! n) = Inr s"
    by (auto simp: set_enabled_value_def Let_def split: option.splits if_splits)
  then show ?thesis
    by (auto intro!: integrity_same_value[OF assms(1) n(1)] simp: enable_schedule_def Let_def split: if_splits)
qed

lemma integrity_delete_schedule:
  assumes "integrity w" "delete_schedule_value i expected w = Inr (u, w')"
  shows "integrity w'"
proof -
  from assms(2) obtain n where n: "w' = w\<lparr>ws_schedules := take n (ws_schedules w) @ drop (Suc n) (ws_schedules w)\<rparr>"
    by (auto simp: delete_schedule_value_def split: option.splits if_splits)
  have "distinct (map (\<lambda>s. schedule_id (stored_value s)) (take n (ws_schedules w) @ drop (Suc n) (ws_schedules w)))"
  proof -
    have "distinct (map (\<lambda>s. schedule_id (stored_value s)) (ws_schedules w))"
      using integrityD(7)[OF assms(1)] by (simp add: unique_ids_in_def)
    moreover have "set (take n xs) \<inter> set (drop (Suc n) xs) = {}" if "distinct xs" for xs :: "string list"
      using that by (intro set_take_disj_set_drop_if_distinct) simp_all
    ultimately show ?thesis
      unfolding map_append take_map[symmetric] drop_map[symmetric] distinct_append by (simp add: distinct_drop)
  qed
  then show ?thesis unfolding n
  proof (rule integrity_schedules[OF assms(1)])
    show "schedule_refs (stored_value t) \<subseteq> dom (commands_of w)"
      if "t \<in> set (take n (ws_schedules w) @ drop (Suc n) (ws_schedules w))" for t
      using that by (intro schedule_refs_saved[OF assms(1)]) (auto dest: in_set_takeD in_set_dropD)
  qed
qed

end
