(* ===== verification/Managed_Agents.thy ===== *)
theory Managed_Agents
  imports Host_Runs
begin

text \<open>
  The tools of a managed agent (\<^verbatim>\<open>handle_agent_request\<close> of
  \<^verbatim>\<open>src/apps/desktop/src-tauri/src/orchestration_api.rs\<close>): an agent lists its team, observes a member,
  sends a message or spawns an agent. The actor is derived from the native session that runs one of the
  tasks of the run; it is never an argument of the request.
\<close>

datatype agent_tool_operation =
    ToolRoster
  | ToolSend string string
  | ToolObserve string
  | ToolSpawn string
  | ToolSpawnAgent string string string

record reachable_member =
  rm_member_id :: string
  rm_profile_id :: string
  rm_harness :: harness
  rm_can_send :: bool
  rm_can_observe :: bool

datatype agent_request_admission =
    AdmitRoster "reachable_member list" "agent_profile list"
  | AdmitSend string string string bool
  | AdmitObserve string "native_history_reference list"
  | AdmitSpawn controlled_spawn_lease
  | AdmitCommitted string string string

record managed_agent_context =
  agent_workspace_id :: string
  agent_run_id :: string
  agent_session_id :: string

section \<open>What an agent sees\<close>

definition derive_actor_member_id :: "run \<Rightarrow> string \<Rightarrow> store_error + string" where
  "derive_actor_member_id r session =
     (case find (\<lambda>t. task_status t = Running \<and> is_some_and (task_execution t) (\<lambda>x. execution_id x = session)) (run_tasks r) of
        None \<Rightarrow> Inl StoreDenied
      | Some t \<Rightarrow>
        (case find (\<lambda>s. step_id s = task_step_id t) (run_steps r) of
           None \<Rightarrow> Inl StoreDenied
         | Some s \<Rightarrow> Inr (step_assigned_member_id s)))"

definition reachable_member_of :: "run \<Rightarrow> string \<Rightarrow> team_member \<Rightarrow> reachable_member option" where
  "reachable_member_of r actor m =
     (let send = is_ok (authorize_send (def_team (run_definition r)) actor (member_id m));
          observe = is_ok (authorize_observe (def_team (run_definition r)) actor (member_id m)) in
      if \<not> send \<and> \<not> observe then None
      else map_option (\<lambda>p. \<lparr>rm_member_id = member_id m, rm_profile_id = profile_id p, rm_harness = profile_harness p,
                             rm_can_send = send, rm_can_observe = observe\<rparr>)
             (find (\<lambda>p. profile_id p = member_profile_id m) (def_profiles (run_definition r))))"

definition reachable_members :: "run \<Rightarrow> string \<Rightarrow> reachable_member list" where
  "reachable_members r actor =
     sort_key rm_member_id (List.map_filter (reachable_member_of r actor) (team_members (def_team (run_definition r))))"

definition task_reference :: "task_record \<Rightarrow> native_history_reference option" where
  "task_reference t =
     (case task_result_reference t of
        Some ref \<Rightarrow> Some ref
      | None \<Rightarrow>
        map_option (\<lambda>x. \<lparr>ref_fields = [], ref_session_id = execution_id x, ref_block_id = None, ref_content_hash = None\<rparr>)
          (task_execution t))"

text \<open>Sorted by session, then by block, an absent block first.\<close>

definition reference_key :: "native_history_reference \<Rightarrow> string list" where
  "reference_key ref = ref_session_id ref # (case ref_block_id ref of None \<Rightarrow> [] | Some b \<Rightarrow> [b])"

definition history_references_for_member :: "run \<Rightarrow> string \<Rightarrow> native_history_reference list" where
  "history_references_for_member r member =
     (let steps = map step_id (filter (\<lambda>s. step_assigned_member_id s = member) (run_steps r)) in
      dedup (sort_key reference_key
        (List.map_filter task_reference (filter (\<lambda>t. task_step_id t \<in> set steps) (run_tasks r)))))"

definition shown_profile :: "run \<Rightarrow> agent_profile \<Rightarrow> agent_profile" where
  "shown_profile r p =
     (case find_map (\<lambda>s.
         if list_ex (\<lambda>m. member_id m = step_assigned_member_id s \<and> member_profile_id m = profile_id p)
              (team_members (def_team (run_definition r)))
         then step_input_instructions s else None) (run_steps r) of
        None \<Rightarrow> p
      | Some ins \<Rightarrow> p\<lparr>profile_input_instructions := Some ins\<rparr>)"

definition spawn_profiles :: "run \<Rightarrow> string \<Rightarrow> agent_profile list" where
  "spawn_profiles r actor =
     (case Option.bind (find (\<lambda>m. member_id m = actor) (team_members (def_team (run_definition r))))
        (\<lambda>m. find (\<lambda>p. profile_id p = member_profile_id m) (def_profiles (run_definition r))) of
        None \<Rightarrow> []
      | Some a \<Rightarrow>
        map (shown_profile r)
          (filter (\<lambda>p. profile_id p \<in> set (profile_allowed_spawn_profile_ids a)) (def_profiles (run_definition r))))"

definition committed_spawn :: "run \<Rightarrow> string \<Rightarrow> agent_request_admission option" where
  "committed_spawn r i =
     Option.bind (find (\<lambda>s. step_id s = i) (run_steps r)) (\<lambda>s.
     Option.bind (find (\<lambda>t. task_step_id t = i) (run_tasks r)) (\<lambda>t.
     map_option (\<lambda>x. AdmitCommitted i (step_assigned_member_id s) (execution_id x)) (task_execution t)))"

section \<open>Requests\<close>

definition denied_unless :: "'e + 'a \<Rightarrow> store_error + 'a" where
  "denied_unless r = map_err (\<lambda>_. StoreDenied) r"

definition host_record_request ::
  "string \<Rightarrow> string \<Rightarrow> string \<Rightarrow> agent_request_kind \<Rightarrow> bool run_change" where
  "host_record_request rid session actor operation =
     coord request_error (current_revision (record_agent_request rid session actor operation))"

text \<open>The prologue of every tool: the actor of the session, and the rule of its profile for the tool.\<close>

definition as_actor :: "string \<Rightarrow> string \<Rightarrow> (string \<Rightarrow> 'a run_change) \<Rightarrow> 'a run_change" where
  "as_actor session tool f r =
     and_then (derive_actor_member_id r session) (\<lambda>actor.
     and_then (denied_unless (authorize_coordinator_tool (run_definition r) actor tool)) (\<lambda>_. f actor r))"

definition admit_roster :: "string \<Rightarrow> string \<Rightarrow> agent_request_admission run_change" where
  "admit_roster rid session =
     as_actor session ''orchestration.roster'' (\<lambda>actor.
       then_run (host_record_request rid session actor Roster) (\<lambda>_ r.
         Inr (AdmitRoster (reachable_members r actor) (spawn_profiles r actor), r)))"

definition admit_observe :: "string \<Rightarrow> string \<Rightarrow> string \<Rightarrow> agent_request_admission run_change" where
  "admit_observe rid session target =
     as_actor session ''orchestration.observe'' (\<lambda>actor r.
       and_then (denied_unless (authorize_observe (def_team (run_definition r)) actor target)) (\<lambda>_.
         then_run (host_record_request rid session actor (Observe target)) (\<lambda>_ r.
           Inr (AdmitObserve target (history_references_for_member r target), r)) r))"

definition send_once :: "string \<Rightarrow> string \<Rightarrow> string \<Rightarrow> string \<Rightarrow> agent_request_admission run_change" where
  "send_once rid actor recipient body r =
     (case find (\<lambda>m. message_id m = rid) (run_messages r) of
        Some m \<Rightarrow>
          if message_sender_member_id m = actor \<and> message_recipient_member_id m = recipient \<and> message_body m = body
          then Inr (AdmitSend rid recipient body (message_status m = Delivered), r)
          else Inl StoreConflict
      | None \<Rightarrow>
          then_run (coord message_error (current_revision
              (accept_message actor \<lparr>intent_id = rid, intent_recipient_member_id = recipient, intent_body = body\<rparr>)))
            (\<lambda>_ r. Inr (AdmitSend rid recipient body False, r)) r)"

definition admit_send :: "string \<Rightarrow> string \<Rightarrow> string \<Rightarrow> string \<Rightarrow> agent_request_admission run_change" where
  "admit_send rid session recipient body =
     as_actor session ''orchestration.send'' (\<lambda>actor r.
       and_then (denied_unless (authorize_send (def_team (run_definition r)) actor recipient)) (\<lambda>_.
         then_run (host_record_request rid session actor (Send recipient)) (\<lambda>_. send_once rid actor recipient body) r))"

definition admit_spawn_agent ::
  "serde_json \<Rightarrow> string \<Rightarrow> string \<Rightarrow> string \<Rightarrow> string \<Rightarrow> string \<Rightarrow> agent_request_admission run_change" where
  "admit_spawn_agent sj rid session pid name instructions =
     as_actor session ''orchestration.spawn'' (\<lambda>actor.
       then_run (host_record_request rid session actor (SpawnAgent pid name instructions)) (\<lambda>first.
       then_run (if first then coord (\<lambda>_. StoreDenied) (add_spawned_agent sj actor rid pid name instructions)
                 else (\<lambda>r. Inr (''agent-'' @ rid, r))) (\<lambda>i r.
         case committed_spawn r i of
           Some committed \<Rightarrow> Inr (committed, r)
         | None \<Rightarrow>
           then_run (coord any_conflict (current_revision (\<lambda>e. lease_controlled_spawn sj e actor i rid)))
             (\<lambda>lease r. Inr (AdmitSpawn lease, r)) r)))"

definition admit_spawn ::
  "serde_json \<Rightarrow> native_bridge_capabilities \<Rightarrow> string \<Rightarrow> string \<Rightarrow> string \<Rightarrow> agent_request_admission run_change" where
  "admit_spawn sj caps rid session i =
     as_actor session ''orchestration.spawn'' (\<lambda>actor.
       then_run (host_record_request rid session actor (Spawn i)) (\<lambda>first r.
         case (if first then None else committed_spawn r i) of
           Some committed \<Rightarrow> Inr (committed, r)
         | None \<Rightarrow>
           then_run (coord spawn_error (current_revision (\<lambda>e. lease_controlled_spawn sj e actor i rid))) (\<lambda>lease r.
             if is_ok (validate_profile_capabilities (lease_profile lease) caps) then Inr (AdmitSpawn lease, r)
             else Inl StoreInvalid) r))"

fun tool_supported :: "agent_operation_capabilities \<Rightarrow> agent_tool_operation \<Rightarrow> bool" where
  "tool_supported caps ToolRoster = cap_roster caps"
| "tool_supported caps (ToolObserve _) = cap_observe caps"
| "tool_supported caps (ToolSend _ _) = cap_send caps"
| "tool_supported caps (ToolSpawnAgent _ _ _) = cap_spawn caps"
| "tool_supported caps (ToolSpawn _) = cap_spawn caps"

fun admit_tool ::
  "serde_json \<Rightarrow> native_bridge_capabilities \<Rightarrow> string \<Rightarrow> string \<Rightarrow> agent_tool_operation \<Rightarrow> agent_request_admission run_change" where
  "admit_tool sj caps rid session ToolRoster = admit_roster rid session"
| "admit_tool sj caps rid session (ToolObserve target) = admit_observe rid session target"
| "admit_tool sj caps rid session (ToolSend recipient body) = admit_send rid session recipient body"
| "admit_tool sj caps rid session (ToolSpawnAgent pid name ins) = admit_spawn_agent sj rid session pid name ins"
| "admit_tool sj caps rid session (ToolSpawn i) = admit_spawn sj caps rid session i"

definition handle_agent_request ::
  "journal_codec \<Rightarrow> serde_json \<Rightarrow> managed_agent_context \<Rightarrow> string \<Rightarrow> agent_tool_operation \<Rightarrow>
   native_bridge_capabilities \<Rightarrow> journal \<Rightarrow> (store_error, agent_request_admission, journal) outcome" where
  "handle_agent_request c sj context rid operation caps j =
     (if is_blank_text rid then (Inl StoreInvalid, j)
      else if \<not> tool_supported (cap_agent_operations caps) operation then (Inl StoreDenied, j)
      else transact_run c (agent_workspace_id context) (agent_run_id context)
             (admit_tool sj caps rid (agent_session_id context) operation) j)"

end
