(* ===== verification/Triggers.thy ===== *)
theory Triggers
  imports Automations
begin

text \<open>
  The decision state of event automations (\<^verbatim>\<open>TriggerCore\<close> of
  \<^verbatim>\<open>src/apps/desktop/src-tauri/src/orchestration_triggers.rs\<close>): which enabled event rules fire when a run
  ends or files change. The engine around it (watchers, timers, channels) is asynchronous glue and is
  not modelled.

  A \<^verbatim>\<open>std::time::Instant\<close> and a \<^verbatim>\<open>Duration\<close> are numbers of nanoseconds. The hash maps are sorted maps; the
  code fixes no order of the firings of one call, and nothing proved here depends on it.
\<close>

type_synonym moment = int

definition seconds :: "int \<Rightarrow> int" where "seconds n = n * 1000 * ms"

definition SELF_CHANGE_GRACE :: int where "SELF_CHANGE_GRACE = seconds 3"
definition ATTRIBUTION_GRACE :: int where "ATTRIBUTION_GRACE = seconds 10"
definition RECENT_RUN_RETENTION :: int where "RECENT_RUN_RETENTION = seconds 3600"

text \<open>\<^verbatim>\<open>saturating_duration_since\<close>.\<close>

definition duration_since :: "moment \<Rightarrow> moment \<Rightarrow> int" where
  "duration_since now t = max 0 (now - t)"

section \<open>State\<close>

record recent_run =
  recent_depth :: "8 word"
  recent_automation :: "string option"
  recent_active :: bool
  recent_finished_at :: "moment option"

record burst =
  burst_first :: moment
  burst_last :: moment
  burst_last_wall :: instant

record file_rule =
  file_trigger_revision :: "64 word"
  file_include :: "path_pattern list"
  file_exclude :: "path_pattern list"
  file_debounce :: int
  file_not_before :: "instant option"
  file_burst :: "burst option"

record trigger_core =
  core_known :: "(string \<times> string, run_status) btree_map"
  core_recent :: "(string \<times> string, recent_run) btree_map"
  core_rules :: "(string \<times> string, file_rule) btree_map"
  core_paused :: bool
  core_fold_case :: bool

definition rule_matches :: "bool \<Rightarrow> file_rule \<Rightarrow> string \<Rightarrow> bool" where
  "rule_matches fold_case rule path \<longleftrightarrow>
     list_ex (\<lambda>p. pattern_matches p path fold_case) (file_include rule) \<and>
     \<not> list_ex (\<lambda>p. pattern_matches p path fold_case) (file_exclude rule)"

definition due_at :: "file_rule \<Rightarrow> burst \<Rightarrow> moment" where
  "due_at rule b =
     (let longest = min (file_debounce rule * 10) (max (file_debounce rule) (seconds 3600)) in
      min (burst_last b + file_debounce rule) (burst_first b + longest))"

fun finished_outcome_of :: "run_status \<Rightarrow> finished_outcome option" where
  "finished_outcome_of RunSucceeded = Some FinishedSucceeded"
| "finished_outcome_of RunFailed = Some FinishedFailed"
| "finished_outcome_of RunCancelled = Some FinishedCancelled"
| "finished_outcome_of RunRunning = None"
| "finished_outcome_of RunUncertain = None"

definition is_active :: "run_status \<Rightarrow> bool" where
  "is_active s \<longleftrightarrow> s \<in> {RunRunning, RunUncertain}"

definition recent_of :: "run \<Rightarrow> bool \<Rightarrow> moment option \<Rightarrow> recent_run" where
  "recent_of r active finished_at =
     \<lparr>recent_depth = run_chain_depth r, recent_automation = Option.bind (run_trigger r) trigger_schedule_id,
      recent_active = active, recent_finished_at = finished_at\<rparr>"

section \<open>Finished runs\<close>

fun watches_run :: "string \<Rightarrow> finished_outcome \<Rightarrow> event_trigger option \<Rightarrow> bool" where
  "watches_run launch out (Some (event_trigger.RunFinished i outs)) = (i = launch \<and> out \<in> set outs)"
| "watches_run launch out _ = False"

definition finished_firings ::
  "workspace_orchestration \<Rightarrow> run \<Rightarrow> finished_outcome \<Rightarrow> instant \<Rightarrow> event_firing list" where
  "finished_firings w r out wall =
     (case def_launch_command (run_definition r) of
        None \<Rightarrow> []
      | Some source \<Rightarrow>
        map (\<lambda>s. \<lparr>firing_workspace_id = ws_id w, firing_schedule_id = schedule_id (stored_value s),
              firing_trigger_revision = stored_trigger_revision s, firing_cause = CauseRunFinished (run_id r),
              firing_observed_at = wall,
              firing_chain_depth = u8_saturating_add (inherited_chain_depth (ws_runs w) r) 1\<rparr>)
          (filter (\<lambda>s. stored_enabled s \<and>
               watches_run (command_id source) out (trigger_event (schedule_trigger_of (stored_value s))))
             (ws_schedules w)))"

section \<open>File rules\<close>

text \<open>\<^verbatim>\<open>Option::max\<close>: an absent value is the least.\<close>

fun later :: "instant option \<Rightarrow> instant option \<Rightarrow> instant option" where
  "later None b = b"
| "later a None = a"
| "later (Some a) (Some b) = Some (max a b)"

definition last_recorded :: "stored_schedule \<Rightarrow> instant option" where
  "last_recorded s =
     (if stored_occurrences s = [] then None else Some (occurrence_recorded_at (last (stored_occurrences s)) + cooldown))"

text \<open>One schedule of a workspace: its rule is kept, started over or left out.\<close>

definition sync_rule ::
  "instant \<Rightarrow> workspace_orchestration \<Rightarrow> stored_schedule \<Rightarrow>
   (string \<times> string, file_rule) btree_map \<times> (string \<times> string) list \<Rightarrow>
   (string \<times> string, file_rule) btree_map \<times> (string \<times> string) list" where
  "sync_rule wall w s st =
     (case st of (rules, present) \<Rightarrow>
        (case trigger_event (schedule_trigger_of (stored_value s)) of
           Some (event_trigger.FilesChanged inc exc debounce) \<Rightarrow>
             if \<not> stored_enabled s then (rules, present)
             else
               (let key = (ws_id w, schedule_id (stored_value s)); until = last_recorded s;
                    fresh = (case (parse_patterns inc, parse_patterns exc) of
                        (Inr inc, Inr exc) \<Rightarrow>
                          (bm_insert key \<lparr>file_trigger_revision = stored_trigger_revision s, file_include = inc,
                              file_exclude = exc, file_debounce = seconds (uint debounce),
                              file_not_before = keep_if (\<lambda>t. wall < t) until, file_burst = None\<rparr> rules,
                           key # present)
                      | _ \<Rightarrow> (rules, present)) in
                case bm_get rules key of
                  Some rule \<Rightarrow>
                    if file_trigger_revision rule = stored_trigger_revision s
                    then (bm_insert key (rule\<lparr>file_not_before := later (file_not_before rule) until\<rparr>) rules, key # present)
                    else fresh
                | None \<Rightarrow> fresh)
         | _ \<Rightarrow> (rules, present)))"

definition sync_rules :: "store_document \<Rightarrow> instant \<Rightarrow> trigger_core \<Rightarrow> trigger_core" where
  "sync_rules d wall core =
     (case fold (\<lambda>w. fold (sync_rule wall w) (ws_schedules w)) (store_workspaces d) (core_rules core, []) of
        (rules, present) \<Rightarrow> core\<lparr>core_rules := filter (\<lambda>(key, _). key \<in> set present) rules\<rparr>)"

section \<open>Observing generations\<close>

definition seed_run :: "workspace_orchestration \<Rightarrow> run \<Rightarrow> trigger_core \<Rightarrow> trigger_core" where
  "seed_run w r core =
     (let key = (ws_id w, run_id r);
          core = core\<lparr>core_known := bm_insert key (run_status r) (core_known core)\<rparr> in
      if is_active (run_status r)
      then core\<lparr>core_recent := bm_insert key (recent_of r True None) (core_recent core)\<rparr> else core)"

definition core_new :: "bool \<Rightarrow> store_document \<Rightarrow> instant \<Rightarrow> trigger_core" where
  "core_new fold_case d wall =
     sync_rules d wall
       (fold (\<lambda>w. fold (seed_run w) (ws_runs w)) (store_workspaces d)
          \<lparr>core_known = [], core_recent = [], core_rules = [], core_paused = store_paused d, core_fold_case = fold_case\<rparr>)"

definition observe_run ::
  "moment \<Rightarrow> instant \<Rightarrow> workspace_orchestration \<Rightarrow> run \<Rightarrow> event_firing list \<times> trigger_core \<Rightarrow>
   event_firing list \<times> trigger_core" where
  "observe_run now wall w r st =
     (case st of (firings, core) \<Rightarrow>
        (let key = (ws_id w, run_id r); status = run_status r; previous = bm_get (core_known core) key;
             core = core\<lparr>core_known := bm_insert key status (core_known core)\<rparr> in
         if is_active status
         then (firings, core\<lparr>core_recent := bm_insert key
                 (case bm_get (core_recent core) key of
                    Some recent \<Rightarrow> recent\<lparr>recent_active := True, recent_finished_at := None\<rparr>
                  | None \<Rightarrow> recent_of r True None) (core_recent core)\<rparr>)
         else if \<not> is_none_or previous is_active then (firings, core)
         else
           (firings @ (case finished_outcome_of status of None \<Rightarrow> [] | Some out \<Rightarrow> finished_firings w r out wall),
            core\<lparr>core_recent := bm_insert key (recent_of r False (Some now)) (core_recent core)\<rparr>)))"

definition still_recent :: "moment \<Rightarrow> recent_run \<Rightarrow> bool" where
  "still_recent now recent \<longleftrightarrow>
     recent_active recent \<or>
     is_some_and (recent_finished_at recent) (\<lambda>t. duration_since now t < RECENT_RUN_RETENTION)"

definition observe ::
  "store_document \<Rightarrow> moment \<Rightarrow> instant \<Rightarrow> trigger_core \<Rightarrow> event_firing list \<times> trigger_core" where
  "observe d now wall core =
     (case fold (\<lambda>w. fold (observe_run now wall w) (ws_runs w)) (store_workspaces d)
             ([], core\<lparr>core_paused := store_paused d\<rparr>) of
        (firings, core) \<Rightarrow>
          (firings,
           sync_rules d wall
             (core\<lparr>core_recent := filter (\<lambda>(_, recent). still_recent now recent) (core_recent core)\<rparr>)))"

section \<open>File changes\<close>

definition watched_workspaces :: "trigger_core \<Rightarrow> string list" where
  "watched_workspaces core = (if core_paused core then [] else bs_collect (map fst (bm_keys (core_rules core))))"

definition own_run_recent :: "trigger_core \<Rightarrow> string \<Rightarrow> string \<Rightarrow> moment \<Rightarrow> bool" where
  "own_run_recent core wid sid now =
     list_ex (\<lambda>((w, _), recent).
       w = wid \<and> recent_automation recent = Some sid \<and>
       (recent_active recent \<or>
        is_some_and (recent_finished_at recent) (\<lambda>t. duration_since now t < SELF_CHANGE_GRACE))) (core_recent core)"

definition extend_burst :: "moment \<Rightarrow> instant \<Rightarrow> burst option \<Rightarrow> burst" where
  "extend_burst now wall b =
     (case b of
        None \<Rightarrow> \<lparr>burst_first = now, burst_last = now, burst_last_wall = wall\<rparr>
      | Some b \<Rightarrow> b\<lparr>burst_last := now, burst_last_wall := wall\<rparr>)"

text \<open>A batch is its list of changed paths; batches that only report lost events carry none.\<close>

definition changed_rule ::
  "trigger_core \<Rightarrow> string \<Rightarrow> string list \<Rightarrow> moment \<Rightarrow> instant \<Rightarrow> string \<times> string \<Rightarrow> file_rule \<Rightarrow> file_rule" where
  "changed_rule core wid paths now wall key rule =
     (if fst key = wid \<and> \<not> own_run_recent core (fst key) (snd key) now \<and>
         list_ex (rule_matches (core_fold_case core) rule) paths
      then rule\<lparr>file_burst := Some (extend_burst now wall (file_burst rule))\<rparr> else rule)"

definition file_changes ::
  "string \<Rightarrow> string list \<Rightarrow> moment \<Rightarrow> instant \<Rightarrow> trigger_core \<Rightarrow> trigger_core" where
  "file_changes wid paths now wall core =
     (if core_paused core \<or> paths = [] then core
      else core\<lparr>core_rules := map (\<lambda>(key, rule). (key, changed_rule core wid paths now wall key rule)) (core_rules core)\<rparr>)"

definition attributed_depth :: "trigger_core \<Rightarrow> string \<Rightarrow> burst \<Rightarrow> 8 word" where
  "attributed_depth core wid b =
     (let depths = List.map_filter (\<lambda>((w, _), recent).
         if w = wid \<and> (recent_active recent \<or>
              is_some_and (recent_finished_at recent) (\<lambda>t. burst_first b \<le> t + ATTRIBUTION_GRACE))
         then Some (recent_depth recent) else None) (core_recent core) in
      if depths = [] then 1 else u8_saturating_add (Max (set depths)) 1)"

definition rule_due :: "moment \<Rightarrow> instant \<Rightarrow> file_rule \<Rightarrow> burst option" where
  "rule_due now wall rule =
     Option.bind (file_burst rule) (\<lambda>b.
       if now < due_at rule b \<or> is_some_and (file_not_before rule) (\<lambda>until. wall < until) then None else Some b)"

definition rule_firing ::
  "trigger_core \<Rightarrow> moment \<Rightarrow> instant \<Rightarrow> (string \<times> string) \<times> file_rule \<Rightarrow> event_firing option" where
  "rule_firing core now wall entry =
     (case entry of ((wid, sid), rule) \<Rightarrow>
        Option.bind (rule_due now wall rule) (\<lambda>b.
          if own_run_recent core wid sid now then None
          else Some \<lparr>firing_workspace_id = wid, firing_schedule_id = sid,
                     firing_trigger_revision = file_trigger_revision rule, firing_cause = CauseFilesChanged,
                     firing_observed_at = burst_last_wall b, firing_chain_depth = attributed_depth core wid b\<rparr>))"

definition due_rule :: "moment \<Rightarrow> instant \<Rightarrow> file_rule \<Rightarrow> file_rule" where
  "due_rule now wall rule =
     (if rule_due now wall rule = None then rule
      else rule\<lparr>file_burst := None, file_not_before := Some (wall + cooldown)\<rparr>)"

definition due :: "moment \<Rightarrow> instant \<Rightarrow> trigger_core \<Rightarrow> event_firing list \<times> trigger_core" where
  "due now wall core =
     (if core_paused core
      then ([], core\<lparr>core_rules := map (\<lambda>(key, rule). (key, rule\<lparr>file_burst := None\<rparr>)) (core_rules core)\<rparr>)
      else
        (List.map_filter (rule_firing core now wall) (core_rules core),
         core\<lparr>core_rules := map (\<lambda>(key, rule). (key, due_rule now wall rule)) (core_rules core)\<rparr>))"

definition next_deadline :: "moment \<Rightarrow> instant \<Rightarrow> trigger_core \<Rightarrow> moment option" where
  "next_deadline now wall core =
     (if core_paused core then None
      else
        (let deadlines = List.map_filter (\<lambda>(_, rule).
             map_option (\<lambda>b. max (due_at rule b)
               (case keep_if (\<lambda>until. wall \<le> until) (file_not_before rule) of
                  Some until \<Rightarrow> now + (until - wall)
                | None \<Rightarrow> now)) (file_burst rule)) (core_rules core) in
         if deadlines = [] then None else Some (Min (set deadlines))))"

end
