(* ===== verification/Host_State.thy ===== *)
theory Host_State
  imports Workspace_Integrity Managed_Agents Triggers
begin

text \<open>
  The orchestration host as a state machine. Its state is the journal; a request is one call of the
  orchestration API, and a restart opens the journal again and recovers interrupted runs. Every reachable
  state is well formed: each project keeps its referential integrity, run identities are unique within a
  project, and every run satisfies the invariant of the coordinator.
\<close>

section \<open>Requests\<close>

datatype run_request =
    FlowControl revision flow_action
  | AdvanceAutomatic
  | RetryUncertainTask revision string revision
  | ReconcileTask revision string revision uncertain_resolution
  | LeaseScheduled revision string native_bridge_capabilities
  | LeaseNextScript revision string
  | LeaseNextPlugin revision string
  | LeaseNextPipeline revision string
  | PipelineOutcome string string pipeline_completion
  | CommitScript host_lease string
  | RejectScript host_lease string
  | RejectTask controlled_spawn_lease string
  | ReleaseScript host_lease
  | ScriptOutcome string string script_completion
  | RejectReadyTask string revision string
  | CommitCancel revision "string option"
  | TaskUncertain string revision uncertainty_identity
  | TerminalEvent string revision string completion_outcome "string option"
  | CommitLaunch controlled_spawn_lease string
  | ReleaseSpawn controlled_spawn_lease
  | MessageDelivered string
  | AgentTool string string agent_tool_operation native_bridge_capabilities

definition silent :: "'a run_change \<Rightarrow> unit run_change" where
  "silent f r = and_then (f r) (\<lambda>(_, r'). Inr ((), r'))"

fun serve_run :: "serde_json \<Rightarrow> run_request \<Rightarrow> unit run_change" where
  "serve_run sj (FlowControl e a) = silent (host_control_flow e a)"
| "serve_run sj AdvanceAutomatic = silent (host_advance sj)"
| "serve_run sj (RetryUncertainTask e i tr) = silent (host_retry_uncertain e i tr)"
| "serve_run sj (ReconcileTask e i tr res) = silent (host_reconcile e i tr res)"
| "serve_run sj (LeaseScheduled e l caps) = silent (lease_next_scheduled_task sj e l caps)"
| "serve_run sj (LeaseNextScript e l) = silent (host_lease_script sj e l)"
| "serve_run sj (LeaseNextPlugin e l) = silent (host_lease_plugin sj e l)"
| "serve_run sj (LeaseNextPipeline e l) = silent (host_lease_pipeline sj e l)"
| "serve_run sj (PipelineOutcome i child c) = silent (record_pipeline_outcome sj i child c)"
| "serve_run sj (CommitScript l x) = silent (commit_script_lease l x)"
| "serve_run sj (RejectScript l code) = silent (reject_leased_script l code)"
| "serve_run sj (RejectTask l code) = silent (reject_leased_task l code)"
| "serve_run sj (ReleaseScript l) = silent (release_script_lease l)"
| "serve_run sj (ScriptOutcome i x c) = silent (record_script_outcome sj i x c)"
| "serve_run sj (RejectReadyTask i tr code) = silent (host_reject_ready i tr code)"
| "serve_run sj (CommitCancel e step) = silent (commit_cancel_after_native_stop e step)"
| "serve_run sj (TaskUncertain i tr u) = silent (host_mark_uncertain i tr u)"
| "serve_run sj (TerminalEvent i tr session out res) = silent (record_terminal_event sj i tr session out res)"
| "serve_run sj (CommitLaunch l session) = silent (commit_launch_lease sj l session)"
| "serve_run sj (ReleaseSpawn l) = silent (release_spawn_lease l)"
| "serve_run sj (MessageDelivered m) = silent (mark_managed_message_delivered m)"
| "serve_run sj (AgentTool rid session tool caps) = silent (admit_tool sj caps rid session tool)"

datatype host_request =
    SaveProfile string "64 word option" agent_profile
  | SaveTeam string "64 word option" team_definition
  | SavePipeline string "64 word option" pipeline_definition
  | SaveCommand string "64 word option" launch_command_reference
  | DeleteProfile string string "64 word"
  | DeleteTeam string string "64 word"
  | DeletePipeline string string "64 word"
  | DeleteCommand string string "64 word"
  | SaveGraph save_graph_request
  | SaveSchedule string "64 word option" schedule_definition
  | EnableSchedule string string "64 word" bool
  | DeleteSchedule string string "64 word"
  | PauseAutomations bool
  | ClaimDue string string "64 word" instant instant "string option"
  | ClaimEvent event_firing instant "string option"
  | StartRun start_run_request "start_run_trigger option"
  | StartBoardRun start_run_request run_trigger
  | StartChild string pipeline_step_lease string
  | ChangeRun string string run_request

text \<open>The parameters of the host: the hash of occurrence identities, the journal's codec, \<^verbatim>\<open>chrono\<close> and the
  JSON functions of the orchestration crate.\<close>

record 'z host_env =
  env_sha256 :: "string \<Rightarrow> string"
  env_codec :: journal_codec
  env_chrono :: "'z chrono"
  env_json :: serde_json

fun serve :: "'z host_env \<Rightarrow> host_request \<Rightarrow> journal \<Rightarrow> journal" where
  "serve h (SaveProfile wid e v) j = snd (save_definition (env_codec h) profile_kind wid e v j)"
| "serve h (SaveTeam wid e v) j = snd (save_definition (env_codec h) team_kind wid e v j)"
| "serve h (SavePipeline wid e v) j = snd (save_definition (env_codec h) (pipeline_kind (env_json h)) wid e v j)"
| "serve h (SaveCommand wid e v) j = snd (save_definition (env_codec h) (command_kind (env_chrono h)) wid e v j)"
| "serve h (DeleteProfile wid i e) j = snd (delete_definition (env_codec h) profile_kind wid i e j)"
| "serve h (DeleteTeam wid i e) j = snd (delete_definition (env_codec h) team_kind wid i e j)"
| "serve h (DeletePipeline wid i e) j = snd (delete_definition (env_codec h) (pipeline_kind (env_json h)) wid i e j)"
| "serve h (DeleteCommand wid i e) j = snd (delete_definition (env_codec h) (command_kind (env_chrono h)) wid i e j)"
| "serve h (SaveGraph g) j = snd (save_graph (env_codec h) (env_chrono h) (env_json h) g j)"
| "serve h (SaveSchedule wid e v) j = snd (save_schedule (env_codec h) (env_chrono h) wid e v j)"
| "serve h (EnableSchedule wid i e b) j = snd (set_schedule_enabled (env_codec h) wid i e b j)"
| "serve h (DeleteSchedule wid i e) j = snd (delete_schedule (env_codec h) wid i e j)"
| "serve h (PauseAutomations b) j = snd (set_automations_paused (env_codec h) b j)"
| "serve h (ClaimDue wid i e now started failure) j =
     snd (claim_due_schedule (env_sha256 h) (env_codec h) (env_chrono h) (env_json h) wid i e now started failure j)"
| "serve h (ClaimEvent f now failure) j =
     snd (claim_event_occurrence (env_sha256 h) (env_codec h) (env_json h) f now failure j)"
| "serve h (StartRun req t) j = snd (create_run_with_trigger (env_codec h) (env_json h) req t j)"
| "serve h (StartBoardRun req t) j = snd (create_board_run (env_codec h) (env_json h) req t j)"
| "serve h (StartChild wid lease i) j = snd (start_pipeline_child (env_codec h) (env_json h) wid lease i j)"
| "serve h (ChangeRun wid rid q) j = snd (transact_run (env_codec h) wid rid (serve_run (env_json h) q) j)"

section \<open>Well-formed documents\<close>

definition workspace_ok :: "serde_json \<Rightarrow> workspace_orchestration \<Rightarrow> bool" where
  "workspace_ok sj w \<longleftrightarrow>
     integrity w \<and> distinct (map run_id (ws_runs w)) \<and> (\<forall>r\<in>set (ws_runs w). run_inv sj r)"

definition workspaces_ok :: "serde_json \<Rightarrow> workspace_orchestration list \<Rightarrow> bool" where
  "workspaces_ok sj ws \<longleftrightarrow>
     distinct (map ws_id ws) \<and> (\<forall>w\<in>set ws. \<not> is_blank_text (ws_id w) \<and> workspace_ok sj w)"

definition keeps_project ::
  "serde_json \<Rightarrow> (workspace_orchestration \<Rightarrow> 'e + ('a \<times> workspace_orchestration)) \<Rightarrow> bool" where
  "keeps_project sj f \<longleftrightarrow>
     (\<forall>w a w'. workspace_ok sj w \<longrightarrow> f w = Inr (a, w') \<longrightarrow> workspace_ok sj w' \<and> ws_id w' = ws_id w)"

definition keeps_workspaces ::
  "serde_json \<Rightarrow> (workspace_orchestration list \<Rightarrow> 'e + ('a \<times> workspace_orchestration list)) \<Rightarrow> bool" where
  "keeps_workspaces sj f \<longleftrightarrow> (\<forall>ws a ws'. workspaces_ok sj ws \<longrightarrow> f ws = Inr (a, ws') \<longrightarrow> workspaces_ok sj ws')"

definition keeps_run :: "serde_json \<Rightarrow> 'a run_change \<Rightarrow> bool" where
  "keeps_run sj f \<longleftrightarrow> (\<forall>r a r'. run_inv sj r \<longrightarrow> f r = Inr (a, r') \<longrightarrow> run_inv sj r' \<and> run_id r' = run_id r)"

lemma keepsD:
  "keeps_project sj f \<Longrightarrow> workspace_ok sj w \<Longrightarrow> f w = Inr (a, w') \<Longrightarrow> workspace_ok sj w' \<and> ws_id w' = ws_id w"
  "keeps_workspaces sj g \<Longrightarrow> workspaces_ok sj ws \<Longrightarrow> g ws = Inr (b, ws') \<Longrightarrow> workspaces_ok sj ws'"
  "keeps_run sj h \<Longrightarrow> run_inv sj r \<Longrightarrow> h r = Inr (c, r') \<Longrightarrow> run_inv sj r' \<and> run_id r' = run_id r"
  unfolding keeps_project_def keeps_workspaces_def keeps_run_def by iprover+

lemma keepsI:
  "(\<And>w a w'. workspace_ok sj w \<Longrightarrow> f w = Inr (a, w') \<Longrightarrow> workspace_ok sj w' \<and> ws_id w' = ws_id w) \<Longrightarrow> keeps_project sj f"
  "(\<And>ws b ws'. workspaces_ok sj ws \<Longrightarrow> g ws = Inr (b, ws') \<Longrightarrow> workspaces_ok sj ws') \<Longrightarrow> keeps_workspaces sj g"
  "(\<And>r c r'. run_inv sj r \<Longrightarrow> h r = Inr (c, r') \<Longrightarrow> run_inv sj r' \<and> run_id r' = run_id r) \<Longrightarrow> keeps_run sj h"
  unfolding keeps_project_def keeps_workspaces_def keeps_run_def by iprover+

lemma workspaces_ok_update:
  assumes "workspaces_ok sj ws" "i < length ws" "workspace_ok sj w" "ws_id w = ws_id (ws ! i)"
  shows "workspaces_ok sj (ws[i := w])"
proof -
  have "map ws_id (ws[i := w]) = map ws_id ws" using assms(2,4) by (simp add: list_eq_iff_nth_eq nth_list_update)
  moreover have "\<not> is_blank_text (ws_id v) \<and> workspace_ok sj v" if "v \<in> set (ws[i := w])" for v
    using that assms set_update_subset_insert[of ws i w] nth_mem[OF assms(2)] by (auto simp: workspaces_ok_def)
  ultimately show ?thesis using assms(1) by (simp add: workspaces_ok_def)
qed

lemma keeps_on_workspace:
  assumes "keeps_project sj f"
  shows "keeps_workspaces sj (on_workspace wid f)"
  unfolding keeps_workspaces_def
proof (intro allI impI)
  fix ws a ws' assume ok: "workspaces_ok sj ws" and "on_workspace wid f ws = Inr (a, ws')"
  then obtain i w where i: "position (\<lambda>w. ws_id w = wid) ws = Some i" "f (ws ! i) = Inr (a, w)" "ws' = ws[i := w]"
    by (auto simp: on_workspace_def split: option.splits)
  note p = position_Some[OF i(1)]
  have "workspace_ok sj (ws ! i)" using ok p nth_mem by (auto simp: workspaces_ok_def)
  from keepsD(1)[OF assms this i(2)] have "workspace_ok sj w" "ws_id w = ws_id (ws ! i)" by simp_all
  then show "workspaces_ok sj ws'" unfolding i(3) using p by (intro workspaces_ok_update[OF ok]) simp_all
qed

lemma workspace_empty_ok: "workspace_ok sj (workspace_empty wid)"
proof -
  have "pipeline_of_command (workspace_empty wid) = (\<lambda>_. None)"
    by (simp add: fun_eq_iff pipeline_of_command_def workspace_empty_def)
  then have "reference_cycle (workspace_empty wid) = None"
    by (simp add: reference_cycle_None refers_def child_commands_def acyclic_def)
  then show ?thesis
    by (simp add: workspace_ok_def integrity_def unique_ids_in_def closed_refs_def automation_refs_def ran_def
        profiles_of_def teams_of_def pipelines_of_def commands_of_def workspace_empty_def)
qed

lemma keeps_on_workspace_or_new:
  assumes "keeps_project sj f" "\<not> is_blank_text wid"
  shows "keeps_workspaces sj (on_workspace_or_new wid f)"
  unfolding keeps_workspaces_def
proof (intro allI impI)
  fix ws a ws' assume ok: "workspaces_ok sj ws" and f: "on_workspace_or_new wid f ws = Inr (a, ws')"
  show "workspaces_ok sj ws'"
  proof (cases "position (\<lambda>w. ws_id w = wid) ws")
    case None
    then obtain w where w: "f (workspace_empty wid) = Inr (a, w)" "ws' = ws @ [w]"
      using f unfolding on_workspace_or_new_def None option.case by auto
    have "workspace_ok sj w" "ws_id w = wid"
      using keepsD(1)[OF assms(1) workspace_empty_ok w(1)] by (simp_all add: workspace_empty_def)
    then show ?thesis using ok None assms(2) w(2) by (auto simp: workspaces_ok_def)
  next
    case (Some i)
    then have "on_workspace wid f ws = Inr (a, ws')" using f by (simp add: on_workspace_or_new_def on_workspace_def)
    then show ?thesis by (rule keepsD(2)[OF keeps_on_workspace[OF assms(1)] ok])
  qed
qed

lemma keeps_on_run:
  assumes "keeps_run sj f"
  shows "keeps_workspaces sj (on_run wid rid f)"
  unfolding on_run_def
proof (rule keeps_on_workspace, unfold keeps_project_def, intro allI impI)
  fix w a w' assume ok: "workspace_ok sj w"
    and "(case position (\<lambda>r. run_id r = rid) (ws_runs w) of None \<Rightarrow> Inl StoreNotFound
       | Some i \<Rightarrow> and_then (f (ws_runs w ! i)) (\<lambda>(a, r). Inr (a, w\<lparr>ws_runs := (ws_runs w)[i := r]\<rparr>))) = Inr (a, w')"
  then obtain i r where i: "position (\<lambda>r. run_id r = rid) (ws_runs w) = Some i" "f (ws_runs w ! i) = Inr (a, r)"
      "w' = w\<lparr>ws_runs := (ws_runs w)[i := r]\<rparr>"
    by (auto split: option.splits)
  note p = position_Some[OF i(1)]
  have "run_inv sj (ws_runs w ! i)" using ok p nth_mem by (auto simp: workspace_ok_def)
  from keepsD(3)[OF assms this i(2)] have r: "run_inv sj r" "run_id r = run_id (ws_runs w ! i)" by simp_all
  have "map run_id ((ws_runs w)[i := r]) = map run_id (ws_runs w)"
    using p r(2) by (simp add: list_eq_iff_nth_eq nth_list_update)
  moreover have "run_inv sj q" if "q \<in> set ((ws_runs w)[i := r])" for q
    using that ok r(1) set_update_subset_insert[of "ws_runs w" i r] by (auto simp: workspace_ok_def)
  ultimately show "workspace_ok sj w' \<and> ws_id w' = ws_id w"
    using ok by (simp add: i(3) workspace_ok_def)
qed

section \<open>Operations on runs\<close>

lemma keeps_coord:
  assumes "\<And>r. run_inv sj r \<Longrightarrow> step_ok sj r (snd (op r))"
  shows "keeps_run sj (coord err op)"
proof (rule keepsI(3))
  fix r a r' assume inv: "run_inv sj r" and "coord err op r = Inr (a, r')"
  then have "r' = snd (op r)" by (auto simp: coord_def split: prod.splits sum.splits)
  then show "run_inv sj r' \<and> run_id r' = run_id r" using assms[OF inv] by (simp add: step_ok_def)
qed

lemma keeps_returning: "keeps_run sj f \<Longrightarrow> keeps_run sj (returning f)"
proof (rule keepsI(3))
  fix r c r' assume f: "keeps_run sj f" "run_inv sj r" and "returning f r = Inr (c, r')"
  then obtain a where "f r = Inr (a, r')" by (auto simp: returning_def)
  then show "run_inv sj r' \<and> run_id r' = run_id r" by (rule keepsD(3)[OF f])
qed

lemma keeps_silent: "keeps_run sj f \<Longrightarrow> keeps_run sj (silent f)"
proof (rule keepsI(3))
  fix r c r' assume f: "keeps_run sj f" "run_inv sj r" and "silent f r = Inr (c, r')"
  then obtain a where "f r = Inr (a, r')" by (auto simp: silent_def)
  then show "run_inv sj r' \<and> run_id r' = run_id r" by (rule keepsD(3)[OF f])
qed

lemma keeps_then_run: "keeps_run sj f \<Longrightarrow> (\<And>a. keeps_run sj (g a)) \<Longrightarrow> keeps_run sj (then_run f g)"
proof (rule keepsI(3))
  fix r b r' assume f: "keeps_run sj f" and g: "\<And>a. keeps_run sj (g a)" and inv: "run_inv sj r" and "then_run f g r = Inr (b, r')"
  then obtain a r1 where r1: "f r = Inr (a, r1)" "g a r1 = Inr (b, r')" by (auto simp: then_run_def)
  have "run_inv sj r1" "run_id r1 = run_id r" using keepsD(3)[OF f inv r1(1)] by simp_all
  then show "run_inv sj r' \<and> run_id r' = run_id r" using keepsD(3)[OF g _ r1(2)] by simp
qed

lemma keeps_with_task_revision: "(\<And>tr. keeps_run sj (h tr)) \<Longrightarrow> keeps_run sj (with_task_revision i h)"
proof (rule keepsI(3))
  fix r c r' assume h: "\<And>tr. keeps_run sj (h tr)" and inv: "run_inv sj r" and "with_task_revision i h r = Inr (c, r')"
  then obtain tr where "h tr r = Inr (c, r')" by (auto simp: with_task_revision_def split: option.splits)
  then show "run_inv sj r' \<and> run_id r' = run_id r" by (rule keepsD(3)[OF h inv])
qed

lemma execute_steps:
  assumes "run_inv sj r"
  shows "step_ok sj r (snd (control_flow a e r))" "step_ok sj r (snd (retry_uncertain_task i tr e r))"
    "step_ok sj r (snd (reconcile_uncertain_task i tr res e r))" "step_ok sj r (snd (lease_next_task sj' e l r))"
    "step_ok sj r (snd (lease_next_script sj' l e r))" "step_ok sj r (snd (lease_next_plugin_step sj' l e r))"
    "step_ok sj r (snd (lease_next_pipeline_step sj' l e r))" "step_ok sj r (snd (complete_pipeline_task sj' i tr x pc e r))"
    "step_ok sj r (snd (dispatch_leased_script i tr l y e r))" "step_ok sj r (snd (release_task_lease i tr l e r))"
    "step_ok sj r (snd (reject_ready_task i tr f e r))" "step_ok sj r (snd (complete_script_task sj' i tr x sc e r))"
    "step_ok sj r (snd (cancel_task i e r))" "step_ok sj r (snd (cancel_run e r))"
    "step_ok sj r (snd (mark_task_uncertain i tr u e r))" "step_ok sj r (snd (complete_checked_task sj' i tr x oc t e r))"
    "step_ok sj r (snd (dispatch_leased_task sj' i tr l y e r))" "step_ok sj r (snd (mark_message_delivered m mr e r))"
    "step_ok sj r (snd (record_agent_request q s ac k e r))" "step_ok sj r (snd (accept_message ac intent e r))"
    "step_ok sj r (snd (lease_controlled_spawn sj' e ac i l r))" "step_ok sj r (snd (add_spawned_agent sj ac q p nm ins r))"
  subgoal using execute_step_ok[OF assms, of sj' "ControlFlow a" e] by simp
  subgoal using execute_step_ok[OF assms, of sj' "RetryUncertain i tr" e] by simp
  subgoal using execute_step_ok[OF assms, of sj' "Reconcile i tr res" e] by simp
  subgoal using execute_step_ok[OF assms, of sj' "LeaseNext l" e] by simp
  subgoal using execute_step_ok[OF assms, of sj' "LeaseScript l" e] by simp
  subgoal using execute_step_ok[OF assms, of sj' "LeasePlugin l" e] by simp
  subgoal using execute_step_ok[OF assms, of sj' "LeasePipeline l" e] by simp
  subgoal using execute_step_ok[OF assms, of sj' "CompletePipeline i tr x pc" e] by simp
  subgoal using execute_step_ok[OF assms, of sj' "DispatchScript i tr l y" e] by simp
  subgoal using execute_step_ok[OF assms, of sj' "ReleaseLease i tr l" e] by simp
  subgoal using execute_step_ok[OF assms, of sj' "RejectReady i tr f" e] by simp
  subgoal using execute_step_ok[OF assms, of sj' "CompleteScript i tr x sc" e] by simp
  subgoal using execute_step_ok[OF assms, of sj' "CancelTask i" e] by simp
  subgoal using execute_step_ok[OF assms, of sj' CancelRun e] by simp
  subgoal using execute_step_ok[OF assms, of sj' "MarkUncertain i tr u" e] by simp
  subgoal using execute_step_ok[OF assms, of sj' "CompleteChecked i tr x oc t" e] by simp
  subgoal using execute_step_ok[OF assms, of sj' "DispatchLeased i tr l y" e] by simp
  subgoal using execute_step_ok[OF assms, of sj' "MarkDelivered m mr" e] by simp
  subgoal using execute_step_ok[OF assms, of sj' "RecordRequest q s ac k" e] by simp
  subgoal using execute_step_ok[OF assms, of sj' "AcceptMessage ac intent" e] by simp
  subgoal using execute_step_ok[OF assms, of sj' "LeaseSpawn ac i l" e] by simp
  subgoal using step_ok_spawn[OF assms] by simp
  done

lemma keeps_current:
  assumes "\<And>r e. run_inv sj r \<Longrightarrow> step_ok sj r (snd (op e r))"
  shows "keeps_run sj (coord err (current_revision op))"
  by (rule keeps_coord) (simp add: current_revision_def assms)

lemma keeps_answer:
  assumes "\<And>r a r'. f r = Inr (a, r') \<Longrightarrow> r' = r"
  shows "keeps_run sj f"
  by (rule keepsI(3)) (use assms in blast)

lemmas run_combinators = keeps_returning keeps_silent keeps_then_run keeps_with_task_revision

lemma keeps_as_actor: "(\<And>actor. keeps_run sj (f actor)) \<Longrightarrow> keeps_run sj (as_actor session tool f)"
proof (rule keepsI(3))
  fix r c r' assume f: "\<And>actor. keeps_run sj (f actor)" and inv: "run_inv sj r" and "as_actor session tool f r = Inr (c, r')"
  then obtain actor where "f actor r = Inr (c, r')" by (auto simp: as_actor_def)
  then show "run_inv sj r' \<and> run_id r' = run_id r" by (rule keepsD(3)[OF f inv])
qed

lemma keeps_record: "keeps_run sj (host_record_request rid session actor k)"
  unfolding host_record_request_def by (intro run_combinators keeps_current execute_steps)

lemma keeps_send_once: "keeps_run sj (send_once rid actor recipient body)"
proof (rule keepsI(3))
  fix r c r' assume inv: "run_inv sj r" and s: "send_once rid actor recipient body r = Inr (c, r')"
  let ?op = "then_run (coord message_error (current_revision
      (accept_message actor \<lparr>intent_id = rid, intent_recipient_member_id = recipient, intent_body = body\<rparr>)))
    (\<lambda>_ r. Inr (AdmitSend rid recipient body False, r))"
  have "keeps_run sj ?op" by (intro run_combinators keeps_current execute_steps keeps_answer) auto
  moreover have "r' = r \<or> ?op r = Inr (c, r')"
    using s by (auto simp: send_once_def split: option.splits if_splits)
  ultimately show "run_inv sj r' \<and> run_id r' = run_id r" using keepsD(3)[of sj ?op, OF _ inv] inv by blast
qed

lemma keeps_admit_tool: "keeps_run sj (admit_tool sj caps rid session tool)"
proof (cases tool)
  case ToolRoster
  then show ?thesis
    by (simp add: admit_roster_def) (intro keeps_as_actor keeps_then_run keeps_record keeps_answer, auto)
next
  case (ToolObserve target)
  have "keeps_run sj (\<lambda>r. and_then (denied_unless (authorize_observe (def_team (run_definition r)) actor target)) (\<lambda>_.
         then_run (host_record_request rid session actor (Observe target)) (\<lambda>_ r.
           Inr (AdmitObserve target (history_references_for_member r target), r)) r))" for actor
  proof (rule keepsI(3))
    let ?op = "then_run (host_record_request rid session actor (Observe target)) (\<lambda>_ r.
           Inr (AdmitObserve target (history_references_for_member r target), r))"
    fix r c r' assume inv: "run_inv sj r" and s: "and_then (denied_unless (authorize_observe (def_team (run_definition r)) actor target)) (\<lambda>_. ?op r) = Inr (c, r')"
    have "keeps_run sj ?op" by (intro keeps_then_run keeps_record keeps_answer) auto
    then show "run_inv sj r' \<and> run_id r' = run_id r" using keepsD(3)[of sj ?op, OF _ inv] s by simp
  qed
  then show ?thesis using ToolObserve by (simp add: admit_observe_def keeps_as_actor)
next
  case (ToolSend recipient body)
  have "keeps_run sj (\<lambda>r. and_then (denied_unless (authorize_send (def_team (run_definition r)) actor recipient)) (\<lambda>_.
         then_run (host_record_request rid session actor (Send recipient)) (\<lambda>_. send_once rid actor recipient body) r))" for actor
  proof (rule keepsI(3))
    let ?op = "then_run (host_record_request rid session actor (Send recipient)) (\<lambda>_. send_once rid actor recipient body)"
    fix r c r' assume inv: "run_inv sj r" and s: "and_then (denied_unless (authorize_send (def_team (run_definition r)) actor recipient)) (\<lambda>_. ?op r) = Inr (c, r')"
    have "keeps_run sj ?op" by (intro keeps_then_run keeps_record keeps_send_once)
    then show "run_inv sj r' \<and> run_id r' = run_id r" using keepsD(3)[of sj ?op, OF _ inv] s by simp
  qed
  then show ?thesis using ToolSend by (simp add: admit_send_def keeps_as_actor)
next
  case (ToolSpawnAgent pid name ins)
  have lease: "keeps_run sj (\<lambda>r. case committed_spawn r i of Some committed \<Rightarrow> Inr (committed, r)
     | None \<Rightarrow> then_run (coord any_conflict (current_revision (\<lambda>e. lease_controlled_spawn sj e actor i rid)))
             (\<lambda>lease r. Inr (AdmitSpawn lease, r)) r)" for i actor
  proof (rule keepsI(3))
    let ?op = "then_run (coord any_conflict (current_revision (\<lambda>e. lease_controlled_spawn sj e actor i rid)))
             (\<lambda>lease r. Inr (AdmitSpawn lease, r))"
    fix r c r' assume inv: "run_inv sj r" and s: "(case committed_spawn r i of Some committed \<Rightarrow> Inr (committed, r) | None \<Rightarrow> ?op r) = Inr (c, r')"
    have "keeps_run sj ?op" by (intro run_combinators keeps_current execute_steps keeps_answer) auto
    then show "run_inv sj r' \<and> run_id r' = run_id r" using keepsD(3)[of sj ?op, OF _ inv] s inv by (auto split: option.splits)
  qed
  have spawn: "keeps_run sj (if first then coord (\<lambda>_. StoreDenied) (add_spawned_agent sj actor rid pid name ins)
                 else (\<lambda>r. Inr (''agent-'' @ rid, r)))" for first actor
    by (cases first) (simp_all only: if_True if_False keeps_coord execute_steps(22), rule keeps_answer, auto)
  show ?thesis using ToolSpawnAgent
    by (simp add: admit_spawn_agent_def) (intro keeps_as_actor keeps_then_run keeps_record spawn lease)
next
  case (ToolSpawn i)
  have lease: "keeps_run sj (\<lambda>r. case (if first then None else committed_spawn r i) of Some committed \<Rightarrow> Inr (committed, r)
     | None \<Rightarrow> then_run (coord spawn_error (current_revision (\<lambda>e. lease_controlled_spawn sj e actor i rid))) (\<lambda>lease r.
             if is_ok (validate_profile_capabilities (lease_profile lease) caps) then Inr (AdmitSpawn lease, r)
             else Inl StoreInvalid) r)" for first actor
  proof (rule keepsI(3))
    let ?op = "then_run (coord spawn_error (current_revision (\<lambda>e. lease_controlled_spawn sj e actor i rid))) (\<lambda>lease r.
             if is_ok (validate_profile_capabilities (lease_profile lease) caps) then Inr (AdmitSpawn lease, r)
             else Inl StoreInvalid)"
    fix r c r' assume inv: "run_inv sj r" and s: "(case (if first then None else committed_spawn r i) of Some committed \<Rightarrow> Inr (committed, r) | None \<Rightarrow> ?op r) = Inr (c, r')"
    have "keeps_run sj ?op" by (intro run_combinators keeps_current execute_steps keeps_answer) (auto split: if_splits)
    then show "run_inv sj r' \<and> run_id r' = run_id r" using keepsD(3)[of sj ?op, OF _ inv] s inv by (auto split: option.splits if_splits)
  qed
  show ?thesis using ToolSpawn
    by (simp add: admit_spawn_def) (intro keeps_as_actor keeps_then_run keeps_record lease)
qed

lemma keeps_delivered: "keeps_run sj (mark_managed_message_delivered m)"
proof (rule keepsI(3))
  fix r c r' assume inv: "run_inv sj r" and s: "mark_managed_message_delivered m r = Inr (c, r')"
  have k: "keeps_run sj (returning (coord any_conflict (current_revision (mark_message_delivered m rev))))" for rev
    by (intro run_combinators keeps_current execute_steps)
  from s obtain rev where "returning (coord any_conflict (current_revision (mark_message_delivered m rev))) r = Inr (c, r')"
    by (auto simp: mark_managed_message_delivered_def split: option.splits)
  then show "run_inv sj r' \<and> run_id r' = run_id r" by (rule keepsD(3)[OF k inv])
qed

lemma keeps_host_advance: "keeps_run sj (host_advance sj)"
  by (rule keepsI(3)) (use step_ok_automatic(1) in \<open>auto simp: host_advance_def step_ok_def\<close>)

lemma keeps_lease_scheduled: "keeps_run sj (lease_next_scheduled_task sj e l caps)"
  unfolding lease_next_scheduled_task_def
  by (intro keeps_then_run keeps_coord execute_steps keeps_answer) (auto split: if_splits)

lemma keeps_serve_run: "keeps_run sj (serve_run sj q)"
  by (cases q)
    (simp_all add: keeps_silent keeps_delivered keeps_host_advance keeps_lease_scheduled keeps_admit_tool keeps_returning
      keeps_coord keeps_current keeps_with_task_revision keeps_then_run execute_steps
      host_control_flow_def host_retry_uncertain_def host_reconcile_def host_lease_script_def host_lease_plugin_def
      host_lease_pipeline_def record_pipeline_outcome_def commit_script_lease_def reject_leased_script_def
      reject_leased_task_def reject_leased_def release_script_lease_def record_script_outcome_def host_reject_ready_def
      host_mark_uncertain_def record_terminal_event_def commit_launch_lease_def release_spawn_lease_def
      commit_cancel_after_native_stop_def split: option.split)

section \<open>Starts and claims\<close>

lemma create_run_value_ok:
  assumes "create_run_value sj req t w = Inr (r, w')"
  shows "w' = w\<lparr>ws_runs := ws_runs w @ [r]\<rparr>" "run_inv sj r" "run_id r = start_run_id req" "run_trigger r = t"
    "start_run_id req \<notin> run_id ` set (ws_runs w)" "run_status r = RunRunning"
proof -
  from assms obtain d where n: "new_started_run sj (start_run_id req) d (start_inputs req) t (start_use_pinned_data req) = Inr r"
    and w': "w' = w\<lparr>ws_runs := ws_runs w @ [r]\<rparr>" and fresh: "\<forall>q\<in>set (ws_runs w). run_id q \<noteq> start_run_id req"
    by (auto simp: create_run_value_def list_ex_iff split: if_splits)
  show "w' = w\<lparr>ws_runs := ws_runs w @ [r]\<rparr>" by (fact w')
  show "start_run_id req \<notin> run_id ` set (ws_runs w)" using fresh by auto
  show "run_inv sj r" by (rule new_run_inv[OF n])
  show "run_id r = start_run_id req" "run_trigger r = t" "run_status r = RunRunning"
    using n by (auto simp: new_started_run_def Let_def split: if_splits)
qed

lemma workspace_ok_add_run:
  assumes "workspace_ok sj w" "create_run_value sj req t w = Inr (r, w')"
  shows "workspace_ok sj w'" "ws_id w' = ws_id w"
  using assms(1) create_run_value_ok[OF assms(2)] by (auto simp: workspace_ok_def)

lemma start_claimed_cases:
  obtains (started) r req where "create_run_value sj req (Some t) w = Inr (r, decided_workspace (start_claimed sj v key t w))"
      "start_run_id req = key" "decided_run (start_claimed sj v key t w) = Some r"
      "decided_outcome (start_claimed sj v key t w) = OccurrenceStarted"
  | (failed) code where "start_claimed sj v key t w = decided OccurrenceFailed (Some code) w"
proof (cases "and_then (schedule_run_request w (ws_id w) v key) (\<lambda>req. create_run_value sj req (Some t) w)")
  case (Inl e)
  then show ?thesis using failed by (simp add: start_claimed_def)
next
  case (Inr rw)
  then obtain r w' req where "rw = (r, w')" "schedule_run_request w (ws_id w) v key = Inr req"
      "create_run_value sj req (Some t) w = Inr (r, w')"
    by (cases rw) auto
  moreover from this have "start_run_id req = key" by (auto simp: schedule_run_request_def)
  ultimately show ?thesis using started Inr by (simp add: start_claimed_def)
qed

text \<open>Deciding a claim changes nothing but the runs.\<close>

lemma decided_simps [simp]:
  "decided_workspace (decided out code w) = w" "decided_run (decided out code w) = None" "decided_outcome (decided out code w) = out"
  by (simp_all add: decided_def)

lemma workspace_ok_start_claimed:
  assumes "workspace_ok sj w"
  shows "workspace_ok sj (decided_workspace (start_claimed sj v key t w))"
    "ws_id (decided_workspace (start_claimed sj v key t w)) = ws_id w"
    "ws_schedules (decided_workspace (start_claimed sj v key t w)) = ws_schedules w"
proof -
  let ?d = "start_claimed sj v key t w"
  have "workspace_ok sj (decided_workspace ?d) \<and> ws_id (decided_workspace ?d) = ws_id w \<and>
      ws_schedules (decided_workspace ?d) = ws_schedules w"
  proof (cases rule: start_claimed_cases[of sj t w v key])
    case (started r req)
    then show ?thesis using workspace_ok_add_run[OF assms started(1)] create_run_value_ok(1)[OF started(1)] by simp
  next
    case (failed code)
    then show ?thesis using assms by simp
  qed
  then show "workspace_ok sj (decided_workspace ?d)" "ws_id (decided_workspace ?d) = ws_id w"
    "ws_schedules (decided_workspace ?d) = ws_schedules w" by simp_all
qed

lemma workspace_ok_record_claim:
  assumes "workspace_ok sj (decided_workspace d)" "schedule_index (decided_workspace d) i = Some n"
    "\<And>s. stored_value (change s) = stored_value s" "record_claim n d occ change = Inr (claim, w')"
  shows "workspace_ok sj w'" "ws_id w' = ws_id (decided_workspace d)"
proof -
  let ?w = "decided_workspace d"
  from assms(4) obtain s where s: "w' = ?w\<lparr>ws_schedules := (ws_schedules ?w)[n := s]\<rparr>"
      "stored_value s = stored_value (ws_schedules ?w ! n)"
    using assms(3) by (auto simp: record_claim_def Let_def)
  have "integrity w'" unfolding s(1)
    by (rule integrity_same_value[OF _ assms(2) s(2)]) (use assms(1) in \<open>simp add: workspace_ok_def\<close>)
  then show "workspace_ok sj w'" "ws_id w' = ws_id ?w" using assms(1) by (simp_all add: s(1) workspace_ok_def)
qed

lemma decisions_ok:
  assumes "workspace_ok sj w"
  shows "workspace_ok sj (decided_workspace (decide_due sj failure missed key s w)) \<and>
      ws_id (decided_workspace (decide_due sj failure missed key s w)) = ws_id w \<and>
      ws_schedules (decided_workspace (decide_due sj failure missed key s w)) = ws_schedules w"
    "workspace_ok sj (decided_workspace (decide_event sj f now failure paused key event source s w)) \<and>
      ws_id (decided_workspace (decide_event sj f now failure paused key event source s w)) = ws_id w \<and>
      ws_schedules (decided_workspace (decide_event sj f now failure paused key event source s w)) = ws_schedules w"
  using assms workspace_ok_start_claimed[OF assms] by (simp_all add: decide_due_def decide_event_def)

lemma claim_changes: "stored_value (advance_due following changed s) = stored_value s" "stored_value (disable_if b s) = stored_value s"
  by (simp_all add: advance_due_def disable_if_def)

lemma keeps_claims:
  "keeps_project sj (claim_due_value sha256 ch sj i expected now started failure)"
  "keeps_project sj (claim_event_value sha256 sj f now failure paused)"
proof -
  show "keeps_project sj (claim_due_value sha256 ch sj i expected now started failure)"
  proof (rule keepsI(1))
    fix w a w' assume ok: "workspace_ok sj w" and c: "claim_due_value sha256 ch sj i expected now started failure w = Inr (a, w')"
    from c obtain n missed key occ following changed where n: "schedule_index w i = Some n"
        "record_claim n (decide_due sj failure missed key (ws_schedules w ! n) w) occ (advance_due following changed) = Inr (a, w')"
      by (auto simp: claim_due_value_def Let_def split: option.splits if_splits)
    note d = decisions_ok(1)[OF ok, of failure missed key "ws_schedules w ! n"]
    show "workspace_ok sj w' \<and> ws_id w' = ws_id w"
      using workspace_ok_record_claim[OF _ _ claim_changes(1) n(2), of sj i] d n(1) by (simp add: schedule_index_def)
  qed
  show "keeps_project sj (claim_event_value sha256 sj f now failure paused)"
  proof (rule keepsI(1))
    fix w a w' assume ok: "workspace_ok sj w" and c: "claim_event_value sha256 sj f now failure paused w = Inr (a, w')"
    from c obtain n key event source occ b where n: "schedule_index w (firing_schedule_id f) = Some n"
        "record_claim n (decide_event sj f now failure paused key event source (ws_schedules w ! n) w) occ (disable_if b) = Inr (a, w')"
      by (auto simp: claim_event_value_def Let_def split: option.splits if_splits)
    note d = decisions_ok(2)[OF ok, of f now failure paused key event source "ws_schedules w ! n"]
    show "workspace_ok sj w' \<and> ws_id w' = ws_id w"
      using workspace_ok_record_claim[OF _ _ claim_changes(2) n(2), of sj "firing_schedule_id f"] d n(1) by (simp add: schedule_index_def)
  qed
qed

section \<open>Definitions, schedules and starts\<close>

lemma keeps_integrity:
  assumes "\<And>w a w'. integrity w \<Longrightarrow> f w = Inr (a, w') \<Longrightarrow> integrity w'"
    "\<And>w a w'. integrity w \<Longrightarrow> f w = Inr (a, w') \<Longrightarrow> ws_runs w' = ws_runs w"
    "\<And>w a w'. integrity w \<Longrightarrow> f w = Inr (a, w') \<Longrightarrow> ws_id w' = ws_id w"
  shows "keeps_project sj f"
proof (rule keepsI(1))
  fix w a w' assume ok: "workspace_ok sj w" and f: "f w = Inr (a, w')"
  then have "integrity w" by (simp add: workspace_ok_def)
  from assms[OF this f] ok show "workspace_ok sj w' \<and> ws_id w' = ws_id w" by (simp add: workspace_ok_def)
qed

lemma keeps_saves:
  "keeps_project sj (save_value profile_kind e vp)" "keeps_project sj (save_value team_kind e vt)"
  "keeps_project sj (save_value (pipeline_kind sj') e vl)" "keeps_project sj (save_value (command_kind ch) e vc)"
  by (rule keeps_integrity, erule (1) integrity_save_profile, erule profile_laws.save_value_ok, erule profile_laws.save_value_ok)
     (rule keeps_integrity, erule (1) integrity_save_team, erule team_laws.save_value_ok, erule team_laws.save_value_ok,
      rule keeps_integrity, erule (1) integrity_save_pipeline, erule pipeline_laws.save_value_ok, erule pipeline_laws.save_value_ok,
      rule keeps_integrity, erule (1) integrity_save_command, erule command_laws.save_value_ok, erule command_laws.save_value_ok)

lemma unique_kind_ids:
  assumes "integrity w"
  shows "distinct (kind_ids profile_kind w)" "distinct (kind_ids team_kind w)" "distinct (kind_ids (pipeline_kind sj) w)"
    "distinct (kind_ids (command_kind ch) w)"
  using integrityD(7)[OF assms] by (simp_all add: unique_ids_in_def)

lemma keeps_deletes:
  "keeps_project sj (delete_value profile_kind i e)" "keeps_project sj (delete_value team_kind i e)"
  "keeps_project sj (delete_value (pipeline_kind sj') i e)" "keeps_project sj (delete_value (command_kind ch) i e)"
  subgoal by (rule keeps_integrity, erule (1) integrity_delete_profile)
    (erule (1) profile_laws.delete_value_ok[OF _ unique_kind_ids(1)])+
  subgoal by (rule keeps_integrity, erule (1) integrity_delete_team)
    (erule (1) team_laws.delete_value_ok[OF _ unique_kind_ids(2)])+
  subgoal by (rule keeps_integrity, erule (1) integrity_delete_pipeline)
    (erule (1) pipeline_laws.delete_value_ok[OF _ unique_kind_ids(3)])+
  subgoal by (rule keeps_integrity, erule (1) integrity_delete_command)
    (erule (1) command_laws.delete_value_ok[OF _ unique_kind_ids(4)])+
  done

lemma put_graph_definitions_runs:
  "put_graph_definitions profile_kind reqs w = Inr w' \<Longrightarrow> ws_runs w' = ws_runs w \<and> ws_id w' = ws_id w"
  using put_graph_profiles[of reqs w w'] by auto

lemma keeps_graph:
  assumes "validate_graph_request sj g = Inr ()"
  shows "keeps_workspaces sj (\<lambda>ws. and_then (apply_graph_in ch sj g ws) (\<lambda>(_, ws). Inr ((), ws)))"
proof -
  let ?f = "\<lambda>w. and_then (apply_graph ch sj g w) (\<lambda>w. Inr ((), w))"
  have "keeps_project sj ?f"
  proof (rule keepsI(1))
    fix w a w' assume ok: "workspace_ok sj w" and f: "?f w = Inr (a, w')"
    then have g: "apply_graph ch sj g w = Inr w'" by auto
    have "integrity w'" using integrity_apply_graph[OF _ assms g] ok by (simp add: workspace_ok_def)
    moreover from g have "ws_runs w' = ws_runs w \<and> ws_id w' = ws_id w"
      by (rule apply_graph_steps) (auto dest!: put_graph_frame put_graph_definitions_runs)
    ultimately show "workspace_ok sj w' \<and> ws_id w' = ws_id w" using ok by (simp add: workspace_ok_def)
  qed
  moreover have "\<not> is_blank_text (graph_workspace_id g)"
    using assms by (auto simp: validate_graph_request_def split: if_splits)
  ultimately have k: "keeps_workspaces sj (on_workspace_or_new (graph_workspace_id g) ?f)"
    by (rule keeps_on_workspace_or_new)
  show ?thesis
  proof (rule keepsI(2))
    fix ws b ws' assume ok: "workspaces_ok sj ws"
      and "and_then (apply_graph_in ch sj g ws) (\<lambda>(_, ws). Inr ((), ws)) = Inr (b, ws')"
    then obtain u where "on_workspace_or_new (graph_workspace_id g) ?f ws = Inr (u, ws')"
      by (auto simp: apply_graph_in_def Let_def)
    then show "workspaces_ok sj ws'" by (rule keepsD(2)[OF k ok])
  qed
qed

lemma keeps_schedules:
  "keeps_project sj (save_schedule_value ch e v)" "keeps_project sj (set_enabled_value i er b)"
  "keeps_project sj (delete_schedule_value i er)"
  subgoal by (rule keeps_integrity, erule (1) integrity_save_schedule)
    (auto simp: save_schedule_value_def split: if_splits option.splits)
  subgoal by (rule keeps_integrity, erule (1) integrity_set_enabled)
    (auto simp: set_enabled_value_def Let_def split: if_splits option.splits)
  subgoal by (rule keeps_integrity, erule (1) integrity_delete_schedule)
    (auto simp: delete_schedule_value_def split: if_splits option.splits)
  done

lemma keeps_create: "keeps_project sj (create_run_value sj req t)"
  by (rule keepsI(1)) (simp add: workspace_ok_add_run)

lemma keeps_child: "keeps_project sj (start_child_value sj lease i)"
proof (rule keepsI(1))
  fix w a w' assume ok: "workspace_ok sj w" and c: "start_child_value sj lease i w = Inr (a, w')"
  let ?op = "dispatch_leased_script (hl_step_id lease) (hl_task_revision lease) (hl_lease_id lease)"
  from c obtain req t child w1 n parent where
    w1: "create_run_value sj req (Some t) w = Inr (child, w1)" and
    n: "position (\<lambda>r. run_id r = hl_run_id lease) (ws_runs w1) = Some n" and
    p: "snd (?op \<lparr>execution_id = run_id child\<rparr> (run_revision (ws_runs w1 ! n)) (ws_runs w1 ! n)) = parent" and
    w': "w' = w1\<lparr>ws_runs := (ws_runs w1)[n := parent]\<rparr>"
    by (auto simp: start_child_value_def current_revision_def split: option.splits sum.splits prod.splits)
  note ok1 = workspace_ok_add_run[OF ok w1] and pos = position_Some[OF n]
  have inv: "run_inv sj (ws_runs w1 ! n)" using ok1(1) pos nth_mem by (auto simp: workspace_ok_def)
  have par: "run_inv sj parent" "run_id parent = run_id (ws_runs w1 ! n)"
    using execute_steps(9)[OF inv] p by (auto simp: step_ok_def)
  have "map run_id ((ws_runs w1)[n := parent]) = map run_id (ws_runs w1)"
    using pos par(2) by (simp add: list_eq_iff_nth_eq nth_list_update)
  moreover have "run_inv sj q" if "q \<in> set ((ws_runs w1)[n := parent])" for q
    using that ok1(1) par(1) set_update_subset_insert[of "ws_runs w1" n parent] by (auto simp: workspace_ok_def)
  ultimately show "workspace_ok sj w' \<and> ws_id w' = ws_id w" using ok1 by (simp add: w' workspace_ok_def)
qed

section \<open>Restarts\<close>

lemma restore_runs_keep:
  assumes "restore_runs rs = Inr rs'" "\<forall>r\<in>set rs. run_inv sj r"
  shows "map run_id rs' = map run_id rs \<and> (\<forall>r\<in>set rs'. run_inv sj r)"
  using assms
proof (induction rs arbitrary: rs')
  case (Cons r rs)
  then obtain r1 rs1 where r1: "snd (restore (run_revision r) r) = r1" "restore_runs rs = Inr rs1" "rs' = r1 # rs1"
    by (auto split: prod.splits sum.splits)
  have "step_ok sj r r1" using execute_step_ok[of sj r sj Restore "run_revision r"] Cons.prems(2) r1(1) by simp
  then show ?case using Cons.IH[OF r1(2)] Cons.prems(2) r1(3) by (simp add: step_ok_def)
qed simp

lemma restore_workspaces_keep:
  assumes "restore_workspaces ws = Inr ws'" "\<forall>w\<in>set ws. workspace_ok sj w"
  shows "map ws_id ws' = map ws_id ws \<and> (\<forall>w\<in>set ws'. workspace_ok sj w)"
  using assms
proof (induction ws arbitrary: ws')
  case (Cons w ws)
  then obtain rs ws1 where rs: "restore_runs (ws_runs w) = Inr rs" "restore_workspaces ws = Inr ws1"
      "ws' = w\<lparr>ws_runs := rs\<rparr> # ws1" by auto
  have "map run_id rs = map run_id (ws_runs w) \<and> (\<forall>r\<in>set rs. run_inv sj r)"
    by (rule restore_runs_keep[OF rs(1)]) (use Cons.prems(2) in \<open>simp add: workspace_ok_def\<close>)
  then have "workspace_ok sj (w\<lparr>ws_runs := rs\<rparr>)" using Cons.prems(2) by (simp add: workspace_ok_def)
  then show ?case using Cons.IH[OF rs(2)] Cons.prems(2) rs(3) by simp
qed simp

lemma keeps_recovery: "keeps_workspaces sj (\<lambda>ws. and_then (restore_workspaces ws) (\<lambda>ws. Inr ((), ws)))"
proof (rule keepsI(2))
  fix ws b ws' assume ok: "workspaces_ok sj ws" and "and_then (restore_workspaces ws) (\<lambda>ws. Inr ((), ws)) = Inr (b, ws')"
  then have r: "restore_workspaces ws = Inr ws'" by auto
  have k: "map ws_id ws' = map ws_id ws \<and> (\<forall>w\<in>set ws'. workspace_ok sj w)"
    by (rule restore_workspaces_keep[OF r]) (use ok in \<open>simp add: workspaces_ok_def\<close>)
  then have "ws_id ` set ws' = ws_id ` set ws" by (metis list.set_map)
  with k ok show "workspaces_ok sj ws'" unfolding workspaces_ok_def by (metis imageE imageI)
qed

section \<open>The journal\<close>

text \<open>Every document a restart could read is well formed, and so is the current one.\<close>

definition document_ok :: "serde_json \<Rightarrow> store_document \<Rightarrow> bool" where
  "document_ok sj d \<longleftrightarrow> store_version d = STORE_VERSION \<and> workspaces_ok sj (store_workspaces d)"

definition journal_safe :: "journal_codec \<Rightarrow> serde_json \<Rightarrow> journal \<Rightarrow> bool" where
  "journal_safe c sj j \<longleftrightarrow>
     document_ok sj (journal_current j) \<and>
     (\<forall>(g, d)\<in>set (readable c sj (dir_files (journal_dir j))). document_ok sj d)"

lemma migrate_run_inv:
  assumes "journal_codec_ok c" "run_inv sj r" "migrate_run c sj r = Some r'"
  shows "r' = r"
proof -
  obtain s where "serialize_run c r = Some s" using assms(3) by (auto simp: migrate_run_def Option.bind_eq_Some_conv)
  then have s: "serialize_run c r = Some s" "decode_run c s = Some r" using assms(1) by (simp_all add: journal_codec_ok_def)
  have "upgrade_run r = r" using assms(2) by (simp add: upgrade_run_def run_inv_def ORCHESTRATION_SCHEMA_VERSION_def)
  then show ?thesis using assms(3) s by (auto simp: migrate_run_def deserialize_run_def split: sum.splits)
qed

lemma migrate_workspaces_inv:
  assumes "journal_codec_ok c" "\<forall>w\<in>set ws. \<forall>r\<in>set (ws_runs w). run_inv sj r" "migrate_workspaces c sj seen ws = Some ws'"
  shows "ws' = ws"
  using assms(2,3)
proof (induction ws arbitrary: seen ws')
  case (Cons w ws)
  from Cons.prems(2) obtain runs ws1 where w: "those (map (migrate_run c sj) (ws_runs w)) = Some runs"
      "migrate_workspaces c sj (bs_insert (ws_id w) seen) ws = Some ws1" "ws' = w\<lparr>ws_runs := runs\<rparr> # ws1"
    by (auto simp: Option.bind_eq_Some_conv split: if_splits)
  have "those (map (migrate_run c sj) rs) = Some rs' \<Longrightarrow> \<forall>r\<in>set rs. run_inv sj r \<Longrightarrow> rs' = rs" for rs rs'
    by (induction rs arbitrary: rs') (auto split: option.splits dest: migrate_run_inv[OF assms(1)])
  then have "runs = ws_runs w" using w(1) Cons.prems(1) by simp
  then show ?case using Cons.IH[OF _ w(2)] Cons.prems(1) w(3) by simp
qed simp

lemma migrate_document_inv:
  assumes "journal_codec_ok c" "document_ok sj d" "migrate_document c sj d = Some d'"
  shows "d' = d"
proof -
  from assms(3) obtain ws where ws: "migrate_workspaces c sj [] (store_workspaces d) = Some ws"
      "d' = d\<lparr>store_workspaces := ws, store_version := STORE_VERSION\<rparr>"
    by (auto simp: migrate_document_def)
  have "ws = store_workspaces d"
    by (rule migrate_workspaces_inv[OF assms(1) _ ws(1)])
      (use assms(2) in \<open>simp add: document_ok_def workspaces_ok_def workspace_ok_def\<close>)
  then show ?thesis using ws(2) assms(2) by (simp add: document_ok_def)
qed

lemma readable_filter: "set (readable c sj (filter P files)) \<subseteq> set (readable c sj files)"
  by (induction files) (auto simp: readable_def List.map_filter_simps split: option.splits)

lemma readable_written:
  assumes "journal_codec_ok c" "encode_store c staged = Some bytes" "document_ok sj staged"
  shows "set (readable c sj [(journal_path (store_generation staged), FileBytes (take k bytes))]) \<subseteq>
           {(store_generation staged, staged)}"
  using migrate_document_inv[OF assms(1,3)] read_written[OF assms(1,2), of sj k] assms(3)
  by (auto simp: readable_new document_ok_def split: option.splits if_splits)

lemma journal_safe_transact_document:
  assumes "journal_codec_ok c" "journal_safe c sj j" "keeps_header change" "transact_document c change j = (r, j')"
    "\<And>a staged. change (journal_current j) = Inr (a, staged) \<Longrightarrow> workspaces_ok sj (store_workspaces staged)"
  shows "journal_safe c sj j'"
proof -
  have cur: "store_version (journal_current j) = STORE_VERSION" using assms(2) by (simp add: journal_safe_def document_ok_def)
  have staged: "document_ok sj staged"
    if "spec_change change (journal_current j) = Inr (a, staged)" "store_version staged = store_version (journal_current j)" for a staged
    using that cur assms(5) by (auto simp: spec_change_def document_ok_def split: if_splits)
  have old: "document_ok sj d" if "(g, d) \<in> set (readable c sj (dir_files (journal_dir j)))" for g d
    using assms(2) that by (auto simp: journal_safe_def)
  show ?thesis
    using assms(4,3)
  proof (cases rule: transact_document_cases)
    case (refused e)
    then show ?thesis using assms(2) by simp
  next
    case (failed a staged e files)
    note ok = staged[OF failed(1,8)]
    have "set (readable c sj files) \<subseteq> {(store_generation staged, staged)}"
      using failed(5) readable_written[OF assms(1) _ ok] by (elim disjE exE conjE) simp_all
    then show ?thesis
      using assms(2) old ok failed(3,4) by (auto simp: journal_safe_def readable_append)
  next
    case (committed a staged bytes)
    note ok = staged[OF committed(1,8)]
    have "set (readable c sj (dir_files (journal_dir j'))) \<subseteq>
        set (readable c sj (dir_files (journal_dir j) @ [(journal_path (store_generation staged), FileBytes (take (length bytes) bytes))]))"
      unfolding committed(5) remove_older_generations_def add_file_def
      by (auto simp: readable_append dest!: readable_filter[THEN subsetD])
    then show ?thesis
      using readable_written[OF assms(1) committed(4) ok, of "length bytes"] old ok committed(3)
      by (auto simp: journal_safe_def readable_append)
  qed
qed

lemma journal_safe_transact:
  assumes "journal_codec_ok c" "journal_safe c sj j" "transact_automations c change j = (r, j')"
    "\<And>paused. keeps_workspaces sj (change paused)"
  shows "journal_safe c sj j'"
proof (rule journal_safe_transact_document[OF assms(1,2) keeps_header_automations assms(3)[unfolded transact_automations_def]])
  fix a staged
  assume "and_then (change (store_paused (journal_current j)) (store_workspaces (journal_current j)))
     (\<lambda>(a, ws). Inr (a, (journal_current j)\<lparr>store_workspaces := ws\<rparr>)) = Inr (a, staged)"
  then obtain ws where "change (store_paused (journal_current j)) (store_workspaces (journal_current j)) = Inr (a, ws)"
      "store_workspaces staged = ws" by auto
  then show "workspaces_ok sj (store_workspaces staged)"
    using keepsD(2)[OF assms(4), of "store_workspaces (journal_current j)"] assms(2)
    by (simp add: journal_safe_def document_ok_def)
qed

lemma journal_safe_snd:
  assumes "journal_codec_ok c" "journal_safe c sj j"
  shows "(\<And>paused. keeps_workspaces sj (change paused)) \<Longrightarrow> journal_safe c sj (snd (transact_automations c change j))"
    "keeps_workspaces sj f \<Longrightarrow> journal_safe c sj (snd (transact_workspaces c f j))"
    "keeps_workspaces sj g \<Longrightarrow> journal_safe c sj (snd (api_transact c wid g j))"
proof -
  have a: "journal_safe c sj (snd (transact_automations c change j))" if "\<And>paused. keeps_workspaces sj (change paused)"
    for change :: "bool \<Rightarrow> workspace_orchestration list \<Rightarrow> store_error + ('x \<times> workspace_orchestration list)"
    by (rule journal_safe_transact[of c sj j change "fst (transact_automations c change j)", OF assms _ that]) simp
  then show "(\<And>paused. keeps_workspaces sj (change paused)) \<Longrightarrow> journal_safe c sj (snd (transact_automations c change j))" .
  show w: "journal_safe c sj (snd (transact_workspaces c f j))" if "keeps_workspaces sj f"
    for f :: "workspace_orchestration list \<Rightarrow> store_error + ('y \<times> workspace_orchestration list)"
    using a[of "\<lambda>_. f"] that by (simp add: transact_workspaces_def)
  show "keeps_workspaces sj g \<Longrightarrow> journal_safe c sj (snd (api_transact c wid g j))"
    for g :: "workspace_orchestration list \<Rightarrow> store_error + ('y \<times> workspace_orchestration list)"
    using w[of g] assms(2) by (simp add: api_transact_def)
qed

lemma keeps_map_err: "keeps_project sj f \<Longrightarrow> keeps_project sj (\<lambda>w. map_err g (f w))"
  by (rule keepsI(1)) (simp, rule keepsD(1))

lemma journal_safe_paused:
  assumes "journal_codec_ok c" "journal_safe c sj j"
  shows "journal_safe c sj (snd (set_automations_paused c b j))"
proof -
  obtain r j' where t: "transact_document c (\<lambda>d. Inr (store_paused d \<noteq> b, d\<lparr>store_paused := b\<rparr>)) j = (r, j')" by (metis surj_pair)
  have "journal_safe c sj j'"
    by (rule journal_safe_transact_document[OF assms _ t])
      (use assms(2) in \<open>auto simp: keeps_header_def journal_safe_def document_ok_def\<close>)
  with t show ?thesis using assms(2) by (simp add: set_automations_paused_def)
qed

section \<open>Reachable states\<close>

lemma serve_safe:
  assumes "journal_codec_ok (env_codec h)" "journal_safe (env_codec h) (env_json h) j"
  shows "journal_safe (env_codec h) (env_json h) (serve h req j)"
proof -
  note t = journal_safe_snd[OF assms]
  have new: "journal_safe (env_codec h) (env_json h) (snd (save_definition (env_codec h) k wid e v j))"
    if "keeps_project (env_json h) (save_value k e v)" for k wid e v
    using t(3)[of "on_workspace_or_new wid (save_value k e v)" wid] keeps_on_workspace_or_new[OF that] assms(2)
    by (cases "is_blank_text wid") (simp_all add: save_definition_def api_transact_def)
  have del: "journal_safe (env_codec h) (env_json h) (snd (delete_definition (env_codec h) k wid i e j))"
    if "keeps_project (env_json h) (delete_value k i e)" for k wid i e
    unfolding delete_definition_def by (rule t(3)[OF keeps_on_workspace[OF that]])
  show ?thesis
  proof (cases req)
    case (SaveGraph g)
    then show ?thesis using assms(2) t(2)[OF keeps_graph] by (auto simp: save_graph_def split: sum.split)
  next
    case (SaveSchedule wid e v)
    then show ?thesis using assms(2) t(2)[OF keeps_on_workspace[OF keeps_schedules(1)[of _ "env_chrono h" e v]], of wid] by (simp add: save_schedule_def)
  next
    case (ClaimDue wid i e now started failure)
    have "keeps_workspaces (env_json h) (\<lambda>ws. if paused then Inl StoreConflict
        else on_workspace wid (claim_due_value (env_sha256 h) (env_chrono h) (env_json h) i e now started failure) ws)" for paused
      using keepsD(2)[OF keeps_on_workspace[OF keeps_claims(1)]] by (intro keepsI(2)) (auto split: if_splits)
    from t(1)[OF this] show ?thesis using ClaimDue by (simp add: claim_due_schedule_def)
  next
    case (ClaimEvent f now failure)
    have "keeps_workspaces (env_json h) (claim_event_in (env_sha256 h) (env_json h) f now failure paused)" for paused
      using keepsD(2)[OF keeps_on_workspace[OF keeps_claims(2)]] by (intro keepsI(2)) (auto simp: claim_event_in_def split: if_splits)
    from t(1)[OF this] have "journal_safe (env_codec h) (env_json h)
        (snd (transact_automations (env_codec h) (claim_event_in (env_sha256 h) (env_json h) f now failure) j))" .
    moreover obtain r j' where "transact_automations (env_codec h) (claim_event_in (env_sha256 h) (env_json h) f now failure) j = (r, j')"
      by (metis surj_pair)
    ultimately show ?thesis using ClaimEvent by (cases r) (simp_all add: claim_event_occurrence_def)
  next
    case (StartChild wid lease i)
    have "journal_safe (env_codec h) (env_json h) (snd (transact_workspaces (env_codec h)
        (on_workspace wid (\<lambda>w. map_err (\<lambda>_. StoreConflict) (start_child_value (env_json h) lease i w))) j))"
      by (rule t(2)[OF keeps_on_workspace[OF keeps_map_err[OF keeps_child]]])
    then show ?thesis using assms(2) StartChild
      by (auto simp: start_pipeline_child_def split: option.splits sum.splits prod.splits)
  qed (simp_all add: assms(2) new keeps_saves del keeps_deletes t(2,3) keeps_on_workspace[OF keeps_create]
      keeps_on_workspace[OF keeps_schedules(2)] keeps_on_workspace[OF keeps_schedules(3)] keeps_on_run[OF keeps_serve_run]
      journal_safe_paused[OF assms] set_schedule_enabled_def delete_schedule_def create_run_with_trigger_def
      create_board_run_def create_run_in_def transact_run_def Let_def)
qed

lemma open_store_safe:
  assumes "open_store c sj dir faults removable = Inr j"
    "\<forall>(g, d)\<in>set (readable c sj (dir_files dir)). document_ok sj d"
  shows "journal_safe c sj j"
proof -
  from assms(1) obtain newest files where f: "fold (open_step c sj removable) (dir_files dir) (None, []) = (newest, files)"
      "journal_current j = (case newest of None \<Rightarrow> store_default | Some (_, d) \<Rightarrow> d)" "dir_files (journal_dir j) = files"
    by (auto simp: open_store_def newest_document_def split: if_splits prod.splits)
  have r: "readable c sj files = readable c sj (dir_files dir)"
    using readable_filtered[OF f(1)] by (simp add: readable_def)
  have n: "fold pick_newest (readable c sj (dir_files dir)) None = newest"
    using fold_open_step[of c sj removable "dir_files dir" None "[]"] f(1) by simp
  have "document_ok sj store_default" by (simp add: document_ok_def store_default_def workspaces_ok_def)
  then have "document_ok sj (journal_current j)"
    using f(2) assms(2) n fold_pick_mem[of "readable c sj (dir_files dir)" None] by (cases newest) auto
  with r f(3) assms(2) show ?thesis by (simp add: journal_safe_def)
qed

text \<open>A fresh host finds no generation. A restart may meet other faults of the disk than the last start.\<close>

inductive host_reachable :: "'z host_env \<Rightarrow> journal \<Rightarrow> bool" for h where
  fresh: "open_store (env_codec h) (env_json h) dir faults removable = Inr j \<Longrightarrow>
    readable (env_codec h) (env_json h) (dir_files dir) = [] \<Longrightarrow> host_reachable h j"
| served: "host_reachable h j \<Longrightarrow> host_reachable h (serve h req j)"
| restarted: "host_reachable h j \<Longrightarrow> open_store (env_codec h) (env_json h) (journal_dir j) faults removable = Inr j1 \<Longrightarrow>
    recover_interrupted_runs (env_codec h) j1 = (r, j2) \<Longrightarrow> host_reachable h j2"

lemma host_reachable_safe:
  assumes "host_reachable h j" "journal_codec_ok (env_codec h)"
  shows "journal_safe (env_codec h) (env_json h) j"
  using assms(1)
proof (induction rule: host_reachable.induct)
  case (fresh dir faults removable j)
  then show ?case by (intro open_store_safe) auto
next
  case (served j req)
  show ?case by (rule serve_safe[OF assms(2) served.IH])
next
  case (restarted j faults removable j1 r j2)
  have "journal_safe (env_codec h) (env_json h) j1"
    by (rule open_store_safe[OF restarted.hyps(2)]) (use restarted.IH in \<open>simp add: journal_safe_def\<close>)
  then show ?case
    using restarted.hyps(3) journal_safe_snd(2)[OF assms(2), of "env_json h" j1, OF _ keeps_recovery]
    by (auto simp: recover_interrupted_runs_def split: if_splits)
qed

end
