(* ===== verification/Host_Samples.thy ===== *)
theory Host_Samples
  imports Host_State Run_Samples
begin

text \<open>
  A concrete host on which the witnesses evaluate the properties: a codec that knows finitely many
  documents, a project with the sample pipeline and one automation, and the journals it goes through.
\<close>

text \<open>The search for cycles evaluates by unfolding it.\<close>

declare cycle_search.simps [code]

section \<open>A codec of finitely many documents\<close>

text \<open>The i-th document is written as one character, so that every truncation is empty and unreadable.\<close>

definition coded :: "'a list \<Rightarrow> 'a \<Rightarrow> string option" where
  "coded xs x = map_option (\<lambda>i. [char_of i]) (keep_if (\<lambda>i. i < 256) (position (\<lambda>y. y = x) xs))"

definition uncoded :: "'a list \<Rightarrow> string \<Rightarrow> 'a option" where
  "uncoded xs s = (case s of [c] \<Rightarrow> if of_char c < length xs then Some (xs ! of_char c) else None | _ \<Rightarrow> None)"

definition finite_codec :: "store_document list \<Rightarrow> run list \<Rightarrow> journal_codec" where
  "finite_codec docs runs =
     \<lparr>encode_store = coded docs, decode_store = uncoded docs, serialize_run = coded runs, decode_run = uncoded runs\<rparr>"

lemma coded_uncoded: "coded xs x = Some s \<Longrightarrow> uncoded xs s = Some x \<and> (\<forall>k<length s. uncoded xs (take k s) = None)"
  by (auto simp: coded_def uncoded_def keep_if_def unat_of_nat dest!: position_Some split: option.splits if_splits)

lemma finite_codec_ok: "journal_codec_ok (finite_codec docs runs)"
  using coded_uncoded[of docs] coded_uncoded[of runs] by (simp add: journal_codec_ok_def finite_codec_def)

lemma coded_Some: "x \<in> set xs \<Longrightarrow> length xs < 256 \<Longrightarrow> \<exists>s. coded xs x = Some s"
proof -
  assume a: "x \<in> set xs" "length xs < 256"
  then obtain i where i: "position (\<lambda>y. y = x) xs = Some i" by (cases "position (\<lambda>y. y = x) xs") auto
  then have "i < 256" using position_Some[OF i] a(2) by simp
  then show "\<exists>s. coded xs x = Some s" using i by (simp add: coded_def keep_if_def)
qed

section \<open>Journals without faults\<close>

definition faultless :: "journal \<Rightarrow> bool" where
  "faultless j \<longleftrightarrow> journal_faults j = [] \<and>
     (\<forall>(name, _)\<in>set (dir_files (journal_dir j)). \<exists>g \<le> store_generation (journal_current j). journal_path g = name)"

definition fresh_journal :: journal where
  "fresh_journal =
     \<lparr>journal_current = store_default, journal_dir = \<lparr>dir_listable = True, dir_files = []\<rparr>, journal_faults = [],
      journal_removable = (\<lambda>_. True), journal_commits = 0\<rparr>"

lemma fresh_opened:
  "open_store c sj \<lparr>dir_listable = True, dir_files = []\<rparr> [] (\<lambda>_. True) = Inr fresh_journal" "faultless fresh_journal"
  "journal_current fresh_journal = store_default"
  by (simp_all add: open_store_def newest_document_def fresh_journal_def store_default_def faultless_def)

lemma journal_path_inject: "journal_path g = journal_path g' \<longleftrightarrow> g = g'"
  by (metis journal_from_journal_path option.inject)

lemma faultless_commit:
  assumes "faultless j" "spec_change change (journal_current j) = Inr (a, d)" "keeps_header change" "encode_store c d = Some bytes"
  shows "\<exists>j'. transact_document c change j = (Inr a, j') \<and> faultless j' \<and> journal_current j' = d"
proof -
  obtain staged where s: "change (journal_current j) = Inr (a, staged)" "store_generation staged \<noteq> - 1"
      "d = staged\<lparr>store_generation := store_generation staged + 1\<rparr>"
    using assms(2) by (auto simp: spec_change_def split: if_splits)
  have g: "store_generation staged = store_generation (journal_current j)"
    using assms(3) s(1) unfolding keeps_header_def by blast
  then have less: "k < store_generation d" if "k \<le> store_generation (journal_current j)" for k
    using that s by (simp add: word_less_inc)
  have "journal_path (store_generation d) \<notin> fst ` set (dir_files (journal_dir j))"
    using assms(1) less by (fastforce simp: faultless_def journal_path_inject)
  then have p: "persist c (journal_fault j) d (journal_dir j) = (Inr (), add_file (journal_path (store_generation d)) bytes (journal_dir j))"
    using assms(1,4) by (simp add: persist_def journal_fault_def faultless_def)
  let ?j = "j\<lparr>journal_faults := [], journal_current := d,
      journal_dir := remove_older_generations (journal_removable j) (store_generation d)
        (add_file (journal_path (store_generation d)) bytes (journal_dir j)),
      journal_commits := store_generation d\<rparr>"
  have "transact_document c change j = (Inr a, ?j)"
    using s p assms(1) by (simp add: transact_document_def faultless_def)
  moreover have "\<exists>g \<le> store_generation d. journal_path g = name" if "(name, f) \<in> set (dir_files (journal_dir ?j))" for name f
  proof -
    have "(name, f) \<in> set (dir_files (journal_dir j)) \<or> name = journal_path (store_generation d)"
      using that by (auto simp: remove_older_generations_def add_file_def split: if_splits)
    then show ?thesis
    proof
      assume "(name, f) \<in> set (dir_files (journal_dir j))"
      then obtain g where "g \<le> store_generation (journal_current j)" "journal_path g = name"
        using assms(1) unfolding faultless_def by blast
      then show ?thesis using less[of g] by (auto intro: order.strict_implies_order)
    qed auto
  qed
  then have "faultless ?j" unfolding faultless_def by auto
  ultimately show ?thesis by auto
qed

section \<open>A project\<close>

definition saving :: "'v \<Rightarrow> 'v save_request" where
  "saving v = \<lparr>save_workspace_id = ''w'', save_expected_revision = None, save_request_value = v\<rparr>"

definition sample_graph :: save_graph_request where
  "sample_graph =
     \<lparr>graph_workspace_id = ''w'', graph_profiles = map saving [sample_profile ''p'' [''q''], sample_profile ''q'' []],
      graph_team = saving sample_team, graph_pipeline = saving (def_pipeline (sample_definition two_steps)),
      graph_command = saving \<lparr>command_id = ''c'', command_name = ''C'', command_team_id = ''t'',
        command_pipeline_id = ''l'', command_managed_by_teammate_id = None\<rparr>\<rparr>"

definition sample_start :: start_run_request where
  "sample_start =
     \<lparr>start_workspace_id = ''w'', start_run_id = ''r'', start_team_id = ''t'', start_pipeline_id = ''l'',
      start_launch_command_id = Some ''c'', start_inputs = [], start_use_pinned_data = False\<rparr>"

definition following ::
  "(bool \<Rightarrow> workspace_orchestration list \<Rightarrow> store_error + ('a \<times> workspace_orchestration list)) \<Rightarrow> store_document \<Rightarrow> store_document" where
  "following change d = snd (projr (spec_change (automations_change change) d))"

definition save_sample_graph :: "bool \<Rightarrow> workspace_orchestration list \<Rightarrow> store_error + (unit \<times> workspace_orchestration list)" where
  "save_sample_graph _ ws = and_then (apply_graph_in sample_chrono sample_json sample_graph ws) (\<lambda>(_, ws). Inr ((), ws))"

definition start_sample_run :: "bool \<Rightarrow> workspace_orchestration list \<Rightarrow> store_error + (run \<times> workspace_orchestration list)" where
  "start_sample_run _ = create_run_in sample_json sample_start None"

definition project_saved :: store_document where
  "project_saved = following save_sample_graph store_default"

definition run_started :: store_document where
  "run_started = following start_sample_run project_saved"

text \<open>An automation that starts the command again when one of its runs has succeeded.\<close>

definition sample_hash :: "string \<Rightarrow> string" where
  "sample_hash s = s"

definition sample_automation :: schedule_definition where
  "sample_automation =
     \<lparr>schedule_id = ''e'', schedule_name = ''E'', schedule_launch_command_id = ''c'',
      schedule_trigger_of = Event (event_trigger.RunFinished ''c'' [FinishedSucceeded]),
      schedule_missed_run_policy = MissedSkip, schedule_overlap_policy = OverlapSkip, schedule_inputs = []\<rparr>"

definition sample_firing :: event_firing where
  "sample_firing =
     \<lparr>firing_workspace_id = ''w'', firing_schedule_id = ''e'', firing_trigger_revision = 0,
      firing_cause = CauseRunFinished ''r'', firing_observed_at = 0, firing_chain_depth = 1\<rparr>"

definition save_automation :: "bool \<Rightarrow> workspace_orchestration list \<Rightarrow> store_error + (schedule_snapshot \<times> workspace_orchestration list)" where
  "save_automation _ = on_workspace ''w'' (save_schedule_value sample_chrono None sample_automation)"

definition enable_automation :: "bool \<Rightarrow> workspace_orchestration list \<Rightarrow> store_error + (schedule_snapshot \<times> workspace_orchestration list)" where
  "enable_automation _ = on_workspace ''w'' (set_enabled_value ''e'' 0 True)"

definition claim_sample :: "bool \<Rightarrow> workspace_orchestration list \<Rightarrow> store_error + (schedule_claim \<times> workspace_orchestration list)" where
  "claim_sample = claim_event_in sample_hash sample_json sample_firing 0 None"

definition automation_saved :: store_document where
  "automation_saved = following save_automation run_started"

definition automation_enabled :: store_document where
  "automation_enabled = following enable_automation automation_saved"

definition automation_claimed :: store_document where
  "automation_claimed = following claim_sample automation_enabled"

text \<open>A pipeline that is saved alone, a profile with two rules for one tool, and the document of a host whose
  first step fails while the second one is leased.\<close>

definition saved_pipeline :: pipeline_definition where
  "saved_pipeline = def_pipeline (sample_definition two_steps)"

definition save_pipeline ::
  "bool \<Rightarrow> workspace_orchestration list \<Rightarrow> store_error + (pipeline_definition stored_definition \<times> workspace_orchestration list)" where
  "save_pipeline _ = on_workspace_or_new ''w'' (save_value (pipeline_kind sample_json) None saved_pipeline)"

definition two_rules_profile :: agent_profile where
  "two_rules_profile = (sample_profile ''z'' [])\<lparr>profile_tool_policy :=
     \<lparr>policy_rules = replicate 2 \<lparr>rule_tool = ''bash'', rule_decision = Allow, rule_enforcement = Advisory, rule_mandatory = False\<rparr>\<rparr>\<rparr>"

definition leased_document :: store_document where
  "leased_document = store_default\<lparr>store_generation := 1, store_workspaces := [(workspace_empty ''w'')\<lparr>ws_runs := [leased_beside]\<rparr>]\<rparr>"

definition fail_step :: "bool \<Rightarrow> workspace_orchestration list \<Rightarrow> store_error + (run \<times> workspace_orchestration list)" where
  "fail_step _ = on_run ''w'' ''r'' (record_terminal_event sample_json ''s1'' 1 ''x'' (OutcomeFailed (failure_new ''boom'')) None)"

definition failed_document :: store_document where
  "failed_document = following fail_step leased_document"

text \<open>What the transactions compute on them, by one evaluation.\<close>

lemma host_evaluations:
  "is_ok (validate_graph_request sample_json sample_graph)"
  "is_ok (spec_change (automations_change save_sample_graph) store_default)"
  "is_ok (spec_change (automations_change start_sample_run) project_saved)"
  "is_ok (spec_change (automations_change save_automation) run_started)"
  "is_ok (spec_change (automations_change enable_automation) automation_saved)"
  "is_ok (spec_change (automations_change claim_sample) automation_enabled)"
  "map_option run_id (claim_run (fst (projr (spec_change (automations_change claim_sample) automation_enabled)))) =
     Some (event_occurrence_id sample_hash ''e'' 0 ''run:r'')"
  "map (\<lambda>w. (ws_id w, ws_runs w)) (store_workspaces project_saved) = [(''w'', [])]"
  "store_version project_saved = 2"
  "map (\<lambda>c. command_id (sd_value c)) (ws_commands (hd (store_workspaces project_saved))) = [''c'']"
  "store_workspaces run_started \<noteq> []"
  "map run_id (ws_runs (hd (store_workspaces run_started))) = [''r'']"
  "finished_firings (hd (store_workspaces automation_enabled)) (hd (ws_runs (hd (store_workspaces automation_enabled))))
     FinishedSucceeded 0 = [sample_firing]"
  "validate_run_data sample_json (upgrade_run leased_beside) = Inr ()"
  "run_schema_version leased_beside = ORCHESTRATION_SCHEMA_VERSION"
  "is_ok (spec_change (automations_change fail_step) leased_document)"
  "list_ex (\<lambda>w. list_ex (\<lambda>r. \<not> is_ok (validate_run_data sample_json (upgrade_run r))) (ws_runs w)) (store_workspaces failed_document)"
  "is_ok (spec_change (automations_change save_pipeline) store_default)"
  "pipeline_id saved_pipeline = ''l''"
  "profile_valid two_rules_profile (hd (store_workspaces project_saved))"
  "profiles_of (hd (store_workspaces project_saved)) (profile_id two_rules_profile) = None"
  "\<not> distinct (map rule_tool (policy_rules (profile_tool_policy two_rules_profile)))"
  "is_ok (create_run_value sample_json sample_start None (hd (store_workspaces project_saved)))"
  "is_ok (admit_send ''q'' ''x'' ''b'' ''hi'' dispatched)"
  "run_messages (snd (projr (admit_send ''q'' ''x'' ''b'' ''hi'' dispatched))) =
     [\<lparr>message_id = ''q'', message_sender_member_id = ''a'', message_recipient_member_id = ''b'', message_body = ''hi'',
       message_status = Accepted, message_revision = 0\<rparr>]"
  "\<not> is_blank_text ''w''"
  "\<not> is_blank_text (start_workspace_id sample_start)"
  by code_simp+

lemmas project_steps = host_evaluations(1-3)
lemmas automation_steps = host_evaluations(4-7)
lemmas project_facts = host_evaluations(8-10)
lemmas started_facts = host_evaluations(11,12)
lemmas firing_facts = host_evaluations(13)
lemmas leased_facts = host_evaluations(14,15)
lemmas failed_facts = host_evaluations(16,17)
lemmas pipeline_facts = host_evaluations(18,19)
lemmas two_rules_facts = host_evaluations(20-23)
lemmas send_facts = host_evaluations(24,25)
lemmas sample_names = host_evaluations(26,27)

section \<open>The journals of a host\<close>

definition orchestration_host :: "unit host_env" where
  "orchestration_host =
     \<lparr>env_sha256 = sample_hash,
      env_codec = finite_codec [project_saved, run_started, automation_saved, automation_enabled, automation_claimed] [],
      env_chrono = sample_chrono, env_json = sample_json\<rparr>"

definition changed ::
  "(bool \<Rightarrow> workspace_orchestration list \<Rightarrow> store_error + ('a \<times> workspace_orchestration list)) \<Rightarrow> journal \<Rightarrow> journal" where
  "changed change j = snd (transact_automations (env_codec orchestration_host) change j)"

definition journal_saved :: journal where "journal_saved = changed save_sample_graph fresh_journal"
definition journal_started :: journal where "journal_started = changed start_sample_run journal_saved"
definition journal_automated :: journal where
  "journal_automated = changed enable_automation (changed save_automation journal_started)"

lemma orchestration_host_simps [simp]:
  "env_sha256 orchestration_host = sample_hash" "env_chrono orchestration_host = sample_chrono" "env_json orchestration_host = sample_json"
  "journal_codec_ok (env_codec orchestration_host)"
  by (simp_all add: orchestration_host_def finite_codec_ok)

lemma changed_commits:
  assumes "faultless j" "is_ok (spec_change (automations_change change) (journal_current j))"
    "following change (journal_current j) \<in> {project_saved, run_started, automation_saved, automation_enabled, automation_claimed}"
  shows "transact_automations (env_codec orchestration_host) change j =
      (Inr (fst (projr (spec_change (automations_change change) (journal_current j)))), changed change j)"
    "faultless (changed change j)" "journal_current (changed change j) = following change (journal_current j)"
proof -
  let ?c = "automations_change change"
  obtain a d where s: "spec_change ?c (journal_current j) = Inr (a, d)"
    using assms(2) by (cases "spec_change ?c (journal_current j)") auto
  have k: "keeps_header ?c" by (rule keeps_header_change)
  obtain bytes where e: "encode_store (env_codec orchestration_host) d = Some bytes"
    using assms(3) s coded_Some[of d "[project_saved, run_started, automation_saved, automation_enabled, automation_claimed]"]
    by (auto simp: following_def orchestration_host_def finite_codec_def)
  obtain j' where j': "transact_document (env_codec orchestration_host) ?c j = (Inr a, j')" "faultless j'" "journal_current j' = d"
    using faultless_commit[OF assms(1) s k e] by blast
  then have "transact_automations (env_codec orchestration_host) change j = (Inr a, j')"
    by (simp add: transact_automations_def automations_change_def[abs_def])
  then show "transact_automations (env_codec orchestration_host) change j =
      (Inr (fst (projr (spec_change ?c (journal_current j)))), changed change j)"
    "faultless (changed change j)" "journal_current (changed change j) = following change (journal_current j)"
    using s j'(2,3) by (simp_all add: changed_def following_def)
qed

lemma journals:
  "faultless journal_saved" "journal_current journal_saved = project_saved"
  "faultless journal_started" "journal_current journal_started = run_started"
  "faultless journal_automated" "journal_current journal_automated = automation_enabled"
proof -
  have 1: "faultless journal_saved" "journal_current journal_saved = project_saved"
    unfolding journal_saved_def using changed_commits[OF fresh_opened(2), of save_sample_graph] project_steps(2)
    by (simp_all add: fresh_opened(3) project_saved_def)
  have 2: "faultless journal_started" "journal_current journal_started = run_started"
    unfolding journal_started_def using changed_commits[OF 1(1), of start_sample_run] project_steps(3)
    by (simp_all add: 1(2) run_started_def)
  have 3: "faultless (changed save_automation journal_started)"
      "journal_current (changed save_automation journal_started) = automation_saved"
    using changed_commits[OF 2(1), of save_automation] automation_steps(1) by (simp_all add: 2(2) automation_saved_def)
  have 4: "faultless journal_automated" "journal_current journal_automated = automation_enabled"
    unfolding journal_automated_def using changed_commits[OF 3(1), of enable_automation] automation_steps(2)
    by (simp_all add: 3(2) automation_enabled_def)
  from 1 2 4 show "faultless journal_saved" "journal_current journal_saved = project_saved"
    "faultless journal_started" "journal_current journal_started = run_started"
    "faultless journal_automated" "journal_current journal_automated = automation_enabled" by simp_all
qed

lemma journals_reachable: "host_reachable orchestration_host journal_saved" "host_reachable orchestration_host journal_started"
proof -
  have "host_reachable orchestration_host fresh_journal"
    by (rule host_reachable.fresh[OF fresh_opened(1)]) simp
  moreover have "journal_saved = serve orchestration_host (SaveGraph sample_graph) fresh_journal"
    using project_steps(1)
    by (auto simp: save_graph_def journal_saved_def changed_def save_sample_graph_def[abs_def] transact_workspaces_def split: sum.splits)
  ultimately show s: "host_reachable orchestration_host journal_saved" using host_reachable.served by metis
  have "journal_started = serve orchestration_host (StartRun sample_start None) journal_saved"
    using sample_names(2)
    by (simp add: create_run_with_trigger_def journal_started_def changed_def start_sample_run_def[abs_def] transact_workspaces_def
        is_some_and_def)
  with s show "host_reachable orchestration_host journal_started" using host_reachable.served by metis
qed

end
