(* ===== verification/Host_Properties.thy ===== *)
theory Host_Properties
  imports Host_Samples
begin

text \<open>
  The properties of the orchestration host as a whole: what its reachable states keep and what a restart
  finds. Each is followed by a witness on concrete projects.
\<close>

section \<open>Reachable hosts\<close>

lemma reachable_workspace:
  assumes "journal_codec_ok (env_codec h)" "host_reachable h j" "w \<in> set (store_workspaces (journal_current j))"
  shows "workspace_ok (env_json h) w"
  using host_reachable_safe[OF assms(2,1)] assms(3) by (simp add: journal_safe_def document_ok_def workspaces_ok_def)

text \<open>
  C13. In every state the orchestration host can reach, over any requests (\<open>host_request\<close>) of users,
  schedulers, automations and agents and any number of restarts, a project has no two runs with the same identity, and every run it
  holds satisfies the invariant of the coordinator.
\<close>

theorem host_runs_invariant:
  assumes "journal_codec_ok (env_codec h)" "host_reachable h j" "w \<in> set (store_workspaces (journal_current j))"
  shows "distinct (map run_id (ws_runs w)) \<and> (\<forall>r\<in>set (ws_runs w). run_inv (env_json h) r)"
  using reachable_workspace[OF assms] by (simp add: workspace_ok_def)

theorem host_runs_invariant_witness:
  "\<exists>w\<in>set (store_workspaces (journal_current journal_started)).
     map run_id (ws_runs w) = [''r''] \<and> (\<forall>r\<in>set (ws_runs w). run_inv sample_json r)"
proof -
  let ?w = "hd (store_workspaces run_started)"
  have w: "?w \<in> set (store_workspaces (journal_current journal_started))" "map run_id (ws_runs ?w) = [''r'']"
    using started_facts by (simp_all add: journals)
  then show ?thesis using host_runs_invariant[OF orchestration_host_simps(4) journals_reachable(2) w(1)] w
    by (intro bexI[of _ ?w]) simp_all
qed

text \<open>
  C16. In every reachable state a project keeps its referential integrity: identities of definitions and
  automations are unique; every profile, team, pipeline and launch command that a definition, an
  automation or a teammate names is saved; and no launch command reaches itself through sub-pipelines.
\<close>

theorem project_integrity:
  assumes "journal_codec_ok (env_codec h)" "host_reachable h j" "w \<in> set (store_workspaces (journal_current j))"
  shows "unique_ids_in w \<and> closed_refs w \<and> acyclic (refers (child_commands (pipeline_of_command w)))"
  using reachable_workspace[OF assms] by (simp add: workspace_ok_def integrity_def reference_cycle_None)

theorem project_integrity_witness:
  "\<exists>w\<in>set (store_workspaces (journal_current journal_saved)).
     map (\<lambda>c. command_id (sd_value c)) (ws_commands w) = [''c''] \<and> closed_refs w"
proof -
  let ?w = "hd (store_workspaces project_saved)"
  have w: "?w \<in> set (store_workspaces (journal_current journal_saved))"
      "map (\<lambda>c. command_id (sd_value c)) (ws_commands ?w) = [''c'']"
    using project_facts by (auto simp: journals)
  then show ?thesis using project_integrity[OF orchestration_host_simps(4) journals_reachable(1) w(1)] w
    by (intro bexI[of _ ?w]) simp_all
qed

section \<open>Durability\<close>


text \<open>The first save of the sample host: nothing is loaded but a document without runs.\<close>

lemma project_loadable: "loadable c sj project_saved"
proof -
  obtain w where w: "store_workspaces project_saved = [w]" "ws_id w = ''w''" "ws_runs w = []" "\<not> is_blank_text ''w''"
      "store_version project_saved = 2"
    using project_facts sample_names(1) by auto
  have "w\<lparr>ws_runs := []\<rparr> = w" using w(3) by simp
  then have "migrate_workspaces c sj [] [w] = Some [w]" using w(2,3,4) by simp
  then show ?thesis using w(1,5) by (simp add: loadable_def migrate_document_def STORE_VERSION_def)
qed


section \<open>Runs that cannot be loaded\<close>

lemma unloadable_run:
  assumes "journal_codec_ok c" "w \<in> set (store_workspaces d)" "r \<in> set (ws_runs w)" "\<not> is_ok (validate_run_data sj (upgrade_run r))"
  shows "migrate_document c sj d = None"
proof -
  have "migrate_run c sj r = None"
    using assms(1,4) by (cases "serialize_run c r") (auto simp: migrate_run_def deserialize_run_def journal_codec_ok_def split: sum.splits)
  then have "those (map (migrate_run c sj) rs) = None" if "r \<in> set rs" for rs
    using that by (induction rs) (auto split: option.splits)
  then have "migrate_workspaces c sj seen ws = None" if "w \<in> set ws" for seen ws
    using that assms(3) by (induction ws arbitrary: seen) auto
  with assms(2) show ?thesis by (simp add: migrate_document_def)
qed

text \<open>
  C35. The journal erases itself when a stored run is refused on loading: once a change is committed whose
  document holds a run that the validation of durable run data rejects, a restart finds no
  readable generation and starts with an empty document, and every project's definitions, automations and
  runs are lost (the older generations were removed by the commit, and opening removes the unreadable
  one). The host commits such runs: a step that fails while another one is leased leaves one.
\<close>

theorem unloadable_run_erases_journal:
  assumes "journal_codec_ok c" "journal_ok c sj j" "transact_automations c change j = (Inr a, j')"
    and "w \<in> set (store_workspaces (journal_current j'))" "r \<in> set (ws_runs w)"
    and "\<not> is_ok (validate_run_data sj (upgrade_run r))" "\<And>name. journal_removable j name"
  shows "reopened c sj j' = store_default"
proof -
  have t: "transact_document c (automations_change change) j = (Inr a, j')"
    using assms(3) by (simp add: transact_automations_def automations_change_def[abs_def])
  show ?thesis
    using t keeps_header_change
  proof (cases rule: transact_document_cases)
    case (committed b staged bytes)
    have m: "migrate_document c sj staged = None" by (rule unloadable_run[OF assms(1) _ assms(5,6)]) (use assms(4) committed(3) in simp)
    have v: "store_version staged = STORE_VERSION" using committed(8) assms(2) by (simp add: journal_ok_def)
    show ?thesis by (rule reopened_committed(2)[OF assms(1,2) committed(4) v committed(6,7,5) m assms(7)])
  qed simp_all
qed

definition leased_codec :: journal_codec where
  "leased_codec = finite_codec [leased_document, failed_document] [leased_beside]"

lemma leased_migrates: "migrate_document leased_codec sample_json leased_document = Some leased_document"
proof -
  have u: "upgrade_run leased_beside = leased_beside" using leased_facts(2) by (simp add: upgrade_run_def ORCHESTRATION_SCHEMA_VERSION_def)
  obtain s where "coded [leased_beside] leased_beside = Some s" "uncoded [leased_beside] s = Some leased_beside"
    using coded_Some[of leased_beside "[leased_beside]"] coded_uncoded[of "[leased_beside]" leased_beside] by auto
  then have "migrate_run leased_codec sample_json leased_beside = Some leased_beside"
    using leased_facts(1) u by (simp add: migrate_run_def leased_codec_def finite_codec_def deserialize_run_def)
  then show ?thesis using sample_names(1)
    by (simp add: migrate_document_def leased_document_def store_default_def workspace_empty_def)
qed

text \<open>The directory holds the document with the leased step; the host opens it and records the failure.\<close>

lemma leased_opened:
  "\<exists>j. journal_ok leased_codec sample_json j \<and> journal_current j = leased_document \<and> faultless j \<and>
     (\<forall>name. journal_removable j name)"
proof -
  obtain s where s: "encode_store leased_codec leased_document = Some s"
    using coded_Some[of leased_document "[leased_document, failed_document]"] by (auto simp: leased_codec_def finite_codec_def)
  have g: "store_generation leased_document = 1" "store_version leased_document = STORE_VERSION"
    by (simp_all add: leased_document_def store_default_def)
  have codec: "journal_codec_ok leased_codec" by (simp add: leased_codec_def finite_codec_ok)
  have r: "read_generation leased_codec sample_json 1 (FileBytes s) = Some leased_document"
    using read_written[OF codec s g(2), of sample_json "length s"] g(1) leased_migrates by simp
  let ?dir = "\<lparr>dir_listable = True, dir_files = [(journal_path 1, FileBytes s)]\<rparr>"
  let ?j = "\<lparr>journal_current = leased_document, journal_dir = ?dir, journal_faults = [], journal_removable = (\<lambda>_. True),
    journal_commits = 1\<rparr>"
  have "open_store leased_codec sample_json ?dir [] (\<lambda>_. True) = Inr ?j"
    using r by (simp add: open_store_def newest_document_def g is_none_or_def)
  from open_store_ok[OF this] show ?thesis
    by (intro exI[of _ ?j]) (auto simp: faultless_def g)
qed

theorem unloadable_run_erases_journal_witness:
  "\<exists>j a j'. journal_ok leased_codec sample_json j \<and> journal_current j = leased_document \<and>
     transact_run leased_codec ''w'' ''r''
       (record_terminal_event sample_json ''s1'' 1 ''x'' (OutcomeFailed (failure_new ''boom'')) None) j = (Inr a, j') \<and>
     reopened leased_codec sample_json j' = store_default"
proof -
  obtain j where j: "journal_ok leased_codec sample_json j" "journal_current j = leased_document" "faultless j"
      "\<And>name. journal_removable j name"
    using leased_opened by blast
  have codec: "journal_codec_ok leased_codec" by (simp add: leased_codec_def finite_codec_ok)
  obtain a where s: "spec_change (automations_change fail_step) (journal_current j) = Inr (a, failed_document)"
    using failed_facts(1) j(2) by (cases "spec_change (automations_change fail_step) leased_document") (auto simp: failed_document_def following_def)
  obtain bytes where b: "encode_store leased_codec failed_document = Some bytes"
    using coded_Some[of failed_document "[leased_document, failed_document]"] by (auto simp: leased_codec_def finite_codec_def)
  obtain j' where j': "transact_document leased_codec (automations_change fail_step) j = (Inr a, j')"
      "journal_current j' = failed_document"
    using faultless_commit[OF j(3) s keeps_header_change b] by blast
  then have t: "transact_automations leased_codec fail_step j = (Inr a, j')"
    by (simp add: transact_automations_def automations_change_def[abs_def])
  obtain w r where w: "w \<in> set (store_workspaces (journal_current j'))" "r \<in> set (ws_runs w)"
      "\<not> is_ok (validate_run_data sample_json (upgrade_run r))"
    using failed_facts(2) j'(2) by (auto simp: list_ex_iff)
  have "reopened leased_codec sample_json j' = store_default"
    by (rule unloadable_run_erases_journal[OF codec j(1) t w j(4)])
  then show ?thesis using j(1,2) t
    by (auto simp: transact_run_def transact_workspaces_def fail_step_def[abs_def])
qed

end
