(* ===== verification/Trigger_Properties.thy ===== *)
theory Trigger_Properties
  imports Triggers
begin

text \<open>
  What the trigger core promises about file automations: when it fires one, how often, at which depth of a
  chain, and that sleeping until its next deadline misses nothing.
\<close>

section \<open>Reachable states\<close>

inductive core_reachable :: "trigger_core \<Rightarrow> bool" where
  created: "core_reachable (core_new fold_case d wall)"
| observed: "core_reachable core \<Longrightarrow> core_reachable (snd (observe d now wall core))"
| files: "core_reachable core \<Longrightarrow> core_reachable (file_changes wid paths now wall core)"
| fired: "core_reachable core \<Longrightarrow> core_reachable (snd (due now wall core))"

lemma bm_wf_filter: "bm_wf m \<Longrightarrow> bm_wf (filter P m)"
  by (simp add: bm_wf_def sorted_wrt_map sorted_wrt_filter)

lemma bm_wf_map: "bm_wf m \<Longrightarrow> bm_wf (map (\<lambda>(k, v). (k, f k v)) m)"
  by (simp add: bm_wf_def o_def case_prod_unfold)

lemma fold_preserves: "(\<And>x s. x \<in> set xs \<Longrightarrow> P s \<Longrightarrow> P (f x s)) \<Longrightarrow> P s \<Longrightarrow> P (fold f xs s)"
  by (induction xs arbitrary: s) simp_all

lemma sync_rule_wf: "bm_wf (fst st) \<Longrightarrow> bm_wf (fst (sync_rule wall w s st))"
  by (cases st) (auto simp: sync_rule_def Let_def bm_wf_insert
      split: option.splits event_trigger.splits sum.splits if_splits)

lemma sync_rules_wf: "bm_wf (core_rules core) \<Longrightarrow> bm_wf (core_rules (sync_rules d wall core))"
proof -
  assume "bm_wf (core_rules core)"
  then have "bm_wf (fst (fold (\<lambda>w. fold (sync_rule wall w) (ws_schedules w)) (store_workspaces d) (core_rules core, [])))"
    by (intro fold_preserves[where P = "\<lambda>st. bm_wf (fst st)"] sync_rule_wf) simp_all
  then show ?thesis by (auto simp: sync_rules_def intro: bm_wf_filter split: prod.splits)
qed

lemma seed_run_rules [simp]: "core_rules (seed_run w r core) = core_rules core"
  by (simp add: seed_run_def Let_def)

lemma observe_run_rules [simp]: "core_rules (snd (observe_run now wall w r st)) = core_rules (snd st)"
  by (simp add: observe_run_def Let_def split: prod.splits)

lemma core_rules_wf: "core_reachable core \<Longrightarrow> bm_wf (core_rules core)"
proof (induction rule: core_reachable.induct)
  case (created fold_case d wall)
  show ?case unfolding core_new_def
    by (intro sync_rules_wf fold_preserves[where P = "\<lambda>core. bm_wf (core_rules core)"]) (simp_all add: bm_wf_def)
next
  case (observed core d now wall)
  have "bm_wf (core_rules (snd (fold (\<lambda>w. fold (observe_run now wall w) (ws_runs w)) (store_workspaces d)
             ([], core\<lparr>core_paused := store_paused d\<rparr>))))"
    by (intro fold_preserves[where P = "\<lambda>st. bm_wf (core_rules (snd st))"]) (use observed.IH in simp_all)
  then show ?case by (auto simp: observe_def intro: sync_rules_wf split: prod.splits)
next
  case (files core wid paths now wall)
  then show ?case by (simp add: file_changes_def bm_wf_map)
next
  case (fired core now wall)
  then show ?case using bm_wf_map[of "core_rules core" "\<lambda>_. due_rule now wall"]
      bm_wf_map[of "core_rules core" "\<lambda>_ rule. rule\<lparr>file_burst := None\<rparr>"]
    by (simp add: due_def)
qed

section \<open>Firings\<close>

lemma rule_due_Some:
  "rule_due now wall rule = Some b \<longleftrightarrow>
     file_burst rule = Some b \<and> due_at rule b \<le> now \<and> (\<forall>t. file_not_before rule = Some t \<longrightarrow> t \<le> wall)"
  by (auto simp: rule_due_def is_some_and_def not_less split: option.splits if_splits Option.bind_splits)

lemma rule_firing_Some:
  "rule_firing core now wall ((wid, sid), rule) = Some f \<longleftrightarrow>
     (\<exists>b. rule_due now wall rule = Some b \<and> \<not> own_run_recent core wid sid now \<and>
       f = \<lparr>firing_workspace_id = wid, firing_schedule_id = sid, firing_trigger_revision = file_trigger_revision rule,
            firing_cause = CauseFilesChanged, firing_observed_at = burst_last_wall b,
            firing_chain_depth = attributed_depth core wid b\<rparr>)"
  by (auto simp: rule_firing_def split: Option.bind_splits if_splits)

lemma attributed_depth_above:
  assumes "((wid, rid), recent) \<in> set (core_recent core)" "recent_active recent"
  shows "recent_depth recent < attributed_depth core wid b \<or> attributed_depth core wid b = 255"
proof -
  let ?ds = "List.map_filter (\<lambda>((w, _), recent).
         if w = wid \<and> (recent_active recent \<or>
              is_some_and (recent_finished_at recent) (\<lambda>t. burst_first b \<le> t + ATTRIBUTION_GRACE))
         then Some (recent_depth recent) else None) (core_recent core)"
  have m: "recent_depth recent \<in> set ?ds"
    using assms by (force simp: List.map_filter_def)
  then have le: "recent_depth recent \<le> Max (set ?ds)" by simp
  have a: "attributed_depth core wid b = u8_saturating_add (Max (set ?ds)) 1"
    unfolding attributed_depth_def Let_def using m by auto
  show ?thesis
  proof (cases "unat (Max (set ?ds)) + 1 > 255")
    case False
    then have "recent_depth recent < Max (set ?ds) + 1"
      using le by (simp add: word_less_nat_alt word_le_nat_alt unat_word_ariths del: Max_ge)
    then show ?thesis using False unfolding a u8_saturating_add_def by simp
  qed (simp add: a u8_saturating_add_def)
qed

lemma due_rule_rests:
  assumes "rule_due now wall rule \<noteq> None" "wall' < wall + cooldown"
  shows "rule_due now' wall' (due_rule now wall rule) = None"
proof -
  have "due_rule now wall rule = rule\<lparr>file_burst := None, file_not_before := Some (wall + cooldown)\<rparr>"
    unfolding due_rule_def using assms(1) by (rule if_not_P)
  then show ?thesis by (simp add: rule_due_def)
qed

lemma fired_rule:
  assumes "core_reachable core" "\<not> core_paused core" "((wid, sid), rule) \<in> set (core_rules core)"
    "rule_due now wall rule \<noteq> None" "wall' < wall + cooldown" "g \<in> set (fst (due now' wall' (snd (due now wall core))))"
  shows "(firing_workspace_id g, firing_schedule_id g) \<noteq> (wid, sid)"
proof
  assume key: "(firing_workspace_id g, firing_schedule_id g) = (wid, sid)"
  have d: "distinct (map fst (core_rules core))"
    using core_rules_wf[OF assms(1)] by (simp add: bm_wf_def strict_sorted_iff)
  from assms(2,6) key obtain rule' where r: "((wid, sid), rule') \<in> set (core_rules core)"
      "rule_due now' wall' (due_rule now wall rule') \<noteq> None"
    by (auto simp: due_def List.map_filter_def rule_firing_Some split: if_splits)
  then have "rule' = rule" using d assms(3) eq_key_imp_eq_value by metis
  then show False using due_rule_rests[OF assms(4,5)] r(2) by simp
qed


section \<open>The next deadline\<close>

lemma deadline_of_rule:
  assumes "0 \<le> (d::int)"
  shows "rule_due (now + d) (wall + d) rule \<noteq> None \<longleftrightarrow>
    (\<exists>b. file_burst rule = Some b \<and>
       max (due_at rule b) (case keep_if (\<lambda>t. wall \<le> t) (file_not_before rule) of
          Some t \<Rightarrow> now + (t - wall) | None \<Rightarrow> now) \<le> now + d)"
proof -
  have "rule_due (now + d) (wall + d) rule \<noteq> None \<longleftrightarrow> (\<exists>b. rule_due (now + d) (wall + d) rule = Some b)" by blast
  then show ?thesis using assms unfolding rule_due_Some
    by (auto simp: keep_if_def not_le split: option.splits)
qed

text \<open>
  C14. The deadline the engine sleeps until is exact: while automations run, and as long as both clocks
  advance alike, a rule becomes due after some time exactly when the deadline is over by then.
\<close>

theorem next_deadline_exact:
  assumes "\<not> core_paused core" "0 \<le> d"
  shows "(\<exists>rule\<in>snd ` set (core_rules core). rule_due (now + d) (wall + d) rule \<noteq> None) \<longleftrightarrow>
    (\<exists>t. next_deadline now wall core = Some t \<and> t \<le> now + d)"
proof -
  let ?g = "\<lambda>rule. map_option (\<lambda>b. max (due_at rule b)
               (case keep_if (\<lambda>t. wall \<le> t) (file_not_before rule) of Some t \<Rightarrow> now + (t - wall) | None \<Rightarrow> now)) (file_burst rule)"
  let ?ds = "List.map_filter (\<lambda>(_, rule). ?g rule) (core_rules core)"
  have mem: "t \<in> set ?ds \<longleftrightarrow> (\<exists>rule\<in>snd ` set (core_rules core). ?g rule = Some t)" for t
    by (force simp: List.map_filter_def)
  have "next_deadline now wall core = (if ?ds = [] then None else Some (Min (set ?ds)))"
    using assms(1) by (simp add: next_deadline_def Let_def)
  then have "(\<exists>t. next_deadline now wall core = Some t \<and> t \<le> now + d) \<longleftrightarrow> (\<exists>t\<in>set ?ds. t \<le> now + d)"
    by (auto simp: Min_le_iff)
  also have "\<dots> \<longleftrightarrow> (\<exists>rule\<in>snd ` set (core_rules core). \<exists>t. ?g rule = Some t \<and> t \<le> now + d)"
    using mem by blast
  also have "\<dots> \<longleftrightarrow> (\<exists>rule\<in>snd ` set (core_rules core). rule_due (now + d) (wall + d) rule \<noteq> None)"
    unfolding deadline_of_rule[OF assms(2)] by (intro bex_cong refl) (auto split: option.splits)
  finally show ?thesis by simp
qed

section \<open>A sample core\<close>

declare match_loop.simps [code]

definition watching :: stored_schedule where
  "watching =
     \<lparr>stored_revision = 1, stored_trigger_revision = 0,
      stored_value = \<lparr>schedule_id = ''e'', schedule_name = ''E'', schedule_launch_command_id = ''c'',
        schedule_trigger_of = Event (event_trigger.FilesChanged [''a''] [] 5),
        schedule_missed_run_policy = MissedSkip, schedule_overlap_policy = OverlapSkip, schedule_inputs = []\<rparr>,
      stored_enabled = True, stored_enabled_launch_command_revision = Some 0, stored_next_due_at = None,
      stored_occurrences = []\<rparr>"

definition watched_core :: trigger_core where
  "watched_core =
     core_new False (store_default\<lparr>store_workspaces := [(workspace_empty ''w'')\<lparr>ws_schedules := [watching]\<rparr>]\<rparr>) 0"

definition changed_core :: trigger_core where
  "changed_core = file_changes ''w'' [''a''] 0 0 watched_core"

lemma changed_core_reachable: "core_reachable changed_core"
  unfolding changed_core_def watched_core_def by (intro core_reachable.intros)


theorem next_deadline_exact_witness:
  "\<not> core_paused changed_core \<and> next_deadline 0 0 changed_core = Some (seconds 5) \<and>
   (\<exists>rule\<in>snd ` set (core_rules changed_core). rule_due (seconds 5) (seconds 5) rule \<noteq> None)"
proof -
  have 1: "\<not> core_paused changed_core" "next_deadline 0 0 changed_core = Some (seconds 5)" by code_simp+
  have "0 \<le> seconds 5" by (simp add: seconds_def ms_def)
  from next_deadline_exact[OF 1(1) this, of 0 0] 1 show ?thesis by simp
qed

end
