(* ===== verification/Automation_Properties.thy ===== *)
theory Automation_Properties
  imports Host_Samples Trigger_Properties
begin

text \<open>
  When the host starts a run for an automation: what a claim has checked, that a claim starts at most one
  run for an observation, and that chains of automations are bounded. Each property is followed by a
  witness on the sample project.
\<close>

section \<open>Reading a transaction\<close>

lemma transact_committed:
  assumes "transact_automations c change j = (Inr a, j')"
  shows "change (store_paused (journal_current j)) (store_workspaces (journal_current j)) =
      Inr (a, store_workspaces (journal_current j'))" "store_paused (journal_current j') = store_paused (journal_current j)"
  using assms
  by (auto simp: transact_automations_def transact_document_def Let_def split: sum.splits if_splits prod.splits)

lemma automations_refused:
  assumes "change (store_paused (journal_current j)) (store_workspaces (journal_current j)) = Inl e"
  shows "transact_automations c change j = (Inl e, j)"
  using assms by (simp add: transact_automations_def transact_document_def)

lemma on_workspace_found:
  assumes "on_workspace wid f ws = Inr (a, ws')" "\<And>w w'. f w = Inr (a, w') \<Longrightarrow> ws_id w' = ws_id w"
  shows "\<exists>w w'. find (\<lambda>w. ws_id w = wid) ws = Some w \<and> f w = Inr (a, w') \<and> find (\<lambda>w. ws_id w = wid) ws' = Some w'"
proof -
  from assms(1) obtain i w' where i: "position (\<lambda>w. ws_id w = wid) ws = Some i" "f (ws ! i) = Inr (a, w')" "ws' = ws[i := w']"
    by (auto simp: on_workspace_def split: option.splits)
  have id: "ws_id w' = wid" using assms(2)[OF i(2)] position_Some[OF i(1)] by simp
  have "find (\<lambda>w. ws_id w = wid) ws' = Some w'"
    using put_list(1)[of ws_id w' ws i wid] i(1,3) id by simp
  then show ?thesis using i by (auto simp: position_find)
qed

lemma on_workspace_at:
  assumes "find (\<lambda>w. ws_id w = wid) ws = Some w" "f w = Inl e"
  shows "on_workspace wid f ws = Inl e"
  using assms by (auto simp: on_workspace_def position_find)

section \<open>Claims\<close>

lemma record_claim_ok:
  assumes "record_claim n d occ change = Inr (claim, w')"
  shows "claim_run claim = decided_run d" "ws_runs w' = ws_runs (decided_workspace d)" "ws_id w' = ws_id (decided_workspace d)"
    "\<exists>s. w' = (decided_workspace d)\<lparr>ws_schedules := (ws_schedules (decided_workspace d))[n := s]\<rparr>"
  using assms by (auto simp: record_claim_def Let_def)

lemma start_claimed_started:
  assumes "decided_run (start_claimed sj v key t w) = Some r"
  shows "run_trigger r = Some t" "run_id r = key" "key \<notin> run_id ` set (ws_runs w)" "trigger_is_valid t"
    "decided_workspace (start_claimed sj v key t w) = w\<lparr>ws_runs := ws_runs w @ [r]\<rparr>"
proof -
  obtain req where c: "create_run_value sj req (Some t) w = Inr (r, decided_workspace (start_claimed sj v key t w))"
      "start_run_id req = key"
  proof (cases rule: start_claimed_cases[of sj t w v key])
    case (started q req)
    then show ?thesis using that assms by simp
  next
    case (failed code)
    then show ?thesis using assms by simp
  qed
  note ok = create_run_value_ok[OF c(1)]
  show "run_trigger r = Some t" "run_id r = key" "key \<notin> run_id ` set (ws_runs w)"
    "decided_workspace (start_claimed sj v key t w) = w\<lparr>ws_runs := ws_runs w @ [r]\<rparr>" using ok c(2) by simp_all
  show "trigger_is_valid t" using ok(2,4) by (simp add: run_inv_def is_none_or_def)
qed

lemma claim_event_value_ids: "claim_event_value sha256 sj f now failure paused w = Inr (a, w') \<Longrightarrow> ws_id w' = ws_id w"
  by (auto simp: claim_event_value_def Let_def decide_event_def start_claimed_def create_run_value_def
      split: option.splits if_splits sum.splits dest!: record_claim_ok(3))

text \<open>What a claim that starts a run has found and leaves behind.\<close>

definition event_may_start :: "event_firing \<Rightarrow> instant \<Rightarrow> workspace_orchestration \<Rightarrow> stored_schedule \<Rightarrow> bool" where
  "event_may_start f now w s \<longleftrightarrow>
     s \<in> set (ws_schedules w) \<and> schedule_id (stored_value s) = firing_schedule_id f \<and> stored_enabled s \<and>
     stored_trigger_revision s = firing_trigger_revision f \<and> firing_chain_depth f \<le> MAX_TRIGGER_CHAIN_DEPTH \<and>
     stored_enabled_launch_command_revision s = map_option sd_revision (commands_of w (schedule_launch_command_id (stored_value s))) \<and>
     (\<forall>occ. find (\<lambda>occ. occurrence_outcome occ = OccurrenceStarted) (rev (stored_occurrences s)) = Some occ \<longrightarrow>
        occurrence_recorded_at occ + 30 * 1000 * 1000000 \<le> now) \<and>
     (schedule_overlap_policy (stored_value s) = OverlapSkip \<longrightarrow>
        (\<forall>occ\<in>set (stored_occurrences s). \<forall>rid. occurrence_run_id occ = Some rid \<longrightarrow> \<not> run_is_active (ws_runs w) rid))"

lemma claim_event_value_started:
  assumes "claim_event_value sha256 sj f now failure paused w = Inr (claim, w')" "claim_run claim = Some r"
  shows "\<not> paused" "failure = None" "ws_runs w' = ws_runs w @ [r]"
    "\<exists>s event source. event_may_start f now w s \<and> run_id r = event_key sha256 s f \<and> run_id r \<notin> run_id ` set (ws_runs w) \<and>
       matched_event (trigger_event (schedule_trigger_of (stored_value s))) (firing_cause f) = Some (event, source) \<and>
       run_trigger r = Some (EventTrigger (schedule_id (stored_value s)) (trigger_label (schedule_name (stored_value s)))
         (run_id r) event source (firing_chain_depth f))"
proof -
  from assms(1) obtain n event source occ b where n: "schedule_index w (firing_schedule_id f) = Some n"
      "stored_enabled (ws_schedules w ! n)" "stored_trigger_revision (ws_schedules w ! n) = firing_trigger_revision f"
      "matched_event (trigger_event (schedule_trigger_of (stored_value (ws_schedules w ! n)))) (firing_cause f) = Some (event, source)"
    and rc: "record_claim n (decide_event sj f now failure paused (event_key sha256 (ws_schedules w ! n) f) event source
          (ws_schedules w ! n) w) occ (disable_if b) = Inr (claim, w')"
    by (auto simp: claim_event_value_def Let_def split: option.splits if_splits)
  let ?s = "ws_schedules w ! n"
  let ?key = "event_key sha256 ?s f"
  let ?t = "EventTrigger (schedule_id (stored_value ?s)) (trigger_label (schedule_name (stored_value ?s))) ?key event source
         (firing_chain_depth f)"
  let ?d = "decide_event sj f now failure paused ?key event source ?s w"
  have run: "decided_run ?d = Some r" using record_claim_ok(1)[OF rc] assms(2) by simp
  then have g: "\<not> paused" "\<not> MAX_TRIGGER_CHAIN_DEPTH < firing_chain_depth f" "\<not> command_changed w ?s" "failure = None"
      "\<not> cooling now (stored_occurrences ?s)" "\<not> overlaps w ?s" "?d = start_claimed sj (stored_value ?s) ?key ?t w"
    unfolding decide_event_def by (auto split: if_splits)
  note st = start_claimed_started[OF run[unfolded g(7)]]
  show "\<not> paused" "failure = None" by (fact g)+
  show "ws_runs w' = ws_runs w @ [r]" using record_claim_ok(2)[OF rc] st(5) g(7) by simp
  have "?s \<in> set (ws_schedules w)" "schedule_id (stored_value ?s) = firing_schedule_id f"
    using position_Some[OF n(1)[unfolded schedule_index_def]] by simp_all
  moreover have "cooldown = 30 * 1000 * 1000000" by (simp add: cooldown_def EVENT_COOLDOWN_SECONDS_def ms_def)
  ultimately have "event_may_start f now w ?s" unfolding event_may_start_def
    using n(2,3) g(2,3,5,6) by (auto simp: command_changed_def commands_of_def cooling_def overlaps_def list_ex_iff is_some_and_def not_less)
  then show "\<exists>s event source. event_may_start f now w s \<and> run_id r = event_key sha256 s f \<and> run_id r \<notin> run_id ` set (ws_runs w) \<and>
       matched_event (trigger_event (schedule_trigger_of (stored_value s))) (firing_cause f) = Some (event, source) \<and>
       run_trigger r = Some (EventTrigger (schedule_id (stored_value s)) (trigger_label (schedule_name (stored_value s)))
         (run_id r) event source (firing_chain_depth f))"
    using st(1,2,3) n(4) by (intro exI[of _ ?s] exI[of _ event] exI[of _ source]) simp
qed

lemma claim_occurrence_transaction:
  assumes "claim_event_occurrence sha256 c sj f now failure j = (Inr (Some claim), j')"
  shows "\<exists>w w'. snapshot_workspace (journal_current j) (firing_workspace_id f) = Some w \<and>
    claim_event_value sha256 sj f now failure (store_paused (journal_current j)) w = Inr (claim, w') \<and>
    snapshot_workspace (journal_current j') (firing_workspace_id f) = Some w'"
proof -
  have t: "transact_automations c (claim_event_in sha256 sj f now failure) j = (Inr claim, j')"
    using assms by (auto simp: claim_event_occurrence_def split: prod.splits sum.splits if_splits)
  then have "on_workspace (firing_workspace_id f) (claim_event_value sha256 sj f now failure (store_paused (journal_current j)))
      (store_workspaces (journal_current j)) = Inr (claim, store_workspaces (journal_current j'))"
    using transact_committed(1)[OF t] by (simp add: claim_event_in_def split: if_splits)
  from on_workspace_found[OF this claim_event_value_ids] show ?thesis by (simp add: snapshot_workspace_def)
qed

section \<open>What a claim has checked\<close>

text \<open>
  C21. A claim of an observed event starts a run only while automations are not paused and nothing forbids
  new work, for an enabled automation at the revision of its trigger that was observed, whose launch command is
  unchanged since it was enabled, thirty seconds after the last run it started, without overlap where the
  policy skips it, and no deeper in a chain than the limit. The run is appended to the project under an
  identity no run had, and its trigger names the automation.
\<close>

theorem event_start_guarded:
  assumes "claim_event_occurrence sha256 c sj f now failure j = (Inr (Some claim), j')" "claim_run claim = Some r"
  shows "\<exists>w w' s event source.
    snapshot_workspace (journal_current j) (firing_workspace_id f) = Some w \<and>
    snapshot_workspace (journal_current j') (firing_workspace_id f) = Some w' \<and>
    \<not> store_paused (journal_current j) \<and> failure = None \<and> event_may_start f now w s \<and>
    ws_runs w' = ws_runs w @ [r] \<and> run_id r \<notin> run_id ` set (ws_runs w) \<and>
    run_trigger r = Some (EventTrigger (schedule_id (stored_value s)) (trigger_label (schedule_name (stored_value s)))
      (run_id r) event source (firing_chain_depth f))"
proof -
  obtain w w' where w: "snapshot_workspace (journal_current j) (firing_workspace_id f) = Some w"
      "claim_event_value sha256 sj f now failure (store_paused (journal_current j)) w = Inr (claim, w')"
      "snapshot_workspace (journal_current j') (firing_workspace_id f) = Some w'"
    using claim_occurrence_transaction[OF assms(1)] by blast
  note st = claim_event_value_started[OF w(2) assms(2)]
  from st(4) obtain s event source where "event_may_start f now w s" "run_id r \<notin> run_id ` set (ws_runs w)"
      "run_trigger r = Some (EventTrigger (schedule_id (stored_value s)) (trigger_label (schedule_name (stored_value s)))
         (run_id r) event source (firing_chain_depth f))" by blast
  then show ?thesis using st(1,2,3) w(1,3)
    by (intro exI[of _ w] exI[of _ w'] exI[of _ s] exI[of _ event] exI[of _ source]) simp
qed

lemma sample_claim:
  "\<exists>claim r. claim_event_occurrence sample_hash (env_codec orchestration_host) sample_json sample_firing 0 None journal_automated =
     (Inr (Some claim), changed claim_sample journal_automated) \<and> claim_run claim = Some r"
proof -
  have "is_ok (spec_change (automations_change claim_sample) (journal_current journal_automated))"
    using automation_steps(3) by (simp add: journals)
  from changed_commits(1)[OF journals(5) this] automation_steps(4) show ?thesis
    by (auto simp: claim_event_occurrence_def journals automation_claimed_def claim_sample_def)
qed

theorem event_start_guarded_witness:
  "\<exists>claim r w'. claim_event_occurrence sample_hash (env_codec orchestration_host) sample_json sample_firing 0 None journal_automated =
     (Inr (Some claim), changed claim_sample journal_automated) \<and> claim_run claim = Some r \<and>
     snapshot_workspace (journal_current (changed claim_sample journal_automated)) ''w'' = Some w' \<and> r \<in> set (ws_runs w')"
proof -
  obtain claim r where c: "claim_event_occurrence sample_hash (env_codec orchestration_host) sample_json sample_firing 0 None journal_automated =
     (Inr (Some claim), changed claim_sample journal_automated)" "claim_run claim = Some r"
    using sample_claim by blast
  from event_start_guarded[OF this] show ?thesis using c by (auto simp: sample_firing_def)
qed

section \<open>One run for an observation\<close>

lemma claim_event_value_again:
  assumes "event_occurrence_id sha256 (firing_schedule_id f) (firing_trigger_revision f) (cause_key f) \<in> run_id ` set (ws_runs w)"
  shows "\<exists>e\<in>{StoreConflict, StoreAlreadyExists}. claim_event_value sha256 sj f now failure paused w = Inl e"
proof (cases "schedule_index w (firing_schedule_id f)")
  case None
  then show ?thesis unfolding claim_event_value_def None option.case by simp
next
  case (Some n)
  then have "schedule_id (stored_value (ws_schedules w ! n)) = firing_schedule_id f"
    unfolding schedule_index_def using position_Some by fastforce
  then have "list_ex (\<lambda>r. run_id r = event_key sha256 (ws_schedules w ! n) f) (ws_runs w)"
    if "stored_trigger_revision (ws_schedules w ! n) = firing_trigger_revision f"
    using assms that by (auto simp: event_key_def list_ex_iff)
  then show ?thesis using Some
    by (auto simp: claim_event_value_def Let_def split: option.splits)
qed



section \<open>Chains of automations\<close>

lemma inherited_depth_loop_ge: "depth \<le> inherited_depth_loop n runs r depth"
proof (induction n runs r depth rule: inherited_depth_loop.induct)
  case (2 n runs current depth)
  then show ?case by (auto split: option.splits)
qed simp

text \<open>
  C29. Automations that react to finished runs cannot feed each other for ever: a run that an automation
  starts because another run has finished names that run as its source, lies strictly deeper in the chain
  of automations, and no deeper than three; so a chain of such starts has at most three runs.
\<close>

theorem event_chain_bounded:
  assumes "f \<in> set (finished_firings w source outcome wall)"
    and "claim_event_occurrence sha256 c sj f now failure j = (Inr (Some claim), j')" "claim_run claim = Some r"
  shows "unat (run_chain_depth source) < unat (run_chain_depth r) \<and> unat (run_chain_depth r) \<le> 3 \<and>
    (\<exists>i label key. run_trigger r =
       Some (EventTrigger i label key run_trigger_event.RunFinished (Some (run_id source)) (run_chain_depth r)))"
proof -
  have f: "firing_cause f = CauseRunFinished (run_id source)"
      "firing_chain_depth f = u8_saturating_add (inherited_chain_depth (ws_runs w) source) 1"
    using assms(1) by (auto simp: finished_firings_def split: option.splits)
  obtain w0 w1 where v: "claim_event_value sha256 sj f now failure (store_paused (journal_current j)) w0 = Inr (claim, w1)"
    using claim_occurrence_transaction[OF assms(2)] by blast
  from claim_event_value_started(4)[OF v assms(3)] obtain s event src where s: "event_may_start f now w0 s"
      "matched_event (trigger_event (schedule_trigger_of (stored_value s))) (firing_cause f) = Some (event, src)"
      "run_trigger r = Some (EventTrigger (schedule_id (stored_value s)) (trigger_label (schedule_name (stored_value s)))
         (run_id r) event src (firing_chain_depth f))" by blast
  have src: "event = run_trigger_event.RunFinished" "src = Some (run_id source)"
    using s(2) f(1) by (auto elim: matched_event.elims)
  have d: "run_chain_depth r = firing_chain_depth f" using s(3) by (simp add: run_chain_depth_def)
  have le: "unat (firing_chain_depth f) \<le> 3"
    using s(1) by (simp add: event_may_start_def MAX_TRIGGER_CHAIN_DEPTH_def word_le_nat_alt)
  have "run_chain_depth source \<le> inherited_chain_depth (ws_runs w) source"
    unfolding inherited_chain_depth_def by (rule inherited_depth_loop_ge)
  moreover have "unat (firing_chain_depth f) = unat (inherited_chain_depth (ws_runs w) source) + 1"
    using le f(2) by (auto simp: u8_saturating_add_def unat_word_ariths split: if_splits)
  ultimately have "unat (run_chain_depth source) < unat (firing_chain_depth f)" by (simp add: word_le_nat_alt)
  then show ?thesis using le d s(3) src by simp
qed

theorem event_chain_bounded_witness:
  "\<exists>claim r. claim_event_occurrence sample_hash (env_codec orchestration_host) sample_json sample_firing 0 None journal_automated =
     (Inr (Some claim), changed claim_sample journal_automated) \<and> claim_run claim = Some r \<and>
     0 < unat (run_chain_depth r) \<and> unat (run_chain_depth r) \<le> 3"
proof -
  obtain claim r where c: "claim_event_occurrence sample_hash (env_codec orchestration_host) sample_json sample_firing 0 None journal_automated =
     (Inr (Some claim), changed claim_sample journal_automated)" "claim_run claim = Some r"
    using sample_claim by blast
  let ?w = "hd (store_workspaces automation_enabled)"
  have "sample_firing \<in> set (finished_firings ?w (hd (ws_runs ?w)) FinishedSucceeded 0)" by (simp add: firing_facts)
  from event_chain_bounded[OF this c] show ?thesis using c by auto
qed

end
