(* ===== verification/Edit_Properties.thy ===== *)
theory Edit_Properties
  imports Automation_Properties
begin

text \<open>
  What editors of a project and managed agents can rely on: a saved definition is the one that is read back,
  of two editors that start from the same revision one is refused, and a request of an agent takes effect
  once. A profile that the host saves but that no run accepts is the exception that is proved here.
\<close>

section \<open>Editing definitions\<close>

lemma on_workspace_or_new_found:
  assumes "on_workspace_or_new wid f ws = Inr (a, ws')" "\<And>w w'. f w = Inr (a, w') \<Longrightarrow> ws_id w' = ws_id w"
  shows "\<exists>w w'. f w = Inr (a, w') \<and> find (\<lambda>w. ws_id w = wid) ws' = Some w'"
proof (cases "position (\<lambda>w. ws_id w = wid) ws")
  case None
  then obtain w' where w: "f (workspace_empty wid) = Inr (a, w')" "ws' = ws @ [w']"
    using assms(1) unfolding on_workspace_or_new_def None option.case by auto
  have "ws_id w' = wid" using assms(2)[OF w(1)] by (simp add: workspace_empty_def)
  moreover have "find (\<lambda>w. ws_id w = wid) ws = None" using None by (simp add: find_None_iff')
  ultimately have "find (\<lambda>w. ws_id w = wid) ws' = Some w'" using w(2) by (simp add: find_append_new)
  then show ?thesis using w(1) by blast
next
  case (Some i)
  then have "on_workspace wid f ws = Inr (a, ws')" using assms(1) by (simp add: on_workspace_or_new_def on_workspace_def)
  then show ?thesis using on_workspace_found[of wid f ws a ws'] assms(2) by blast
qed

lemma on_workspace_or_new_at:
  assumes "find (\<lambda>w. ws_id w = wid) ws = Some w" "f w = Inl e"
  shows "on_workspace_or_new wid f ws = Inl e"
  using assms by (auto simp: on_workspace_or_new_def position_find)

context definition_laws
begin

lemma save_definition_read_back:
  assumes "save_definition c k wid expected v j = (Inr s, j')"
  shows "get_definition k wid (kind_id k v) j' = Inr (Some s)" "sd_value s = v"
    "sd_revision s = (case expected of None \<Rightarrow> 0 | Some e \<Rightarrow> e + 1)" "expected \<noteq> Some (- 1)"
    "\<exists>w. snapshot_workspace (journal_current j') wid = Some w \<and> stored_of k w (kind_id k v) = Some s"
    "\<not> is_blank_text wid"
proof -
  have t: "transact_automations c (\<lambda>_. on_workspace_or_new wid (save_value k expected v)) j = (Inr s, j')"
    and wid: "\<not> is_blank_text wid"
    using assms by (auto simp: save_definition_def api_transact_def transact_workspaces_def split: if_splits)
  obtain w w' where w: "save_value k expected v w = Inr (s, w')" "snapshot_workspace (journal_current j') wid = Some w'"
    using on_workspace_or_new_found[OF transact_committed(1)[OF t]] save_value_ok(3)
    by (fastforce simp: snapshot_workspace_def)
  note ok = save_value_ok[OF w(1)]
  have s: "stored_of k w' (kind_id k v) = Some s" using ok(2) by simp
  show "get_definition k wid (kind_id k v) j' = Inr (Some s)"
    using w(2) s wid ok(5) by (simp add: get_definition_def)
  show "\<exists>w. snapshot_workspace (journal_current j') wid = Some w \<and> stored_of k w (kind_id k v) = Some s"
    using w(2) s by blast
  show "sd_value s = v" "sd_revision s = (case expected of None \<Rightarrow> 0 | Some e \<Rightarrow> e + 1)" "expected \<noteq> Some (- 1)"
    "\<not> is_blank_text wid" by (fact ok(1,7,8) wid)+
qed

lemma stale_editor_refused:
  assumes "save_definition c k wid expected v j = (Inr s, j')" "kind_id k v2 = kind_id k v"
  shows "\<exists>e. save_definition c k wid expected v2 j' = (Inl e, j')"
proof -
  note ok = save_definition_read_back[OF assms(1)]
  obtain w where w: "snapshot_workspace (journal_current j') wid = Some w" "stored_of k w (kind_id k v) = Some s"
    using ok(5) by blast
  have "expected \<noteq> map_option sd_revision (stored_of k w (kind_id k v2))"
    using w(2) ok(3) assms(2) by (auto split: option.splits)
  then obtain e where "save_value k expected v2 w = Inl e" using save_value_stale by blast
  then have "on_workspace_or_new wid (save_value k expected v2) (store_workspaces (journal_current j')) = Inl e"
    using w(1) by (intro on_workspace_or_new_at) (simp_all add: snapshot_workspace_def)
  then have "transact_workspaces c (on_workspace_or_new wid (save_value k expected v2)) j' = (Inl e, j')"
    unfolding transact_workspaces_def by (rule automations_refused)
  then show ?thesis using ok(6) by (auto simp: save_definition_def api_transact_def)
qed

end

text \<open>
  C34. No edit of a pipeline is lost: a saved pipeline is the one that is read back, one revision after the
  one the editor expected, and another editor that expected the same revision is refused and changes
  nothing.
\<close>

theorem pipeline_edits_serialised:
  assumes "save_definition c (pipeline_kind sj) wid expected p j = (Inr s, j')"
  shows "get_definition (pipeline_kind sj) wid (pipeline_id p) j' = Inr (Some s) \<and> sd_value s = p \<and>
    sd_revision s = (case expected of None \<Rightarrow> 0 | Some e \<Rightarrow> e + 1) \<and>
    (\<forall>q. pipeline_id q = pipeline_id p \<longrightarrow> (\<exists>e. save_definition c (pipeline_kind sj) wid expected q j' = (Inl e, j')))"
  using pipeline_laws.save_definition_read_back(1-3)[OF assms] pipeline_laws.stale_editor_refused[OF assms] by simp

definition pipeline_codec :: journal_codec where
  "pipeline_codec = finite_codec [following save_pipeline store_default] []"

theorem pipeline_edits_serialised_witness:
  "\<exists>s j'. save_definition pipeline_codec (pipeline_kind sample_json) ''w'' None saved_pipeline fresh_journal = (Inr s, j') \<and>
     get_definition (pipeline_kind sample_json) ''w'' ''l'' j' = Inr (Some s) \<and>
     (\<exists>e. save_definition pipeline_codec (pipeline_kind sample_json) ''w'' None saved_pipeline j' = (Inl e, j'))"
proof -
  note ok = pipeline_facts(1) sample_names(1) pipeline_facts(2)
  obtain s where s: "spec_change (automations_change save_pipeline) (journal_current fresh_journal) =
      Inr (s, following save_pipeline store_default)"
    using ok(1) by (cases "spec_change (automations_change save_pipeline) store_default") (auto simp: following_def fresh_opened(3))
  obtain bytes where b: "encode_store pipeline_codec (following save_pipeline store_default) = Some bytes"
    using coded_Some[of "following save_pipeline store_default" "[following save_pipeline store_default]"]
    by (auto simp: pipeline_codec_def finite_codec_def)
  obtain j' where "transact_document pipeline_codec (automations_change save_pipeline) fresh_journal = (Inr s, j')"
    using faultless_commit[OF fresh_opened(2) s keeps_header_change b] by blast
  then have "save_definition pipeline_codec (pipeline_kind sample_json) ''w'' None saved_pipeline fresh_journal = (Inr s, j')"
    using ok(2) by (simp add: save_definition_def api_transact_def transact_workspaces_def transact_automations_def
        automations_change_def[abs_def] save_pipeline_def)
  from pipeline_edits_serialised[OF this] this show ?thesis using ok(3) by auto
qed

section \<open>Profiles\<close>

lemma tool_rules_distinct: "validate_tool_rules tools rules = Inr () \<Longrightarrow> distinct (map rule_tool rules)"
proof -
  have "validate_tool_rules tools rules = Inr () \<Longrightarrow> distinct (map rule_tool rules) \<and> set (map rule_tool rules) \<inter> set tools = {}"
    by (induction tools rules rule: validate_tool_rules.induct) (auto split: if_splits)
  then show "validate_tool_rules tools rules = Inr () \<Longrightarrow> distinct (map rule_tool rules)" by blast
qed

lemma created_run_profiles:
  assumes "create_run_value sj req t w = Inr (r, w')" "s \<in> set (ws_profiles w)"
  shows "distinct (map rule_tool (policy_rules (profile_tool_policy (sd_value s))))"
proof -
  from assms(1) obtain team pipeline command where
    "new_started_run sj (start_run_id req) (workspace_snapshot w team pipeline command) (start_inputs req) t (start_use_pinned_data req) = Inr r"
    by (auto simp: create_run_value_def split: if_splits option.splits)
  then obtain d where d: "validate_definition sj d = Inr ()" "def_profiles d = map sd_value (ws_profiles w)"
    by (auto simp: new_started_run_def Let_def workspace_snapshot_def without_pins_def split: if_splits)
  obtain profiles where "try_each (validate_profile profiles) (def_profiles d) = Inr ()"
    using d(1) by (auto simp: validate_definition_def)
  then have "validate_profile profiles (sd_value s) = Inr ()"
    using assms(2) d(2) by simp
  then show ?thesis by (auto simp: validate_profile_def dest!: tool_rules_distinct)
qed

text \<open>
  C37. The host saves profiles that no run accepts: a profile with two rules for one tool passes the checks of
  saving it, and from then on no run of the project starts, whatever team, pipeline or command is asked for,
  because the snapshot of a run holds all profiles of the project and its validation refuses the rules.
\<close>

theorem saved_profile_blocks_runs:
  assumes "profile_valid p w" "profiles_of w (profile_id p) = None"
    "\<not> distinct (map rule_tool (policy_rules (profile_tool_policy p)))"
  shows "\<exists>s w'. save_value profile_kind None p w = Inr (s, w') \<and> (\<forall>sj req t. \<not> is_ok (create_run_value sj req t w'))"
proof -
  let ?s = "\<lparr>sd_revision = 0, sd_value = p\<rparr>"
  let ?w = "put_value profile_kind ?s w"
  have "save_value profile_kind None p w = Inr (?s, ?w)"
    using assms(1,2) by (simp add: save_value_def saved_value_def) (simp add: profile_kind_def)
  moreover have "profiles_of ?w (profile_id p) = Some ?s" using profile_laws.values_put_value(1)[of ?s w] by simp
  then have "?s \<in> set (ws_profiles ?w)" by (auto simp: profiles_of_def dest: find_Some_set)
  then have "\<not> is_ok (create_run_value sj req t ?w)" for sj req t
    using created_run_profiles[of sj req t ?w _ _ ?s] assms(3) by (cases "create_run_value sj req t ?w") auto
  ultimately show ?thesis by blast
qed

theorem saved_profile_blocks_runs_witness:
  "is_ok (create_run_value sample_json sample_start None (hd (store_workspaces project_saved))) \<and>
   (\<exists>s w'. save_value profile_kind None two_rules_profile (hd (store_workspaces project_saved)) = Inr (s, w') \<and>
      \<not> is_ok (create_run_value sample_json sample_start None w'))"
  using two_rules_facts saved_profile_blocks_runs by blast

section \<open>Agents\<close>

lemma record_request_again:
  assumes "host_record_request rid session actor k r = Inr (first, r')"
  shows "run_agent_requests r2 = run_agent_requests r' \<Longrightarrow> host_record_request rid session actor k r2 = Inr (False, r2)"
    "run_messages r' = run_messages r" "run_definition r' = run_definition r" "run_tasks r' = run_tasks r"
  using assms
  by (auto simp: host_record_request_def coord_def current_revision_def record_agent_request_def require_def
      check_run_revision_def check_revision_def bump_run_def find_append_new split: if_splits option.splits sum.splits prod.splits)

definition sent_message :: "string \<Rightarrow> string \<Rightarrow> string \<Rightarrow> string \<Rightarrow> message_record" where
  "sent_message rid actor recipient body =
     \<lparr>message_id = rid, message_sender_member_id = actor, message_recipient_member_id = recipient, message_body = body,
      message_status = Accepted, message_revision = 0\<rparr>"

lemma send_once_cases:
  assumes "send_once rid actor recipient body r = Inr (a, r')"
  obtains (repeated) "r' = r" "find (\<lambda>m. message_id m = rid) (run_messages r) \<noteq> None"
  | (sent) "find (\<lambda>m. message_id m = rid) (run_messages r) = None"
      "r' = bump_run (r\<lparr>run_messages := run_messages r @ [sent_message rid actor recipient body]\<rparr>)"
  using assms
  by (auto simp: send_once_def then_run_def coord_def current_revision_def accept_message_def require_def sent_message_def
      split: if_splits option.splits sum.splits prod.splits)

lemma send_once_known:
  assumes "send_once rid actor recipient body r = Inr (a, r')"
  shows "\<exists>m. find (\<lambda>m. message_id m = rid) (run_messages r') = Some m \<and> message_sender_member_id m = actor \<and>
    message_recipient_member_id m = recipient \<and> message_body m = body"
  using assms
proof (cases rule: send_once_cases)
  case repeated
  then show ?thesis using assms by (auto simp: send_once_def split: if_splits)
next
  case sent
  then show ?thesis by (simp add: bump_run_def find_append_new sent_message_def)
qed

lemma send_once_again:
  assumes "send_once rid actor recipient body r = Inr (a, r')"
  shows "\<exists>b. send_once rid actor recipient body r' = Inr (b, r')"
    "body' \<noteq> body \<Longrightarrow> send_once rid actor recipient body' r' = Inl StoreConflict"
  using send_once_known[OF assms] by (auto simp: send_once_def)

lemma send_once_keeps:
  assumes "send_once rid actor recipient body r = Inr (a, r')"
  shows "run_agent_requests r' = run_agent_requests r" "run_definition r' = run_definition r" "run_tasks r' = run_tasks r"
    "run_messages r' \<in> {run_messages r, run_messages r @ [sent_message rid actor recipient body]}"
  using assms by (cases rule: send_once_cases; simp add: bump_run_def)+

text \<open>
  C40. A message of an agent is sent once and only where the team allows it: when a send is admitted, the actor is
  the member whose running task belongs to the session of the request, the team lets it send to the
  recipient, and at most one message is added, in the actor's name. The same request repeated is admitted
  and changes nothing, and the same request identity with another text is refused.
\<close>

theorem agent_message_once:
  assumes "admit_send rid session recipient body r = Inr (a, r')"
  shows "\<exists>actor. derive_actor_member_id r session = Inr actor \<and>
      is_ok (authorize_send (def_team (run_definition r)) actor recipient) \<and>
      run_messages r' \<in> {run_messages r, run_messages r @ [sent_message rid actor recipient body]} \<and>
      (\<exists>b. admit_send rid session recipient body r' = Inr (b, r')) \<and>
      (\<forall>body'. body' \<noteq> body \<longrightarrow> admit_send rid session recipient body' r' = Inl StoreConflict)"
proof -
  from assms obtain actor first r1 where s: "derive_actor_member_id r session = Inr actor"
      "authorize_coordinator_tool (run_definition r) actor ''orchestration.send'' = Inr ()"
      "authorize_send (def_team (run_definition r)) actor recipient = Inr ()"
      "host_record_request rid session actor (Send recipient) r = Inr (first, r1)"
      "send_once rid actor recipient body r1 = Inr (a, r')"
    by (auto simp: admit_send_def as_actor_def denied_unless_def then_run_def)
  note rec = record_request_again[OF s(4)] and keep = send_once_keeps[OF s(5)]
  have actor: "derive_actor_member_id r' session = Inr actor"
    using s(1) unfolding derive_actor_member_id_def keep(2,3) rec(3,4) .
  have d: "run_definition r' = run_definition r" using rec(3) keep(2) by simp
  have again: "host_record_request rid session actor (Send recipient) r' = Inr (False, r')"
    by (rule rec(1)[OF keep(1)])
  have admit: "admit_send rid session recipient body' r' = send_once rid actor recipient body' r'" for body'
    using actor s(2,3) d again by (simp add: admit_send_def as_actor_def denied_unless_def then_run_def)
  show ?thesis
    using s(1,3) keep(4) rec(2) send_once_again[OF s(5)] by (auto simp: admit)
qed

theorem agent_message_once_witness:
  "\<exists>a r'. admit_send ''q'' ''x'' ''b'' ''hi'' dispatched = Inr (a, r') \<and> run_messages r' = [sent_message ''q'' ''a'' ''b'' ''hi''] \<and>
     (\<exists>b. admit_send ''q'' ''x'' ''b'' ''hi'' r' = Inr (b, r')) \<and> admit_send ''q'' ''x'' ''b'' ''ho'' r' = Inl StoreConflict"
proof -
  obtain a r' where r': "admit_send ''q'' ''x'' ''b'' ''hi'' dispatched = Inr (a, r')"
    using send_facts(1) by (cases "admit_send ''q'' ''x'' ''b'' ''hi'' dispatched") auto
  from agent_message_once[OF r'] obtain b where b: "admit_send ''q'' ''x'' ''b'' ''hi'' r' = Inr (b, r')"
      "admit_send ''q'' ''x'' ''b'' ''ho'' r' = Inl StoreConflict" by auto
  have "run_messages r' = [sent_message ''q'' ''a'' ''b'' ''hi'']" using send_facts(2) r' by (simp add: sent_message_def)
  with r' b show ?thesis by blast
qed

end
