(* ===== verification/Spec2Isabelle.thy ===== *)
theory Spec2Isabelle
  imports Definition_Properties Run_Evaluations Recovery Run_Behaviour Run_Progress Subpipelines Codec Semver
    Schedules Board_Properties Host_Properties Edit_Properties
begin

text \<open>
  A verification of the orchestration core of PiUI, a desktop host for coding agents. A project
  defines agent profiles, a team with send and observe routes, and a pipeline of steps; a \<^emph>\<open>run\<close>
  executes the pipeline. The coordinator (\<^verbatim>\<open>src/crates/piui-orchestration\<close>) is a pure state machine
  over a run: hosts lease ready steps, start native agents, scripts, plugins or child runs, and
  report what happened; every operation carries the revision its caller expects.

  \<^bold>\<open>Theories and what they model\<close> (file names under \<^verbatim>\<open>src/crates/piui-orchestration/src\<close>):

  \<^item> \<open>Prelude\<close>, \<open>Containers\<close>, \<open>Text\<close>, \<open>Json\<close>, \<open>Loops\<close>: what the code uses of Rust's library:
    \<^verbatim>\<open>Result\<close> as a sum, \<^verbatim>\<open>BTreeMap\<close> and \<^verbatim>\<open>BTreeSet\<close> as sorted lists (locale \<open>ordered_map\<close>,
    interpreted as \<open>btree\<close>), byte strings with UTF-8 validity, \<^verbatim>\<open>trim\<close>, saturating arithmetic, JSON
    values, and \<^verbatim>\<open>loop\<close> with a bound (locale \<open>bounded_loop\<close>).
  \<^item> \<open>Harness_Identity\<close>: harness names (\<^verbatim>\<open>piui-contracts/src/harness_identity.rs\<close>, \<^verbatim>\<open>types.rs\<close>).
  \<^item> \<open>Types\<close>: the records and enums of \<^verbatim>\<open>types.rs\<close>, \<^verbatim>\<open>flow.rs\<close>, \<^verbatim>\<open>inputs.rs\<close>, \<^verbatim>\<open>pinned.rs\<close>,
    \<^verbatim>\<open>executors.rs\<close> and \<^verbatim>\<open>subpipelines.rs\<close>, their errors, and the trigger operations. Revisions are
    64-bit words, limits 32-bit and depths 8-bit words.
  \<^item> \<open>Results\<close> (\<^verbatim>\<open>results.rs\<close>), \<open>Inputs\<close> (\<^verbatim>\<open>inputs.rs\<close>), \<open>Step_Output\<close> and \<open>Executors\<close> (\<^verbatim>\<open>executors.rs\<close>,
    \<^verbatim>\<open>plugin_steps.rs\<close>, \<^verbatim>\<open>subpipelines.rs\<close>), \<open>Routing\<close> (\<^verbatim>\<open>flow.rs\<close>), \<open>Pinned\<close> (\<^verbatim>\<open>pinned.rs\<close>): the
    contracts of results, inputs, outputs, executors, routers and pinned data.
  \<^item> \<open>Validation\<close> and \<open>Authority\<close> (\<^verbatim>\<open>validation.rs\<close>): the validator of a definition snapshot and the
    authorisation of spawns, tools and routes; \<open>Dependency_Graph\<close> proves the cycle check correct.
  \<^item> \<open>Run_State\<close>, \<open>Scheduling\<close>, \<open>Coordinator\<close>, \<open>Host_Steps\<close>, \<open>Run_Data\<close> (\<^verbatim>\<open>coordinator.rs\<close>, \<^verbatim>\<open>flow.rs\<close>,
    \<^verbatim>\<open>pinned.rs\<close>, \<^verbatim>\<open>executors.rs\<close>, \<^verbatim>\<open>plugin_steps.rs\<close>, \<^verbatim>\<open>subpipelines.rs\<close>): every operation that changes
    a run. An operation takes the run last and returns its result with the run it leaves behind, so
    that an error path shows what was already changed.
  \<^item> \<open>Subpipelines\<close> (\<^verbatim>\<open>subpipelines.rs\<close>): reference cycles, ancestors, inputs and outputs of child runs.
  \<^item> \<open>Codec\<close> and \<open>Semver\<close>: the framing of the agent protocol (\<^verbatim>\<open>piui-runtime/src/codec.rs\<close>) and
    plugin versions (\<^verbatim>\<open>piui-plugins/src/semver.rs\<close>); \<open>Automation_Paths\<close> and \<open>Schedules\<close>: path patterns
    and timed or event rules (\<^verbatim>\<open>automation_paths.rs\<close> and \<^verbatim>\<open>orchestration_schedule.rs\<close> of
    \<^verbatim>\<open>src/apps/desktop/src-tauri/src\<close>).
  \<^item> The project board (\<^verbatim>\<open>src/apps/desktop/src-tauri/src/board\<close>): \<open>Board_Model\<close> has the cards, settings,
    proposals and errors (\<^verbatim>\<open>model.rs\<close>); \<open>Board_Ops\<close> the changes of a staged board and \<open>Board_Changes\<close> the
    closures the service runs in a transaction (\<^verbatim>\<open>ops.rs\<close>), each a function from a board and the count of
    identifiers drawn so far to an error or the changed pair; \<open>Board_Store\<close> the generations on disk
    (\<^verbatim>\<open>store.rs\<close>, locale \<open>board_store\<close>, interpreted as \<open>file_store\<close>); \<open>Board_Service\<close> the methods of the
    service over its state (loaded boards, turn budgets, disk, run engine, clock readings, events);
    \<open>Board_Agent\<close> the tool of the agents (\<^verbatim>\<open>agent.rs\<close>). \<open>Board_Invariant\<close> and \<open>Board_Steps\<close> hold the
    invariant and the step relation \<open>board_step\<close>, \<open>Board_Transactions\<close> the atomic specification of a
    transaction (locale \<open>board_service\<close>, interpreted on the file store as \<open>file_service\<close>),
    \<open>Board_Behaviour\<close> the lemmas about closing, runs and the queue, \<open>Board_Properties\<close> the properties.
  \<^item> The orchestration host (\<^verbatim>\<open>src/apps/desktop/src-tauri/src\<close>): \<open>Journal\<close> has the durable document of all
    projects and its generations on disk (\<^verbatim>\<open>orchestration_store.rs\<close>); \<open>Workspace_References\<close> the references
    between saved pipelines (\<^verbatim>\<open>subpipelines.rs\<close>); \<open>Workspace_Definitions\<close>, \<open>Host_Runs\<close>, \<open>Managed_Agents\<close> and
    \<open>Automations\<close> the transactions of \<^verbatim>\<open>orchestration_api.rs\<close> on definitions and graphs, on runs, by agents,
    and by schedules and events; \<open>Triggers\<close> the decision core of \<^verbatim>\<open>orchestration_triggers.rs\<close>. An operation
    is a function from the staged workspaces to an error or the changed ones, and a transaction makes it
    durable. \<open>Definition_Laws\<close> states what the definition trait promises (locale \<open>definition_laws\<close>,
    interpreted for profiles, teams, pipelines and commands); \<open>Workspace_Integrity\<close> the referential integrity
    of a project; \<open>Host_State\<close> the host as a state machine (\<open>host_request\<close>, \<open>serve\<close>, \<open>host_reachable\<close>, with
    restarts) and its invariant. \<open>Host_Samples\<close> is a concrete host; \<open>Host_Properties\<close>, \<open>Trigger_Properties\<close>,
    \<open>Automation_Properties\<close> and \<open>Edit_Properties\<close> hold the properties.
  \<^item> \<open>Lifecycle\<close> collects the operations as values and defines the step relation \<open>run_step\<close> and the
    reachable runs; \<open>Scheduling_Facts\<close>, \<open>Run_Invariant\<close>, \<open>Recovery\<close>, \<open>Run_Behaviour\<close> and
    \<open>Run_Progress\<close> hold the lemmas about them; \<open>Samples\<close>, \<open>Run_Samples\<close> and \<open>Run_Evaluations\<close> the concrete runs;
    \<open>Definition_Properties\<close> the properties of validators and contracts; this theory the properties
    of runs.

  \<^bold>\<open>What is shown.\<close> The run invariant holds in every reachable run (C1); no update is lost (C2);
  uncertain work is never replayed and completions are recorded once (C3, C4); the cycle checks are exact
  (C5, C20); spawning never gains authority (C6); runs load again (C7) except after a fail-fast beside a
  lease (C36); scheduling, automatic steps, repetition, review, restarts and cancellation do what their
  comments promise (C8 to C12, C17, C19), without deadlock (C15); run inputs respect their contract (C25);
  path patterns are matched exactly and schedules fire at a fixed rate (C30, C31); the codec reads and
  writes frames exactly (C38, C39). Of the host: every run it can reach satisfies the invariant and every
  project keeps its referential integrity, over all requests and restarts (C13, C16); a transaction refines
  one atomic change and is durable (C18), except that a run which cannot be loaded erases the journal
  (C35); an event starts a run only within its guards, once, and in bounded chains (C21, C24, C29); file
  automations fire within theirs, and the deadline of the engine is exact (C33, C14); edits of pipelines
  are not lost (C34), messages of agents are sent once (C40), and a profile with duplicate tool rules blocks
  all runs (C37). Of the board: its invariant holds in every reachable board (C22) and no live claim is
  taken over (C26); a transaction over the file store refines one atomic change (C27); closing a card
  unblocks exactly its dependents (C28); a full card loses its rollback (C32); agents stay within
  permissions and budget (C23). Further theorems cover stale callers, conditions, cancelled tasks, child
  runs and their depth, llm steps, harness names, refused starts, ended runs and proposals of the board,
  the history of automations, the routes of spawned agents, input tokens, reviews, pins, script output,
  bounded text and version ranges.

  \<^bold>\<open>Bounds and fuel.\<close> Kahn's loop gets one pass more than there are steps and provably ends with an
  empty ready set; the loops of the automatic steps get one pass more than there are tasks, which the
  locale \<open>bounded_loop\<close> shows to be more than they use, because every pass settles a ready task. The
  search for sub-pipeline cycles is a partial function and is proved to return on finite stores; so is
  the wildcard loop of path patterns, which is proved to return always. All
  other loops are total functions with a measure.

  \<^bold>\<open>Parameters.\<close> \<open>serde_json\<close> is a record of the two functions the code calls (\<open>from_str\<close> and
  \<open>to_string\<close>; the codec takes its byte variants); \<open>chrono\<close> is a record of the date functions with the
  documented laws \<open>chrono_laws\<close>; the board takes identifiers, time formatting and lower-casing from
  \<open>board_env\<close> (identifiers never repeat where a theorem says \<open>inj (uuid env)\<close>), the clock, the run engine and the
  store from \<open>board_host\<close>, its document codec with the law \<open>codec_ok\<close>, and the scores of \<^verbatim>\<open>similarity.rs\<close>, which
  are floating point numbers, from \<open>similarity\<close>; the derived decoder of a whole run is the argument \<open>decode\<close> of \<open>deserialize_run\<close>; the journal takes
  its codec from \<open>journal_codec\<close> with the law \<open>journal_codec_ok\<close>, and the host these with SHA-256 from \<open>host_env\<close>.
  Strings are byte strings.

  \<^bold>\<open>Not modelled.\<close> The rest of the desktop host (\<^verbatim>\<open>apps/desktop/src-tauri\<close>: Tauri commands with their checks of
  the project folder, the async scheduler \<^verbatim>\<open>orchestration_scheduler.rs\<close>, the engines that feed the trigger core
  and complete parent steps, the fusion proxy), the native bridges and process supervision (\<^verbatim>\<open>piui-runtime\<close> but
  its codec), the session index (\<^verbatim>\<open>piui-index\<close>), operating system access (\<^verbatim>\<open>piui-platform\<close>) and the user
  interface: they are I/O over files, processes and networks. The reachable hosts are those of the
  requests in \<open>host_request\<close>: the commands that edit teammates, import pipelines and archive or delete runs
  (\<^verbatim>\<open>teammates_api.rs\<close>, \<^verbatim>\<open>pipeline_library.rs\<close>, \<^verbatim>\<open>orchestration_run_debugging.rs\<close>) are not among them. Of the
  board, the Tauri commands (\<^verbatim>\<open>board/mod.rs\<close>); poisoned locks are left out everywhere, and methods under one
  lock are modelled as sequential. The archive reader and the manifests of \<^verbatim>\<open>piui-plugins\<close> are not covered.
\<close>

section \<open>The run as a state machine\<close>

text \<open>C1. Every run that the coordinator's operations can produce satisfies the run invariant: its
  definition is valid, its tasks match the steps of the pipeline one to one, every task record is
  well formed for its status, and messages and requests are unique and authorised.\<close>

theorem reachable_run_inv:
  assumes "reachable sj r"
  shows "run_inv sj r"
  using assms by (rule reachable_inv)

theorem reachable_run_inv_witness: "run_inv sample_json failed_beside"
  by (rule reachable_run_inv[OF samples_reachable(7)])

text \<open>C2. No update is lost. When an operation changed a reachable run, its caller knew the current
  revision, and every other operation that still expects that revision is refused and changes
  nothing.\<close>

theorem updates_not_lost:
  assumes "reachable sj r" "Suc (length (run_tasks r)) < 2 ^ 64"
    and "execute sj op e r = (res, r')" "r' \<noteq> r"
  shows "e = run_revision r \<and> (\<exists>err. execute sj op' e r' = (Inl err, r'))"
  using coordinator.changed(1)[OF reachable_inv[OF assms(1)] assms(2,3,4)]
    coordinator.no_lost_update[OF reachable_inv[OF assms(1)] assms(2,3,4)] by blast

theorem updates_not_lost_witness:
  "\<exists>err. execute sample_json CancelRun 0 dispatched = (Inl err, dispatched)"
proof -
  let ?op = "DispatchNext sample_execution"
  have x: "execute sample_json ?op 0 (sample_run two_steps) =
      (fst (execute sample_json ?op 0 (sample_run two_steps)), dispatched)"
    unfolding dispatched_def by (rule after_op_execute)
  have c: "dispatched \<noteq> sample_run two_steps" using two_steps_facts(2) by auto
  from updates_not_lost[OF samples_reachable(1) two_steps_facts(1) x c] show ?thesis by blast
qed

text \<open>A stale revision is refused by every operation of the coordinator, whatever its arguments, and
  the run is left as it was.\<close>

theorem stale_operation_refused:
  assumes "e \<noteq> run_revision r"
  shows "\<exists>err. execute sj op e r = (Inl err, r)"
  by (rule execute_stale[OF assms])

theorem stale_operation_refused_witness:
  "\<exists>err. execute sample_json Restore 7 (sample_run two_steps) = (Inl err, sample_run two_steps)"
  by (rule stale_operation_refused[OF two_steps_facts(3)])

text \<open>C3. Uncertain work is never replayed. No operation but the two explicit resolutions (reconcile and
  retry) changes a task whose outcome is uncertain: no restart, repeat, review, cancellation, lease
  or completion of another task touches it.\<close>

theorem uncertain_never_replayed:
  assumes "reachable sj r" "\<not> resolves_uncertainty op" "execute sj op e r = (res, r')"
    and "t \<in> set (run_tasks r)" "task_status t = Uncertain"
  shows "t \<in> set (run_tasks r')"
proof -
  have "spares r r'" using execute_spares[OF reachable_inv[OF assms(1)] assms(2), of sj e] assms(3) by simp
  moreover obtain k where "k < length (run_tasks r)" "run_tasks r ! k = t"
    using assms(4) by (auto simp: in_set_conv_nth)
  ultimately have "run_tasks r' ! k = t" "k < length (run_tasks r')"
    using assms(5) by (auto simp: spares_def list_all2_conv_all_nth)
  then show ?thesis using nth_mem by fastforce
qed

theorem uncertain_never_replayed_witness:
  "hd (run_tasks unsure) \<in> set (run_tasks (after_op (ControlFlow (Repeat ''s1'' 2)) 2 unsure))"
proof (rule uncertain_never_replayed[OF samples_reachable(5)])
  show "execute sample_json (ControlFlow (Repeat ''s1'' 2)) 2 unsure =
      (fst (execute sample_json (ControlFlow (Repeat ''s1'' 2)) 2 unsure),
       after_op (ControlFlow (Repeat ''s1'' 2)) 2 unsure)"
    by (rule after_op_execute)
  show "hd (run_tasks unsure) \<in> set (run_tasks unsure)" using unsure_facts(1) by simp
  show "task_status (hd (run_tasks unsure)) = Uncertain" by (rule unsure_facts(2))
qed simp






section \<open>Scheduling\<close>

text \<open>C8. Leasing the next task picks, after the automatic steps, the least of the ready steps: it is
  unleased, its dependencies have succeeded, it is executed by an agent, and its data does not come
  from a pin. The lease names the revisions the run then has, and only that task changes.\<close>

theorem lease_picks_least_ready:
  assumes "reachable sj r" "lease_next_task sj e l r = (Inr (Some lease), r')"
  shows "\<exists>k step. let a = advance_automatic sj r in
           e = run_revision r \<and> find_step a (lease_step_id lease) = Some step \<and>
           \<not> is_host_executed step \<and> \<not> admitted_from_pin a step \<and>
           task_index a (lease_step_id lease) = Some k \<and> task_ready a (run_tasks a ! k) \<and>
           (\<forall>i\<in>set (ready_task_ids a). lease_step_id lease \<le> i) \<and>
           r' = take_lease l k a \<and> lease_lease_id lease = l \<and>
           lease_run_revision lease = run_revision r' \<and>
           lease_task_revision lease = task_revision (run_tasks r' ! k)"
  using lease_next_task_ok[OF reachable_inv[OF assms(1)] assms(2)] unfolding Let_def by metis

theorem lease_picks_least_ready_witness:
  "lease_run_revision (the (projr (fst (lease_next_task sample_json 0 ''l'' (sample_run two_steps))))) =
   run_revision (snd (lease_next_task sample_json 0 ''l'' (sample_run two_steps)))"
proof -
  let ?x = "lease_next_task sample_json 0 ''l'' (sample_run two_steps)"
  have x: "?x = (Inr (Some (the (projr (fst ?x)))), snd ?x)" using two_steps_facts(4) by (metis prod.collapse)
  from lease_picks_least_ready[OF samples_reachable(1) x] show ?thesis unfolding Let_def by blast
qed



text \<open>Applying conditions and routes to a reachable run ends with nothing left to skip, and it only
  turns ready, unleased tasks into skipped ones.\<close>

theorem conditions_settle:
  assumes "reachable sj r"
  shows "skipped_ids (advance_conditions r) = [] \<and>
         list_all2 (\<lambda>t t'. t' = t \<or> (task_status t = Ready \<and> task_lease_id t = None \<and>
             t' = bump (t\<lparr>task_status := Skipped\<rparr>))) (run_tasks r) (run_tasks (advance_conditions r))"
  using advance_conditions_fixed advance_conditions_skips[OF run_inv_distinct(2)[OF reachable_inv[OF assms]]]
  unfolding skips_def[abs_def] by blast

theorem conditions_settle_witness: "skipped_ids (advance_conditions (sample_run chained_steps)) = []"
  using conditions_settle[OF samples_reachable(2)] by blast



text \<open>C19. A run that reports success is done: every task of a reachable run with the succeeded status has
  succeeded, was skipped, or is an unleased template that nobody called.\<close>

theorem succeeded_run_is_done:
  assumes "reachable sj r" "run_status r = RunSucceeded" "t \<in> set (run_tasks r)"
  shows "task_status t \<in> {Succeeded, Skipped} \<or>
         (task_status t = Ready \<and> task_lease_id t = None \<and> callable_template r (task_step_id t))"
  using reachable_sound[OF assms(1)] assms(2,3)
  by (auto simp: status_sound_def all_done_def list_all_iff has_status_def idle_template_def)

theorem succeeded_run_is_done_witness:
  "run_status one_done = RunSucceeded \<and> task_status (hd (run_tasks one_done)) = Succeeded"
proof -
  have "reachable sample_json one_done"
    unfolding one_done_def by (intro after_op_reachable started_reachable[OF one_done_facts(1)])
  moreover have "hd (run_tasks one_done) \<in> set (run_tasks one_done)" using one_done_facts(3) by simp
  ultimately show ?thesis
    using succeeded_run_is_done[OF _ one_done_facts(2), of sample_json "hd (run_tasks one_done)"] one_done_facts(2,4,5)
    by auto
qed

section \<open>Repetition and review\<close>

text \<open>C10. Repeating a step resets exactly the steps that depend on it, directly or not, and itself: every
  other task is kept, no active, uncertain or leased task is overwritten, and every attempt that was
  executed is kept in the history.\<close>

theorem repeat_resets_downstream:
  assumes "repeat_from i r = (Inr u, r')"
  shows "run_tasks r' = map (\<lambda>t. if (i, task_step_id t) \<in> (dep_rel (run_steps r))\<^sup>* then reset_task t else t)
           (run_tasks r) \<and>
         (\<forall>t\<in>set (run_tasks r). (i, task_step_id t) \<in> (dep_rel (run_steps r))\<^sup>* \<longrightarrow>
           task_status t \<notin> {Running, Uncertain} \<and> task_lease_id t = None) \<and>
         run_attempts r' = run_attempts r @
           filter (\<lambda>t. (i, task_step_id t) \<in> (dep_rel (run_steps r))\<^sup>* \<and> task_execution t \<noteq> None) (run_tasks r)"
  using repeat_from_ok[OF assms] by blast

theorem repeat_resets_downstream_witness:
  "run_tasks (snd (repeat_from ''s1'' completed)) =
   map (\<lambda>t. if (''s1'', task_step_id t) \<in> (dep_rel (run_steps completed))\<^sup>* then reset_task t else t)
     (run_tasks completed)"
proof -
  have "repeat_from ''s1'' completed = (Inr (), snd (repeat_from ''s1'' completed))"
    using completed_facts(7) by (metis prod.collapse)
  from repeat_resets_downstream[OF this] show ?thesis by blast
qed



section \<open>Restarts and cancellation\<close>

text \<open>C12. Restoring a run after a restart marks exactly the interrupted tasks uncertain (leased ones, and
  running ones that are not waiting for a child run), changes no other task, leaves nothing to
  restore, and does nothing at all when nothing was interrupted.\<close>

theorem restore_marks_interrupted:
  assumes "reachable sj r" "restore (run_revision r) r = (res, r')"
  shows "res = Inr () \<and> \<not> needs_restore r' \<and> (\<not> needs_restore r \<longrightarrow> r' = r) \<and>
         run_tasks r' = map (\<lambda>t. if interrupted_by_restart r t
             then bump (t\<lparr>task_status := Uncertain, task_lease_id := None\<rparr>) else t) (run_tasks r)"
  using restore_ok[OF reachable_inv[OF assms(1)] assms(2)] restore_tasks[OF reachable_inv[OF assms(1)]] assms(2)
  by auto

theorem restore_marks_interrupted_witness:
  "needs_restore dispatched \<and> \<not> needs_restore (snd (restore (run_revision dispatched) dispatched))"
proof -
  have "restore (run_revision dispatched) dispatched =
      (fst (restore (run_revision dispatched) dispatched), snd (restore (run_revision dispatched) dispatched))"
    by simp
  from restore_marks_interrupted[OF samples_reachable(3) this]
  show ?thesis using dispatched_facts(5) by blast
qed

text \<open>C17. Cancelling a run stops everything: no task is ready, running or awaiting approval afterwards,
  nothing is ready to be scheduled, and exactly the running executions are asked to stop, each once
  and in the order of the steps.\<close>

theorem cancel_run_stops:
  assumes "cancel_run e r = (Inr reqs, r')"
  shows "(\<forall>t\<in>set (run_tasks r'). task_status t \<notin> {Ready, Running, AwaitingApproval}) \<and>
         run_status r' = RunCancelled \<and> ready_task_ids r' = [] \<and> sorted (map cancel_step_id reqs) \<and>
         set reqs = {\<lparr>cancel_run_id = run_id r, cancel_step_id = task_step_id t, cancel_execution = x\<rparr> | t x.
           t \<in> set (run_tasks r) \<and> task_status t = Running \<and> task_execution t = Some x}"
  using cancel_run_ok[OF assms] by blast

theorem cancel_run_stops_witness: "run_status (snd (cancel_run 1 dispatched)) = RunCancelled"
proof -
  have "cancel_run 1 dispatched = (Inr (projr (fst (cancel_run 1 dispatched))), snd (cancel_run 1 dispatched))"
    using dispatched_facts(6) by (metis prod.collapse)
  from cancel_run_stops[OF this] show ?thesis by blast
qed

text \<open>Cancelling a task closes everything behind it: the task itself is cancelled without a lease, and
  no ready task is left that depends on a cancelled one, at any distance.\<close>

theorem cancel_task_closes_downstream:
  assumes "cancel_task i e r = (Inr u, r')"
  shows "(\<exists>t\<in>set (run_tasks r'). task_step_id t = i \<and> task_status t = Cancelled \<and> task_lease_id t = None) \<and>
         \<not> (\<exists>s\<in>set (run_steps r'). \<exists>d\<in>set (step_dependency_step_ids s).
              \<exists>t\<in>set (run_tasks r'). \<exists>t'\<in>set (run_tasks r'). task_step_id t = step_id s \<and>
                task_status t = Ready \<and> task_step_id t' = d \<and> task_status t' = Cancelled)"
  using cancel_task_ok[OF assms] unfolding is_blocked_iff by metis

theorem cancel_task_closes_downstream_witness:
  "\<exists>t\<in>set (run_tasks (snd (cancel_task ''s1'' 0 (sample_run chained_steps)))).
     task_step_id t = ''s1'' \<and> task_status t = Cancelled"
proof -
  let ?x = "cancel_task ''s1'' 0 (sample_run chained_steps)"
  have "?x = (Inr (), snd ?x)" using chained_steps_facts by (metis prod.collapse)
  from cancel_task_closes_downstream[OF this] show ?thesis by blast
qed

section \<open>Agents\<close>

text \<open>A spawned agent gets no route its actor does not have: every send edge the spawn adds runs
  between the new member and either the actor itself, a member that may send to the actor (towards
  the new member), or a member the actor may send to (from the new member).\<close>

theorem spawned_agent_routes:
  assumes "add_spawned_agent sj actor q p nm ins r = (Inr n, r')"
    and "e \<in> set (send_edges (def_team (run_definition r')))"
    and "e \<notin> set (send_edges (def_team (run_definition r)))"
  shows "(\<exists>x. e = \<lparr>from_member_id = x, to_member_id = n\<rparr> \<and>
            (x = actor \<or> authorize_send (def_team (run_definition r)) x actor = Inr ())) \<or>
         (\<exists>x. e = \<lparr>from_member_id = n, to_member_id = x\<rparr> \<and>
            (x = actor \<or> authorize_send (def_team (run_definition r)) actor x = Inr ()))"
proof -
  let ?d = "spawned_definition (run_definition r) actor n p nm ins"
  obtain m where m: "find (\<lambda>m. member_id m = actor) (team_members (def_team (run_definition r))) = Some m"
    and v: "validate_definition sj ?d = Inr ()" and r': "run_definition r' = ?d"
    using assms(1) by (auto simp: add_spawned_agent_def require_def Let_def bump_run_def
        split: sum.splits option.splits if_splits)
  have "distinct (map member_id (team_members (def_team ?d)))"
    using validate_definition_parts(2)[OF v] unique_ids_ok by (fastforce simp: validate_team_def)
  then have n: "n \<notin> member_id ` set (team_members (def_team (run_definition r)))"
    by (auto simp: spawned_definition_def Let_def)
  moreover have "actor \<in> member_id ` set (team_members (def_team (run_definition r)))"
    using find_Some_set[OF m] by auto
  ultimately have "n \<noteq> actor" by auto
  from spawned_routes[OF assms(2)[unfolded r'] assms(3) n this] show ?thesis .
qed

theorem spawned_agent_routes_witness:
  "let x = add_spawned_agent sample_json ''a'' ''q1'' ''q'' ''N'' ''do'' (sample_run two_steps);
       e = \<lparr>from_member_id = ''a'', to_member_id = ''agent-q1''\<rparr>
   in e \<in> set (send_edges (def_team (run_definition (snd x)))) \<and>
      (\<exists>y. e = \<lparr>from_member_id = y, to_member_id = ''agent-q1''\<rparr> \<and>
         (y = ''a'' \<or> authorize_send (def_team (run_definition (sample_run two_steps))) y ''a'' = Inr ()))"
proof -
  let ?x = "add_spawned_agent sample_json ''a'' ''q1'' ''q'' ''N'' ''do'' (sample_run two_steps)"
  have "?x = (Inr ''agent-q1'', snd ?x)" using spawned_facts(1) by (metis prod.collapse)
  from spawned_agent_routes[OF this spawned_facts(2,3)] spawned_facts(2) show ?thesis unfolding Let_def by auto
qed

section \<open>Child runs\<close>

text \<open>C20. The search for sub-pipeline cycles ends on every finite store of launch commands, and answers
  whether a command can be reached that refers to itself, directly or through others.\<close>

theorem subpipeline_cycle_exact:
  assumes "finite {i. pipeline_of i \<noteq> None}"
  shows "subpipeline_cycle start pipeline_of = Some (cycle_reachable (child_commands pipeline_of) start)"
  by (rule subpipeline_cycle_correct[OF assms])

theorem subpipeline_cycle_exact_witness: "cycle_reachable (child_commands recursive_store) ''c''"
proof -
  have "{i. recursive_store i \<noteq> None} = {''c''}" by (auto simp: recursive_store_def)
  then have f: "finite {i. recursive_store i \<noteq> None}" by simp
  from subpipeline_cycle_exact[OF f, of "''c''"] show ?thesis by (simp add: recursive_store_cyclic)
qed

text \<open>Child runs nest at most four levels deep: a sub-pipeline step gets a trigger one level below its
  run, and it is refused exactly when its run already is at the last level.\<close>

theorem child_run_depth:
  assumes "depth = (case pil_parent_trigger l of None \<Rightarrow> 0 | Some t \<Rightarrow> trigger_subpipeline_depth t)"
  shows "(unat depth \<ge> 4 \<longrightarrow> child_trigger l = Inl SUBPIPELINE_DEPTH) \<and>
         (unat depth < 4 \<longrightarrow> (\<exists>t. child_trigger l = Inr t \<and>
            trigger_pipeline_parent t = Some (hl_run_id l, hl_step_id l) \<and>
            unat (trigger_subpipeline_depth t) = unat depth + 1))"
proof -
  have plus: "unat (depth + 1) = unat depth + 1" if "unat depth < 255"
    using that by (simp add: unat_plus_if_size word_size)
  have deeper: "MAX_SUBPIPELINE_DEPTH < u8_saturating_add depth 1 \<longleftrightarrow> 4 \<le> unat depth"
    using plus by (cases "unat depth < 255")
      (auto simp: u8_saturating_add_def MAX_SUBPIPELINE_DEPTH_def word_less_nat_alt)
  show ?thesis
    using plus deeper unfolding child_trigger_def Let_def assms[symmetric]
    by (auto simp: u8_saturating_add_def)
qed

theorem child_run_depth_witness:
  "\<exists>t. child_trigger \<lparr>hl_run_id = ''r'', hl_run_revision = 0, hl_task_revision = 0, hl_lease_id = ''l'',
      hl_step_id = ''s'', hl_step_name = ''S'', hl_inputs = [], hl_dependencies = [],
      pil_launch_command_id = ''c'', pil_sources = [], pil_parent_trigger = None\<rparr> = Inr t \<and>
    unat (trigger_subpipeline_depth t) = 1"
  using child_run_depth[of "0 :: 8 word" "\<lparr>hl_run_id = ''r'', hl_run_revision = 0, hl_task_revision = 0,
      hl_lease_id = ''l'', hl_step_id = ''s'', hl_step_name = ''S'', hl_inputs = [], hl_dependencies = [],
      pil_launch_command_id = ''c'', pil_sources = [], pil_parent_trigger = None\<rparr>"] by auto

text \<open>A child run completes its step only when it has succeeded, failed or was cancelled; when it
  succeeded with declared outputs, every output whose step succeeded is in the recorded data with a
  value of the declared kind.\<close>

theorem child_outputs_contract:
  assumes "child_completion sj child texts = Some (PipelineSucceeded (Some data) whole)"
    and "distinct (map out_name (child_declared child))"
  shows "run_status child = RunSucceeded \<and>
         (\<forall>out\<in>set (child_declared child). \<exists>t. find_task child (out_source_step_id out) = Some t \<and>
            (task_status t = Succeeded \<longrightarrow>
               (\<exists>v. bm_get data (out_name out) = Some v \<and> field_value_valid (out_kind out) v)))"
proof -
  have st: "run_status child = RunSucceeded" and co: "child_outputs sj child texts = Inr (Some data, whole)"
    using assms(1) by (auto simp: child_completion_def split: run_status.splits sum.splits)
  from co obtain found present where
    l: "child_outputs_loop sj child texts (child_declared child) [] [] = Inr (found, present)"
    and v: "(case validate_result_value present (JObject found) of
        Inl _ \<Rightarrow> Inl SUBPIPELINE_OUTPUT_UNAVAILABLE | Inr _ \<Rightarrow> Inr (Some found, None)) = Inr (Some data, whole)"
    by (auto simp: child_outputs_def split: if_splits)
  then have loop: "child_outputs_loop sj child texts (child_declared child) [] [] = Inr (data, present)"
    and ok: "validate_result_value present (JObject data) = Inr ()"
    by (cases "validate_result_value present (JObject found)"; simp)+
  have "\<exists>v. bm_get data (field_name f) = Some v \<and> field_value_valid (field_kind f) v" if "f \<in> set present" for f
    using ok that unfolding validate_result_value_ok satisfies_fields_def by auto
  with child_outputs_loop_ok[OF loop assms(2)] st show ?thesis by fastforce
qed

theorem child_outputs_contract_witness:
  "child_completion sample_json child_run [(''s1'', ''yes'')] =
     Some (PipelineSucceeded (Some [(''answer'', JString ''yes'')]) None) \<and>
   run_status child_run = RunSucceeded"
  using child_outputs_contract[OF child_run_facts] child_run_facts(1) by blast

end
